(* ===== verification/Prelude.thy ===== *)
theory Prelude
  imports Main "HOL-Library.Word" "HOL-Library.List_Lexorder" "HOL-Library.Char_ord"
    "HOL-Library.AList"
begin

text \<open>
  Shared ground of the development: the types the model uses for Go's integers, byte slices
  and strings; programs with state and errors, with the rules by which invariants pass
  through them; big- and little-endian encodings; prefix codes; association lists with the
  lookups and updates of a Go map.
\<close>

section \<open>Types\<close>

text \<open>
  A Go \<^verbatim>\<open>string\<close> is a byte sequence, as an Isabelle \<^typ>\<open>string\<close> is (a \<^typ>\<open>char\<close> is a byte);
  \<^verbatim>\<open>[]byte\<close> is a list of 8-bit words. Go's \<^verbatim>\<open>int64\<close> and \<^verbatim>\<open>uint64\<close> share the type of 64-bit
  words: a signed reading is written \<^const>\<open>sint\<close>, so \<^verbatim>\<open>uint64(x)\<close> and \<^verbatim>\<open>int64(x)\<close> are the
  identity, as they are on the machine. Times are nanoseconds since the Unix epoch.
\<close>

type_synonym byte = "8 word"
type_synonym bytes = "byte list"
type_synonym u8 = "8 word"
type_synonym u32 = "32 word"
type_synonym u64 = "64 word"
type_synonym i64 = "64 word"
type_synonym go_time = int

lemma byte_bound [simp]: "unat (w :: byte) < 256"
  using unsigned_less [of w] by simp

lemma u32_bound: "unat (w :: u32) < 4294967296"
  using unsigned_less [of w] by simp

lemma u64_bound: "unat (w :: u64) < 18446744073709551616"
  using unsigned_less [of w] by simp

lemma of_nat_u64_inj:
  assumes "(of_nat k :: u64) = of_nat k'" and "k < 2 ^ 64" and "k' < 2 ^ 64"
  shows "k = k'"
proof -
  have "unat (of_nat k :: u64) = unat (of_nat k' :: u64)" using assms(1) by simp
  with assms(2,3) show ?thesis by (simp add: unat_of_nat)
qed

lemma unat_ucast_u32 [simp]: "unat (ucast (w :: u32) :: u64) = unat w"
proof -
  have "unat w < 2 ^ 64" using u32_bound [of w] by simp
  then show ?thesis by (simp add: unsigned_ucast_eq take_bit_nat_eq_self)
qed

lemma ucast_u32_inj: "(ucast (v :: u32) :: u64) = ucast w \<Longrightarrow> v = w"
  by (metis unat_ucast_u32 word_unat_eq_iff)

lemma ucast_ucast_u32 [simp]: "(ucast (ucast (w :: u32) :: u64) :: u32) = w"
  by transfer simp

lemma sint_ucast_u32 [simp]: "sint (ucast (w :: u32) :: i64) = int (unat w)"
  by transfer (simp add: signed_take_bit_eq_if_positive bit_take_bit_iff)

text \<open>The signed reading of a 64-bit word.\<close>

lemma sint_of_i64: "- (2 ^ 63) \<le> i \<Longrightarrow> i < 2 ^ 63 \<Longrightarrow> sint (of_int i :: i64) = i"
  by (simp add: sint_sbintrunc' signed_take_bit_int_eq_self)

lemma sint_bounds: "- (2 ^ 63) \<le> sint (w :: i64) \<and> sint w < 2 ^ 63"
  using sint_range_size [of w] by (simp add: word_size)

lemma sint_plus1: "sint (w :: i64) \<noteq> 2 ^ 63 - 1 \<Longrightarrow> sint (w + 1) = sint w + 1"
proof -
  assume "sint w \<noteq> 2 ^ 63 - 1"
  with sint_bounds [of w] have "sint w + 1 < 2 ^ 63" and "- (2 ^ 63) \<le> sint w + 1" by simp_all
  then have "sint (of_int (sint w + 1) :: i64) = sint w + 1" by (rule sint_of_i64 [rotated])
  then show ?thesis by simp
qed

lemma sint_max_plus1: "sint (w :: i64) = 2 ^ 63 - 1 \<Longrightarrow> sint (w + 1) < 0"
proof -
  assume a: "sint w = 2 ^ 63 - 1"
  have "w = of_int (sint w)" by simp
  then have "w = 9223372036854775807" unfolding a by simp
  then show ?thesis by simp
qed

lemma sint_eq_int_iff: "sint (w :: i64) = int n \<longleftrightarrow> unat w = n \<and> n < 2 ^ 63"
proof
  assume a: "sint w = int n"
  with sint_bounds [of w] have n: "n < 2 ^ 63" by simp
  have "w = of_int (sint w)" by simp
  then have "w = of_nat n" using a by simp
  with n show "unat w = n \<and> n < 2 ^ 63" by (simp add: unat_of_nat)
next
  assume "unat w = n \<and> n < 2 ^ 63"
  moreover from this have "w = of_int (int n)" by auto
  ultimately show "sint w = int n" using sint_of_i64 [of "int n"] by simp
qed

definition str_bytes :: "string \<Rightarrow> bytes" where
  "str_bytes s = map (\<lambda>c. of_nat (of_char c)) s"

definition bytes_str :: "bytes \<Rightarrow> string" where
  "bytes_str b = map (\<lambda>w. char_of (unat w)) b"

lemma length_str_bytes [simp]: "length (str_bytes s) = length s"
  by (simp add: str_bytes_def)

lemma length_bytes_str [simp]: "length (bytes_str b) = length b"
  by (simp add: bytes_str_def)

lemma char_byte: "char_of (unat (of_nat (of_char c) :: byte)) = c"
proof -
  have "(of_char c :: nat) < 256" by simp
  then have "unat (of_nat (of_char c) :: byte) = of_char c"
    by (simp add: unat_of_nat)
  then show ?thesis by simp
qed

lemma bytes_str_str_bytes [simp]: "bytes_str (str_bytes s) = s"
  by (simp add: bytes_str_def str_bytes_def char_byte map_idI)

lemma str_bytes_bytes_str [simp]: "str_bytes (bytes_str b) = b"
proof -
  have "of_nat (of_char (char_of (unat w) :: char)) = w" for w :: byte
  proof -
    have "unat w < 256" by simp
    then show ?thesis by simp
  qed
  then show ?thesis by (simp add: bytes_str_def str_bytes_def map_idI)
qed

lemma str_bytes_inject [simp]: "str_bytes s = str_bytes t \<longleftrightarrow> s = t"
  by (metis bytes_str_str_bytes)

text \<open>The zero \<^verbatim>\<open>time.Time\<close> (year 1) on the nanosecond axis, \<^verbatim>\<open>Time.UnixMilli\<close> and its inverse.\<close>

definition zero_time :: go_time where
  "zero_time = -62135596800000000000"

definition unix_milli :: "go_time \<Rightarrow> int" where
  "unix_milli t = t div 1000000"

definition from_milli :: "int \<Rightarrow> go_time" where
  "from_milli ms = ms * 1000000"

lemma unix_milli_from_milli [simp]: "unix_milli (from_milli ms) = ms"
  by (simp add: unix_milli_def from_milli_def)

section \<open>Programs with state and errors\<close>

text \<open>
  A Go function that returns \<^verbatim>\<open>(T, error)\<close> and works on shared state is a function from the
  state to an error or a value, and the state it leaves. The state survives an error: what a
  Go function did before it returned the error stays done.
\<close>

type_synonym ('s, 'e, 'a) prog = "'s \<Rightarrow> ('e + 'a) \<times> 's"

definition mreturn :: "'a \<Rightarrow> ('s, 'e, 'a) prog" where
  "mreturn x = (\<lambda>s. (Inr x, s))"

definition mthrow :: "'e \<Rightarrow> ('s, 'e, 'a) prog" where
  "mthrow e = (\<lambda>s. (Inl e, s))"

definition mbind :: "('s, 'e, 'a) prog \<Rightarrow> ('a \<Rightarrow> ('s, 'e, 'b) prog) \<Rightarrow> ('s, 'e, 'b) prog" where
  "mbind m f = (\<lambda>s. case m s of (Inl e, t) \<Rightarrow> (Inl e, t) | (Inr x, t) \<Rightarrow> f x t)"

definition mget :: "('s \<Rightarrow> 'a) \<Rightarrow> ('s, 'e, 'a) prog" where
  "mget f = (\<lambda>s. (Inr (f s), s))"

definition mmodify :: "('s \<Rightarrow> 's) \<Rightarrow> ('s, 'e, unit) prog" where
  "mmodify g = (\<lambda>s. (Inr (), g s))"

definition mlift :: "'e + 'a \<Rightarrow> ('s, 'e, 'a) prog" where
  "mlift r = (\<lambda>s. (r, s))"

definition mguard :: "bool \<Rightarrow> 'e \<Rightarrow> ('s, 'e, unit) prog" where
  "mguard b e = (if b then mreturn () else mthrow e)"

fun mfor :: "'x list \<Rightarrow> ('x \<Rightarrow> ('s, 'e, unit) prog) \<Rightarrow> ('s, 'e, unit) prog" where
  "mfor [] f = mreturn ()"
| "mfor (x # xs) f = mbind (f x) (\<lambda>_. mfor xs f)"

text \<open>How a compound program produces a value or an error, for the simplifier.\<close>

named_theorems prog_simps

lemma mreturn_eq [prog_simps]: "mreturn x s = (Inr x, s)"
  by (simp add: mreturn_def)

lemma mthrow_eq [prog_simps]: "mthrow e s = (Inl e, s)"
  by (simp add: mthrow_def)

lemma mget_eq [prog_simps]: "mget f s = (Inr (f s), s)"
  by (simp add: mget_def)

lemma mmodify_eq [prog_simps]: "mmodify g s = (Inr (), g s)"
  by (simp add: mmodify_def)

lemma mlift_eq [prog_simps]: "mlift r s = (r, s)"
  by (simp add: mlift_def)

lemma mguard_eq [prog_simps]: "mguard b e s = (if b then (Inr (), s) else (Inl e, s))"
  by (simp add: mguard_def prog_simps)

lemma mbind_unfold: "mbind m f s = (case m s of (Inl e, t) \<Rightarrow> (Inl e, t) | (Inr x, t) \<Rightarrow> f x t)"
  by (simp add: mbind_def)

lemma mbind_Inr: "m s = (Inr x, t) \<Longrightarrow> mbind m f s = f x t"
  by (simp add: mbind_def)

lemma mbind_Inl: "m s = (Inl e, t) \<Longrightarrow> mbind m f s = (Inl e, t)"
  by (simp add: mbind_def)

lemma mbind_Inr_iff: "mbind m f s = (Inr y, t) \<longleftrightarrow> (\<exists>x u. m s = (Inr x, u) \<and> f x u = (Inr y, t))"
  by (auto simp: mbind_def split: prod.splits sum.splits)

lemma mbind_Inl_iff:
  "mbind m f s = (Inl e, t) \<longleftrightarrow>
     m s = (Inl e, t) \<or> (\<exists>x u. m s = (Inr x, u) \<and> f x u = (Inl e, t))"
  by (auto simp: mbind_def split: prod.splits sum.splits)

lemma mbind_return [simp]: "mbind (mreturn x) f = f x"
  by (rule ext) (simp add: mbind_def prog_simps)

lemma mbind_throw [simp]: "mbind (mthrow e) f = mthrow e"
  by (rule ext) (simp add: mbind_def prog_simps)

lemma mbind_get [simp]: "mbind (mget g) f s = f (g s) s"
  by (simp add: mbind_def prog_simps)

lemma mbind_modify [simp]: "mbind (mmodify h) f s = f () (h s)"
  by (simp add: mbind_def prog_simps)

lemma mbind_assoc: "mbind (mbind m f) g = mbind m (\<lambda>x. mbind (f x) g)"
  by (rule ext) (auto simp: mbind_def split: prod.splits sum.splits)

subsection \<open>Relations a program respects\<close>

text \<open>
  A reflexive and transitive relation between the state before and the state after passes
  through every program built from parts that respect it. Invariants, frame conditions and
  monotone counters are all of this kind; the locale carries the rules for them once.
\<close>

definition obeys :: "('s \<Rightarrow> 's \<Rightarrow> bool) \<Rightarrow> ('s, 'e, 'a) prog \<Rightarrow> bool" where
  "obeys R m \<longleftrightarrow> (\<forall>s. R s (snd (m s)))"

definition keeps_inv :: "('s \<Rightarrow> bool) \<Rightarrow> 's \<Rightarrow> 's \<Rightarrow> bool" where
  "keeps_inv P s t \<longleftrightarrow> (P s \<longrightarrow> P t)"

definition same_on :: "('s \<Rightarrow> 'a) \<Rightarrow> 's \<Rightarrow> 's \<Rightarrow> bool" where
  "same_on f s t \<longleftrightarrow> f t = f s"

definition grows_on :: "('s \<Rightarrow> 'a::preorder) \<Rightarrow> 's \<Rightarrow> 's \<Rightarrow> bool" where
  "grows_on f s t \<longleftrightarrow> f s \<le> f t"

locale effect =
  fixes R :: "'s \<Rightarrow> 's \<Rightarrow> bool"
  assumes refl: "R s s"
    and trans: "R s t \<Longrightarrow> R t u \<Longrightarrow> R s u"
begin

lemma okI: "(\<And>s. R s (snd (m s))) \<Longrightarrow> obeys R m"
  by (simp add: obeys_def)

lemma okD: "obeys R m \<Longrightarrow> m s = (r, t) \<Longrightarrow> R s t"
  by (auto simp: obeys_def dest: spec [of _ s])

lemma ok_return: "obeys R (mreturn x)"
  by (simp add: obeys_def prog_simps refl)

lemma ok_throw: "obeys R (mthrow e)"
  by (simp add: obeys_def prog_simps refl)

lemma ok_get: "obeys R (mget f)"
  by (simp add: obeys_def prog_simps refl)

lemma ok_lift: "obeys R (mlift r)"
  by (simp add: obeys_def prog_simps refl)

lemma ok_guard: "obeys R (mguard b e)"
  by (simp add: obeys_def prog_simps refl)

lemma ok_modify: "(\<And>s. R s (g s)) \<Longrightarrow> obeys R (mmodify g)"
  by (simp add: obeys_def prog_simps)

lemma ok_read: "(\<And>x. obeys R (f x)) \<Longrightarrow> obeys R (\<lambda>s. f (g s) s)"
  by (simp add: obeys_def)

lemma ok_bind:
  assumes "obeys R m" and "\<And>x. obeys R (f x)"
  shows "obeys R (mbind m f)"
proof (rule okI)
  fix s
  obtain r t where m: "m s = (r, t)" by (cases "m s")
  have st: "R s t" using assms(1) m by (rule okD)
  show "R s (snd (mbind m f s))"
  proof (cases r)
    case (Inl e)
    with m st show ?thesis by (simp add: mbind_def)
  next
    case (Inr x)
    have "R t (snd (f x t))" using assms(2) by (simp add: obeys_def)
    with st have "R s (snd (f x t))" by (rule trans)
    with m Inr show ?thesis by (simp add: mbind_def)
  qed
qed

lemma ok_if: "obeys R m \<Longrightarrow> obeys R n \<Longrightarrow> obeys R (if b then m else n)"
  by simp

lemma ok_option: "obeys R m \<Longrightarrow> (\<And>x. obeys R (f x)) \<Longrightarrow> obeys R (case v of None \<Rightarrow> m | Some x \<Rightarrow> f x)"
  by (simp split: option.split)

lemma ok_sum: "(\<And>e. obeys R (h e)) \<Longrightarrow> (\<And>x. obeys R (f x)) \<Longrightarrow> obeys R (case v of Inl e \<Rightarrow> h e | Inr x \<Rightarrow> f x)"
  by (simp split: sum.split)

lemma ok_pair: "(\<And>x y. obeys R (f x y)) \<Longrightarrow> obeys R (case v of (x, y) \<Rightarrow> f x y)"
  by (simp split: prod.split)

lemma ok_for: "(\<And>x. obeys R (f x)) \<Longrightarrow> obeys R (mfor xs f)"
  by (induction xs) (auto intro: ok_return ok_bind)

lemmas ok_intros = ok_return ok_throw ok_get ok_lift ok_guard ok_bind ok_if ok_option ok_sum
  ok_pair ok_for

end

text \<open>An invariant; a part of the state that does not change; a counter that never falls.\<close>

interpretation inv: effect "keeps_inv P" for P
  by unfold_locales (auto simp: keeps_inv_def)

interpretation same: effect "same_on f" for f
  by unfold_locales (auto simp: same_on_def)

interpretation grows: effect "grows_on f" for f
  by unfold_locales (auto simp: grows_on_def intro: order_trans)

lemma inv_okD: "obeys (keeps_inv P) m \<Longrightarrow> m s = (r, t) \<Longrightarrow> P s \<Longrightarrow> P t"
  using inv.okD unfolding keeps_inv_def by fastforce

text \<open>What a step establishes may serve the rest of the program as a stronger invariant.\<close>

lemma keeps_post:
  assumes "obeys (keeps_inv I) m" and "\<And>s x t. I s \<Longrightarrow> m s = (Inr x, t) \<Longrightarrow> J x t"
    and "\<And>x. obeys (keeps_inv (J x)) (f x)" and "\<And>x s. J x s \<Longrightarrow> I s"
  shows "obeys (keeps_inv I) (mbind m f)"
  unfolding obeys_def keeps_inv_def
proof (intro allI impI)
  fix s assume i: "I s"
  obtain r t where m: "m s = (r, t)" by (cases "m s")
  show "I (snd (mbind m f s))"
  proof (cases r)
    case (Inl e)
    with m inv_okD [OF assms(1) m i] show ?thesis by (simp add: mbind_def)
  next
    case (Inr x)
    with m i have "J x t" using assms(2) by blast
    with assms(3) have "J x (snd (f x t))" by (simp add: obeys_def keeps_inv_def)
    with m Inr show ?thesis by (simp add: mbind_def assms(4))
  qed
qed

lemma obeys_lift: "(\<And>e. r = Inl e \<Longrightarrow> obeys R (mthrow e)) \<Longrightarrow> (\<And>x. r = Inr x \<Longrightarrow> obeys R (f x)) \<Longrightarrow> obeys R (mbind (mlift r) f)"
  by (cases r) (simp_all add: obeys_def mbind_def prog_simps)

lemma same_okD: "obeys (same_on f) m \<Longrightarrow> m s = (r, t) \<Longrightarrow> f t = f s"
  using same.okD unfolding same_on_def by fastforce

lemma grows_okD: "obeys (grows_on f) m \<Longrightarrow> m s = (r, t) \<Longrightarrow> f s \<le> f t"
  using grows.okD unfolding grows_on_def by fastforce

subsection \<open>Runs that succeed\<close>

text \<open>
  A run that returns a value with a property of the value and the final state. The equations
  compute the condition under which a compound program runs through.
\<close>

named_theorems wp

definition runs :: "('s, 'e, 'a) prog \<Rightarrow> 's \<Rightarrow> ('a \<Rightarrow> 's \<Rightarrow> bool) \<Rightarrow> bool" where
  "runs m s Q \<longleftrightarrow> (\<exists>x t. m s = (Inr x, t) \<and> Q x t)"

lemma runsI: "m s = (Inr x, t) \<Longrightarrow> Q x t \<Longrightarrow> runs m s Q"
  by (auto simp: runs_def)

lemma runsE: "runs m s Q \<Longrightarrow> (\<And>x t. m s = (Inr x, t) \<Longrightarrow> Q x t \<Longrightarrow> thesis) \<Longrightarrow> thesis"
  by (auto simp: runs_def)

lemma runs_mono: "runs m s Q \<Longrightarrow> (\<And>x t. Q x t \<Longrightarrow> R x t) \<Longrightarrow> runs m s R"
  by (auto simp: runs_def)

lemma runs_bind [wp]: "runs (mbind m f) s Q \<longleftrightarrow> runs m s (\<lambda>x t. runs (f x) t Q)"
  by (auto simp: runs_def mbind_Inr_iff)

lemma runs_return [wp]: "runs (mreturn x) s Q \<longleftrightarrow> Q x s"
  by (auto simp: runs_def prog_simps)

lemma runs_throw [wp]: "\<not> runs (mthrow e) s Q"
  by (auto simp: runs_def prog_simps)

lemma runs_get [wp]: "runs (mget g) s Q \<longleftrightarrow> Q (g s) s"
  by (auto simp: runs_def prog_simps)

lemma runs_modify [wp]: "runs (mmodify g) s Q \<longleftrightarrow> Q () (g s)"
  by (auto simp: runs_def prog_simps)

lemma runs_lift [wp]: "runs (mlift r) s Q \<longleftrightarrow> (\<exists>x. r = Inr x \<and> Q x s)"
  by (auto simp: runs_def prog_simps)

lemma runs_guard [wp]: "runs (mguard b e) s Q \<longleftrightarrow> b \<and> Q () s"
  by (auto simp: runs_def prog_simps)

subsection \<open>Results without state\<close>

definition sbind :: "'e + 'a \<Rightarrow> ('a \<Rightarrow> 'e + 'b) \<Rightarrow> 'e + 'b" where
  "sbind r f = (case r of Inl e \<Rightarrow> Inl e | Inr x \<Rightarrow> f x)"

lemma sbind_simps [simp]: "sbind (Inl e) f = Inl e" "sbind (Inr x) f = f x"
  by (simp_all add: sbind_def)

lemma sbind_Inr_iff: "sbind r f = Inr y \<longleftrightarrow> (\<exists>x. r = Inr x \<and> f x = Inr y)"
  by (cases r) auto

lemma sbind_Inl_iff: "sbind r f = Inl e \<longleftrightarrow> r = Inl e \<or> (\<exists>x. r = Inr x \<and> f x = Inl e)"
  by (cases r) auto

fun smap :: "('x \<Rightarrow> 'e + 'a) \<Rightarrow> 'x list \<Rightarrow> 'e + 'a list" where
  "smap f [] = Inr []"
| "smap f (x # xs) = sbind (f x) (\<lambda>y. sbind (smap f xs) (\<lambda>ys. Inr (y # ys)))"

lemma smap_Inr_iff: "smap f xs = Inr ys \<longleftrightarrow> list_all2 (\<lambda>x y. f x = Inr y) xs ys"
proof (induction xs arbitrary: ys)
  case Nil
  then show ?case by auto
next
  case (Cons x xs)
  then show ?case by (cases ys) (auto simp: sbind_Inr_iff)
qed

lemma smap_total: "(\<And>x. x \<in> set xs \<Longrightarrow> f x = Inr (g x)) \<Longrightarrow> smap f xs = Inr (map g xs)"
  by (induction xs) auto

section \<open>Big- and little-endian encodings\<close>

text \<open>\<^verbatim>\<open>binary.BigEndian\<close> and \<^verbatim>\<open>binary.LittleEndian\<close> of Go, at any width.\<close>

fun be_bytes :: "nat \<Rightarrow> nat \<Rightarrow> bytes" where
  "be_bytes 0 v = []"
| "be_bytes (Suc n) v = be_bytes n (v div 256) @ [of_nat (v mod 256)]"

definition be_nat :: "bytes \<Rightarrow> nat" where
  "be_nat b = foldl (\<lambda>a w. a * 256 + unat w) 0 b"

lemma length_be_bytes [simp]: "length (be_bytes n v) = n"
  by (induction n arbitrary: v) auto

lemma be_nat_snoc: "be_nat (b @ [w]) = be_nat b * 256 + unat w"
  by (simp add: be_nat_def)

lemma be_nat_Nil [simp]: "be_nat [] = 0"
  by (simp add: be_nat_def)

lemma be_nat_be_bytes: "be_nat (be_bytes n v) = v mod 256 ^ n"
proof (induction n arbitrary: v)
  case 0
  then show ?case by simp
next
  case (Suc n)
  have m: "unat (of_nat (v mod 256) :: byte) = v mod 256"
    by (simp add: unat_of_nat)
  have "v mod (256 * 256 ^ n) = 256 * (v div 256 mod 256 ^ n) + v mod 256"
    by (rule mod_mult2_eq)
  then show ?case
    by (simp add: be_nat_snoc Suc.IH m mult.commute)
qed

lemma be_nat_bound: "be_nat b < 256 ^ length b"
proof (induction b rule: rev_induct)
  case Nil
  then show ?case by simp
next
  case (snoc w b)
  have "be_nat b * 256 + unat w < (be_nat b + 1) * 256"
    using byte_bound [of w] by simp
  also have "\<dots> \<le> 256 ^ length b * 256"
    using snoc by (intro mult_right_mono) simp_all
  finally show ?case by (simp add: be_nat_snoc)
qed

lemma be_bytes_be_nat: "be_bytes (length b) (be_nat b) = b"
proof (induction b rule: rev_induct)
  case Nil
  then show ?case by simp
next
  case (snoc w b)
  have w: "unat w < 256" by simp
  then have "(be_nat b * 256 + unat w) div 256 = be_nat b"
    and "(be_nat b * 256 + unat w) mod 256 = unat w" by simp_all
  with snoc show ?case by (simp add: be_nat_snoc del: div_mult_self3)
qed

definition be32 :: "u32 \<Rightarrow> bytes" where
  "be32 w = be_bytes 4 (unat w)"

definition be64 :: "u64 \<Rightarrow> bytes" where
  "be64 w = be_bytes 8 (unat w)"

definition le32 :: "u32 \<Rightarrow> bytes" where
  "le32 w = rev (be_bytes 4 (unat w))"

definition of_be32 :: "bytes \<Rightarrow> u32" where
  "of_be32 b = of_nat (be_nat b)"

definition of_be64 :: "bytes \<Rightarrow> u64" where
  "of_be64 b = of_nat (be_nat b)"

definition of_le32 :: "bytes \<Rightarrow> u32" where
  "of_le32 b = of_nat (be_nat (rev b))"

lemma length_be [simp]: "length (be32 v) = 4" "length (be64 w) = 8" "length (le32 v) = 4"
  by (simp_all add: be32_def be64_def le32_def)

lemma of_be32_be32 [simp]: "of_be32 (be32 w) = w"
proof -
  have "unat w < 256 ^ 4" using u32_bound [of w] by simp
  then show ?thesis by (simp add: of_be32_def be32_def be_nat_be_bytes)
qed

lemma of_be64_be64 [simp]: "of_be64 (be64 w) = w"
proof -
  have "unat w < 256 ^ 8" using u64_bound [of w] by simp
  then show ?thesis by (simp add: of_be64_def be64_def be_nat_be_bytes)
qed

lemma of_le32_le32 [simp]: "of_le32 (le32 w) = w"
proof -
  have "unat w < 256 ^ 4" using u32_bound [of w] by simp
  then show ?thesis by (simp add: of_le32_def le32_def be_nat_be_bytes)
qed

lemma be32_of_be32: "length b = 4 \<Longrightarrow> be32 (of_be32 b) = b"
  using be_nat_bound [of b] be_bytes_be_nat [of b] by (simp add: be32_def of_be32_def unat_of_nat)

lemma be64_of_be64: "length b = 8 \<Longrightarrow> be64 (of_be64 b) = b"
  using be_nat_bound [of b] be_bytes_be_nat [of b] by (simp add: be64_def of_be64_def unat_of_nat)

lemma le32_of_le32: "length b = 4 \<Longrightarrow> le32 (of_le32 b) = b"
  using be_nat_bound [of "rev b"] be_bytes_be_nat [of "rev b"]
  by (simp add: le32_def of_le32_def unat_of_nat)

lemma be_inject [simp]:
  "be32 v = be32 v' \<longleftrightarrow> v = v'" "be64 w = be64 w' \<longleftrightarrow> w = w'" "le32 v = le32 v' \<longleftrightarrow> v = v'"
  by (metis of_be32_be32, metis of_be64_be64, metis of_le32_le32)

section \<open>Prefix codes\<close>

text \<open>
  An encoding whose code words can be told apart whatever follows them. A sequence of such
  words of known number then has one reading only; that is what length-prefixed
  serialisations rely on.
\<close>

locale prefix_code =
  fixes enc :: "'a \<Rightarrow> bytes" and dom :: "'a \<Rightarrow> bool"
  assumes prefix_inj: "dom x \<Longrightarrow> dom y \<Longrightarrow> enc x @ r = enc y @ r' \<Longrightarrow> x = y \<and> r = r'"
begin

lemma enc_inj: "dom x \<Longrightarrow> dom y \<Longrightarrow> enc x = enc y \<Longrightarrow> x = y"
  using prefix_inj [of x y "[]" "[]"] by simp

lemma sequence_inj:
  assumes "list_all dom xs" and "list_all dom ys" and "length xs = length ys"
    and "concat (map enc xs) @ r = concat (map enc ys) @ r'"
  shows "xs = ys \<and> r = r'"
  using assms(3,1,2,4)
proof (induction xs ys rule: list_induct2)
  case Nil
  then show ?case by simp
next
  case (Cons x xs y ys)
  from Cons.prems have d: "dom x" "dom y" and ds: "list_all dom xs" "list_all dom ys"
    and e: "enc x @ (concat (map enc xs) @ r) = enc y @ (concat (map enc ys) @ r')" by simp_all
  from prefix_inj [OF d e] have "x = y" and "concat (map enc xs) @ r = concat (map enc ys) @ r'"
    by simp_all
  with Cons.IH ds show ?case by simp
qed

end

interpretation be64: prefix_code be64 "\<lambda>_. True"
  by unfold_locales simp

interpretation be32: prefix_code be32 "\<lambda>_. True"
  by unfold_locales simp

section \<open>Go maps as association lists\<close>

text \<open>
  A Go map that the program iterates is a list of pairs with distinct keys; the order of the
  list stands for the order of one iteration, which Go leaves open. \<^const>\<open>map_of\<close> looks up,
  \<^const>\<open>AList.update\<close> stores, \<^const>\<open>AList.delete\<close> is \<^verbatim>\<open>delete(m, k)\<close>.
\<close>

lemma map_of_update [simp]: "map_of (AList.update k v m) = (map_of m)(k \<mapsto> v)"
  by (simp add: update_conv')

lemma map_of_delete [simp]: "map_of (AList.delete k m) = (map_of m)(k := None)"
  by (simp add: delete_conv')

lemma distinct_keys_update [simp]:
  "distinct (map fst m) \<Longrightarrow> distinct (map fst (AList.update k v m))"
  by (rule distinct_update)

lemma distinct_keys_delete [simp]:
  "distinct (map fst m) \<Longrightarrow> distinct (map fst (AList.delete k m))"
  by (rule distinct_delete)

lemma map_of_distinct_mem: "distinct (map fst m) \<Longrightarrow> (k, v) \<in> set m \<longleftrightarrow> map_of m k = Some v"
  by simp

end
