(* ===== verification/Shared.thy ===== *)
theory Shared
  imports Prelude
begin

text \<open>
  The shared kernel (\<^verbatim>\<open>internal/shared/domain\<close>): the errors of the bounded contexts as one
  datatype, 16-byte identifiers with their hexadecimal text form, and the treatment of a
  nil-pointer panic, which no error branch of the program catches.
\<close>

section \<open>Errors\<close>

text \<open>
  One constructor per error value the Go packages declare, plus the failures of the runtime:
  \<open>ErrRandom\<close> (the random source), \<open>ErrNoRows\<close> (\<^verbatim>\<open>sql.ErrNoRows\<close>), \<open>ErrConstraint\<close> and
  \<open>ErrIO\<close> (any other error of SQLite or the file system), \<open>ErrOther\<close> for an error with a text
  only, \<open>ErrAPI\<close> for what the daemon reported to a client (a code and a message), and \<open>Panic\<close>.
\<close>

datatype err =
    ErrVaultLocked | ErrVaultNotFound | ErrVaultExists | ErrAuthenticationFail
  | ErrRecordNotFound | ErrRevisionConflict | ErrAuthorizationDeny | ErrIntegrityFailure
  | ErrValidation | ErrClientNotFound | ErrConflict
  | ErrInvalidID | ErrWeakPassword | ErrRateLimited
  | ErrWeakKDFParams | ErrExcessiveKDFParams | ErrSaltTooShort
  | ErrDecryptFailed | ErrBadNonce | ErrBadKey | ErrRandom
  | ErrNoRows | ErrConstraint | ErrIO | ErrNoState
  | ErrBadContainer | ErrWrongVault
  | ErrFrameTooLarge | ErrBadFrame | ErrUnknownMode | ErrProtocolViolation
  | ErrHandshakeFailed | ErrStaticKeyMismatch | ErrTransportAEAD
  | ErrMessageTooLarge | ErrBadMessage | ErrModeRefused | ErrOriginDenied | ErrEOF
  | ErrOther string | ErrAPI string string
  | Panic

text \<open>
  Code that looks at an error (\<^verbatim>\<open>if err != nil\<close> with a branch that goes on) receives it as a
  value; a panic goes through.
\<close>

definition attempt :: "('s, err, 'a) prog \<Rightarrow> ('s, err, err + 'a) prog" where
  "attempt m = (\<lambda>s. case m s of (Inl Panic, t) \<Rightarrow> (Inl Panic, t) | (r, t) \<Rightarrow> (Inr r, t))"

definition replace_error :: "err \<Rightarrow> ('s, err, 'a) prog \<Rightarrow> ('s, err, 'a) prog" where
  "replace_error e m = mbind (attempt m) (\<lambda>r. case r of Inl _ \<Rightarrow> mthrow e | Inr x \<Rightarrow> mreturn x)"

definition ignore_error :: "('s, err, 'a) prog \<Rightarrow> ('s, err, unit) prog" where
  "ignore_error m = mbind (attempt m) (\<lambda>_. mreturn ())"

lemma attempt_Inr: "m s = (Inr x, t) \<Longrightarrow> attempt m s = (Inr (Inr x), t)"
  by (simp add: attempt_def)

lemma attempt_Inl: "m s = (Inl e, t) \<Longrightarrow> e \<noteq> Panic \<Longrightarrow> attempt m s = (Inr (Inl e), t)"
  by (cases e) (simp_all add: attempt_def)

lemma attempt_panic: "m s = (Inl Panic, t) \<Longrightarrow> attempt m s = (Inl Panic, t)"
  by (simp add: attempt_def)

lemma snd_attempt [simp]: "snd (attempt m s) = snd (m s)"
proof (cases "m s")
  case (Pair r t)
  show ?thesis
  proof (cases r)
    case (Inl e)
    with Pair show ?thesis by (cases e) (simp_all add: attempt_def)
  next
    case (Inr x)
    with Pair show ?thesis by (simp add: attempt_def)
  qed
qed

lemma attempt_Inr_iff:
  "attempt m s = (Inr r, t) \<longleftrightarrow> m s = (r, t) \<and> r \<noteq> Inl Panic"
proof (cases "m s")
  case (Pair r' t')
  show ?thesis
  proof (cases r')
    case (Inl e)
    with Pair show ?thesis by (cases e) (auto simp: attempt_def)
  next
    case (Inr x)
    with Pair show ?thesis by (auto simp: attempt_def)
  qed
qed

lemma attempt_Inl_iff: "attempt m s = (Inl e, t) \<longleftrightarrow> m s = (Inl Panic, t) \<and> e = Panic"
proof (cases "m s")
  case (Pair r' t')
  show ?thesis
  proof (cases r')
    case (Inl e')
    with Pair show ?thesis by (cases e') (auto simp: attempt_def)
  next
    case (Inr x)
    with Pair show ?thesis by (auto simp: attempt_def)
  qed
qed

lemma sum_prog_iff:
  "(case r of Inl e \<Rightarrow> f e | Inr x \<Rightarrow> g x) s = q \<longleftrightarrow>
     (\<exists>e. r = Inl e \<and> f e s = q) \<or> (\<exists>x. r = Inr x \<and> g x s = q)"
  by (cases r) auto

lemma replace_error_Inr_iff [prog_simps]:
  "replace_error e m s = (Inr x, t) \<longleftrightarrow> m s = (Inr x, t)"
proof
  assume r: "replace_error e m s = (Inr x, t)"
  obtain v u where a: "attempt m s = (v, u)" by (cases "attempt m s")
  from r a obtain w where "v = Inr w" by (cases v) (auto simp: replace_error_def mbind_def)
  moreover from this r a obtain y where "w = Inr y" "y = x" "u = t"
    by (cases w) (auto simp: replace_error_def mbind_def prog_simps)
  ultimately show "m s = (Inr x, t)" using a by (simp add: attempt_Inr_iff)
next
  assume "m s = (Inr x, t)"
  then show "replace_error e m s = (Inr x, t)"
    by (simp add: replace_error_def mbind_def attempt_Inr prog_simps)
qed

lemma runs_replace_error [wp]: "runs (replace_error e m) s Q \<longleftrightarrow> runs m s Q"
  by (auto simp: runs_def replace_error_Inr_iff)

lemma runs_attempt_Inl: "m s = (Inl e, t) \<Longrightarrow> e \<noteq> Panic \<Longrightarrow> runs (attempt m) s Q \<longleftrightarrow> Q (Inl e) t"
  by (auto simp: runs_def attempt_Inl)

lemma runs_attempt_Inr: "m s = (Inr x, t) \<Longrightarrow> runs (attempt m) s Q \<longleftrightarrow> Q (Inr x) t"
  by (auto simp: runs_def attempt_Inr)

lemma replace_error_Inr: "m s = (Inr x, t) \<Longrightarrow> replace_error e m s = (Inr x, t)"
  by (simp add: replace_error_Inr_iff)

lemma replace_error_Inl:
  "m s = (Inl e', t) \<Longrightarrow> e' \<noteq> Panic \<Longrightarrow> replace_error e m s = (Inl e, t)"
  by (simp add: replace_error_def mbind_def attempt_Inl prog_simps)

lemma replace_error_panic: "m s = (Inl Panic, t) \<Longrightarrow> replace_error e m s = (Inl Panic, t)"
  by (simp add: replace_error_def mbind_def attempt_panic)

lemma snd_replace_error [simp]: "snd (replace_error e m s) = snd (m s)"
  by (cases "attempt m s")
    (auto simp: replace_error_def mbind_def prog_simps split: sum.splits dest: arg_cong [of _ _ snd])

lemma snd_ignore_error [simp]: "snd (ignore_error m s) = snd (m s)"
  by (cases "attempt m s")
    (auto simp: ignore_error_def mbind_def prog_simps split: sum.splits dest: arg_cong [of _ _ snd])

context effect begin

lemma ok_attempt: "obeys R m \<Longrightarrow> obeys R (attempt m)"
  by (simp add: obeys_def)

lemma ok_replace_error: "obeys R m \<Longrightarrow> obeys R (replace_error e m)"
  by (simp add: obeys_def)

lemma ok_ignore_error: "obeys R m \<Longrightarrow> obeys R (ignore_error m)"
  by (simp add: obeys_def)

lemmas ok_err = ok_attempt ok_replace_error ok_ignore_error

end

section \<open>Hexadecimal text (\<^verbatim>\<open>encoding/hex\<close>)\<close>

definition hex_digit :: "nat \<Rightarrow> char" where
  "hex_digit n = char_of (if n < 10 then 48 + n else 87 + n)"

definition hex_val :: "char \<Rightarrow> nat option" where
  "hex_val c =
     (let n = of_char c in
      if 48 \<le> n \<and> n \<le> 57 then Some (n - 48)
      else if 97 \<le> n \<and> n \<le> 102 then Some (n - 87)
      else if 65 \<le> n \<and> n \<le> 70 then Some (n - 55)
      else None)"

definition hex_encode :: "bytes \<Rightarrow> string" where
  "hex_encode b = concat (map (\<lambda>w. [hex_digit (unat w div 16), hex_digit (unat w mod 16)]) b)"

fun hex_decode :: "string \<Rightarrow> bytes option" where
  "hex_decode [] = Some []"
| "hex_decode [c] = None"
| "hex_decode (c # d # s) =
     (case (hex_val c, hex_val d, hex_decode s) of
        (Some h, Some l, Some b) \<Rightarrow> Some (of_nat (16 * h + l) # b)
      | _ \<Rightarrow> None)"

definition ascii_lower :: "char \<Rightarrow> char" where
  "ascii_lower c = (let n = (of_char c :: nat) in if 65 \<le> n \<and> n \<le> 90 then char_of (n + 32) else c)"

lemma hex_val_bound: "hex_val c = Some v \<Longrightarrow> v < 16"
  by (auto simp: hex_val_def Let_def split: if_splits)

lemma hex_digit_lower:
  assumes "hex_val c = Some v"
  shows "hex_digit v = ascii_lower c"
proof -
  have c: "char_of (of_char c :: nat) = c" by simp
  from assms consider "48 \<le> (of_char c :: nat)" "of_char c \<le> (57::nat)" "v = of_char c - 48"
    | "97 \<le> (of_char c :: nat)" "of_char c \<le> (102::nat)" "v = of_char c - 87"
    | "65 \<le> (of_char c :: nat)" "of_char c \<le> (70::nat)" "v = of_char c - 55"
    by (auto simp: hex_val_def Let_def split: if_splits)
  then show ?thesis
    by cases (auto simp: hex_digit_def ascii_lower_def Let_def c)
qed

lemma hex_val_digit_lower: "v < 16 \<Longrightarrow> hex_digit v = ascii_lower c \<Longrightarrow> hex_val c = Some v"
proof -
  assume v: "v < 16" and e: "hex_digit v = ascii_lower c"
  have d: "(of_char (hex_digit v) :: nat) = (if v < 10 then 48 + v else 87 + v)"
    using v by (simp add: hex_digit_def)
  let ?n = "of_char c :: nat"
  have b: "?n < 256" by simp
  show ?thesis
  proof (cases "65 \<le> ?n \<and> ?n \<le> 90")
    case True
    then have "(of_char (ascii_lower c) :: nat) = ?n + 32"
      by (simp add: ascii_lower_def Let_def)
    with d e True v show ?thesis
      by (auto simp: hex_val_def Let_def split: if_splits)
  next
    case False
    then have "(of_char (ascii_lower c) :: nat) = ?n"
      by (auto simp: ascii_lower_def Let_def)
    with d e False v show ?thesis
      by (auto simp: hex_val_def Let_def split: if_splits)
  qed
qed

lemma hex_val_iff: "hex_val c = Some v \<longleftrightarrow> v < 16 \<and> hex_digit v = ascii_lower c"
  using hex_val_bound hex_digit_lower hex_val_digit_lower by metis

lemma hex_encode_Nil [simp]: "hex_encode [] = []"
  and hex_encode_Cons [simp]:
    "hex_encode (w # b) = hex_digit (unat w div 16) # hex_digit (unat w mod 16) # hex_encode b"
  by (simp_all add: hex_encode_def)

lemma length_hex_encode [simp]: "length (hex_encode b) = 2 * length b"
  by (induction b) auto

text \<open>
  Decoding accepts a text exactly when its lower-case form is the encoding of some bytes,
  and then returns those bytes.
\<close>

lemma hex_decode_iff: "hex_decode s = Some b \<longleftrightarrow> hex_encode b = map ascii_lower s"
proof (induction s arbitrary: b rule: hex_decode.induct)
  case 1
  show ?case by (cases b) auto
next
  case (2 c)
  show ?case by (cases b) auto
next
  case (3 c d s)
  show ?case
  proof (cases b)
    case Nil
    then show ?thesis by (auto split: option.splits prod.splits)
  next
    case (Cons w b')
    have w: "unat w div 16 < 16" by (simp add: div_less_iff_less_mult)
    have split_w: "16 * (unat w div 16) + unat w mod 16 = unat w" by simp
    have "hex_decode (c # d # s) = Some (w # b') \<longleftrightarrow>
        (\<exists>h l. hex_val c = Some h \<and> hex_val d = Some l \<and> of_nat (16 * h + l) = w
               \<and> hex_decode s = Some b')"
      by (auto split: option.splits prod.splits)
    also have "\<dots> \<longleftrightarrow> hex_val c = Some (unat w div 16) \<and> hex_val d = Some (unat w mod 16)
               \<and> hex_decode s = Some b'"
    proof -
      have "of_nat (16 * h + l) = w \<longleftrightarrow> h = unat w div 16 \<and> l = unat w mod 16"
        if "h < 16" "l < 16" for h l
      proof -
        have "16 * h + l < 256" using that by simp
        then have u: "unat (of_nat (16 * h + l) :: byte) = 16 * h + l"
          by (simp only: unat_of_nat) simp
        show ?thesis
        proof
          assume "of_nat (16 * h + l) = w"
          with u have "unat w = 16 * h + l" by auto
          with that show "h = unat w div 16 \<and> l = unat w mod 16" by simp
        next
          assume "h = unat w div 16 \<and> l = unat w mod 16"
          then have "16 * h + l = unat w" using split_w by simp
          then show "of_nat (16 * h + l) = w" by simp
        qed
      qed
      moreover have "of_nat (16 * (unat w div 16) + unat w mod 16) = w"
        by (simp only: split_w) simp
      ultimately show ?thesis by (metis hex_val_bound)
    qed
    also have "\<dots> \<longleftrightarrow> hex_encode (w # b') = map ascii_lower (c # d # s)"
      using w by (auto simp: hex_val_iff "3.IH")
    finally show ?thesis using Cons by simp
  qed
qed

lemma ascii_lower_hex_digit [simp]: "n < 16 \<Longrightarrow> ascii_lower (hex_digit n) = hex_digit n"
  by (auto simp: ascii_lower_def hex_digit_def Let_def)

lemma lower_hex_encode [simp]: "map ascii_lower (hex_encode b) = hex_encode b"
  by (induction b) (simp_all add: div_less_iff_less_mult)

lemma hex_decode_encode [simp]: "hex_decode (hex_encode b) = Some b"
  by (simp add: hex_decode_iff)

lemma hex_encode_inject [simp]: "hex_encode a = hex_encode b \<longleftrightarrow> a = b"
  by (metis hex_decode_encode option.inject)

section \<open>Identifiers\<close>

text \<open>An \<^verbatim>\<open>ID\<close> is a \<^verbatim>\<open>[16]byte\<close>: a byte list that the two constructors make 16 long.\<close>

type_synonym ident = bytes

definition id_len :: nat where
  "id_len = 16"

definition id_from_bytes :: "bytes \<Rightarrow> err + ident" where
  "id_from_bytes b = (if length b \<noteq> id_len then Inl ErrInvalidID else Inr b)"

definition id_from_string :: "string \<Rightarrow> err + ident" where
  "id_from_string s =
     (case hex_decode s of None \<Rightarrow> Inl ErrInvalidID | Some b \<Rightarrow> id_from_bytes b)"

definition id_string :: "ident \<Rightarrow> string" where
  "id_string i = hex_encode i"

definition zero_id :: ident where
  "zero_id = replicate id_len 0"

definition id_is_zero :: "ident \<Rightarrow> bool" where
  "id_is_zero i = (i = zero_id)"

lemma length_zero_id [simp]: "length zero_id = 16"
  by (simp add: zero_id_def id_len_def)

lemma id_from_bytes_Inr_iff: "id_from_bytes b = Inr i \<longleftrightarrow> i = b \<and> length b = 16"
  by (auto simp: id_from_bytes_def id_len_def)

lemma id_from_bytes_16 [simp]: "length b = 16 \<Longrightarrow> id_from_bytes b = Inr b"
  by (simp add: id_from_bytes_Inr_iff)

lemma id_from_string_Inr_iff:
  "id_from_string s = Inr i \<longleftrightarrow> length i = 16 \<and> map ascii_lower s = id_string i"
proof (cases "hex_decode s")
  case None
  then have "hex_encode i \<noteq> map ascii_lower s" using hex_decode_iff [of s i] by simp
  then show ?thesis using None by (auto simp: id_from_string_def id_string_def)
next
  case (Some b)
  then have "hex_encode b = map ascii_lower s" by (simp add: hex_decode_iff)
  then have "map ascii_lower s = hex_encode i \<longleftrightarrow> i = b" by (metis hex_encode_inject)
  then show ?thesis
    using Some by (auto simp: id_from_string_def id_string_def id_from_bytes_Inr_iff)
qed

end
