(* ===== verification/Crypto.thy ===== *)
theory Crypto
  imports Shared
begin

text \<open>
  The cryptographic layer (\<^verbatim>\<open>internal/infrastructure/crypto\<close>): random bytes, bounds on the
  Argon2id cost, key derivation, sealing and opening, and the associated data that bind a
  ciphertext to its place. The primitives come from \<^verbatim>\<open>golang.org/x/crypto\<close> and from Go's
  \<^verbatim>\<open>crypto/sha256\<close> and \<^verbatim>\<open>crypto/hmac\<close>; they are a parameter of the model, and what the code
  relies on is stated as predicates on that parameter.
\<close>

section \<open>Primitives\<close>

record crypto_prims =
  argon2_idkey :: "bytes \<Rightarrow> bytes \<Rightarrow> u32 \<Rightarrow> u32 \<Rightarrow> u8 \<Rightarrow> nat \<Rightarrow> bytes"
  xchacha_seal :: "bytes \<Rightarrow> bytes \<Rightarrow> bytes \<Rightarrow> bytes \<Rightarrow> bytes"
  xchacha_open :: "bytes \<Rightarrow> bytes \<Rightarrow> bytes \<Rightarrow> bytes \<Rightarrow> bytes option"
  hkdf_sha256 :: "bytes \<Rightarrow> bytes \<Rightarrow> nat \<Rightarrow> bytes"
  sha256 :: "bytes \<Rightarrow> bytes"
  hmac_sha256 :: "bytes \<Rightarrow> bytes \<Rightarrow> bytes"

text \<open>
  Documented behaviour: the output widths, and that an AEAD opens what it sealed. That it
  opens nothing under other associated data is the (idealised) authenticity of the AEAD.
\<close>

definition prims_widths :: "crypto_prims \<Rightarrow> bool" where
  "prims_widths P \<longleftrightarrow>
     (\<forall>pw salt t m p n. length (argon2_idkey P pw salt t m p n) = n) \<and>
     (\<forall>k l n. length (hkdf_sha256 P k l n) = n) \<and>
     (\<forall>b. length (sha256 P b) = 32) \<and> (\<forall>k b. length (hmac_sha256 P k b) = 32)"

definition aead_correct :: "crypto_prims \<Rightarrow> bool" where
  "aead_correct P \<longleftrightarrow>
     (\<forall>k n p a. length k = 32 \<longrightarrow> length n = 24 \<longrightarrow>
        xchacha_open P k n (xchacha_seal P k n p a) a = Some p)"

definition aead_binds :: "crypto_prims \<Rightarrow> bool" where
  "aead_binds P \<longleftrightarrow>
     (\<forall>k n p a a'. a \<noteq> a' \<longrightarrow> xchacha_open P k n (xchacha_seal P k n p a) a' = None)"

section \<open>Randomness\<close>

text \<open>
  \<^verbatim>\<open>crypto/rand\<close> is an infinite stream of bytes with a read position; a read can fail.
\<close>

record entropy =
  rnd_src :: "nat \<Rightarrow> byte"
  rnd_ok :: "nat \<Rightarrow> bool"
  rnd_pos :: nat

definition random_bytes :: "nat \<Rightarrow> ('a entropy_scheme, err, bytes) prog" where
  "random_bytes n = (\<lambda>s.
     if rnd_ok s (rnd_pos s)
     then (Inr (map (rnd_src s) [rnd_pos s ..< rnd_pos s + n]), s\<lparr>rnd_pos := rnd_pos s + n\<rparr>)
     else (Inl ErrRandom, s\<lparr>rnd_pos := rnd_pos s + 1\<rparr>))"

definition key_size :: nat where "key_size = 32"
definition nonce_size :: nat where "nonce_size = 24"
definition salt_size :: nat where "salt_size = 16"

definition new_id :: "('a entropy_scheme, err, bytes) prog" where
  "new_id = random_bytes 16"

definition new_key :: "('a entropy_scheme, err, bytes) prog" where
  "new_key = random_bytes key_size"

definition new_nonce :: "('a entropy_scheme, err, bytes) prog" where
  "new_nonce = random_bytes nonce_size"

definition new_salt :: "('a entropy_scheme, err, bytes) prog" where
  "new_salt = random_bytes salt_size"

definition new_credential :: "('a entropy_scheme, err, bytes) prog" where
  "new_credential = random_bytes 32"

lemmas new_defs = new_id_def new_key_def new_nonce_def new_salt_def new_credential_def
  key_size_def nonce_size_def salt_size_def

lemma random_bytes_Inr:
  "random_bytes n s = (Inr b, t) \<Longrightarrow> length b = n \<and> t = s\<lparr>rnd_pos := rnd_pos s + n\<rparr>"
  by (auto simp: random_bytes_def split: if_splits)

lemma runs_random [wp]: "runs (random_bytes n) s Q \<longleftrightarrow>
    rnd_ok s (rnd_pos s) \<and> Q (map (rnd_src s) [rnd_pos s ..< rnd_pos s + n]) (s\<lparr>rnd_pos := rnd_pos s + n\<rparr>)"
  by (auto simp: runs_def random_bytes_def)

lemma random_bytes_not_panic: "random_bytes n s \<noteq> (Inl Panic, t)"
  by (auto simp: random_bytes_def split: if_splits)

lemma random_bytes_same: "obeys (same_on (\<lambda>s. (rnd_src s, rnd_ok s, entropy.more s))) (random_bytes n)"
  by (auto simp: obeys_def same_on_def random_bytes_def)

section \<open>Key derivation\<close>

record kdf_params =
  memory_kib :: u32
  iterations :: u32
  parallelism :: u8

definition kdf_validate :: "kdf_params \<Rightarrow> err option" where
  "kdf_validate p =
     (if memory_kib p < 65536 \<or> iterations p < 3 \<or> parallelism p < 1 then Some ErrWeakKDFParams
      else if memory_kib p > 1048576 \<or> iterations p > 20 \<or> parallelism p > 16
      then Some ErrExcessiveKDFParams
      else None)"

definition default_kdf_params :: kdf_params where
  "default_kdf_params = \<lparr>memory_kib = 131072, iterations = 3, parallelism = 4\<rparr>"

definition derive_kek :: "crypto_prims \<Rightarrow> bytes \<Rightarrow> bytes \<Rightarrow> kdf_params \<Rightarrow> err + bytes" where
  "derive_kek P password salt p =
     (case kdf_validate p of
        Some e \<Rightarrow> Inl e
      | None \<Rightarrow>
          if length salt < salt_size then Inl ErrSaltTooShort
          else Inr (argon2_idkey P password salt (iterations p) (memory_kib p) (parallelism p) key_size))"

definition label_metadata :: bytes where
  "label_metadata = str_bytes ''github.com/m7medVision/albear/v1/metadata''"
definition label_secrets :: bytes where
  "label_secrets = str_bytes ''github.com/m7medVision/albear/v1/secrets''"
definition label_audit :: bytes where
  "label_audit = str_bytes ''github.com/m7medVision/albear/v1/audit''"
definition label_backup :: bytes where
  "label_backup = str_bytes ''github.com/m7medVision/albear/v1/backup''"
definition label_catalog :: bytes where
  "label_catalog = str_bytes ''github.com/m7medVision/albear/v1/catalog''"

lemmas label_defs = label_metadata_def label_secrets_def label_audit_def label_backup_def
  label_catalog_def

definition derive_subkey :: "crypto_prims \<Rightarrow> bytes \<Rightarrow> bytes \<Rightarrow> err + bytes" where
  "derive_subkey P root_key label =
     (if length root_key \<noteq> key_size then Inl ErrBadKey
      else Inr (hkdf_sha256 P root_key label key_size))"

lemma derive_kek_not_panic: "derive_kek P pw salt p \<noteq> Inl Panic"
  by (auto simp: derive_kek_def kdf_validate_def split: if_splits)

lemma derive_kek_length: "prims_widths P \<Longrightarrow> derive_kek P pw salt p = Inr k \<Longrightarrow> length k = 32"
  by (auto simp: derive_kek_def prims_widths_def key_size_def split: option.splits if_splits)

lemma derive_subkey_Inr_iff:
  "derive_subkey P k l = Inr x \<longleftrightarrow> length k = 32 \<and> x = hkdf_sha256 P k l 32"
  by (auto simp: derive_subkey_def key_size_def)

lemma derive_subkey_length: "prims_widths P \<Longrightarrow> derive_subkey P k l = Inr x \<Longrightarrow> length x = 32"
  by (auto simp: derive_subkey_Inr_iff prims_widths_def)

section \<open>Sealing and opening\<close>

definition aead_args :: "bytes \<Rightarrow> bytes \<Rightarrow> err option" where
  "aead_args key nonce =
     (if length key \<noteq> key_size then Some ErrBadKey
      else if length nonce \<noteq> nonce_size then Some ErrBadNonce
      else None)"

definition seal :: "crypto_prims \<Rightarrow> bytes \<Rightarrow> bytes \<Rightarrow> bytes \<Rightarrow> bytes \<Rightarrow> err + bytes" where
  "seal P key nonce plaintext aad =
     (case aead_args key nonce of
        Some e \<Rightarrow> Inl e
      | None \<Rightarrow> Inr (xchacha_seal P key nonce plaintext aad))"

definition open_box :: "crypto_prims \<Rightarrow> bytes \<Rightarrow> bytes \<Rightarrow> bytes \<Rightarrow> bytes \<Rightarrow> err + bytes" where
  "open_box P key nonce ciphertext aad =
     (case aead_args key nonce of
        Some e \<Rightarrow> Inl e
      | None \<Rightarrow>
          (case xchacha_open P key nonce ciphertext aad of
             None \<Rightarrow> Inl ErrDecryptFailed
           | Some pt \<Rightarrow> Inr pt))"

definition credential_verifier :: "crypto_prims \<Rightarrow> bytes \<Rightarrow> bytes" where
  "credential_verifier P credential = sha256 P credential"

lemma seal_Inr_iff:
  "seal P k n p a = Inr c \<longleftrightarrow> length k = 32 \<and> length n = 24 \<and> c = xchacha_seal P k n p a"
  by (auto simp: seal_def aead_args_def key_size_def nonce_size_def)

lemma seal_not_panic: "seal P k n p a \<noteq> Inl Panic"
  by (simp add: seal_def aead_args_def)

lemma open_box_not_panic: "open_box P k n c a \<noteq> Inl Panic"
  by (simp add: open_box_def aead_args_def split: option.split)

lemma open_seal: "aead_correct P \<Longrightarrow> seal P k n p a = Inr c \<Longrightarrow> open_box P k n c a = Inr p"
  by (auto simp: seal_Inr_iff open_box_def aead_args_def key_size_def nonce_size_def aead_correct_def)

lemma open_other_aad:
  "aead_binds P \<Longrightarrow> seal P k n p a = Inr c \<Longrightarrow> a \<noteq> a' \<Longrightarrow> open_box P k n c a' = Inl ErrDecryptFailed"
  by (auto simp: seal_Inr_iff open_box_def aead_args_def key_size_def nonce_size_def aead_binds_def)

section \<open>Associated data\<close>

datatype payload_kind =
  PayloadMetadata | PayloadSecret | PayloadCanary | PayloadLabel | PayloadEvent | PayloadBackup

fun kind_byte :: "payload_kind \<Rightarrow> byte" where
  "kind_byte PayloadMetadata = 1"
| "kind_byte PayloadSecret = 2"
| "kind_byte PayloadCanary = 3"
| "kind_byte PayloadLabel = 4"
| "kind_byte PayloadEvent = 5"
| "kind_byte PayloadBackup = 6"

definition record_aad :: "bytes \<Rightarrow> bytes \<Rightarrow> u64 \<Rightarrow> payload_kind \<Rightarrow> u32 \<Rightarrow> u32 \<Rightarrow> bytes" where
  "record_aad vault_id record_id revision kind format_version key_version =
     vault_id @ record_id @ be64 revision @ [kind_byte kind] @ be32 format_version @ be32 key_version"

lemma kind_byte_inject [simp]: "kind_byte k = kind_byte k' \<longleftrightarrow> k = k'"
  by (cases k; cases k') simp_all

lemma length_record_aad [simp]:
  "length (record_aad v r n k f kv) = length v + length r + 17"
  by (simp add: record_aad_def)

lemma record_aad_inject:
  assumes "length v = length v'" and "length r = length r'"
  shows "record_aad v r n k f kv = record_aad v' r' n' k' f' kv' \<longleftrightarrow>
    v = v' \<and> r = r' \<and> n = n' \<and> k = k' \<and> f = f' \<and> kv = kv'"
  using assms by (auto simp: record_aad_def)

section \<open>A concrete instance of the primitives\<close>

text \<open>
  Transparent stand-ins that satisfy the documented behaviour, on which the witnesses of the
  development evaluate: the sealed box is key, nonce, associated data (each byte marked, so
  that its end shows) and plaintext side by side.
\<close>

definition pad :: "bytes \<Rightarrow> nat \<Rightarrow> bytes" where
  "pad b n = take n (b @ replicate n 0)"

fun marked :: "bytes \<Rightarrow> bytes" where
  "marked [] = [0]"
| "marked (x # xs) = 1 # x # marked xs"

definition box_header :: "bytes \<Rightarrow> bytes \<Rightarrow> bytes \<Rightarrow> bytes" where
  "box_header k n a = k @ n @ marked a"

definition plain_prims :: crypto_prims where
  "plain_prims =
     \<lparr>argon2_idkey = (\<lambda>pw salt t m p n. pad (pw @ salt) n),
      xchacha_seal = (\<lambda>k n p a. box_header k n a @ p),
      xchacha_open = (\<lambda>k n c a.
        if take (length (box_header k n a)) c = box_header k n a
        then Some (drop (length (box_header k n a)) c) else None),
      hkdf_sha256 = (\<lambda>k l n. pad (drop 33 l @ k) n),
      sha256 = (\<lambda>b. pad b 32),
      hmac_sha256 = (\<lambda>k b. pad (k @ b) 32)\<rparr>"

lemma length_pad [simp]: "length (pad b n) = n"
  by (simp add: pad_def)

lemma marked_prefix: "take (length (marked b)) (marked a @ p) = marked b \<Longrightarrow> a = b"
proof (induction a arbitrary: b)
  case Nil
  then show ?case by (cases b) auto
next
  case (Cons x a)
  then show ?case by (cases b) auto
qed

lemma plain_prims_widths: "prims_widths plain_prims"
  by (simp add: prims_widths_def plain_prims_def)

lemma plain_prims_correct: "aead_correct plain_prims"
  by (simp add: aead_correct_def plain_prims_def)

lemma plain_prims_binds: "aead_binds plain_prims"
  unfolding aead_binds_def plain_prims_def
  by (auto simp: box_header_def dest: marked_prefix [unfolded take_append])

end
