(* ===== verification/Store.thy ===== *)
theory Store
  imports Crypto
begin

text \<open>
  The vault database (\<^verbatim>\<open>internal/infrastructure/sqlite\<close>): its tables with their keys and CHECK
  constraints, the commands and queries the sqlc package holds, and transactions. SQLite
  itself is modelled by what the schema promises; every statement can also fail with an I/O
  error, which an oracle in the environment decides.
\<close>

section \<open>Tables\<close>

record vault_row =
  vr_vault_id :: bytes
  vr_format_version :: i64
  vr_active_envelope_version :: i64
  vr_created_at_ms :: i64
  vr_updated_at_ms :: i64

record envelope_row =
  er_envelope_version :: i64
  er_vault_id :: bytes
  er_kdf_algorithm :: string
  er_kdf_version :: i64
  er_kdf_salt :: bytes
  er_kdf_memory_kib :: i64
  er_kdf_iterations :: i64
  er_kdf_parallelism :: i64
  er_wrap_algorithm :: string
  er_wrap_nonce :: bytes
  er_wrapped_root_key :: bytes
  er_canary_nonce :: bytes
  er_encrypted_canary :: bytes
  er_created_at_ms :: i64

record record_row =
  rr_record_id :: bytes
  rr_key_version :: i64
  rr_revision :: i64
  rr_metadata_nonce :: bytes
  rr_metadata_ciphertext :: bytes
  rr_secret_nonce :: bytes
  rr_secret_ciphertext :: bytes
  rr_payload_version :: i64

record client_row =
  cr_client_id :: bytes
  cr_client_kind :: i64
  cr_status :: i64
  cr_capability_mask :: i64
  cr_credential_hash :: bytes
  cr_noise_static_pubkey :: bytes
  cr_label_nonce :: bytes
  cr_label_ciphertext :: bytes
  cr_created_at_ms :: i64
  cr_last_seen_at_ms :: "i64 option"

record event_row =
  sr_sequence_id :: i64
  sr_occurred_at_ms :: i64
  sr_severity :: i64
  sr_event_code :: i64
  sr_details_nonce :: "bytes option"
  sr_details_ciphertext :: "bytes option"

record state_row =
  st_state_counter :: i64
  st_state_root :: bytes
  st_updated_at_ms :: i64

record db =
  t_vault :: "vault_row option"
  t_envelopes :: "envelope_row list"
  t_records :: "record_row list"
  t_clients :: "client_row list"
  t_events :: "event_row list"
  t_event_seq :: i64
  t_state :: "state_row option"

definition empty_db :: db where
  "empty_db = \<lparr>t_vault = None, t_envelopes = [], t_records = [], t_clients = [],
     t_events = [], t_event_seq = 0, t_state = None\<rparr>"

text \<open>The CHECK constraints of \<^verbatim>\<open>0001_init.sql\<close> and \<^verbatim>\<open>0002\<close>, which the statements below run into.\<close>

definition vault_check :: "vault_row \<Rightarrow> bool" where
  "vault_check r \<longleftrightarrow> length (vr_vault_id r) = 16"

definition envelope_check :: "envelope_row \<Rightarrow> bool" where
  "envelope_check r \<longleftrightarrow>
     length (er_vault_id r) = 16 \<and> er_kdf_algorithm r = ''argon2id'' \<and>
     16 \<le> length (er_kdf_salt r) \<and> 65536 \<le> sint (er_kdf_memory_kib r) \<and>
     3 \<le> sint (er_kdf_iterations r) \<and> 1 \<le> sint (er_kdf_parallelism r) \<and>
     er_wrap_algorithm r = ''xchacha20poly1305'' \<and>
     length (er_wrap_nonce r) = 24 \<and> length (er_canary_nonce r) = 24"

definition record_check :: "record_row \<Rightarrow> bool" where
  "record_check r \<longleftrightarrow>
     length (rr_record_id r) = 16 \<and> 1 \<le> sint (rr_revision r) \<and>
     length (rr_metadata_nonce r) = 24 \<and> length (rr_secret_nonce r) = 24"

definition client_check :: "client_row \<Rightarrow> bool" where
  "client_check r \<longleftrightarrow>
     length (cr_client_id r) = 16 \<and> length (cr_credential_hash r) = 32 \<and>
     length (cr_noise_static_pubkey r) = 32 \<and> length (cr_label_nonce r) = 24"

definition event_check :: "event_row \<Rightarrow> bool" where
  "event_check r \<longleftrightarrow>
     (case (sr_details_nonce r, sr_details_ciphertext r) of
        (None, None) \<Rightarrow> True
      | (Some n, Some _) \<Rightarrow> length n = 24
      | _ \<Rightarrow> False)"

definition state_check :: "state_row \<Rightarrow> bool" where
  "state_check r \<longleftrightarrow> 0 \<le> sint (st_state_counter r) \<and> length (st_state_root r) = 32"

section \<open>A table with a primary key\<close>

definition pk_insert :: "('r \<Rightarrow> 'k) \<Rightarrow> ('r \<Rightarrow> bool) \<Rightarrow> 'r \<Rightarrow> 'r list \<Rightarrow> err + 'r list" where
  "pk_insert key chk r rows =
     (if \<not> chk r \<or> key r \<in> set (map key rows) then Inl ErrConstraint else Inr (rows @ [r]))"

definition pk_find :: "('r \<Rightarrow> 'k) \<Rightarrow> 'k \<Rightarrow> 'r list \<Rightarrow> 'r option" where
  "pk_find key k rows = find (\<lambda>r. key r = k) rows"

definition pk_delete :: "('r \<Rightarrow> 'k) \<Rightarrow> 'k \<Rightarrow> 'r list \<Rightarrow> nat \<times> 'r list" where
  "pk_delete key k rows =
     (length (filter (\<lambda>r. key r = k) rows), filter (\<lambda>r. key r \<noteq> k) rows)"

definition pk_update ::
  "('r \<Rightarrow> bool) \<Rightarrow> ('r \<Rightarrow> 'r) \<Rightarrow> ('r \<Rightarrow> bool) \<Rightarrow> 'r list \<Rightarrow> err + nat \<times> 'r list" where
  "pk_update sel upd chk rows =
     (if list_ex (\<lambda>r. sel r \<and> \<not> chk (upd r)) rows then Inl ErrConstraint
      else Inr (length (filter sel rows), map (\<lambda>r. if sel r then upd r else r) rows))"

definition table_ok :: "('r \<Rightarrow> 'k) \<Rightarrow> ('r \<Rightarrow> bool) \<Rightarrow> 'r list \<Rightarrow> bool" where
  "table_ok key chk rows \<longleftrightarrow> distinct (map key rows) \<and> list_all chk rows"

lemma pk_insert_Inr_iff:
  "pk_insert key chk r rows = Inr rows' \<longleftrightarrow>
     chk r \<and> key r \<notin> key ` set rows \<and> rows' = rows @ [r]"
  by (auto simp: pk_insert_def)

lemma pk_insert_ok: "table_ok key chk rows \<Longrightarrow> pk_insert key chk r rows = Inr rows' \<Longrightarrow> table_ok key chk rows'"
  by (auto simp: table_ok_def pk_insert_Inr_iff)

lemma pk_delete_ok: "table_ok key chk rows \<Longrightarrow> table_ok key chk (snd (pk_delete key k rows))"
  by (auto simp: table_ok_def pk_delete_def distinct_map list_all_iff intro: inj_on_subset)

lemma pk_update_ok:
  assumes "table_ok key chk rows" and "pk_update sel upd chk rows = Inr (n, rows')"
    and "\<And>r. key (upd r) = key r"
  shows "table_ok key chk rows'"
proof -
  from assms(2) have ex: "\<not> list_ex (\<lambda>r. sel r \<and> \<not> chk (upd r)) rows"
    and r: "rows' = map (\<lambda>r. if sel r then upd r else r) rows"
    by (auto simp: pk_update_def split: if_splits)
  have "map key rows' = map key rows" using assms(3) by (simp add: r)
  moreover have "list_all chk rows'"
    using assms(1) ex by (auto simp: r table_ok_def list_all_iff list_ex_iff)
  ultimately show ?thesis using assms(1) by (simp add: table_ok_def)
qed

lemma pk_update_same_key:
  "pk_update sel upd chk rows = Inr (n, rows') \<Longrightarrow> table_ok key chk rows \<Longrightarrow>
     \<forall>r. key (upd r) = key r \<Longrightarrow> table_ok key chk rows'"
  using pk_update_ok [where upd = upd and sel = sel] by blast

lemma pk_find_Some: "pk_find key k rows = Some r \<Longrightarrow> r \<in> set rows \<and> key r = k"
  by (induction rows) (auto simp: pk_find_def split: if_splits)

lemma pk_find_None: "pk_find key k rows = None \<longleftrightarrow> k \<notin> key ` set rows"
  by (auto simp: pk_find_def find_None_iff)

lemma pk_find_mem: "distinct (map key rows) \<Longrightarrow> r \<in> set rows \<Longrightarrow> pk_find key (key r) rows = Some r"
  by (induction rows) (auto simp: pk_find_def)

lemma pk_find_append:
  "pk_find key k (rows @ [r]) =
     (case pk_find key k rows of Some x \<Rightarrow> Some x | None \<Rightarrow> if key r = k then Some r else None)"
  by (induction rows) (auto simp: pk_find_def)

lemma pk_find_delete:
  "pk_find key k (snd (pk_delete key k' rows)) = (if k = k' then None else pk_find key k rows)"
  by (induction rows) (auto simp: pk_find_def pk_delete_def)

lemma pk_find_map:
  "(\<And>r. key (upd r) = key r) \<Longrightarrow>
     pk_find key k (map (\<lambda>r. if sel r then upd r else r) rows) =
       map_option (\<lambda>r. if sel r then upd r else r) (pk_find key k rows)"
  by (induction rows) (auto simp: pk_find_def)

lemma pk_delete_count: "distinct (map key rows) \<Longrightarrow> fst (pk_delete key k rows) = (if k \<in> key ` set rows then 1 else 0)"
proof (induction rows)
  case Nil
  then show ?case by (simp add: pk_delete_def)
next
  case (Cons r rows)
  then show ?case by (auto simp: pk_delete_def)
qed

section \<open>The environment of the daemon\<close>

record env = entropy +
  now :: go_time
  io_ok :: "nat \<Rightarrow> bool"
  io_pos :: nat
  db_open :: bool
  db :: db

text \<open>
  One step of I/O: the oracle at the current position says whether it succeeds. A statement on
  a closed store dereferences a nil \<^verbatim>\<open>*sql.DB\<close>.
\<close>

definition io_step :: "('a env_scheme, err, unit) prog" where
  "io_step = (\<lambda>s.
     (if io_ok s (io_pos s) then Inr () else Inl ErrIO, s\<lparr>io_pos := Suc (io_pos s)\<rparr>))"

definition sql_query :: "(db \<Rightarrow> err + 'r) \<Rightarrow> ('a env_scheme, err, 'r) prog" where
  "sql_query f =
     mbind (mget db_open) (\<lambda>opened.
     mbind (mguard opened Panic) (\<lambda>_.
     mbind io_step (\<lambda>_.
     mbind (mget db) (\<lambda>d. mlift (f d)))))"

definition sql_exec :: "(db \<Rightarrow> err + 'r \<times> db) \<Rightarrow> ('a env_scheme, err, 'r) prog" where
  "sql_exec f =
     mbind (sql_query f) (\<lambda>(r, d).
     mbind (mmodify (\<lambda>s. s\<lparr>db := d\<rparr>)) (\<lambda>_. mreturn r))"

text \<open>
  \<^verbatim>\<open>WithTx\<close>: begin, the body, commit; any error on the way leaves the database as it was.
\<close>

definition rollback_to :: "db \<Rightarrow> ('a env_scheme, err, 'r) prog \<Rightarrow> ('a env_scheme, err, 'r) prog" where
  "rollback_to d m = (\<lambda>s. case m s of (Inl e, t) \<Rightarrow> (Inl e, t\<lparr>db := d\<rparr>) | (Inr x, t) \<Rightarrow> (Inr x, t))"

definition with_tx :: "('a env_scheme, err, 'r) prog \<Rightarrow> ('a env_scheme, err, 'r) prog" where
  "with_tx body =
     mbind (mget db_open) (\<lambda>opened.
     mbind (mguard opened Panic) (\<lambda>_.
     mbind io_step (\<lambda>_.
     mbind (mget db) (\<lambda>d.
     rollback_to d (mbind body (\<lambda>x. mbind io_step (\<lambda>_. mreturn x)))))))"

text \<open>\<^verbatim>\<open>Read\<close>: a read-only transaction, always rolled back.\<close>

definition read_tx :: "('a env_scheme, err, 'r) prog \<Rightarrow> ('a env_scheme, err, 'r) prog" where
  "read_tx body =
     mbind (mget db_open) (\<lambda>opened.
     mbind (mguard opened Panic) (\<lambda>_.
     mbind io_step (\<lambda>_. body)))"

section \<open>Commands\<close>

definition insert_vault :: "vault_row \<Rightarrow> ('a env_scheme, err, unit) prog" where
  "insert_vault r = sql_exec (\<lambda>d.
     if vault_check r \<and> t_vault d = None then Inr ((), d\<lparr>t_vault := Some r\<rparr>)
     else Inl ErrConstraint)"

definition set_active_envelope :: "i64 \<Rightarrow> i64 \<Rightarrow> ('a env_scheme, err, unit) prog" where
  "set_active_envelope version updated = sql_exec (\<lambda>d.
     Inr ((), d\<lparr>t_vault := map_option (\<lambda>r.
       r\<lparr>vr_active_envelope_version := version, vr_updated_at_ms := updated\<rparr>) (t_vault d)\<rparr>))"

definition insert_key_envelope :: "envelope_row \<Rightarrow> ('a env_scheme, err, unit) prog" where
  "insert_key_envelope r = sql_exec (\<lambda>d.
     case t_vault d of
       None \<Rightarrow> Inl ErrConstraint
     | Some v \<Rightarrow>
         if vr_vault_id v \<noteq> er_vault_id r then Inl ErrConstraint
         else sbind (pk_insert er_envelope_version envelope_check r (t_envelopes d))
                (\<lambda>rows. Inr ((), d\<lparr>t_envelopes := rows\<rparr>)))"

definition delete_key_envelope :: "i64 \<Rightarrow> ('a env_scheme, err, unit) prog" where
  "delete_key_envelope version = sql_exec (\<lambda>d.
     Inr ((), d\<lparr>t_envelopes := snd (pk_delete er_envelope_version version (t_envelopes d))\<rparr>))"

definition insert_record :: "record_row \<Rightarrow> ('a env_scheme, err, unit) prog" where
  "insert_record r = sql_exec (\<lambda>d.
     sbind (pk_insert rr_record_id record_check r (t_records d))
       (\<lambda>rows. Inr ((), d\<lparr>t_records := rows\<rparr>)))"

text \<open>
  \<^verbatim>\<open>UpdateRecord\<close> takes the new revision, nonces, ciphertexts and payload version (the row
  argument's fields), and the id and the revision the row must still have. It does not write
  \<^verbatim>\<open>key_version\<close>.
\<close>

definition update_record :: "record_row \<Rightarrow> i64 \<Rightarrow> ('a env_scheme, err, nat) prog" where
  "update_record p expected = sql_exec (\<lambda>d.
     sbind (pk_update
       (\<lambda>r. rr_record_id r = rr_record_id p \<and> rr_revision r = expected)
       (\<lambda>r. r\<lparr>rr_revision := rr_revision p,
              rr_metadata_nonce := rr_metadata_nonce p,
              rr_metadata_ciphertext := rr_metadata_ciphertext p,
              rr_secret_nonce := rr_secret_nonce p,
              rr_secret_ciphertext := rr_secret_ciphertext p,
              rr_payload_version := rr_payload_version p\<rparr>)
       record_check (t_records d))
       (\<lambda>(n, rows). Inr (n, d\<lparr>t_records := rows\<rparr>)))"

definition delete_record :: "bytes \<Rightarrow> ('a env_scheme, err, nat) prog" where
  "delete_record i = sql_exec (\<lambda>d.
     let (n, rows) = pk_delete rr_record_id i (t_records d) in Inr (n, d\<lparr>t_records := rows\<rparr>))"

definition insert_client :: "client_row \<Rightarrow> ('a env_scheme, err, unit) prog" where
  "insert_client r = sql_exec (\<lambda>d.
     sbind (pk_insert cr_client_id client_check (r\<lparr>cr_last_seen_at_ms := None\<rparr>) (t_clients d))
       (\<lambda>rows. Inr ((), d\<lparr>t_clients := rows\<rparr>)))"

definition update_client_status :: "i64 \<Rightarrow> bytes \<Rightarrow> ('a env_scheme, err, nat) prog" where
  "update_client_status status i = sql_exec (\<lambda>d.
     sbind (pk_update (\<lambda>r. cr_client_id r = i) (\<lambda>r. r\<lparr>cr_status := status\<rparr>) client_check (t_clients d))
       (\<lambda>(n, rows). Inr (n, d\<lparr>t_clients := rows\<rparr>)))"

definition update_client_last_seen :: "i64 \<Rightarrow> bytes \<Rightarrow> ('a env_scheme, err, unit) prog" where
  "update_client_last_seen ms i = sql_exec (\<lambda>d.
     sbind (pk_update (\<lambda>r. cr_client_id r = i) (\<lambda>r. r\<lparr>cr_last_seen_at_ms := Some ms\<rparr>)
              client_check (t_clients d))
       (\<lambda>(n, rows). Inr ((), d\<lparr>t_clients := rows\<rparr>)))"

definition delete_client :: "bytes \<Rightarrow> ('a env_scheme, err, nat) prog" where
  "delete_client i = sql_exec (\<lambda>d.
     let (n, rows) = pk_delete cr_client_id i (t_clients d) in Inr (n, d\<lparr>t_clients := rows\<rparr>))"

text \<open>\<^verbatim>\<open>AUTOINCREMENT\<close>: a sequence number is never reused, and the table is full at the largest one.\<close>

definition insert_security_event :: "event_row \<Rightarrow> ('a env_scheme, err, unit) prog" where
  "insert_security_event r = sql_exec (\<lambda>d.
     if \<not> event_check r \<or> sint (t_event_seq d) = 2 ^ 63 - 1 then Inl ErrConstraint
     else let q = t_event_seq d + 1 in
       Inr ((), d\<lparr>t_events := t_events d @ [r\<lparr>sr_sequence_id := q\<rparr>], t_event_seq := q\<rparr>))"

definition upsert_vault_state :: "state_row \<Rightarrow> ('a env_scheme, err, unit) prog" where
  "upsert_vault_state r = sql_exec (\<lambda>d.
     if state_check r then Inr ((), d\<lparr>t_state := Some r\<rparr>) else Inl ErrConstraint)"

section \<open>Queries\<close>

definition one_row :: "'r option \<Rightarrow> err + 'r" where
  "one_row r = (case r of None \<Rightarrow> Inl ErrNoRows | Some x \<Rightarrow> Inr x)"

definition get_vault :: "('a env_scheme, err, vault_row) prog" where
  "get_vault = sql_query (\<lambda>d. one_row (t_vault d))"

definition get_key_envelope :: "i64 \<Rightarrow> ('a env_scheme, err, envelope_row) prog" where
  "get_key_envelope version =
     sql_query (\<lambda>d. one_row (pk_find er_envelope_version version (t_envelopes d)))"

definition list_key_envelope_versions :: "('a env_scheme, err, i64 list) prog" where
  "list_key_envelope_versions =
     sql_query (\<lambda>d. Inr (sort_key sint (map er_envelope_version (t_envelopes d))))"

definition get_record :: "bytes \<Rightarrow> ('a env_scheme, err, record_row) prog" where
  "get_record i = sql_query (\<lambda>d. one_row (pk_find rr_record_id i (t_records d)))"

definition list_records :: "('a env_scheme, err, record_row list) prog" where
  "list_records = sql_query (\<lambda>d. Inr (t_records d))"

definition count_records :: "('a env_scheme, err, nat) prog" where
  "count_records = sql_query (\<lambda>d. Inr (length (t_records d)))"

definition get_client :: "bytes \<Rightarrow> ('a env_scheme, err, client_row) prog" where
  "get_client i = sql_query (\<lambda>d. one_row (pk_find cr_client_id i (t_clients d)))"

definition list_clients :: "('a env_scheme, err, client_row list) prog" where
  "list_clients = sql_query (\<lambda>d. Inr (sort_key (\<lambda>r. sint (cr_created_at_ms r)) (t_clients d)))"

definition list_security_events :: "i64 \<Rightarrow> ('a env_scheme, err, event_row list) prog" where
  "list_security_events limit = sql_query (\<lambda>d.
     let rows = rev (sort_key (\<lambda>r. sint (sr_sequence_id r)) (t_events d)) in
     Inr (if sint limit < 0 then rows else take (nat (sint limit)) rows))"

text \<open>
  The inputs of the vault-state root, ordered by primary key (a BLOB compares byte by byte,
  which is the lexicographic order of the lists).
\<close>

definition list_records_for_root :: "('a env_scheme, err, record_row list) prog" where
  "list_records_for_root = sql_query (\<lambda>d. Inr (sort_key rr_record_id (t_records d)))"

definition list_clients_for_root :: "('a env_scheme, err, client_row list) prog" where
  "list_clients_for_root = sql_query (\<lambda>d. Inr (sort_key cr_client_id (t_clients d)))"

definition get_active_envelope_digest :: "i64 \<Rightarrow> ('a env_scheme, err, envelope_row) prog" where
  "get_active_envelope_digest version =
     sql_query (\<lambda>d. one_row (pk_find er_envelope_version version (t_envelopes d)))"

definition get_vault_state :: "('a env_scheme, err, state_row) prog" where
  "get_vault_state = sql_query (\<lambda>d. one_row (t_state d))"

section \<open>What statements and transactions do\<close>

lemma sql_query_Inr_iff [prog_simps]:
  "sql_query f s = (Inr r, t) \<longleftrightarrow>
     db_open s \<and> io_ok s (io_pos s) \<and> f (db s) = Inr r \<and> t = s\<lparr>io_pos := Suc (io_pos s)\<rparr>"
  by (auto simp: sql_query_def io_step_def prog_simps mbind_def split: if_splits)

lemma sql_exec_Inr_iff [prog_simps]:
  "sql_exec f s = (Inr r, t) \<longleftrightarrow>
     db_open s \<and> io_ok s (io_pos s) \<and>
     (\<exists>d. f (db s) = Inr (r, d) \<and> t = s\<lparr>io_pos := Suc (io_pos s), db := d\<rparr>)"
  by (auto simp: sql_exec_def mbind_Inr_iff prog_simps split: prod.splits)

lemma io_step_Inr_iff [prog_simps]:
  "io_step s = (Inr u, t) \<longleftrightarrow> io_ok s (io_pos s) \<and> t = s\<lparr>io_pos := Suc (io_pos s)\<rparr>"
  by (auto simp: io_step_def)

lemma runs_query [wp]: "runs (sql_query f) s Q \<longleftrightarrow>
    db_open s \<and> io_ok s (io_pos s) \<and> (\<exists>r. f (db s) = Inr r \<and> Q r (s\<lparr>io_pos := Suc (io_pos s)\<rparr>))"
  by (auto simp: runs_def sql_query_Inr_iff)

lemma runs_exec [wp]: "runs (sql_exec f) s Q \<longleftrightarrow>
    db_open s \<and> io_ok s (io_pos s) \<and>
    (\<exists>r d. f (db s) = Inr (r, d) \<and> Q r (s\<lparr>io_pos := Suc (io_pos s), db := d\<rparr>))"
  by (auto simp: runs_def sql_exec_Inr_iff)

lemma runs_io_step [wp]: "runs io_step s Q \<longleftrightarrow> io_ok s (io_pos s) \<and> Q () (s\<lparr>io_pos := Suc (io_pos s)\<rparr>)"
  by (auto simp: runs_def io_step_Inr_iff)

lemma sql_query_Inl: "sql_query f s = (Inl e, t) \<Longrightarrow> db t = db s"
  by (auto simp: sql_query_def io_step_def prog_simps mbind_def split: if_splits)

lemma sql_exec_Inl: "sql_exec f s = (Inl e, t) \<Longrightarrow> db t = db s"
  by (auto simp: sql_exec_def mbind_Inl_iff prog_simps split: prod.splits dest: sql_query_Inl)

text \<open>What no statement touches: the oracles, the clock, the handle and the rest of the state.\<close>

definition fixed :: "'a env_scheme \<Rightarrow> (nat \<Rightarrow> byte) \<times> (nat \<Rightarrow> bool) \<times> go_time \<times> (nat \<Rightarrow> bool) \<times> bool \<times> 'a" where
  "fixed s = (rnd_src s, rnd_ok s, now s, io_ok s, db_open s, env.more s)"

lemma fixed_random [intro]: "obeys (same_on fixed) (random_bytes n)"
  by (auto simp: obeys_def same_on_def fixed_def random_bytes_def)

lemma fixed_query [intro]: "obeys (same_on fixed) (sql_query f)"
  by (auto simp: obeys_def same_on_def fixed_def sql_query_def io_step_def prog_simps mbind_def
      split: if_splits)

lemma fixed_exec [intro]: "obeys (same_on fixed) (sql_exec f)"
  unfolding sql_exec_def
  by (intro same.ok_bind fixed_query)
    (auto simp: obeys_def same_on_def fixed_def prog_simps mbind_def split: prod.splits)

lemma snd_rollback_to:
  "snd (rollback_to d m s) = snd (m s) \<or> snd (rollback_to d m s) = (snd (m s))\<lparr>db := d\<rparr>"
  by (cases "m s") (auto simp: rollback_to_def split: sum.splits)

lemma fixed_db [simp]: "fixed (s\<lparr>db := d\<rparr>) = fixed s"
  by (simp add: fixed_def)

lemma fixed_io [simp]: "fixed (s\<lparr>io_pos := n\<rparr>) = fixed s"
  by (simp add: fixed_def)

lemma fixed_rnd [simp]: "fixed (s\<lparr>rnd_pos := n\<rparr>) = fixed s"
  by (simp add: fixed_def)

lemma fixed_io_step: "obeys (same_on fixed) io_step"
  by (auto simp: obeys_def same_on_def io_step_def)

lemma fixed_rollback_to:
  "obeys (same_on fixed) m \<Longrightarrow> obeys (same_on fixed) (rollback_to d m)"
  unfolding obeys_def same_on_def using snd_rollback_to [of d m] by (metis fixed_db)

lemma fixed_tx [intro]: "obeys (same_on fixed) m \<Longrightarrow> obeys (same_on fixed) (with_tx m)"
  unfolding with_tx_def
  by (intro same.ok_bind same.ok_get same.ok_guard same.ok_return fixed_io_step fixed_rollback_to)

lemma fixed_read_tx [intro]: "obeys (same_on fixed) m \<Longrightarrow> obeys (same_on fixed) (read_tx m)"
  unfolding read_tx_def
  by (intro same.ok_bind same.ok_get same.ok_guard fixed_io_step)

text \<open>A transaction that fails leaves the database as it found it.\<close>

lemma with_tx_Inl: "with_tx m s = (Inl e, t) \<Longrightarrow> db t = db s"
  by (auto simp: with_tx_def mbind_def prog_simps io_step_def rollback_to_def
      split: if_splits prod.splits sum.splits)

lemma with_tx_Inr_iff [prog_simps]:
  "with_tx m s = (Inr x, t) \<longleftrightarrow>
     db_open s \<and> io_ok s (io_pos s) \<and>
     (\<exists>u. m (s\<lparr>io_pos := Suc (io_pos s)\<rparr>) = (Inr x, u) \<and> io_ok u (io_pos u) \<and>
        t = u\<lparr>io_pos := Suc (io_pos u)\<rparr>)"
  by (auto simp: with_tx_def mbind_def prog_simps io_step_def rollback_to_def
      split: if_splits prod.splits sum.splits)

lemma read_tx_Inr_iff [prog_simps]:
  "read_tx m s = (Inr x, t) \<longleftrightarrow>
     db_open s \<and> io_ok s (io_pos s) \<and> m (s\<lparr>io_pos := Suc (io_pos s)\<rparr>) = (Inr x, t)"
  by (auto simp: read_tx_def mbind_def prog_simps io_step_def split: if_splits)

lemma runs_tx [wp]: "runs (with_tx m) s Q \<longleftrightarrow>
    db_open s \<and> io_ok s (io_pos s) \<and>
    runs m (s\<lparr>io_pos := Suc (io_pos s)\<rparr>) (\<lambda>x u. io_ok u (io_pos u) \<and> Q x (u\<lparr>io_pos := Suc (io_pos u)\<rparr>))"
  by (auto simp: runs_def with_tx_Inr_iff)

lemma runs_read_tx [wp]: "runs (read_tx m) s Q \<longleftrightarrow>
    db_open s \<and> io_ok s (io_pos s) \<and> runs m (s\<lparr>io_pos := Suc (io_pos s)\<rparr>) Q"
  by (auto simp: runs_def read_tx_Inr_iff)

text \<open>A healthy environment: the store is open, and neither I/O nor the random source fails.\<close>

definition healthy :: "'a env_scheme \<Rightarrow> bool" where
  "healthy s \<longleftrightarrow> db_open s \<and> (\<forall>n. io_ok s n) \<and> (\<forall>n. rnd_ok s n)"

section \<open>The schema invariant\<close>

definition db_wf :: "db \<Rightarrow> bool" where
  "db_wf d \<longleftrightarrow>
     (case t_vault d of None \<Rightarrow> True | Some r \<Rightarrow> vault_check r) \<and>
     table_ok er_envelope_version envelope_check (t_envelopes d) \<and>
     table_ok rr_record_id record_check (t_records d) \<and>
     table_ok cr_client_id client_check (t_clients d) \<and>
     list_all event_check (t_events d) \<and>
     (case t_state d of None \<Rightarrow> True | Some r \<Rightarrow> state_check r)"

abbreviation sound_db :: "'a env_scheme \<Rightarrow> bool" where
  "sound_db s \<equiv> db_wf (db s)"

lemma db_wf_empty [simp]: "db_wf empty_db"
  by (simp add: db_wf_def empty_db_def table_ok_def)

lemma dbwf_query [intro]: "obeys (keeps_inv sound_db) (sql_query f)"
  by (auto simp: obeys_def keeps_inv_def sql_query_def io_step_def prog_simps mbind_def
      split: if_splits)

lemma dbwf_exec: "(\<And>d r d'. db_wf d \<Longrightarrow> f d = Inr (r, d') \<Longrightarrow> db_wf d') \<Longrightarrow> obeys (keeps_inv sound_db) (sql_exec f)"
  by (auto simp: obeys_def keeps_inv_def sql_exec_def sql_query_def io_step_def prog_simps mbind_def
      split: if_splits sum.splits)

lemma dbwf_tx [intro]:
  fixes m :: "('a env_scheme, err, 'r) prog"
  assumes "obeys (keeps_inv sound_db) m"
  shows "obeys (keeps_inv sound_db) (with_tx m)"
  unfolding obeys_def keeps_inv_def
proof (intro allI impI)
  fix s :: "'a env_scheme"
  assume w: "db_wf (db s)"
  obtain r t where m: "with_tx m s = (r, t)" by (cases "with_tx m s")
  show "db_wf (db (snd (with_tx m s)))"
  proof (cases r)
    case (Inl e)
    with m w show ?thesis using with_tx_Inl [of m s e t] by simp
  next
    case (Inr x)
    with m obtain u where u: "m (s\<lparr>io_pos := Suc (io_pos s)\<rparr>) = (Inr x, u)"
      "t = u\<lparr>io_pos := Suc (io_pos u)\<rparr>" by (auto simp: with_tx_Inr_iff)
    from inv_okD [OF assms u(1)] w have "db_wf (db u)" by simp
    with m u(2) show ?thesis by simp
  qed
qed

lemma dbwf_read_tx [intro]: "obeys (keeps_inv sound_db) m \<Longrightarrow> obeys (keeps_inv sound_db) (read_tx m)"
  unfolding read_tx_def
  by (intro inv.ok_bind inv.ok_get inv.ok_guard)
    (auto simp: obeys_def keeps_inv_def io_step_def)

lemma dbwf_random [intro]: "obeys (keeps_inv sound_db) (random_bytes n)"
  by (auto simp: obeys_def keeps_inv_def random_bytes_def)

lemmas command_defs = insert_vault_def set_active_envelope_def insert_key_envelope_def
  delete_key_envelope_def insert_record_def update_record_def delete_record_def
  insert_client_def update_client_status_def update_client_last_seen_def delete_client_def
  insert_security_event_def upsert_vault_state_def

lemmas query_defs = get_vault_def get_key_envelope_def list_key_envelope_versions_def
  get_record_def list_records_def count_records_def get_client_def list_clients_def
  list_security_events_def list_records_for_root_def list_clients_for_root_def
  get_active_envelope_digest_def get_vault_state_def

lemma fixed_commands [intro]:
  "obeys (same_on fixed) (insert_vault a)"
  "obeys (same_on fixed) (set_active_envelope v u)"
  "obeys (same_on fixed) (insert_key_envelope b)"
  "obeys (same_on fixed) (delete_key_envelope v)"
  "obeys (same_on fixed) (insert_record c)"
  "obeys (same_on fixed) (update_record c v)"
  "obeys (same_on fixed) (delete_record i)"
  "obeys (same_on fixed) (insert_client e)"
  "obeys (same_on fixed) (update_client_status v i)"
  "obeys (same_on fixed) (update_client_last_seen v i)"
  "obeys (same_on fixed) (delete_client i)"
  "obeys (same_on fixed) (insert_security_event g)"
  "obeys (same_on fixed) (upsert_vault_state h)"
  unfolding command_defs by (rule fixed_exec)+

lemma dbwf_insert_vault [intro]: "obeys (keeps_inv sound_db) (insert_vault a)"
  unfolding insert_vault_def
  by (rule dbwf_exec) (auto simp: db_wf_def split: if_splits)

lemma dbwf_set_active_envelope [intro]: "obeys (keeps_inv sound_db) (set_active_envelope v u)"
  unfolding set_active_envelope_def
  by (rule dbwf_exec) (auto simp: db_wf_def vault_check_def split: option.splits)

lemma dbwf_insert_key_envelope [intro]: "obeys (keeps_inv sound_db) (insert_key_envelope b)"
  unfolding insert_key_envelope_def
  by (rule dbwf_exec) (auto simp: db_wf_def sbind_Inr_iff intro: pk_insert_ok split: option.splits if_splits)

lemma dbwf_delete_key_envelope [intro]: "obeys (keeps_inv sound_db) (delete_key_envelope v)"
  unfolding delete_key_envelope_def
  by (rule dbwf_exec) (auto simp: db_wf_def intro: pk_delete_ok)

lemma dbwf_insert_record [intro]: "obeys (keeps_inv sound_db) (insert_record c)"
  unfolding insert_record_def
  by (rule dbwf_exec) (auto simp: db_wf_def sbind_Inr_iff intro: pk_insert_ok)

lemma dbwf_update_record [intro]: "obeys (keeps_inv sound_db) (update_record c v)"
  unfolding update_record_def
  by (rule dbwf_exec) (auto simp: db_wf_def sbind_Inr_iff split: prod.splits dest: pk_update_same_key)

lemma dbwf_delete_record [intro]: "obeys (keeps_inv sound_db) (delete_record i)"
  unfolding delete_record_def
  by (rule dbwf_exec) (auto simp: db_wf_def Let_def intro: pk_delete_ok split: prod.splits dest!: arg_cong [of _ _ snd])

lemma dbwf_insert_client [intro]: "obeys (keeps_inv sound_db) (insert_client e)"
  unfolding insert_client_def
  by (rule dbwf_exec) (auto simp: db_wf_def sbind_Inr_iff intro: pk_insert_ok)

lemma dbwf_update_client_status [intro]: "obeys (keeps_inv sound_db) (update_client_status v i)"
  unfolding update_client_status_def
  by (rule dbwf_exec) (auto simp: db_wf_def sbind_Inr_iff split: prod.splits dest: pk_update_same_key)

lemma dbwf_update_client_last_seen [intro]: "obeys (keeps_inv sound_db) (update_client_last_seen v i)"
  unfolding update_client_last_seen_def
  by (rule dbwf_exec) (auto simp: db_wf_def sbind_Inr_iff split: prod.splits dest: pk_update_same_key)

lemma dbwf_delete_client [intro]: "obeys (keeps_inv sound_db) (delete_client i)"
  unfolding delete_client_def
  by (rule dbwf_exec) (auto simp: db_wf_def Let_def intro: pk_delete_ok split: prod.splits dest!: arg_cong [of _ _ snd])

lemma dbwf_insert_security_event [intro]: "obeys (keeps_inv sound_db) (insert_security_event g)"
  unfolding insert_security_event_def
  by (rule dbwf_exec) (auto simp: db_wf_def Let_def event_check_def split: if_splits)

lemma dbwf_upsert_vault_state [intro]: "obeys (keeps_inv sound_db) (upsert_vault_state h)"
  unfolding upsert_vault_state_def
  by (rule dbwf_exec) (auto simp: db_wf_def split: if_splits)

lemmas dbwf_commands = dbwf_insert_vault dbwf_set_active_envelope dbwf_insert_key_envelope dbwf_delete_key_envelope dbwf_insert_record dbwf_update_record dbwf_delete_record dbwf_insert_client dbwf_update_client_status dbwf_update_client_last_seen dbwf_delete_client dbwf_insert_security_event dbwf_upsert_vault_state

lemma fixed_queries [intro]:
  "obeys (same_on fixed) get_vault"
  "obeys (same_on fixed) (get_key_envelope v)"
  "obeys (same_on fixed) list_key_envelope_versions"
  "obeys (same_on fixed) (get_record i)"
  "obeys (same_on fixed) list_records"
  "obeys (same_on fixed) count_records"
  "obeys (same_on fixed) (get_client i)"
  "obeys (same_on fixed) list_clients"
  "obeys (same_on fixed) (list_security_events v)"
  "obeys (same_on fixed) list_records_for_root"
  "obeys (same_on fixed) list_clients_for_root"
  "obeys (same_on fixed) (get_active_envelope_digest v)"
  "obeys (same_on fixed) get_vault_state"
  unfolding query_defs by (rule fixed_query)+

lemma dbwf_queries [intro]:
  "obeys (keeps_inv sound_db) get_vault"
  "obeys (keeps_inv sound_db) (get_key_envelope v)"
  "obeys (keeps_inv sound_db) list_key_envelope_versions"
  "obeys (keeps_inv sound_db) (get_record i)"
  "obeys (keeps_inv sound_db) list_records"
  "obeys (keeps_inv sound_db) count_records"
  "obeys (keeps_inv sound_db) (get_client i)"
  "obeys (keeps_inv sound_db) list_clients"
  "obeys (keeps_inv sound_db) (list_security_events v)"
  "obeys (keeps_inv sound_db) list_records_for_root"
  "obeys (keeps_inv sound_db) list_clients_for_root"
  "obeys (keeps_inv sound_db) (get_active_envelope_digest v)"
  "obeys (keeps_inv sound_db) get_vault_state"
  unfolding query_defs by (rule dbwf_query)+

end
