(* ===== verification/Catalog.thy ===== *)
theory Catalog
  imports Store "HOL-Library.Multiset"
begin

text \<open>
  The authenticated vault-state root (\<^verbatim>\<open>internal/catalog/catalog.go\<close>): an HMAC over a
  length-prefixed serialisation of the records, the clients and the active key envelope, with
  a counter that a stamp raises by one. The serialisation is shown to be injective, the root
  to depend on the set of rows and not on their order, and verification to accept exactly
  what the last stamp saw.
\<close>

section \<open>Serialisation\<close>

definition domain_tag :: bytes where
  "domain_tag = str_bytes ''github.com/m7medVision/albear/v1/catalog-root''"

definition write_u64 :: "u64 \<Rightarrow> bytes" where
  "write_u64 v = be64 v"

definition write_bytes :: "bytes \<Rightarrow> bytes" where
  "write_bytes b = write_u64 (of_nat (length b)) @ b"

definition write_digest :: "crypto_prims \<Rightarrow> bytes \<Rightarrow> bytes" where
  "write_digest P b = sha256 P b"

definition record_input :: "crypto_prims \<Rightarrow> record_row \<Rightarrow> bytes" where
  "record_input P r =
     write_bytes (rr_record_id r) @ write_u64 (rr_revision r) @ write_u64 (rr_key_version r) @
     write_u64 (rr_payload_version r) @ write_digest P (rr_metadata_ciphertext r) @
     write_digest P (rr_secret_ciphertext r)"

definition client_input :: "crypto_prims \<Rightarrow> client_row \<Rightarrow> bytes" where
  "client_input P c =
     write_bytes (cr_client_id c) @ write_u64 (cr_status c) @ write_u64 (cr_capability_mask c) @
     write_bytes (cr_credential_hash c) @ write_digest P (cr_noise_static_pubkey c)"

definition envelope_input :: "envelope_row \<Rightarrow> bytes" where
  "envelope_input e =
     write_bytes (er_wrapped_root_key e) @ write_bytes (er_kdf_salt e) @
     write_u64 (er_kdf_memory_kib e) @ write_u64 (er_kdf_iterations e) @
     write_u64 (er_kdf_parallelism e)"

definition root_input ::
  "crypto_prims \<Rightarrow> bytes \<Rightarrow> u32 \<Rightarrow> i64 \<Rightarrow> record_row list \<Rightarrow> client_row list \<Rightarrow> envelope_row \<Rightarrow> bytes" where
  "root_input P vault_id env_version counter records clients e =
     domain_tag @ write_bytes vault_id @ write_u64 (ucast env_version) @ write_u64 counter @
     write_u64 (of_nat (length records)) @ concat (map (record_input P) records) @
     write_u64 (of_nat (length clients)) @ concat (map (client_input P) clients) @
     write_bytes (sha256 P (envelope_input e))"

section \<open>Root, Stamp, Load, Verify\<close>

definition root ::
  "crypto_prims \<Rightarrow> bytes \<Rightarrow> bytes \<Rightarrow> u32 \<Rightarrow> i64 \<Rightarrow> ('a env_scheme, err, bytes) prog" where
  "root P key vault_id env_version counter =
     mbind list_records_for_root (\<lambda>records.
     mbind list_clients_for_root (\<lambda>clients.
     mbind (get_active_envelope_digest (ucast env_version)) (\<lambda>e.
     mreturn (hmac_sha256 P key (root_input P vault_id env_version counter records clients e)))))"

definition load :: "('a env_scheme, err, state_row) prog" where
  "load =
     mbind (attempt get_vault_state) (\<lambda>r. case r of
       Inl e \<Rightarrow> mthrow (if e = ErrNoRows then ErrNoState else e)
     | Inr row \<Rightarrow> mreturn row)"

definition stamp :: "crypto_prims \<Rightarrow> bytes \<Rightarrow> bytes \<Rightarrow> u32 \<Rightarrow> go_time \<Rightarrow> ('a env_scheme, err, i64) prog" where
  "stamp P key vault_id env_version t =
     mbind (attempt load) (\<lambda>prev.
     mbind (case prev of
              Inr st \<Rightarrow> mreturn (st_state_counter st + 1)
            | Inl e \<Rightarrow> if e = ErrNoState then mreturn 1 else mthrow e) (\<lambda>next_counter.
     mbind (root P key vault_id env_version next_counter) (\<lambda>r.
     mbind (upsert_vault_state
              \<lparr>st_state_counter = next_counter, st_state_root = r,
               st_updated_at_ms = of_int (unix_milli t)\<rparr>) (\<lambda>_.
     mreturn next_counter))))"

definition verify ::
  "crypto_prims \<Rightarrow> bytes \<Rightarrow> bytes \<Rightarrow> u32 \<Rightarrow> ('a env_scheme, err, state_row \<times> bool) prog" where
  "verify P key vault_id env_version =
     mbind load (\<lambda>st.
     mbind (root P key vault_id env_version (st_state_counter st)) (\<lambda>want.
     mreturn (st, want = st_state_root st)))"

section \<open>The serialisation is injective\<close>

definition short :: "bytes \<Rightarrow> bool" where
  "short b \<longleftrightarrow> length b < 2 ^ 64"

lemma write_bytes_prefix:
  assumes "short a" and "short b" and "write_bytes a @ r = write_bytes b @ r'"
  shows "a = b \<and> r = r'"
proof -
  from assms(3) have e: "be64 (of_nat (length a)) @ (a @ r) = be64 (of_nat (length b)) @ (b @ r')"
    by (simp add: write_bytes_def write_u64_def)
  then have "(of_nat (length a) :: u64) = of_nat (length b)" and ab: "a @ r = b @ r'"
    using be64.prefix_inj by blast+
  then have "length a = length b"
    using assms(1,2) of_nat_u64_inj unfolding short_def by blast
  with ab show ?thesis by simp
qed

interpretation write_bytes: prefix_code write_bytes short
  by unfold_locales (rule write_bytes_prefix)

definition record_view :: "crypto_prims \<Rightarrow> record_row \<Rightarrow> bytes \<times> i64 \<times> i64 \<times> i64 \<times> bytes \<times> bytes" where
  "record_view P r = (rr_record_id r, rr_revision r, rr_key_version r, rr_payload_version r,
     sha256 P (rr_metadata_ciphertext r), sha256 P (rr_secret_ciphertext r))"

definition client_view :: "crypto_prims \<Rightarrow> client_row \<Rightarrow> bytes \<times> i64 \<times> i64 \<times> bytes \<times> bytes" where
  "client_view P c = (cr_client_id c, cr_status c, cr_capability_mask c, cr_credential_hash c,
     sha256 P (cr_noise_static_pubkey c))"

definition envelope_view :: "envelope_row \<Rightarrow> bytes \<times> bytes \<times> i64 \<times> i64 \<times> i64" where
  "envelope_view e = (er_wrapped_root_key e, er_kdf_salt e, er_kdf_memory_kib e,
     er_kdf_iterations e, er_kdf_parallelism e)"

lemma record_input_prefix:
  assumes "prims_widths P" and "length (rr_record_id r) = 16" and "length (rr_record_id r') = 16"
    and "record_input P r @ x = record_input P r' @ y"
  shows "record_view P r = record_view P r' \<and> x = y"
proof -
  have s: "length (rr_record_id r) = length (rr_record_id r')" using assms(2,3) by simp
  have w: "length (sha256 P b) = 32" for b using assms(1) by (simp add: prims_widths_def)
  from assms(4) s show ?thesis
    by (auto simp: record_input_def record_view_def write_bytes_def write_u64_def write_digest_def w
        append_eq_append_conv)
qed

lemma client_input_prefix:
  assumes "prims_widths P" and "client_check c" and "client_check c'"
    and "client_input P c @ x = client_input P c' @ y"
  shows "client_view P c = client_view P c' \<and> x = y"
proof -
  have s: "length (cr_client_id c) = length (cr_client_id c')"
    "length (cr_credential_hash c) = length (cr_credential_hash c')"
    using assms(2,3) by (simp_all add: client_check_def)
  have w: "length (sha256 P b) = 32" for b using assms(1) by (simp add: prims_widths_def)
  from assms(4) s show ?thesis
    by (auto simp: client_input_def client_view_def write_bytes_def write_u64_def write_digest_def w
        append_eq_append_conv)
qed

lemma envelope_input_inject:
  assumes "short (er_wrapped_root_key e)" "short (er_wrapped_root_key e')"
    and "short (er_kdf_salt e)" "short (er_kdf_salt e')"
    and "envelope_input e = envelope_input e'"
  shows "envelope_view e = envelope_view e'"
proof -
  from assms(5) write_bytes_prefix [OF assms(1,2)]
  have "er_wrapped_root_key e = er_wrapped_root_key e'"
    and r: "write_bytes (er_kdf_salt e) @ write_u64 (er_kdf_memory_kib e) @
        write_u64 (er_kdf_iterations e) @ write_u64 (er_kdf_parallelism e) =
      write_bytes (er_kdf_salt e') @ write_u64 (er_kdf_memory_kib e') @
        write_u64 (er_kdf_iterations e') @ write_u64 (er_kdf_parallelism e')"
    by (auto simp: envelope_input_def)
  moreover from write_bytes_prefix [OF assms(3,4) r] have "er_kdf_salt e = er_kdf_salt e'"
    and "write_u64 (er_kdf_memory_kib e) @ write_u64 (er_kdf_iterations e) @ write_u64 (er_kdf_parallelism e) =
      write_u64 (er_kdf_memory_kib e') @ write_u64 (er_kdf_iterations e') @ write_u64 (er_kdf_parallelism e')"
    by auto
  ultimately show ?thesis by (simp add: envelope_view_def write_u64_def append_eq_append_conv)
qed

text \<open>Two sequences of as many inputs each, in front of anything, have the same views.\<close>

lemma concat_views:
  assumes "length xs = length ys"
    and "\<And>x y r r'. x \<in> set xs \<Longrightarrow> y \<in> set ys \<Longrightarrow> enc x @ r = enc y @ r' \<Longrightarrow> view x = view y \<and> r = r'"
    and "concat (map enc xs) @ r = concat (map enc ys) @ r'"
  shows "map view xs = map view ys \<and> r = r'"
  using assms
proof (induction xs ys rule: list_induct2)
  case Nil
  then show ?case by simp
next
  case (Cons x xs y ys)
  have e: "enc x @ (concat (map enc xs) @ r) = enc y @ (concat (map enc ys) @ r')"
    using Cons.prems(2) by simp
  have xy: "view x = view y \<and> concat (map enc xs) @ r = concat (map enc ys) @ r'"
    by (rule Cons.prems(1) [OF _ _ e]) simp_all
  have "map view xs = map view ys \<and> r = r'"
    by (rule Cons.IH [OF _ conjunct2 [OF xy]]) (rule Cons.prems(1); simp)
  with xy show ?case by simp
qed

lemma root_input_inject:
  assumes P: "prims_widths P"
    and vid: "length v = 16" "length v' = 16"
    and recs: "list_all record_check rs" "list_all record_check rs'"
    and clis: "list_all client_check cs" "list_all client_check cs'"
    and few: "length rs < 2 ^ 64" "length rs' < 2 ^ 64" "length cs < 2 ^ 64" "length cs' < 2 ^ 64"
    and eq: "root_input P v ev n rs cs e = root_input P v' ev' n' rs' cs' e'"
  shows "v = v' \<and> ev = ev' \<and> n = n' \<and> map (record_view P) rs = map (record_view P) rs' \<and>
    map (client_view P) cs = map (client_view P) cs' \<and>
    sha256 P (envelope_input e) = sha256 P (envelope_input e')"
proof -
  have w: "length (sha256 P b) = 32" for b using P by (simp add: prims_widths_def)
  let ?R = "\<lambda>rs. concat (map (record_input P) rs)" and ?C = "\<lambda>cs. concat (map (client_input P) cs)"
  from eq vid have head: "v = v'" "(ucast ev :: u64) = ucast ev'" "n = n'"
      "(of_nat (length rs) :: u64) = of_nat (length rs')"
    and tail: "?R rs @ write_u64 (of_nat (length cs)) @ ?C cs @ write_bytes (sha256 P (envelope_input e)) =
      ?R rs' @ write_u64 (of_nat (length cs')) @ ?C cs' @ write_bytes (sha256 P (envelope_input e'))"
    by (auto simp: root_input_def write_bytes_def write_u64_def append_eq_append_conv)
  from head(2) have ev: "ev = ev'" by (rule ucast_u32_inj)
  have lr: "length rs = length rs'" by (rule of_nat_u64_inj [OF head(4) few(1,2)])
  have rv: "map (record_view P) rs = map (record_view P) rs' \<and>
      write_u64 (of_nat (length cs)) @ ?C cs @ write_bytes (sha256 P (envelope_input e)) =
      write_u64 (of_nat (length cs')) @ ?C cs' @ write_bytes (sha256 P (envelope_input e'))"
    using recs by (intro concat_views [OF lr _ tail] record_input_prefix [OF P])
      (auto simp: list_all_iff record_check_def)
  then have "(of_nat (length cs) :: u64) = of_nat (length cs')"
    and tail2: "?C cs @ write_bytes (sha256 P (envelope_input e)) = ?C cs' @ write_bytes (sha256 P (envelope_input e'))"
    by (auto simp: write_u64_def append_eq_append_conv)
  then have lc: "length cs = length cs'" using of_nat_u64_inj few(3,4) by blast
  have cv: "map (client_view P) cs = map (client_view P) cs' \<and>
      write_bytes (sha256 P (envelope_input e)) = write_bytes (sha256 P (envelope_input e'))"
    using clis by (intro concat_views [OF lc _ tail2] client_input_prefix [OF P])
      (auto simp: list_all_iff)
  then show ?thesis using head ev rv by (simp add: write_bytes_def w)
qed

section \<open>What a stamp leaves and what verification accepts\<close>

text \<open>The root as a function of the database, and a database that carries its own root.\<close>

definition catalog_root :: "crypto_prims \<Rightarrow> bytes \<Rightarrow> bytes \<Rightarrow> u32 \<Rightarrow> i64 \<Rightarrow> db \<Rightarrow> bytes option" where
  "catalog_root P key vault_id env_version counter d =
     map_option (\<lambda>e. hmac_sha256 P key (root_input P vault_id env_version counter
         (sort_key rr_record_id (t_records d)) (sort_key cr_client_id (t_clients d)) e))
       (pk_find er_envelope_version (ucast env_version) (t_envelopes d))"

definition anchored :: "crypto_prims \<Rightarrow> bytes \<Rightarrow> bytes \<Rightarrow> u32 \<Rightarrow> db \<Rightarrow> bool" where
  "anchored P key vault_id env_version d \<longleftrightarrow>
     (case t_state d of
        None \<Rightarrow> False
      | Some st \<Rightarrow> catalog_root P key vault_id env_version (st_state_counter st) d = Some (st_state_root st))"

lemma root_Inr_iff:
  "root P key vid ev n s = (Inr r, t) \<longleftrightarrow>
     db_open s \<and> (\<forall>k < 3. io_ok s (io_pos s + k)) \<and>
     catalog_root P key vid ev n (db s) = Some r \<and> t = s\<lparr>io_pos := io_pos s + 3\<rparr>"
  by (auto simp: root_def mbind_Inr_iff list_records_for_root_def list_clients_for_root_def
      get_active_envelope_digest_def prog_simps catalog_root_def one_row_def numeral_3_eq_3
      less_Suc_eq split: option.splits)

lemma root_db: "root P key vid ev n s = (r, t) \<Longrightarrow> db t = db s"
  by (auto simp: root_def mbind_unfold list_records_for_root_def list_clients_for_root_def
      get_active_envelope_digest_def sql_query_def io_step_def prog_simps split: prod.splits sum.splits if_splits)

lemma load_Inr_iff:
  "load s = (Inr st, t) \<longleftrightarrow>
     db_open s \<and> io_ok s (io_pos s) \<and> t_state (db s) = Some st \<and> t = s\<lparr>io_pos := io_pos s + 1\<rparr>"
  by (auto simp: load_def mbind_Inr_iff attempt_Inr_iff get_vault_state_def prog_simps one_row_def
      sum_prog_iff split: option.splits if_splits)

lemma load_NoState: "load s = (Inl ErrNoState, t) \<Longrightarrow> t_state (db s) = None \<and> db t = db s"
  by (auto simp: load_def mbind_Inl_iff attempt_Inr_iff attempt_Inl_iff get_vault_state_def sql_query_def
      io_step_def prog_simps one_row_def mbind_unfold
      split: sum.splits option.splits if_splits prod.splits)

lemma load_db: "load s = (r, t) \<Longrightarrow> db t = db s"
  by (auto simp: load_def mbind_unfold attempt_def get_vault_state_def sql_query_def io_step_def prog_simps
      split: prod.splits sum.splits if_splits err.splits)

text \<open>The counter a stamp writes over a given anchor.\<close>

definition next_counter :: "state_row option \<Rightarrow> i64" where
  "next_counter st = (case st of None \<Rightarrow> 1 | Some r \<Rightarrow> st_state_counter r + 1)"

lemma catalog_root_state [simp]:
  "catalog_root P key vid ev n (d\<lparr>t_state := st\<rparr>) = catalog_root P key vid ev n d"
  by (simp add: catalog_root_def)

lemma stamp_Inr:
  assumes "stamp P key vid ev now_t s = (Inr n, t)"
  shows "n = next_counter (t_state (db s)) \<and>
    (\<exists>r. catalog_root P key vid ev n (db s) = Some r \<and>
         db t = (db s)\<lparr>t_state := Some \<lparr>st_state_counter = n, st_state_root = r,
           st_updated_at_ms = of_int (unix_milli now_t)\<rparr>\<rparr> \<and> 0 \<le> sint n \<and> length r = 32)"
proof -
  from assms obtain p u m w r x y where p: "attempt load s = (Inr p, u)"
    and m: "(case p of Inr st \<Rightarrow> mreturn (st_state_counter st + 1)
            | Inl e \<Rightarrow> if e = ErrNoState then mreturn 1 else mthrow e) u = (Inr m, w)"
    and r: "root P key vid ev m w = (Inr r, x)"
    and y: "upsert_vault_state \<lparr>st_state_counter = m, st_state_root = r,
               st_updated_at_ms = of_int (unix_milli now_t)\<rparr> x = (Inr (), y)" "n = m" "t = y"
    by (auto simp: stamp_def mbind_Inr_iff prog_simps)
  from p have l: "load s = (p, u)" by (simp add: attempt_Inr_iff)
  have u: "db u = db s" using l by (rule load_db)
  have "m = next_counter (t_state (db s)) \<and> w = u"
    using m l by (auto simp: prog_simps next_counter_def load_Inr_iff dest!: load_NoState
        split: sum.splits if_splits)
  moreover from r have "catalog_root P key vid ev m (db w) = Some r" and "db x = db w"
    by (auto simp: root_Inr_iff)
  ultimately show ?thesis using y u
    by (auto simp: upsert_vault_state_def prog_simps state_check_def split: if_splits)
qed

lemma stamp_anchored: "stamp P key vid ev now_t s = (Inr n, t) \<Longrightarrow> anchored P key vid ev (db t)"
  by (auto simp: anchored_def dest!: stamp_Inr)

lemma stamp_counter:
  assumes "stamp P key vid ev now_t s = (Inr n, t)"
  shows "sint n = (case t_state (db s) of None \<Rightarrow> 1 | Some r \<Rightarrow> sint (st_state_counter r) + 1)"
proof (cases "t_state (db s)")
  case None
  with stamp_Inr [OF assms] show ?thesis by (simp add: next_counter_def)
next
  case (Some r)
  from stamp_Inr [OF assms] have n: "n = next_counter (t_state (db s))" and "0 \<le> sint n" by blast+
  with Some have n: "n = st_state_counter r + 1" and "0 \<le> sint n"
    by (simp_all add: next_counter_def)
  then have "sint (st_state_counter r) \<noteq> 2 ^ 63 - 1" using sint_max_plus1 by fastforce
  with n Some show ?thesis using sint_plus1 by simp
qed

lemma verify_Inr:
  assumes "verify P key vid ev s = (Inr (st, b), t)"
  shows "t_state (db s) = Some st \<and> (b \<longleftrightarrow> anchored P key vid ev (db s)) \<and> db t = db s"
proof -
  from assms obtain u w where "load s = (Inr st, u)"
    and r: "root P key vid ev (st_state_counter st) u = (Inr w, t)" and b: "b = (w = st_state_root st)"
    by (auto simp: verify_def mbind_Inr_iff prog_simps)
  then have "t_state (db s) = Some st" "db u = db s" by (auto simp: load_Inr_iff)
  with r b show ?thesis by (auto simp: root_Inr_iff anchored_def)
qed

text \<open>A stamp runs through when the envelope is there and the counter can still be raised.\<close>

lemma stamp_runs:
  assumes "prims_widths P" and "healthy s" and "pk_find er_envelope_version (ucast ev) (t_envelopes (db s)) = Some e"
    and "0 \<le> sint (next_counter (t_state (db s)))"
  shows "runs (stamp P key vid ev now_t) s (\<lambda>n t. n = next_counter (t_state (db s)))"
proof -
  have ok: "db_open s" "\<And>n. io_ok s n" using assms(2) by (simp_all add: healthy_def)
  let ?n = "next_counter (t_state (db s))"
  obtain r where r: "catalog_root P key vid ev ?n (db s) = Some r" using assms(3) by (auto simp: catalog_root_def)
  have len: "length r = 32" using r assms(1) by (auto simp: catalog_root_def prims_widths_def)
  have st: "runs (root P key vid ev ?n) u (\<lambda>x t. x = r \<and> t = u\<lparr>io_pos := io_pos u + 3\<rparr>)"
    if "db_open u" "\<And>n. io_ok u n" "db u = db s" for u :: "'a env_scheme"
    using r that by (auto simp: runs_def root_Inr_iff)
  show ?thesis
  proof (cases "t_state (db s)")
    case None
    then have l: "load s = (Inl ErrNoState, s\<lparr>io_pos := Suc (io_pos s)\<rparr>)"
      by (simp add: load_def mbind_unfold attempt_def get_vault_state_def sql_query_def io_step_def prog_simps ok one_row_def)
    from None r show ?thesis
      by (simp add: stamp_def wp runs_attempt_Inl [where m = load, OF l] next_counter_def)
        (rule runs_mono [OF st [unfolded None next_counter_def option.case]],
          simp_all add: ok upsert_vault_state_def wp state_check_def len)
  next
    case (Some p)
    then have l: "load s = (Inr p, s\<lparr>io_pos := Suc (io_pos s)\<rparr>)"
      by (auto simp: load_Inr_iff ok)
    from Some show ?thesis
      by (simp add: stamp_def wp runs_attempt_Inr [where m = load, OF l] next_counter_def)
        (rule runs_mono [OF st [unfolded Some next_counter_def option.case]],
          use assms(4) in \<open>simp_all add: ok upsert_vault_state_def wp state_check_def len next_counter_def\<close>)
  qed
qed

text \<open>Two databases that carry the same anchor and both verify hold the same rows, as far as
  the serialisation shows them, unless the hash collides on the two inputs.\<close>

definition input_of :: "crypto_prims \<Rightarrow> bytes \<Rightarrow> u32 \<Rightarrow> i64 \<Rightarrow> db \<Rightarrow> envelope_row \<Rightarrow> bytes" where
  "input_of P vid ev n d e = root_input P vid ev n
     (sort_key rr_record_id (t_records d)) (sort_key cr_client_id (t_clients d)) e"

lemma anchored_same_rows:
  assumes P: "prims_widths P" and v: "length vid = 16"
    and wf: "db_wf d" "db_wf d'"
    and few: "length (t_records d) < 2 ^ 64" "length (t_records d') < 2 ^ 64"
      "length (t_clients d) < 2 ^ 64" "length (t_clients d') < 2 ^ 64"
    and st: "t_state d' = t_state d"
    and a: "anchored P key vid ev d" "anchored P key vid ev d'"
    and collision_free: "\<And>e e' n. hmac_sha256 P key (input_of P vid ev n d e) = hmac_sha256 P key (input_of P vid ev n d' e') \<Longrightarrow>
      input_of P vid ev n d e = input_of P vid ev n d' e'"
  shows "mset (map (record_view P) (t_records d)) = mset (map (record_view P) (t_records d'))
    \<and> mset (map (client_view P) (t_clients d)) = mset (map (client_view P) (t_clients d'))"
proof -
  from a st obtain n e e' where eq: "hmac_sha256 P key (input_of P vid ev n d e) = hmac_sha256 P key (input_of P vid ev n d' e')"
    by (auto simp: anchored_def catalog_root_def input_of_def [abs_def] split: option.splits)
      metis
  have checks: "list_all record_check (sort_key rr_record_id (t_records d))"
    "list_all record_check (sort_key rr_record_id (t_records d'))"
    "list_all client_check (sort_key cr_client_id (t_clients d))"
    "list_all client_check (sort_key cr_client_id (t_clients d'))"
    using wf by (simp_all add: db_wf_def table_ok_def list_all_iff)
  have sizes: "length (sort_key rr_record_id (t_records d)) < 2 ^ 64"
    "length (sort_key rr_record_id (t_records d')) < 2 ^ 64"
    "length (sort_key cr_client_id (t_clients d)) < 2 ^ 64"
    "length (sort_key cr_client_id (t_clients d')) < 2 ^ 64"
    using few by (simp_all only: length_sort)
  note views = root_input_inject [OF P v v checks sizes collision_free [OF eq, unfolded input_of_def]]
  have "map (record_view P) (sort_key rr_record_id (t_records d)) = map (record_view P) (sort_key rr_record_id (t_records d'))"
    and "map (client_view P) (sort_key cr_client_id (t_clients d)) = map (client_view P) (sort_key cr_client_id (t_clients d'))"
    using views by simp_all
  from this [THEN arg_cong [of _ _ mset]] show ?thesis by simp
qed

text \<open>The order in which a table lists its rows does not matter.\<close>

lemma catalog_root_order:
  assumes "db_wf d" and "mset (t_records d') = mset (t_records d)" and "mset (t_clients d') = mset (t_clients d)"
    and "t_envelopes d' = t_envelopes d"
  shows "catalog_root P key vid ev n d' = catalog_root P key vid ev n d"
proof -
  have inj: "inj_on rr_record_id (set (t_records d))" "inj_on cr_client_id (set (t_clients d))"
    using assms(1) by (auto simp: db_wf_def table_ok_def distinct_map)
  have "sort_key rr_record_id (t_records d) = sort_key rr_record_id (t_records d')"
    using sort_key_inj_key_eq [OF _ inj(1), of "sort_key rr_record_id (t_records d')"] assms(2) by simp
  moreover have "sort_key cr_client_id (t_clients d) = sort_key cr_client_id (t_clients d')"
    using sort_key_inj_key_eq [OF _ inj(2), of "sort_key cr_client_id (t_clients d')"] assms(3) by simp
  ultimately show ?thesis using assms(4) by (simp add: catalog_root_def)
qed

text \<open>Frame conditions.\<close>

lemma fixed_root [intro]: "obeys (same_on fixed) (root P key vid ev n)"
  unfolding root_def by (intro same.ok_intros fixed_queries)

lemma fixed_load [intro]: "obeys (same_on fixed) load"
  unfolding load_def by (intro same.ok_intros same.ok_err fixed_queries)

lemma fixed_stamp [intro]: "obeys (same_on fixed) (stamp P key vid ev n)"
  unfolding stamp_def by (intro same.ok_intros same.ok_err fixed_load fixed_root fixed_commands)

lemma fixed_verify [intro]: "obeys (same_on fixed) (verify P key vid ev)"
  unfolding verify_def by (intro same.ok_intros fixed_load fixed_root)

lemma dbwf_root [intro]: "obeys (keeps_inv sound_db) (root P key vid ev n)"
  unfolding root_def by (intro inv.ok_intros dbwf_queries)

lemma dbwf_load [intro]: "obeys (keeps_inv sound_db) load"
  unfolding load_def by (intro inv.ok_intros inv.ok_err dbwf_queries)

lemma dbwf_stamp [intro]: "obeys (keeps_inv sound_db) (stamp P key vid ev n)"
  unfolding stamp_def by (intro inv.ok_intros inv.ok_err dbwf_load dbwf_root dbwf_commands)

lemma dbwf_verify [intro]: "obeys (keeps_inv sound_db) (verify P key vid ev)"
  unfolding verify_def by (intro inv.ok_intros dbwf_load dbwf_root)

end
