(* ===== verification/Vault.thy ===== *)
theory Vault
  imports Catalog
begin

text \<open>
  The vault service (\<^verbatim>\<open>internal/vault/domain/vault.go\<close>, \<^verbatim>\<open>internal/vault/application/service.go\<close>):
  creation, unlock with its escalating delay, lock, change of the master password, and the
  check of the vault-state root. The state is the service's fields on top of the environment
  (\<^typ>\<open>env\<close>); what the lock callbacks work on, the memory of the other services, is the field
  \<open>mem\<close>. The mutex makes every operation atomic; the clock stands still during one operation.
  A key that the program overwrites with zeros and drops is a key that is gone.
\<close>

section \<open>State\<close>

datatype vault_state = StateLocked | StateUnlocked

record vault_agg =
  v_id :: ident
  v_state :: vault_state
  v_format_version :: u32
  v_active_envelope_version :: u32
  v_auto_lock_after :: int
  v_epoch :: u64

definition format_version :: u32 where "format_version = 1"

text \<open>\<^verbatim>\<open>DefaultLockPolicy\<close>: five minutes, in nanoseconds.\<close>

definition default_auto_lock_after :: int where "default_auto_lock_after = 300000000000"

definition zero_vault :: vault_agg where
  "zero_vault = \<lparr>v_id = zero_id, v_state = StateLocked, v_format_version = 0,
     v_active_envelope_version = 0, v_auto_lock_after = 0, v_epoch = 0\<rparr>"

definition agg_unlock :: "vault_agg \<Rightarrow> vault_agg" where
  "agg_unlock v = v\<lparr>v_state := StateUnlocked, v_epoch := v_epoch v + 1\<rparr>"

definition agg_lock :: "vault_agg \<Rightarrow> vault_agg" where
  "agg_lock v = v\<lparr>v_state := StateLocked, v_epoch := v_epoch v + 1\<rparr>"

definition is_unlocked :: "vault_agg \<Rightarrow> bool" where
  "is_unlocked v \<longleftrightarrow> v_state v = StateUnlocked"

record keyring =
  k_metadata :: bytes
  k_secret :: bytes
  k_audit :: bytes
  k_backup :: bytes
  k_catalog :: bytes

record 'm vsys = env +
  vault :: vault_agg
  loaded :: bool
  keyring :: "keyring option"
  root_key :: "bytes option"
  failed_unlocks :: nat
  next_unlock_at :: go_time
  catalog_high_water :: i64
  on_lock :: "('m \<Rightarrow> 'm) list"
  mem :: 'm

section \<open>Envelopes and keys\<close>

definition canary_plaintext :: bytes where
  "canary_plaintext = str_bytes ''albear-canary-v1''"

definition envelope_aad :: "bytes \<Rightarrow> u32 \<Rightarrow> string \<Rightarrow> bytes" where
  "envelope_aad vault_id version kind = vault_id @ be32 version @ str_bytes kind"

definition build_envelope ::
  "crypto_prims \<Rightarrow> bytes \<Rightarrow> u32 \<Rightarrow> bytes \<Rightarrow> bytes \<Rightarrow> kdf_params \<Rightarrow> ('a entropy_scheme, err, envelope_row) prog" where
  "build_envelope P vault_id version rk password params =
     mbind new_salt (\<lambda>salt.
     mbind (mlift (derive_kek P password salt params)) (\<lambda>kek.
     mbind new_nonce (\<lambda>wrap_nonce.
     mbind (mlift (seal P kek wrap_nonce rk (envelope_aad vault_id version ''wrap''))) (\<lambda>wrapped.
     mbind new_nonce (\<lambda>canary_nonce.
     mbind (mlift (seal P rk canary_nonce canary_plaintext (envelope_aad vault_id version ''canary''))) (\<lambda>canary.
     mreturn
       \<lparr>er_envelope_version = ucast version, er_vault_id = vault_id,
        er_kdf_algorithm = ''argon2id'', er_kdf_version = 19, er_kdf_salt = salt,
        er_kdf_memory_kib = ucast (memory_kib params), er_kdf_iterations = ucast (iterations params),
        er_kdf_parallelism = ucast (parallelism params),
        er_wrap_algorithm = ''xchacha20poly1305'', er_wrap_nonce = wrap_nonce,
        er_wrapped_root_key = wrapped, er_canary_nonce = canary_nonce,
        er_encrypted_canary = canary, er_created_at_ms = 0\<rparr>))))))"

definition derive_keyring :: "crypto_prims \<Rightarrow> bytes \<Rightarrow> err + keyring" where
  "derive_keyring P rk =
     sbind (derive_subkey P rk label_metadata) (\<lambda>m.
     sbind (derive_subkey P rk label_secrets) (\<lambda>s.
     sbind (derive_subkey P rk label_audit) (\<lambda>a.
     sbind (derive_subkey P rk label_backup) (\<lambda>b.
     sbind (derive_subkey P rk label_catalog) (\<lambda>c.
     Inr \<lparr>k_metadata = m, k_secret = s, k_audit = a, k_backup = b, k_catalog = c\<rparr>)))))"

text \<open>The KDF parameters as they are read back from a row, and the KEK they give.\<close>

definition row_params :: "envelope_row \<Rightarrow> kdf_params" where
  "row_params e = \<lparr>memory_kib = ucast (er_kdf_memory_kib e),
     iterations = ucast (er_kdf_iterations e), parallelism = ucast (er_kdf_parallelism e)\<rparr>"

definition row_kek :: "crypto_prims \<Rightarrow> bytes \<Rightarrow> envelope_row \<Rightarrow> err + bytes" where
  "row_kek P password e = derive_kek P password (er_kdf_salt e) (row_params e)"

definition unwrap_root ::
  "crypto_prims \<Rightarrow> bytes \<Rightarrow> bytes \<Rightarrow> u32 \<Rightarrow> envelope_row \<Rightarrow> err + bytes" where
  "unwrap_root P kek vault_id version e =
     open_box P kek (er_wrap_nonce e) (er_wrapped_root_key e) (envelope_aad vault_id version ''wrap'')"

section \<open>Operations\<close>

definition set_vault :: "vault_agg \<Rightarrow> (('m, 'a) vsys_scheme, err, unit) prog" where
  "set_vault v = mmodify (\<lambda>s. s\<lparr>vault := v, loaded := True\<rparr>)"

definition fresh_vault :: "ident \<Rightarrow> u32 \<Rightarrow> u32 \<Rightarrow> vault_agg" where
  "fresh_vault i fv ev = \<lparr>v_id = i, v_state = StateLocked, v_format_version = fv,
     v_active_envelope_version = ev, v_auto_lock_after = default_auto_lock_after, v_epoch = 0\<rparr>"

definition load_vault :: "(('m, 'a) vsys_scheme, err, unit) prog" where
  "load_vault =
     mbind (mget loaded) (\<lambda>l.
     if l then mreturn () else
     mbind (attempt get_vault) (\<lambda>r. case r of
       Inl e \<Rightarrow> mthrow (if e = ErrNoRows then ErrVaultNotFound else e)
     | Inr row \<Rightarrow>
         if (ucast (vr_format_version row) :: u32) > format_version then mthrow ErrIntegrityFailure else
         (case id_from_bytes (vr_vault_id row) of
            Inl _ \<Rightarrow> mthrow ErrIntegrityFailure
          | Inr i \<Rightarrow> set_vault (fresh_vault i (ucast (vr_format_version row))
                       (ucast (vr_active_envelope_version row))))))"

definition note_counter :: "i64 \<Rightarrow> (('m, 'a) vsys_scheme, err, unit) prog" where
  "note_counter n = mmodify (\<lambda>s.
     if sint n > sint (catalog_high_water s) then s\<lparr>catalog_high_water := n\<rparr> else s)"

record status =
  st_initialized :: bool
  st_unlocked :: bool
  st_epoch :: u64
  st_record_count :: nat

definition vault_status :: "(('m, 'a) vsys_scheme, err, status) prog" where
  "vault_status =
     mbind (attempt load_vault) (\<lambda>r. case r of
       Inl e \<Rightarrow> if e = ErrVaultNotFound
         then mreturn \<lparr>st_initialized = False, st_unlocked = False, st_epoch = 0, st_record_count = 0\<rparr>
         else mthrow e
     | Inr _ \<Rightarrow>
         mbind (mget vault) (\<lambda>v.
         mbind (if is_unlocked v then count_records else mreturn 0) (\<lambda>n.
         mreturn \<lparr>st_initialized = True, st_unlocked = is_unlocked v, st_epoch = v_epoch v,
           st_record_count = n\<rparr>)))"

definition vault_init :: "crypto_prims \<Rightarrow> bytes \<Rightarrow> kdf_params \<Rightarrow> (('m, 'a) vsys_scheme, err, unit) prog" where
  "vault_init P password params =
     mbind (attempt load_vault) (\<lambda>r. case r of
       Inr _ \<Rightarrow> mthrow ErrVaultExists
     | Inl e \<Rightarrow> if e \<noteq> ErrVaultNotFound then mthrow e else
     mbind (mlift (case kdf_validate params of Some e \<Rightarrow> Inl e | None \<Rightarrow> Inr ())) (\<lambda>_.
     mbind new_id (\<lambda>vault_id.
     mbind new_key (\<lambda>rk.
     mbind (build_envelope P vault_id 1 rk password params) (\<lambda>e.
     mbind (mlift (derive_subkey P rk label_catalog)) (\<lambda>catalog_key.
     mbind (mget now) (\<lambda>t.
     mbind (with_tx (
       mbind (insert_vault \<lparr>vr_vault_id = vault_id, vr_format_version = ucast format_version,
                 vr_active_envelope_version = 1, vr_created_at_ms = of_int (unix_milli t),
                 vr_updated_at_ms = of_int (unix_milli t)\<rparr>) (\<lambda>_.
       mbind (insert_key_envelope (e\<lparr>er_created_at_ms := of_int (unix_milli t)\<rparr>)) (\<lambda>_.
       stamp P catalog_key vault_id 1 t)))) (\<lambda>stamped.
     mbind (note_counter stamped) (\<lambda>_.
     set_vault (fresh_vault (case id_from_bytes vault_id of Inr i \<Rightarrow> i | Inl _ \<Rightarrow> zero_id)
       format_version 1))))))))))"

text \<open>The delay before the next attempt, in nanoseconds, by the number of failures so far.\<close>

definition unlock_delay :: "nat \<Rightarrow> int" where
  "unlock_delay n =
     (if n \<le> 3 then 0
      else if n \<le> 5 then 2 * 1000000000
      else if n \<le> 10 then int (n - 5) * 5 * 1000000000
      else 60 * 1000000000)"

definition unlock_failed :: "(('m, 'a) vsys_scheme, err, 'r) prog" where
  "unlock_failed =
     mbind (mmodify (\<lambda>s. s\<lparr>failed_unlocks := Suc (failed_unlocks s)\<rparr>)) (\<lambda>_.
     mbind (mmodify (\<lambda>s. s\<lparr>next_unlock_at := now s + unlock_delay (failed_unlocks s)\<rparr>)) (\<lambda>_.
     mthrow ErrAuthenticationFail))"

definition unlock :: "crypto_prims \<Rightarrow> bytes \<Rightarrow> (('m, 'a) vsys_scheme, err, unit) prog" where
  "unlock P password =
     mbind (mget (\<lambda>s. now s < next_unlock_at s)) (\<lambda>early.
     mbind (mguard (\<not> early) ErrRateLimited) (\<lambda>_.
     mbind load_vault (\<lambda>_.
     mbind (mget vault) (\<lambda>v.
     mbind (replace_error ErrIntegrityFailure
             (get_key_envelope (ucast (v_active_envelope_version v)))) (\<lambda>e.
     case row_kek P password e of Inl _ \<Rightarrow> unlock_failed | Inr kek \<Rightarrow>
     (case unwrap_root P kek (v_id v) (ucast (er_envelope_version e)) e of
        Inl _ \<Rightarrow> unlock_failed
      | Inr rk \<Rightarrow>
          if open_box P rk (er_canary_nonce e) (er_encrypted_canary e)
               (envelope_aad (v_id v) (ucast (er_envelope_version e)) ''canary'') \<noteq> Inr canary_plaintext
          then unlock_failed
          else
            mbind (mlift (derive_keyring P rk)) (\<lambda>kr.
            mmodify (\<lambda>s. s\<lparr>root_key := Some rk, keyring := Some kr, failed_unlocks := 0,
              next_unlock_at := zero_time, vault := agg_unlock (vault s)\<rparr>))))))))"

definition lock_fields :: "('m, 'a) vsys_scheme \<Rightarrow> ('m, 'a) vsys_scheme" where
  "lock_fields s = s\<lparr>keyring := None, root_key := None,
     vault := (if is_unlocked (vault s) then agg_lock (vault s) else vault s)\<rparr>"

definition run_on_lock :: "('m, 'a) vsys_scheme \<Rightarrow> ('m, 'a) vsys_scheme" where
  "run_on_lock s = s\<lparr>mem := fold (\<lambda>f m. f m) (on_lock s) (mem s)\<rparr>"

definition lock :: "(('m, 'a) vsys_scheme, err, unit) prog" where
  "lock = mmodify (\<lambda>s. run_on_lock (lock_fields s))"

definition panic_lock :: "(('m, 'a) vsys_scheme, err, unit) prog" where
  "panic_lock = lock"

definition reset :: "(('m, 'a) vsys_scheme, err, unit) prog" where
  "reset =
     mbind lock (\<lambda>_.
     mmodify (\<lambda>s. s\<lparr>loaded := False, vault := zero_vault, catalog_high_water := 0\<rparr>))"

definition keys :: "(('m, 'a) vsys_scheme, err, keyring) prog" where
  "keys =
     mbind (mget (\<lambda>s. if is_unlocked (vault s) then keyring s else None)) (\<lambda>k. case k of
       None \<Rightarrow> mthrow ErrVaultLocked
     | Some kr \<Rightarrow> mreturn kr)"

definition vault_info :: "(('m, 'a) vsys_scheme, err, bytes \<times> u32 \<times> u32) prog" where
  "vault_info =
     mbind (mget loaded) (\<lambda>l.
     if \<not> l then mthrow ErrVaultNotFound
     else mget (\<lambda>s. (v_id (vault s), v_format_version (vault s), v_active_envelope_version (vault s))))"

definition stamp_locked :: "crypto_prims \<Rightarrow> keyring \<Rightarrow> (('m, 'a) vsys_scheme, err, unit) prog" where
  "stamp_locked P kr =
     mbind (mget vault) (\<lambda>v.
     mbind (mget now) (\<lambda>t.
     mbind (with_tx (stamp P (k_catalog kr) (v_id v) (v_active_envelope_version v) t)) (\<lambda>stamped.
     note_counter stamped)))"

definition verify_catalog :: "crypto_prims \<Rightarrow> (('m, 'a) vsys_scheme, err, bool) prog" where
  "verify_catalog P =
     mbind keys (\<lambda>kr.
     mbind (mget vault) (\<lambda>v.
     mbind (attempt (read_tx (verify P (k_catalog kr) (v_id v) (v_active_envelope_version v)))) (\<lambda>r.
     case r of
       Inl e \<Rightarrow> if e = ErrNoState then mbind (stamp_locked P kr) (\<lambda>_. mreturn True) else mthrow e
     | Inr (st, same) \<Rightarrow>
         mbind (mguard same ErrIntegrityFailure) (\<lambda>_.
         mbind (mget catalog_high_water) (\<lambda>hw.
         mbind (mguard (\<not> sint (st_state_counter st) < sint hw) ErrIntegrityFailure) (\<lambda>_.
         mbind (mmodify (\<lambda>s. s\<lparr>catalog_high_water := st_state_counter st\<rparr>)) (\<lambda>_.
         mreturn False)))))))"

definition change_master_password ::
  "crypto_prims \<Rightarrow> bytes \<Rightarrow> bytes \<Rightarrow> kdf_params \<Rightarrow> (('m, 'a) vsys_scheme, err, unit) prog" where
  "change_master_password P current next_pw params =
     mbind load_vault (\<lambda>_.
     mbind (mget vault) (\<lambda>v.
     mbind (replace_error ErrIntegrityFailure
             (get_key_envelope (ucast (v_active_envelope_version v)))) (\<lambda>e.
     mbind (replace_error ErrAuthenticationFail (mlift (row_kek P current e))) (\<lambda>kek.
     mbind (replace_error ErrAuthenticationFail
             (mlift (unwrap_root P kek (v_id v) (v_active_envelope_version v) e))) (\<lambda>rk.
     let old_version = (ucast (v_active_envelope_version v) :: i64);
         new_version = (ucast (old_version + 1) :: u32) in
     mbind (build_envelope P (v_id v) new_version rk next_pw params) (\<lambda>new_env.
     mbind (mlift (derive_subkey P rk label_catalog)) (\<lambda>catalog_key.
     mbind (mget now) (\<lambda>t.
     mbind (with_tx (
       mbind (insert_key_envelope (new_env\<lparr>er_created_at_ms := of_int (unix_milli t)\<rparr>)) (\<lambda>_.
       mbind (set_active_envelope (ucast new_version) (of_int (unix_milli t))) (\<lambda>_.
       mbind (delete_key_envelope old_version) (\<lambda>_.
       stamp P catalog_key (v_id v) new_version t))))) (\<lambda>stamped.
     mbind (note_counter stamped) (\<lambda>_.
     mbind (mmodify (\<lambda>s. s\<lparr>vault := (vault s)\<lparr>v_active_envelope_version := new_version\<rparr>\<rparr>)) (\<lambda>_.
     lock)))))))))))"

definition verify_password :: "crypto_prims \<Rightarrow> bytes \<Rightarrow> (('m, 'a) vsys_scheme, err, unit) prog" where
  "verify_password P password =
     mbind load_vault (\<lambda>_.
     mbind (mget vault) (\<lambda>v.
     mbind (replace_error ErrIntegrityFailure
             (get_key_envelope (ucast (v_active_envelope_version v)))) (\<lambda>e.
     mbind (replace_error ErrAuthenticationFail (mlift (row_kek P password e))) (\<lambda>kek.
     mbind (replace_error ErrAuthenticationFail
             (mlift (unwrap_root P kek (v_id v) (v_active_envelope_version v) e))) (\<lambda>_.
     mreturn ())))))"

section \<open>Frames\<close>

text \<open>
  A program that leaves \<^const>\<open>fixed\<close> alone leaves the whole service state alone. The environment
  part that no operation of the daemon touches is named on its own.
\<close>

lemma more_vsys:
  assumes "env.more s = env.more t"
  shows "vault s = vault t" "loaded s = loaded t" "keyring s = keyring t" "root_key s = root_key t"
    "failed_unlocks s = failed_unlocks t" "next_unlock_at s = next_unlock_at t"
    "catalog_high_water s = catalog_high_water t" "on_lock s = on_lock t" "mem s = mem t"
    "vsys.more s = vsys.more t"
  using assms by (cases s; cases t; simp)+

lemma fixedD:
  assumes "obeys (same_on fixed) m" and "m s = (r, t)"
  shows "rnd_src t = rnd_src s" "rnd_ok t = rnd_ok s" "now t = now s" "io_ok t = io_ok s"
    "db_open t = db_open s" "env.more t = env.more s"
  using same_okD [OF assms] by (simp_all add: fixed_def)

lemma fixed_frame:
  assumes "obeys (same_on fixed) m" and "\<And>s t. env.more s = env.more t \<Longrightarrow> f s = f t"
  shows "obeys (same_on f) m"
  using assms(1) by (auto simp: obeys_def same_on_def fixed_def intro: assms(2))

lemma fixed_inv:
  assumes "obeys (same_on fixed) m" and "\<And>s t. env.more s = env.more t \<Longrightarrow> I s = I t"
  shows "obeys (keeps_inv I) m"
  using fixed_frame [where f = I, OF assms] by (simp add: obeys_def same_on_def keeps_inv_def)

definition env_fixed :: "'a env_scheme \<Rightarrow> (nat \<Rightarrow> byte) \<times> (nat \<Rightarrow> bool) \<times> go_time \<times> (nat \<Rightarrow> bool) \<times> bool" where
  "env_fixed s = (rnd_src s, rnd_ok s, now s, io_ok s, db_open s)"

lemma fixed_env: "obeys (same_on fixed) m \<Longrightarrow> obeys (same_on env_fixed) m"
  by (auto simp: obeys_def same_on_def fixed_def env_fixed_def)

lemma fixed_new [intro]:
  "obeys (same_on fixed) new_id" "obeys (same_on fixed) new_key" "obeys (same_on fixed) new_nonce"
  "obeys (same_on fixed) new_salt" "obeys (same_on fixed) new_credential"
  by (auto simp: new_defs)

lemma fixed_build_envelope [intro]: "obeys (same_on fixed) (build_envelope P vid n rk pw params)"
  unfolding build_envelope_def by (intro same.ok_intros fixed_new)

lemma fixed_keys [intro]: "obeys (same_on fixed) keys"
  unfolding keys_def by (intro same.ok_intros)

lemma fixed_vault_info [intro]: "obeys (same_on fixed) vault_info"
  unfolding vault_info_def by (intro same.ok_intros)

lemma keys_Inr_iff [prog_simps]:
  "keys s = (Inr kr, t) \<longleftrightarrow> is_unlocked (vault s) \<and> keyring s = Some kr \<and> t = s"
  by (auto simp: keys_def mbind_Inr_iff prog_simps split: option.splits if_splits)

lemma keys_Inl_iff: "keys s = (Inl e, t) \<longleftrightarrow> e = ErrVaultLocked \<and> t = s \<and> \<not> (is_unlocked (vault s) \<and> keyring s \<noteq> None)"
  by (auto simp: keys_def mbind_unfold prog_simps split: option.splits if_splits)

lemma vault_info_Inr_iff [prog_simps]:
  "vault_info s = (Inr x, t) \<longleftrightarrow> loaded s \<and> t = s \<and>
     x = (v_id (vault s), v_format_version (vault s), v_active_envelope_version (vault s))"
  by (auto simp: vault_info_def mbind_Inr_iff prog_simps split: if_splits)

section \<open>Loading\<close>

text \<open>Loading leaves the service as it is, or fills the vault field from the row, locked.\<close>

lemma load_vault_Inr:
  assumes "load_vault s = (Inr u, t)"
  shows "loaded t \<and> (loaded s \<and> t = s \<or>
    \<not> loaded s \<and> db_open s \<and> (\<exists>row. t_vault (db s) = Some row \<and> length (vr_vault_id row) = 16 \<and>
      t = s\<lparr>io_pos := Suc (io_pos s), vault := fresh_vault (vr_vault_id row)
             (ucast (vr_format_version row)) (ucast (vr_active_envelope_version row)), loaded := True\<rparr>))"
  using assms
  by (auto simp: load_vault_def mbind_Inr_iff attempt_Inr_iff get_vault_def one_row_def prog_simps
      sum_prog_iff set_vault_def id_from_bytes_def id_len_def split: if_splits option.splits)

lemma load_vault_Inl:
  assumes "load_vault s = (Inl e, t)"
  shows "\<not> loaded s \<and> fixed t = fixed s \<and> db t = db s"
proof -
  from assms have l: "\<not> loaded s"
    by (auto simp: load_vault_def mbind_Inl_iff prog_simps)
  obtain r u where a: "attempt get_vault s = (r, u)" by (cases "attempt get_vault s")
  have f: "fixed u = fixed s" by (rule same_okD [OF same.ok_attempt [OF fixed_queries(1)] a])
  have d: "db u = db s"
    using a by (cases "get_vault s") (auto simp: attempt_def get_vault_def sql_query_def io_step_def
        mbind_unfold prog_simps split: sum.splits err.splits prod.splits if_splits)
  have "u = t" using assms l a
    by (auto simp: load_vault_def mbind_unfold prog_simps set_vault_def split: sum.splits if_splits)
  with l f d show ?thesis by simp
qed

lemma load_vault_db: "load_vault s = (r, t) \<Longrightarrow> db t = db s"
  by (cases r) (auto dest: load_vault_Inl load_vault_Inr)

lemma load_vault_loaded: "loaded s \<Longrightarrow> load_vault s = (Inr (), s)"
  by (simp add: load_vault_def prog_simps)

section \<open>Keys are present exactly while the vault is unlocked\<close>

definition locked_inv :: "('m, 'a) vsys_scheme \<Rightarrow> bool" where
  "locked_inv s \<longleftrightarrow> keyring s = None \<and> root_key s = None \<and> \<not> is_unlocked (vault s)"

definition key_inv :: "crypto_prims \<Rightarrow> ('m, 'a) vsys_scheme \<Rightarrow> bool" where
  "key_inv P s \<longleftrightarrow>
     (keyring s = None \<longrightarrow> root_key s = None \<and> \<not> is_unlocked (vault s)) \<and>
     (\<forall>kr. keyring s = Some kr \<longrightarrow> is_unlocked (vault s) \<and> loaded s \<and>
        (\<exists>rk. root_key s = Some rk \<and> derive_keyring P rk = Inr kr))"

lemma locked_key_inv: "locked_inv s \<Longrightarrow> key_inv P s"
  by (simp add: locked_inv_def key_inv_def)

lemma key_locked_inv: "key_inv P s \<Longrightarrow> \<not> loaded s \<Longrightarrow> locked_inv s"
  by (auto simp: locked_inv_def key_inv_def split: option.splits)

lemma key_inv_more: "env.more s = env.more t \<Longrightarrow> key_inv P s = key_inv P t"
  using more_vsys [of s t] by (simp add: key_inv_def)

lemma locked_inv_more: "env.more s = env.more t \<Longrightarrow> locked_inv s = locked_inv t"
  using more_vsys [of s t] by (simp add: locked_inv_def)

lemmas key_fixed [intro] = fixed_inv [OF _ key_inv_more]
lemmas locked_fixed [intro] = fixed_inv [OF _ locked_inv_more]

lemma fresh_locked [simp]: "\<not> is_unlocked (fresh_vault i fv ev)"
  by (simp add: fresh_vault_def is_unlocked_def)

lemma key_load_vault [intro]:
  "obeys (keeps_inv (key_inv P)) (load_vault :: (('m, 'a) vsys_scheme, err, unit) prog)"
  unfolding obeys_def keeps_inv_def
proof (intro allI impI)
  fix s :: "('m, 'a) vsys_scheme"
  assume k: "key_inv P s"
  obtain r t where l: "load_vault s = (r, t)" by (cases "load_vault s")
  show "key_inv P (snd (load_vault s))"
  proof (cases r)
    case (Inl e)
    with l have "env.more t = env.more s" by (auto dest!: load_vault_Inl simp: fixed_def)
    with l k show ?thesis using key_inv_more [of t s P] by simp
  next
    case (Inr u)
    with l k show ?thesis
      by (auto dest!: load_vault_Inr dest: key_locked_inv simp: locked_inv_def key_inv_def)
  qed
qed

lemma locked_load_vault [intro]: "obeys (keeps_inv locked_inv) load_vault"
  unfolding load_vault_def set_vault_def
  by (intro inv.ok_intros inv.ok_err locked_fixed fixed_queries inv.ok_modify)
    (auto simp: keeps_inv_def locked_inv_def)

lemma key_note_counter [intro]: "obeys (keeps_inv (key_inv P)) (note_counter n)"
  unfolding note_counter_def by (rule inv.ok_modify) (simp add: keeps_inv_def key_inv_def)

lemma locked_note_counter [intro]: "obeys (keeps_inv locked_inv) (note_counter n)"
  unfolding note_counter_def by (rule inv.ok_modify) (simp add: keeps_inv_def locked_inv_def)

lemma locked_lock: "locked_inv (snd (lock s))"
  by (simp add: lock_def prog_simps run_on_lock_def lock_fields_def locked_inv_def is_unlocked_def
      agg_lock_def)

lemma key_lock [intro]: "obeys (keeps_inv (key_inv P)) lock"
  unfolding obeys_def keeps_inv_def by (auto intro: locked_key_inv locked_lock)

lemma key_panic_lock [intro]: "obeys (keeps_inv (key_inv P)) panic_lock"
  unfolding panic_lock_def by (rule key_lock)

lemma key_reset [intro]: "obeys (keeps_inv (key_inv P)) reset"
  unfolding obeys_def keeps_inv_def reset_def
  by (auto simp: mbind_unfold lock_def prog_simps run_on_lock_def lock_fields_def key_inv_def
      zero_vault_def is_unlocked_def)

lemma key_unlock_failed [intro]: "obeys (keeps_inv (key_inv P)) unlock_failed"
  unfolding unlock_failed_def
  by (intro inv.ok_bind inv.ok_modify inv.ok_throw) (simp_all add: keeps_inv_def key_inv_def)

lemma key_status [intro]: "obeys (keeps_inv (key_inv P)) vault_status"
  unfolding vault_status_def
  by (intro inv.ok_intros inv.ok_err key_load_vault key_fixed fixed_queries)


lemma key_stamp_locked [intro]: "obeys (keeps_inv (key_inv P)) (stamp_locked P kr)"
  unfolding stamp_locked_def
  by (intro inv.ok_intros key_note_counter key_fixed fixed_tx fixed_stamp)

lemma key_verify_catalog [intro]: "obeys (keeps_inv (key_inv P)) (verify_catalog P)"
  unfolding verify_catalog_def
  by (intro inv.ok_intros inv.ok_err key_stamp_locked key_fixed fixed_keys fixed_read_tx fixed_verify
      inv.ok_modify) (auto simp: keeps_inv_def key_inv_def)

lemma key_verify_password [intro]: "obeys (keeps_inv (key_inv P)) (verify_password P pw)"
  unfolding verify_password_def
  by (intro inv.ok_intros inv.ok_err key_load_vault key_fixed fixed_queries)

lemma key_change_master_password [intro]:
  "obeys (keeps_inv (key_inv P)) (change_master_password P pw pw' params)"
  unfolding change_master_password_def Let_def
  by (intro inv.ok_intros inv.ok_err key_load_vault key_note_counter key_lock key_fixed fixed_queries
      fixed_build_envelope fixed_tx fixed_commands fixed_stamp same.ok_bind inv.ok_modify)
    (auto simp: keeps_inv_def key_inv_def is_unlocked_def)

lemma key_loaded_fixed:
  assumes "obeys (same_on fixed) m"
  shows "obeys (keeps_inv (\<lambda>s. key_inv P s \<and> loaded s)) m"
  by (rule fixed_inv [OF assms]) (metis key_inv_more more_vsys(2))

lemma key_loaded_unlock_failed:
  "obeys (keeps_inv (\<lambda>s. key_inv P s \<and> loaded s)) unlock_failed"
  unfolding unlock_failed_def
  by (intro inv.ok_bind inv.ok_modify inv.ok_throw) (auto simp: keeps_inv_def key_inv_def)

definition open_vault :: "bytes \<Rightarrow> keyring \<Rightarrow> ('m, 'a) vsys_scheme \<Rightarrow> ('m, 'a) vsys_scheme" where
  "open_vault rk kr s = s\<lparr>root_key := Some rk, keyring := Some kr, failed_unlocks := 0,
     next_unlock_at := zero_time, vault := agg_unlock (vault s)\<rparr>"

lemma key_loaded_open_vault:
  "obeys (keeps_inv (\<lambda>s. key_inv P s \<and> loaded s)) (mbind (mlift (derive_keyring P rk)) (\<lambda>kr. mmodify (open_vault rk kr)))"
  by (intro obeys_lift inv.ok_throw inv.ok_modify)
    (auto simp: keeps_inv_def key_inv_def open_vault_def agg_unlock_def is_unlocked_def)

lemma key_unlock [intro]: "obeys (keeps_inv (key_inv P)) (unlock P pw)"
  unfolding unlock_def open_vault_def [symmetric]
  apply (rule inv.ok_bind, rule inv.ok_get, rule inv.ok_bind, rule inv.ok_guard)
  apply (rule keeps_post [where J = "\<lambda>_ s. key_inv P s \<and> loaded s", OF key_load_vault])
    apply (metis inv_okD key_load_vault load_vault_Inr)
   apply (rule inv.ok_bind, rule inv.ok_get, rule inv.ok_bind)
    apply (intro inv.ok_err key_loaded_fixed fixed_queries)
   apply (intro inv.ok_sum inv.ok_if key_loaded_unlock_failed key_loaded_open_vault)
  apply simp
  done

lemma locked_set_vault: "\<not> is_unlocked v \<Longrightarrow> obeys (keeps_inv locked_inv) (set_vault v)"
  unfolding set_vault_def by (rule inv.ok_modify) (simp add: keeps_inv_def locked_inv_def)

lemma attempt_load_post:
  assumes "key_inv P s" and "attempt load_vault s = (Inr r, t)"
  shows "case r of Inl _ \<Rightarrow> locked_inv t | Inr _ \<Rightarrow> key_inv P t"
proof (cases r)
  case (Inl e)
  with assms(2) have "\<not> loaded s" and f: "fixed t = fixed s"
    by (auto simp: attempt_Inr_iff dest: load_vault_Inl)
  with assms(1) have "locked_inv s" by (blast intro: key_locked_inv)
  moreover from f have "env.more t = env.more s" by (simp add: fixed_def)
  ultimately show ?thesis using Inl locked_inv_more [of t s] by simp
next
  case (Inr u)
  with assms show ?thesis using inv_okD [OF key_load_vault] by (auto simp: attempt_Inr_iff)
qed

lemma key_vault_init [intro]: "obeys (keeps_inv (key_inv P)) (vault_init P pw params)"
  unfolding vault_init_def
proof (rule keeps_post [where J = "\<lambda>r s. case r of Inl _ \<Rightarrow> locked_inv s | Inr _ \<Rightarrow> key_inv P s"],
    goal_cases)
  case 1
  show ?case by (intro inv.ok_err key_load_vault)
next
  case (2 s r t)
  then show ?case by (rule attempt_load_post)
next
  case (3 r)
  show ?case
  proof (cases r)
    case (Inl e)
    show ?thesis unfolding Inl sum.case
      by (intro inv.ok_intros inv.ok_err locked_fixed fixed_new fixed_build_envelope fixed_tx fixed_commands
        fixed_stamp same.ok_bind locked_note_counter locked_set_vault fresh_locked)
  next
    case (Inr u)
    show ?thesis unfolding Inr sum.case by (rule inv.ok_throw)
  qed
next
  case (4 r s)
  then show ?case by (auto split: sum.splits intro: locked_key_inv)
qed

section \<open>Opening an envelope\<close>

definition envelope_opens :: "crypto_prims \<Rightarrow> bytes \<Rightarrow> bytes \<Rightarrow> envelope_row \<Rightarrow> bytes \<Rightarrow> bool" where
  "envelope_opens P password vault_id e rk \<longleftrightarrow>
     (\<exists>kek. row_kek P password e = Inr kek \<and>
        unwrap_root P kek vault_id (ucast (er_envelope_version e)) e = Inr rk) \<and>
     open_box P rk (er_canary_nonce e) (er_encrypted_canary e)
       (envelope_aad vault_id (ucast (er_envelope_version e)) ''canary'') = Inr canary_plaintext"

lemma ucast_u8_u64 [simp]: "(ucast (ucast (w :: u8) :: i64) :: u8) = w"
  by transfer simp

lemma build_envelope_Inr:
  assumes "build_envelope P vid ver rk pw params s = (Inr e, t)"
  shows "er_envelope_version e = ucast ver \<and> er_vault_id e = vid \<and> row_params e = params \<and>
    length (er_kdf_salt e) = 16 \<and> length (er_wrap_nonce e) = 24 \<and> length (er_canary_nonce e) = 24 \<and>
    er_kdf_algorithm e = ''argon2id'' \<and> er_wrap_algorithm e = ''xchacha20poly1305'' \<and>
    kdf_validate params = None \<and>
    (\<exists>kek. row_kek P pw e = Inr kek \<and>
       seal P kek (er_wrap_nonce e) rk (envelope_aad vid ver ''wrap'') = Inr (er_wrapped_root_key e)) \<and>
    seal P rk (er_canary_nonce e) canary_plaintext (envelope_aad vid ver ''canary'') = Inr (er_encrypted_canary e)"
  using assms
  by (cases params)
    (auto simp: build_envelope_def mbind_Inr_iff prog_simps new_defs row_params_def row_kek_def
      derive_kek_def dest!: random_bytes_Inr split: option.splits if_splits)

lemma build_envelope_opens:
  assumes "aead_correct P" and "build_envelope P vid ver rk pw params s = (Inr e, t)"
  shows "envelope_opens P pw vid e rk"
  using build_envelope_Inr [OF assms(2)] open_seal [OF assms(1)]
  by (auto simp: envelope_opens_def unwrap_root_def)

lemma envelope_opens_created [simp]:
  "envelope_opens P pw vid (e\<lparr>er_created_at_ms := c\<rparr>) rk = envelope_opens P pw vid e rk"
  by (simp add: envelope_opens_def row_kek_def row_params_def unwrap_root_def)

lemma envelope_opens_key: "envelope_opens P pw vid e rk \<Longrightarrow> length rk = 32"
  by (auto simp: envelope_opens_def open_box_def aead_args_def key_size_def split: if_splits)

lemma derive_keyring_total: "length rk = 32 \<Longrightarrow> \<exists>kr. derive_keyring P rk = Inr kr"
  by (simp add: derive_keyring_def derive_subkey_def key_size_def)

lemma derive_keyring_catalog: "derive_keyring P rk = Inr kr \<Longrightarrow> derive_subkey P rk label_catalog = Inr (k_catalog kr)"
  by (auto simp: derive_keyring_def sbind_Inr_iff)

text \<open>The row the service will read for its active envelope version.\<close>

definition active_envelope :: "vault_agg \<Rightarrow> db \<Rightarrow> envelope_row option" where
  "active_envelope v d = pk_find er_envelope_version (ucast (v_active_envelope_version v)) (t_envelopes d)"

lemma get_active_Inr_iff [prog_simps]:
  "get_key_envelope (ucast (v_active_envelope_version v)) s = (Inr e, t) \<longleftrightarrow>
     db_open s \<and> io_ok s (io_pos s) \<and> active_envelope v (db s) = Some e \<and> t = s\<lparr>io_pos := Suc (io_pos s)\<rparr>"
  by (auto simp: get_key_envelope_def active_envelope_def prog_simps one_row_def split: option.splits)

text \<open>An unlock that succeeds opened the active envelope, verified the canary, and holds the keys
  of the root key found there.\<close>

lemma unlock_failed_never [simp]: "unlock_failed s \<noteq> (Inr x, t)"
  by (simp add: unlock_failed_def prog_simps mbind_unfold)

lemma unlock_Inr:
  assumes "unlock P pw s = (Inr (), t)"
  shows "\<exists>u e rk kr. \<not> now s < next_unlock_at s \<and> load_vault s = (Inr (), u) \<and>
    active_envelope (vault u) (db s) = Some e \<and> envelope_opens P pw (v_id (vault u)) e rk \<and>
    derive_keyring P rk = Inr kr \<and> t = open_vault rk kr (u\<lparr>io_pos := Suc (io_pos u)\<rparr>)"
proof -
  from assms obtain u where n: "\<not> now s < next_unlock_at s" and u: "load_vault s = (Inr (), u)"
    and rest: "mbind (replace_error ErrIntegrityFailure
             (get_key_envelope (ucast (v_active_envelope_version (vault u))))) (\<lambda>e.
     case row_kek P pw e of Inl _ \<Rightarrow> unlock_failed | Inr kek \<Rightarrow>
     (case unwrap_root P kek (v_id (vault u)) (ucast (er_envelope_version e)) e of
        Inl _ \<Rightarrow> unlock_failed
      | Inr rk \<Rightarrow>
          if open_box P rk (er_canary_nonce e) (er_encrypted_canary e)
               (envelope_aad (v_id (vault u)) (ucast (er_envelope_version e)) ''canary'') \<noteq> Inr canary_plaintext
          then unlock_failed
          else mbind (mlift (derive_keyring P rk)) (\<lambda>kr. mmodify (open_vault rk kr)))) u = (Inr (), t)"
    unfolding unlock_def open_vault_def [symmetric]
    by (auto simp: mbind_Inr_iff prog_simps split: if_splits)
  then obtain e where e: "active_envelope (vault u) (db u) = Some e"
    and t: "(case row_kek P pw e of Inl _ \<Rightarrow> unlock_failed | Inr kek \<Rightarrow>
     (case unwrap_root P kek (v_id (vault u)) (ucast (er_envelope_version e)) e of
        Inl _ \<Rightarrow> unlock_failed
      | Inr rk \<Rightarrow>
          if open_box P rk (er_canary_nonce e) (er_encrypted_canary e)
               (envelope_aad (v_id (vault u)) (ucast (er_envelope_version e)) ''canary'') \<noteq> Inr canary_plaintext
          then unlock_failed
          else mbind (mlift (derive_keyring P rk)) (\<lambda>kr. mmodify (open_vault rk kr))))
       (u\<lparr>io_pos := Suc (io_pos u)\<rparr>) = (Inr (), t)"
    by (auto simp: mbind_Inr_iff prog_simps)
  then obtain rk kr where "envelope_opens P pw (v_id (vault u)) e rk" "derive_keyring P rk = Inr kr"
    "t = open_vault rk kr (u\<lparr>io_pos := Suc (io_pos u)\<rparr>)"
    by (auto simp: sum_prog_iff envelope_opens_def mbind_Inr_iff prog_simps split: if_splits)
  moreover have "active_envelope (vault u) (db s) = Some e" using e load_vault_db [OF u] by simp
  ultimately show ?thesis using n u by blast
qed

text \<open>Conversely it succeeds whenever the envelope opens and the store answers.\<close>

lemma unlock_succeeds:
  assumes "\<not> now s < next_unlock_at s" and "load_vault s = (Inr (), u)"
    and "db_open u" and "io_ok u (io_pos u)" and "active_envelope (vault u) (db u) = Some e"
    and "envelope_opens P pw (v_id (vault u)) e rk"
  shows "\<exists>kr. derive_keyring P rk = Inr kr \<and>
    unlock P pw s = (Inr (), open_vault rk kr (u\<lparr>io_pos := Suc (io_pos u)\<rparr>))"
proof -
  obtain kr where kr: "derive_keyring P rk = Inr kr"
    using envelope_opens_key [OF assms(6)] derive_keyring_total by blast
  have l: "mbind load_vault f s = f () u" for f :: "unit \<Rightarrow> _" using assms(2) by (rule mbind_Inr)
  have g: "mbind (replace_error ErrIntegrityFailure (get_key_envelope (ucast (v_active_envelope_version (vault u))))) f u
      = f e (u\<lparr>io_pos := Suc (io_pos u)\<rparr>)" for f :: "envelope_row \<Rightarrow> _"
    by (rule mbind_Inr) (use assms(3-5) in \<open>simp add: prog_simps\<close>)
  show ?thesis
    unfolding unlock_def open_vault_def [symmetric]
    using assms(1,6) kr
    by (auto simp: l g mguard_def mlift_def mbind_def [of "\<lambda>s. (_, s)"] mmodify_def envelope_opens_def)
qed

section \<open>Creation\<close>

lemma pk_find_inserted:
  "pk_insert key chk r rows = Inr rows' \<Longrightarrow> pk_find key (key r) rows' = Some r"
  by (auto simp: pk_insert_Inr_iff pk_find_append pk_find_None split: option.splits)
    (metis image_eqI pk_find_Some)

lemma init_tx:
  assumes "with_tx (mbind (insert_vault r) (\<lambda>_. mbind (insert_key_envelope e) (\<lambda>_. stamp P ck vid ver now_t))) s = (Inr n, t)"
  shows "t_vault (db t) = Some r \<and> pk_find er_envelope_version (er_envelope_version e) (t_envelopes (db t)) = Some e \<and>
    anchored P ck vid ver (db t) \<and> n = next_counter (t_state (db s)) \<and>
    (\<exists>st. t_state (db t) = Some st \<and> st_state_counter st = n) \<and> t_vault (db s) = None \<and>
    t_records (db t) = t_records (db s) \<and> t_clients (db t) = t_clients (db s) \<and>
    t_envelopes (db t) = t_envelopes (db s) @ [e] \<and> fixed t = fixed s"
proof -
  let ?b = "mbind (insert_vault r) (\<lambda>_. mbind (insert_key_envelope e) (\<lambda>_. stamp P ck vid ver now_t))"
  have body: "obeys (same_on fixed) (with_tx ?b)"
    by (intro fixed_tx same.ok_bind fixed_commands fixed_stamp)
  have f: "fixed t = fixed s" by (rule same_okD [OF body assms])
  from assms obtain w x y where v: "insert_vault r (s\<lparr>io_pos := Suc (io_pos s)\<rparr>) = (Inr (), w)"
    and e: "insert_key_envelope e w = (Inr (), x)" and st: "stamp P ck vid ver now_t x = (Inr n, y)"
    and y: "t = y\<lparr>io_pos := Suc (io_pos y)\<rparr>"
    by (auto simp: with_tx_Inr_iff mbind_Inr_iff)
  from v have w: "db w = (db s)\<lparr>t_vault := Some r\<rparr>" "t_vault (db s) = None"
    by (auto simp: insert_vault_def prog_simps split: if_splits)
  from e w have x: "t_vault (db x) = Some r" "t_state (db x) = t_state (db s)"
    "pk_find er_envelope_version (er_envelope_version e) (t_envelopes (db x)) = Some e"
    "t_records (db x) = t_records (db s)" "t_clients (db x) = t_clients (db s)" "t_envelopes (db x) = t_envelopes (db s) @ [e]"
    by (auto simp: insert_key_envelope_def prog_simps sbind_Inr_iff pk_find_inserted pk_insert_Inr_iff split: if_splits)
  from stamp_Inr [OF st] x stamp_anchored [OF st] show ?thesis using y w f by auto
qed

text \<open>What creation leaves: the vault locked at version one, an envelope that the password
  opens, and the root anchored under that root key.\<close>

lemma vault_init_Inr:
  assumes "aead_correct P" and "vault_init P pw params s = (Inr (), t)"
  shows "\<exists>vid e rk ck. length vid = 16 \<and> vault t = fresh_vault vid format_version 1 \<and> loaded t \<and>
    (\<exists>row. t_vault (db t) = Some row \<and> vr_vault_id row = vid \<and> vr_format_version row = ucast format_version \<and>
       vr_active_envelope_version row = 1) \<and>
    active_envelope (vault t) (db t) = Some e \<and> envelope_opens P pw vid e rk \<and>
    t_records (db t) = t_records (db s) \<and> t_clients (db t) = t_clients (db s) \<and>
    t_envelopes (db t) = t_envelopes (db s) @ [e] \<and>
    derive_subkey P rk label_catalog = Inr ck \<and> anchored P ck vid 1 (db t) \<and>
    (\<exists>st. t_state (db t) = Some st \<and> st_state_counter st = next_counter (t_state (db s)) \<and>
       catalog_high_water t = (if sint (catalog_high_water s) < sint (st_state_counter st)
         then st_state_counter st else catalog_high_water s)) \<and>
    next_unlock_at t = next_unlock_at s \<and> env_fixed t = env_fixed s"
proof -
  from assms(2) obtain u w x y z e vid rk ck n where
    "attempt load_vault s = (Inr (Inl ErrVaultNotFound), u)"
    and vid: "new_id u = (Inr vid, w)" and rk: "new_key w = (Inr rk, x)"
    and e: "build_envelope P vid 1 rk pw params x = (Inr e, y)"
    and ck: "derive_subkey P rk label_catalog = Inr ck"
    and tx: "with_tx (
       mbind (insert_vault \<lparr>vr_vault_id = vid, vr_format_version = ucast format_version,
                 vr_active_envelope_version = 1, vr_created_at_ms = of_int (unix_milli (now y)),
                 vr_updated_at_ms = of_int (unix_milli (now y))\<rparr>) (\<lambda>_.
       mbind (insert_key_envelope (e\<lparr>er_created_at_ms := of_int (unix_milli (now y))\<rparr>)) (\<lambda>_.
       stamp P ck vid 1 (now y)))) y = (Inr n, z)"
    and t: "mbind (note_counter n) (\<lambda>_.
     set_vault (fresh_vault (case id_from_bytes vid of Inr i \<Rightarrow> i | Inl _ \<Rightarrow> zero_id)
       format_version 1)) z = (Inr (), t)"
    by (auto simp: vault_init_def mbind_Inr_iff prog_simps sum_prog_iff split: if_splits)
  then have ld: "load_vault s = (Inl ErrVaultNotFound, u)" by (simp add: attempt_Inr_iff)
  have len: "length vid = 16" using vid by (auto simp: new_id_def dest: random_bytes_Inr)
  have su: "fixed u = fixed s" "db u = db s" using load_vault_Inl [OF ld] by simp_all
  have uw: "fixed w = fixed u" by (rule same_okD [OF fixed_new(1) vid])
  have wx: "fixed x = fixed w" by (rule same_okD [OF fixed_new(2) rk])
  have xy: "fixed y = fixed x" by (rule same_okD [OF fixed_build_envelope e])
  have db: "db y = db s"
    using vid rk e su by (auto simp: build_envelope_def new_defs mbind_Inr_iff prog_simps dest!: random_bytes_Inr)
  note z = init_tx [OF tx]
  have zs: "fixed z = fixed s" using z xy wx uw su by simp
  have tz: "t = z\<lparr>catalog_high_water := (if sint n > sint (catalog_high_water z) then n else catalog_high_water z),
      vault := fresh_vault vid format_version 1, loaded := True\<rparr>"
    using t len by (auto simp: note_counter_def set_vault_def prog_simps mbind_Inr_iff split: if_splits)
  have ver: "er_envelope_version e = 1" using build_envelope_Inr [OF e] by simp
  have "active_envelope (vault t) (db t) = Some (e\<lparr>er_created_at_ms := of_int (unix_milli (now y))\<rparr>)"
    using conjunct1 [OF conjunct2 [OF z]] ver by (simp add: tz active_envelope_def fresh_vault_def)
  moreover have "envelope_opens P pw vid (e\<lparr>er_created_at_ms := of_int (unix_milli (now y))\<rparr>) rk"
    using build_envelope_opens [OF assms(1) e] by simp
  moreover have "env_fixed t = env_fixed s" "next_unlock_at t = next_unlock_at s"
    using zs more_vsys [of z s] by (simp_all add: tz env_fixed_def fixed_def)
  moreover have "\<exists>st. t_state (db t) = Some st \<and> st_state_counter st = next_counter (t_state (db s)) \<and>
       catalog_high_water t = (if sint (catalog_high_water s) < sint (st_state_counter st)
         then st_state_counter st else catalog_high_water s)"
    using z db more_vsys(7) [of z s] zs by (auto simp: tz fixed_def)
  moreover have "\<exists>row. t_vault (db t) = Some row \<and> vr_vault_id row = vid \<and>
      vr_format_version row = ucast format_version \<and> vr_active_envelope_version row = 1"
    using z by (simp add: tz)
  moreover have "vault t = fresh_vault vid format_version 1" "loaded t" "anchored P ck vid 1 (db t)"
    "t_records (db t) = t_records (db s)" "t_clients (db t) = t_clients (db s)"
    "t_envelopes (db t) = t_envelopes (db s) @ [e\<lparr>er_created_at_ms := of_int (unix_milli (now y))\<rparr>]"
    using z db by (simp_all add: tz)
  ultimately show ?thesis using len ck by blast
qed

text \<open>A vault just created unlocks with the password it was created with.\<close>

lemma init_then_unlock:
  assumes "aead_correct P" and "vault_init P pw params s = (Inr (), t)"
    and "next_unlock_at s \<le> now s" and "\<And>n. io_ok s n" and "db_open s"
  shows "\<exists>u. unlock P pw t = (Inr (), u) \<and> is_unlocked (vault u) \<and> keyring u \<noteq> None \<and> db u = db t"
proof -
  from vault_init_Inr [OF assms(1,2)] obtain vid e rk where
    l: "loaded t" "vault t = fresh_vault vid format_version 1"
    and e: "active_envelope (vault t) (db t) = Some e" "envelope_opens P pw vid e rk"
    and f: "next_unlock_at t = next_unlock_at s" "env_fixed t = env_fixed s" by blast
  have "\<not> now t < next_unlock_at t" "db_open t" "io_ok t (io_pos t)"
    using f assms(3-5) by (simp_all add: env_fixed_def)
  moreover have "envelope_opens P pw (v_id (vault t)) e rk" using e l by (simp add: fresh_vault_def)
  ultimately obtain kr where "unlock P pw t = (Inr (), open_vault rk kr (t\<lparr>io_pos := Suc (io_pos t)\<rparr>))"
    using unlock_succeeds [OF _ load_vault_loaded [OF l(1)] _ _ e(1)] by blast
  then show ?thesis by (simp add: open_vault_def agg_unlock_def is_unlocked_def)
qed

section \<open>Change of the master password\<close>

lemma ucast_Suc_u32: "(ucast (ucast (w :: u32) + 1 :: i64) :: u32) = w + 1"
proof -
  have "unat (ucast (ucast w + 1 :: i64) :: u32) = unat (ucast w + 1 :: i64) mod 2 ^ 32"
    by (simp add: unsigned_ucast_eq take_bit_eq_mod)
  also have "\<dots> = (unat w + 1) mod 2 ^ 32" using u32_bound [of w] by (simp add: unat_word_ariths)
  also have "\<dots> = unat (w + 1)" by (simp add: unat_word_ariths)
  finally show ?thesis by (simp add: word_unat_eq_iff)
qed

lemma change_tx:
  assumes "with_tx (mbind (insert_key_envelope e) (\<lambda>_. mbind (set_active_envelope ver ms) (\<lambda>_.
       mbind (delete_key_envelope old) (\<lambda>_. stamp P ck vid ver32 now_t)))) s = (Inr n, t)"
    and "er_envelope_version e \<noteq> old"
  shows "pk_find er_envelope_version (er_envelope_version e) (t_envelopes (db t)) = Some e \<and>
    pk_find er_envelope_version old (t_envelopes (db t)) = None \<and>
    t_vault (db t) = map_option (\<lambda>r. r\<lparr>vr_active_envelope_version := ver, vr_updated_at_ms := ms\<rparr>) (t_vault (db s)) \<and>
    t_records (db t) = t_records (db s) \<and> t_clients (db t) = t_clients (db s) \<and>
    anchored P ck vid ver32 (db t) \<and> n = next_counter (t_state (db s)) \<and>
    (\<exists>st. t_state (db t) = Some st \<and> st_state_counter st = n) \<and> fixed t = fixed s"
proof -
  let ?b = "mbind (insert_key_envelope e) (\<lambda>_. mbind (set_active_envelope ver ms) (\<lambda>_.
       mbind (delete_key_envelope old) (\<lambda>_. stamp P ck vid ver32 now_t)))"
  have body: "obeys (same_on fixed) (with_tx ?b)"
    by (intro fixed_tx same.ok_bind fixed_commands fixed_stamp)
  have f: "fixed t = fixed s" by (rule same_okD [OF body assms(1)])
  from assms(1) obtain w x y z where
    e: "insert_key_envelope e (s\<lparr>io_pos := Suc (io_pos s)\<rparr>) = (Inr (), w)"
    and a: "set_active_envelope ver ms w = (Inr (), x)"
    and d: "delete_key_envelope old x = (Inr (), y)"
    and st: "stamp P ck vid ver32 now_t y = (Inr n, z)"
    and z: "t = z\<lparr>io_pos := Suc (io_pos z)\<rparr>"
    by (auto simp: with_tx_Inr_iff mbind_Inr_iff)
  from e have w: "pk_find er_envelope_version (er_envelope_version e) (t_envelopes (db w)) = Some e"
    "t_vault (db w) = t_vault (db s)" "t_records (db w) = t_records (db s)"
    "t_clients (db w) = t_clients (db s)" "t_state (db w) = t_state (db s)"
    by (auto simp: insert_key_envelope_def prog_simps sbind_Inr_iff pk_find_inserted
        split: if_splits option.splits)
  from a d have y: "t_envelopes (db y) = snd (pk_delete er_envelope_version old (t_envelopes (db w)))"
    "t_vault (db y) = map_option (\<lambda>r. r\<lparr>vr_active_envelope_version := ver, vr_updated_at_ms := ms\<rparr>) (t_vault (db w))"
    "t_records (db y) = t_records (db w)" "t_clients (db y) = t_clients (db w)" "t_state (db y) = t_state (db w)"
    by (auto simp: set_active_envelope_def delete_key_envelope_def prog_simps)
  from stamp_Inr [OF st] stamp_anchored [OF st] w y assms(2) f show ?thesis
    by (auto simp: z pk_find_delete)
qed

text \<open>
  A change of the password leaves the vault locked, with an envelope that the new password
  opens to the same root key as before, without the envelope of the old password, and with
  the records and the clients as they were.
\<close>

lemma change_master_password_Inr:
  assumes "aead_correct P" and "change_master_password P pw pw' params s = (Inr (), t)"
  shows "\<exists>u e kek rk e' ck. load_vault s = (Inr (), u) \<and> active_envelope (vault u) (db s) = Some e \<and>
    row_kek P pw e = Inr kek \<and> unwrap_root P kek (v_id (vault u)) (v_active_envelope_version (vault u)) e = Inr rk \<and>
    v_active_envelope_version (vault t) = v_active_envelope_version (vault u) + 1 \<and>
    v_id (vault t) = v_id (vault u) \<and> v_format_version (vault t) = v_format_version (vault u) \<and>
    active_envelope (vault t) (db t) = Some e' \<and> envelope_opens P pw' (v_id (vault t)) e' rk \<and>
    pk_find er_envelope_version (ucast (v_active_envelope_version (vault u))) (t_envelopes (db t)) = None \<and>
    t_records (db t) = t_records (db s) \<and> t_clients (db t) = t_clients (db s) \<and>
    derive_subkey P rk label_catalog = Inr ck \<and>
    anchored P ck (v_id (vault t)) (v_active_envelope_version (vault t)) (db t) \<and>
    (\<exists>st. t_state (db t) = Some st \<and> st_state_counter st = next_counter (t_state (db s))) \<and>
    locked_inv t \<and> loaded t \<and> env_fixed t = env_fixed s \<and> next_unlock_at t = next_unlock_at s"
proof -
  from assms(2) obtain u e kek rk e' ck v w y z n where u: "load_vault s = (Inr (), u)"
    and e: "active_envelope (vault u) (db u) = Some e"
    and v: "v = u\<lparr>io_pos := Suc (io_pos u)\<rparr>"
    and kek: "row_kek P pw e = Inr kek"
    and rk: "unwrap_root P kek (v_id (vault u)) (v_active_envelope_version (vault u)) e = Inr rk"
    and e': "build_envelope P (v_id (vault u)) (ucast (ucast (v_active_envelope_version (vault u)) + 1 :: i64)) rk pw' params v = (Inr e', w)"
    and ck: "derive_subkey P rk label_catalog = Inr ck"
    and tx: "with_tx (
       mbind (insert_key_envelope (e'\<lparr>er_created_at_ms := of_int (unix_milli (now w))\<rparr>)) (\<lambda>_.
       mbind (set_active_envelope (ucast (ucast (ucast (v_active_envelope_version (vault u)) + 1 :: i64) :: u32)) (of_int (unix_milli (now w)))) (\<lambda>_.
       mbind (delete_key_envelope (ucast (v_active_envelope_version (vault u)))) (\<lambda>_.
       stamp P ck (v_id (vault u)) (ucast (ucast (v_active_envelope_version (vault u)) + 1 :: i64)) (now w))))) w = (Inr n, y)"
    and t: "mbind (note_counter n) (\<lambda>_.
      mbind (mmodify (\<lambda>s. s\<lparr>vault := (vault s)\<lparr>v_active_envelope_version := ucast (ucast (v_active_envelope_version (vault u)) + 1 :: i64)\<rparr>\<rparr>)) (\<lambda>_. lock)) y = (Inr (), t)"
    by (auto simp: change_master_password_def mbind_Inr_iff prog_simps Let_def)
  let ?old = "v_active_envelope_version (vault u)"
  have new: "(ucast (ucast ?old + 1 :: i64) :: u32) = ?old + 1" by (rule ucast_Suc_u32)
  have uw: "fixed w = fixed v" by (rule same_okD [OF fixed_build_envelope e'])
  have dbw: "db w = db s"
    using e' load_vault_db [OF u]
    by (auto simp: v build_envelope_def new_defs mbind_Inr_iff prog_simps dest!: random_bytes_Inr)
  have ver: "er_envelope_version e' = ucast (?old + 1)" using build_envelope_Inr [OF e'] by (simp add: new)
  then have "er_envelope_version (e'\<lparr>er_created_at_ms := of_int (unix_milli (now w))\<rparr>) \<noteq> ucast ?old"
    using ucast_u32_inj [of "?old + 1" ?old] by auto
  note y = change_tx [OF tx this]
  from t obtain hw where tt: "t = run_on_lock (lock_fields (y\<lparr>catalog_high_water := hw,
      vault := (vault y)\<lparr>v_active_envelope_version := ?old + 1\<rparr>\<rparr>))"
    by (auto simp: note_counter_def lock_def prog_simps mbind_Inr_iff new split: if_splits)
      (metis vsys.surjective vsys.update_convs(7))+
  have vy: "vault y = vault u" "next_unlock_at y = next_unlock_at u" "loaded y = loaded u"
    using y uw more_vsys [of y u] by (simp_all add: v fixed_def)
  have ut: "loaded u" "next_unlock_at u = next_unlock_at s" "env_fixed u = env_fixed s"
    using load_vault_Inr [OF u] by (auto simp: env_fixed_def)
  have lt: "locked_inv t"
    by (simp add: tt run_on_lock_def lock_fields_def locked_inv_def is_unlocked_def agg_lock_def)
  have vt: "v_id (vault t) = v_id (vault u)" "v_format_version (vault t) = v_format_version (vault u)" "v_active_envelope_version (vault t) = ?old + 1"
    "loaded t" "next_unlock_at t = next_unlock_at s" "db t = db y" "env_fixed t = env_fixed y"
    using vy ut by (simp_all add: tt run_on_lock_def lock_fields_def agg_lock_def env_fixed_def)
  have ae: "active_envelope (vault u) (db s) = Some e" using e load_vault_db [OF u] by simp
  have ae': "active_envelope (vault t) (db t) = Some (e'\<lparr>er_created_at_ms := of_int (unix_milli (now w))\<rparr>)"
    using y ver by (simp add: active_envelope_def vt)
  have op: "envelope_opens P pw' (v_id (vault t)) (e'\<lparr>er_created_at_ms := of_int (unix_milli (now w))\<rparr>) rk"
    using build_envelope_opens [OF assms(1) e'] vt by simp
  have an: "anchored P ck (v_id (vault t)) (v_active_envelope_version (vault t)) (db t)"
    using y vt new by simp
  have fr: "env_fixed t = env_fixed s" using y uw ut vt by (simp add: env_fixed_def fixed_def v)
  have rest: "pk_find er_envelope_version (ucast ?old) (t_envelopes (db t)) = None"
    "t_records (db t) = t_records (db s)" "t_clients (db t) = t_clients (db s)"
    using y dbw vt by simp_all
  obtain st where sc: "t_state (db t) = Some st" "st_state_counter st = next_counter (t_state (db s))"
    using y dbw vt(6) by auto
  show ?thesis
    by (intro exI conjI) (rule u ae kek rk ae' op ck an sc lt vt fr rest)+
qed

section \<open>The delay schedule\<close>

lemma unlock_delay_mono: "m \<le> n \<Longrightarrow> unlock_delay m \<le> unlock_delay n"
  by (auto simp: unlock_delay_def)

lemma unlock_delay_bounds: "0 \<le> unlock_delay n \<and> unlock_delay n \<le> 60 * 1000000000"
  by (auto simp: unlock_delay_def)

lemma unlock_failed_eq:
  "unlock_failed s = (Inl ErrAuthenticationFail, s\<lparr>failed_unlocks := Suc (failed_unlocks s),
     next_unlock_at := now s + unlock_delay (Suc (failed_unlocks s))\<rparr>)"
  by (simp add: unlock_failed_def prog_simps mbind_unfold)

lemma unlock_too_early: "now s < next_unlock_at s \<Longrightarrow> unlock P pw s = (Inl ErrRateLimited, s)"
  by (simp add: unlock_def mguard_def) (simp add: mthrow_def)

section \<open>Verification of the root\<close>

lemma verify_NoState: "verify P key vid ev s = (Inl ErrNoState, t) \<Longrightarrow> t_state (db s) = None \<and> db t = db s"
proof -
  assume v: "verify P key vid ev s = (Inl ErrNoState, t)"
  have "root P key vid ev n u \<noteq> (Inl ErrNoState, t)" for n u
    by (auto simp: root_def mbind_unfold list_records_for_root_def list_clients_for_root_def
        get_active_envelope_digest_def sql_query_def io_step_def prog_simps one_row_def
        split: prod.splits sum.splits if_splits option.splits)
  with v have "load s = (Inl ErrNoState, t)" by (auto simp: verify_def mbind_Inl_iff prog_simps)
  then show ?thesis by (rule load_NoState)
qed

abbreviation service_anchored :: "crypto_prims \<Rightarrow> keyring \<Rightarrow> vault_agg \<Rightarrow> db \<Rightarrow> bool" where
  "service_anchored P kr v d \<equiv> anchored P (k_catalog kr) (v_id v) (v_active_envelope_version v) d"

lemma stamp_locked_Inr:
  assumes "stamp_locked P kr s = (Inr (), t)"
  shows "service_anchored P kr (vault s) (db t) \<and> t_records (db t) = t_records (db s) \<and>
    t_clients (db t) = t_clients (db s) \<and> t_envelopes (db t) = t_envelopes (db s)"
proof -
  from assms obtain n x where st: "stamp P (k_catalog kr) (v_id (vault s)) (v_active_envelope_version (vault s))
      (now s) (s\<lparr>io_pos := Suc (io_pos s)\<rparr>) = (Inr n, x)"
    and t: "note_counter n (x\<lparr>io_pos := Suc (io_pos x)\<rparr>) = (Inr (), t)"
    by (auto simp: stamp_locked_def mbind_Inr_iff prog_simps)
  have "db t = db x" using t by (auto simp: note_counter_def prog_simps split: if_splits)
  with stamp_Inr [OF st] stamp_anchored [OF st] show ?thesis by auto
qed

text \<open>What an unlocked service learns: the database carries its root and is not behind the
  highest counter seen, or it had no root and has one now.\<close>

lemma verify_catalog_Inr:
  assumes "verify_catalog P s = (Inr b, t)"
  shows "\<exists>kr. keyring s = Some kr \<and> is_unlocked (vault s) \<and>
    (if b then t_state (db s) = None \<and> service_anchored P kr (vault s) (db t)
     else db t = db s \<and> (\<exists>st. t_state (db s) = Some st \<and> service_anchored P kr (vault s) (db s) \<and>
       sint (catalog_high_water s) \<le> sint (st_state_counter st) \<and>
       catalog_high_water t = st_state_counter st))"
proof -
  from assms obtain kr r u where k: "is_unlocked (vault s)" "keyring s = Some kr"
    and r: "read_tx (verify P (k_catalog kr) (v_id (vault s)) (v_active_envelope_version (vault s))) s = (r, u)"
    and rest: "(case r of
       Inl e \<Rightarrow> if e = ErrNoState then mbind (stamp_locked P kr) (\<lambda>_. mreturn True) else mthrow e
     | Inr (st, same) \<Rightarrow>
         mbind (mguard same ErrIntegrityFailure) (\<lambda>_.
         mbind (mget catalog_high_water) (\<lambda>hw.
         mbind (mguard (\<not> sint (st_state_counter st) < sint hw) ErrIntegrityFailure) (\<lambda>_.
         mbind (mmodify (\<lambda>s. s\<lparr>catalog_high_water := st_state_counter st\<rparr>)) (\<lambda>_.
         mreturn False))))) u = (Inr b, t)"
    by (auto simp: verify_catalog_def mbind_Inr_iff prog_simps attempt_Inr_iff)
  have "obeys (same_on fixed) (read_tx (verify P (k_catalog kr) (v_id (vault s)) (v_active_envelope_version (vault s))) :: ('a, 'b) vsys_scheme \<Rightarrow> _)"
    by (intro fixed_read_tx fixed_verify)
  from fixedD(6) [OF this r] have fu: "vault u = vault s" "catalog_high_water u = catalog_high_water s"
    using more_vsys [of u s] by simp_all
  show ?thesis
  proof (cases r)
    case (Inl e)
    with rest have e: "e = ErrNoState" "b = True" and st: "stamp_locked P kr u = (Inr (), t)"
      by (auto simp: mbind_Inr_iff prog_simps split: if_splits)
    from r Inl e have "verify P (k_catalog kr) (v_id (vault s)) (v_active_envelope_version (vault s))
        (s\<lparr>io_pos := Suc (io_pos s)\<rparr>) = (Inl ErrNoState, u)"
      by (auto simp: read_tx_def mbind_Inl_iff prog_simps io_step_def split: if_splits)
    from verify_NoState [OF this] have "t_state (db s) = None" by simp
    with k e stamp_locked_Inr [OF st] fu show ?thesis by auto
  next
    case (Inr p)
    obtain st same where p: "p = (st, same)" by (cases p)
    from rest Inr p have b: "same" "b = False" "sint (catalog_high_water u) \<le> sint (st_state_counter st)"
      and t: "t = u\<lparr>catalog_high_water := st_state_counter st\<rparr>"
      by (auto simp: mbind_Inr_iff prog_simps split: if_splits)
    from r Inr p obtain v where "verify P (k_catalog kr) (v_id (vault s)) (v_active_envelope_version (vault s)) v = (Inr (st, same), u)"
      and "db v = db s" by (auto simp: read_tx_Inr_iff)
    with verify_Inr have "t_state (db s) = Some st" "db u = db s" "service_anchored P kr (vault s) (db s)"
      using b by fastforce+
    with k b t fu show ?thesis by auto
  qed
qed

section \<open>Frames of the operations\<close>

lemma envf_modify: "(\<And>s. env_fixed (g s) = env_fixed s) \<Longrightarrow> obeys (same_on env_fixed) (mmodify g)"
  by (rule same.ok_modify) (simp add: same_on_def)

lemma envf_simps [simp]:
  "env_fixed (s\<lparr>vault := v\<rparr>) = env_fixed s" "env_fixed (s\<lparr>loaded := l\<rparr>) = env_fixed s"
  "env_fixed (s\<lparr>keyring := k\<rparr>) = env_fixed s" "env_fixed (s\<lparr>root_key := r\<rparr>) = env_fixed s"
  "env_fixed (s\<lparr>failed_unlocks := n\<rparr>) = env_fixed s" "env_fixed (s\<lparr>next_unlock_at := x\<rparr>) = env_fixed s"
  "env_fixed (s\<lparr>catalog_high_water := c\<rparr>) = env_fixed s" "env_fixed (s\<lparr>mem := m\<rparr>) = env_fixed s"
  by (simp_all add: env_fixed_def)

lemma envf_basic [intro]:
  "obeys (same_on env_fixed) load_vault" "obeys (same_on env_fixed) (set_vault v)"
  "obeys (same_on env_fixed) (note_counter n)" "obeys (same_on env_fixed) unlock_failed"
  "obeys (same_on env_fixed) lock" "obeys (same_on env_fixed) panic_lock" "obeys (same_on env_fixed) reset"
proof -
  show sv: "obeys (same_on env_fixed) (set_vault v)" for v
    unfolding set_vault_def by (rule envf_modify) simp
  show "obeys (same_on env_fixed) load_vault"
    unfolding load_vault_def by (intro same.ok_intros same.ok_err fixed_env [OF fixed_queries(1)] sv)
  show "obeys (same_on env_fixed) (note_counter n)"
    unfolding note_counter_def by (rule envf_modify) simp
  show "obeys (same_on env_fixed) unlock_failed"
    unfolding unlock_failed_def by (intro same.ok_intros envf_modify) simp_all
  show l: "obeys (same_on env_fixed) lock"
    unfolding lock_def by (rule envf_modify) (simp add: run_on_lock_def lock_fields_def)
  then show "obeys (same_on env_fixed) panic_lock" by (simp add: panic_lock_def)
  from l show "obeys (same_on env_fixed) reset"
    unfolding reset_def by (intro same.ok_intros envf_modify) simp_all
qed

lemma dbwf_modify: "(\<And>s. db (g s) = db s) \<Longrightarrow> obeys (keeps_inv sound_db) (mmodify g)"
  by (rule inv.ok_modify) (simp add: keeps_inv_def)

lemma dbwf_new [intro]:
  "obeys (keeps_inv sound_db) new_id" "obeys (keeps_inv sound_db) new_key"
  "obeys (keeps_inv sound_db) new_nonce" "obeys (keeps_inv sound_db) new_salt"
  "obeys (keeps_inv sound_db) new_credential"
  by (auto simp: new_defs)

lemma dbwf_basic [intro]:
  "obeys (keeps_inv sound_db) load_vault" "obeys (keeps_inv sound_db) (set_vault v)"
  "obeys (keeps_inv sound_db) (note_counter n)" "obeys (keeps_inv sound_db) unlock_failed"
  "obeys (keeps_inv sound_db) lock" "obeys (keeps_inv sound_db) panic_lock" "obeys (keeps_inv sound_db) reset"
  "obeys (keeps_inv sound_db) keys" "obeys (keeps_inv sound_db) vault_info"
  "obeys (keeps_inv sound_db) (build_envelope P vid ver rk pw params)"
proof -
  show sv: "obeys (keeps_inv sound_db) (set_vault v)" for v
    unfolding set_vault_def by (rule dbwf_modify) simp
  show "obeys (keeps_inv sound_db) load_vault"
    unfolding load_vault_def by (intro inv.ok_intros inv.ok_err dbwf_queries sv)
  show "obeys (keeps_inv sound_db) (note_counter n)"
    unfolding note_counter_def by (rule dbwf_modify) simp
  show "obeys (keeps_inv sound_db) unlock_failed"
    unfolding unlock_failed_def by (intro inv.ok_intros dbwf_modify) simp_all
  show l: "obeys (keeps_inv sound_db) lock"
    unfolding lock_def by (rule dbwf_modify) (simp add: run_on_lock_def lock_fields_def)
  then show "obeys (keeps_inv sound_db) panic_lock" by (simp add: panic_lock_def)
  from l show "obeys (keeps_inv sound_db) reset"
    unfolding reset_def by (intro inv.ok_intros dbwf_modify) simp_all
  show "obeys (keeps_inv sound_db) keys" unfolding keys_def by (intro inv.ok_intros)
  show "obeys (keeps_inv sound_db) vault_info" unfolding vault_info_def by (intro inv.ok_intros)
  show "obeys (keeps_inv sound_db) (build_envelope P vid ver rk pw params)"
    unfolding build_envelope_def by (intro inv.ok_intros dbwf_new)
qed

lemma dbwf_vault_ops [intro]:
  "obeys (keeps_inv sound_db) vault_status" "obeys (keeps_inv sound_db) (vault_init P pw params)"
  "obeys (keeps_inv sound_db) (unlock P pw)" "obeys (keeps_inv sound_db) (stamp_locked P kr)"
  "obeys (keeps_inv sound_db) (verify_catalog P)"
  "obeys (keeps_inv sound_db) (change_master_password P pw pw' params)"
  "obeys (keeps_inv sound_db) (verify_password P pw)"
proof -
  show "obeys (keeps_inv sound_db) vault_status"
    unfolding vault_status_def by (intro inv.ok_intros inv.ok_err dbwf_basic dbwf_queries)
  show "obeys (keeps_inv sound_db) (vault_init P pw params)"
    unfolding vault_init_def
    by (intro inv.ok_intros inv.ok_err dbwf_basic dbwf_new dbwf_tx dbwf_commands dbwf_stamp)
  show "obeys (keeps_inv sound_db) (unlock P pw)"
    unfolding unlock_def
    by (intro inv.ok_intros inv.ok_err dbwf_basic dbwf_queries dbwf_modify) simp
  show sl: "obeys (keeps_inv sound_db) (stamp_locked P kr)" for kr
    unfolding stamp_locked_def by (intro inv.ok_intros dbwf_basic dbwf_tx dbwf_stamp)
  show "obeys (keeps_inv sound_db) (verify_catalog P)"
    unfolding verify_catalog_def
    by (intro inv.ok_intros inv.ok_err dbwf_basic sl dbwf_read_tx dbwf_verify dbwf_modify) simp
  show "obeys (keeps_inv sound_db) (change_master_password P pw pw' params)"
    unfolding change_master_password_def Let_def
    by (intro inv.ok_intros inv.ok_err dbwf_basic dbwf_queries dbwf_tx dbwf_commands dbwf_stamp dbwf_modify) simp
  show "obeys (keeps_inv sound_db) (verify_password P pw)"
    unfolding verify_password_def by (intro inv.ok_intros inv.ok_err dbwf_basic dbwf_queries)
qed

section \<open>The keys as an interface\<close>

text \<open>
  What the other services rely on when they ask for the keys: asking changes nothing, and a
  locked vault gives none. A program that starts by asking does nothing while it is locked.
\<close>

locale key_source =
  fixes get_keys :: "('s, err, keyring) prog" and open_now :: "'s \<Rightarrow> bool"
  assumes keys_pure: "get_keys s = (r, t) \<Longrightarrow> t = s"
    and keys_open: "get_keys s = (Inr kr, t) \<Longrightarrow> open_now s"
    and keys_closed: "\<not> open_now s \<Longrightarrow> get_keys s = (Inl ErrVaultLocked, s)"
begin

lemma closed_does_nothing: "\<not> open_now s \<Longrightarrow> mbind get_keys f s = (Inl ErrVaultLocked, s)"
  by (drule keys_closed) (rule mbind_Inl)

lemma success_means_open: "mbind get_keys f s = (Inr x, t) \<Longrightarrow> open_now s"
  by (auto simp: mbind_Inr_iff dest: keys_open)

lemma unfold_open: "mbind get_keys f s = (Inr x, t) \<longleftrightarrow> (\<exists>kr. get_keys s = (Inr kr, s) \<and> f kr s = (Inr x, t))"
  by (auto simp: mbind_Inr_iff dest: keys_pure)

end

definition has_keys :: "('m, 'a) vsys_scheme \<Rightarrow> bool" where
  "has_keys s \<longleftrightarrow> is_unlocked (vault s) \<and> keyring s \<noteq> None"

interpretation vault_keys: key_source keys has_keys
  by unfold_locales
    (auto simp: keys_def prog_simps mbind_unfold has_keys_def split: option.splits if_splits)

end
