(* ===== verification/Text.thy ===== *)
theory Text
  imports Shared
begin

text \<open>
  Text as Go sees it: a string is bytes, and its runes come from decoding UTF-8
  (\<^verbatim>\<open>unicode/utf8\<close>). The character classes and the case folding the program uses
  (\<^verbatim>\<open>unicode\<close>, \<^verbatim>\<open>strings\<close>) are written out for ASCII; the tables beyond are a parameter.
\<close>

section \<open>Runes (\<^verbatim>\<open>unicode/utf8\<close>)\<close>

type_synonym rune = int

definition rune_error :: rune where
  "rune_error = 65533"

definition continues :: "nat \<Rightarrow> bool" where
  "continues b \<longleftrightarrow> 128 \<le> b \<and> b \<le> 191"

text \<open>The size of the sequence a first byte opens and the range of its second byte.\<close>

definition utf8_first :: "nat \<Rightarrow> (nat \<times> nat \<times> nat) option" where
  "utf8_first b =
     (if 194 \<le> b \<and> b \<le> 223 then Some (2, 128, 191)
      else if b = 224 then Some (3, 160, 191)
      else if b = 237 then Some (3, 128, 159)
      else if 225 \<le> b \<and> b \<le> 239 then Some (3, 128, 191)
      else if b = 240 then Some (4, 144, 191)
      else if 241 \<le> b \<and> b \<le> 243 then Some (4, 128, 191)
      else if b = 244 then Some (4, 128, 143)
      else None)"

definition decode_rune :: "nat list \<Rightarrow> rune \<times> nat" where
  "decode_rune bs =
     (case bs of
        [] \<Rightarrow> (rune_error, 0)
      | b0 # rest \<Rightarrow>
          if b0 < 128 then (int b0, 1)
          else (case utf8_first b0 of
              None \<Rightarrow> (rune_error, 1)
            | Some (n, lo, hi) \<Rightarrow>
                (case rest of
                   b1 # rest1 \<Rightarrow>
                     if \<not> (lo \<le> b1 \<and> b1 \<le> hi) then (rune_error, 1)
                     else if n = 2 then (int ((b0 mod 32) * 64 + b1 mod 64), 2)
                     else (case rest1 of
                         b2 # rest2 \<Rightarrow>
                           if \<not> continues b2 then (rune_error, 1)
                           else if n = 3
                           then (int ((b0 mod 16) * 4096 + (b1 mod 64) * 64 + b2 mod 64), 3)
                           else (case rest2 of
                               b3 # _ \<Rightarrow>
                                 if \<not> continues b3 then (rune_error, 1)
                                 else (int ((b0 mod 8) * 262144 + (b1 mod 64) * 4096 +
                                            (b2 mod 64) * 64 + b3 mod 64), 4)
                             | [] \<Rightarrow> (rune_error, 1))
                       | [] \<Rightarrow> (rune_error, 1))
                 | [] \<Rightarrow> (rune_error, 1))))"

lemma decode_rune_progress: "bs \<noteq> [] \<Longrightarrow> 0 < snd (decode_rune bs)"
  by (auto simp: decode_rune_def split: list.splits option.splits)

function runes_of :: "nat list \<Rightarrow> rune list" where
  "runes_of [] = []"
| "runes_of (b # bs) =
     fst (decode_rune (b # bs)) # runes_of (drop (snd (decode_rune (b # bs))) (b # bs))"
  by pat_completeness auto
termination
  by (relation "measure length") (simp_all add: decode_rune_progress)

definition runes :: "string \<Rightarrow> rune list" where
  "runes s = runes_of (map of_char s)"

definition encode_rune :: "rune \<Rightarrow> nat list" where
  "encode_rune r =
     (let n = nat r in
      if r < 0 \<or> 1114111 < n \<or> (55296 \<le> n \<and> n \<le> 57343) then [239, 191, 189]
      else if n < 128 then [n]
      else if n < 2048 then [192 + n div 64, 128 + n mod 64]
      else if n < 65536 then [224 + n div 4096, 128 + n div 64 mod 64, 128 + n mod 64]
      else [240 + n div 262144, 128 + n div 4096 mod 64, 128 + n div 64 mod 64, 128 + n mod 64])"

lemma runes_of_ascii: "list_all (\<lambda>b. b < 128) bs \<Longrightarrow> runes_of bs = map int bs"
  by (induction bs) (simp_all add: decode_rune_def)

lemma length_runes_of: "length (runes_of bs) \<le> length bs"
proof (induction bs rule: runes_of.induct)
  case 1
  then show ?case by simp
next
  case (2 b bs)
  have "0 < snd (decode_rune (b # bs))" by (rule decode_rune_progress) simp
  with 2 show ?case by simp
qed

section \<open>Character classes\<close>

text \<open>\<^verbatim>\<open>unicode.IsLower\<close>, \<^verbatim>\<open>IsUpper\<close>, \<^verbatim>\<open>IsDigit\<close> and \<^verbatim>\<open>ToLower\<close>: ASCII written out, the rest a parameter.\<close>

record unicode_tables =
  uni_lower :: "rune \<Rightarrow> bool"
  uni_upper :: "rune \<Rightarrow> bool"
  uni_digit :: "rune \<Rightarrow> bool"
  uni_to_lower :: "rune \<Rightarrow> rune"
  uni_space :: "rune \<Rightarrow> bool"

definition is_lower :: "'a unicode_tables_scheme \<Rightarrow> rune \<Rightarrow> bool" where
  "is_lower U r = (if r < 128 then 97 \<le> r \<and> r \<le> 122 else uni_lower U r)"

definition is_upper :: "'a unicode_tables_scheme \<Rightarrow> rune \<Rightarrow> bool" where
  "is_upper U r = (if r < 128 then 65 \<le> r \<and> r \<le> 90 else uni_upper U r)"

definition is_digit :: "'a unicode_tables_scheme \<Rightarrow> rune \<Rightarrow> bool" where
  "is_digit U r = (if r < 128 then 48 \<le> r \<and> r \<le> 57 else uni_digit U r)"

definition to_lower_rune :: "'a unicode_tables_scheme \<Rightarrow> rune \<Rightarrow> rune" where
  "to_lower_rune U r = (if r < 128 then (if 65 \<le> r \<and> r \<le> 90 then r + 32 else r) else uni_to_lower U r)"

definition to_lower :: "'a unicode_tables_scheme \<Rightarrow> string \<Rightarrow> string" where
  "to_lower U s = map char_of (concat (map (\<lambda>r. encode_rune (to_lower_rune U r)) (runes s)))"

definition is_space :: "'a unicode_tables_scheme \<Rightarrow> rune \<Rightarrow> bool" where
  "is_space U r = (if r < 128 then r = 32 \<or> 9 \<le> r \<and> r \<le> 13 else uni_space U r)"

text \<open>The byte sequences of the runes of a string, for \<^verbatim>\<open>strings.TrimSpace\<close>.\<close>

function rune_chunks :: "nat list \<Rightarrow> nat list list" where
  "rune_chunks [] = []"
| "rune_chunks (b # bs) =
     take (snd (decode_rune (b # bs))) (b # bs) # rune_chunks (drop (snd (decode_rune (b # bs))) (b # bs))"
  by pat_completeness auto
termination
  by (relation "measure length") (simp_all add: decode_rune_progress)

definition trim_space :: "'a unicode_tables_scheme \<Rightarrow> string \<Rightarrow> string" where
  "trim_space U s =
     (let space = (\<lambda>c. is_space U (fst (decode_rune c)));
          cs = dropWhile space (rune_chunks (map of_char s)) in
      map char_of (concat (rev (dropWhile space (rev cs)))))"

text \<open>\<^verbatim>\<open>strings.Contains\<close>, \<^verbatim>\<open>HasPrefix\<close>, \<^verbatim>\<open>HasSuffix\<close>, \<^verbatim>\<open>Cut\<close> and \<^verbatim>\<open>LastIndexByte\<close>.\<close>

definition has_prefix :: "string \<Rightarrow> string \<Rightarrow> bool" where
  "has_prefix s p \<longleftrightarrow> take (length p) s = p"

definition has_suffix :: "string \<Rightarrow> string \<Rightarrow> bool" where
  "has_suffix s p \<longleftrightarrow> length p \<le> length s \<and> drop (length s - length p) s = p"

fun contains :: "string \<Rightarrow> string \<Rightarrow> bool" where
  "contains [] p = (p = [])"
| "contains (c # s) p = (has_prefix (c # s) p \<or> contains s p)"

definition cut :: "char \<Rightarrow> string \<Rightarrow> string \<times> string option" where
  "cut c s = (case dropWhile (\<lambda>x. x \<noteq> c) s of
     [] \<Rightarrow> (s, None) | _ # r \<Rightarrow> (takeWhile (\<lambda>x. x \<noteq> c) s, Some r))"

definition cut_last :: "char \<Rightarrow> string \<Rightarrow> (string \<times> string) option" where
  "cut_last c s = (case dropWhile (\<lambda>x. x \<noteq> c) (rev s) of
     [] \<Rightarrow> None | _ # r \<Rightarrow> Some (rev r, rev (takeWhile (\<lambda>x. x \<noteq> c) (rev s))))"

lemma has_prefix_iff: "has_prefix s p \<longleftrightarrow> (\<exists>r. s = p @ r)"
  by (auto simp: has_prefix_def) (metis append_take_drop_id)

lemma has_suffix_iff: "has_suffix s p \<longleftrightarrow> (\<exists>r. s = r @ p)"
proof
  assume "has_suffix s p"
  then have "s = take (length s - length p) s @ p"
    unfolding has_suffix_def by (metis append_take_drop_id)
  then show "\<exists>r. s = r @ p" ..
qed (auto simp: has_suffix_def)

lemma contains_iff: "contains s p \<longleftrightarrow> (\<exists>a b. s = a @ p @ b)"
proof (induction s)
  case Nil
  then show ?case by auto
next
  case (Cons c s)
  have "(\<exists>a b. c # s = a @ p @ b) \<longleftrightarrow> (\<exists>b. c # s = p @ b) \<or> (\<exists>a b. s = a @ p @ b)"
    by (metis append_Cons append_Nil list.exhaust list.inject)
  then show ?case using Cons by (simp add: has_prefix_iff)
qed

section \<open>ASCII text\<close>

definition ascii :: "string \<Rightarrow> bool" where
  "ascii s \<longleftrightarrow> list_all (\<lambda>c. (of_char c :: nat) < 128) s"

lemma ascii_simps [simp]: "ascii []" "ascii (c # s) \<longleftrightarrow> (of_char c :: nat) < 128 \<and> ascii s"
  "ascii (s @ t) \<longleftrightarrow> ascii s \<and> ascii t"
  by (simp_all add: ascii_def)

lemma runes_ascii: "ascii s \<Longrightarrow> runes s = map (\<lambda>c. int (of_char c)) s"
  by (simp add: runes_def ascii_def runes_of_ascii list_all_iff)

lemma lower_ascii_char:
  assumes "(of_char c :: nat) < 128"
  shows "encode_rune (to_lower_rune U (int (of_char c))) = [of_char (ascii_lower c)]"
  using assms by (auto simp: to_lower_rune_def encode_rune_def ascii_lower_def Let_def nat_int_add)

lemma to_lower_ascii: "ascii s \<Longrightarrow> to_lower U s = map ascii_lower s"
proof -
  assume a: "ascii s"
  then have "map (\<lambda>r. encode_rune (to_lower_rune U r)) (runes s) = map (\<lambda>c. [of_char (ascii_lower c)]) s"
    by (auto simp: runes_ascii ascii_def list_all_iff lower_ascii_char)
  then show ?thesis by (simp add: to_lower_def comp_def)
qed

lemma rune_chunks_ascii: "list_all (\<lambda>b. b < 128) bs \<Longrightarrow> rune_chunks bs = map (\<lambda>b. [b]) bs"
  by (induction bs) (simp_all add: decode_rune_def)

lemma trim_space_ascii:
  assumes "ascii s" and "s \<noteq> [] \<Longrightarrow> \<not> is_space U (int (of_char (hd s))) \<and> \<not> is_space U (int (of_char (last s)))"
  shows "trim_space U s = s"
proof (cases "s = []")
  case True
  then show ?thesis by (simp add: trim_space_def)
next
  case False
  let ?cs = "map (\<lambda>c. [of_char c :: nat]) s"
  have cs: "rune_chunks (map of_char s) = ?cs"
    using assms(1) by (simp add: rune_chunks_ascii ascii_def list_all_iff)
  have sp: "fst (decode_rune [of_char c]) = int (of_char c)" if "c \<in> set s" for c
    using assms(1) that by (auto simp: decode_rune_def ascii_def list_all_iff)
  have ends: "\<not> is_space U (fst (decode_rune (hd ?cs)))" "\<not> is_space U (fst (decode_rune (last ?cs)))"
    using assms(2) [OF False] sp False by (simp_all add: hd_map last_map)
  have stop: "dropWhile f xs = xs" if "xs \<noteq> []" "\<not> f (hd xs)" for f and xs :: "nat list list"
    using that by (cases xs) simp_all
  have "dropWhile (\<lambda>c. is_space U (fst (decode_rune c))) ?cs = ?cs"
    by (rule stop) (use ends False in simp_all)
  moreover have "dropWhile (\<lambda>c. is_space U (fst (decode_rune c))) (rev ?cs) = rev ?cs"
    by (rule stop) (use ends False in \<open>simp_all add: hd_rev\<close>)
  ultimately show ?thesis by (simp add: trim_space_def cs comp_def)
qed

end
