(* ===== verification/Origin.thy ===== *)
theory Origin
  imports Text
begin

text \<open>
  Web origins (\<^verbatim>\<open>internal/records/domain/url.go\<close>): canonicalisation of an address, and the
  rules by which a stored URL covers a page. What comes from elsewhere is a parameter:
  \<^verbatim>\<open>net/url\<close>'s parser (whose verdict on a host changes with the Go release), \<^verbatim>\<open>net.ParseIP\<close>,
  the IDNA mapping and the public-suffix list.
\<close>

section \<open>Canonical origins\<close>

text \<open>What the code reads of a \<^verbatim>\<open>*url.URL\<close>.\<close>

record parsed_url =
  u_scheme :: string
  u_hostname :: string
  u_port :: string

record web = unicode_tables +
  url_parse :: "string \<Rightarrow> parsed_url option"
  parse_ip :: "string \<Rightarrow> bytes option"
  idna_to_ascii :: "string \<Rightarrow> string option"
  etld_plus_one :: "string \<Rightarrow> string option"

record canonical_origin =
  o_scheme :: string
  o_host :: string
  o_port :: string

definition parse_origin :: "'a web_scheme \<Rightarrow> string \<Rightarrow> err + canonical_origin" where
  "parse_origin W raw =
     (case url_parse W (trim_space W raw) of
        None \<Rightarrow> Inl ErrValidation
      | Some u \<Rightarrow>
          let scheme = to_lower W (u_scheme u); host = to_lower W (u_hostname u) in
          if scheme \<noteq> ''http'' \<and> scheme \<noteq> ''https'' then Inl ErrValidation
          else if host = '''' then Inl ErrValidation
          else
            let port = (if u_port u = '''' then (if scheme = ''https'' then ''443'' else ''80'') else u_port u) in
            (case parse_ip W host of
               Some _ \<Rightarrow> Inr \<lparr>o_scheme = scheme, o_host = host, o_port = port\<rparr>
             | None \<Rightarrow>
                 (case idna_to_ascii W host of
                    None \<Rightarrow> Inl ErrValidation
                  | Some ah \<Rightarrow>
                      if ah = '''' then Inl ErrValidation
                      else Inr \<lparr>o_scheme = scheme, o_host = ah, o_port = port\<rparr>)))"

definition origin_string :: "canonical_origin \<Rightarrow> string" where
  "origin_string p =
     (if o_scheme p = ''https'' \<and> o_port p = ''443'' \<or> o_scheme p = ''http'' \<and> o_port p = ''80''
      then o_scheme p @ ''://'' @ o_host p
      else o_scheme p @ ''://'' @ o_host p @ '':'' @ o_port p)"

definition is_secure :: "canonical_origin \<Rightarrow> bool" where
  "is_secure p \<longleftrightarrow> o_scheme p = ''https''"

text \<open>\<^verbatim>\<open>IP.IsLoopback\<close> on a 4- or 16-byte address: 127.0.0.0/8, also mapped into IPv6, or ::1.\<close>

definition ip_is_loopback :: "bytes \<Rightarrow> bool" where
  "ip_is_loopback b \<longleftrightarrow>
     (if length b = 4 then b ! 0 = 127
      else if length b = 16 \<and> take 12 b = replicate 10 0 @ [255, 255] then b ! 12 = 127
      else b = replicate 15 0 @ [1])"

definition is_loopback :: "'a web_scheme \<Rightarrow> canonical_origin \<Rightarrow> bool" where
  "is_loopback W p \<longleftrightarrow>
     (if o_host p = ''localhost'' then True
      else (case parse_ip W (o_host p) of Some b \<Rightarrow> ip_is_loopback b | None \<Rightarrow> False))"

definition registrable_domain :: "'a web_scheme \<Rightarrow> canonical_origin \<Rightarrow> string" where
  "registrable_domain W p = (case etld_plus_one W (o_host p) of None \<Rightarrow> o_host p | Some d \<Rightarrow> d)"

section \<open>Matching\<close>

definition matches :: "canonical_origin \<Rightarrow> canonical_origin \<Rightarrow> bool" where
  "matches p page \<longleftrightarrow> o_scheme p = o_scheme page \<and> o_host p = o_host page \<and> o_port p = o_port page"

definition is_under :: "string \<Rightarrow> string \<Rightarrow> bool" where
  "is_under host apex \<longleftrightarrow> host = apex \<or> has_suffix host (''.'' @ apex)"

definition matches_with_policy :: "canonical_origin \<Rightarrow> canonical_origin \<Rightarrow> bool \<Rightarrow> bool" where
  "matches_with_policy p page allow_subdomains \<longleftrightarrow>
     (if \<not> allow_subdomains then matches p page
      else if o_scheme p \<noteq> o_scheme page \<or> o_port p \<noteq> o_port page then False
      else is_under (o_host page) (o_host p))"

record login_url =
  lu_raw :: string
  lu_origin :: canonical_origin
  lu_allow_subdomains :: bool

definition new_login_url :: "'a web_scheme \<Rightarrow> string \<Rightarrow> err + login_url" where
  "new_login_url W raw =
     sbind (parse_origin W raw) (\<lambda>p. Inr \<lparr>lu_raw = raw, lu_origin = p, lu_allow_subdomains = False\<rparr>)"

definition new_login_url_with_policy :: "'a web_scheme \<Rightarrow> string \<Rightarrow> bool \<Rightarrow> err + login_url" where
  "new_login_url_with_policy W raw allow =
     sbind (new_login_url W raw) (\<lambda>u. Inr (u\<lparr>lu_allow_subdomains := allow\<rparr>))"

definition url_matches :: "login_url \<Rightarrow> canonical_origin \<Rightarrow> bool" where
  "url_matches u page \<longleftrightarrow> matches_with_policy (lu_origin u) page (lu_allow_subdomains u)"

section \<open>What the rules admit\<close>

definition canonical :: "canonical_origin \<Rightarrow> bool" where
  "canonical p \<longleftrightarrow> (o_scheme p = ''http'' \<or> o_scheme p = ''https'') \<and> o_host p \<noteq> '''' \<and> o_port p \<noteq> ''''"

lemma parse_origin_canonical: "parse_origin W raw = Inr p \<Longrightarrow> canonical p"
  by (auto simp: parse_origin_def canonical_def Let_def split: option.splits if_splits)

lemma parse_origin_error: "parse_origin W raw = Inl e \<Longrightarrow> e = ErrValidation"
  by (auto simp: parse_origin_def Let_def split: option.splits if_splits)

lemma matches_iff: "matches p page \<longleftrightarrow> p = page"
  by (cases p; cases page) (auto simp: matches_def)

lemma is_under_iff: "is_under host apex \<longleftrightarrow> host = apex \<or> (\<exists>sub. host = sub @ ''.'' @ apex)"
  by (auto simp: is_under_def has_suffix_iff)

lemma is_under_refl [simp]: "is_under h h"
  by (simp add: is_under_def)

lemma is_under_trans: "is_under a b \<Longrightarrow> is_under b c \<Longrightarrow> is_under a c"
  by (auto simp: is_under_iff)

lemma is_under_length: "is_under host apex \<Longrightarrow> host = apex \<or> length apex < length host"
  by (auto simp: is_under_iff)

text \<open>A page is covered when scheme and port agree and its host is the stored host or, if the
  URL opted in, ends in a dot and the stored host.\<close>

lemma url_matches_iff:
  "url_matches u page \<longleftrightarrow>
     o_scheme page = o_scheme (lu_origin u) \<and> o_port page = o_port (lu_origin u) \<and>
     (o_host page = o_host (lu_origin u) \<or>
      lu_allow_subdomains u \<and> (\<exists>sub. o_host page = sub @ ''.'' @ o_host (lu_origin u)))"
  by (auto simp: url_matches_def matches_with_policy_def matches_def is_under_iff)

text \<open>Coverage runs from the stored URL to the page: two origins that cover each other are equal.\<close>

lemma matches_with_policy_antisym:
  "matches_with_policy p q b \<Longrightarrow> matches_with_policy q p c \<Longrightarrow> p = q"
  by (cases p; cases q)
    (auto simp: matches_with_policy_def matches_iff is_under_iff split: if_splits)

lemma new_login_url_with_policy_Inr:
  "new_login_url_with_policy W raw b = Inr u \<Longrightarrow>
     lu_raw u = raw \<and> parse_origin W raw = Inr (lu_origin u) \<and> lu_allow_subdomains u = b"
  by (auto simp: new_login_url_with_policy_def new_login_url_def sbind_Inr_iff)

section \<open>A concrete web\<close>

text \<open>
  A small instance of the parameters, for evaluation: \<^verbatim>\<open>scheme://host:port/...\<close>, no addresses but
  \<^verbatim>\<open>127.0.0.1\<close>, hosts that are already ASCII, and one-label public suffixes.
\<close>

definition plain_url_parse :: "string \<Rightarrow> parsed_url option" where
  "plain_url_parse s =
     (case cut CHR '':'' s of
        (scheme, Some r) \<Rightarrow>
          if take 2 r = ''//'' then
            (let authority = fst (cut CHR ''/'' (drop 2 r)); (host, port) = cut CHR '':'' authority in
             Some \<lparr>u_scheme = scheme, u_hostname = host, u_port = (case port of None \<Rightarrow> '''' | Some p \<Rightarrow> p)\<rparr>)
          else None
      | _ \<Rightarrow> None)"

definition plain_etld_plus_one :: "string \<Rightarrow> string option" where
  "plain_etld_plus_one host =
     (case cut_last CHR ''.'' host of
        None \<Rightarrow> None
      | Some (rest, tld) \<Rightarrow>
          Some ((case cut_last CHR ''.'' rest of None \<Rightarrow> rest | Some (_, l) \<Rightarrow> l) @ ''.'' @ tld))"

definition plain_web :: web where
  "plain_web =
     \<lparr>uni_lower = (\<lambda>_. False), uni_upper = (\<lambda>_. False), uni_digit = (\<lambda>_. False),
      uni_to_lower = (\<lambda>r. r), uni_space = (\<lambda>_. False),
      url_parse = plain_url_parse,
      parse_ip = (\<lambda>h. if h = ''127.0.0.1'' then Some [127, 0, 0, 1] else None),
      idna_to_ascii = (\<lambda>h. Some h), etld_plus_one = plain_etld_plus_one\<rparr>"

lemma plain_web_example:
  "parse_origin plain_web ''https://Login.Example.com:8443/x'' =
     Inr \<lparr>o_scheme = ''https'', o_host = ''login.example.com'', o_port = ''8443''\<rparr>"
  by (simp add: parse_origin_def plain_web_def trim_space_ascii is_space_def plain_url_parse_def cut_def
      to_lower_ascii ascii_lower_def Let_def char_of_eq_iff)

end
