(* ===== verification/Secret_Record.thy ===== *)
theory Secret_Record
  imports Origin "HOL-Library.Countable"
begin

text \<open>
  Secret records (\<^verbatim>\<open>internal/records/domain/record.go\<close>) and their encoding inside a ciphertext
  (\<^verbatim>\<open>internal/records/application/codec.go\<close>). \<^verbatim>\<open>encoding/json\<close> is a parameter: what is relied on
  is that decoding returns what was encoded, a field that \<^verbatim>\<open>omitempty\<close> drops reading as absent.
\<close>

section \<open>Records\<close>

type_synonym record_type = string

definition type_login :: record_type where "type_login = ''login''"
definition type_note :: record_type where "type_note = ''note''"
definition type_api :: record_type where "type_api = ''api''"

definition type_valid :: "record_type \<Rightarrow> bool" where
  "type_valid t \<longleftrightarrow> t = type_login \<or> t = type_note \<or> t = type_api"

record record_metadata =
  md_name :: string
  md_username :: string
  md_service :: string
  md_environment :: string
  md_urls :: "login_url list"
  md_tags :: "string list"
  md_project_id :: string
  md_custom_keys :: "string list"
  md_created_at :: go_time
  md_updated_at :: go_time

record secret_payload =
  sp_password :: string
  sp_notes :: string
  sp_api_key :: string
  sp_api_secret :: string
  sp_custom :: "(string \<times> string) list"

record secret_record =
  rec_id :: ident
  rec_type :: record_type
  rec_revision :: u64
  rec_metadata :: record_metadata
  rec_secret :: secret_payload

definition record_validate :: "secret_record \<Rightarrow> err option" where
  "record_validate r =
     (let m = rec_metadata r; s = rec_secret r in
      if id_is_zero (rec_id r) \<or> \<not> type_valid (rec_type r) \<or> rec_revision r < 1 then Some ErrValidation
      else if md_name m = '''' then Some ErrValidation
      else if rec_type r = type_login \<and> sp_password s = '''' \<and> md_username m = '''' \<and> md_urls m = []
      then Some ErrValidation
      else if rec_type r = type_api \<and> sp_api_key s = '''' \<and> sp_api_secret s = '''' then Some ErrValidation
      else if list_ex (\<lambda>u. o_host (lu_origin u) = '''') (md_urls m) then Some ErrValidation
      else None)"

definition matches_origin :: "record_metadata \<Rightarrow> canonical_origin \<Rightarrow> bool" where
  "matches_origin m page \<longleftrightarrow> list_ex (\<lambda>u. url_matches u page) (md_urls m)"

definition matches_project_id :: "'a web_scheme \<Rightarrow> record_metadata \<Rightarrow> canonical_origin \<Rightarrow> string \<Rightarrow> bool" where
  "matches_project_id W m page project_id \<longleftrightarrow>
     (if project_id = '''' \<or> md_project_id m = '''' then False
      else is_loopback W page \<and> md_project_id m = project_id)"

lemma matches_project_id_loopback: "matches_project_id W m page pid \<Longrightarrow> is_loopback W page"
  by (auto simp: matches_project_id_def split: if_splits)

section \<open>The encoded form\<close>

definition payload_version :: i64 where "payload_version = 1"

text \<open>\<^verbatim>\<open>urlEntries\<close> distinguishes a missing list from an empty one; nothing else does.\<close>

record metadata_dto =
  d_type :: string
  d_name :: string
  d_username :: string
  d_service :: string
  d_environment :: string
  d_urls :: "string list"
  d_url_entries :: "(string \<times> bool) list option"
  d_tags :: "string list"
  d_project_id :: string
  d_custom_keys :: "string list"
  d_created_at_ms :: int
  d_updated_at_ms :: int

record secret_dto =
  d_password :: string
  d_notes :: string
  d_api_key :: string
  d_api_secret :: string
  d_custom :: "(string \<times> string) list"

record json =
  json_metadata :: "metadata_dto \<Rightarrow> bytes"
  json_secret :: "secret_dto \<Rightarrow> bytes"
  unjson_metadata :: "bytes \<Rightarrow> metadata_dto option"
  unjson_secret :: "bytes \<Rightarrow> secret_dto option"

definition encode_metadata :: "json \<Rightarrow> record_type \<Rightarrow> record_metadata \<Rightarrow> bytes" where
  "encode_metadata J t m = json_metadata J
     \<lparr>d_type = t, d_name = md_name m, d_username = md_username m, d_service = md_service m,
      d_environment = md_environment m, d_urls = [],
      d_url_entries = Some (map (\<lambda>u. (lu_raw u, lu_allow_subdomains u)) (md_urls m)),
      d_tags = md_tags m, d_project_id = md_project_id m, d_custom_keys = md_custom_keys m,
      d_created_at_ms = unix_milli (md_created_at m), d_updated_at_ms = unix_milli (md_updated_at m)\<rparr>"

definition decode_metadata :: "'a web_scheme \<Rightarrow> json \<Rightarrow> bytes \<Rightarrow> err + (record_type \<times> record_metadata)" where
  "decode_metadata W J b =
     (case unjson_metadata J b of
        None \<Rightarrow> Inl ErrIntegrityFailure
      | Some d \<Rightarrow>
          let entries = (case d_url_entries d of
                Some es \<Rightarrow> es | None \<Rightarrow> map (\<lambda>raw. (raw, False)) (d_urls d)) in
          (case smap (\<lambda>(raw, sub). new_login_url_with_policy W raw sub) entries of
             Inl _ \<Rightarrow> Inl ErrIntegrityFailure
           | Inr urls \<Rightarrow>
               Inr (d_type d,
                 \<lparr>md_name = d_name d, md_username = d_username d, md_service = d_service d,
                  md_environment = d_environment d, md_urls = urls, md_tags = d_tags d,
                  md_project_id = d_project_id d, md_custom_keys = d_custom_keys d,
                  md_created_at = from_milli (d_created_at_ms d),
                  md_updated_at = from_milli (d_updated_at_ms d)\<rparr>)))"

definition encode_secret :: "json \<Rightarrow> secret_payload \<Rightarrow> bytes" where
  "encode_secret J p = json_secret J
     \<lparr>d_password = sp_password p, d_notes = sp_notes p, d_api_key = sp_api_key p,
      d_api_secret = sp_api_secret p, d_custom = sp_custom p\<rparr>"

definition decode_secret :: "json \<Rightarrow> bytes \<Rightarrow> err + secret_payload" where
  "decode_secret J b =
     (case unjson_secret J b of
        None \<Rightarrow> Inl ErrIntegrityFailure
      | Some d \<Rightarrow> Inr \<lparr>sp_password = d_password d, sp_notes = d_notes d, sp_api_key = d_api_key d,
          sp_api_secret = d_api_secret d, sp_custom = d_custom d\<rparr>)"

section \<open>Round trips\<close>

text \<open>
  Documented behaviour of \<^verbatim>\<open>encoding/json\<close> on these structures: a struct whose strings are valid
  UTF-8 is read back as it was written, an empty \<^verbatim>\<open>omitempty\<close> list as missing, and a map as the
  same map (its keys come back sorted).
\<close>

definition valid_utf8 :: "string \<Rightarrow> bool" where
  "valid_utf8 s \<longleftrightarrow> list_all (\<lambda>c. decode_rune c \<noteq> (rune_error, 1)) (rune_chunks (map of_char s))"

definition omit_empty :: "metadata_dto \<Rightarrow> metadata_dto" where
  "omit_empty d = d\<lparr>d_url_entries := (if d_url_entries d = Some [] then None else d_url_entries d)\<rparr>"

definition metadata_dto_clean :: "metadata_dto \<Rightarrow> bool" where
  "metadata_dto_clean d \<longleftrightarrow>
     list_all valid_utf8 ([d_type d, d_name d, d_username d, d_service d, d_environment d, d_project_id d] @
       d_urls d @ map fst (case d_url_entries d of None \<Rightarrow> [] | Some es \<Rightarrow> es) @ d_tags d @ d_custom_keys d)"

definition secret_dto_clean :: "secret_dto \<Rightarrow> bool" where
  "secret_dto_clean d \<longleftrightarrow>
     list_all valid_utf8 ([d_password d, d_notes d, d_api_key d, d_api_secret d] @
       map fst (d_custom d) @ map snd (d_custom d)) \<and>
     distinct (map fst (d_custom d))"

definition json_faithful :: "json \<Rightarrow> bool" where
  "json_faithful J \<longleftrightarrow>
     (\<forall>d. metadata_dto_clean d \<longrightarrow> unjson_metadata J (json_metadata J d) = Some (omit_empty d)) \<and>
     (\<forall>d. secret_dto_clean d \<longrightarrow>
        unjson_secret J (json_secret J d) = Some (d\<lparr>d_custom := sort_key fst (d_custom d)\<rparr>))"

definition metadata_clean :: "'a web_scheme \<Rightarrow> record_type \<Rightarrow> record_metadata \<Rightarrow> bool" where
  "metadata_clean W t m \<longleftrightarrow>
     list_all valid_utf8 ([t, md_name m, md_username m, md_service m, md_environment m, md_project_id m] @
       map lu_raw (md_urls m) @ md_tags m @ md_custom_keys m) \<and>
     list_all (\<lambda>u. new_login_url_with_policy W (lu_raw u) (lu_allow_subdomains u) = Inr u) (md_urls m)"

definition secret_clean :: "secret_payload \<Rightarrow> bool" where
  "secret_clean p \<longleftrightarrow>
     list_all valid_utf8 ([sp_password p, sp_notes p, sp_api_key p, sp_api_secret p] @
       map fst (sp_custom p) @ map snd (sp_custom p)) \<and> distinct (map fst (sp_custom p))"

text \<open>The stored times have millisecond precision.\<close>

definition in_millis :: "record_metadata \<Rightarrow> record_metadata" where
  "in_millis m = m\<lparr>md_created_at := from_milli (unix_milli (md_created_at m)),
     md_updated_at := from_milli (unix_milli (md_updated_at m))\<rparr>"

lemma decode_encode_metadata:
  assumes "json_faithful J" and "metadata_clean W t m"
  shows "decode_metadata W J (encode_metadata J t m) = Inr (t, in_millis m)"
proof -
  let ?es = "map (\<lambda>u. (lu_raw u, lu_allow_subdomains u)) (md_urls m)"
  let ?d = "\<lparr>d_type = t, d_name = md_name m, d_username = md_username m, d_service = md_service m,
      d_environment = md_environment m, d_urls = [], d_url_entries = Some ?es,
      d_tags = md_tags m, d_project_id = md_project_id m, d_custom_keys = md_custom_keys m,
      d_created_at_ms = unix_milli (md_created_at m), d_updated_at_ms = unix_milli (md_updated_at m)\<rparr>"
  have "metadata_dto_clean ?d"
    using assms(2) by (simp add: metadata_dto_clean_def metadata_clean_def comp_def)
  then have un: "unjson_metadata J (json_metadata J ?d) = Some (omit_empty ?d)"
    using assms(1) by (simp add: json_faithful_def)
  have "smap (\<lambda>(raw, sub). new_login_url_with_policy W raw sub) ?es = Inr (md_urls m)"
    using assms(2) by (auto simp: smap_Inr_iff list_all2_map1 metadata_clean_def list_all_iff
        intro: list.rel_refl_strong)
  then show ?thesis
    unfolding decode_metadata_def encode_metadata_def un
    by (cases "md_urls m = []") (simp_all add: Let_def in_millis_def omit_empty_def)
qed

lemma decode_encode_secret:
  assumes "json_faithful J" and "secret_clean p"
  shows "decode_secret J (encode_secret J p) = Inr (p\<lparr>sp_custom := sort_key fst (sp_custom p)\<rparr>)"
proof -
  have "secret_dto_clean \<lparr>d_password = sp_password p, d_notes = sp_notes p, d_api_key = sp_api_key p,
      d_api_secret = sp_api_secret p, d_custom = sp_custom p\<rparr>"
    using assms(2) by (simp add: secret_dto_clean_def secret_clean_def)
  with assms(1) show ?thesis
    by (cases p) (simp add: decode_secret_def encode_secret_def json_faithful_def)
qed

lemma decode_metadata_error: "decode_metadata W J b = Inl e \<Longrightarrow> e = ErrIntegrityFailure"
  by (auto simp: decode_metadata_def Let_def split: option.splits sum.splits)

section \<open>A concrete encoding\<close>

text \<open>An instance of the parameter that satisfies the documented behaviour: a structure's index in
  an enumeration, in unary.\<close>

definition plain_json :: json where
  "plain_json =
     \<lparr>json_metadata = (\<lambda>d. let e = omit_empty d in replicate (to_nat
        (d_type e, d_name e, d_username e, d_service e, d_environment e, d_urls e, d_url_entries e,
         d_tags e, d_project_id e, d_custom_keys e, d_created_at_ms e, d_updated_at_ms e)) 0),
      json_secret = (\<lambda>d. replicate (to_nat
        (d_password d, d_notes d, d_api_key d, d_api_secret d, sort_key fst (d_custom d))) 0),
      unjson_metadata = (\<lambda>b. case from_nat (length b) of (ty, na, us, se, en, ur, ue, ta, pr, ck, cr, up) \<Rightarrow>
        Some \<lparr>d_type = ty, d_name = na, d_username = us, d_service = se, d_environment = en, d_urls = ur,
          d_url_entries = ue, d_tags = ta, d_project_id = pr, d_custom_keys = ck, d_created_at_ms = cr,
          d_updated_at_ms = up\<rparr>),
      unjson_secret = (\<lambda>b. case from_nat (length b) of (pw, no, ak, sc, cu) \<Rightarrow>
        Some \<lparr>d_password = pw, d_notes = no, d_api_key = ak, d_api_secret = sc, d_custom = cu\<rparr>)\<rparr>"

lemma plain_json_faithful: "json_faithful plain_json"
  by (auto simp: json_faithful_def plain_json_def Let_def omit_empty_def)

end
