(* ===== verification/Index.thy ===== *)
theory Index
  imports Secret_Record "HOL-Library.Multiset"
begin

text \<open>
  The in-memory metadata index (\<^verbatim>\<open>internal/records/application/index.go\<close>): the entries by
  identifier and two multimaps, from registrable domain and from project id to identifiers.
  The multimap is an interface with counting laws; that the index keeps both in step with its
  entries is proved once against that interface. The order of a list of entries stands for
  the order of one iteration over the Go map.
\<close>

section \<open>Multimaps\<close>

type_synonym multimap = "(string \<times> ident list) list"

definition mm_get :: "multimap \<Rightarrow> string \<Rightarrow> ident list" where
  "mm_get m k = (case map_of m k of None \<Rightarrow> [] | Some ids \<Rightarrow> ids)"

definition mm_append :: "multimap \<Rightarrow> string \<Rightarrow> ident \<Rightarrow> multimap" where
  "mm_append m k i = AList.update k (mm_get m k @ [i]) m"

definition remove_from_multimap :: "multimap \<Rightarrow> string \<Rightarrow> ident \<Rightarrow> multimap" where
  "remove_from_multimap m k i =
     (let ids = remove1 i (mm_get m k) in
      if ids = [] then AList.delete k m else AList.update k ids m)"

text \<open>
  The interface: how often an identifier stands under a key, after adding and after removing.
  Folding over the keys of an entry then adds or removes it once for every occurrence of a key.
\<close>

locale multimap_laws =
  fixes get :: "'m \<Rightarrow> 'k \<Rightarrow> 'i list" and add del :: "'m \<Rightarrow> 'k \<Rightarrow> 'i \<Rightarrow> 'm"
  assumes count_add: "count_list (get (add m k i) k') j =
      count_list (get m k') j + (if k = k' \<and> i = j then 1 else 0)"
    and count_del: "count_list (get (del m k i) k') j =
      count_list (get m k') j - (if k = k' \<and> i = j then 1 else 0)"
begin

lemma count_add_all:
  "count_list (get (fold (\<lambda>k m. add m k i) ks m) k') j =
     count_list (get m k') j + (if i = j then count_list ks k' else 0)"
  by (induction ks arbitrary: m) (simp_all add: count_add)

lemma count_del_all:
  "count_list (get (fold (\<lambda>k m. del m k i) ks m) k') j =
     count_list (get m k') j - (if i = j then count_list ks k' else 0)"
  by (induction ks arbitrary: m) (simp_all add: count_del)

text \<open>Replacing the keys of one identifier.\<close>

lemma replace_keys:
  assumes "\<And>k j. count_list (get m k) j = (case es j of None \<Rightarrow> 0 | Some ks \<Rightarrow> count_list ks k)"
  shows "count_list (get (fold (\<lambda>k m. add m k i) new
        (fold (\<lambda>k m. del m k i) (case es i of None \<Rightarrow> [] | Some ks \<Rightarrow> ks) m)) k) j =
      (case (es(i \<mapsto> new)) j of None \<Rightarrow> 0 | Some ks \<Rightarrow> count_list ks k)"
  using assms by (auto simp: count_add_all count_del_all split: option.splits)

lemma drop_keys:
  assumes "\<And>k j. count_list (get m k) j = (case es j of None \<Rightarrow> 0 | Some ks \<Rightarrow> count_list ks k)"
  shows "count_list (get (fold (\<lambda>k m. del m k i) (case es i of None \<Rightarrow> [] | Some ks \<Rightarrow> ks) m) k) j =
      (case (es(i := None)) j of None \<Rightarrow> 0 | Some ks \<Rightarrow> count_list ks k)"
  using assms by (auto simp: count_del_all split: option.splits)

end

lemma count_list_remove1: "count_list (remove1 i xs) j = count_list xs j - (if i = j then 1 else 0)"
  by (induction xs) auto

interpretation mm: multimap_laws mm_get mm_append remove_from_multimap
proof
  show "count_list (mm_get (mm_append m k i) k') j =
      count_list (mm_get m k') j + (if k = k' \<and> i = j then 1 else 0)" for m k i k' j
    by (simp add: mm_append_def mm_get_def)
  show "count_list (mm_get (remove_from_multimap m k i) k') j =
      count_list (mm_get m k') j - (if k = k' \<and> i = j then 1 else 0)" for m k i k' j
  proof -
    have "mm_get (remove_from_multimap m k i) k' = (if k = k' then remove1 i (mm_get m k) else mm_get m k')"
      by (simp add: remove_from_multimap_def mm_get_def Let_def)
    then show ?thesis by (simp add: count_list_remove1)
  qed
qed

section \<open>The index\<close>

record index_entry =
  ie_id :: ident
  ie_type :: record_type
  ie_revision :: u64
  ie_metadata :: record_metadata

record index =
  ix_entries :: "(ident \<times> index_entry) list"
  ix_by_host :: multimap
  ix_by_project :: multimap

definition new_index :: index where
  "new_index = \<lparr>ix_entries = [], ix_by_host = [], ix_by_project = []\<rparr>"

text \<open>The keys an entry stands under: a registrable domain per URL, and its project id if any.\<close>

definition host_keys :: "'a web_scheme \<Rightarrow> index_entry \<Rightarrow> string list" where
  "host_keys W e = map (\<lambda>u. registrable_domain W (lu_origin u)) (md_urls (ie_metadata e))"

definition project_keys :: "index_entry \<Rightarrow> string list" where
  "project_keys e = (if md_project_id (ie_metadata e) \<noteq> '''' then [md_project_id (ie_metadata e)] else [])"

definition remove_indexes :: "'a web_scheme \<Rightarrow> index_entry \<Rightarrow> index \<Rightarrow> index" where
  "remove_indexes W e ix = ix\<lparr>
     ix_by_host := fold (\<lambda>k m. remove_from_multimap m k (ie_id e)) (host_keys W e) (ix_by_host ix),
     ix_by_project := fold (\<lambda>k m. remove_from_multimap m k (ie_id e)) (project_keys e) (ix_by_project ix)\<rparr>"

definition index_put :: "'a web_scheme \<Rightarrow> index_entry \<Rightarrow> index \<Rightarrow> index" where
  "index_put W e ix =
     (let ix1 = (case map_of (ix_entries ix) (ie_id e) of None \<Rightarrow> ix | Some old \<Rightarrow> remove_indexes W old ix) in
      ix1\<lparr>ix_entries := AList.update (ie_id e) e (ix_entries ix1),
          ix_by_host := fold (\<lambda>k m. mm_append m k (ie_id e)) (host_keys W e) (ix_by_host ix1),
          ix_by_project := fold (\<lambda>k m. mm_append m k (ie_id e)) (project_keys e) (ix_by_project ix1)\<rparr>)"

definition index_remove :: "'a web_scheme \<Rightarrow> ident \<Rightarrow> index \<Rightarrow> index" where
  "index_remove W i ix =
     (case map_of (ix_entries ix) i of
        None \<Rightarrow> ix
      | Some e \<Rightarrow> (remove_indexes W e ix)\<lparr>ix_entries := AList.delete i (ix_entries ix)\<rparr>)"

definition index_get :: "index \<Rightarrow> ident \<Rightarrow> index_entry option" where
  "index_get ix i = map_of (ix_entries ix) i"

definition index_len :: "index \<Rightarrow> nat" where
  "index_len ix = length (ix_entries ix)"

definition index_clear :: "index \<Rightarrow> index" where
  "index_clear ix = new_index"

definition entry_name :: "index_entry \<Rightarrow> string" where
  "entry_name e = md_name (ie_metadata e)"

definition index_all :: "index \<Rightarrow> index_entry list" where
  "index_all ix = sort_key entry_name (map snd (ix_entries ix))"

definition matches_query :: "'a web_scheme \<Rightarrow> index_entry \<Rightarrow> string \<Rightarrow> bool" where
  "matches_query W e q \<longleftrightarrow>
     (let m = ie_metadata e in
      contains (to_lower W (md_name m)) q \<or> contains (to_lower W (md_username m)) q \<or>
      contains (to_lower W (md_service m)) q \<or>
      list_ex (\<lambda>tag. contains (to_lower W tag) q) (md_tags m) \<or>
      list_ex (\<lambda>u. contains (o_host (lu_origin u)) q) (md_urls m))"

definition index_search :: "'a web_scheme \<Rightarrow> string \<Rightarrow> index \<Rightarrow> index_entry list" where
  "index_search W query ix =
     (let q = to_lower W (trim_space W query) in
      if q = '''' then index_all ix
      else sort_key entry_name (filter (\<lambda>e. matches_query W e q) (map snd (ix_entries ix))))"

datatype match_reason = MatchedByOrigin | MatchedByProject

text \<open>
  The two loops of \<^verbatim>\<open>Match\<close>. The results so far carry the identifier they were found under;
  those identifiers are the \<^verbatim>\<open>seen\<close> set.
\<close>

type_synonym hits = "(ident \<times> index_entry \<times> match_reason) list"

fun match_hosts :: "index \<Rightarrow> canonical_origin \<Rightarrow> ident list \<Rightarrow> hits \<Rightarrow> hits" where
  "match_hosts ix page [] out = out"
| "match_hosts ix page (i # ids) out =
     (case index_get ix i of
        None \<Rightarrow> match_hosts ix page ids out
      | Some e \<Rightarrow>
          if i \<in> fst ` set out then match_hosts ix page ids out
          else if matches_origin (ie_metadata e) page
          then match_hosts ix page ids (out @ [(i, e, MatchedByOrigin)])
          else match_hosts ix page ids out)"

fun match_projects :: "'a web_scheme \<Rightarrow> index \<Rightarrow> canonical_origin \<Rightarrow> string \<Rightarrow> ident list \<Rightarrow> hits \<Rightarrow> hits" where
  "match_projects W ix page pid [] out = out"
| "match_projects W ix page pid (i # ids) out =
     (if i \<in> fst ` set out then match_projects W ix page pid ids out
      else (case index_get ix i of
        None \<Rightarrow> match_projects W ix page pid ids out
      | Some e \<Rightarrow>
          if matches_project_id W (ie_metadata e) page pid
          then match_projects W ix page pid ids (out @ [(i, e, MatchedByProject)])
          else match_projects W ix page pid ids out))"

definition index_match :: "'a web_scheme \<Rightarrow> canonical_origin \<Rightarrow> string \<Rightarrow> index \<Rightarrow> (index_entry \<times> match_reason) list" where
  "index_match W page pid ix =
     (let hits = match_hosts ix page (mm_get (ix_by_host ix) (registrable_domain W page)) [];
          hits' = (if pid \<noteq> '''' then match_projects W ix page pid (mm_get (ix_by_project ix) pid) hits else hits) in
      sort_key (\<lambda>r. entry_name (fst r)) (map snd hits'))"

section \<open>The index invariant\<close>

definition index_ok :: "'a web_scheme \<Rightarrow> index \<Rightarrow> bool" where
  "index_ok W ix \<longleftrightarrow>
     distinct (map fst (ix_entries ix)) \<and>
     (\<forall>i e. index_get ix i = Some e \<longrightarrow> ie_id e = i) \<and>
     (\<forall>k i. count_list (mm_get (ix_by_host ix) k) i =
        (case map_option (host_keys W) (index_get ix i) of None \<Rightarrow> 0 | Some ks \<Rightarrow> count_list ks k)) \<and>
     (\<forall>k i. count_list (mm_get (ix_by_project ix) k) i =
        (case map_option project_keys (index_get ix i) of None \<Rightarrow> 0 | Some ks \<Rightarrow> count_list ks k))"

lemma index_ok_new [simp]: "index_ok W new_index"
  by (simp add: index_ok_def new_index_def index_get_def mm_get_def)

lemma index_ok_clear [simp]: "index_ok W (index_clear ix)"
  by (simp add: index_clear_def)

lemma index_get_put: "index_get (index_put W e ix) i = (if i = ie_id e then Some e else index_get ix i)"
  by (auto simp: index_get_def index_put_def Let_def remove_indexes_def split: option.splits)

lemma index_get_remove: "index_get (index_remove W j ix) i = (if i = j then None else index_get ix i)"
  by (auto simp: index_get_def index_remove_def remove_indexes_def split: option.splits)

lemma index_ok_put:
  assumes "index_ok W ix"
  shows "index_ok W (index_put W e ix)"
proof -
  let ?i = "ie_id e" and ?ix = "index_put W e ix"
  from assms have d: "distinct (map fst (ix_entries ix))"
    and i: "\<And>i e. index_get ix i = Some e \<Longrightarrow> ie_id e = i"
    and h: "\<And>k i. count_list (mm_get (ix_by_host ix) k) i =
        (case map_option (host_keys W) (index_get ix i) of None \<Rightarrow> 0 | Some ks \<Rightarrow> count_list ks k)"
    and p: "\<And>k i. count_list (mm_get (ix_by_project ix) k) i =
        (case map_option project_keys (index_get ix i) of None \<Rightarrow> 0 | Some ks \<Rightarrow> count_list ks k)"
    by (auto simp: index_ok_def)
  have bh: "ix_by_host ?ix = fold (\<lambda>k m. mm_append m k ?i) (host_keys W e)
      (fold (\<lambda>k m. remove_from_multimap m k ?i)
        (case map_option (host_keys W) (index_get ix ?i) of None \<Rightarrow> [] | Some ks \<Rightarrow> ks) (ix_by_host ix))"
    using i by (auto simp: index_put_def index_get_def Let_def remove_indexes_def split: option.splits)
  have bp: "ix_by_project ?ix = fold (\<lambda>k m. mm_append m k ?i) (project_keys e)
      (fold (\<lambda>k m. remove_from_multimap m k ?i)
        (case map_option project_keys (index_get ix ?i) of None \<Rightarrow> [] | Some ks \<Rightarrow> ks) (ix_by_project ix))"
    using i by (auto simp: index_put_def index_get_def Let_def remove_indexes_def split: option.splits)
  have "distinct (map fst (ix_entries ?ix))"
    using d by (auto simp: index_put_def Let_def remove_indexes_def split: option.splits)
  moreover have "count_list (mm_get (ix_by_host ?ix) k) j =
      (case map_option (host_keys W) (index_get ?ix j) of None \<Rightarrow> 0 | Some ks \<Rightarrow> count_list ks k)" for k j
    unfolding bh using mm.replace_keys [of "ix_by_host ix" "\<lambda>i. map_option (host_keys W) (index_get ix i)", OF h]
    by (simp add: index_get_put)
  moreover have "count_list (mm_get (ix_by_project ?ix) k) j =
      (case map_option project_keys (index_get ?ix j) of None \<Rightarrow> 0 | Some ks \<Rightarrow> count_list ks k)" for k j
    unfolding bp using mm.replace_keys [of "ix_by_project ix" "\<lambda>i. map_option project_keys (index_get ix i)", OF p]
    by (simp add: index_get_put)
  ultimately show ?thesis using i by (simp add: index_ok_def index_get_put)
qed

lemma index_ok_remove:
  assumes "index_ok W ix"
  shows "index_ok W (index_remove W i ix)"
proof (cases "index_get ix i")
  case None
  with assms show ?thesis by (simp add: index_remove_def index_get_def)
next
  case (Some e)
  let ?ix = "index_remove W i ix"
  from assms have d: "distinct (map fst (ix_entries ix))"
    and ids: "\<And>i e. index_get ix i = Some e \<Longrightarrow> ie_id e = i"
    and h: "\<And>k i. count_list (mm_get (ix_by_host ix) k) i =
        (case map_option (host_keys W) (index_get ix i) of None \<Rightarrow> 0 | Some ks \<Rightarrow> count_list ks k)"
    and p: "\<And>k i. count_list (mm_get (ix_by_project ix) k) i =
        (case map_option project_keys (index_get ix i) of None \<Rightarrow> 0 | Some ks \<Rightarrow> count_list ks k)"
    by (auto simp: index_ok_def)
  have bh: "ix_by_host ?ix = fold (\<lambda>k m. remove_from_multimap m k i)
        (case map_option (host_keys W) (index_get ix i) of None \<Rightarrow> [] | Some ks \<Rightarrow> ks) (ix_by_host ix)"
    and bp: "ix_by_project ?ix = fold (\<lambda>k m. remove_from_multimap m k i)
        (case map_option project_keys (index_get ix i) of None \<Rightarrow> [] | Some ks \<Rightarrow> ks) (ix_by_project ix)"
    using Some ids [OF Some] by (simp_all add: index_remove_def index_get_def remove_indexes_def)
  have "distinct (map fst (ix_entries ?ix))"
    using d Some by (simp add: index_remove_def index_get_def remove_indexes_def)
  moreover have "count_list (mm_get (ix_by_host ?ix) k) j =
      (case map_option (host_keys W) (index_get ?ix j) of None \<Rightarrow> 0 | Some ks \<Rightarrow> count_list ks k)" for k j
    unfolding bh using mm.drop_keys [of "ix_by_host ix" "\<lambda>i. map_option (host_keys W) (index_get ix i)", OF h]
    by (simp add: index_get_remove)
  moreover have "count_list (mm_get (ix_by_project ?ix) k) j =
      (case map_option project_keys (index_get ?ix j) of None \<Rightarrow> 0 | Some ks \<Rightarrow> count_list ks k)" for k j
    unfolding bp using mm.drop_keys [of "ix_by_project ix" "\<lambda>i. map_option project_keys (index_get ix i)", OF p]
    by (simp add: index_get_remove)
  ultimately show ?thesis using ids by (simp add: index_ok_def index_get_remove)
qed

section \<open>Matching against the index\<close>

lemma match_hosts_iff:
  "(i, e, r) \<in> set (match_hosts ix page ids out) \<longleftrightarrow>
     (i, e, r) \<in> set out \<or>
     i \<in> set ids \<and> i \<notin> fst ` set out \<and> index_get ix i = Some e \<and>
       matches_origin (ie_metadata e) page \<and> r = MatchedByOrigin"
proof (induction ids arbitrary: out)
  case Nil
  then show ?case by simp
next
  case (Cons j ids)
  then show ?case by (cases "index_get ix j") (auto simp: image_iff)
qed

lemma match_hosts_distinct:
  "distinct (map fst out) \<Longrightarrow> distinct (map fst (match_hosts ix page ids out))"
proof (induction ids arbitrary: out)
  case Nil
  then show ?case by simp
next
  case (Cons j ids)
  then show ?case by (cases "index_get ix j") auto
qed

lemma match_projects_iff:
  "(i, e, r) \<in> set (match_projects W ix page pid ids out) \<longleftrightarrow>
     (i, e, r) \<in> set out \<or>
     i \<in> set ids \<and> i \<notin> fst ` set out \<and> index_get ix i = Some e \<and>
       matches_project_id W (ie_metadata e) page pid \<and> r = MatchedByProject"
proof (induction ids arbitrary: out)
  case Nil
  then show ?case by simp
next
  case (Cons j ids)
  then show ?case by (cases "index_get ix j") (auto simp: image_iff)
qed

lemma match_projects_distinct:
  "distinct (map fst out) \<Longrightarrow> distinct (map fst (match_projects W ix page pid ids out))"
proof (induction ids arbitrary: out)
  case Nil
  then show ?case by simp
next
  case (Cons j ids)
  then show ?case by (cases "index_get ix j") auto
qed

lemma by_host_mem:
  assumes "index_ok W ix" and "index_get ix i = Some e"
  shows "i \<in> set (mm_get (ix_by_host ix) k) \<longleftrightarrow> k \<in> set (host_keys W e)"
proof -
  have "count_list (mm_get (ix_by_host ix) k) i = count_list (host_keys W e) k"
    using assms by (simp add: index_ok_def)
  then show ?thesis by (metis count_list_0_iff)
qed

lemma by_project_mem:
  assumes "index_ok W ix" and "index_get ix i = Some e"
  shows "i \<in> set (mm_get (ix_by_project ix) k) \<longleftrightarrow> k \<in> set (project_keys e)"
proof -
  have "count_list (mm_get (ix_by_project ix) k) i = count_list (project_keys e) k"
    using assms by (simp add: index_ok_def)
  then show ?thesis by (metis count_list_0_iff)
qed

text \<open>The reference: scan every entry, the verified origin first, the project id second.\<close>

definition match_scan :: "'a web_scheme \<Rightarrow> canonical_origin \<Rightarrow> string \<Rightarrow> index_entry \<Rightarrow> match_reason option" where
  "match_scan W page pid e =
     (if matches_origin (ie_metadata e) page then Some MatchedByOrigin
      else if matches_project_id W (ie_metadata e) page pid then Some MatchedByProject
      else None)"

text \<open>
  The host index only offers entries under the registrable domain of the page. That loses no
  match when every URL of the entry that covers the page has that registrable domain; an exact
  match always has.
\<close>

definition suffix_stable :: "'a web_scheme \<Rightarrow> canonical_origin \<Rightarrow> index_entry \<Rightarrow> bool" where
  "suffix_stable W page e \<longleftrightarrow>
     (\<forall>u \<in> set (md_urls (ie_metadata e)). url_matches u page \<longrightarrow>
        registrable_domain W (lu_origin u) = registrable_domain W page)"

lemma exact_suffix_stable:
  "list_all (\<lambda>u. \<not> lu_allow_subdomains u) (md_urls (ie_metadata e)) \<Longrightarrow> suffix_stable W page e"
  by (auto simp: suffix_stable_def list_all_iff url_matches_def matches_with_policy_def matches_iff)

lemma index_match_mem:
  assumes "index_ok W ix"
  shows "(e, r) \<in> set (index_match W page pid ix) \<longleftrightarrow>
    (\<exists>i. index_get ix i = Some e \<and>
      (if registrable_domain W page \<in> set (host_keys W e) \<and> matches_origin (ie_metadata e) page
       then r = MatchedByOrigin
       else matches_project_id W (ie_metadata e) page pid \<and> r = MatchedByProject))"
proof -
  let ?hits = "match_hosts ix page (mm_get (ix_by_host ix) (registrable_domain W page)) []"
  have h: "(i, e, r) \<in> set ?hits \<longleftrightarrow> index_get ix i = Some e \<and>
      registrable_domain W page \<in> set (host_keys W e) \<and> matches_origin (ie_metadata e) page \<and>
      r = MatchedByOrigin" for i e r
    using by_host_mem [OF assms] by (auto simp: match_hosts_iff)
  have p: "matches_project_id W (ie_metadata e) page pid \<Longrightarrow> pid \<noteq> '''' \<and> pid \<in> set (project_keys e)" for e
    by (auto simp: matches_project_id_def project_keys_def split: if_splits)
  have "(e, r) \<in> set (index_match W page pid ix) \<longleftrightarrow>
      (\<exists>i. (i, e, r) \<in> set ?hits \<or> pid \<noteq> '''' \<and> i \<in> set (mm_get (ix_by_project ix) pid) \<and>
        i \<notin> fst ` set ?hits \<and> index_get ix i = Some e \<and>
        matches_project_id W (ie_metadata e) page pid \<and> r = MatchedByProject)"
    by (auto simp: index_match_def Let_def match_projects_iff image_iff Bex_def)
  also have "\<dots> \<longleftrightarrow> (\<exists>i. index_get ix i = Some e \<and>
      (if registrable_domain W page \<in> set (host_keys W e) \<and> matches_origin (ie_metadata e) page
       then r = MatchedByOrigin
       else matches_project_id W (ie_metadata e) page pid \<and> r = MatchedByProject))"
  proof -
    have mem: "i \<in> fst ` set ?hits \<longleftrightarrow> (\<exists>e. index_get ix i = Some e \<and>
        registrable_domain W page \<in> set (host_keys W e) \<and> matches_origin (ie_metadata e) page)" for i
      using h by (auto simp: image_iff Bex_def)
    have "(i, e, r) \<in> set ?hits \<or> pid \<noteq> '''' \<and> i \<in> set (mm_get (ix_by_project ix) pid) \<and>
        i \<notin> fst ` set ?hits \<and> index_get ix i = Some e \<and>
        matches_project_id W (ie_metadata e) page pid \<and> r = MatchedByProject \<longleftrightarrow>
      index_get ix i = Some e \<and>
      (if registrable_domain W page \<in> set (host_keys W e) \<and> matches_origin (ie_metadata e) page
       then r = MatchedByOrigin
       else matches_project_id W (ie_metadata e) page pid \<and> r = MatchedByProject)" for i
      using p [of e] by_project_mem [OF assms, of i e pid]
      by (cases "index_get ix i = Some e") (auto simp: h mem)
    then show ?thesis by simp
  qed
  finally show ?thesis .
qed

lemma index_match_scan:
  assumes "index_ok W ix" and "\<And>i e. index_get ix i = Some e \<Longrightarrow> suffix_stable W page e"
  shows "(e, r) \<in> set (index_match W page pid ix) \<longleftrightarrow>
    (\<exists>i. index_get ix i = Some e \<and> match_scan W page pid e = Some r)"
proof -
  have "registrable_domain W page \<in> set (host_keys W e)"
    if "index_get ix i = Some e" "matches_origin (ie_metadata e) page" for i e
    using assms(2) [OF that(1)] that(2)
    by (auto simp: suffix_stable_def matches_origin_def list_ex_iff host_keys_def image_iff)
      (metis)
  then show ?thesis
    using index_match_mem [OF assms(1), of e r page pid] by (auto simp: match_scan_def)
qed

lemma index_match_distinct:
  assumes "index_ok W ix"
  shows "distinct (map (\<lambda>r. ie_id (fst r)) (index_match W page pid ix))"
proof -
  let ?hits = "match_hosts ix page (mm_get (ix_by_host ix) (registrable_domain W page)) []"
  let ?hits' = "if pid \<noteq> '''' then match_projects W ix page pid (mm_get (ix_by_project ix) pid) ?hits else ?hits"
  have d: "distinct (map fst ?hits')"
    by (simp add: match_hosts_distinct match_projects_distinct)
  have ids: "ie_id e = i" if "(i, e, r) \<in> set ?hits'" for i e r
  proof -
    have "index_get ix i = Some e"
      using that by (auto simp: match_hosts_iff match_projects_iff split: if_splits)
    then show ?thesis using assms by (simp add: index_ok_def)
  qed
  have "map (\<lambda>r. ie_id (fst r)) (map snd ?hits') = map fst ?hits'"
    unfolding map_map by (rule map_cong [OF refl]) (use ids in auto)
  then have "distinct (map (\<lambda>r. ie_id (fst r)) (map snd ?hits'))" using d by (simp only:)
  moreover have "mset (map (\<lambda>r. ie_id (fst r)) (index_match W page pid ix)) =
      mset (map (\<lambda>r. ie_id (fst r)) (map snd ?hits'))"
    by (simp only: index_match_def Let_def mset_map mset_sort)
  ultimately show ?thesis by (metis mset_eq_imp_distinct_iff)
qed

lemma index_search_mem:
  "e \<in> set (index_search W query ix) \<longleftrightarrow>
     e \<in> snd ` set (ix_entries ix) \<and>
     (to_lower W (trim_space W query) = '''' \<or> matches_query W e (to_lower W (trim_space W query)))"
  by (auto simp: index_search_def index_all_def Let_def)

lemma index_all_sorted: "sorted (map entry_name (index_all ix))"
  by (simp add: index_all_def)

end
