(* ===== verification/Records.thy ===== *)
theory Records
  imports Vault Index
begin

text \<open>
  The record catalog service (\<^verbatim>\<open>internal/records/application/{service,commands,queries}.go\<close>):
  creation, update with optimistic concurrency, deletion, the build of the index at unlock,
  and the queries, of which only a reveal touches a secret ciphertext. The keys come through
  the interface of the vault service; every committed change re-stamps the vault-state root
  in its own transaction.
\<close>

section \<open>State and helpers\<close>

record index_mem =
  rec_index :: index

type_synonym ('b, 'a) rsys = "('b index_mem_scheme, 'a) vsys_scheme"

definition with_index :: "(index \<Rightarrow> index) \<Rightarrow> (('b, 'a) rsys, err, unit) prog" where
  "with_index f = mmodify (\<lambda>s. s\<lparr>mem := (mem s)\<lparr>rec_index := f (rec_index (mem s))\<rparr>\<rparr>)"

definition the_index :: "(('b, 'a) rsys, err, index) prog" where
  "the_index = mget (\<lambda>s. rec_index (mem s))"

text \<open>\<^verbatim>\<open>ClearIndex\<close>, the callback the vault runs when it locks.\<close>

definition clear_index :: "'b index_mem_scheme \<Rightarrow> 'b index_mem_scheme" where
  "clear_index m = m\<lparr>rec_index := index_clear (rec_index m)\<rparr>"

definition records_stamp :: "crypto_prims \<Rightarrow> keyring \<Rightarrow> (('m, 'a) vsys_scheme, err, i64) prog" where
  "records_stamp P kr =
     mbind vault_info (\<lambda>(vault_id, _, key_version).
     mbind (mget now) (\<lambda>t. stamp P (k_catalog kr) vault_id key_version t))"

definition note_stamped :: "i64 \<Rightarrow> (('m, 'a) vsys_scheme, err, unit) prog" where
  "note_stamped n = (if sint n > 0 then note_counter n else mreturn ())"

record sealed_record =
  sl_meta_ct :: bytes
  sl_meta_nonce :: bytes
  sl_sec_ct :: bytes
  sl_sec_nonce :: bytes

definition encrypt_record ::
  "crypto_prims \<Rightarrow> json \<Rightarrow> keyring \<Rightarrow> secret_record \<Rightarrow> (('m, 'a) vsys_scheme, err, sealed_record) prog" where
  "encrypt_record P J kr r =
     mbind vault_info (\<lambda>(vault_id, fv, kv).
     let meta_plain = encode_metadata J (rec_type r) (rec_metadata r);
         sec_plain = encode_secret J (rec_secret r) in
     mbind new_nonce (\<lambda>meta_nonce.
     mbind new_nonce (\<lambda>sec_nonce.
     mbind (mlift (seal P (k_metadata kr) meta_nonce meta_plain
             (record_aad vault_id (rec_id r) (rec_revision r) PayloadMetadata fv kv))) (\<lambda>meta_ct.
     mbind (mlift (seal P (k_secret kr) sec_nonce sec_plain
             (record_aad vault_id (rec_id r) (rec_revision r) PayloadSecret fv kv))) (\<lambda>sec_ct.
     mreturn \<lparr>sl_meta_ct = meta_ct, sl_meta_nonce = meta_nonce,
       sl_sec_ct = sec_ct, sl_sec_nonce = sec_nonce\<rparr>)))))"

definition validated :: "secret_record \<Rightarrow> ('s, err, unit) prog" where
  "validated r = (case record_validate r of Some e \<Rightarrow> mthrow e | None \<Rightarrow> mreturn ())"

text \<open>The transaction of an update and of a deletion: a statement that touched no row is not
  stamped, since nothing changed.\<close>

definition stamped_change ::
  "crypto_prims \<Rightarrow> keyring \<Rightarrow> (('m, 'a) vsys_scheme, err, nat) prog \<Rightarrow> (('m, 'a) vsys_scheme, err, nat \<times> i64) prog" where
  "stamped_change P kr act =
     with_tx (
       mbind act (\<lambda>rows.
       if rows = 0 then mreturn (rows, 0)
       else mbind (records_stamp P kr) (\<lambda>stamped. mreturn (rows, stamped))))"

section \<open>Commands\<close>

definition create_record ::
  "crypto_prims \<Rightarrow> json \<Rightarrow> 'w web_scheme \<Rightarrow> record_type \<Rightarrow> record_metadata \<Rightarrow> secret_payload \<Rightarrow>
     (('b, 'a) rsys, err, ident) prog" where
  "create_record P J W ty meta0 secret =
     mbind keys (\<lambda>kr.
     mbind new_id (\<lambda>id_bytes.
     mbind (mget now) (\<lambda>t.
     let i = (case id_from_bytes id_bytes of Inr i \<Rightarrow> i | Inl _ \<Rightarrow> zero_id);
         meta = meta0\<lparr>md_created_at := t, md_updated_at := t\<rparr>;
         r = \<lparr>rec_id = i, rec_type = ty, rec_revision = 1, rec_metadata = meta, rec_secret = secret\<rparr> in
     mbind (validated r) (\<lambda>_.
     mbind (encrypt_record P J kr r) (\<lambda>x.
     mbind vault_info (\<lambda>(_, _, kv).
     mbind (with_tx (
       mbind (insert_record \<lparr>rr_record_id = id_bytes, rr_key_version = ucast kv, rr_revision = 1,
                rr_metadata_nonce = sl_meta_nonce x, rr_metadata_ciphertext = sl_meta_ct x,
                rr_secret_nonce = sl_sec_nonce x, rr_secret_ciphertext = sl_sec_ct x,
                rr_payload_version = payload_version\<rparr>) (\<lambda>_.
       records_stamp P kr))) (\<lambda>stamped.
     mbind (note_stamped stamped) (\<lambda>_.
     mbind (with_index (index_put W \<lparr>ie_id = i, ie_type = ty, ie_revision = 1, ie_metadata = meta\<rparr>)) (\<lambda>_.
     mreturn i)))))))))"

definition update_record_op ::
  "crypto_prims \<Rightarrow> json \<Rightarrow> 'w web_scheme \<Rightarrow> ident \<Rightarrow> u64 \<Rightarrow> record_metadata \<Rightarrow> secret_payload \<Rightarrow>
     (('b, 'a) rsys, err, unit) prog" where
  "update_record_op P J W i expected meta0 secret =
     mbind keys (\<lambda>kr.
     mbind the_index (\<lambda>ix. case index_get ix i of
       None \<Rightarrow> mthrow ErrRecordNotFound
     | Some entry \<Rightarrow>
     mbind (mget now) (\<lambda>t.
     let new_revision = expected + 1;
         meta = meta0\<lparr>md_created_at := md_created_at (ie_metadata entry), md_updated_at := t\<rparr>;
         r = \<lparr>rec_id = i, rec_type = ie_type entry, rec_revision = new_revision,
              rec_metadata = meta, rec_secret = secret\<rparr> in
     mbind (validated r) (\<lambda>_.
     mbind (encrypt_record P J kr r) (\<lambda>x.
     mbind (stamped_change P kr (update_record \<lparr>rr_record_id = i, rr_key_version = 0, rr_revision = new_revision,
                rr_metadata_nonce = sl_meta_nonce x, rr_metadata_ciphertext = sl_meta_ct x,
                rr_secret_nonce = sl_sec_nonce x, rr_secret_ciphertext = sl_sec_ct x,
                rr_payload_version = payload_version\<rparr> expected)) (\<lambda>(rows, stamped).
     mbind (mguard (rows \<noteq> 0) ErrRevisionConflict) (\<lambda>_.
     mbind (note_stamped stamped) (\<lambda>_.
     with_index (index_put W \<lparr>ie_id = i, ie_type = ie_type entry, ie_revision = new_revision,
       ie_metadata = meta\<rparr>)))))))))"

definition delete_record_op :: "crypto_prims \<Rightarrow> 'w web_scheme \<Rightarrow> ident \<Rightarrow> (('b, 'a) rsys, err, unit) prog" where
  "delete_record_op P W i =
     mbind keys (\<lambda>kr.
     mbind (stamped_change P kr (delete_record i)) (\<lambda>(rows, stamped).
     mbind (mguard (rows \<noteq> 0) ErrRecordNotFound) (\<lambda>_.
     mbind (note_stamped stamped) (\<lambda>_.
     with_index (index_remove W i)))))"

section \<open>Queries\<close>

definition open_metadata ::
  "crypto_prims \<Rightarrow> keyring \<Rightarrow> bytes \<Rightarrow> u32 \<Rightarrow> record_row \<Rightarrow> err + bytes" where
  "open_metadata P kr vault_id fv row =
     open_box P (k_metadata kr) (rr_metadata_nonce row) (rr_metadata_ciphertext row)
       (record_aad vault_id (rr_record_id row) (rr_revision row) PayloadMetadata fv (ucast (rr_key_version row)))"

definition open_secret ::
  "crypto_prims \<Rightarrow> keyring \<Rightarrow> bytes \<Rightarrow> u32 \<Rightarrow> record_row \<Rightarrow> err + bytes" where
  "open_secret P kr vault_id fv row =
     open_box P (k_secret kr) (rr_secret_nonce row) (rr_secret_ciphertext row)
       (record_aad vault_id (rr_record_id row) (rr_revision row) PayloadSecret fv (ucast (rr_key_version row)))"

definition load_row ::
  "crypto_prims \<Rightarrow> json \<Rightarrow> 'w web_scheme \<Rightarrow> keyring \<Rightarrow> bytes \<Rightarrow> u32 \<Rightarrow> record_row \<Rightarrow> (('b, 'a) rsys, err, unit) prog" where
  "load_row P J W kr vault_id fv row =
     (case id_from_bytes (rr_record_id row) of
        Inl _ \<Rightarrow> mthrow ErrIntegrityFailure
      | Inr i \<Rightarrow>
          (case sbind (open_metadata P kr vault_id fv row) (decode_metadata W J) of
             Inl _ \<Rightarrow> mbind (with_index index_clear) (\<lambda>_. mthrow ErrIntegrityFailure)
           | Inr (ty, meta) \<Rightarrow>
               with_index (index_put W \<lparr>ie_id = i, ie_type = ty, ie_revision = rr_revision row,
                 ie_metadata = meta\<rparr>)))"

definition load_index :: "crypto_prims \<Rightarrow> json \<Rightarrow> 'w web_scheme \<Rightarrow> (('b, 'a) rsys, err, unit) prog" where
  "load_index P J W =
     mbind keys (\<lambda>kr.
     mbind vault_info (\<lambda>(vault_id, fv, _).
     mbind list_records (\<lambda>rows.
     mbind (with_index index_clear) (\<lambda>_.
     mfor rows (load_row P J W kr vault_id fv)))))"

definition list_entries :: "(('b, 'a) rsys, err, index_entry list) prog" where
  "list_entries = mbind keys (\<lambda>_. mbind the_index (\<lambda>ix. mreturn (index_all ix)))"

definition search_entries :: "'w web_scheme \<Rightarrow> string \<Rightarrow> (('b, 'a) rsys, err, index_entry list) prog" where
  "search_entries W query = mbind keys (\<lambda>_. mbind the_index (\<lambda>ix. mreturn (index_search W query ix)))"

definition match_entries ::
  "'w web_scheme \<Rightarrow> string \<Rightarrow> string \<Rightarrow> (('b, 'a) rsys, err, (index_entry \<times> match_reason) list) prog" where
  "match_entries W raw_origin pid =
     mbind keys (\<lambda>_.
     mbind (mlift (parse_origin W raw_origin)) (\<lambda>page.
     mbind the_index (\<lambda>ix. mreturn (index_match W page pid ix))))"

definition show_entry :: "ident \<Rightarrow> (('b, 'a) rsys, err, index_entry) prog" where
  "show_entry i =
     mbind keys (\<lambda>_.
     mbind the_index (\<lambda>ix. case index_get ix i of
       None \<Rightarrow> mthrow ErrRecordNotFound
     | Some e \<Rightarrow> mreturn e))"

definition resolve_entry :: "'w web_scheme \<Rightarrow> string \<Rightarrow> (('b, 'a) rsys, err, index_entry) prog" where
  "resolve_entry W ref =
     mbind keys (\<lambda>_.
     mbind the_index (\<lambda>ix.
     case (case id_from_string ref of Inr i \<Rightarrow> index_get ix i | Inl _ \<Rightarrow> None) of
       Some e \<Rightarrow> mreturn e
     | None \<Rightarrow>
         (case index_search W ref ix of
            [e] \<Rightarrow> mreturn e
          | _ \<Rightarrow> mthrow ErrRecordNotFound)))"

definition reveal :: "crypto_prims \<Rightarrow> json \<Rightarrow> ident \<Rightarrow> (('b, 'a) rsys, err, secret_payload) prog" where
  "reveal P J i =
     mbind keys (\<lambda>kr.
     mbind vault_info (\<lambda>(vault_id, fv, _).
     mbind (replace_error ErrRecordNotFound (get_record i)) (\<lambda>row.
     mbind (replace_error ErrIntegrityFailure (mlift (open_secret P kr vault_id fv row))) (\<lambda>plain.
     replace_error ErrIntegrityFailure (mlift (decode_secret J plain))))))"

definition reveal_for_origin ::
  "crypto_prims \<Rightarrow> json \<Rightarrow> 'w web_scheme \<Rightarrow> ident \<Rightarrow> string \<Rightarrow> string \<Rightarrow> (('b, 'a) rsys, err, secret_payload) prog" where
  "reveal_for_origin P J W i raw_origin pid =
     mbind keys (\<lambda>_.
     mbind (mlift (parse_origin W raw_origin)) (\<lambda>page.
     mbind (mguard (is_secure page \<or> is_loopback W page) ErrAuthorizationDeny) (\<lambda>_.
     mbind the_index (\<lambda>ix. case index_get ix i of
       None \<Rightarrow> mthrow ErrRecordNotFound
     | Some e \<Rightarrow>
         mbind (mguard (matches_origin (ie_metadata e) page \<or>
                  matches_project_id W (ie_metadata e) page pid) ErrAuthorizationDeny) (\<lambda>_.
         reveal P J i)))))"

section \<open>A locked vault does nothing\<close>

lemma locked_records:
  assumes "\<not> has_keys s"
  shows "create_record P J W ty meta sec s = (Inl ErrVaultLocked, s)"
    "update_record_op P J W i n meta sec s = (Inl ErrVaultLocked, s)"
    "delete_record_op P W i s = (Inl ErrVaultLocked, s)"
    "load_index P J W s = (Inl ErrVaultLocked, s)"
    "list_entries s = (Inl ErrVaultLocked, s)" "search_entries W q s = (Inl ErrVaultLocked, s)"
    "match_entries W q pid s = (Inl ErrVaultLocked, s)" "show_entry i s = (Inl ErrVaultLocked, s)"
    "resolve_entry W q s = (Inl ErrVaultLocked, s)" "reveal P J i s = (Inl ErrVaultLocked, s)"
    "reveal_for_origin P J W i q pid s = (Inl ErrVaultLocked, s)"
  unfolding create_record_def update_record_op_def delete_record_op_def load_index_def list_entries_def
    search_entries_def match_entries_def show_entry_def resolve_entry_def reveal_def reveal_for_origin_def
  by (simp_all add: vault_keys.closed_does_nothing [OF assms])

section \<open>Steps\<close>

lemma with_index_eq [prog_simps]:
  "with_index f s = (Inr (), s\<lparr>mem := (mem s)\<lparr>rec_index := f (rec_index (mem s))\<rparr>\<rparr>)"
  by (simp add: with_index_def prog_simps)

lemma the_index_eq [prog_simps]: "the_index s = (Inr (rec_index (mem s)), s)"
  by (simp add: the_index_def prog_simps)

lemma validated_Inr_iff [prog_simps]: "validated r s = (Inr u, t) \<longleftrightarrow> record_validate r = None \<and> t = s"
  by (auto simp: validated_def prog_simps split: option.splits)

lemma fixed_validated [intro]: "obeys (same_on fixed) (validated r)"
  unfolding validated_def by (intro same.ok_intros)

lemma fixed_encrypt [intro]: "obeys (same_on fixed) (encrypt_record P J kr r)"
  unfolding encrypt_record_def Let_def by (intro same.ok_intros fixed_vault_info fixed_new)

lemma fixed_records_stamp [intro]: "obeys (same_on fixed) (records_stamp P kr)"
  unfolding records_stamp_def by (intro same.ok_intros fixed_vault_info fixed_stamp)

lemma encrypt_record_Inr:
  assumes "encrypt_record P J kr r s = (Inr x, t)"
  shows "length (sl_meta_nonce x) = 24 \<and> length (sl_sec_nonce x) = 24 \<and> loaded s \<and>
    seal P (k_metadata kr) (sl_meta_nonce x) (encode_metadata J (rec_type r) (rec_metadata r))
      (record_aad (v_id (vault s)) (rec_id r) (rec_revision r) PayloadMetadata
        (v_format_version (vault s)) (v_active_envelope_version (vault s))) = Inr (sl_meta_ct x) \<and>
    seal P (k_secret kr) (sl_sec_nonce x) (encode_secret J (rec_secret r))
      (record_aad (v_id (vault s)) (rec_id r) (rec_revision r) PayloadSecret
        (v_format_version (vault s)) (v_active_envelope_version (vault s))) = Inr (sl_sec_ct x) \<and>
    db t = db s \<and> io_pos t = io_pos s"
  using assms
  by (auto simp: encrypt_record_def mbind_Inr_iff prog_simps new_defs Let_def dest!: random_bytes_Inr)

lemma records_stamp_Inr:
  assumes "records_stamp P kr s = (Inr n, t)"
  shows "loaded s \<and> stamp P (k_catalog kr) (v_id (vault s)) (v_active_envelope_version (vault s)) (now s) s = (Inr n, t)"
  using assms by (auto simp: records_stamp_def mbind_Inr_iff prog_simps)

text \<open>The transaction every change ends in: what the body did to the rows, and the new anchor.\<close>

lemma records_stamp_db:
  assumes "records_stamp P kr s = (Inr n, t)"
  shows "t_records (db t) = t_records (db s) \<and> t_clients (db t) = t_clients (db s) \<and>
    t_envelopes (db t) = t_envelopes (db s) \<and> t_vault (db t) = t_vault (db s) \<and>
    service_anchored P kr (vault s) (db t) \<and> n = next_counter (t_state (db s)) \<and>
    (\<exists>st. t_state (db t) = Some st \<and> st_state_counter st = n) \<and>
    sint n = (case t_state (db s) of None \<Rightarrow> 1 | Some st \<Rightarrow> sint (st_state_counter st) + 1)"
proof -
  note st = conjunct2 [OF records_stamp_Inr [OF assms]]
  show ?thesis using stamp_Inr [OF st] stamp_anchored [OF st] stamp_counter [OF st] by auto
qed

lemma note_stamped_Inr:
  "note_stamped n s = (Inr u, t) \<Longrightarrow>
     t = s\<lparr>catalog_high_water := (if sint n > 0 \<and> sint n > sint (catalog_high_water s) then n else catalog_high_water s)\<rparr>"
  by (auto simp: note_stamped_def note_counter_def prog_simps split: if_splits)

section \<open>Creation\<close>

lemma create_record_Inr:
  assumes "create_record P J W ty meta sec s = (Inr i, t)"
  shows "\<exists>kr (x :: sealed_record) n. is_unlocked (vault s) \<and> keyring s = Some kr \<and> loaded s \<and> length i = 16 \<and>
    record_validate \<lparr>rec_id = i, rec_type = ty, rec_revision = 1,
      rec_metadata = meta\<lparr>md_created_at := now s, md_updated_at := now s\<rparr>, rec_secret = sec\<rparr> = None \<and>
    seal P (k_metadata kr) (sl_meta_nonce x) (encode_metadata J ty (meta\<lparr>md_created_at := now s, md_updated_at := now s\<rparr>))
      (record_aad (v_id (vault s)) i 1 PayloadMetadata (v_format_version (vault s)) (v_active_envelope_version (vault s))) = Inr (sl_meta_ct x) \<and>
    seal P (k_secret kr) (sl_sec_nonce x) (encode_secret J sec)
      (record_aad (v_id (vault s)) i 1 PayloadSecret (v_format_version (vault s)) (v_active_envelope_version (vault s))) = Inr (sl_sec_ct x) \<and>
    pk_insert rr_record_id record_check \<lparr>rr_record_id = i, rr_key_version = ucast (v_active_envelope_version (vault s)),
      rr_revision = 1, rr_metadata_nonce = sl_meta_nonce x, rr_metadata_ciphertext = sl_meta_ct x,
      rr_secret_nonce = sl_sec_nonce x, rr_secret_ciphertext = sl_sec_ct x,
      rr_payload_version = payload_version\<rparr> (t_records (db s)) = Inr (t_records (db t)) \<and>
    t_clients (db t) = t_clients (db s) \<and> t_envelopes (db t) = t_envelopes (db s) \<and> t_vault (db t) = t_vault (db s) \<and> service_anchored P kr (vault s) (db t) \<and>
    n = next_counter (t_state (db s)) \<and> (\<exists>st. t_state (db t) = Some st \<and> st_state_counter st = n) \<and>
    (0 < sint n \<longrightarrow> sint n \<le> sint (catalog_high_water t)) \<and>
    vault t = vault s \<and> keyring t = keyring s \<and> loaded t \<and> env_fixed t = env_fixed s \<and>
    mem t = (mem s)\<lparr>rec_index := index_put W \<lparr>ie_id = i, ie_type = ty, ie_revision = 1,
      ie_metadata = meta\<lparr>md_created_at := now s, md_updated_at := now s\<rparr>\<rparr> (rec_index (mem s))\<rparr>"
proof -
  from assms obtain kr id_bytes s1 x s2 s3 n s4 where k: "is_unlocked (vault s)" "keyring s = Some kr"
    and new: "new_id s = (Inr id_bytes, s1)"
    and i: "i = (case id_from_bytes id_bytes of Inr i \<Rightarrow> i | Inl _ \<Rightarrow> zero_id)"
    and v: "record_validate \<lparr>rec_id = i, rec_type = ty, rec_revision = 1,
      rec_metadata = meta\<lparr>md_created_at := now s1, md_updated_at := now s1\<rparr>, rec_secret = sec\<rparr> = None"
    and e: "encrypt_record P J kr \<lparr>rec_id = i, rec_type = ty, rec_revision = 1,
      rec_metadata = meta\<lparr>md_created_at := now s1, md_updated_at := now s1\<rparr>, rec_secret = sec\<rparr> s1 = (Inr x, s2)"
    and tx: "with_tx (
       mbind (insert_record \<lparr>rr_record_id = id_bytes, rr_key_version = ucast (v_active_envelope_version (vault s2)), rr_revision = 1,
                rr_metadata_nonce = sl_meta_nonce x, rr_metadata_ciphertext = sl_meta_ct x,
                rr_secret_nonce = sl_sec_nonce x, rr_secret_ciphertext = sl_sec_ct x,
                rr_payload_version = payload_version\<rparr>) (\<lambda>_.
       records_stamp P kr)) s2 = (Inr n, s3)"
    and n: "note_stamped n s3 = (Inr (), s4)"
    and t: "t = s4\<lparr>mem := (mem s4)\<lparr>rec_index := index_put W \<lparr>ie_id = i, ie_type = ty, ie_revision = 1,
            ie_metadata = meta\<lparr>md_created_at := now s1, md_updated_at := now s1\<rparr>\<rparr> (rec_index (mem s4))\<rparr>\<rparr>"
    by (auto simp: create_record_def mbind_Inr_iff prog_simps Let_def)
  have id: "i = id_bytes" "length id_bytes = 16" "db s1 = db s"
    using new i by (auto simp: new_id_def dest!: random_bytes_Inr)
  have f1: "fixed s1 = fixed s" by (rule same_okD [OF fixed_new(1) new])
  have f2: "fixed s2 = fixed s1" by (rule same_okD [OF fixed_encrypt e])
  have "obeys (same_on fixed) (with_tx (
       mbind (insert_record \<lparr>rr_record_id = id_bytes, rr_key_version = ucast (v_active_envelope_version (vault s2)), rr_revision = 1,
                rr_metadata_nonce = sl_meta_nonce x, rr_metadata_ciphertext = sl_meta_ct x,
                rr_secret_nonce = sl_sec_nonce x, rr_secret_ciphertext = sl_sec_ct x,
                rr_payload_version = payload_version\<rparr>) (\<lambda>_.
       records_stamp P kr)) :: ('a, 'b) rsys \<Rightarrow> _)"
    by (intro fixed_tx same.ok_bind fixed_commands fixed_records_stamp)
  from same_okD [OF this tx] f1 f2 have f3: "fixed s3 = fixed s" by simp
  have vs: "vault s1 = vault s" "vault s2 = vault s" "vault s3 = vault s" "now s1 = now s" "mem s3 = mem s"
    "catalog_high_water s3 = catalog_high_water s" "loaded s1 = loaded s"
    using f1 f2 f3 more_vsys [of s1 s] more_vsys [of s2 s] more_vsys [of s3 s] by (simp_all add: fixed_def)
  note x = encrypt_record_Inr [OF e]
  from tx obtain w y where w: "insert_record \<lparr>rr_record_id = id_bytes, rr_key_version = ucast (v_active_envelope_version (vault s2)), rr_revision = 1,
                rr_metadata_nonce = sl_meta_nonce x, rr_metadata_ciphertext = sl_meta_ct x,
                rr_secret_nonce = sl_sec_nonce x, rr_secret_ciphertext = sl_sec_ct x,
                rr_payload_version = payload_version\<rparr> (s2\<lparr>io_pos := Suc (io_pos s2)\<rparr>) = (Inr (), w)"
    and st: "records_stamp P kr w = (Inr n, y)" and s3: "s3 = y\<lparr>io_pos := Suc (io_pos y)\<rparr>"
    by (auto simp: with_tx_Inr_iff mbind_Inr_iff)
  have vw: "vault w = vault s" using fixedD(6) [OF fixed_commands(5) w] more_vsys [of w s2] vs by simp
  note sd = records_stamp_db [OF st, unfolded vw]
  have ins: "pk_insert rr_record_id record_check \<lparr>rr_record_id = i, rr_key_version = ucast (v_active_envelope_version (vault s)),
      rr_revision = 1, rr_metadata_nonce = sl_meta_nonce x, rr_metadata_ciphertext = sl_meta_ct x,
      rr_secret_nonce = sl_sec_nonce x, rr_secret_ciphertext = sl_sec_ct x,
      rr_payload_version = payload_version\<rparr> (t_records (db s)) = Inr (t_records (db w)) \<and>
      t_clients (db w) = t_clients (db s) \<and> t_envelopes (db w) = t_envelopes (db s) \<and> t_vault (db w) = t_vault (db s) \<and> t_state (db w) = t_state (db s)"
    using w x id vs by (auto simp: insert_record_def prog_simps sbind_Inr_iff)
  note s4 = note_stamped_Inr [OF n]
  have tt: "t = s3\<lparr>catalog_high_water := (if sint n > 0 \<and> sint n > sint (catalog_high_water s) then n else catalog_high_water s),
          mem := (mem s)\<lparr>rec_index := index_put W \<lparr>ie_id = i, ie_type = ty, ie_revision = 1,
            ie_metadata = meta\<lparr>md_created_at := now s, md_updated_at := now s\<rparr>\<rparr> (rec_index (mem s))\<rparr>\<rparr>"
    unfolding t s4 by (simp add: vs)
  have dt: "db s3 = db t" "db t = db y" by (simp_all add: tt s3)
  have st: "vault t = vault s" "keyring t = keyring s" "loaded t = loaded s" "env_fixed t = env_fixed s"
    "mem t = (mem s)\<lparr>rec_index := index_put W \<lparr>ie_id = i, ie_type = ty, ie_revision = 1,
      ie_metadata = meta\<lparr>md_created_at := now s, md_updated_at := now s\<rparr>\<rparr> (rec_index (mem s))\<rparr>"
    using f3 more_vsys [of s3 s] by (simp_all add: tt fixed_def env_fixed_def)
  have hw: "0 < sint n \<longrightarrow> sint n \<le> sint (catalog_high_water t)" by (simp add: tt)
  show ?thesis
    using k id v x ins sd vs dt st hw
    by (intro exI [of _ kr] exI [of _ x] exI [of _ n] conjI) auto
qed

lemma create_recordE:
  assumes "create_record P J W ty meta sec s = (Inr i, t)"
  obtains kr and x :: sealed_record where "is_unlocked (vault s)" "keyring s = Some kr" "loaded s"
    "seal P (k_secret kr) (sl_sec_nonce x) (encode_secret J sec)
      (record_aad (v_id (vault s)) i 1 PayloadSecret (v_format_version (vault s)) (v_active_envelope_version (vault s))) = Inr (sl_sec_ct x)"
    "pk_insert rr_record_id record_check \<lparr>rr_record_id = i, rr_key_version = ucast (v_active_envelope_version (vault s)),
      rr_revision = 1, rr_metadata_nonce = sl_meta_nonce x, rr_metadata_ciphertext = sl_meta_ct x,
      rr_secret_nonce = sl_sec_nonce x, rr_secret_ciphertext = sl_sec_ct x,
      rr_payload_version = payload_version\<rparr> (t_records (db s)) = Inr (t_records (db t))"
    "vault t = vault s" "keyring t = keyring s" "loaded t" "env_fixed t = env_fixed s"
  using create_record_Inr [OF assms] by (elim exE conjE) (rule that; assumption)

section \<open>Update and deletion\<close>

lemma stamped_change_Inr:
  assumes "stamped_change P kr act s = (Inr (rows, n), t)" and f: "obeys (same_on fixed) act"
  shows "\<exists>w. act (s\<lparr>io_pos := Suc (io_pos s)\<rparr>) = (Inr rows, w) \<and> fixed t = fixed s \<and>
    t_records (db t) = t_records (db w) \<and> t_clients (db t) = t_clients (db w) \<and>
    t_envelopes (db t) = t_envelopes (db w) \<and>
    (if rows = 0 then db t = db w \<and> n = 0
     else service_anchored P kr (vault s) (db t) \<and> n = next_counter (t_state (db w)) \<and>
       (\<exists>st. t_state (db t) = Some st \<and> st_state_counter st = n) \<and>
       sint n = (case t_state (db w) of None \<Rightarrow> 1 | Some st \<Rightarrow> sint (st_state_counter st) + 1))"
proof -
  have "obeys (same_on fixed) (stamped_change P kr act)"
    unfolding stamped_change_def by (intro fixed_tx same.ok_intros f fixed_records_stamp)
  from same_okD [OF this assms(1)] have ft: "fixed t = fixed s" .
  from assms(1) obtain r w y where w0: "act (s\<lparr>io_pos := Suc (io_pos s)\<rparr>) = (Inr r, w)"
    and y0: "(if r = 0 then mreturn (r, 0) else mbind (records_stamp P kr) (\<lambda>stamped. mreturn (r, stamped))) w = (Inr (rows, n), y)"
    and t: "t = y\<lparr>io_pos := Suc (io_pos y)\<rparr>"
    unfolding stamped_change_def with_tx_Inr_iff mbind_Inr_iff [where m = act] by blast
  have r: "r = rows" using y0 by (auto simp: mbind_Inr_iff prog_simps split: if_splits)
  note w = w0 [unfolded r] and y = y0 [unfolded r]
  have vw: "vault w = vault s" using fixedD(6) [OF f w] more_vsys [of w s] by simp
  show ?thesis
  proof (cases "rows = 0")
    case True
    with y t w ft show ?thesis by (auto simp: prog_simps)
  next
    case False
    with y have st: "records_stamp P kr w = (Inr n, y)" by (auto simp: mbind_Inr_iff prog_simps)
    from records_stamp_db [OF st, unfolded vw] False t w ft show ?thesis by auto
  qed
qed

lemma update_record_Inr:
  "update_record p expected s = (Inr n, t) \<Longrightarrow>
     n = length (filter (\<lambda>r. rr_record_id r = rr_record_id p \<and> rr_revision r = expected) (t_records (db s))) \<and>
     db t = (db s)\<lparr>t_records := map (\<lambda>r.
       if rr_record_id r = rr_record_id p \<and> rr_revision r = expected
       then r\<lparr>rr_revision := rr_revision p, rr_metadata_nonce := rr_metadata_nonce p,
              rr_metadata_ciphertext := rr_metadata_ciphertext p, rr_secret_nonce := rr_secret_nonce p,
              rr_secret_ciphertext := rr_secret_ciphertext p, rr_payload_version := rr_payload_version p\<rparr>
       else r) (t_records (db s))\<rparr>"
  by (auto simp: update_record_def prog_simps sbind_Inr_iff pk_update_def split: if_splits)

text \<open>The row an update leaves: everything is new but the identifier and the key version.\<close>

definition updated_row :: "sealed_record \<Rightarrow> u64 \<Rightarrow> record_row \<Rightarrow> record_row" where
  "updated_row x n r = r\<lparr>rr_revision := n, rr_metadata_nonce := sl_meta_nonce x,
     rr_metadata_ciphertext := sl_meta_ct x, rr_secret_nonce := sl_sec_nonce x,
     rr_secret_ciphertext := sl_sec_ct x, rr_payload_version := payload_version\<rparr>"

lemma update_record_op_Inr:
  assumes "update_record_op P J W i expected meta sec s = (Inr (), t)"
  shows "\<exists>kr entry meta' (x :: sealed_record) n. is_unlocked (vault s) \<and> keyring s = Some kr \<and> loaded s \<and>
    index_get (rec_index (mem s)) i = Some entry \<and>
    meta' = meta\<lparr>md_created_at := md_created_at (ie_metadata entry), md_updated_at := now s\<rparr> \<and>
    seal P (k_metadata kr) (sl_meta_nonce x) (encode_metadata J (ie_type entry) meta')
      (record_aad (v_id (vault s)) i (expected + 1) PayloadMetadata (v_format_version (vault s)) (v_active_envelope_version (vault s))) = Inr (sl_meta_ct x) \<and>
    seal P (k_secret kr) (sl_sec_nonce x) (encode_secret J sec)
      (record_aad (v_id (vault s)) i (expected + 1) PayloadSecret (v_format_version (vault s)) (v_active_envelope_version (vault s))) = Inr (sl_sec_ct x) \<and>
    (\<exists>r \<in> set (t_records (db s)). rr_record_id r = i \<and> rr_revision r = expected) \<and>
    t_records (db t) = map (\<lambda>r. if rr_record_id r = i \<and> rr_revision r = expected
      then updated_row x (expected + 1) r else r) (t_records (db s)) \<and>
    t_clients (db t) = t_clients (db s) \<and> t_envelopes (db t) = t_envelopes (db s) \<and>
    service_anchored P kr (vault s) (db t) \<and>
    n = next_counter (t_state (db s)) \<and> (\<exists>st. t_state (db t) = Some st \<and> st_state_counter st = n) \<and>
    (0 < sint n \<longrightarrow> sint n \<le> sint (catalog_high_water t)) \<and>
    vault t = vault s \<and> keyring t = keyring s \<and> loaded t \<and> env_fixed t = env_fixed s \<and>
    mem t = (mem s)\<lparr>rec_index := index_put W \<lparr>ie_id = i, ie_type = ie_type entry,
      ie_revision = expected + 1, ie_metadata = meta'\<rparr> (rec_index (mem s))\<rparr>"
proof -
  let ?row = "\<lambda>x :: sealed_record. \<lparr>rr_record_id = i, rr_key_version = 0, rr_revision = expected + 1,
                rr_metadata_nonce = sl_meta_nonce x, rr_metadata_ciphertext = sl_meta_ct x,
                rr_secret_nonce = sl_sec_nonce x, rr_secret_ciphertext = sl_sec_ct x,
                rr_payload_version = payload_version\<rparr>"
  from assms obtain kr entry x s2 rows n s3 s4 where k: "is_unlocked (vault s)" "keyring s = Some kr"
    and en: "index_get (rec_index (mem s)) i = Some entry"
    and e: "encrypt_record P J kr \<lparr>rec_id = i, rec_type = ie_type entry, rec_revision = expected + 1,
      rec_metadata = meta\<lparr>md_created_at := md_created_at (ie_metadata entry), md_updated_at := now s\<rparr>, rec_secret = sec\<rparr> s = (Inr x, s2)"
    and tx: "stamped_change P kr (update_record (?row x) expected) s2 = (Inr (rows, n), s3)"
    and rows: "rows \<noteq> 0"
    and n: "note_stamped n s3 = (Inr (), s4)"
    and t: "t = s4\<lparr>mem := (mem s4)\<lparr>rec_index := index_put W \<lparr>ie_id = i, ie_type = ie_type entry, ie_revision = expected + 1,
            ie_metadata = meta\<lparr>md_created_at := md_created_at (ie_metadata entry), md_updated_at := now s\<rparr>\<rparr> (rec_index (mem s4))\<rparr>\<rparr>"
    by (auto simp: update_record_op_def mbind_Inr_iff prog_simps Let_def split: option.splits if_splits)
  note x = encrypt_record_Inr [OF e]
  have f2: "fixed s2 = fixed s" by (rule same_okD [OF fixed_encrypt e])
  from stamped_change_Inr [OF tx fixed_commands(6)] obtain w where
    w: "update_record (?row x) expected (s2\<lparr>io_pos := Suc (io_pos s2)\<rparr>) = (Inr rows, w)"
    and f3: "fixed s3 = fixed s2" and rec: "t_records (db s3) = t_records (db w)" "t_clients (db s3) = t_clients (db w)" "t_envelopes (db s3) = t_envelopes (db w)"
    and an: "service_anchored P kr (vault s2) (db s3)" "n = next_counter (t_state (db w))"
      "\<exists>st. t_state (db s3) = Some st \<and> st_state_counter st = n"
      "sint n = (case t_state (db w) of None \<Rightarrow> 1 | Some st \<Rightarrow> sint (st_state_counter st) + 1)"
    using rows by auto
  have vs: "vault s2 = vault s" "vault s3 = vault s" "mem s3 = mem s" "keyring s3 = keyring s" "loaded s3 = loaded s"
    "env_fixed s3 = env_fixed s"
    using f2 f3 more_vsys [of s2 s] more_vsys [of s3 s] by (simp_all add: fixed_def env_fixed_def)
  note u = update_record_Inr [OF w]
  have dw: "t_records (db w) = map (\<lambda>r. if rr_record_id r = i \<and> rr_revision r = expected
      then updated_row x (expected + 1) r else r) (t_records (db s))" "t_state (db w) = t_state (db s)" "t_clients (db w) = t_clients (db s)" "t_envelopes (db w) = t_envelopes (db s)"
    using u x by (simp_all add: updated_row_def)
  have ex: "\<exists>r \<in> set (t_records (db s)). rr_record_id r = i \<and> rr_revision r = expected"
    using u x rows by (auto simp: filter_empty_conv)
  note s4 = note_stamped_Inr [OF n]
  have st: "db t = db s3" "vault t = vault s" "keyring t = keyring s" "loaded t = loaded s" "env_fixed t = env_fixed s"
    "mem t = (mem s)\<lparr>rec_index := index_put W \<lparr>ie_id = i, ie_type = ie_type entry, ie_revision = expected + 1,
            ie_metadata = meta\<lparr>md_created_at := md_created_at (ie_metadata entry), md_updated_at := now s\<rparr>\<rparr> (rec_index (mem s))\<rparr>"
    by (simp_all add: t s4 vs)
  have hw: "0 < sint n \<longrightarrow> sint n \<le> sint (catalog_high_water t)"
    by (simp add: t s4)
  show ?thesis
    using k en x ex dw rec an st vs hw by (intro exI [of _ kr] exI [of _ entry] exI [of _ x] exI [of _ n] conjI
      exI [of _ "meta\<lparr>md_created_at := md_created_at (ie_metadata entry), md_updated_at := now s\<rparr>"])
      (simp_all split del: if_split)
qed

lemma update_record_opE:
  assumes "update_record_op P J W i n meta sec s = (Inr (), t)"
  obtains kr meta' and entry :: index_entry and x :: sealed_record where "is_unlocked (vault s)" "keyring s = Some kr"
    "seal P (k_metadata kr) (sl_meta_nonce x) (encode_metadata J (ie_type entry) meta')
      (record_aad (v_id (vault s)) i (n + 1) PayloadMetadata (v_format_version (vault s)) (v_active_envelope_version (vault s))) = Inr (sl_meta_ct x)"
    "seal P (k_secret kr) (sl_sec_nonce x) (encode_secret J sec)
      (record_aad (v_id (vault s)) i (n + 1) PayloadSecret (v_format_version (vault s)) (v_active_envelope_version (vault s))) = Inr (sl_sec_ct x)"
    "t_records (db t) = map (\<lambda>r. if rr_record_id r = i \<and> rr_revision r = n
      then updated_row x (n + 1) r else r) (t_records (db s))"
    "vault t = vault s" "keyring t = keyring s" "loaded t" "env_fixed t = env_fixed s"
  using update_record_op_Inr [OF assms] by (elim exE conjE) (rule that; assumption)

lemma delete_record_op_Inr:
  assumes "delete_record_op P W i s = (Inr (), t)"
  shows "\<exists>kr n. is_unlocked (vault s) \<and> keyring s = Some kr \<and> loaded s \<and>
    i \<in> rr_record_id ` set (t_records (db s)) \<and>
    t_records (db t) = filter (\<lambda>r. rr_record_id r \<noteq> i) (t_records (db s)) \<and>
    service_anchored P kr (vault s) (db t) \<and>
    n = next_counter (t_state (db s)) \<and> (\<exists>st. t_state (db t) = Some st \<and> st_state_counter st = n) \<and>
    (0 < sint n \<longrightarrow> sint n \<le> sint (catalog_high_water t)) \<and>
    vault t = vault s \<and> keyring t = keyring s \<and> loaded t \<and> env_fixed t = env_fixed s \<and>
    mem t = (mem s)\<lparr>rec_index := index_remove W i (rec_index (mem s))\<rparr>"
proof -
  from assms obtain kr rows n s3 s4 where k: "is_unlocked (vault s)" "keyring s = Some kr"
    and tx: "stamped_change P kr (delete_record i) s = (Inr (rows, n), s3)"
    and rows: "rows \<noteq> 0"
    and n: "note_stamped n s3 = (Inr (), s4)"
    and t: "t = s4\<lparr>mem := (mem s4)\<lparr>rec_index := index_remove W i (rec_index (mem s4))\<rparr>\<rparr>"
    by (auto simp: delete_record_op_def mbind_Inr_iff prog_simps split: if_splits)
  from stamped_change_Inr [OF tx fixed_commands(7)] obtain w where
    w: "delete_record i (s\<lparr>io_pos := Suc (io_pos s)\<rparr>) = (Inr rows, w)"
    and f3: "fixed s3 = fixed s" and rec: "t_records (db s3) = t_records (db w)"
    and an: "service_anchored P kr (vault s) (db s3)" "n = next_counter (t_state (db w))"
      "\<exists>st. t_state (db s3) = Some st \<and> st_state_counter st = n"
    using rows by auto
  have vs: "vault s3 = vault s" "mem s3 = mem s" "keyring s3 = keyring s" "loaded s3 = loaded s"
    "env_fixed s3 = env_fixed s"
    using f3 more_vsys [of s3 s] by (simp_all add: fixed_def env_fixed_def)
  have dw: "t_records (db w) = filter (\<lambda>r. rr_record_id r \<noteq> i) (t_records (db s))" "t_state (db w) = t_state (db s)"
    "rows = length (filter (\<lambda>r. rr_record_id r = i) (t_records (db s)))"
    using w by (auto simp: delete_record_def prog_simps pk_delete_def Let_def)
  have ex: "i \<in> rr_record_id ` set (t_records (db s))"
    using dw(3) rows by (auto simp: filter_empty_conv)
  have ld: "loaded s"
  proof -
    from tx rows obtain w y where "records_stamp P kr w = (Inr n, y)" "delete_record i (s\<lparr>io_pos := Suc (io_pos s)\<rparr>) = (Inr rows, w)"
      by (auto simp: stamped_change_def with_tx_Inr_iff mbind_Inr_iff prog_simps split: if_splits)
    then show ?thesis using records_stamp_Inr fixedD(6) [OF fixed_commands(7)] more_vsys(2) by fastforce
  qed
  note s4 = note_stamped_Inr [OF n]
  have st: "db t = db s3" "vault t = vault s" "keyring t = keyring s" "loaded t = loaded s" "env_fixed t = env_fixed s"
    "mem t = (mem s)\<lparr>rec_index := index_remove W i (rec_index (mem s))\<rparr>"
    by (simp_all add: t s4 vs)
  have hw: "0 < sint n \<longrightarrow> sint n \<le> sint (catalog_high_water t)"
    by (simp add: t s4)
  show ?thesis
    using k ex dw rec an st hw ld by (intro exI [of _ kr] exI [of _ n] conjI) simp_all
qed

section \<open>Reading back\<close>

lemma reveal_Inr_iff:
  "reveal P J i s = (Inr p, t) \<longleftrightarrow>
     (\<exists>kr row plain. is_unlocked (vault s) \<and> keyring s = Some kr \<and> loaded s \<and> db_open s \<and> io_ok s (io_pos s) \<and>
        pk_find rr_record_id i (t_records (db s)) = Some row \<and>
        open_secret P kr (v_id (vault s)) (v_format_version (vault s)) row = Inr plain \<and>
        decode_secret J plain = Inr p \<and> t = s\<lparr>io_pos := Suc (io_pos s)\<rparr>)"
  by (auto simp: reveal_def mbind_Inr_iff prog_simps get_record_def one_row_def split: option.splits)

lemma reveal_broken:
  assumes "is_unlocked (vault s)" "keyring s = Some kr" "loaded s" "db_open s" "io_ok s (io_pos s)"
    and "pk_find rr_record_id i (t_records (db s)) = Some row"
    and "open_secret P kr (v_id (vault s)) (v_format_version (vault s)) row = Inl e" "e \<noteq> Panic"
  shows "reveal P J i s = (Inl ErrIntegrityFailure, s\<lparr>io_pos := Suc (io_pos s)\<rparr>)"
proof -
  have k: "mbind keys f s = f kr s" for f :: "keyring \<Rightarrow> ('a, 'b) rsys \<Rightarrow> _"
    by (rule mbind_Inr) (simp add: prog_simps assms)
  have v: "mbind vault_info f s = f (v_id (vault s), v_format_version (vault s), v_active_envelope_version (vault s)) s"
    for f :: "_ \<Rightarrow> ('a, 'b) rsys \<Rightarrow> _"
    by (rule mbind_Inr) (simp add: prog_simps assms)
  have g: "mbind (replace_error ErrRecordNotFound (get_record i)) f s = f row (s\<lparr>io_pos := Suc (io_pos s)\<rparr>)"
    for f :: "record_row \<Rightarrow> ('a, 'b) rsys \<Rightarrow> _"
    by (rule mbind_Inr) (simp add: prog_simps get_record_def one_row_def assms)
  have r: "replace_error ErrIntegrityFailure (mlift (Inl e)) u = (Inl ErrIntegrityFailure, u)" for u :: "('a, 'b) rsys"
    by (rule replace_error_Inl [OF _ assms(8)]) (simp add: prog_simps)
  show ?thesis by (simp add: reveal_def k v g assms(7) mbind_Inl [OF r])
qed

lemma locate_updated:
  assumes "pk_find rr_record_id i rows = Some r" and "rr_revision r = n"
  shows "pk_find rr_record_id i (map (\<lambda>r. if rr_record_id r = i \<and> rr_revision r = n then updated_row x m r else r) rows)
    = Some (updated_row x m r)"
proof -
  have "rr_record_id (updated_row x m r) = rr_record_id r" for r by (simp add: updated_row_def)
  then have "pk_find rr_record_id i (map (\<lambda>r. if rr_record_id r = i \<and> rr_revision r = n then updated_row x m r else r) rows) =
    map_option (\<lambda>r. if rr_record_id r = i \<and> rr_revision r = n then updated_row x m r else r) (pk_find rr_record_id i rows)"
    by (rule pk_find_map)
  with assms pk_find_Some [OF assms(1)] show ?thesis by simp
qed

text \<open>A record just created reveals the secret it was created with.\<close>

lemma create_then_reveal:
  assumes "aead_correct P" and "json_faithful J" and "secret_clean sec"
    and "create_record P J W ty meta sec s = (Inr i, t)"
    and "db_open s" and "\<And>n. io_ok s n"
  shows "reveal P J i t = (Inr (sec\<lparr>sp_custom := sort_key fst (sp_custom sec)\<rparr>), t\<lparr>io_pos := Suc (io_pos t)\<rparr>)"
proof -
  from create_recordE [OF assms(4)] obtain kr and x :: sealed_record where k: "is_unlocked (vault s)" "keyring s = Some kr" "loaded s"
    and sl: "seal P (k_secret kr) (sl_sec_nonce x) (encode_secret J sec)
      (record_aad (v_id (vault s)) i 1 PayloadSecret (v_format_version (vault s)) (v_active_envelope_version (vault s))) = Inr (sl_sec_ct x)"
    and ins: "pk_insert rr_record_id record_check \<lparr>rr_record_id = i, rr_key_version = ucast (v_active_envelope_version (vault s)),
      rr_revision = 1, rr_metadata_nonce = sl_meta_nonce x, rr_metadata_ciphertext = sl_meta_ct x,
      rr_secret_nonce = sl_sec_nonce x, rr_secret_ciphertext = sl_sec_ct x,
      rr_payload_version = payload_version\<rparr> (t_records (db s)) = Inr (t_records (db t))" (is "pk_insert _ _ ?row _ = _")
    and t: "vault t = vault s" "keyring t = keyring s" "loaded t" "env_fixed t = env_fixed s" .
  have "pk_find rr_record_id i (t_records (db t)) = Some ?row"
    using pk_find_inserted [OF ins] by simp
  moreover have "open_secret P kr (v_id (vault s)) (v_format_version (vault s)) ?row = Inr (encode_secret J sec)"
    using open_seal [OF assms(1) sl] by (simp add: open_secret_def)
  ultimately show ?thesis
    using k t assms(5,6) decode_encode_secret [OF assms(2,3)]
    by (simp add: reveal_Inr_iff env_fixed_def)
qed

text \<open>
  An update seals under the service's key version and leaves the row's own alone. When the two
  differ (the row is older than the last change of the master password), the row no longer
  opens: revealing it is an integrity failure.
\<close>

lemma update_then_reveal:
  assumes "aead_correct P" and "json_faithful J" and "secret_clean sec"
    and "update_record_op P J W i n meta sec s = (Inr (), t)"
    and "pk_find rr_record_id i (t_records (db s)) = Some r" and "rr_revision r = n"
    and "ucast (rr_key_version r) = v_active_envelope_version (vault s)"
    and "db_open s" and "\<And>n. io_ok s n"
  shows "reveal P J i t = (Inr (sec\<lparr>sp_custom := sort_key fst (sp_custom sec)\<rparr>), t\<lparr>io_pos := Suc (io_pos t)\<rparr>)"
proof -
  from update_record_opE [OF assms(4)] obtain kr meta' and entry :: index_entry and x :: sealed_record where k: "is_unlocked (vault s)" "keyring s = Some kr"
    and ml: "seal P (k_metadata kr) (sl_meta_nonce x) (encode_metadata J (ie_type entry) meta')
      (record_aad (v_id (vault s)) i (n + 1) PayloadMetadata (v_format_version (vault s)) (v_active_envelope_version (vault s))) = Inr (sl_meta_ct x)"
    and sl: "seal P (k_secret kr) (sl_sec_nonce x) (encode_secret J sec)
      (record_aad (v_id (vault s)) i (n + 1) PayloadSecret (v_format_version (vault s)) (v_active_envelope_version (vault s))) = Inr (sl_sec_ct x)"
    and rec: "t_records (db t) = map (\<lambda>r. if rr_record_id r = i \<and> rr_revision r = n
      then updated_row x (n + 1) r else r) (t_records (db s))"
    and t: "vault t = vault s" "keyring t = keyring s" "loaded t" "env_fixed t = env_fixed s" .
  have "pk_find rr_record_id i (t_records (db t)) = Some (updated_row x (n + 1) r)"
    unfolding rec by (rule locate_updated [OF assms(5,6)])
  moreover have "open_secret P kr (v_id (vault s)) (v_format_version (vault s)) (updated_row x (n + 1) r) = Inr (encode_secret J sec)"
    using open_seal [OF assms(1) sl] pk_find_Some [OF assms(5)] assms(7) by (simp add: open_secret_def updated_row_def)
  ultimately show ?thesis
    using k t assms(8,9) decode_encode_secret [OF assms(2,3)]
    by (simp add: reveal_Inr_iff env_fixed_def)
qed

lemma stale_update_breaks_row:
  assumes "aead_binds P" and "update_record_op P J W i n meta sec s = (Inr (), t)"
    and "pk_find rr_record_id i (t_records (db s)) = Some r" and "rr_revision r = n"
    and "ucast (rr_key_version r) \<noteq> v_active_envelope_version (vault s)"
  shows "\<exists>kr r'. keyring t = Some kr \<and> is_unlocked (vault t) \<and> loaded t \<and>
    pk_find rr_record_id i (t_records (db t)) = Some r' \<and>
    open_metadata P kr (v_id (vault t)) (v_format_version (vault t)) r' = Inl ErrDecryptFailed \<and>
    open_secret P kr (v_id (vault t)) (v_format_version (vault t)) r' = Inl ErrDecryptFailed \<and>
    env_fixed t = env_fixed s"
proof -
  from update_record_opE [OF assms(2)] obtain kr meta' and entry :: index_entry and x :: sealed_record where k: "is_unlocked (vault s)" "keyring s = Some kr"
    and ml: "seal P (k_metadata kr) (sl_meta_nonce x) (encode_metadata J (ie_type entry) meta')
      (record_aad (v_id (vault s)) i (n + 1) PayloadMetadata (v_format_version (vault s)) (v_active_envelope_version (vault s))) = Inr (sl_meta_ct x)"
    and sl: "seal P (k_secret kr) (sl_sec_nonce x) (encode_secret J sec)
      (record_aad (v_id (vault s)) i (n + 1) PayloadSecret (v_format_version (vault s)) (v_active_envelope_version (vault s))) = Inr (sl_sec_ct x)"
    and rec: "t_records (db t) = map (\<lambda>r. if rr_record_id r = i \<and> rr_revision r = n
      then updated_row x (n + 1) r else r) (t_records (db s))"
    and t: "vault t = vault s" "keyring t = keyring s" "loaded t" "env_fixed t = env_fixed s" .
  let ?r = "updated_row x (n + 1) r"
  have find: "pk_find rr_record_id i (t_records (db t)) = Some ?r"
    unfolding rec by (rule locate_updated [OF assms(3,4)])
  have fields: "rr_record_id ?r = i" "rr_revision ?r = n + 1" "rr_key_version ?r = rr_key_version r"
    "rr_metadata_ciphertext ?r = sl_meta_ct x" "rr_metadata_nonce ?r = sl_meta_nonce x"
    "rr_secret_ciphertext ?r = sl_sec_ct x" "rr_secret_nonce ?r = sl_sec_nonce x"
    using pk_find_Some [OF assms(3)] by (simp_all add: updated_row_def)
  have aad: "record_aad (v_id (vault s)) i (n + 1) kd (v_format_version (vault s)) (v_active_envelope_version (vault s)) \<noteq>
      record_aad (v_id (vault s)) i (n + 1) kd (v_format_version (vault s)) (ucast (rr_key_version r))" for kd
    using assms(5) by (simp add: record_aad_inject)
  have "open_metadata P kr (v_id (vault s)) (v_format_version (vault s)) ?r = Inl ErrDecryptFailed"
    unfolding open_metadata_def fields by (rule open_other_aad [OF assms(1) ml aad])
  moreover have "open_secret P kr (v_id (vault s)) (v_format_version (vault s)) ?r = Inl ErrDecryptFailed"
    unfolding open_secret_def fields by (rule open_other_aad [OF assms(1) sl aad])
  ultimately show ?thesis using find k t by auto
qed

section \<open>The build of the index\<close>

text \<open>What one row contributes.\<close>

definition entry_of_row ::
  "crypto_prims \<Rightarrow> json \<Rightarrow> 'w web_scheme \<Rightarrow> keyring \<Rightarrow> bytes \<Rightarrow> u32 \<Rightarrow> record_row \<Rightarrow> err + index_entry" where
  "entry_of_row P J W kr vid fv row =
     sbind (id_from_bytes (rr_record_id row)) (\<lambda>i.
     sbind (open_metadata P kr vid fv row) (\<lambda>plain.
     sbind (decode_metadata W J plain) (\<lambda>(ty, meta).
     Inr \<lparr>ie_id = i, ie_type = ty, ie_revision = rr_revision row, ie_metadata = meta\<rparr>)))"

lemma load_row_Inr_iff:
  "load_row P J W kr vid fv row s = (Inr (), t) \<longleftrightarrow>
     (\<exists>e. entry_of_row P J W kr vid fv row = Inr e \<and>
        t = s\<lparr>mem := (mem s)\<lparr>rec_index := index_put W e (rec_index (mem s))\<rparr>\<rparr>)"
  by (auto simp: load_row_def entry_of_row_def prog_simps mbind_Inr_iff sbind_def split: sum.splits)

lemma load_row_Inl: "load_row P J W kr vid fv row s = (Inl e, t) \<Longrightarrow> e = ErrIntegrityFailure \<and> (\<exists>e. entry_of_row P J W kr vid fv row = Inl e)"
  by (auto simp: load_row_def entry_of_row_def prog_simps mbind_Inl_iff sbind_def split: sum.splits)

lemma load_row_bad: "entry_of_row P J W kr vid fv row = Inl e \<Longrightarrow> \<exists>t. load_row P J W kr vid fv row s = (Inl ErrIntegrityFailure, t)"
  by (cases "load_row P J W kr vid fv row s"; cases "fst (load_row P J W kr vid fv row s)")
    (auto dest: load_row_Inl simp: load_row_Inr_iff)

lemma load_rows_Inr:
  "mfor rows (load_row P J W kr vid fv) s = (Inr (), t) \<longleftrightarrow>
     (\<exists>es. smap (entry_of_row P J W kr vid fv) rows = Inr es \<and>
        t = s\<lparr>mem := (mem s)\<lparr>rec_index := fold (index_put W) es (rec_index (mem s))\<rparr>\<rparr>)"
proof (induction rows arbitrary: s)
  case Nil
  then show ?case by (auto simp: prog_simps)
next
  case (Cons row rows)
  show ?case
    by (auto simp: mbind_Inr_iff load_row_Inr_iff Cons sbind_Inr_iff)
qed

lemma load_rows_Inl: "mfor rows (load_row P J W kr vid fv) s = (Inl e, t) \<Longrightarrow> e = ErrIntegrityFailure"
  by (induction rows arbitrary: s) (auto simp: prog_simps mbind_Inl_iff dest: load_row_Inl)

lemma load_rows_bad:
  assumes "row \<in> set rows" and "entry_of_row P J W kr vid fv row = Inl e"
  shows "\<exists>t. mfor rows (load_row P J W kr vid fv) s = (Inl ErrIntegrityFailure, t)"
proof -
  obtain r t where m: "mfor rows (load_row P J W kr vid fv) s = (r, t)" by fastforce
  show ?thesis
  proof (cases r)
    case (Inl e')
    with m load_rows_Inl show ?thesis by blast
  next
    case (Inr u)
    with m obtain es where "smap (entry_of_row P J W kr vid fv) rows = Inr es" by (auto simp: load_rows_Inr)
    then have "list_all2 (\<lambda>x y. entry_of_row P J W kr vid fv x = Inr y) rows es" by (simp add: smap_Inr_iff)
    with assms show ?thesis by (auto simp: list_all2_conv_all_nth in_set_conv_nth)
  qed
qed

lemma load_index_Inr:
  assumes "load_index P J W s = (Inr (), t)"
  shows "\<exists>kr es. keyring s = Some kr \<and> is_unlocked (vault s) \<and>
    smap (entry_of_row P J W kr (v_id (vault s)) (v_format_version (vault s))) (t_records (db s)) = Inr es \<and>
    t = s\<lparr>io_pos := Suc (io_pos s), mem := (mem s)\<lparr>rec_index := fold (index_put W) es new_index\<rparr>\<rparr>"
  using assms
  by (auto simp: load_index_def mbind_Inr_iff prog_simps load_rows_Inr list_records_def index_clear_def)

text \<open>One record that does not open makes the whole build fail.\<close>

lemma load_index_bad:
  assumes "is_unlocked (vault s)" "keyring s = Some kr" "loaded s" "db_open s" "io_ok s (io_pos s)"
    and "row \<in> set (t_records (db s))"
    and "entry_of_row P J W kr (v_id (vault s)) (v_format_version (vault s)) row = Inl e"
  shows "\<exists>t. load_index P J W s = (Inl ErrIntegrityFailure, t)"
proof -
  have k: "mbind keys f s = f kr s" for f :: "keyring \<Rightarrow> ('a, 'b) rsys \<Rightarrow> _"
    by (rule mbind_Inr) (simp add: prog_simps assms)
  have v: "mbind vault_info f s = f (v_id (vault s), v_format_version (vault s), v_active_envelope_version (vault s)) s"
    for f :: "_ \<Rightarrow> ('a, 'b) rsys \<Rightarrow> _"
    by (rule mbind_Inr) (simp add: prog_simps assms)
  have l: "mbind list_records f s = f (t_records (db s)) (s\<lparr>io_pos := Suc (io_pos s)\<rparr>)"
    for f :: "_ \<Rightarrow> ('a, 'b) rsys \<Rightarrow> _"
    by (rule mbind_Inr) (simp add: prog_simps list_records_def assms)
  have c: "mbind (with_index index_clear) f u = f () (u\<lparr>mem := (mem u)\<lparr>rec_index := index_clear (rec_index (mem u))\<rparr>\<rparr>)"
    for f :: "_ \<Rightarrow> ('a, 'b) rsys \<Rightarrow> _" and u by (rule mbind_Inr) (simp add: prog_simps)
  show ?thesis using load_rows_bad [OF assms(6,7)] by (simp add: load_index_def k v l c)
qed

lemma fold_put_ok: "index_ok W ix \<Longrightarrow> index_ok W (fold (index_put W) es ix)"
  by (induction es arbitrary: ix) (simp_all add: index_ok_put)

lemma index_get_new [simp]: "index_get new_index i = None"
  by (simp add: index_get_def new_index_def)

lemma fold_put_get:
  "index_get (fold (index_put W) es ix) i =
     (case find (\<lambda>e. ie_id e = i) (rev es) of Some e \<Rightarrow> Some e | None \<Rightarrow> index_get ix i)"
  by (induction es rule: rev_induct) (auto simp: index_get_put)

text \<open>The index holds one entry per row, at the row's revision.\<close>

definition mirrors :: "index \<Rightarrow> record_row list \<Rightarrow> bool" where
  "mirrors ix rows \<longleftrightarrow>
     (\<forall>i. map_option ie_revision (index_get ix i) = map_option rr_revision (pk_find rr_record_id i rows))"

lemma entry_of_row_Inr:
  "entry_of_row P J W kr vid fv row = Inr e \<Longrightarrow> ie_id e = rr_record_id row \<and> ie_revision e = rr_revision row"
  by (auto simp: entry_of_row_def sbind_Inr_iff id_from_bytes_Inr_iff split: prod.splits)

lemma pk_find_rev: "distinct (map key rows) \<Longrightarrow> pk_find key k (rev rows) = pk_find key k rows"
proof (cases "pk_find key k rows")
  case None
  then show ?thesis using pk_find_None [of key k rows] pk_find_None [of key k "rev rows"] by simp
next
  case (Some r)
  assume "distinct (map key rows)"
  then have "distinct (map key (rev rows))" by (simp add: rev_map [symmetric])
  moreover from Some have "r \<in> set (rev rows)" "key r = k" by (auto dest: pk_find_Some)
  ultimately show ?thesis using pk_find_mem [of key "rev rows" r] Some by simp
qed

lemma load_mirrors:
  assumes "distinct (map rr_record_id rows)" and "smap (entry_of_row P J W kr vid fv) rows = Inr es"
  shows "mirrors (fold (index_put W) es new_index) rows"
proof -
  have l: "list_all2 (\<lambda>r e. ie_id e = rr_record_id r \<and> ie_revision e = rr_revision r) rows es"
    using assms(2) by (auto simp: smap_Inr_iff elim!: list_all2_mono dest: entry_of_row_Inr)
  then have ids: "map ie_id es = map rr_record_id rows"
    by (induction rule: list_all2_induct) auto
  have f: "map_option ie_revision (find (\<lambda>e. ie_id e = i) es) = map_option rr_revision (find (\<lambda>r. rr_record_id r = i) rows)" for i
    using l by (induction rule: list_all2_induct) auto
  have r: "find (\<lambda>e. ie_id e = i) (rev es) = find (\<lambda>e. ie_id e = i) es" for i
    using pk_find_rev [of ie_id es i] ids assms(1) by (simp add: pk_find_def)
  have "index_get (fold (index_put W) es new_index) i = find (\<lambda>e. ie_id e = i) es" for i
    by (simp add: fold_put_get r split: option.split)
  then show ?thesis by (simp add: mirrors_def f pk_find_def)
qed

lemma create_mirrors:
  assumes "create_record P J W ty meta sec s = (Inr i, t)" and "mirrors (rec_index (mem s)) (t_records (db s))"
  shows "mirrors (rec_index (mem t)) (t_records (db t))"
proof -
  from create_record_Inr [OF assms(1)] obtain row where
    ins: "pk_insert rr_record_id record_check row (t_records (db s)) = Inr (t_records (db t))"
      "rr_record_id row = i" "rr_revision row = 1"
    and m: "rec_index (mem t) = index_put W \<lparr>ie_id = i, ie_type = ty, ie_revision = 1,
      ie_metadata = meta\<lparr>md_created_at := now s, md_updated_at := now s\<rparr>\<rparr> (rec_index (mem s))"
    by (elim exE conjE) (rule that, assumption, simp_all)
  from ins have "t_records (db t) = t_records (db s) @ [row]" "pk_find rr_record_id i (t_records (db s)) = None"
    by (auto simp: pk_insert_Inr_iff pk_find_None)
  with assms(2) ins m show ?thesis
    by (auto simp: mirrors_def index_get_put pk_find_append split: option.splits)
qed

lemma update_mirrors:
  assumes "update_record_op P J W i n meta sec s = (Inr (), t)" and "mirrors (rec_index (mem s)) (t_records (db s))"
    and "distinct (map rr_record_id (t_records (db s)))"
  shows "mirrors (rec_index (mem t)) (t_records (db t))"
proof -
  from update_record_op_Inr [OF assms(1)] obtain meta' and entry :: index_entry and x :: sealed_record where
    ex: "\<exists>r \<in> set (t_records (db s)). rr_record_id r = i \<and> rr_revision r = n"
    and rec: "t_records (db t) = map (\<lambda>r. if rr_record_id r = i \<and> rr_revision r = n
      then updated_row x (n + 1) r else r) (t_records (db s))"
    and m: "mem t = (mem s)\<lparr>rec_index := index_put W \<lparr>ie_id = i, ie_type = ie_type entry,
      ie_revision = n + 1, ie_metadata = meta'\<rparr> (rec_index (mem s))\<rparr>"
    by (elim exE conjE) (rule that; assumption)
  from ex obtain r where r: "r \<in> set (t_records (db s))" "rr_record_id r = i" "rr_revision r = n" by blast
  have fr: "pk_find rr_record_id i (t_records (db s)) = Some r"
    using pk_find_mem [OF assms(3) r(1)] r(2) by simp
  have ids: "rr_record_id (updated_row x (n + 1) r) = rr_record_id r" for r by (simp add: updated_row_def)
  have "pk_find rr_record_id j (t_records (db t)) =
      map_option (\<lambda>r. if rr_record_id r = i \<and> rr_revision r = n then updated_row x (n + 1) r else r)
        (pk_find rr_record_id j (t_records (db s)))" for j
    unfolding rec by (rule pk_find_map) (rule ids)
  then have "map_option rr_revision (pk_find rr_record_id j (t_records (db t))) =
      (if j = i then Some (n + 1) else map_option rr_revision (pk_find rr_record_id j (t_records (db s))))" for j
    by (cases "j = i"; cases "pk_find rr_record_id j (t_records (db s))")
      (use fr r pk_find_Some [of rr_record_id j "t_records (db s)"] in \<open>simp_all add: updated_row_def\<close>)
  with assms(2) show ?thesis by (simp add: mirrors_def m index_get_put)
qed

lemma delete_mirrors:
  assumes "delete_record_op P W i s = (Inr (), t)" and "mirrors (rec_index (mem s)) (t_records (db s))"
  shows "mirrors (rec_index (mem t)) (t_records (db t))"
proof -
  from delete_record_op_Inr [OF assms(1)] have
    rec: "t_records (db t) = snd (pk_delete rr_record_id i (t_records (db s)))"
    and m: "rec_index (mem t) = index_remove W i (rec_index (mem s))"
    by (auto simp: pk_delete_def)
  with assms(2) show ?thesis by (simp add: mirrors_def index_get_remove pk_find_delete)
qed

section \<open>Constrained reveal\<close>

text \<open>A secret is released to a page only over a secure or loopback origin, for a record with a
  URL that covers the page, or on loopback for the page's project.\<close>

lemma reveal_for_origin_Inr:
  assumes "reveal_for_origin P J W i raw pid s = (Inr p, t)"
  shows "\<exists>page e. parse_origin W raw = Inr page \<and> (is_secure page \<or> is_loopback W page) \<and>
    index_get (rec_index (mem s)) i = Some e \<and>
    (matches_origin (ie_metadata e) page \<or> matches_project_id W (ie_metadata e) page pid) \<and>
    reveal P J i s = (Inr p, t)"
  using assms
  by (auto simp: reveal_for_origin_def mbind_Inr_iff prog_simps split: option.splits if_splits)

section \<open>Frames\<close>

lemma dbwf_with_index [intro]: "obeys (keeps_inv sound_db) (with_index f)"
  unfolding with_index_def by (rule dbwf_modify) simp

lemma dbwf_validated [intro]: "obeys (keeps_inv sound_db) (validated r)"
  unfolding validated_def by (intro inv.ok_intros)

lemma dbwf_encrypt [intro]: "obeys (keeps_inv sound_db) (encrypt_record P J kr r)"
  unfolding encrypt_record_def Let_def by (intro inv.ok_intros dbwf_basic dbwf_new)

lemma dbwf_records_stamp [intro]: "obeys (keeps_inv sound_db) (records_stamp P kr)"
  unfolding records_stamp_def by (intro inv.ok_intros dbwf_basic dbwf_stamp)

lemma dbwf_note_stamped [intro]: "obeys (keeps_inv sound_db) (note_stamped n)"
  unfolding note_stamped_def by (intro inv.ok_intros dbwf_basic)

lemma dbwf_stamped_change [intro]:
  "obeys (keeps_inv sound_db) act \<Longrightarrow> obeys (keeps_inv sound_db) (stamped_change P kr act)"
  unfolding stamped_change_def by (intro dbwf_tx inv.ok_intros dbwf_records_stamp)

lemma dbwf_record_ops [intro]:
  "obeys (keeps_inv sound_db) (create_record P J W ty meta sec)"
  "obeys (keeps_inv sound_db) (update_record_op P J W i n meta sec)"
  "obeys (keeps_inv sound_db) (delete_record_op P W i)"
  "obeys (keeps_inv sound_db) (load_index P J W)"
proof -
  show "obeys (keeps_inv sound_db) (create_record P J W ty meta sec)"
    unfolding create_record_def Let_def
    by (intro inv.ok_intros dbwf_basic dbwf_new dbwf_validated dbwf_encrypt dbwf_tx dbwf_commands
        dbwf_records_stamp dbwf_note_stamped dbwf_with_index)
  show "obeys (keeps_inv sound_db) (update_record_op P J W i n meta sec)"
    unfolding update_record_op_def Let_def the_index_def
    by (intro inv.ok_intros dbwf_basic dbwf_validated dbwf_encrypt dbwf_stamped_change dbwf_commands
        dbwf_note_stamped dbwf_with_index)
  show "obeys (keeps_inv sound_db) (delete_record_op P W i)"
    unfolding delete_record_op_def
    by (intro inv.ok_intros dbwf_basic dbwf_stamped_change dbwf_commands dbwf_note_stamped dbwf_with_index)
  show "obeys (keeps_inv sound_db) (load_index P J W)"
    unfolding load_index_def load_row_def
    by (intro inv.ok_intros dbwf_basic dbwf_queries dbwf_with_index)
qed

text \<open>The keys and the index invariant.\<close>

lemma key_with_index [intro]: "obeys (keeps_inv (key_inv P)) (with_index f)"
  unfolding with_index_def by (rule inv.ok_modify) (simp add: keeps_inv_def key_inv_def)

lemma key_note_stamped [intro]: "obeys (keeps_inv (key_inv P)) (note_stamped n)"
  unfolding note_stamped_def by (intro inv.ok_intros key_note_counter)

lemma fixed_stamped_change [intro]:
  "obeys (same_on fixed) act \<Longrightarrow> obeys (same_on fixed) (stamped_change P kr act)"
  unfolding stamped_change_def by (intro fixed_tx same.ok_intros fixed_records_stamp)

lemma key_record_ops [intro]:
  "obeys (keeps_inv (key_inv P)) (create_record P' J W ty meta sec)"
  "obeys (keeps_inv (key_inv P)) (update_record_op P' J W i n meta sec)"
  "obeys (keeps_inv (key_inv P)) (delete_record_op P' W i)"
  "obeys (keeps_inv (key_inv P)) (load_index P' J W)"
proof -
  show "obeys (keeps_inv (key_inv P)) (create_record P' J W ty meta sec)"
    unfolding create_record_def Let_def
    by (intro inv.ok_bind inv.ok_get inv.ok_pair inv.ok_return key_note_stamped key_with_index
        key_fixed fixed_keys fixed_new fixed_validated fixed_encrypt fixed_vault_info fixed_tx
        same.ok_bind fixed_commands fixed_records_stamp)
  show "obeys (keeps_inv (key_inv P)) (update_record_op P' J W i n meta sec)"
    unfolding update_record_op_def Let_def the_index_def
    by (intro inv.ok_bind inv.ok_get inv.ok_pair inv.ok_option inv.ok_throw inv.ok_guard key_note_stamped key_with_index
        key_fixed fixed_keys fixed_validated fixed_encrypt fixed_stamped_change fixed_commands)
  show "obeys (keeps_inv (key_inv P)) (delete_record_op P' W i)"
    unfolding delete_record_op_def
    by (intro inv.ok_bind inv.ok_pair inv.ok_guard key_note_stamped key_with_index
        key_fixed fixed_keys fixed_stamped_change fixed_commands)
  show "obeys (keeps_inv (key_inv P)) (load_index P' J W)"
    unfolding load_index_def load_row_def
    by (intro inv.ok_bind inv.ok_pair inv.ok_for inv.ok_sum inv.ok_throw key_with_index
        key_fixed fixed_keys fixed_vault_info fixed_queries)
qed

end
