(* ===== verification/Atomic.thy ===== *)
theory Atomic
  imports Records
begin

text \<open>
  Failure atomicity: an operation that reports an error has not changed the database, nor the
  memory of the services (the index). The changes of an operation sit in one transaction, what
  comes before it only reads, and what comes after it cannot fail.
\<close>

section \<open>The notion and its rules\<close>

definition contents :: "('m, 'a) vsys_scheme \<Rightarrow> db \<times> 'm" where
  "contents s = (db s, mem s)"

definition atomic :: "(('m, 'a) vsys_scheme, err, 'r) prog \<Rightarrow> bool" where
  "atomic m \<longleftrightarrow> (\<forall>s e t. m s = (Inl e, t) \<longrightarrow> contents t = contents s)"

definition total :: "('s, err, 'r) prog \<Rightarrow> bool" where
  "total m \<longleftrightarrow> (\<forall>s. \<exists>x t. m s = (Inr x, t))"

lemma atomicD: "atomic m \<Longrightarrow> m s = (Inl e, t) \<Longrightarrow> contents t = contents s"
  by (simp add: atomic_def)

lemma atomic_read: "obeys (same_on contents) m \<Longrightarrow> atomic m"
  by (auto simp: atomic_def dest: same_okD)

lemma atomic_bind:
  assumes "obeys (same_on contents) m" and "\<And>x. atomic (f x)"
  shows "atomic (mbind m f)"
  unfolding atomic_def
proof (intro allI impI)
  fix s e t assume "mbind m f s = (Inl e, t)"
  then consider "m s = (Inl e, t)" | x u where "m s = (Inr x, u)" "f x u = (Inl e, t)"
    by (auto simp: mbind_Inl_iff)
  then show "contents t = contents s"
  proof cases
    case 1
    then show ?thesis by (rule same_okD [OF assms(1)])
  next
    case 2
    then show ?thesis using assms(2) same_okD [OF assms(1) 2(1)] by (simp add: atomic_def)
  qed
qed

lemma total_no_error: "total m \<Longrightarrow> m s \<noteq> (Inl e, t)"
  unfolding total_def by (metis Inl_Inr_False prod.inject)

lemma atomic_tail: "atomic m \<Longrightarrow> (\<And>x. total (f x)) \<Longrightarrow> atomic (mbind m f)"
  by (auto simp: atomic_def mbind_Inl_iff total_no_error)

lemma atomic_tx:
  assumes "obeys (same_on fixed) m"
  shows "atomic (with_tx m)"
  unfolding atomic_def
proof (intro allI impI)
  fix s e t assume t: "with_tx m s = (Inl e, t)"
  have "mem t = mem s" by (rule more_vsys(9)) (rule fixedD(6) [OF fixed_tx [OF assms] t])
  with with_tx_Inl [OF t] show "contents t = contents s" by (simp add: contents_def)
qed

lemma atomic_cases [intro]:
  "atomic m \<Longrightarrow> (\<And>x. atomic (f x)) \<Longrightarrow> atomic (case v of None \<Rightarrow> m | Some x \<Rightarrow> f x)"
  "(\<And>e. atomic (h e)) \<Longrightarrow> (\<And>x. atomic (g x)) \<Longrightarrow> atomic (case r of Inl e \<Rightarrow> h e | Inr x \<Rightarrow> g x)"
  "(\<And>x y. atomic (k x y)) \<Longrightarrow> atomic (case p of (x, y) \<Rightarrow> k x y)"
  "atomic m \<Longrightarrow> atomic n \<Longrightarrow> atomic (if b then m else n)"
  by (auto split: option.split sum.split prod.split)

lemma atomic_throw: "atomic (mthrow e)"
  by (simp add: atomic_def mthrow_def)

lemma total_bind: "total m \<Longrightarrow> (\<And>x. total (f x)) \<Longrightarrow> total (mbind m f)"
  unfolding total_def mbind_def by (metis (mono_tags, lifting) case_prod_conv sum.case(2))

lemma total_steps:
  "total (mreturn x)" "total (mmodify g)" "total (mget f)" "total (note_counter n)" "total (note_stamped n)"
  "total (with_index ix)" "total lock" "total (set_vault v)"
  by (simp_all add: total_def prog_simps note_stamped_def note_counter_def lock_def set_vault_def)

section \<open>What only reads\<close>

lemma contents_simps [simp]:
  "contents (s\<lparr>io_pos := n\<rparr>) = contents s" "contents (s\<lparr>rnd_pos := n\<rparr>) = contents s"
  "contents (s\<lparr>vault := v\<rparr>) = contents s" "contents (s\<lparr>loaded := l\<rparr>) = contents s"
  by (simp_all add: contents_def)

lemma reads_query: "obeys (same_on contents) (sql_query f)"
  by (auto simp: obeys_def same_on_def sql_query_def io_step_def prog_simps mbind_def split: if_splits)

lemma reads_random: "obeys (same_on contents) (random_bytes n)"
  by (auto simp: obeys_def same_on_def random_bytes_def)

lemma reads_basic:
  "obeys (same_on contents) new_id" "obeys (same_on contents) new_key" "obeys (same_on contents) new_nonce"
  "obeys (same_on contents) new_salt" "obeys (same_on contents) keys" "obeys (same_on contents) vault_info"
  "obeys (same_on contents) the_index" "obeys (same_on contents) (validated r)"
  "obeys (same_on contents) (encrypt_record P J kr r)" "obeys (same_on contents) (build_envelope P vid ver rk pw params)"
  "obeys (same_on contents) load_vault" "obeys (same_on contents) (get_key_envelope v)"
proof -
  show n: "obeys (same_on contents) new_id" "obeys (same_on contents) new_key" "obeys (same_on contents) new_nonce"
    "obeys (same_on contents) new_salt"
    by (simp_all add: new_defs reads_random)
  show "obeys (same_on contents) keys" "obeys (same_on contents) the_index" "obeys (same_on contents) (validated r)"
    unfolding keys_def the_index_def validated_def by (intro same.ok_intros)+
  show i: "obeys (same_on contents) vault_info"
    unfolding vault_info_def by (intro same.ok_intros)
  show "obeys (same_on contents) (encrypt_record P J kr r)"
    unfolding encrypt_record_def Let_def by (intro same.ok_intros i n)
  show "obeys (same_on contents) (build_envelope P vid ver rk pw params)"
    unfolding build_envelope_def by (intro same.ok_intros n)
  have "obeys (same_on contents) (set_vault v)" for v
    unfolding set_vault_def by (rule same.ok_modify) (simp add: same_on_def)
  then show "obeys (same_on contents) load_vault"
    unfolding load_vault_def get_vault_def by (intro same.ok_intros same.ok_err reads_query)
  show "obeys (same_on contents) (get_key_envelope v)"
    unfolding get_key_envelope_def by (rule reads_query)
qed

section \<open>The operations\<close>

lemma atomic_create: "atomic (create_record P J W ty meta sec)"
  unfolding create_record_def Let_def
  by (intro atomic_bind reads_basic same.ok_get atomic_cases(3) atomic_tail atomic_tx total_bind total_steps
      same.ok_bind fixed_commands fixed_records_stamp)

text \<open>A change that touched no row has changed nothing.\<close>

lemma stamped_change_none:
  assumes "stamped_change P kr act s = (Inr (0, n), t)" and "obeys (same_on fixed) act"
    and "\<And>u w. act u = (Inr 0, w) \<Longrightarrow> db w = db u"
  shows "contents t = contents s"
proof -
  from stamped_change_Inr [OF assms(1,2)] obtain w where w: "act (s\<lparr>io_pos := Suc (io_pos s)\<rparr>) = (Inr 0, w)"
    and t: "db t = db w" "fixed t = fixed s" by auto
  from assms(3) [OF w] t(1) have "db t = db s" by simp
  moreover have "mem t = mem s" by (rule more_vsys(9)) (use t(2) in \<open>simp add: fixed_def\<close>)
  ultimately show ?thesis by (simp add: contents_def)
qed

lemma atomic_stamped_change:
  assumes "obeys (same_on fixed) act" and "\<And>u w. act u = (Inr 0, w) \<Longrightarrow> db w = db u"
    and "\<And>n. total (g n)"
  shows "atomic (mbind (stamped_change P kr act) (\<lambda>(rows, stamped). mbind (mguard (rows \<noteq> 0) e) (\<lambda>_. g stamped)))"
  unfolding atomic_def
proof (intro allI impI)
  fix s e' t
  assume f: "mbind (stamped_change P kr act) (\<lambda>(rows, stamped). mbind (mguard (rows \<noteq> 0) e) (\<lambda>_. g stamped)) s = (Inl e', t)"
  have tx: "atomic (stamped_change P kr act)"
    unfolding stamped_change_def by (intro atomic_tx same.ok_intros assms(1) fixed_records_stamp)
  from f consider "stamped_change P kr act s = (Inl e', t)"
    | rows n u where "stamped_change P kr act s = (Inr (rows, n), u)" "mbind (mguard (rows \<noteq> 0) e) (\<lambda>_. g n) u = (Inl e', t)"
    by (auto simp: mbind_Inl_iff)
  then show "contents t = contents s"
  proof cases
    case 1
    with tx show ?thesis by (simp add: atomic_def)
  next
    case 2
    obtain x w where "g n u = (Inr x, w)" using assms(3) unfolding total_def by blast
    with 2(2) have "rows = 0" "t = u" by (auto simp: mguard_def prog_simps split: if_splits)
    with 2(1) show ?thesis using stamped_change_none [OF _ assms(1,2)] by auto
  qed
qed

lemma update_record_none: "update_record p n u = (Inr 0, w) \<Longrightarrow> db w = db u"
proof -
  assume "update_record p n u = (Inr 0, w)"
  note r = update_record_Inr [OF this]
  then have "\<forall>r \<in> set (t_records (db u)). \<not> (rr_record_id r = rr_record_id p \<and> rr_revision r = n)"
    by (auto simp: filter_empty_conv)
  then have "map (\<lambda>r. if rr_record_id r = rr_record_id p \<and> rr_revision r = n
       then r\<lparr>rr_revision := rr_revision p, rr_metadata_nonce := rr_metadata_nonce p,
              rr_metadata_ciphertext := rr_metadata_ciphertext p, rr_secret_nonce := rr_secret_nonce p,
              rr_secret_ciphertext := rr_secret_ciphertext p, rr_payload_version := rr_payload_version p\<rparr>
       else r) (t_records (db u)) = t_records (db u)"
    by (intro map_idI) auto
  then show ?thesis using conjunct2 [OF r] by simp
qed

lemma delete_record_none: "delete_record i u = (Inr 0, w) \<Longrightarrow> db w = db u"
  by (auto simp: delete_record_def prog_simps pk_delete_def Let_def filter_empty_conv filter_id_conv)

lemma atomic_update: "atomic (update_record_op P J W i n meta sec)"
  unfolding update_record_op_def Let_def
  by (intro atomic_bind reads_basic same.ok_get atomic_cases(1) atomic_throw atomic_stamped_change
      fixed_commands update_record_none total_bind total_steps)

lemma atomic_delete: "atomic (delete_record_op P W i)"
  unfolding delete_record_op_def
  by (intro atomic_bind reads_basic atomic_stamped_change fixed_commands delete_record_none total_bind total_steps)

lemma atomic_init: "atomic (vault_init P pw params)"
  unfolding vault_init_def
  by (intro atomic_bind reads_basic same.ok_get same.ok_attempt same.ok_lift atomic_cases(2,4) atomic_throw
      atomic_tail atomic_tx total_bind total_steps same.ok_bind fixed_commands fixed_stamp)

lemma atomic_change_password: "atomic (change_master_password P pw pw' params)"
  unfolding change_master_password_def Let_def
  by (intro atomic_bind reads_basic same.ok_get same.ok_replace_error same.ok_lift
      atomic_tail atomic_tx total_bind total_steps same.ok_bind fixed_commands fixed_stamp)

end
