(* ===== verification/History.thy ===== *)
theory History
  imports Atomic
begin

text \<open>
  Sequences of operations: the changes of the record catalog as a step relation, and what every
  history of them keeps, and histories of failed attempts to unlock. The index, which answers all queries but the reveal, is at every point
  the image of the rows of the database.
\<close>

section \<open>Record changes\<close>

inductive record_step ::
  "crypto_prims \<Rightarrow> json \<Rightarrow> 'w web_scheme \<Rightarrow> ('b, 'a) rsys \<Rightarrow> ('b, 'a) rsys \<Rightarrow> bool"
  for P J W where
  step_create: "create_record P J W ty meta sec s = (Inr i, t) \<Longrightarrow> record_step P J W s t"
| step_update: "update_record_op P J W i n meta sec s = (Inr (), t) \<Longrightarrow> record_step P J W s t"
| step_delete: "delete_record_op P W i s = (Inr (), t) \<Longrightarrow> record_step P J W s t"
| step_create_fails: "create_record P J W ty meta sec s = (Inl e, t) \<Longrightarrow> record_step P J W s t"
| step_update_fails: "update_record_op P J W i n meta sec s = (Inl e, t) \<Longrightarrow> record_step P J W s t"
| step_delete_fails: "delete_record_op P W i s = (Inl e, t) \<Longrightarrow> record_step P J W s t"
| step_load: "load_index P J W s = (Inr (), t) \<Longrightarrow> record_step P J W s t"
| step_clock: "0 \<le> d \<Longrightarrow> record_step P J W s (s\<lparr>now := now s + d\<rparr>)"

inductive_cases record_stepE: "record_step P J W s t"

lemma record_step_sound: "record_step P J W s t \<Longrightarrow> db_wf (db s) \<Longrightarrow> db_wf (db t)"
  by (induction rule: record_step.induct)
    (use inv_okD [OF dbwf_record_ops(1)] inv_okD [OF dbwf_record_ops(2)] inv_okD [OF dbwf_record_ops(3)]
      inv_okD [OF dbwf_record_ops(4)] in fastforce)+

text \<open>Mirroring is a property of what \<^const>\<open>contents\<close> shows, so a failed operation keeps it.\<close>

definition in_step :: "('b, 'a) rsys \<Rightarrow> bool" where
  "in_step s \<longleftrightarrow> mirrors (rec_index (mem s)) (t_records (db s))"

lemma in_step_contents: "contents t = contents s \<Longrightarrow> in_step t = in_step s"
  by (simp add: in_step_def contents_def)

lemma load_in_step:
  assumes "load_index P J W s = (Inr (), t)" and "db_wf (db s)"
  shows "in_step t"
proof -
  from load_index_Inr [OF assms(1)] obtain kr es where
    es: "smap (entry_of_row P J W kr (v_id (vault s)) (v_format_version (vault s))) (t_records (db s)) = Inr es"
    and t: "t = s\<lparr>io_pos := Suc (io_pos s), mem := (mem s)\<lparr>rec_index := fold (index_put W) es new_index\<rparr>\<rparr>" by auto
  have "distinct (map rr_record_id (t_records (db s)))"
    using assms(2) by (simp add: db_wf_def table_ok_def)
  from load_mirrors [OF this es] show ?thesis by (simp add: in_step_def t)
qed

lemma record_step_in_step:
  assumes "record_step P J W s t" and "in_step s" and "db_wf (db s)"
  shows "in_step t"
proof -
  have d: "distinct (map rr_record_id (t_records (db s)))" using assms(3) by (simp add: db_wf_def table_ok_def)
  from assms(1) show ?thesis
  proof cases
    case step_create
    show ?thesis using create_mirrors [OF step_create] assms(2) unfolding in_step_def by blast
  next
    case step_update
    show ?thesis using update_mirrors [OF step_update _ d] assms(2) unfolding in_step_def by blast
  next
    case step_delete
    show ?thesis using delete_mirrors [OF step_delete] assms(2) unfolding in_step_def by blast
  next
    case step_create_fails
    then have "contents t = contents s" by (rule atomicD [OF atomic_create])
    from in_step_contents [OF this] assms(2) show ?thesis by blast
  next
    case step_update_fails
    then have "contents t = contents s" by (rule atomicD [OF atomic_update])
    from in_step_contents [OF this] assms(2) show ?thesis by blast
  next
    case step_delete_fails
    then have "contents t = contents s" by (rule atomicD [OF atomic_delete])
    from in_step_contents [OF this] assms(2) show ?thesis by blast
  next
    case step_load
    from load_in_step [OF this assms(3)] show ?thesis .
  next
    case step_clock
    with assms(2) show ?thesis by (simp add: in_step_def)
  qed
qed

lemma record_steps_in_step:
  assumes "(record_step P J W)\<^sup>*\<^sup>* s t" and "in_step s" and "db_wf (db s)"
  shows "in_step t \<and> db_wf (db t)"
  using assms by (induction rule: rtranclp_induct) (auto intro: record_step_in_step record_step_sound)

section \<open>Failed unlocks\<close>

text \<open>An unlock refused for its password has counted the failure and set the time before which no
  attempt is looked at.\<close>

lemma load_vault_errors: "load_vault s = (Inl e, t) \<Longrightarrow> e \<in> {ErrVaultNotFound, ErrIntegrityFailure, ErrIO, Panic}"
  by (auto simp: load_vault_def mbind_Inl_iff mbind_Inr_iff prog_simps attempt_Inr_iff attempt_Inl_iff sum_prog_iff
      get_vault_def sql_query_def io_step_def one_row_def set_vault_def split: if_splits sum.splits option.splits)

lemma replace_error_Inl_cases: "replace_error e m s = (Inl e', t) \<Longrightarrow> e' = e \<or> e' = Panic"
  by (auto simp: replace_error_def mbind_Inl_iff attempt_Inl_iff sum_prog_iff prog_simps split: sum.splits)

lemma derive_keyring_errors: "derive_keyring P rk = Inl e \<Longrightarrow> e = ErrBadKey"
  by (auto simp: derive_keyring_def sbind_Inl_iff derive_subkey_def split: if_splits)

lemma load_vault_keeps:
  "load_vault s = (Inr u, t) \<Longrightarrow> now t = now s \<and> next_unlock_at t = next_unlock_at s \<and> failed_unlocks t = failed_unlocks s \<and>
     keyring t = keyring s \<and> root_key t = root_key s \<and> db t = db s"
  by (drule load_vault_Inr) auto

lemma unlock_refused:
  assumes "unlock P pw s = (Inl ErrAuthenticationFail, t)"
  shows "\<not> now s < next_unlock_at s \<and> failed_unlocks t = Suc (failed_unlocks s) \<and>
    next_unlock_at t = now s + unlock_delay (Suc (failed_unlocks s)) \<and> now t = now s \<and>
    keyring t = keyring s \<and> root_key t = root_key s \<and> db t = db s"
proof -
  from assms obtain u e where n: "\<not> now s < next_unlock_at s" and u: "load_vault s = (Inr (), u)"
    and e: "active_envelope (vault u) (db u) = Some e"
    and t: "(case row_kek P pw e of Inl _ \<Rightarrow> unlock_failed | Inr kek \<Rightarrow>
     (case unwrap_root P kek (v_id (vault u)) (ucast (er_envelope_version e)) e of
        Inl _ \<Rightarrow> unlock_failed
      | Inr rk \<Rightarrow>
          if open_box P rk (er_canary_nonce e) (er_encrypted_canary e)
               (envelope_aad (v_id (vault u)) (ucast (er_envelope_version e)) ''canary'') \<noteq> Inr canary_plaintext
          then unlock_failed
          else mbind (mlift (derive_keyring P rk)) (\<lambda>kr. mmodify (open_vault rk kr))))
       (u\<lparr>io_pos := Suc (io_pos u)\<rparr>) = (Inl ErrAuthenticationFail, t)"
    unfolding unlock_def open_vault_def [symmetric]
    by (auto simp: mbind_Inl_iff prog_simps dest: load_vault_errors replace_error_Inl_cases split: if_splits)
  then have "t = (u\<lparr>io_pos := Suc (io_pos u)\<rparr>)\<lparr>failed_unlocks := Suc (failed_unlocks u),
     next_unlock_at := now u + unlock_delay (Suc (failed_unlocks u))\<rparr>"
    by (auto simp: sum_prog_iff unlock_failed_eq mbind_Inl_iff prog_simps dest: derive_keyring_errors split: if_splits)
  with n load_vault_keeps [OF u] show ?thesis by simp
qed

text \<open>What an unlock that failed for whatever reason has left: the vault it would open is the same.\<close>

definition at_rest :: "('m, 'a) vsys_scheme \<Rightarrow> vault_agg \<Rightarrow> bool" where
  "at_rest s v \<longleftrightarrow> next_unlock_at s \<le> now s + 60 * 1000000000 \<and> db_open s \<and> (\<forall>n. io_ok s n) \<and>
     (if loaded s then vault s = v
      else \<exists>row. t_vault (db s) = Some row \<and> length (vr_vault_id row) = 16 \<and>
        v_format_version v \<le> format_version \<and> v = fresh_vault (vr_vault_id row) (ucast (vr_format_version row)) (ucast (vr_active_envelope_version row)))"

lemma snd_query: "db_open u \<Longrightarrow> snd (sql_query f u) = u\<lparr>io_pos := Suc (io_pos u)\<rparr>"
  by (simp add: sql_query_def io_step_def mbind_def prog_simps)

lemma failed_query: "replace_error e (sql_query f) u = (r, t) \<Longrightarrow> db_open u \<Longrightarrow> t = u\<lparr>io_pos := Suc (io_pos u)\<rparr>"
  by (metis snd_conv snd_query snd_replace_error)

lemma failed_step:
  assumes "(case row_kek P pw e of Inl _ \<Rightarrow> unlock_failed | Inr kek \<Rightarrow>
     (case unwrap_root P kek vid ev e of
        Inl _ \<Rightarrow> unlock_failed
      | Inr rk \<Rightarrow>
          if open_box P rk n c a \<noteq> Inr p
          then unlock_failed
          else mbind (mlift (derive_keyring P rk)) (\<lambda>kr. mmodify (open_vault rk kr)))) u = (Inl err, t)"
  shows "t = u \<or> t = u\<lparr>failed_unlocks := Suc (failed_unlocks u), next_unlock_at := now u + unlock_delay (Suc (failed_unlocks u))\<rparr>"
  using assms by (auto simp: sum_prog_iff unlock_failed_eq mbind_Inl_iff prog_simps split: if_splits)

lemma failed_unlock_rests:
  assumes f: "unlock P pw s = (Inl err, t)" and r: "at_rest s v"
  shows "at_rest t v \<and> db t = db s"
proof (cases "now s < next_unlock_at s")
  case True
  with f r show ?thesis using unlock_too_early [OF True] by simp
next
  case False
  from r have io: "db_open s" "\<And>n. io_ok s n" by (simp_all add: at_rest_def)
  obtain l u where l: "load_vault s = (l, u)" by fastforce
  show ?thesis
  proof (cases l)
    case (Inl e)
    with f False l have "t = u" by (auto simp: unlock_def mbind_Inl_iff prog_simps)
    moreover from load_vault_Inl [OF l [unfolded Inl]] have x: "fixed u = fixed s" "db u = db s" by simp_all
    moreover from x(1) have "now u = now s" "io_ok u = io_ok s" "db_open u = db_open s" "env.more u = env.more s"
      by (simp_all add: fixed_def)
    ultimately show ?thesis using r more_vsys [of u s] by (simp add: at_rest_def)
  next
    case (Inr v')
    then have u: "load_vault s = (Inr (), u)" using l by simp
  have ou: "db_open u" using load_vault_Inr [OF u] io by auto
  have ru: "at_rest u v" "db u = db s" "now u = now s" using load_vault_Inr [OF u] r by (auto simp: at_rest_def)
  from f False u have "t = u\<lparr>io_pos := Suc (io_pos u)\<rparr> \<or> (\<exists>e. (case row_kek P pw e of Inl _ \<Rightarrow> unlock_failed | Inr kek \<Rightarrow>
     (case unwrap_root P kek (v_id (vault u)) (ucast (er_envelope_version e)) e of
        Inl _ \<Rightarrow> unlock_failed
      | Inr rk \<Rightarrow>
          if open_box P rk (er_canary_nonce e) (er_encrypted_canary e)
               (envelope_aad (v_id (vault u)) (ucast (er_envelope_version e)) ''canary'') \<noteq> Inr canary_plaintext
          then unlock_failed
          else mbind (mlift (derive_keyring P rk)) (\<lambda>kr. mmodify (open_vault rk kr))))
       (u\<lparr>io_pos := Suc (io_pos u)\<rparr>) = (Inl err, t))"
    using ou
    unfolding unlock_def open_vault_def [symmetric] get_key_envelope_def
    by (auto simp: mbind_Inl_iff prog_simps split: if_splits dest: failed_query)
  then have "t = u\<lparr>io_pos := Suc (io_pos u)\<rparr> \<or> t = u\<lparr>io_pos := Suc (io_pos u), failed_unlocks := Suc (failed_unlocks u),
      next_unlock_at := now u + unlock_delay (Suc (failed_unlocks u))\<rparr>"
    by (auto dest!: failed_step)
  with ru unlock_delay_bounds [of "Suc (failed_unlocks u)"] show ?thesis by (auto simp: at_rest_def)
  qed
qed

inductive tries :: "crypto_prims \<Rightarrow> ('m, 'a) vsys_scheme \<Rightarrow> ('m, 'a) vsys_scheme \<Rightarrow> bool" for P where
  idle: "tries P s s"
| refused: "tries P s t \<Longrightarrow> unlock P pw t = (Inl e, u) \<Longrightarrow> tries P s u"
| later: "tries P s t \<Longrightarrow> 0 \<le> d \<Longrightarrow> tries P s (t\<lparr>now := now t + d\<rparr>)"

lemma tries_rest: "tries P s t \<Longrightarrow> at_rest s v \<Longrightarrow> at_rest t v \<and> db t = db s"
proof (induction rule: tries.induct)
  case (refused s t pw e u)
  then show ?case using failed_unlock_rests by fastforce
next
  case (later s t d)
  then have "at_rest t v \<and> db t = db s" by blast
  with later(2) show ?case by (auto simp: at_rest_def)
qed simp

lemma load_vault_at_rest:
  assumes "at_rest s v"
  shows "\<exists>u. load_vault s = (Inr (), u) \<and> vault u = v \<and> db u = db s \<and> db_open u \<and> (\<forall>n. io_ok u n)"
proof (cases "loaded s")
  case True
  with assms load_vault_loaded [OF True] show ?thesis by (auto simp: at_rest_def)
next
  case False
  with assms obtain row where row: "t_vault (db s) = Some row" "length (vr_vault_id row) = 16"
    "v_format_version v \<le> format_version" "v = fresh_vault (vr_vault_id row) (ucast (vr_format_version row)) (ucast (vr_active_envelope_version row))"
    and io: "db_open s" "\<And>n. io_ok s n" by (auto simp: at_rest_def)
  have "get_vault s = (Inr row, s\<lparr>io_pos := Suc (io_pos s)\<rparr>)"
    by (simp add: get_vault_def one_row_def prog_simps row io)
  then have "attempt get_vault s = (Inr (Inr row), s\<lparr>io_pos := Suc (io_pos s)\<rparr>)"
    by (rule attempt_Inr)
  with False row io show ?thesis
    by (simp add: load_vault_def mbind_unfold id_from_bytes_def id_len_def set_vault_def prog_simps fresh_vault_def not_less)
      (blast intro: io)
qed

text \<open>Nobody can keep the owner out: a minute after any series of failed attempts the right password opens.\<close>

lemma unlock_after_a_minute:
  assumes "tries P s t" and "at_rest s v" and "active_envelope v (db s) = Some e"
    and "envelope_opens P pw (v_id v) e rk" and "60 * 1000000000 \<le> d"
  shows "\<exists>u. unlock P pw (t\<lparr>now := now t + d\<rparr>) = (Inr (), u)"
proof -
  let ?t = "t\<lparr>now := now t + d\<rparr>"
  from tries_rest [OF assms(1,2)] have t: "at_rest t v" "db t = db s" by simp_all
  then have r: "at_rest ?t v" and n: "\<not> now ?t < next_unlock_at ?t" using assms(5) by (auto simp: at_rest_def)
  from load_vault_at_rest [OF r] obtain u where u: "load_vault ?t = (Inr (), u)" "vault u = v" "db u = db s" "db_open u" "\<And>n. io_ok u n"
    using t(2) by auto
  from unlock_succeeds [OF n u(1,4,5), of e P pw rk] assms(3,4) u(2,3) show ?thesis by auto
qed

end
