(* ===== verification/Catalog_Spec.thy ===== *)
theory Catalog_Spec
  imports History
begin

text \<open>
  What the record catalog promises, without rows, nonces or ciphertexts: a map from identifiers
  to a revision and a secret. A command of \<^verbatim>\<open>internal/records/application\<close> either
  performs one change of this map or leaves it alone, and a reveal reads it. The rows of the
  database, seen through the keys of the open vault, simulate the map along every history.
\<close>

section \<open>The abstract catalog\<close>

type_synonym catalog = "ident \<rightharpoonup> u64 \<times> secret_payload"

datatype change =
    Put ident secret_payload
  | Replace ident u64 secret_payload
  | Gone ident
  | Look ident secret_payload
  | Nothing

text \<open>Custom fields come back in the order of their names, since the stored form is a JSON object
  whose members the encoder sorts.\<close>

definition kept_secret :: "secret_payload \<Rightarrow> secret_payload" where
  "kept_secret p = p\<lparr>sp_custom := sort_key fst (sp_custom p)\<rparr>"

text \<open>A change the catalog does not allow is undefined: a creation under an identifier in use, an
  update against a revision that is not the current one, a deletion of nothing, a reveal of
  anything but the secret last written.\<close>

fun perform :: "change \<Rightarrow> catalog \<Rightarrow> catalog option" where
  "perform (Put i p) m = (if m i = None then Some (m(i \<mapsto> (1, kept_secret p))) else None)"
| "perform (Replace i n p) m =
     (if map_option fst (m i) = Some n then Some (m(i \<mapsto> (n + 1, kept_secret p))) else None)"
| "perform (Gone i) m = (if m i = None then None else Some (m(i := None)))"
| "perform (Look i p) m = (if map_option snd (m i) = Some p then Some m else None)"
| "perform Nothing m = Some m"

fun perform_all :: "change list \<Rightarrow> catalog \<Rightarrow> catalog option" where
  "perform_all [] m = Some m"
| "perform_all (c # cs) m = Option.bind (perform c m) (perform_all cs)"

section \<open>What the rows stand for\<close>

definition row_secret :: "crypto_prims \<Rightarrow> json \<Rightarrow> keyring \<Rightarrow> bytes \<Rightarrow> u32 \<Rightarrow> record_row \<Rightarrow> (u64 \<times> secret_payload) option" where
  "row_secret P J kr vid fv row =
     (case sbind (open_secret P kr vid fv row) (decode_secret J) of
        Inl _ \<Rightarrow> None
      | Inr p \<Rightarrow> Some (rr_revision row, p))"

definition catalog_of :: "crypto_prims \<Rightarrow> json \<Rightarrow> ('b, 'a) rsys \<Rightarrow> catalog" where
  "catalog_of P J s i =
     Option.bind (keyring s) (\<lambda>kr.
     Option.bind (pk_find rr_record_id i (t_records (db s)))
       (row_secret P J kr (v_id (vault s)) (v_format_version (vault s))))"

text \<open>Every row opens, under the key version of the open vault (so none is older than the last
  change of the master password).\<close>

definition all_open :: "crypto_prims \<Rightarrow> json \<Rightarrow> ('b, 'a) rsys \<Rightarrow> bool" where
  "all_open P J s \<longleftrightarrow> distinct (map rr_record_id (t_records (db s))) \<and>
     list_all (\<lambda>row. ucast (rr_key_version row) = v_active_envelope_version (vault s) \<and>
        catalog_of P J s (rr_record_id row) \<noteq> None) (t_records (db s))"

inductive catalog_step ::
  "crypto_prims \<Rightarrow> json \<Rightarrow> 'w web_scheme \<Rightarrow> change \<Rightarrow> ('b, 'a) rsys \<Rightarrow> ('b, 'a) rsys \<Rightarrow> bool"
  for P J W where
  put: "create_record P J W ty meta p s = (Inr i, t) \<Longrightarrow> secret_clean p \<Longrightarrow> catalog_step P J W (Put i p) s t"
| replace: "update_record_op P J W i n meta p s = (Inr (), t) \<Longrightarrow> secret_clean p \<Longrightarrow>
    catalog_step P J W (Replace i n p) s t"
| gone: "delete_record_op P W i s = (Inr (), t) \<Longrightarrow> catalog_step P J W (Gone i) s t"
| look: "reveal P J i s = (Inr p, t) \<Longrightarrow> catalog_step P J W (Look i p) s t"
| put_fails: "create_record P J W ty meta p s = (Inl e, t) \<Longrightarrow> catalog_step P J W Nothing s t"
| replace_fails: "update_record_op P J W i n meta p s = (Inl e, t) \<Longrightarrow> catalog_step P J W Nothing s t"
| gone_fails: "delete_record_op P W i s = (Inl e, t) \<Longrightarrow> catalog_step P J W Nothing s t"
| look_fails: "reveal P J i s = (Inl e, t) \<Longrightarrow> catalog_step P J W Nothing s t"
| clock: "0 \<le> d \<Longrightarrow> catalog_step P J W Nothing s (s\<lparr>now := now s + d\<rparr>)"

inductive catalog_steps ::
  "crypto_prims \<Rightarrow> json \<Rightarrow> 'w web_scheme \<Rightarrow> change list \<Rightarrow> ('b, 'a) rsys \<Rightarrow> ('b, 'a) rsys \<Rightarrow> bool"
  for P J W where
  none: "catalog_steps P J W [] s s"
| more: "catalog_step P J W c s u \<Longrightarrow> catalog_steps P J W cs u t \<Longrightarrow> catalog_steps P J W (c # cs) s t"

inductive_cases catalog_stepE: "catalog_step P J W c s t"

section \<open>Frames\<close>

text \<open>The keys and the identity of the vault, which no command of the catalog touches.\<close>

definition vault_view :: "('m, 'a) vsys_scheme \<Rightarrow> keyring option \<times> bytes \<times> u32 \<times> u32" where
  "vault_view s = (keyring s, v_id (vault s), v_format_version (vault s), v_active_envelope_version (vault s))"

lemma view_fixed: "obeys (same_on fixed) m \<Longrightarrow> obeys (same_on vault_view) m"
  by (rule fixed_frame) (auto simp: vault_view_def dest: more_vsys)

lemma view_notes:
  "obeys (same_on vault_view) (note_stamped n)" "obeys (same_on vault_view) (with_index f)"
  by (auto simp: obeys_def same_on_def note_stamped_def note_counter_def vault_view_def prog_simps split: if_splits)

lemma view_ops:
  "obeys (same_on vault_view) (create_record P J W ty meta p)"
  "obeys (same_on vault_view) (update_record_op P J W i n meta p)"
  "obeys (same_on vault_view) (delete_record_op P W i)"
  "obeys (same_on vault_view) (reveal P J i)"
proof -
  show "obeys (same_on vault_view) (create_record P J W ty meta p)"
    unfolding create_record_def Let_def
    by (intro same.ok_intros view_notes view_fixed fixed_keys fixed_new fixed_validated fixed_encrypt
        fixed_vault_info fixed_tx fixed_commands fixed_records_stamp)
  show "obeys (same_on vault_view) (update_record_op P J W i n meta p)"
    unfolding update_record_op_def Let_def the_index_def
    by (intro same.ok_intros view_notes view_fixed fixed_keys fixed_validated fixed_encrypt
        fixed_stamped_change fixed_commands)
  show "obeys (same_on vault_view) (delete_record_op P W i)"
    unfolding delete_record_op_def
    by (intro same.ok_intros view_notes view_fixed fixed_keys fixed_stamped_change fixed_commands)
  show "obeys (same_on vault_view) (reveal P J i)"
    unfolding reveal_def
    by (intro same.ok_intros same.ok_replace_error view_fixed fixed_keys fixed_vault_info fixed_queries)
qed

lemma catalog_of_eq: "vault_view t = vault_view s \<Longrightarrow> t_records (db t) = t_records (db s) \<Longrightarrow>
    catalog_of P J t = catalog_of P J s \<and> all_open P J t = all_open P J s"
  by (simp add: catalog_of_def all_open_def vault_view_def fun_eq_iff)

lemma reads_reveal: "obeys (same_on contents) (reveal P J i)"
  unfolding reveal_def get_record_def
  by (intro same.ok_intros same.ok_replace_error reads_basic reads_query)

lemma all_open_iff:
  assumes "distinct (map rr_record_id (t_records (db s)))"
  shows "all_open P J s \<longleftrightarrow>
    (\<forall>i row. pk_find rr_record_id i (t_records (db s)) = Some row \<longrightarrow>
       ucast (rr_key_version row) = v_active_envelope_version (vault s) \<and> catalog_of P J s i \<noteq> None)"
  using assms by (fastforce simp: all_open_def list_all_iff dest: pk_find_Some pk_find_mem)

lemma row_secret_sealed:
  assumes "aead_correct P" and "json_faithful J" and "secret_clean p"
    and "seal P (k_secret kr) (rr_secret_nonce row) (encode_secret J p)
      (record_aad vid (rr_record_id row) (rr_revision row) PayloadSecret fv kv) = Inr (rr_secret_ciphertext row)"
    and "ucast (rr_key_version row) = kv"
  shows "row_secret P J kr vid fv row = Some (rr_revision row, kept_secret p)"
  using open_seal [OF assms(1,4)] decode_encode_secret [OF assms(2,3)] assms(5)
  by (simp add: row_secret_def open_secret_def kept_secret_def)

section \<open>The simulation\<close>

lemma put_simulates:
  assumes "aead_correct P" and "json_faithful J" and "all_open P J s"
    and c: "create_record P J W ty meta p s = (Inr i, t)" and "secret_clean p"
  shows "perform (Put i p) (catalog_of P J s) = Some (catalog_of P J t) \<and> all_open P J t"
proof -
  from create_recordE [OF c] obtain kr and x :: sealed_record where k: "keyring s = Some kr"
    and sl: "seal P (k_secret kr) (sl_sec_nonce x) (encode_secret J p)
      (record_aad (v_id (vault s)) i 1 PayloadSecret (v_format_version (vault s)) (v_active_envelope_version (vault s))) = Inr (sl_sec_ct x)"
    and ins: "pk_insert rr_record_id record_check \<lparr>rr_record_id = i, rr_key_version = ucast (v_active_envelope_version (vault s)),
      rr_revision = 1, rr_metadata_nonce = sl_meta_nonce x, rr_metadata_ciphertext = sl_meta_ct x,
      rr_secret_nonce = sl_sec_nonce x, rr_secret_ciphertext = sl_sec_ct x,
      rr_payload_version = payload_version\<rparr> (t_records (db s)) = Inr (t_records (db t))" (is "pk_insert _ _ ?row _ = _")
    and t: "vault t = vault s" "keyring t = keyring s" .
  have rows: "t_records (db t) = t_records (db s) @ [?row]" and new: "pk_find rr_record_id i (t_records (db s)) = None"
    using ins by (auto simp: pk_insert_Inr_iff pk_find_None)
  have sec: "row_secret P J kr (v_id (vault s)) (v_format_version (vault s)) ?row = Some (1, kept_secret p)"
    using row_secret_sealed [OF assms(1,2,5), of kr ?row "v_id (vault s)" "v_format_version (vault s)"
        "v_active_envelope_version (vault s)"] sl by simp
  have cat: "catalog_of P J t = (catalog_of P J s)(i \<mapsto> (1, kept_secret p))"
    using new sec by (auto simp: catalog_of_def fun_eq_iff k t rows pk_find_append split: option.splits)
  have d: "distinct (map rr_record_id (t_records (db s)))" using assms(3) by (simp add: all_open_def)
  then have d': "distinct (map rr_record_id (t_records (db t)))" using new by (simp add: rows pk_find_None)
  have "all_open P J t"
    using assms(3) new unfolding all_open_iff [OF d'] all_open_iff [OF d]
    by (auto simp: cat t rows pk_find_append split: option.splits if_splits)
  moreover have "catalog_of P J s i = None" by (simp add: catalog_of_def new bind_eq_None_conv)
  ultimately show ?thesis by (simp add: cat)
qed

lemma replace_simulates:
  assumes "aead_correct P" and "json_faithful J" and "all_open P J s"
    and c: "update_record_op P J W i n meta p s = (Inr (), t)" and "secret_clean p"
  shows "perform (Replace i n p) (catalog_of P J s) = Some (catalog_of P J t) \<and> all_open P J t"
proof -
  from update_record_op_Inr [OF c] obtain kr and x :: sealed_record where k: "keyring s = Some kr"
    and sl: "seal P (k_secret kr) (sl_sec_nonce x) (encode_secret J p)
      (record_aad (v_id (vault s)) i (n + 1) PayloadSecret (v_format_version (vault s)) (v_active_envelope_version (vault s))) = Inr (sl_sec_ct x)"
    and ex: "\<exists>r \<in> set (t_records (db s)). rr_record_id r = i \<and> rr_revision r = n"
    and rows: "t_records (db t) = map (\<lambda>r. if rr_record_id r = i \<and> rr_revision r = n
      then updated_row x (n + 1) r else r) (t_records (db s))"
    and t: "vault t = vault s" "keyring t = keyring s" by (elim exE conjE) (rule that; assumption)
  have d: "distinct (map rr_record_id (t_records (db s)))" using assms(3) by (simp add: all_open_def)
  from ex obtain r where r: "r \<in> set (t_records (db s))" "rr_record_id r = i" "rr_revision r = n" by blast
  have fr: "pk_find rr_record_id i (t_records (db s)) = Some r" using pk_find_mem [OF d r(1)] r(2) by simp
  have kv: "ucast (rr_key_version r) = v_active_envelope_version (vault s)" and open_r: "catalog_of P J s i \<noteq> None"
    using assms(3) fr unfolding all_open_iff [OF d] by blast+
  have u: "rr_record_id (updated_row x m r') = rr_record_id r'" "rr_key_version (updated_row x m r') = rr_key_version r'"
    "rr_revision (updated_row x m r') = m" "rr_secret_nonce (updated_row x m r') = sl_sec_nonce x"
    "rr_secret_ciphertext (updated_row x m r') = sl_sec_ct x" for m r'
    by (simp_all add: updated_row_def)
  have find: "pk_find rr_record_id j (t_records (db t)) =
      map_option (\<lambda>r. if rr_record_id r = i \<and> rr_revision r = n then updated_row x (n + 1) r else r)
        (pk_find rr_record_id j (t_records (db s)))" for j
    unfolding rows by (rule pk_find_map) (rule u)
  have sec: "row_secret P J kr (v_id (vault s)) (v_format_version (vault s)) (updated_row x (n + 1) r) = Some (n + 1, kept_secret p)"
    using row_secret_sealed [OF assms(1,2,5), of kr "updated_row x (n + 1) r" "v_id (vault s)" "v_format_version (vault s)"
        "v_active_envelope_version (vault s)"] sl kv by (simp add: u r)
  have other: "rr_record_id r' \<noteq> i" if "pk_find rr_record_id j (t_records (db s)) = Some r'" "j \<noteq> i" for j r'
    using pk_find_Some [OF that(1)] that(2) by simp
  have cat: "catalog_of P J t j = ((catalog_of P J s)(i \<mapsto> (n + 1, kept_secret p))) j" for j
  proof (cases "j = i")
    case True
    then show ?thesis by (simp add: catalog_of_def k t find fr r sec)
  next
    case False
    then show ?thesis
      by (cases "pk_find rr_record_id j (t_records (db s))") (simp_all add: catalog_of_def k t find other)
  qed
  have "map rr_record_id (t_records (db t)) = map rr_record_id (t_records (db s))"
    by (simp add: rows u)
  then have d': "distinct (map rr_record_id (t_records (db t)))" using d by simp
  have "all_open P J t"
    using assms(3) unfolding all_open_iff [OF d'] all_open_iff [OF d]
    by (auto simp: cat t find u)
  moreover have "map_option fst (catalog_of P J s i) = Some n"
    using open_r by (auto simp: catalog_of_def k fr row_secret_def r split: sum.splits)
  ultimately show ?thesis by (simp add: cat fun_eq_iff)
qed

lemma gone_simulates:
  assumes "all_open P J s" and c: "delete_record_op P W i s = (Inr (), t)"
  shows "perform (Gone i) (catalog_of P J s) = Some (catalog_of P J t) \<and> all_open P J t"
proof -
  from delete_record_op_Inr [OF c] have ex: "i \<in> rr_record_id ` set (t_records (db s))"
    and rows: "t_records (db t) = snd (pk_delete rr_record_id i (t_records (db s)))"
    and t: "vault t = vault s" "keyring t = keyring s" by (auto simp: pk_delete_def)
  have d: "distinct (map rr_record_id (t_records (db s)))" using assms(1) by (simp add: all_open_def)
  then have d': "distinct (map rr_record_id (t_records (db t)))"
    by (simp add: rows pk_delete_def Let_def distinct_map_filter)
  have cat: "catalog_of P J t = (catalog_of P J s)(i := None)"
    by (simp add: catalog_of_def fun_eq_iff t rows pk_find_delete bind_eq_None_conv)
  have "all_open P J t"
    using assms(1) unfolding all_open_iff [OF d'] all_open_iff [OF d] by (auto simp: cat t rows pk_find_delete split: if_splits)
  moreover have "catalog_of P J s i \<noteq> None"
  proof -
    from ex obtain r where "pk_find rr_record_id i (t_records (db s)) = Some r"
      using pk_find_None [of rr_record_id i "t_records (db s)"] by (cases "pk_find rr_record_id i (t_records (db s))") auto
    with assms(1) show ?thesis unfolding all_open_iff [OF d] by blast
  qed
  ultimately show ?thesis by (simp add: cat)
qed

lemma look_simulates:
  assumes "reveal P J i s = (Inr p, t)"
  shows "perform (Look i p) (catalog_of P J s) = Some (catalog_of P J t)"
  using assms catalog_of_eq [of t s P J]
  by (auto simp: reveal_Inr_iff catalog_of_def row_secret_def vault_view_def)

lemma quiet_simulates:
  assumes "obeys (same_on vault_view) m" and "m s = (r, t)" and "contents t = contents s"
  shows "catalog_of P J t = catalog_of P J s \<and> all_open P J t = all_open P J s"
  by (rule catalog_of_eq) (use same_okD [OF assms(1,2)] assms(3) in \<open>simp_all add: contents_def\<close>)

lemma step_simulates:
  assumes "aead_correct P" and "json_faithful J" and "all_open P J s" and "catalog_step P J W c s t"
  shows "perform c (catalog_of P J s) = Some (catalog_of P J t) \<and> all_open P J t"
  using assms(4)
proof cases
  case (put ty meta p i)
  show ?thesis unfolding put(1) by (rule put_simulates [OF assms(1-3) put(2,3)])
next
  case (replace i n meta p)
  show ?thesis unfolding replace(1) by (rule replace_simulates [OF assms(1-3) replace(2,3)])
next
  case (gone i)
  show ?thesis unfolding gone(1) by (rule gone_simulates [OF assms(3) gone(2)])
next
  case (look i p)
  with look_simulates look quiet_simulates [OF view_ops(4) look(2) same_okD [OF reads_reveal look(2)]] assms(3)
  show ?thesis by blast
next
  case (put_fails ty meta p e)
  with quiet_simulates [OF view_ops(1) put_fails(2) atomicD [OF atomic_create put_fails(2)]] assms(3) show ?thesis by simp
next
  case (replace_fails i n meta p e)
  with quiet_simulates [OF view_ops(2) replace_fails(2) atomicD [OF atomic_update replace_fails(2)]] assms(3) show ?thesis by simp
next
  case (gone_fails i e)
  with quiet_simulates [OF view_ops(3) gone_fails(2) atomicD [OF atomic_delete gone_fails(2)]] assms(3) show ?thesis by simp
next
  case (look_fails i e)
  with quiet_simulates [OF view_ops(4) look_fails(2) same_okD [OF reads_reveal look_fails(2)]] assms(3) show ?thesis by simp
next
  case (clock d)
  then have "catalog_of P J t = catalog_of P J s \<and> all_open P J t = all_open P J s"
    by (intro catalog_of_eq) (simp_all add: vault_view_def)
  with clock assms(3) show ?thesis by simp
qed

lemma steps_simulate:
  assumes "catalog_steps P J W cs s t" and "aead_correct P" and "json_faithful J" and "all_open P J s"
  shows "perform_all cs (catalog_of P J s) = Some (catalog_of P J t) \<and> all_open P J t"
  using assms by induction (auto dest: step_simulates)

text \<open>What a reveal answers, in terms of the map.\<close>

lemma reveal_answers:
  assumes "all_open P J s" and "is_unlocked (vault s)" "keyring s = Some kr" "loaded s" "db_open s" "io_ok s (io_pos s)"
  shows "fst (reveal P J i s) = (case catalog_of P J s i of None \<Rightarrow> Inl ErrRecordNotFound | Some (n, p) \<Rightarrow> Inr p)"
proof (cases "pk_find rr_record_id i (t_records (db s))")
  case None
  have k: "mbind keys f s = f kr s" for f :: "keyring \<Rightarrow> ('a, 'b) rsys \<Rightarrow> _"
    by (rule mbind_Inr) (simp add: prog_simps assms)
  have v: "mbind vault_info f s = f (v_id (vault s), v_format_version (vault s), v_active_envelope_version (vault s)) s"
    for f :: "_ \<Rightarrow> ('a, 'b) rsys \<Rightarrow> _"
    by (rule mbind_Inr) (simp add: prog_simps assms)
  have "get_record i s = (Inl ErrNoRows, s\<lparr>io_pos := Suc (io_pos s)\<rparr>)"
    by (simp add: get_record_def sql_query_def io_step_def mbind_def prog_simps one_row_def None assms)
  then have "replace_error ErrRecordNotFound (get_record i) s = (Inl ErrRecordNotFound, s\<lparr>io_pos := Suc (io_pos s)\<rparr>)"
    by (rule replace_error_Inl) simp
  with None show ?thesis by (simp add: reveal_def k v mbind_Inl catalog_of_def)
next
  case (Some row)
  have d: "distinct (map rr_record_id (t_records (db s)))" using assms(1) by (simp add: all_open_def)
  have "catalog_of P J s i \<noteq> None" using assms(1) Some unfolding all_open_iff [OF d] by blast
  then obtain n p where c: "catalog_of P J s i = Some (n, p)" by auto
  then obtain plain where "open_secret P kr (v_id (vault s)) (v_format_version (vault s)) row = Inr plain" "decode_secret J plain = Inr p"
    by (auto simp: catalog_of_def assms(3) Some row_secret_def sbind_Inr_iff split: sum.splits)
  then have "reveal P J i s = (Inr p, s\<lparr>io_pos := Suc (io_pos s)\<rparr>)"
    using Some assms by (simp add: reveal_Inr_iff)
  with c show ?thesis by simp
qed

end
