(* ===== verification/Progress.thy ===== *)
theory Progress
  imports Records
begin

text \<open>
  Progress: on a healthy environment (the store open, no I/O failure, no failure of the random
  source) the operations of the vault and of the record catalog run through, so the theorems
  about what a successful run leaves are not vacuous. The concrete instance at the end is the
  one on which the witnesses of the development run.
\<close>

section \<open>Creation of a vault\<close>

lemma healthy_fixed: "env_fixed t = env_fixed s \<Longrightarrow> healthy t = healthy s"
  by (simp add: healthy_def env_fixed_def)

lemma healthyD: "healthy s \<Longrightarrow> db_open s \<and> io_ok s n \<and> rnd_ok s k"
  by (simp add: healthy_def)

lemma kdf_valid_bounds:
  assumes "kdf_validate params = None"
  shows "65536 \<le> sint (ucast (memory_kib params) :: i64) \<and> 3 \<le> sint (ucast (iterations params) :: i64) \<and>
    1 \<le> sint (ucast (parallelism params) :: i64)"
proof -
  have "\<not> memory_kib params < 65536" "\<not> iterations params < 3" "\<not> parallelism params < 1"
    using assms by (auto simp: kdf_validate_def split: if_splits)
  then have "65536 \<le> uint (memory_kib params)" "3 \<le> uint (iterations params)" "1 \<le> uint (parallelism params)"
    by (simp_all add: word_less_def)
  moreover have "sint (ucast (w :: u8) :: i64) = int (unat w)" for w
    by transfer (simp add: signed_take_bit_eq_if_positive bit_take_bit_iff)
  ultimately show ?thesis by simp
qed

lemma derive_kek_eq:
  "kdf_validate params = None \<Longrightarrow> length salt = 16 \<Longrightarrow>
     derive_kek P pw salt params = Inr (argon2_idkey P pw salt (iterations params) (memory_kib params) (parallelism params) 32)"
  by (simp add: derive_kek_def salt_size_def key_size_def)

lemma seal_eq: "length k = 32 \<Longrightarrow> length n = 24 \<Longrightarrow> seal P k n p a = Inr (xchacha_seal P k n p a)"
  by (simp add: seal_Inr_iff)

lemma derive_subkey_eq: "length k = 32 \<Longrightarrow> derive_subkey P k l = Inr (hkdf_sha256 P k l 32)"
  by (simp add: derive_subkey_Inr_iff)

lemma build_envelope_runs:
  assumes "prims_widths P" and "\<And>n. rnd_ok s n" and "kdf_validate params = None" and "length rk = 32"
    and "length vid = 16"
  shows "runs (build_envelope P vid ver rk pw params) s (\<lambda>e t. (\<forall>c. envelope_check (e\<lparr>er_created_at_ms := c\<rparr>)) \<and>
    er_vault_id e = vid \<and> er_envelope_version e = ucast ver \<and> fixed t = fixed s \<and> db t = db s)"
proof -
  have k: "length (argon2_idkey P pw' salt m n p 32) = 32" for pw' salt m n p
    using assms(1) by (simp add: prims_widths_def)
  show ?thesis
    using kdf_valid_bounds [OF assms(3)]
    by (simp add: build_envelope_def new_defs wp derive_kek_eq [OF assms(3)] seal_eq k assms(2,4,5)
        envelope_check_def del: upt.simps upt_Suc)
qed

lemma runs_bindI: "runs m s Q \<Longrightarrow> (\<And>x t. Q x t \<Longrightarrow> runs (f x) t R) \<Longrightarrow> runs (mbind m f) s R"
  by (auto simp: runs_bind elim: runs_mono)

text \<open>On an empty database of a healthy service, a vault can be created with any password.\<close>

definition blank :: "('m, 'a) vsys_scheme \<Rightarrow> bool" where
  "blank s \<longleftrightarrow> healthy s \<and> \<not> loaded s \<and> t_vault (db s) = None \<and> t_envelopes (db s) = [] \<and> t_state (db s) = None"

lemma load_vault_blank:
  "blank s \<Longrightarrow> attempt load_vault s = (Inr (Inl ErrVaultNotFound), s\<lparr>io_pos := Suc (io_pos s)\<rparr>)"
  by (simp add: blank_def load_vault_def attempt_def mbind_unfold prog_simps get_vault_def sql_query_def
      io_step_def healthy_def one_row_def)

lemma init_tx_runs:
  assumes P: "prims_widths P" and h: "healthy s" and v: "length (vr_vault_id r) = 16"
    and e: "envelope_check e" "er_vault_id e = vr_vault_id r" "er_envelope_version e = ucast ver"
    and d: "t_vault (db s) = None" "t_envelopes (db s) = []" "t_state (db s) = None"
  shows "runs (with_tx (mbind (insert_vault r) (\<lambda>_. mbind (insert_key_envelope e) (\<lambda>_. stamp P ck vid ver now_t)))) s
    (\<lambda>n t. True)"
proof -
  have ok: "db_open s" "\<And>n. io_ok s n" using h by (simp_all add: healthy_def)
  have st: "runs (stamp P ck vid ver now_t) (s\<lparr>io_pos := k, db := (db s)\<lparr>t_vault := Some r, t_envelopes := [e]\<rparr>\<rparr>) (\<lambda>n t. io_ok t (io_pos t))" for k
  proof -
    have "runs (stamp P ck vid ver now_t) (s\<lparr>io_pos := k, db := (db s)\<lparr>t_vault := Some r, t_envelopes := [e]\<rparr>\<rparr>) (\<lambda>n t. True)"
      by (rule runs_mono [OF stamp_runs [OF P, where e = e]])
        (use h d e in \<open>simp_all add: healthy_def pk_find_def next_counter_def\<close>)
    then obtain n t where t: "stamp P ck vid ver now_t (s\<lparr>io_pos := k, db := (db s)\<lparr>t_vault := Some r, t_envelopes := [e]\<rparr>\<rparr>) = (Inr n, t)"
      by (rule runsE)
    then have "io_ok t = io_ok s" by (drule_tac fixedD(4) [OF fixed_stamp]) simp
    with t ok show ?thesis by (auto simp: runs_def)
  qed
  show ?thesis
    by (simp add: wp insert_vault_def insert_key_envelope_def pk_insert_def vault_check_def ok v d e st [simplified])
qed

lemma vault_init_runs:
  assumes P: "prims_widths P" and "kdf_validate params = None" and b: "blank s"
  shows "runs (vault_init P pw params) s (\<lambda>_ t. True)"
proof -
  have ok: "db_open s" "\<And>n. io_ok s n" "\<And>n. rnd_ok s n" using b by (simp_all add: blank_def healthy_def)
  have al: "runs (attempt load_vault) s Q = Q (Inl ErrVaultNotFound) (s\<lparr>io_pos := Suc (io_pos s)\<rparr>)" for Q
    using load_vault_blank [OF b] by (simp add: runs_def)
  note d = b [unfolded blank_def]
  show ?thesis
    unfolding vault_init_def
    apply (simp add: wp al assms(2) new_id_def new_key_def key_size_def ok derive_subkey_eq
        note_counter_def set_vault_def del: upt.simps runs_tx)
    apply (rule runs_mono [OF build_envelope_runs [OF P _ assms(2)]])
       apply (simp_all add: ok del: upt.simps)
    apply (elim conjE)
    apply (rule runs_mono [OF init_tx_runs [OF P]])
    using d apply (simp_all add: fixed_def healthy_def del: upt.simps)
    done
qed

section \<open>A service at work\<close>

text \<open>
  A healthy, unlocked service with its envelope in place and room in the counter. Every
  operation on the records runs through in such a state, and leaves such a state.
\<close>

definition serving :: "crypto_prims \<Rightarrow> ('m, 'a) vsys_scheme \<Rightarrow> bool" where
  "serving P s \<longleftrightarrow> healthy s \<and> key_inv P s \<and> has_keys s \<and>
     (\<exists>e. active_envelope (vault s) (db s) = Some e) \<and> 0 \<le> sint (next_counter (t_state (db s)))"

lemma serving_keys:
  assumes "prims_widths P" and "serving P s"
  obtains kr where "keyring s = Some kr" "is_unlocked (vault s)" "loaded s"
    "length (k_metadata kr) = 32" "length (k_secret kr) = 32"
proof -
  from assms(2) obtain kr rk where k: "keyring s = Some kr" "is_unlocked (vault s)" "loaded s"
    and r: "derive_keyring P rk = Inr kr"
    by (auto simp: serving_def has_keys_def key_inv_def)
  from r have "derive_subkey P rk label_metadata = Inr (k_metadata kr)" "derive_subkey P rk label_secrets = Inr (k_secret kr)"
    by (auto simp: derive_keyring_def sbind_Inr_iff)
  then show ?thesis using that k derive_subkey_length [OF assms(1)] by blast
qed

lemma records_stamp_runs:
  assumes "prims_widths P" and "healthy s" and "loaded s" and "active_envelope (vault s) (db s) = Some e"
    and "0 \<le> sint (next_counter (t_state (db s)))"
  shows "runs (records_stamp P kr) s (\<lambda>n t. io_ok t (io_pos t))"
proof -
  have v: "vault_info s = (Inr (v_id (vault s), v_format_version (vault s), v_active_envelope_version (vault s)), s)"
    by (simp add: vault_info_Inr_iff assms)
  have "runs (records_stamp P kr) s (\<lambda>n t. True)"
    using stamp_runs [OF assms(1,2) assms(4) [unfolded active_envelope_def] assms(5),
        of "k_catalog kr" "v_id (vault s)" "now s"]
    by (simp add: records_stamp_def wp) (auto simp add: runs_def v)
  then obtain n t where "records_stamp P kr s = (Inr n, t)" by (rule runsE)
  moreover from this have "io_ok t = io_ok s" by (drule_tac fixedD(4) [OF fixed_records_stamp])
  ultimately show ?thesis using assms(2) by (auto simp: runs_def healthy_def)
qed

lemma encrypt_record_runs:
  assumes "prims_widths P" and "serving P s" and "keyring s = Some kr"
  shows "runs (encrypt_record P J kr r) s (\<lambda>x t. length (sl_meta_nonce x) = 24 \<and> length (sl_sec_nonce x) = 24 \<and>
    fixed t = fixed s \<and> db t = db s)"
proof -
  from serving_keys [OF assms(1,2)] assms(3) have k: "loaded s" "length (k_metadata kr) = 32" "length (k_secret kr) = 32"
    by auto
  have v: "runs vault_info s Q = Q (v_id (vault s), v_format_version (vault s), v_active_envelope_version (vault s)) s" for Q
    by (auto simp: runs_def vault_info_Inr_iff k)
  have "rnd_ok s n" for n using assms(2) by (simp add: serving_def healthy_def)
  then show ?thesis
    by (simp add: encrypt_record_def Let_def wp new_defs v seal_eq k del: upt.simps)
qed

lemma create_record_runs:
  assumes P: "prims_widths P" and s: "serving P s"
    and fresh: "map (rnd_src s) [rnd_pos s ..< rnd_pos s + 16] = i" "i \<notin> rr_record_id ` set (t_records (db s))"
    and valid: "record_validate \<lparr>rec_id = i, rec_type = ty, rec_revision = 1,
      rec_metadata = meta\<lparr>md_created_at := now s, md_updated_at := now s\<rparr>, rec_secret = sec\<rparr> = None"
  shows "runs (create_record P J W ty meta sec) s (\<lambda>j t. j = i)"
proof -
  obtain kr where kr: "keyring s = Some kr" "is_unlocked (vault s)" "loaded s"
    using serving_keys [OF P s] .
  have h: "db_open s" "\<And>n. io_ok s n" "\<And>n. rnd_ok s n" using s by (simp_all add: serving_def healthy_def)
  let ?s = "s\<lparr>rnd_pos := rnd_pos s + 16\<rparr>"
  have k: "runs keys s Q = Q kr s" for Q using kr by (auto simp: runs_def keys_Inr_iff)
  have s': "serving P ?s"
    using s key_inv_more [of ?s s P] by (simp add: serving_def healthy_def has_keys_def)
  have len: "length i = 16" using fresh(1) by auto
  have tx: "runs (with_tx (mbind (insert_record row) (\<lambda>_. records_stamp P kr))) u (\<lambda>n t. True)"
    if row: "record_check row" "rr_record_id row = i" and u: "fixed u = fixed s" "db u = db s" for row u
  proof -
    have f: "healthy u" "loaded u" "vault u = vault s"
      using u s kr more_vsys [of u s] by (simp_all add: fixed_def healthy_def serving_def)
    from s obtain e where e: "active_envelope (vault s) (db s) = Some e" and c: "0 \<le> sint (next_counter (t_state (db s)))"
      by (auto simp: serving_def)
    have "runs (records_stamp P kr) (u\<lparr>io_pos := n, db := (db s)\<lparr>t_records := rows\<rparr>\<rparr>) (\<lambda>n t. io_ok t (io_pos t))" for n rows
      using f e c by (intro records_stamp_runs [OF P, where e = e]) (simp_all add: healthy_def active_envelope_def)
    then show ?thesis using row f fresh(2)
      by (simp add: wp insert_record_def pk_insert_def healthy_def u)
  qed
  have inf: "runs vault_info u Q = Q (v_id (vault s), v_format_version (vault s), v_active_envelope_version (vault s)) u"
    if "fixed u = fixed s" for u Q
    using that kr more_vsys [of u s] by (auto simp: runs_def vault_info_Inr_iff fixed_def)
  show ?thesis
    unfolding create_record_def Let_def
    apply (simp add: wp k new_id_def h fresh len validated_def valid del: upt.simps runs_tx)
    apply (rule runs_mono [OF encrypt_record_runs [OF P s']])
     apply (simp add: kr)
    apply (elim conjE)
    apply (simp add: inf)
    apply (rule runs_bindI [OF tx])
    apply (simp_all add: record_check_def len note_stamped_def note_counter_def with_index_def wp)
    done
qed

text \<open>What keeps a service serving: the environment, the keys, the envelope, and a counter that
  has not run out.\<close>

lemma servingI:
  assumes "serving P s" and "env_fixed t = env_fixed s" and "key_inv P t" and "vault t = vault s"
    and "keyring t = keyring s" and "t_envelopes (db t) = t_envelopes (db s)"
    and "0 \<le> sint (next_counter (t_state (db t)))"
  shows "serving P t"
  using assms healthy_fixed [OF assms(2)] by (simp add: serving_def has_keys_def active_envelope_def)

lemma create_record_serving:
  assumes "serving P s" and "create_record P J W ty meta sec s = (Inr i, t)"
    and "0 \<le> sint (next_counter (t_state (db s)) + 1)"
  shows "serving P t"
proof -
  from create_record_Inr [OF assms(2)] have t: "env_fixed t = env_fixed s" "vault t = vault s" "keyring t = keyring s"
    "t_envelopes (db t) = t_envelopes (db s)"
    "\<exists>st. t_state (db t) = Some st \<and> st_state_counter st = next_counter (t_state (db s))" by auto
  have "key_inv P t"
    by (rule inv_okD [OF key_record_ops(1) assms(2)]) (use assms(1) in \<open>simp add: serving_def\<close>)
  with t assms show ?thesis by (intro servingI [OF assms(1)]) (auto simp: next_counter_def [of "Some _"])
qed

lemma update_record_op_runs:
  assumes P: "prims_widths P" and s: "serving P s" and w: "db_wf (db s)"
    and en: "index_get (rec_index (mem s)) i = Some entry"
    and r: "pk_find rr_record_id i (t_records (db s)) = Some r" "rr_revision r = n"
    and n: "1 \<le> sint (n + 1)"
    and valid: "record_validate \<lparr>rec_id = i, rec_type = ie_type entry, rec_revision = n + 1,
      rec_metadata = meta\<lparr>md_created_at := md_created_at (ie_metadata entry), md_updated_at := now s\<rparr>, rec_secret = sec\<rparr> = None"
  shows "runs (update_record_op P J W i n meta sec) s (\<lambda>_ t. True)"
proof -
  obtain kr where kr: "keyring s = Some kr" "is_unlocked (vault s)" "loaded s"
    using serving_keys [OF P s] .
  have h: "db_open s" "\<And>n. io_ok s n" "\<And>n. rnd_ok s n" using s by (simp_all add: serving_def healthy_def)
  have k: "runs keys s Q = Q kr s" for Q using kr by (auto simp: runs_def keys_Inr_iff)
  have ix: "runs the_index s Q = Q (rec_index (mem s)) s" for Q by (simp add: runs_def the_index_eq)
  have rid: "rr_record_id r = i" "r \<in> set (t_records (db s))" using pk_find_Some [OF r(1)] by simp_all
  have len: "length i = 16" using w rid by (auto simp: db_wf_def table_ok_def list_all_iff record_check_def)
  have tx: "runs (stamped_change P kr (update_record p n)) u (\<lambda>(rows, _) t. rows \<noteq> 0)"
    if p: "rr_record_id p = i" "rr_revision p = n + 1" "length (rr_metadata_nonce p) = 24" "length (rr_secret_nonce p) = 24"
      and u: "fixed u = fixed s" "db u = db s" for p u
  proof -
    have f: "healthy u" "loaded u" "vault u = vault s"
      using u s kr more_vsys [of u s] by (simp_all add: fixed_def healthy_def serving_def)
    from s obtain e where e: "active_envelope (vault s) (db s) = Some e" and c: "0 \<le> sint (next_counter (t_state (db s)))"
      by (auto simp: serving_def)
    have st: "runs (records_stamp P kr) (u\<lparr>io_pos := m, db := (db s)\<lparr>t_records := rows\<rparr>\<rparr>) (\<lambda>n t. io_ok t (io_pos t))" for m rows
      using f e c by (intro records_stamp_runs [OF P, where e = e]) (simp_all add: healthy_def active_envelope_def)
    have ne: "filter (\<lambda>r. rr_record_id r = i \<and> rr_revision r = n) (t_records (db s)) \<noteq> []"
      using rid r(2) by (auto simp: filter_empty_conv)
    show ?thesis using f p n
      by (simp add: stamped_change_def wp update_record_def pk_update_def healthy_def u list_ex_iff record_check_def len ne)
        (rule runs_mono [OF st], simp)
  qed
  show ?thesis
    unfolding update_record_op_def Let_def
    apply (simp add: wp k ix en validated_def valid del: upt.simps runs_tx)
    apply (rule runs_mono [OF encrypt_record_runs [OF P s kr(1)]])
    apply (elim conjE)
    apply (rule runs_mono [OF tx])
    apply (simp_all add: note_stamped_def note_counter_def with_index_def wp split: prod.splits)
    done
qed

section \<open>The rest of the life cycle\<close>

lemma load_index_runs:
  assumes "is_unlocked (vault s)" "keyring s = Some kr" "loaded s" "db_open s" "io_ok s (io_pos s)"
    and "smap (entry_of_row P J W kr (v_id (vault s)) (v_format_version (vault s))) (t_records (db s)) = Inr es"
  shows "runs (load_index P J W) s (\<lambda>_ t. t = s\<lparr>io_pos := Suc (io_pos s),
    mem := (mem s)\<lparr>rec_index := fold (index_put W) es new_index\<rparr>\<rparr>)"
proof -
  have k: "runs keys s Q = Q kr s" for Q using assms by (auto simp: runs_def keys_Inr_iff)
  have v: "runs vault_info s Q = Q (v_id (vault s), v_format_version (vault s), v_active_envelope_version (vault s)) s" for Q
    using assms by (auto simp: runs_def vault_info_Inr_iff)
  have l: "runs (mfor rows (load_row P J W kr vid fv)) u Q"
    if "smap (entry_of_row P J W kr vid fv) rows = Inr es"
      "Q () (u\<lparr>mem := (mem u)\<lparr>rec_index := fold (index_put W) es (rec_index (mem u))\<rparr>\<rparr>)" for rows u vid fv Q
    using that load_rows_Inr by (fastforce simp: runs_def)
  show ?thesis
    unfolding load_index_def list_records_def with_index_def
    by (simp add: wp k v assms(4,5)) (rule l [OF assms(6)], simp add: index_clear_def)
qed

text \<open>A record just created loads again, with its times in milliseconds.\<close>

lemma create_record_loads:
  assumes "aead_correct P" and "json_faithful J" and "create_record P J W ty meta sec s = (Inr i, t)"
    and "metadata_clean W ty (meta\<lparr>md_created_at := now s, md_updated_at := now s\<rparr>)"
  shows "\<exists>row kr. t_records (db t) = t_records (db s) @ [row] \<and> rr_record_id row = i \<and> rr_revision row = 1 \<and>
    rr_key_version row = ucast (v_active_envelope_version (vault s)) \<and> keyring s = Some kr \<and>
    entry_of_row P J W kr (v_id (vault s)) (v_format_version (vault s)) row =
      Inr \<lparr>ie_id = i, ie_type = ty, ie_revision = 1,
        ie_metadata = in_millis (meta\<lparr>md_created_at := now s, md_updated_at := now s\<rparr>)\<rparr>"
proof -
  from create_record_Inr [OF assms(3)] obtain kr and x :: sealed_record where k: "keyring s = Some kr" "length i = 16"
    and ml: "seal P (k_metadata kr) (sl_meta_nonce x) (encode_metadata J ty (meta\<lparr>md_created_at := now s, md_updated_at := now s\<rparr>))
      (record_aad (v_id (vault s)) i 1 PayloadMetadata (v_format_version (vault s)) (v_active_envelope_version (vault s))) = Inr (sl_meta_ct x)"
    and ins: "pk_insert rr_record_id record_check \<lparr>rr_record_id = i, rr_key_version = ucast (v_active_envelope_version (vault s)),
      rr_revision = 1, rr_metadata_nonce = sl_meta_nonce x, rr_metadata_ciphertext = sl_meta_ct x,
      rr_secret_nonce = sl_sec_nonce x, rr_secret_ciphertext = sl_sec_ct x,
      rr_payload_version = payload_version\<rparr> (t_records (db s)) = Inr (t_records (db t))" (is "pk_insert _ _ ?row _ = _")
    by (elim exE conjE) (rule that; assumption)
  have "open_metadata P kr (v_id (vault s)) (v_format_version (vault s)) ?row
      = Inr (encode_metadata J ty (meta\<lparr>md_created_at := now s, md_updated_at := now s\<rparr>))"
    using open_seal [OF assms(1) ml] by (simp add: open_metadata_def)
  then have "entry_of_row P J W kr (v_id (vault s)) (v_format_version (vault s)) ?row =
      Inr \<lparr>ie_id = i, ie_type = ty, ie_revision = 1,
        ie_metadata = in_millis (meta\<lparr>md_created_at := now s, md_updated_at := now s\<rparr>)\<rparr>"
    by (simp add: entry_of_row_def k decode_encode_metadata [OF assms(2,4)])
  with ins k show ?thesis by (intro exI [of _ ?row] exI [of _ kr]) (simp add: pk_insert_Inr_iff)
qed

lemma change_tx_runs:
  fixes s :: "'a env_scheme"
  assumes P: "prims_widths P" and h: "healthy s" and v: "t_vault (db s) = Some row" "vr_vault_id row = er_vault_id e"
    and e: "envelope_check e" "er_envelope_version e = ucast ver" "er_envelope_version e \<noteq> old"
    and new: "er_envelope_version e \<notin> er_envelope_version ` set (t_envelopes (db s))"
    and c: "0 \<le> sint (next_counter (t_state (db s)))"
  shows "runs (with_tx (mbind (insert_key_envelope e) (\<lambda>_. mbind (set_active_envelope av ms) (\<lambda>_.
       mbind (delete_key_envelope old) (\<lambda>_. stamp P ck vid ver now_t))))) s (\<lambda>n t. True)"
proof -
  have ok: "db_open s" "\<And>n. io_ok s n" using h by (simp_all add: healthy_def)
  have st: "runs (stamp P ck vid ver now_t) u (\<lambda>n t. io_ok t (io_pos t))"
    if u: "healthy u" "t_state (db u) = t_state (db s)" "t_envelopes (db u) = snd (pk_delete er_envelope_version old (t_envelopes (db s) @ [e]))"
    for u :: "'a env_scheme"
  proof -
    have "pk_find er_envelope_version (ucast ver) (t_envelopes (db s)) = None"
      using new by (simp add: pk_find_None e(2))
    then have "pk_find er_envelope_version (ucast ver) (t_envelopes (db u)) = Some e"
      using e by (simp add: u(3) pk_find_delete pk_find_append)
    from stamp_runs [OF P u(1) this, unfolded u(2), OF c] obtain n t where "stamp P ck vid ver now_t u = (Inr n, t)"
      by (rule runsE)
    moreover from this have "io_ok t = io_ok u" by (drule_tac fixedD(4) [OF fixed_stamp])
    ultimately show ?thesis using u(1) by (auto simp: runs_def healthy_def)
  qed
  show ?thesis
    by (simp add: wp insert_key_envelope_def set_active_envelope_def delete_key_envelope_def ok v e(1) pk_insert_def new [simplified])
      (rule st, use h in \<open>simp_all add: healthy_def\<close>)
qed

lemma change_master_password_runs:
  assumes P: "prims_widths P" and params: "kdf_validate params = None"
    and h: "healthy s" and l: "loaded s" "length (v_id (vault s)) = 16"
    and row: "t_vault (db s) = Some row" "vr_vault_id row = v_id (vault s)"
    and e: "active_envelope (vault s) (db s) = Some e" "envelope_opens P pw (v_id (vault s)) e rk"
    and new: "ucast (v_active_envelope_version (vault s) + 1) \<notin> er_envelope_version ` set (t_envelopes (db s))"
    and c: "0 \<le> sint (next_counter (t_state (db s)))"
  shows "runs (change_master_password P pw pw' params) s (\<lambda>_ t. True)"
proof -
  have ok: "db_open s" "\<And>n. io_ok s n" "\<And>n. rnd_ok s n" using h by (simp_all add: healthy_def)
  let ?v = "v_active_envelope_version (vault s)"
  have ver: "er_envelope_version e = ucast ?v" using pk_find_Some [OF e(1) [unfolded active_envelope_def]] by simp
  have old: "(ucast (?v + 1) :: i64) \<noteq> ucast ?v" using ucast_u32_inj [of "?v + 1" ?v] by auto
  obtain kek where kek: "row_kek P pw e = Inr kek" "unwrap_root P kek (v_id (vault s)) ?v e = Inr rk"
    using e(2) by (auto simp: envelope_opens_def ver)
  have rk: "length rk = 32" by (rule envelope_opens_key [OF e(2)])
  have lv: "runs load_vault s Q = Q () s" for Q by (simp add: runs_def load_vault_loaded l)
  have ge: "runs (get_key_envelope (ucast ?v)) s Q = Q e (s\<lparr>io_pos := Suc (io_pos s)\<rparr>)" for Q
    by (simp add: runs_def get_active_Inr_iff ok e)
  show ?thesis
    unfolding change_master_password_def Let_def ucast_Suc_u32
    apply (simp add: wp lv ge kek ucast_Suc_u32 del: runs_tx)
    apply (rule runs_mono [OF build_envelope_runs [OF P _ params rk l(2)]])
     apply (simp add: ok)
    apply (elim conjE)
    apply (simp add: derive_subkey_eq rk)
    apply (rule runs_mono [OF change_tx_runs [OF P]])
    using h row old new c
    apply (simp_all add: fixed_def healthy_def note_counter_def lock_def wp)
    done
qed

section \<open>The first unlock\<close>

text \<open>What the first unlock of a vault that was created on an empty database finds.\<close>

lemma first_unlock:
  fixes s :: "('m, 'a) vsys_scheme"
  assumes P: "aead_correct P" and init: "vault_init P pw params s = (Inr (), t)" and open_it: "unlock P pw t = (Inr (), u)"
    and blank: "t_envelopes (db s) = []" "t_state (db s) = None" "catalog_high_water s = 0"
    and h: "healthy s" "next_unlock_at s \<le> now s"
  obtains vid e rk ck kr st where "length vid = 16" "vault u = agg_unlock (fresh_vault vid format_version 1)"
    "active_envelope (vault u) (db u) = Some e" "envelope_opens P pw vid e rk"
    "t_envelopes (db u) = [e]" "derive_keyring P rk = Inr kr" "keyring u = Some kr"
    "root_key u = Some rk" "t_vault (db u) \<noteq> None" "vr_vault_id (the (t_vault (db u))) = vid"
    "t_state (db u) = Some st" "st_state_counter st = 1" "sint (catalog_high_water u) = 1"
    "t_records (db u) = t_records (db s)" "t_clients (db u) = t_clients (db s)" "loaded u" "env_fixed u = env_fixed s"
    "next_unlock_at u = zero_time" "mem u = mem t"
    "u = open_vault rk kr (t\<lparr>io_pos := Suc (io_pos t)\<rparr>)" "anchored P (k_catalog kr) vid 1 (db u)"
proof -
  from vault_init_Inr [OF P init] obtain vid e rk ck where
    i: "length vid = 16" "vault t = fresh_vault vid format_version 1" "loaded t"
      "\<exists>row. t_vault (db t) = Some row \<and> vr_vault_id row = vid \<and> vr_format_version row = ucast format_version \<and>
         vr_active_envelope_version row = 1"
      "active_envelope (vault t) (db t) = Some e" "envelope_opens P pw vid e rk"
      "t_records (db t) = t_records (db s)" "t_clients (db t) = t_clients (db s)"
      "t_envelopes (db t) = t_envelopes (db s) @ [e]"
      "derive_subkey P rk label_catalog = Inr ck" "anchored P ck vid 1 (db t)"
      "\<exists>st. t_state (db t) = Some st \<and> st_state_counter st = next_counter (t_state (db s)) \<and>
         catalog_high_water t = (if sint (catalog_high_water s) < sint (st_state_counter st)
         then st_state_counter st else catalog_high_water s)"
      "next_unlock_at t = next_unlock_at s" "env_fixed t = env_fixed s"
    by (elim exE conjE) (rule that; (assumption | (intro exI conjI; assumption)))
  have o: "\<not> now t < next_unlock_at t" "db_open t" "io_ok t (io_pos t)"
    using i(13,14) h by (simp_all add: env_fixed_def healthy_def)
  have e: "envelope_opens P pw (v_id (vault t)) e rk" using i(6) by (simp add: i(2) fresh_vault_def)
  from unlock_succeeds [OF o(1) load_vault_loaded [OF i(3)] o(2,3) i(5) e] open_it
  obtain kr where kr: "derive_keyring P rk = Inr kr" "u = open_vault rk kr (t\<lparr>io_pos := Suc (io_pos t)\<rparr>)" by auto
  have ck: "ck = k_catalog kr" using derive_keyring_catalog [OF kr(1)] i(10) by simp
  from i(12) blank obtain st where st: "t_state (db t) = Some st" "st_state_counter st = 1" "sint (catalog_high_water t) = 1"
    by (auto simp: next_counter_def)
  have ac: "active_envelope (vault u) (db u) = Some e"
    using i(5) by (simp add: kr(2) open_vault_def active_envelope_def agg_unlock_def)
  have d: "vault u = agg_unlock (fresh_vault vid format_version 1)" "db u = db t"
    "keyring u = Some kr" "root_key u = Some rk" "next_unlock_at u = zero_time"
    "catalog_high_water u = catalog_high_water t" "loaded u" "env_fixed u = env_fixed t" "mem u = mem t"
    by (simp_all add: kr(2) open_vault_def i(2,3) env_fixed_def)
  show ?thesis
    by (rule that [OF i(1) d(1) ac i(6) _ kr(1) d(3,4) _ _ _ st(2) _ _ _ d(7) _ _ d(9) kr(2)])
      (use i(4,7,8,9,11,14) blank st(1,3) ck d in auto)
qed

end
