(* ===== verification/Scenario.thy ===== *)
theory Scenario
  imports Progress
begin

text \<open>
  A concrete life of a vault on the transparent primitives: created, unlocked, one record
  stored, the master password changed, unlocked again, the index rebuilt. Each step runs, and
  the states are the inputs on which the witnesses of the development apply the theorems.
\<close>

section \<open>The start\<close>

definition boot :: "('m \<Rightarrow> 'm) list \<Rightarrow> 'm \<Rightarrow> 'm vsys" where
  "boot callbacks m =
     \<lparr>rnd_src = (\<lambda>n. of_nat (Suc n)), rnd_ok = (\<lambda>_. True), rnd_pos = 0,
      now = 1700000000000000000, io_ok = (\<lambda>_. True), io_pos = 0, db_open = True, db = empty_db,
      vault = zero_vault, loaded = False, keyring = None, root_key = None, failed_unlocks = 0,
      next_unlock_at = zero_time, catalog_high_water = 0, on_lock = callbacks, mem = m\<rparr>"

definition old_password :: bytes where "old_password = str_bytes ''correct horse battery staple''"
definition new_password :: bytes where "new_password = str_bytes ''staple battery horse correct''"

definition demo_boot :: "index_mem vsys" where
  "demo_boot = boot [clear_index] \<lparr>rec_index = new_index\<rparr>"

definition demo_init :: "index_mem vsys" where
  "demo_init = snd (vault_init plain_prims old_password default_kdf_params demo_boot)"

definition demo_open :: "index_mem vsys" where
  "demo_open = snd (unlock plain_prims old_password demo_init)"

lemma blank_boot: "blank (boot cs m)"
  by (simp add: blank_def boot_def healthy_def empty_db_def)

lemma default_kdf_valid: "kdf_validate default_kdf_params = None"
  by (simp add: kdf_validate_def default_kdf_params_def)

lemma snd_runs: "runs m s Q \<Longrightarrow> \<exists>x. m s = (Inr x, snd (m s)) \<and> Q x (snd (m s))"
  by (auto simp: runs_def)

lemma demo_init_runs: "vault_init plain_prims old_password default_kdf_params demo_boot = (Inr (), demo_init)"
  using snd_runs [OF vault_init_runs [OF plain_prims_widths default_kdf_valid blank_boot]]
  by (auto simp: demo_init_def demo_boot_def)

lemma demo_boot_healthy: "db_open demo_boot" "io_ok demo_boot n" "next_unlock_at demo_boot \<le> now demo_boot"
  by (simp_all add: demo_boot_def boot_def zero_time_def)

lemma demo_open_runs: "unlock plain_prims old_password demo_init = (Inr (), demo_open)"
  using init_then_unlock [OF plain_prims_correct demo_init_runs demo_boot_healthy(3,2,1)]
  by (auto simp: demo_open_def)

text \<open>What the first unlock finds.\<close>

lemma boot_key_inv: "key_inv P (boot cs m)"
  by (simp add: key_inv_def boot_def zero_vault_def is_unlocked_def)

lemma demo_open_state:
  obtains vid e rk ck kr st where "length vid = 16" "vault demo_open = agg_unlock (fresh_vault vid format_version 1)"
    "active_envelope (vault demo_open) (db demo_open) = Some e" "envelope_opens plain_prims old_password vid e rk"
    "t_envelopes (db demo_open) = [e]" "derive_keyring plain_prims rk = Inr kr" "keyring demo_open = Some kr"
    "root_key demo_open = Some rk" "t_vault (db demo_open) \<noteq> None" "vr_vault_id (the (t_vault (db demo_open))) = vid"
    "t_state (db demo_open) = Some st" "st_state_counter st = 1" "sint (catalog_high_water demo_open) = 1"
    "t_records (db demo_open) = []" "loaded demo_open" "env_fixed demo_open = env_fixed demo_boot"
    "next_unlock_at demo_open = zero_time"
    "mem demo_open = mem demo_init" "anchored plain_prims (k_catalog kr) vid 1 (db demo_open)"
proof -
  have b: "t_records (db demo_boot) = []" "t_envelopes (db demo_boot) = []" "t_state (db demo_boot) = None"
    "catalog_high_water demo_boot = 0" "healthy demo_boot"
    by (simp_all add: demo_boot_def boot_def empty_db_def healthy_def)
  show ?thesis
    by (rule first_unlock [OF plain_prims_correct demo_init_runs demo_open_runs b(2-5) demo_boot_healthy(3)])
      (rule that, auto simp: b(1))
qed

lemma demo_open_serving: "serving plain_prims demo_open"
proof -
  have k: "key_inv plain_prims demo_open"
    using inv_okD [OF key_unlock demo_open_runs inv_okD [OF key_vault_init demo_init_runs boot_key_inv [of _ "[clear_index]" "\<lparr>rec_index = new_index\<rparr>", folded demo_boot_def]]] .
  have h: "healthy demo_boot" by (simp add: healthy_def demo_boot_def boot_def)
  show ?thesis
    by (rule demo_open_state) (use k h in \<open>auto simp: serving_def has_keys_def is_unlocked_def agg_unlock_def next_counter_def
      healthy_fixed [of demo_open demo_boot]\<close>)
qed

section \<open>A record\<close>

definition demo_page :: canonical_origin where
  "demo_page = \<lparr>o_scheme = ''https'', o_host = ''login.example.com'', o_port = ''8443''\<rparr>"

definition demo_raw :: string where "demo_raw = ''https://Login.Example.com:8443/x''"

definition demo_meta :: record_metadata where
  "demo_meta = \<lparr>md_name = ''Example'', md_username = ''alice'', md_service = '''', md_environment = '''',
     md_urls = [\<lparr>lu_raw = demo_raw, lu_origin = demo_page, lu_allow_subdomains = False\<rparr>],
     md_tags = [''web''], md_project_id = '''', md_custom_keys = [], md_created_at = zero_time,
     md_updated_at = zero_time\<rparr>"

definition demo_secret :: secret_payload where
  "demo_secret = \<lparr>sp_password = ''s3cret'', sp_notes = '''', sp_api_key = '''', sp_api_secret = '''', sp_custom = []\<rparr>"

lemma valid_utf8_ascii: "ascii s \<Longrightarrow> valid_utf8 s"
  by (fastforce simp: valid_utf8_def ascii_def rune_chunks_ascii list_all_iff decode_rune_def rune_error_def)

lemma demo_clean: "metadata_clean plain_web type_login (demo_meta\<lparr>md_created_at := a, md_updated_at := b\<rparr>)"
  "secret_clean demo_secret"
  using plain_web_example
  by (auto simp: metadata_clean_def secret_clean_def demo_meta_def demo_secret_def demo_raw_def demo_page_def type_login_def
      valid_utf8_ascii new_login_url_with_policy_def new_login_url_def)

lemma demo_valid: "\<not> id_is_zero i \<Longrightarrow> 1 \<le> n \<Longrightarrow> record_validate \<lparr>rec_id = i, rec_type = type_login, rec_revision = n,
    rec_metadata = demo_meta\<lparr>md_created_at := a, md_updated_at := b\<rparr>, rec_secret = demo_secret\<rparr> = None"
  by (auto simp: record_validate_def Let_def type_valid_def type_login_def type_api_def demo_meta_def demo_secret_def demo_page_def linorder_not_less)

definition demo_id :: ident where
  "demo_id = map (rnd_src demo_open) [rnd_pos demo_open ..< rnd_pos demo_open + 16]"

definition demo_store :: "index_mem vsys" where
  "demo_store = snd (create_record plain_prims plain_json plain_web type_login demo_meta demo_secret demo_open)"

lemma demo_id_nonzero: "\<not> id_is_zero demo_id"
proof
  assume z: "id_is_zero demo_id"
  have "rnd_src demo_open = rnd_src demo_boot"
    by (rule demo_open_state) (simp add: env_fixed_def)
  then have r: "rnd_src demo_open n = of_nat (Suc n)" for n by (simp add: demo_boot_def boot_def)
  have "demo_id ! 0 = zero_id ! 0" "demo_id ! 1 = zero_id ! 1" using z by (simp_all add: id_is_zero_def)
  then have "(of_nat (Suc (rnd_pos demo_open)) :: byte) = 0" "(of_nat (Suc (Suc (rnd_pos demo_open))) :: byte) = 0"
    by (simp_all add: demo_id_def r zero_id_def id_len_def del: upt.simps of_nat_Suc)
  then show False by simp
qed

lemma demo_store_runs:
  "create_record plain_prims plain_json plain_web type_login demo_meta demo_secret demo_open = (Inr demo_id, demo_store)"
proof -
  have "t_records (db demo_open) = []" by (rule demo_open_state)
  then have "runs (create_record plain_prims plain_json plain_web type_login demo_meta demo_secret) demo_open (\<lambda>j t. j = demo_id)"
    by (intro create_record_runs [OF plain_prims_widths demo_open_serving]) (simp_all add: demo_id_def [symmetric] demo_valid demo_id_nonzero)
  from snd_runs [OF this] show ?thesis by (simp add: demo_store_def)
qed

lemma demo_store_serving: "serving plain_prims demo_store"
  by (rule demo_open_state)
    (rule create_record_serving [OF demo_open_serving demo_store_runs], simp add: next_counter_def)

lemma demo_store_state:
  obtains row e st kr rk where "t_records (db demo_store) = [row]" "rr_record_id row = demo_id" "rr_revision row = 1"
    "rr_key_version row = 1" "keyring demo_store = Some kr" "derive_keyring plain_prims rk = Inr kr"
    "envelope_opens plain_prims old_password (v_id (vault demo_store)) e rk"
    "active_envelope (vault demo_store) (db demo_store) = Some e" "t_envelopes (db demo_store) = [e]"
    "v_active_envelope_version (vault demo_store) = 1" "v_format_version (vault demo_store) = format_version"
    "length (v_id (vault demo_store)) = 16"
    "t_state (db demo_store) = Some st" "st_state_counter st = 2" "loaded demo_store"
    "entry_of_row plain_prims plain_json plain_web kr (v_id (vault demo_store)) (v_format_version (vault demo_store)) row =
      Inr \<lparr>ie_id = demo_id, ie_type = type_login, ie_revision = 1,
        ie_metadata = in_millis (demo_meta\<lparr>md_created_at := now demo_open, md_updated_at := now demo_open\<rparr>)\<rparr>"
    "env_fixed demo_store = env_fixed demo_boot"
    "\<exists>v. t_vault (db demo_store) = Some v \<and> vr_vault_id v = v_id (vault demo_store)"
proof -
  from demo_open_state obtain vid e rk kr st where o: "length vid = 16"
    "vault demo_open = agg_unlock (fresh_vault vid format_version 1)"
    "active_envelope (vault demo_open) (db demo_open) = Some e" "envelope_opens plain_prims old_password vid e rk"
    "t_envelopes (db demo_open) = [e]" "derive_keyring plain_prims rk = Inr kr" "keyring demo_open = Some kr"
    "t_vault (db demo_open) \<noteq> None" "vr_vault_id (the (t_vault (db demo_open))) = vid"
    "t_state (db demo_open) = Some st" "st_state_counter st = 1" "t_records (db demo_open) = []"
    "env_fixed demo_open = env_fixed demo_boot" by metis
  from create_record_Inr [OF demo_store_runs] obtain st' where c: "t_envelopes (db demo_store) = t_envelopes (db demo_open)"
    "t_vault (db demo_store) = t_vault (db demo_open)" "vault demo_store = vault demo_open" "keyring demo_store = keyring demo_open"
    "loaded demo_store" "env_fixed demo_store = env_fixed demo_open" "t_state (db demo_store) = Some st'"
    "st_state_counter st' = next_counter (t_state (db demo_open))"
    by (elim exE conjE) (rule that; (assumption | simp))
  from create_record_loads [OF plain_prims_correct plain_json_faithful demo_store_runs demo_clean(1)] obtain row kr' where
    r: "t_records (db demo_store) = t_records (db demo_open) @ [row]" "rr_record_id row = demo_id" "rr_revision row = 1"
    "rr_key_version row = ucast (v_active_envelope_version (vault demo_open))" "keyring demo_open = Some kr'"
    "entry_of_row plain_prims plain_json plain_web kr' (v_id (vault demo_open)) (v_format_version (vault demo_open)) row =
      Inr \<lparr>ie_id = demo_id, ie_type = type_login, ie_revision = 1,
        ie_metadata = in_millis (demo_meta\<lparr>md_created_at := now demo_open, md_updated_at := now demo_open\<rparr>)\<rparr>"
    by (elim exE conjE) (rule that; assumption)
  have v: "v_id (vault demo_open) = vid" "v_active_envelope_version (vault demo_open) = 1"
    "v_format_version (vault demo_open) = format_version"
    by (simp_all add: o(2) agg_unlock_def fresh_vault_def)
  have ae: "active_envelope (vault demo_store) (db demo_store) = Some e" using o(3) by (simp add: c active_envelope_def)
  show ?thesis
    by (rule that [where row = row and e = e and st = st' and kr = kr and rk = rk])
      (use r o(1,4-13) c v ae in \<open>auto simp: next_counter_def\<close>)
qed

section \<open>The master password changes\<close>

definition demo_change :: "index_mem vsys" where
  "demo_change = snd (change_master_password plain_prims old_password new_password default_kdf_params demo_store)"

definition demo_reopen :: "index_mem vsys" where
  "demo_reopen = snd (unlock plain_prims new_password demo_change)"

definition demo_load :: "index_mem vsys" where
  "demo_load = snd (load_index plain_prims plain_json plain_web demo_reopen)"

lemma demo_change_runs:
  "change_master_password plain_prims old_password new_password default_kdf_params demo_store = (Inr (), demo_change)"
proof -
  have h: "healthy demo_store" using demo_store_serving by (simp add: serving_def)
  show ?thesis
  proof (rule demo_store_state, elim exE conjE)
    fix row e st kr rk v
    assume a: "envelope_opens plain_prims old_password (v_id (vault demo_store)) e rk"
      "active_envelope (vault demo_store) (db demo_store) = Some e" "t_envelopes (db demo_store) = [e]"
      "v_active_envelope_version (vault demo_store) = 1" "length (v_id (vault demo_store)) = 16"
      "t_state (db demo_store) = Some st" "st_state_counter st = 2" "loaded demo_store"
      "t_vault (db demo_store) = Some v" "vr_vault_id v = v_id (vault demo_store)"
    have "er_envelope_version e = 1" using a(2,4) pk_find_Some by (fastforce simp: active_envelope_def)
    then have "runs (change_master_password plain_prims old_password new_password default_kdf_params) demo_store (\<lambda>_ t. True)"
      using a by (intro change_master_password_runs [OF plain_prims_widths default_kdf_valid h a(8,5,9,10,2,1)])
        (simp_all add: next_counter_def)
    from snd_runs [OF this] show ?thesis by (simp add: demo_change_def)
  qed
qed

lemma unlock_time_frame:
  assumes "obeys (same_on fixed) m"
  shows "obeys (same_on next_unlock_at) m"
  by (rule fixed_frame [OF assms]) (rule more_vsys(6))

lemma create_unlock_time: "obeys (same_on next_unlock_at) (create_record P J W ty meta sec)"
proof -
  have n: "obeys (same_on next_unlock_at) (note_stamped n)" for n
    by (auto simp: obeys_def same_on_def note_stamped_def note_counter_def prog_simps)
  have w: "obeys (same_on next_unlock_at) (with_index f)" for f
    by (auto simp: obeys_def same_on_def prog_simps)
  show ?thesis
    unfolding create_record_def Let_def
    by (intro same.ok_bind same.ok_get same.ok_pair same.ok_return n w unlock_time_frame
      fixed_keys fixed_new fixed_validated fixed_encrypt fixed_vault_info fixed_tx fixed_commands fixed_records_stamp)
qed

lemma demo_change_state:
  obtains e rk kr row st where "active_envelope (vault demo_change) (db demo_change) = Some e"
    "envelope_opens plain_prims new_password (v_id (vault demo_change)) e rk"
    "derive_keyring plain_prims rk = Inr kr" "t_records (db demo_change) = [row]" "rr_record_id row = demo_id"
    "rr_revision row = 1" "rr_key_version row = 1" "v_active_envelope_version (vault demo_change) = 2" "loaded demo_change"
    "t_state (db demo_change) = Some st" "st_state_counter st = 3" "next_unlock_at demo_change = zero_time" "env_fixed demo_change = env_fixed demo_boot" "locked_inv demo_change"
    "entry_of_row plain_prims plain_json plain_web kr (v_id (vault demo_change)) (v_format_version (vault demo_change)) row =
      Inr \<lparr>ie_id = demo_id, ie_type = type_login, ie_revision = 1,
        ie_metadata = in_millis (demo_meta\<lparr>md_created_at := now demo_open, md_updated_at := now demo_open\<rparr>)\<rparr>"
proof -
  from demo_store_state obtain row e kr rk st0 where s: "t_records (db demo_store) = [row]" "rr_record_id row = demo_id"
    "rr_revision row = 1" "rr_key_version row = 1" "derive_keyring plain_prims rk = Inr kr"
    "envelope_opens plain_prims old_password (v_id (vault demo_store)) e rk"
    "active_envelope (vault demo_store) (db demo_store) = Some e" "v_active_envelope_version (vault demo_store) = 1"
    "loaded demo_store" "t_state (db demo_store) = Some st0" "st_state_counter st0 = 2" "env_fixed demo_store = env_fixed demo_boot"
    "entry_of_row plain_prims plain_json plain_web kr (v_id (vault demo_store)) (v_format_version (vault demo_store)) row =
      Inr \<lparr>ie_id = demo_id, ie_type = type_login, ie_revision = 1,
        ie_metadata = in_millis (demo_meta\<lparr>md_created_at := now demo_open, md_updated_at := now demo_open\<rparr>)\<rparr>" by metis
  have lv: "load_vault demo_store = (Inr (), u) \<longleftrightarrow> u = demo_store" for u
    using load_vault_loaded [OF s(9)] by auto
  from change_master_password_Inr [OF plain_prims_correct demo_change_runs] lv obtain e0 kek rk' e' st where
    c: "active_envelope (vault demo_store) (db demo_store) = Some e0" "row_kek plain_prims old_password e0 = Inr kek"
    "unwrap_root plain_prims kek (v_id (vault demo_store)) (v_active_envelope_version (vault demo_store)) e0 = Inr rk'"
    "v_active_envelope_version (vault demo_change) = v_active_envelope_version (vault demo_store) + 1"
    "v_id (vault demo_change) = v_id (vault demo_store)" "v_format_version (vault demo_change) = v_format_version (vault demo_store)"
    "active_envelope (vault demo_change) (db demo_change) = Some e'"
    "envelope_opens plain_prims new_password (v_id (vault demo_change)) e' rk'" "t_records (db demo_change) = t_records (db demo_store)"
    "t_state (db demo_change) = Some st" "st_state_counter st = next_counter (t_state (db demo_store))"
    "locked_inv demo_change" "loaded demo_change" "env_fixed demo_change = env_fixed demo_store"
    "next_unlock_at demo_change = next_unlock_at demo_store" by metis
  have "er_envelope_version e = 1" using s(7,8) pk_find_Some by (fastforce simp: active_envelope_def)
  then have "rk' = rk" using c(1-3) s(6-8) by (auto simp: envelope_opens_def)
  moreover have "next_unlock_at demo_store = next_unlock_at demo_open"
    using same_okD [OF create_unlock_time demo_store_runs] .
  moreover have "next_unlock_at demo_open = zero_time" by (rule demo_open_state)
  ultimately show ?thesis
    by (intro that [OF c(7,8), where kr = kr and row = row and st = st]) (use s c in \<open>simp_all add: next_counter_def\<close>)
qed

lemma demo_reopen_runs: "unlock plain_prims new_password demo_change = (Inr (), demo_reopen)"
proof -
  from demo_change_state obtain e rk where c: "active_envelope (vault demo_change) (db demo_change) = Some e"
    "envelope_opens plain_prims new_password (v_id (vault demo_change)) e rk" "loaded demo_change"
    "next_unlock_at demo_change = zero_time" "env_fixed demo_change = env_fixed demo_boot" by metis
  have "\<not> now demo_change < next_unlock_at demo_change" "db_open demo_change" "io_ok demo_change (io_pos demo_change)"
    using c(4,5) by (simp_all add: env_fixed_def demo_boot_def boot_def zero_time_def)
  from unlock_succeeds [OF this(1) load_vault_loaded [OF c(3)] this(2,3) c(1,2)]
  show ?thesis by (auto simp: demo_reopen_def)
qed

lemma demo_load_state:
  "load_index plain_prims plain_json plain_web demo_reopen = (Inr (), demo_load) \<and>
   serving plain_prims demo_load \<and> db_wf (db demo_load) \<and> v_active_envelope_version (vault demo_load) = 2 \<and>
   (\<exists>entry. index_get (rec_index (mem demo_load)) demo_id = Some entry \<and> ie_type entry = type_login) \<and>
   (\<exists>row. t_records (db demo_load) = [row] \<and> rr_record_id row = demo_id \<and> rr_revision row = 1 \<and> rr_key_version row = 1)"
proof -
  from demo_change_state obtain e rk kr row st where c: "active_envelope (vault demo_change) (db demo_change) = Some e"
    "envelope_opens plain_prims new_password (v_id (vault demo_change)) e rk"
    "derive_keyring plain_prims rk = Inr kr" "t_records (db demo_change) = [row]" "rr_record_id row = demo_id"
    "rr_revision row = 1" "rr_key_version row = 1" "v_active_envelope_version (vault demo_change) = 2" "loaded demo_change"
    "t_state (db demo_change) = Some st" "st_state_counter st = 3"
    "next_unlock_at demo_change = zero_time" "env_fixed demo_change = env_fixed demo_boot"
    "entry_of_row plain_prims plain_json plain_web kr (v_id (vault demo_change)) (v_format_version (vault demo_change)) row =
      Inr \<lparr>ie_id = demo_id, ie_type = type_login, ie_revision = 1,
        ie_metadata = in_millis (demo_meta\<lparr>md_created_at := now demo_open, md_updated_at := now demo_open\<rparr>)\<rparr>" by metis
  have o: "\<not> now demo_change < next_unlock_at demo_change" "db_open demo_change" "io_ok demo_change (io_pos demo_change)"
    using c(12,13) by (simp_all add: env_fixed_def demo_boot_def boot_def zero_time_def)
  from unlock_succeeds [OF o(1) load_vault_loaded [OF c(9)] o(2,3) c(1,2)] demo_reopen_runs c(3)
  have r: "demo_reopen = open_vault rk kr (demo_change\<lparr>io_pos := Suc (io_pos demo_change)\<rparr>)" by auto
  have rv: "vault demo_reopen = agg_unlock (vault demo_change)" "db demo_reopen = db demo_change" "keyring demo_reopen = Some kr"
    "loaded demo_reopen" "env_fixed demo_reopen = env_fixed demo_boot"
    using c(9,13) by (simp_all add: r open_vault_def env_fixed_def)
  have k: "key_inv plain_prims demo_reopen"
    using inv_okD [OF key_unlock demo_reopen_runs inv_okD [OF key_change_master_password demo_change_runs]] demo_store_serving
    by (simp add: serving_def)
  have w: "db_wf (db demo_reopen)"
    using inv_okD [OF dbwf_vault_ops(3) demo_reopen_runs] inv_okD [OF dbwf_vault_ops(6) demo_change_runs]
      inv_okD [OF dbwf_record_ops(1) demo_store_runs] inv_okD [OF dbwf_vault_ops(3) demo_open_runs]
      inv_okD [OF dbwf_vault_ops(2) demo_init_runs] db_wf_empty by (simp add: demo_boot_def boot_def)
  have u: "is_unlocked (vault demo_reopen)" "db_open demo_reopen" "io_ok demo_reopen (io_pos demo_reopen)"
    using rv(5) by (simp_all add: rv(1) is_unlocked_def agg_unlock_def env_fixed_def demo_boot_def boot_def)
  have es: "smap (entry_of_row plain_prims plain_json plain_web kr (v_id (vault demo_reopen)) (v_format_version (vault demo_reopen)))
      (t_records (db demo_reopen)) = Inr [\<lparr>ie_id = demo_id, ie_type = type_login, ie_revision = 1,
        ie_metadata = in_millis (demo_meta\<lparr>md_created_at := now demo_open, md_updated_at := now demo_open\<rparr>)\<rparr>]"
    using c(4,14) by (simp add: rv(1,2) agg_unlock_def)
  from snd_runs [OF load_index_runs [OF u(1) rv(3,4) u(2,3) es]]
  obtain x where F: "load_index plain_prims plain_json plain_web demo_reopen = (Inr x, snd (load_index plain_prims plain_json plain_web demo_reopen))"
    "snd (load_index plain_prims plain_json plain_web demo_reopen) = demo_reopen\<lparr>io_pos := Suc (io_pos demo_reopen), mem := (mem demo_reopen)\<lparr>rec_index :=
      fold (index_put plain_web) [\<lparr>ie_id = demo_id, ie_type = type_login, ie_revision = 1,
        ie_metadata = in_millis (demo_meta\<lparr>md_created_at := now demo_open, md_updated_at := now demo_open\<rparr>)\<rparr>] new_index\<rparr>\<rparr>"
    by blast
  have l: "load_index plain_prims plain_json plain_web demo_reopen = (Inr (), demo_load)"
    using F(1) by (simp add: demo_load_def)
  have
    d: "demo_load = demo_reopen\<lparr>io_pos := Suc (io_pos demo_reopen), mem := (mem demo_reopen)\<lparr>rec_index :=
      index_put plain_web \<lparr>ie_id = demo_id, ie_type = type_login, ie_revision = 1,
        ie_metadata = in_millis (demo_meta\<lparr>md_created_at := now demo_open, md_updated_at := now demo_open\<rparr>)\<rparr> new_index\<rparr>\<rparr>"
    unfolding demo_load_def F(2) by simp
  have dv: "vault demo_load = agg_unlock (vault demo_change)" "db demo_load = db demo_change" "keyring demo_load = Some kr"
    "env_fixed demo_load = env_fixed demo_boot" "rec_index (mem demo_load) = index_put plain_web \<lparr>ie_id = demo_id, ie_type = type_login, ie_revision = 1,
        ie_metadata = in_millis (demo_meta\<lparr>md_created_at := now demo_open, md_updated_at := now demo_open\<rparr>)\<rparr> new_index"
    using rv by (simp_all add: d env_fixed_def)
  have kl: "key_inv plain_prims demo_load" by (rule inv_okD [OF key_record_ops(4) l k])
  have "serving plain_prims demo_load"
    using kl c(1,10,11) healthy_fixed [OF dv(4)]
    by (simp add: serving_def has_keys_def dv is_unlocked_def agg_unlock_def active_envelope_def next_counter_def
        healthy_def demo_boot_def boot_def)
  moreover have "db_wf (db demo_load)" using w rv dv by simp
  ultimately show ?thesis using l c dv by (simp add: agg_unlock_def index_get_put)
qed

definition demo_update :: "index_mem vsys" where
  "demo_update = snd (update_record_op plain_prims plain_json plain_web demo_id 1 demo_meta demo_secret demo_load)"

lemma demo_update_runs:
  "update_record_op plain_prims plain_json plain_web demo_id 1 demo_meta demo_secret demo_load = (Inr (), demo_update)"
proof -
  from demo_load_state obtain entry row where l: "serving plain_prims demo_load" "db_wf (db demo_load)"
    "index_get (rec_index (mem demo_load)) demo_id = Some entry" "ie_type entry = type_login"
    "t_records (db demo_load) = [row]" "rr_record_id row = demo_id" "rr_revision row = 1" by auto
  have f: "pk_find rr_record_id demo_id (t_records (db demo_load)) = Some row" by (simp add: l pk_find_def)
  have "runs (update_record_op plain_prims plain_json plain_web demo_id 1 demo_meta demo_secret) demo_load (\<lambda>_ t. True)"
    by (rule update_record_op_runs [OF plain_prims_widths l(1-3) f l(7)]) (simp_all add: l(4) demo_valid demo_id_nonzero)
  from snd_runs [OF this] show ?thesis by (simp add: demo_update_def)
qed

section \<open>A wrong password\<close>

lemma plain_open_key:
  assumes "open_box plain_prims k n c a = Inr p" and "open_box plain_prims k' n c a = Inr p'"
  shows "k = k'"
proof -
  have l: "length k = 32" "length k' = 32" using assms by (auto simp: open_box_def aead_args_def key_size_def split: if_splits)
  have "take (length (box_header k n a)) c = box_header k n a" "take (length (box_header k' n a)) c = box_header k' n a"
    using assms by (auto simp: open_box_def plain_prims_def split: if_splits option.splits)
  then have "box_header k n a = box_header k' n a" using l by (simp add: box_header_def)
  with l show ?thesis by (simp add: box_header_def)
qed

lemma demo_keks_differ:
  assumes "row_kek plain_prims old_password e = Inr k" and "row_kek plain_prims new_password e = Inr k'"
  shows "k \<noteq> k'"
proof
  assume "k = k'"
  with assms have "pad (old_password @ er_kdf_salt e) 32 = pad (new_password @ er_kdf_salt e) 32"
    by (auto simp: row_kek_def derive_kek_def plain_prims_def key_size_def split: option.splits if_splits)
  then have "hd (pad (old_password @ er_kdf_salt e) 32) = hd (pad (new_password @ er_kdf_salt e) 32)" by simp
  then show False by (simp add: pad_def old_password_def new_password_def str_bytes_def)
qed

lemma unlock_refuses:
  assumes "\<not> now s < next_unlock_at s" "loaded s" "db_open s" "io_ok s (io_pos s)"
    and "active_envelope (vault s) (db s) = Some e"
    and "\<And>k rk. row_kek P pw e = Inr k \<Longrightarrow> unwrap_root P k (v_id (vault s)) (ucast (er_envelope_version e)) e \<noteq> Inr rk"
  shows "\<exists>t. unlock P pw s = (Inl ErrAuthenticationFail, t)"
proof -
  have l: "mbind load_vault f s = f () s" for f :: "unit \<Rightarrow> _" by (rule mbind_Inr) (rule load_vault_loaded [OF assms(2)])
  have g: "mbind (replace_error ErrIntegrityFailure (get_key_envelope (ucast (v_active_envelope_version (vault s))))) f s
      = f e (s\<lparr>io_pos := Suc (io_pos s)\<rparr>)" for f :: "envelope_row \<Rightarrow> _"
    by (rule mbind_Inr) (use assms(3-5) in \<open>simp add: prog_simps\<close>)
  show ?thesis
    unfolding unlock_def
    using assms(1) assms(6)
    by (auto simp: l g mguard_def unlock_failed_eq split: sum.splits)
qed

lemma demo_refused: "\<exists>t. unlock plain_prims new_password demo_init = (Inl ErrAuthenticationFail, t)"
proof -
  from vault_init_Inr [OF plain_prims_correct demo_init_runs] obtain vid e rk where
    i: "vault demo_init = fresh_vault vid format_version 1" "loaded demo_init"
      "active_envelope (vault demo_init) (db demo_init) = Some e" "envelope_opens plain_prims old_password vid e rk"
      "next_unlock_at demo_init = next_unlock_at demo_boot" "env_fixed demo_init = env_fixed demo_boot" by blast
  have "unwrap_root plain_prims k (v_id (vault demo_init)) (ucast (er_envelope_version e)) e \<noteq> Inr rk'"
    if "row_kek plain_prims new_password e = Inr k" for k rk'
    using i(4) demo_keks_differ [OF _ that] plain_open_key
    by (fastforce simp: envelope_opens_def unwrap_root_def i(1) fresh_vault_def)
  then show ?thesis
    using i demo_boot_healthy by (intro unlock_refuses [OF _ i(2) _ _ i(3)]) (auto simp: env_fixed_def)
qed

end
