(* ===== verification/Samples.thy ===== *)
theory Samples
  imports Scenario
begin

text \<open>
  Further concrete inputs: databases for the vault-state root, and an update on the record of
  the scenario before the password changes.
\<close>

section \<open>Databases\<close>

definition sample_envelope :: envelope_row where
  "sample_envelope = \<lparr>er_envelope_version = 1, er_vault_id = zero_id, er_kdf_algorithm = ''argon2id'',
     er_kdf_version = 19, er_kdf_salt = replicate 16 0, er_kdf_memory_kib = 65536, er_kdf_iterations = 3,
     er_kdf_parallelism = 1, er_wrap_algorithm = ''xchacha20poly1305'', er_wrap_nonce = replicate 24 0,
     er_wrapped_root_key = [], er_canary_nonce = replicate 24 0, er_encrypted_canary = [], er_created_at_ms = 0\<rparr>"

definition envelope_db :: db where
  "envelope_db = empty_db\<lparr>t_envelopes := [sample_envelope]\<rparr>"

definition sample_client :: "byte \<Rightarrow> i64 \<Rightarrow> client_row" where
  "sample_client b status = \<lparr>cr_client_id = replicate 16 b, cr_client_kind = 1, cr_status = status, cr_capability_mask = 3,
     cr_credential_hash = replicate 32 0, cr_noise_static_pubkey = replicate 32 0, cr_label_nonce = replicate 24 0,
     cr_label_ciphertext = [], cr_created_at_ms = 0, cr_last_seen_at_ms = None\<rparr>"

text \<open>A hash that keeps the 126th to 133rd byte of its input, where the status of the only client of
  these databases stands.\<close>

definition status_prims :: crypto_prims where
  "status_prims = plain_prims\<lparr>hmac_sha256 := (\<lambda>k b. pad (take 8 (drop 125 b)) 32)\<rparr>"

definition status_db :: "i64 \<Rightarrow> db" where
  "status_db status = envelope_db\<lparr>t_clients := [sample_client 1 status],
     t_state := Some \<lparr>st_state_counter = 1, st_state_root = pad (be64 2) 32, st_updated_at_ms = 0\<rparr>\<rparr>"

lemma status_db_wf: "db_wf (status_db n)"
  by (simp add: db_wf_def status_db_def envelope_db_def empty_db_def table_ok_def sample_envelope_def sample_client_def
      envelope_check_def client_check_def state_check_def zero_id_def id_len_def)

lemma drop_skip: "n = length a + m \<Longrightarrow> drop n (a @ b) = drop m b"
  by simp

lemma status_input: "take 8 (drop 125 (input_of status_prims zero_id 1 n (status_db st) e)) = be64 st"
proof -
  have tag: "length domain_tag = 45" by (simp add: domain_tag_def)
  show ?thesis
    by (simp add: input_of_def root_input_def status_db_def envelope_db_def empty_db_def client_input_def sample_client_def
      write_bytes_def write_u64_def tag)
qed

definition revoked_db :: db where "revoked_db = status_db 2"
definition unrevoked_db :: db where "unrevoked_db = status_db 1"

lemma status_widths: "prims_widths status_prims"
  using plain_prims_widths by (simp add: prims_widths_def status_prims_def)

lemma sample_found: "pk_find er_envelope_version 1 (t_envelopes (status_db n)) = Some sample_envelope"
  by (simp add: pk_find_def status_db_def envelope_db_def sample_envelope_def)

lemma revoked_facts:
  "prims_widths status_prims" "length zero_id = 16" "db_wf revoked_db" "db_wf unrevoked_db"
  "length (t_records revoked_db) < 2 ^ 64" "length (t_records unrevoked_db) < 2 ^ 64"
  "length (t_clients revoked_db) < 2 ^ 64" "length (t_clients unrevoked_db) < 2 ^ 64"
  "t_state unrevoked_db = t_state revoked_db" "anchored status_prims [] zero_id 1 revoked_db"
  "hmac_sha256 status_prims [] (input_of status_prims zero_id 1 n revoked_db e) =
     hmac_sha256 status_prims [] (input_of status_prims zero_id 1 n unrevoked_db e') \<Longrightarrow>
   input_of status_prims zero_id 1 n revoked_db e = input_of status_prims zero_id 1 n unrevoked_db e'"
  "mset (map (record_view status_prims) (t_records revoked_db)) \<noteq> mset (map (record_view status_prims) (t_records unrevoked_db)) \<or>
   mset (map (client_view status_prims) (t_clients revoked_db)) \<noteq> mset (map (client_view status_prims) (t_clients unrevoked_db))"
proof -
  show "prims_widths status_prims" by (rule status_widths)
  show "length zero_id = 16" by simp
  show "db_wf revoked_db" "db_wf unrevoked_db" unfolding revoked_db_def unrevoked_db_def by (rule status_db_wf)+
  show "length (t_records revoked_db) < 2 ^ 64" "length (t_records unrevoked_db) < 2 ^ 64"
    "length (t_clients revoked_db) < 2 ^ 64" "length (t_clients unrevoked_db) < 2 ^ 64"
    "t_state unrevoked_db = t_state revoked_db"
    by (simp_all add: revoked_db_def unrevoked_db_def status_db_def envelope_db_def empty_db_def)
  have h: "hmac_sha256 status_prims [] (input_of status_prims zero_id 1 n (status_db m) e) = pad (be64 m) 32" for n m e
    using status_input by (simp add: status_prims_def [of, THEN arg_cong [of _ _ hmac_sha256]])
  show "anchored status_prims [] zero_id 1 revoked_db"
    using h [of 1 2] by (simp add: anchored_def catalog_root_def revoked_db_def sample_found input_of_def [symmetric] status_db_def [of, THEN arg_cong [of _ _ t_state]])
  show "input_of status_prims zero_id 1 n revoked_db e = input_of status_prims zero_id 1 n unrevoked_db e'"
    if "hmac_sha256 status_prims [] (input_of status_prims zero_id 1 n revoked_db e) =
     hmac_sha256 status_prims [] (input_of status_prims zero_id 1 n unrevoked_db e')"
    using that unfolding revoked_db_def unrevoked_db_def h by (simp add: pad_def)
  show "mset (map (record_view status_prims) (t_records revoked_db)) \<noteq> mset (map (record_view status_prims) (t_records unrevoked_db)) \<or>
   mset (map (client_view status_prims) (t_clients revoked_db)) \<noteq> mset (map (client_view status_prims) (t_clients unrevoked_db))"
    by (simp add: revoked_db_def unrevoked_db_def status_db_def client_view_def sample_client_def)
qed

lemma envelope_db_stamps: "runs (stamp plain_prims [] zero_id 1 0) (demo_boot\<lparr>db := envelope_db\<rparr>) (\<lambda>n t. n = next_counter None)"
  using stamp_runs [OF plain_prims_widths, of "demo_boot\<lparr>db := envelope_db\<rparr>" 1 sample_envelope]
  by (simp add: envelope_db_def empty_db_def healthy_def demo_boot_def boot_def pk_find_def sample_envelope_def next_counter_def)

section \<open>A check that passes\<close>

lemma verify_catalog_runs:
  assumes s: "healthy s" "keyring s = Some kr" "is_unlocked (vault s)"
    and st: "t_state (db s) = Some st" "service_anchored P kr (vault s) (db s)"
    and hw: "sint (catalog_high_water s) \<le> sint (st_state_counter st)"
  shows "runs (verify_catalog P) s (\<lambda>b t. b = False)"
proof -
  have h: "db_open s" "\<And>n. io_ok s n" using s(1) by (simp_all add: healthy_def)
  let ?v = "verify P (k_catalog kr) (v_id (vault s)) (v_active_envelope_version (vault s))"
  let ?u = "s\<lparr>io_pos := io_pos s + 5\<rparr>"
  have "load (s\<lparr>io_pos := Suc (io_pos s)\<rparr>) = (Inr st, s\<lparr>io_pos := io_pos s + 2\<rparr>)"
    using st(1) h by (simp add: load_Inr_iff)
  moreover have "root P (k_catalog kr) (v_id (vault s)) (v_active_envelope_version (vault s)) (st_state_counter st) (s\<lparr>io_pos := io_pos s + 2\<rparr>)
      = (Inr (st_state_root st), s\<lparr>io_pos := io_pos s + 5\<rparr>)"
    using st h by (simp add: root_Inr_iff anchored_def)
  ultimately have v: "read_tx ?v s = (Inr (st, True), ?u)"
    using h by (simp add: read_tx_Inr_iff verify_def mbind_Inr prog_simps)
  have k: "keys s = (Inr kr, s)" using s by (simp add: keys_Inr_iff)
  have a: "attempt (read_tx ?v) s = (Inr (Inr (st, True)), ?u)" using v by (rule attempt_Inr)
  show ?thesis
    unfolding runs_def verify_catalog_def
    using hw by (simp add: mbind_Inr [where m = keys, OF k] mbind_Inr [where m = "attempt (read_tx ?v)", OF a] mguard_def mreturn_def [symmetric])
      (auto simp add: prog_simps)
qed

lemma demo_verifies: "\<exists>t. verify_catalog plain_prims demo_open = (Inr False, t)"
proof -
  have h: "healthy demo_open" using demo_open_serving by (simp add: serving_def)
  from demo_open_state obtain vid kr st where o: "vault demo_open = agg_unlock (fresh_vault vid format_version 1)"
    "keyring demo_open = Some kr" "t_state (db demo_open) = Some st" "st_state_counter st = 1"
    "anchored plain_prims (k_catalog kr) vid 1 (db demo_open)" "sint (catalog_high_water demo_open) = 1" by metis
  have "runs (verify_catalog plain_prims) demo_open (\<lambda>b t. b = False)"
    by (rule verify_catalog_runs [OF h o(2) _ o(3)])
      (use o in \<open>simp_all add: is_unlocked_def agg_unlock_def fresh_vault_def\<close>)
  then show ?thesis by (auto simp: runs_def)
qed

section \<open>An update under the current key version\<close>

lemma demo_reopen_wf: "db_wf (db demo_reopen)"
  using inv_okD [OF dbwf_vault_ops(3) demo_reopen_runs] inv_okD [OF dbwf_vault_ops(6) demo_change_runs]
    inv_okD [OF dbwf_record_ops(1) demo_store_runs] inv_okD [OF dbwf_vault_ops(3) demo_open_runs]
    inv_okD [OF dbwf_vault_ops(2) demo_init_runs] db_wf_empty by (simp add: demo_boot_def boot_def)

lemma demo_store_wf: "db_wf (db demo_store)"
  using inv_okD [OF dbwf_record_ops(1) demo_store_runs] inv_okD [OF dbwf_vault_ops(3) demo_open_runs]
    inv_okD [OF dbwf_vault_ops(2) demo_init_runs] db_wf_empty by (simp add: demo_boot_def boot_def)

definition demo_revised :: "index_mem vsys" where
  "demo_revised = snd (update_record_op plain_prims plain_json plain_web demo_id 1 demo_meta demo_secret demo_store)"

lemma demo_store_entry: "\<exists>entry. index_get (rec_index (mem demo_store)) demo_id = Some entry \<and> ie_type entry = type_login"
  using create_record_Inr [OF demo_store_runs] by (auto simp: index_get_put)

lemma demo_revised_runs:
  "update_record_op plain_prims plain_json plain_web demo_id 1 demo_meta demo_secret demo_store = (Inr (), demo_revised)"
proof -
  from demo_store_entry obtain entry where e: "index_get (rec_index (mem demo_store)) demo_id = Some entry" "ie_type entry = type_login" by blast
  from demo_store_state obtain row where r: "t_records (db demo_store) = [row]" "rr_record_id row = demo_id" "rr_revision row = 1" by metis
  have f: "pk_find rr_record_id demo_id (t_records (db demo_store)) = Some row" by (simp add: r pk_find_def)
  have "runs (update_record_op plain_prims plain_json plain_web demo_id 1 demo_meta demo_secret) demo_store (\<lambda>_ t. True)"
    by (rule update_record_op_runs [OF plain_prims_widths demo_store_serving demo_store_wf e(1) f r(3)]) (simp_all add: e demo_valid demo_id_nonzero)
  from snd_runs [OF this] show ?thesis by (simp add: demo_revised_def)
qed

definition two_clients_db :: "client_row \<Rightarrow> client_row \<Rightarrow> db" where
  "two_clients_db c d = envelope_db\<lparr>t_clients := [c, d]\<rparr>"

lemma two_clients_db_wf: "db_wf (two_clients_db (sample_client 1 1) (sample_client 2 1))"
  by (simp add: db_wf_def two_clients_db_def envelope_db_def empty_db_def table_ok_def sample_envelope_def sample_client_def
      envelope_check_def client_check_def zero_id_def id_len_def numeral_eq_Suc)

end
