(* ===== verification/Password.thy ===== *)
theory Password
  imports Text
begin

text \<open>
  The master-password policy (\<^verbatim>\<open>internal/vault/domain/password.go\<close>): the estimate of the guess
  space, the structural rules and the list of notorious passwords. The floating-point
  comparison \<^verbatim>\<open>len * log2 pool < 60\<close> is written over the integers, \<^verbatim>\<open>pool ^ len < 2 ^ 60\<close>: no
  length from 12 to 15 and no pool the classes can add up to comes closer to 60 bits than 0.5.
\<close>

section \<open>Character classes\<close>

datatype char_class = Lower | Upper | Digit | Symbol | Other

definition class_of :: "'a unicode_tables_scheme \<Rightarrow> rune \<Rightarrow> char_class" where
  "class_of U r =
     (if is_lower U r then Lower
      else if is_upper U r then Upper
      else if is_digit U r then Digit
      else if r \<le> 127 then Symbol
      else Other)"

definition pool_of :: "'a unicode_tables_scheme \<Rightarrow> rune list \<Rightarrow> nat" where
  "pool_of U rs =
     (let seen = (\<lambda>c. list_ex (\<lambda>r. class_of U r = c) rs) in
      (if seen Lower then 26 else 0) + (if seen Upper then 26 else 0) +
      (if seen Digit then 10 else 0) + (if seen Symbol then 33 else 0) +
      (if seen Other then 100 else 0))"

definition min_password_length :: nat where "min_password_length = 12"
definition passphrase_length :: nat where "passphrase_length = 16"
definition min_password_entropy_bits :: nat where "min_password_entropy_bits = 60"

definition entropy_below_floor :: "'a unicode_tables_scheme \<Rightarrow> rune list \<Rightarrow> bool" where
  "entropy_below_floor U rs \<longleftrightarrow>
     pool_of U rs = 0 \<or> pool_of U rs ^ length rs < 2 ^ min_password_entropy_bits"

section \<open>Structural rules\<close>

definition repeats_every :: "rune list \<Rightarrow> nat \<Rightarrow> bool" where
  "repeats_every rs unit \<longleftrightarrow> list_all (\<lambda>i. rs ! i = rs ! (i - unit)) [unit ..< length rs]"

definition is_repeated_unit :: "rune list \<Rightarrow> bool" where
  "is_repeated_unit rs \<longleftrightarrow>
     list_ex (\<lambda>unit. length rs mod unit = 0 \<and> repeats_every rs unit) [1 ..< length rs div 2 + 1]"

definition is_sequential_run :: "rune list \<Rightarrow> bool" where
  "is_sequential_run rs \<longleftrightarrow>
     (if length rs < 2 then False
      else let step = rs ! 1 - rs ! 0 in
        (step = 1 \<or> step = -1) \<and> list_all (\<lambda>i. rs ! i - rs ! (i - 1) = step) [2 ..< length rs])"

text \<open>The deny list, in the order of the source.\<close>

definition common_passwords :: "string list" where
  "common_passwords =
   [''123456789012'', ''1234567890123'', ''12345678901234'', ''123456789012345'',
    ''1234567890123456'', ''111111111111'', ''000000000000'', ''121212121212'',
    ''password1234'', ''password12345'', ''password123456'', ''passw0rd1234'',
    ''passwordpassword'', ''password1!'', ''p@ssw0rd1234'', ''p@ssword1234'', ''qwertyuiop12'',
    ''qwertyuiop123'', ''qwertyuiop1234'', ''qwertyuiopasdfgh'', ''qwertyuiopasd'',
    ''qazwsxedcrfv'', ''qazwsxedcrfvtgb'', ''1qaz2wsx3edc'', ''1qaz2wsx3edc4rfv'',
    ''zaq12wsxcde3'', ''q1w2e3r4t5y6'', ''1q2w3e4r5t6y'', ''asdfghjkl123'',
    ''asdfghjklzxcvbnm'', ''zxcvbnm12345'', ''zxcvbnmasdfghjkl'', ''administrator'',
    ''administrator1'', ''letmein12345'', ''letmeinplease'', ''welcome12345'',
    ''welcome123456'', ''welcometoyou'', ''changeme1234'', ''iloveyou1234'', ''iloveyou12345'',
    ''iloveyouforever'', ''iloveyousomuch'', ''monkey123456'', ''dragon123456'',
    ''football1234'', ''baseball1234'', ''basketball12'', ''superman1234'', ''batman123456'',
    ''sunshine1234'', ''princess1234'', ''princess12345'', ''michael12345'', ''jennifer1234'',
    ''trustno1'', ''trustnoone12'', ''mypassword123'', ''mynameisnobody'', ''secretpassword'',
    ''supersecret1'', ''supersecretpassword'', ''masterpassword'', ''masterpassword1'',
    ''thisismypassword'', ''thisisapassword'', ''correcthorsebatterystaple'',
    ''letmeinnow123'', ''whatever1234'', ''nothing12345'', ''computer1234'', ''internet1234'',
    ''starwars1234'', ''pokemon12345'', ''liverpool123'', ''manchester12'', ''chocolate123'',
    ''butterfly123'', ''shadow123456'', ''jordan123456'', ''harleydavidson'', ''loveme123456'',
    ''hellohello12'', ''helloworld12'', ''abcd1234efgh'', ''abcdefgh1234'', ''abc123abc123'',
    ''a1b2c3d4e5f6'', ''passw0rd!123'', ''welcome1!2345'', ''qwerty1234567'', ''michelle1234'',
    ''december1234'', ''september123'', ''temporary1234'', ''default12345'', ''guestguest12'',
    ''testtest1234'', ''vaultpassword'', ''keepitsecret'', ''password'', ''123456'',
    ''12345678'', ''qwerty'', ''abc123'', ''letmein'', ''monkey'', ''dragon'', ''iloveyou'',
    ''admin'', ''welcome'', ''login'']"

definition is_common_password :: "'a unicode_tables_scheme \<Rightarrow> string \<Rightarrow> bool" where
  "is_common_password U s \<longleftrightarrow> List.member common_passwords (to_lower U s)"

definition check_password_strength :: "'a unicode_tables_scheme \<Rightarrow> string \<Rightarrow> err option" where
  "check_password_strength U s =
     (let rs = runes s in
      if length rs < min_password_length then Some ErrWeakPassword
      else if is_common_password U s then Some ErrWeakPassword
      else if is_repeated_unit rs \<or> is_sequential_run rs then Some ErrWeakPassword
      else if length rs < passphrase_length \<and> entropy_below_floor U rs then Some ErrWeakPassword
      else None)"

section \<open>What the rules decide\<close>

lemma repeats_every_iff:
  "repeats_every rs u \<longleftrightarrow> (\<forall>i. u \<le> i \<and> i < length rs \<longrightarrow> rs ! i = rs ! (i - u))"
  by (auto simp: repeats_every_def list_all_iff)

lemma concat_replicate_nth:
  "i < k * length u \<Longrightarrow> concat (replicate k u) ! i = u ! (i mod length u)"
proof (induction k arbitrary: i)
  case 0
  then show ?case by simp
next
  case (Suc k)
  show ?case
  proof (cases "i < length u")
    case True
    then show ?thesis by (simp add: nth_append)
  next
    case False
    with Suc.prems have "i - length u < k * length u" by simp
    with Suc.IH [of "i - length u"] False show ?thesis
      by (simp add: nth_append mod_if [of i])
  qed
qed

lemma repeats_every_nth:
  assumes "repeats_every rs u" and "0 < u" and "i < length rs"
  shows "rs ! i = rs ! (i mod u)"
  using assms(3)
proof (induction i rule: less_induct)
  case (less i)
  show ?case
  proof (cases "i < u")
    case True
    then show ?thesis by simp
  next
    case False
    then have "rs ! i = rs ! (i - u)" using assms(1) less.prems by (simp add: repeats_every_iff)
    also have "\<dots> = rs ! ((i - u) mod u)" using less False assms(2) by simp
    finally show ?thesis using False by (simp add: mod_if [of i])
  qed
qed

text \<open>A password is one unit repeated end to end exactly when the search finds a unit.\<close>

lemma is_repeated_unit_iff:
  "is_repeated_unit rs \<longleftrightarrow> (\<exists>u k. 2 \<le> k \<and> u \<noteq> [] \<and> rs = concat (replicate k u))"
proof
  assume "is_repeated_unit rs"
  then obtain n where n: "0 < n" "n \<le> length rs div 2" "length rs mod n = 0" "repeats_every rs n"
    by (auto simp: is_repeated_unit_def list_ex_iff Suc_le_eq mod_eq_0_iff_dvd)
  obtain k where k: "length rs = k * n" using n(3) by (metis mod_0_imp_dvd dvd_div_mult_self)
  have "n \<le> length rs" using n(2) by simp
  have "2 * n \<le> k * n" using n(2) k by linarith
  then have "2 \<le> k" using n(1) by simp
  moreover have "take n rs \<noteq> []" using n(1) \<open>n \<le> length rs\<close> by auto
  moreover have "rs = concat (replicate k (take n rs))"
  proof (rule nth_equalityI)
    show "length rs = length (concat (replicate k (take n rs)))"
      using k \<open>n \<le> length rs\<close> by (simp add: length_concat sum_list_replicate)
    fix i assume i: "i < length rs"
    have "concat (replicate k (take n rs)) ! i = take n rs ! (i mod n)"
      using concat_replicate_nth [of i k "take n rs"] i k \<open>n \<le> length rs\<close> by simp
    also have "\<dots> = rs ! (i mod n)" using n(1) by simp
    finally show "rs ! i = concat (replicate k (take n rs)) ! i"
      using repeats_every_nth [OF n(4,1) i] by simp
  qed
  ultimately show "\<exists>u k. 2 \<le> k \<and> u \<noteq> [] \<and> rs = concat (replicate k u)" by blast
next
  assume "\<exists>u k. 2 \<le> k \<and> u \<noteq> [] \<and> rs = concat (replicate k u)"
  then obtain u k where k: "2 \<le> k" and u: "u \<noteq> []" and rs: "rs = concat (replicate k u)" by blast
  let ?n = "length u"
  have len: "length rs = k * ?n" by (simp add: rs length_concat sum_list_replicate)
  have "repeats_every rs ?n"
    unfolding repeats_every_iff
  proof (intro allI impI)
    fix i assume i: "?n \<le> i \<and> i < length rs"
    then have "rs ! i = u ! (i mod ?n)" using concat_replicate_nth [of i k u] len rs by simp
    moreover have "i - ?n < k * ?n" using i len by (simp add: less_imp_diff_less)
    then have "rs ! (i - ?n) = u ! ((i - ?n) mod ?n)"
      using concat_replicate_nth [of "i - ?n" k u] rs by simp
    moreover have "(i - ?n) mod ?n = i mod ?n" using i by (simp add: mod_if [of i])
    ultimately show "rs ! i = rs ! (i - ?n)" by simp
  qed
  moreover have "?n \<le> length rs div 2" using k len by (simp add: less_eq_div_iff_mult_less_eq)
  moreover have "1 \<le> ?n" using u by (simp add: Suc_le_eq)
  ultimately have "?n \<in> set [1 ..< length rs div 2 + 1]"
    by (simp only: set_upt atLeastLessThan_iff) auto
  moreover have "length rs mod ?n = 0" using len by simp
  ultimately show "is_repeated_unit rs"
    using \<open>repeats_every rs ?n\<close> unfolding is_repeated_unit_def list_ex_iff
    by (intro bexI [of _ ?n] conjI)
qed

text \<open>A sequential run walks up or down by one code point at every step.\<close>

lemma is_sequential_run_iff:
  "is_sequential_run rs \<longleftrightarrow>
     2 \<le> length rs \<and> (\<exists>d \<in> {1, -1}. \<forall>i < length rs. rs ! i = rs ! 0 + int i * d)"
proof (cases "length rs < 2")
  case True
  then show ?thesis by (simp add: is_sequential_run_def)
next
  case False
  have step: "(\<forall>i < length rs. rs ! i = rs ! 0 + int i * d) \<longleftrightarrow>
      rs ! 1 - rs ! 0 = d \<and> (\<forall>i. 2 \<le> i \<and> i < length rs \<longrightarrow> rs ! i - rs ! (i - 1) = d)" for d
  proof
    assume a: "\<forall>i < length rs. rs ! i = rs ! 0 + int i * d"
    have d: "rs ! i - rs ! (i - 1) = d" if "1 \<le> i" "i < length rs" for i
    proof -
      have "rs ! i = rs ! 0 + int i * d" and "rs ! (i - 1) = rs ! 0 + int (i - 1) * d"
        using a that by auto
      then show ?thesis using that by (simp add: of_nat_diff algebra_simps)
    qed
    show "rs ! 1 - rs ! 0 = d \<and> (\<forall>i. 2 \<le> i \<and> i < length rs \<longrightarrow> rs ! i - rs ! (i - 1) = d)"
      using False d [of 1] d by simp
  next
    assume a: "rs ! 1 - rs ! 0 = d \<and> (\<forall>i. 2 \<le> i \<and> i < length rs \<longrightarrow> rs ! i - rs ! (i - 1) = d)"
    show "\<forall>i < length rs. rs ! i = rs ! 0 + int i * d"
    proof (intro allI impI)
      fix i assume "i < length rs"
      then show "rs ! i = rs ! 0 + int i * d"
      proof (induction i)
        case 0
        then show ?case by simp
      next
        case (Suc i)
        have "rs ! Suc i - rs ! i = d"
        proof (cases "i = 0")
          case True
          with a show ?thesis by simp
        next
          case False
          with a Suc.prems show ?thesis by (auto dest: spec [of _ "Suc i"])
        qed
        with Suc show ?case by (simp add: algebra_simps)
      qed
    qed
  qed
  have "is_sequential_run rs \<longleftrightarrow> (\<exists>d \<in> {1, -1}. rs ! 1 - rs ! 0 = d \<and>
      (\<forall>i. 2 \<le> i \<and> i < length rs \<longrightarrow> rs ! i - rs ! (i - 1) = d))"
    using False by (auto simp: is_sequential_run_def Let_def list_all_iff)
  with False show ?thesis by (simp add: step)
qed

lemma run_from_map:
  "(\<forall>i < length rs. rs ! i = rs ! 0 + int i * d) \<longleftrightarrow> rs = map (\<lambda>i. rs ! 0 + int i * d) [0..<length rs]"
  unfolding list_eq_iff_nth_eq [of rs] by simp

lemma is_sequential_run_map:
  "is_sequential_run rs \<longleftrightarrow> 2 \<le> length rs \<and>
     (rs = map (\<lambda>i. rs ! 0 + int i * 1) [0..<length rs] \<or> rs = map (\<lambda>i. rs ! 0 + int i * (- 1)) [0..<length rs])"
  unfolding is_sequential_run_iff run_from_map by blast

lemma check_password_strength_None_iff:
  "check_password_strength U s = None \<longleftrightarrow>
     12 \<le> length (runes s) \<and> to_lower U s \<notin> set common_passwords \<and>
     \<not> is_repeated_unit (runes s) \<and> \<not> is_sequential_run (runes s) \<and>
     (16 \<le> length (runes s) \<or> 0 < pool_of U (runes s) \<and> 2 ^ 60 \<le> pool_of U (runes s) ^ length (runes s))"
  by (auto simp: check_password_strength_def Let_def min_password_length_def passphrase_length_def
      entropy_below_floor_def min_password_entropy_bits_def is_common_password_def not_less)

lemma check_password_strength_error: "check_password_strength U s = Some e \<Longrightarrow> e = ErrWeakPassword"
  by (auto simp: check_password_strength_def Let_def split: if_splits)

end
