(* ===== verification/Capability.thy ===== *)
theory Capability
  imports Shared
begin

text \<open>
  Capabilities and client kinds (\<^verbatim>\<open>internal/access/domain/{capability,client}.go\<close>): a capability
  is one bit of a 64-bit mask, and every client kind has its least-privilege mask.
\<close>

section \<open>Bits\<close>

datatype capability =
    CapVaultStatus | CapVaultUnlock | CapVaultLock
  | CapRecordList | CapRecordRead | CapRecordReveal | CapRecordWrite | CapRecordDelete
  | CapRecordMatch | CapRecordRevealForOrigin | CapRecordCreateLogin | CapRecordUpdateLogin
  | CapPasswordGenerate | CapBackupCreate | CapBackupRestore
  | CapClientAdmin | CapPasswordChange | CapVaultDestroy | CapRelay | CapPair

definition all_capabilities :: "capability list" where
  "all_capabilities =
     [CapVaultStatus, CapVaultUnlock, CapVaultLock,
      CapRecordList, CapRecordRead, CapRecordReveal, CapRecordWrite, CapRecordDelete,
      CapRecordMatch, CapRecordRevealForOrigin, CapRecordCreateLogin, CapRecordUpdateLogin,
      CapPasswordGenerate, CapBackupCreate, CapBackupRestore,
      CapClientAdmin, CapPasswordChange, CapVaultDestroy, CapRelay, CapPair]"

text \<open>The \<^verbatim>\<open>iota\<close> of the constant declaration, and the constant's value.\<close>

fun cap_index :: "capability \<Rightarrow> nat" where
  "cap_index CapVaultStatus = 0"
| "cap_index CapVaultUnlock = 1"
| "cap_index CapVaultLock = 2"
| "cap_index CapRecordList = 3"
| "cap_index CapRecordRead = 4"
| "cap_index CapRecordReveal = 5"
| "cap_index CapRecordWrite = 6"
| "cap_index CapRecordDelete = 7"
| "cap_index CapRecordMatch = 8"
| "cap_index CapRecordRevealForOrigin = 9"
| "cap_index CapRecordCreateLogin = 10"
| "cap_index CapRecordUpdateLogin = 11"
| "cap_index CapPasswordGenerate = 12"
| "cap_index CapBackupCreate = 13"
| "cap_index CapBackupRestore = 14"
| "cap_index CapClientAdmin = 15"
| "cap_index CapPasswordChange = 16"
| "cap_index CapVaultDestroy = 17"
| "cap_index CapRelay = 18"
| "cap_index CapPair = 19"

definition cap_bit :: "capability \<Rightarrow> u64" where
  "cap_bit c = push_bit (cap_index c) 1"

unbundle bit_operations_syntax

definition new_capability_set :: "capability list \<Rightarrow> u64" where
  "new_capability_set caps = foldl (\<lambda>s c. s OR cap_bit c) 0 caps"

definition has :: "u64 \<Rightarrow> capability \<Rightarrow> bool" where
  "has s c \<longleftrightarrow> s AND cap_bit c \<noteq> 0"

fun cap_name :: "capability \<Rightarrow> string" where
  "cap_name CapVaultStatus = ''vault.status''"
| "cap_name CapVaultUnlock = ''vault.unlock''"
| "cap_name CapVaultLock = ''vault.lock''"
| "cap_name CapRecordList = ''records.list''"
| "cap_name CapRecordRead = ''records.read''"
| "cap_name CapRecordReveal = ''records.reveal''"
| "cap_name CapRecordWrite = ''records.write''"
| "cap_name CapRecordDelete = ''records.delete''"
| "cap_name CapRecordMatch = ''records.match''"
| "cap_name CapRecordRevealForOrigin = ''records.revealForOrigin''"
| "cap_name CapRecordCreateLogin = ''records.createLogin''"
| "cap_name CapRecordUpdateLogin = ''records.updateLogin''"
| "cap_name CapPasswordGenerate = ''password.generate''"
| "cap_name CapBackupCreate = ''backup.create''"
| "cap_name CapBackupRestore = ''backup.restore''"
| "cap_name CapClientAdmin = ''clients.admin''"
| "cap_name CapPasswordChange = ''vault.changePassword''"
| "cap_name CapVaultDestroy = ''vault.destroy''"
| "cap_name CapRelay = ''relay''"
| "cap_name CapPair = ''pair''"

definition capability_names :: "u64 \<Rightarrow> string list" where
  "capability_names s = map cap_name (filter (has s) all_capabilities)"

lemma cap_index_inject [simp]: "cap_index c = cap_index d \<longleftrightarrow> c = d"
  by (cases c; cases d) simp_all

lemma cap_index_bound: "cap_index c < 20"
  by (cases c) simp_all

lemma in_all_capabilities [simp]: "c \<in> set all_capabilities"
  by (cases c) (simp_all add: all_capabilities_def)

lemma distinct_all_capabilities: "distinct all_capabilities"
  by (simp add: all_capabilities_def)

lemma cap_name_inject: "cap_name c = cap_name d \<longleftrightarrow> c = d"
  by (cases c; cases d) simp_all

lemma bit_cap_bit: "bit (cap_bit c) n \<longleftrightarrow> n = cap_index c"
  using cap_index_bound [of c] by (auto simp: cap_bit_def push_bit_eq_mult bit_exp_iff)

lemma has_iff: "has s c \<longleftrightarrow> bit s (cap_index c)"
proof -
  have "has s c \<longleftrightarrow> (\<exists>n. bit (s AND cap_bit c) n)"
    unfolding has_def bit_eq_iff [of "s AND cap_bit c" 0]
    using bit_imp_le_length [of "s AND cap_bit c"] by auto
  then show ?thesis by (auto simp: bit_and_iff bit_cap_bit)
qed

text \<open>A set made of capabilities has those and no others.\<close>

lemma bit_foldl_caps: "bit (foldl (\<lambda>s c. s OR cap_bit c) s0 caps) n \<longleftrightarrow> bit s0 n \<or> n \<in> cap_index ` set caps"
  by (induction caps arbitrary: s0) (auto simp: bit_or_iff bit_cap_bit)

lemma has_new_capability_set [simp]: "has (new_capability_set caps) c \<longleftrightarrow> c \<in> set caps"
  by (auto simp: has_iff new_capability_set_def bit_foldl_caps)

lemma has_zero [simp]: "\<not> has 0 c"
  by (simp add: has_iff)

lemma names_complete: "cap_name c \<in> set (capability_names s) \<longleftrightarrow> has s c"
  by (auto simp: capability_names_def cap_name_inject)

section \<open>The sets\<close>

definition cli_capabilities :: u64 where
  "cli_capabilities = new_capability_set
     [CapVaultStatus, CapVaultUnlock, CapVaultLock,
      CapRecordList, CapRecordRead, CapRecordReveal, CapRecordWrite, CapRecordDelete,
      CapRecordMatch, CapRecordRevealForOrigin, CapPasswordGenerate,
      CapBackupCreate, CapBackupRestore,
      CapClientAdmin, CapPasswordChange, CapVaultDestroy]"

definition chrome_capabilities :: u64 where
  "chrome_capabilities = new_capability_set
     [CapVaultStatus, CapVaultUnlock, CapVaultLock,
      CapRecordMatch, CapRecordRevealForOrigin,
      CapRecordCreateLogin, CapRecordUpdateLogin,
      CapPasswordGenerate]"

definition relay_capabilities :: u64 where
  "relay_capabilities = new_capability_set [CapVaultStatus, CapRelay]"

definition pairing_capabilities :: u64 where
  "pairing_capabilities = new_capability_set [CapPair, CapVaultStatus]"

lemmas capability_set_defs = cli_capabilities_def chrome_capabilities_def relay_capabilities_def

section \<open>Client kinds\<close>

text \<open>A kind is a Go \<^verbatim>\<open>int\<close>: any number can arrive, the constants name four of them.\<close>

type_synonym client_kind = i64

definition kind_cli :: client_kind where "kind_cli = 1"
definition kind_chrome_extension :: client_kind where "kind_chrome_extension = 2"
definition kind_chrome_native_host :: client_kind where "kind_chrome_native_host = 3"
definition kind_administrative_tool :: client_kind where "kind_administrative_tool = 4"

lemmas kind_defs = kind_cli_def kind_chrome_extension_def kind_chrome_native_host_def
  kind_administrative_tool_def

definition status_pending :: i64 where "status_pending = 1"
definition status_approved :: i64 where "status_approved = 2"
definition status_revoked :: i64 where "status_revoked = 3"

definition is_pairable :: "client_kind \<Rightarrow> bool" where
  "is_pairable k \<longleftrightarrow> k = kind_chrome_extension \<or> k = kind_chrome_native_host"

definition kind_string :: "client_kind \<Rightarrow> string" where
  "kind_string k =
     (if k = kind_cli then ''cli''
      else if k = kind_chrome_extension then ''chrome-extension''
      else if k = kind_chrome_native_host then ''chrome-native-host''
      else if k = kind_administrative_tool then ''administrative-tool''
      else ''unknown'')"

definition default_capabilities :: "client_kind \<Rightarrow> u64" where
  "default_capabilities k =
     (if k = kind_cli \<or> k = kind_administrative_tool then cli_capabilities
      else if k = kind_chrome_extension then chrome_capabilities
      else if k = kind_chrome_native_host then relay_capabilities
      else 0)"

record client =
  cl_id :: ident
  cl_kind :: client_kind
  cl_status :: i64
  cl_capabilities :: u64
  cl_credential_hash :: bytes
  cl_static_key :: bytes

definition is_approved :: "client \<Rightarrow> bool" where
  "is_approved c \<longleftrightarrow> cl_status c = status_approved"

text \<open>What a paired client may never do.\<close>

definition administrative :: "capability set" where
  "administrative = {CapRecordList, CapRecordRead, CapRecordReveal, CapRecordWrite, CapRecordDelete,
     CapBackupCreate, CapBackupRestore, CapClientAdmin, CapPasswordChange, CapVaultDestroy}"

lemma pairable_not_administrative:
  "is_pairable k \<Longrightarrow> has (default_capabilities k) c \<Longrightarrow> c \<notin> administrative"
  by (auto simp: is_pairable_def default_capabilities_def kind_defs administrative_def capability_set_defs)

end
