(* ===== verification/Events.thy ===== *)
theory Events
  imports Vault
begin

text \<open>
  Security events (\<^verbatim>\<open>internal/security/domain/event.go\<close>,
  \<^verbatim>\<open>internal/security/application/recorder.go\<close>): numeric codes in an append-only table, with
  details that are sealed under the audit key while the vault is unlocked and dropped while it
  is locked.
\<close>

section \<open>Codes\<close>

datatype severity = SeverityInfo | SeverityWarning | SeverityCritical

fun severity_number :: "severity \<Rightarrow> i64" where
  "severity_number SeverityInfo = 1"
| "severity_number SeverityWarning = 2"
| "severity_number SeverityCritical = 3"

datatype event_code =
    EventVaultCreated | EventVaultUnlocked | EventVaultLocked | EventVaultPanicLocked
  | EventMasterPasswordChanged | EventUnlockFailed | EventUnlockRateLimited
  | EventClientPairingRequested | EventClientApproved | EventClientRevoked
  | EventClientAutoApproved | EventUnauthorizedRequest | EventIntegrityFailure
  | EventTransportHandshakeFailed | EventProtocolViolation | EventBackupCreated
  | EventBackupRestored | EventVaultDestroyed | EventVaultStateBootstrapped

fun event_number :: "event_code \<Rightarrow> i64" where
  "event_number EventVaultCreated = 100"
| "event_number EventVaultUnlocked = 101"
| "event_number EventVaultLocked = 102"
| "event_number EventVaultPanicLocked = 103"
| "event_number EventMasterPasswordChanged = 104"
| "event_number EventUnlockFailed = 105"
| "event_number EventUnlockRateLimited = 106"
| "event_number EventClientPairingRequested = 107"
| "event_number EventClientApproved = 108"
| "event_number EventClientRevoked = 109"
| "event_number EventClientAutoApproved = 110"
| "event_number EventUnauthorizedRequest = 111"
| "event_number EventIntegrityFailure = 112"
| "event_number EventTransportHandshakeFailed = 113"
| "event_number EventProtocolViolation = 114"
| "event_number EventBackupCreated = 115"
| "event_number EventBackupRestored = 116"
| "event_number EventVaultDestroyed = 117"
| "event_number EventVaultStateBootstrapped = 118"

section \<open>Recording\<close>

definition event_aad :: "bytes \<Rightarrow> i64 \<Rightarrow> bytes" where
  "event_aad vault_id code = record_aad vault_id [] code PayloadEvent 1 0"

definition seal_details ::
  "crypto_prims \<Rightarrow> event_code \<Rightarrow> string \<Rightarrow> (('m, 'a) vsys_scheme, err, (bytes \<times> bytes) option) prog" where
  "seal_details P code details =
     (if details = '''' then mreturn None else
      mbind (attempt keys) (\<lambda>r. case r of Inl _ \<Rightarrow> mreturn None | Inr kr \<Rightarrow>
      mbind (attempt vault_info) (\<lambda>v. case v of Inl _ \<Rightarrow> mreturn None | Inr (vault_id, _, _) \<Rightarrow>
      mbind (attempt new_nonce) (\<lambda>n. case n of Inl _ \<Rightarrow> mreturn None | Inr nonce \<Rightarrow>
      (case seal P (k_audit kr) nonce (str_bytes details) (event_aad vault_id (event_number code)) of
         Inl _ \<Rightarrow> mreturn None
       | Inr ct \<Rightarrow> mreturn (Some (nonce, ct)))))))"

definition record_event ::
  "crypto_prims \<Rightarrow> severity \<Rightarrow> event_code \<Rightarrow> string \<Rightarrow> (('m, 'a) vsys_scheme, err, unit) prog" where
  "record_event P sev code details =
     mbind (seal_details P code details) (\<lambda>x.
     mbind (mget now) (\<lambda>t.
     with_tx (insert_security_event \<lparr>sr_sequence_id = 0, sr_occurred_at_ms = of_int (unix_milli t),
       sr_severity = severity_number sev, sr_event_code = event_number code,
       sr_details_nonce = map_option fst x, sr_details_ciphertext = map_option snd x\<rparr>)))"

text \<open>A caller that drops the returned error.\<close>

definition note_event :: "crypto_prims \<Rightarrow> severity \<Rightarrow> event_code \<Rightarrow> (('m, 'a) vsys_scheme, err, unit) prog" where
  "note_event P sev code = ignore_error (record_event P sev code '''')"

section \<open>Listing\<close>

record event =
  ev_sequence :: i64
  ev_occurred_at :: go_time
  ev_severity :: i64
  ev_code :: i64
  ev_details :: string

definition event_of_row :: "crypto_prims \<Rightarrow> keyring option \<Rightarrow> bytes \<Rightarrow> event_row \<Rightarrow> event" where
  "event_of_row P ks vault_id row =
     \<lparr>ev_sequence = sr_sequence_id row, ev_occurred_at = from_milli (sint (sr_occurred_at_ms row)),
      ev_severity = sr_severity row, ev_code = sr_event_code row,
      ev_details = (case (ks, sr_details_ciphertext row) of
          (Some kr, Some ct) \<Rightarrow>
            if ct = [] then ''''
            else (case open_box P (k_audit kr) (case sr_details_nonce row of None \<Rightarrow> [] | Some n \<Rightarrow> n) ct
                         (event_aad vault_id (sr_event_code row)) of
                    Inr pt \<Rightarrow> bytes_str pt
                  | Inl _ \<Rightarrow> ''(integrity failure)'')
        | _ \<Rightarrow> '''')\<rparr>"

text \<open>The keys, and the id of the vault when there are keys; a failure of \<^verbatim>\<open>VaultInfo\<close> is ignored.\<close>

definition audit_keys :: "(('m, 'a) vsys_scheme, err, keyring option \<times> bytes) prog" where
  "audit_keys =
     mbind (attempt keys) (\<lambda>r. case r of
       Inl _ \<Rightarrow> mreturn (None, [])
     | Inr kr \<Rightarrow>
         mbind (attempt vault_info) (\<lambda>v. case v of
           Inl _ \<Rightarrow> mreturn (Some kr, [])
         | Inr (vault_id, _, _) \<Rightarrow> mreturn (Some kr, vault_id)))"

definition recent :: "crypto_prims \<Rightarrow> i64 \<Rightarrow> (('m, 'a) vsys_scheme, err, event list) prog" where
  "recent P limit =
     mbind (list_security_events limit) (\<lambda>rows.
     mbind audit_keys (\<lambda>(ks, vault_id).
     mreturn (map (event_of_row P ks vault_id) rows)))"

section \<open>Frames\<close>

lemma fixed_seal_details [intro]: "obeys (same_on fixed) (seal_details P code details)"
  unfolding seal_details_def
  by (intro same.ok_intros same.ok_attempt fixed_keys fixed_vault_info fixed_new)

lemma fixed_record_event [intro]: "obeys (same_on fixed) (record_event P sev code details)"
  unfolding record_event_def by (intro same.ok_intros fixed_seal_details fixed_tx fixed_commands)

lemma fixed_note_event [intro]: "obeys (same_on fixed) (note_event P sev code)"
  unfolding note_event_def by (intro same.ok_ignore_error fixed_record_event)

lemma fixed_audit_keys [intro]: "obeys (same_on fixed) audit_keys"
  unfolding audit_keys_def by (intro same.ok_intros same.ok_attempt fixed_keys fixed_vault_info)

lemma fixed_recent [intro]: "obeys (same_on fixed) (recent P limit)"
  unfolding recent_def by (intro same.ok_intros fixed_queries fixed_audit_keys)

lemma dbwf_seal_details [intro]: "obeys (keeps_inv sound_db) (seal_details P code details)"
  unfolding seal_details_def
  by (intro inv.ok_intros inv.ok_attempt dbwf_basic dbwf_new)

lemma dbwf_record_event [intro]: "obeys (keeps_inv sound_db) (record_event P sev code details)"
  unfolding record_event_def by (intro inv.ok_intros dbwf_seal_details dbwf_tx dbwf_commands)

section \<open>What is stored\<close>

text \<open>The tables other than the events.\<close>

definition besides_events :: "db \<Rightarrow> db" where
  "besides_events d = d\<lparr>t_events := [], t_event_seq := 0\<rparr>"

lemma same_db_basic [intro]:
  "obeys (same_on db) (random_bytes n)" "obeys (same_on db) keys" "obeys (same_on db) vault_info"
  "obeys (same_on db) audit_keys"
proof -
  show "obeys (same_on db) (random_bytes n)" by (auto simp: obeys_def same_on_def random_bytes_def)
  show k: "obeys (same_on db) keys" unfolding keys_def by (intro same.ok_intros)
  show v: "obeys (same_on db) vault_info" unfolding vault_info_def by (intro same.ok_intros)
  show "obeys (same_on db) audit_keys" unfolding audit_keys_def by (intro same.ok_intros same.ok_attempt k v)
qed

lemma same_db_seal_details [intro]: "obeys (same_on db) (seal_details P code details)"
  unfolding seal_details_def new_nonce_def by (intro same.ok_intros same.ok_attempt same_db_basic)

lemma seal_details_Inr:
  assumes "seal_details P code details s = (Inr (Some (nonce, ct)), t)"
  shows "\<exists>kr. has_keys s \<and> keyring s = Some kr \<and> loaded s \<and> details \<noteq> '''' \<and> length nonce = 24 \<and>
    seal P (k_audit kr) nonce (str_bytes details) (event_aad (v_id (vault s)) (event_number code)) = Inr ct"
  using assms
  by (auto simp: seal_details_def mbind_Inr_iff attempt_Inr_iff prog_simps sum_prog_iff new_nonce_def nonce_size_def
      has_keys_def split: if_splits sum.splits dest!: random_bytes_Inr)

text \<open>With the keys at hand and a random source that answers, the details are sealed.\<close>

lemma seal_details_None:
  assumes "seal_details P code details s = (Inr None, t)" and "has_keys s" and "loaded s" and "details \<noteq> ''''"
    and "\<forall>k. rnd_ok s k" and "\<And>kr. keyring s = Some kr \<Longrightarrow> length (k_audit kr) = 32"
  shows False
proof -
  from assms(2) obtain kr where k: "is_unlocked (vault s)" "keyring s = Some kr" by (auto simp: has_keys_def)
  have n: "\<exists>n u. new_nonce s = (Inr n, u) \<and> length n = 24"
    using assms(5) by (simp add: new_nonce_def random_bytes_def nonce_size_def)
  have "keys s = (Inr kr, s)" "vault_info s = (Inr (v_id (vault s), v_format_version (vault s), v_active_envelope_version (vault s)), s)"
    using k assms(3) by (simp_all add: prog_simps)
  with n assms(1,4) assms(6) [OF k(2)] show False
    by (auto simp: seal_details_def mbind_unfold attempt_Inr prog_simps seal_def aead_args_def
        key_size_def nonce_size_def)
qed

lemma record_event_Inr:
  assumes "record_event P sev code details s = (Inr u, t)"
  shows "\<exists>x v row. seal_details P code details s = (Inr x, v) \<and>
    row = \<lparr>sr_sequence_id = t_event_seq (db s) + 1, sr_occurred_at_ms = of_int (unix_milli (now s)),
       sr_severity = severity_number sev, sr_event_code = event_number code,
       sr_details_nonce = map_option fst x, sr_details_ciphertext = map_option snd x\<rparr> \<and>
    sint (t_event_seq (db s)) \<noteq> 2 ^ 63 - 1 \<and>
    db t = (db s)\<lparr>t_events := t_events (db s) @ [row], t_event_seq := t_event_seq (db s) + 1\<rparr>"
proof -
  from assms obtain x v where x: "seal_details P code details s = (Inr x, v)"
    and tx: "with_tx (insert_security_event \<lparr>sr_sequence_id = 0, sr_occurred_at_ms = of_int (unix_milli (now v)),
       sr_severity = severity_number sev, sr_event_code = event_number code,
       sr_details_nonce = map_option fst x, sr_details_ciphertext = map_option snd x\<rparr>) v = (Inr u, t)"
    by (auto simp: record_event_def mbind_Inr_iff prog_simps)
  have "db v = db s" by (rule same_okD [OF same_db_seal_details x])
  moreover have "now v = now s" by (rule fixedD(3) [OF fixed_seal_details x])
  ultimately show ?thesis using tx x
    by (auto simp: insert_security_event_def with_tx_Inr_iff prog_simps Let_def split: if_splits)
qed

text \<open>Recording touches no table but its own, whether it succeeds or not.\<close>

lemma besides_record_event [intro]: "obeys (same_on (\<lambda>s. besides_events (db s))) (record_event P sev code details)"
  unfolding obeys_def same_on_def
proof
  fix s :: "('a, 'b) vsys_scheme"
  obtain r t where m: "record_event P sev code details s = (r, t)" by (cases "record_event P sev code details s")
  show "besides_events (db (snd (record_event P sev code details s))) = besides_events (db s)"
  proof (cases r)
    case (Inr u)
    with m record_event_Inr [of P sev code details s u t] show ?thesis by (auto simp: besides_events_def)
  next
    case (Inl e)
    with m have "db t = db s"
      by (auto simp: record_event_def mbind_Inl_iff prog_simps dest!: with_tx_Inl same_okD [OF same_db_seal_details])
    with m show ?thesis by simp
  qed
qed

lemma besides_note_event [intro]: "obeys (same_on (\<lambda>s. besides_events (db s))) (note_event P sev code)"
  unfolding note_event_def by (intro same.ok_ignore_error besides_record_event)

text \<open>On an open store, noting an event cannot fail: the error is dropped.\<close>

lemma insert_event_no_panic: "db_open s \<Longrightarrow> with_tx (insert_security_event r) s \<noteq> (Inl Panic, t)"
  by (auto simp: with_tx_def insert_security_event_def sql_exec_def sql_query_def io_step_def mbind_unfold
      prog_simps rollback_to_def Let_def split: if_splits sum.splits prod.splits)

lemma note_event_Inr:
  assumes "db_open s"
  shows "\<exists>t. note_event P sev code s = (Inr (), t)"
proof -
  have "record_event P sev code '''' s \<noteq> (Inl Panic, t)" for t
    using insert_event_no_panic [OF assms] by (simp add: record_event_def seal_details_def prog_simps)
  then show ?thesis
    by (cases "record_event P sev code '''' s")
      (auto simp: note_event_def ignore_error_def mbind_unfold attempt_def prog_simps split: sum.splits err.splits prod.splits)
qed

section \<open>Order\<close>

text \<open>The sequence numbers ascend in the order of recording, and none is above the table's counter.\<close>

definition events_ordered :: "db \<Rightarrow> bool" where
  "events_ordered d \<longleftrightarrow> sorted_wrt (<) (map (\<lambda>r. sint (sr_sequence_id r)) (t_events d)) \<and>
     (\<forall>r \<in> set (t_events d). sint (sr_sequence_id r) \<le> sint (t_event_seq d))"

lemma sorted_wrt_sort_key:
  fixes f :: "'x \<Rightarrow> int"
  assumes "sorted_wrt (<) (map f xs)"
  shows "sort_key f xs = xs"
proof -
  from assms have "sorted (map f xs)" by (rule strict_sorted_imp_sorted)
  then show ?thesis by (rule sort_key_id_if_sorted)
qed

lemma record_event_ordered:
  assumes "record_event P sev code details s = (Inr u, t)" and "events_ordered (db s)"
  shows "events_ordered (db t)"
proof -
  from record_event_Inr [OF assms(1)] have d: "db t = (db s)\<lparr>t_events := t_events (db s) @ [row],
      t_event_seq := t_event_seq (db s) + 1\<rparr> \<Longrightarrow> sr_sequence_id row = t_event_seq (db s) + 1 \<Longrightarrow> ?thesis" for row
    using assms(2) sint_plus1 [of "t_event_seq (db s)"] by (fastforce simp: events_ordered_def sorted_wrt_append)
  with record_event_Inr [OF assms(1)] show ?thesis by auto
qed

lemma vault_info_Inl: "vault_info s = (Inl e, t) \<Longrightarrow> \<not> loaded s"
  by (auto simp: vault_info_def mbind_Inl_iff prog_simps split: if_splits)

text \<open>What was recorded last is what the listing shows first, details included.\<close>

lemma recent_after_record:
  assumes "aead_correct P" and "record_event P sev code details s = (Inr u, t)" and "events_ordered (db s)"
    and "recent P 1 t = (Inr es, v)"
  shows "\<exists>e. es = [e] \<and> ev_code e = event_number code \<and> ev_severity e = severity_number sev \<and>
    ev_sequence e = t_event_seq (db s) + 1 \<and> (ev_details e = details \<or> ev_details e = '''') \<and>
    (\<not> has_keys s \<longrightarrow> ev_details e = '''')"
proof -
  from record_event_Inr [OF assms(2)] obtain x w row where x: "seal_details P code details s = (Inr x, w)"
    and row: "row = \<lparr>sr_sequence_id = t_event_seq (db s) + 1, sr_occurred_at_ms = of_int (unix_milli (now s)),
       sr_severity = severity_number sev, sr_event_code = event_number code,
       sr_details_nonce = map_option fst x, sr_details_ciphertext = map_option snd x\<rparr>"
    and db: "t_events (db t) = t_events (db s) @ [row]" by auto
  have "env.more t = env.more s" by (rule fixedD(6) [OF fixed_record_event assms(2)])
  note same = more_vsys [OF this]
  have "sorted_wrt (<) (map (\<lambda>r. sint (sr_sequence_id r)) (t_events (db t)))"
    using record_event_ordered [OF assms(2,3)] by (simp add: events_ordered_def)
  then have last: "take 1 (rev (sort_key (\<lambda>r. sint (sr_sequence_id r)) (t_events (db t)))) = [row]"
    by (simp add: sorted_wrt_sort_key db)
  from assms(4) obtain ks vid u' where ks: "audit_keys u' = (Inr (ks, vid), v)"
    and es: "es = [event_of_row P ks vid row]" and u': "u' = t\<lparr>io_pos := Suc (io_pos t)\<rparr>"
    using last by (auto simp: recent_def mbind_Inr_iff prog_simps list_security_events_def Let_def)
  have k: "(ks = None \<longleftrightarrow> \<not> has_keys s) \<and> (\<forall>kr. ks = Some kr \<longrightarrow> keyring s = Some kr \<and> (loaded s \<longrightarrow> vid = v_id (vault s)))"
    using ks same unfolding u'
    by (auto simp: audit_keys_def mbind_Inr_iff attempt_Inr_iff prog_simps sum_prog_iff keys_Inl_iff has_keys_def
        split: sum.splits dest!: vault_info_Inl)
  have "ev_details (event_of_row P ks vid row) = details \<or> ev_details (event_of_row P ks vid row) = ''''"
  proof (cases x)
    case None
    then show ?thesis by (simp add: event_of_row_def row split: option.split)
  next
    case (Some y)
    obtain nonce ct where y: "y = (nonce, ct)" by (cases y)
    with Some x seal_details_Inr [of P code details s nonce ct w] obtain kr where kr: "keyring s = Some kr" "loaded s"
      and sl: "seal P (k_audit kr) nonce (str_bytes details) (event_aad (v_id (vault s)) (event_number code)) = Inr ct" by auto
    from open_seal [OF assms(1) sl] k kr show ?thesis
      by (cases ks) (simp_all add: event_of_row_def row Some y)
  qed
  moreover have "\<not> has_keys s \<longrightarrow> ev_details (event_of_row P ks vid row) = ''''"
    using k by (cases ks) (simp_all add: event_of_row_def)
  ultimately show ?thesis using es by (simp add: event_of_row_def row)
qed

end
