(* ===== verification/Access.thy ===== *)
theory Access
  imports Records Capability Events
begin

text \<open>
  Client access (\<^verbatim>\<open>internal/access/domain/session.go\<close>,
  \<^verbatim>\<open>internal/access/application/{sessions,service}.go\<close>): sessions held in memory and bound to a
  vault epoch, pairing requests, approval, the single delivery of a credential, revocation.
  The sessions and the pending pairings are fields of the memory that the lock callbacks see.
\<close>

section \<open>State\<close>

record session =
  se_id :: ident
  se_client_id :: ident
  se_capabilities :: u64
  se_created_at :: go_time
  se_last_activity :: go_time
  se_expires_at :: go_time
  se_vault_epoch :: u64

record pending_pairing =
  pp_id :: ident
  pp_kind :: client_kind
  pp_label :: string
  pp_static_key :: bytes
  pp_phrase :: string
  pp_created_at :: go_time
  pp_approved :: bool
  pp_client_id :: ident
  pp_credential :: "bytes option"

record access_mem = index_mem +
  am_sessions :: "(ident \<times> session) list"
  am_pending :: "(ident \<times> pending_pairing) list"
  am_daemon_static_key :: bytes

type_synonym ('c, 'a) asys = "('c access_mem_scheme, 'a) vsys_scheme"

definition sessions :: "('c, 'a) asys \<Rightarrow> (ident \<times> session) list" where
  "sessions s = am_sessions (mem s)"

definition pending :: "('c, 'a) asys \<Rightarrow> (ident \<times> pending_pairing) list" where
  "pending s = am_pending (mem s)"

definition with_sessions ::
  "((ident \<times> session) list \<Rightarrow> (ident \<times> session) list) \<Rightarrow> (('c, 'a) asys, err, unit) prog" where
  "with_sessions f = mmodify (\<lambda>s. s\<lparr>mem := (mem s)\<lparr>am_sessions := f (am_sessions (mem s))\<rparr>\<rparr>)"

definition with_pending ::
  "((ident \<times> pending_pairing) list \<Rightarrow> (ident \<times> pending_pairing) list) \<Rightarrow> (('c, 'a) asys, err, unit) prog" where
  "with_pending f = mmodify (\<lambda>s. s\<lparr>mem := (mem s)\<lparr>am_pending := f (am_pending (mem s))\<rparr>\<rparr>)"

definition set_daemon_static_key :: "bytes \<Rightarrow> (('c, 'a) asys, err, unit) prog" where
  "set_daemon_static_key pub = mmodify (\<lambda>s. s\<lparr>mem := (mem s)\<lparr>am_daemon_static_key := pub\<rparr>\<rparr>)"

section \<open>Sessions\<close>

definition valid_at :: "session \<Rightarrow> go_time \<Rightarrow> u64 \<Rightarrow> bool" where
  "valid_at se t epoch \<longleftrightarrow>
     se_vault_epoch se = epoch \<and> \<not> (se_expires_at se \<noteq> zero_time \<and> t > se_expires_at se)"

definition session_authorize :: "session \<Rightarrow> capability \<Rightarrow> err + unit" where
  "session_authorize se c = (if has (se_capabilities se) c then Inr () else Inl ErrAuthorizationDeny)"

text \<open>\<^verbatim>\<open>DefaultSessionTTL\<close>: twelve hours, in nanoseconds.\<close>

definition default_session_ttl :: int where "default_session_ttl = 43200000000000"

definition new_session :: "ident \<Rightarrow> ident \<Rightarrow> u64 \<Rightarrow> u64 \<Rightarrow> go_time \<Rightarrow> session" where
  "new_session i client_id caps epoch t =
     \<lparr>se_id = i, se_client_id = client_id, se_capabilities = caps, se_created_at = t,
      se_last_activity = t, se_expires_at = t + default_session_ttl, se_vault_epoch = epoch\<rparr>"

definition issue :: "ident \<Rightarrow> u64 \<Rightarrow> u64 \<Rightarrow> (('c, 'a) asys, err, session) prog" where
  "issue client_id caps epoch =
     mbind new_id (\<lambda>id_bytes.
     mbind (mget now) (\<lambda>t.
     let i = (case id_from_bytes id_bytes of Inr i \<Rightarrow> i | Inl _ \<Rightarrow> zero_id);
         se = new_session i client_id caps epoch t in
     mbind (with_sessions (AList.update i se)) (\<lambda>_. mreturn se)))"

definition validate :: "ident \<Rightarrow> u64 \<Rightarrow> bool \<Rightarrow> (('c, 'a) asys, err, session) prog" where
  "validate i epoch activity =
     mbind (mget (\<lambda>s. map_of (sessions s) i)) (\<lambda>found. case found of
       None \<Rightarrow> mthrow ErrAuthorizationDeny
     | Some se \<Rightarrow>
     mbind (mget now) (\<lambda>t.
     if \<not> valid_at se t epoch
     then mbind (with_sessions (AList.delete i)) (\<lambda>_. mthrow ErrAuthorizationDeny)
     else if activity
     then mbind (with_sessions (AList.update i (se\<lparr>se_last_activity := t\<rparr>))) (\<lambda>_.
            mreturn (se\<lparr>se_last_activity := t\<rparr>))
     else mreturn se))"

text \<open>The loop of \<^verbatim>\<open>LastActivity\<close>: \<open>None\<close> while nothing was found.\<close>

fun latest_activity :: "go_time \<Rightarrow> session list \<Rightarrow> go_time option \<Rightarrow> go_time option" where
  "latest_activity t [] latest = latest"
| "latest_activity t (se # ses) latest =
     (if t > se_expires_at se then latest_activity t ses latest
      else (case latest of
        None \<Rightarrow> latest_activity t ses (Some (se_last_activity se))
      | Some l \<Rightarrow> latest_activity t ses (Some (if se_last_activity se > l then se_last_activity se else l))))"

definition last_activity :: "(('c, 'a) asys, err, go_time option) prog" where
  "last_activity = mget (\<lambda>s. latest_activity (now s) (map snd (sessions s)) None)"

definition drop_session :: "ident \<Rightarrow> (('c, 'a) asys, err, unit) prog" where
  "drop_session i = with_sessions (AList.delete i)"

definition drop_client :: "ident \<Rightarrow> (('c, 'a) asys, err, unit) prog" where
  "drop_client client_id = with_sessions (filter (\<lambda>(i, se). se_client_id se \<noteq> client_id))"

text \<open>\<^verbatim>\<open>InvalidateAll\<close>, the callback the vault runs when it locks.\<close>

definition invalidate_all :: "'c access_mem_scheme \<Rightarrow> 'c access_mem_scheme" where
  "invalidate_all m = m\<lparr>am_sessions := []\<rparr>"

definition session_count :: "(('c, 'a) asys, err, nat) prog" where
  "session_count = mget (\<lambda>s. length (sessions s))"

section \<open>Pairing\<close>

definition pairing_phrase :: "crypto_prims \<Rightarrow> bytes \<Rightarrow> bytes \<Rightarrow> bytes \<Rightarrow> string" where
  "pairing_phrase P daemon_pub client_pub pairing_id =
     (let total = hex_encode (sha256 P (str_bytes ''albear-pairing-v1'' @ daemon_pub @ client_pub @ pairing_id)) in
      take 4 total @ ''-'' @ take 4 (drop 4 total) @ ''-'' @ take 4 (drop 8 total))"

definition request_pairing ::
  "crypto_prims \<Rightarrow> client_kind \<Rightarrow> string \<Rightarrow> bytes \<Rightarrow> (('c, 'a) asys, err, pending_pairing) prog" where
  "request_pairing P kind label static_key =
     mbind (mguard (length static_key = 32) ErrValidation) (\<lambda>_.
     mbind (mguard (\<not> (\<not> is_pairable kind \<or> default_capabilities kind = 0)) ErrValidation) (\<lambda>_.
     mbind new_id (\<lambda>id_bytes.
     mbind (mget (\<lambda>s. (now s, am_daemon_static_key (mem s)))) (\<lambda>(t, daemon_key).
     let i = (case id_from_bytes id_bytes of Inr i \<Rightarrow> i | Inl _ \<Rightarrow> zero_id);
         p = \<lparr>pp_id = i, pp_kind = kind, pp_label = label, pp_static_key = static_key,
              pp_phrase = pairing_phrase P daemon_key static_key id_bytes, pp_created_at = t,
              pp_approved = False, pp_client_id = zero_id, pp_credential = None\<rparr> in
     mbind (with_pending (AList.update i p)) (\<lambda>_. mreturn p)))))"

definition list_pending :: "(('c, 'a) asys, err, pending_pairing list) prog" where
  "list_pending = mget (\<lambda>s. filter (\<lambda>p. \<not> pp_approved p) (map snd (pending s)))"

definition access_stamp :: "crypto_prims \<Rightarrow> keyring \<Rightarrow> (('m, 'a) vsys_scheme, err, i64) prog" where
  "access_stamp P kr =
     mbind vault_info (\<lambda>(vault_id, _, key_version).
     mbind (mget now) (\<lambda>t. stamp P (k_catalog kr) vault_id key_version t))"

definition approve :: "crypto_prims \<Rightarrow> ident \<Rightarrow> (('c, 'a) asys, err, unit) prog" where
  "approve P pairing_id =
     mbind keys (\<lambda>kr.
     mbind (mget (\<lambda>s. map_of (pending s) pairing_id)) (\<lambda>found. case found of
       None \<Rightarrow> mthrow ErrClientNotFound
     | Some p \<Rightarrow>
     mbind (mguard (\<not> pp_approved p) ErrClientNotFound) (\<lambda>_.
     mbind new_id (\<lambda>client_id.
     mbind new_credential (\<lambda>credential.
     mbind vault_info (\<lambda>(vault_id, _, _).
     mbind new_nonce (\<lambda>label_nonce.
     mbind (mlift (seal P (k_audit kr) label_nonce (str_bytes (pp_label p))
             (record_aad vault_id client_id 0 PayloadLabel 1 0))) (\<lambda>label_ct.
     mbind (mget now) (\<lambda>t.
     mbind (with_tx (
       mbind (insert_client \<lparr>cr_client_id = client_id, cr_client_kind = pp_kind p,
                cr_status = status_approved, cr_capability_mask = default_capabilities (pp_kind p),
                cr_credential_hash = credential_verifier P credential,
                cr_noise_static_pubkey = pp_static_key p, cr_label_nonce = label_nonce,
                cr_label_ciphertext = label_ct, cr_created_at_ms = of_int (unix_milli t),
                cr_last_seen_at_ms = None\<rparr>) (\<lambda>_.
       access_stamp P kr))) (\<lambda>stamped.
     mbind (note_counter stamped) (\<lambda>_.
     with_pending (AList.update pairing_id (p\<lparr>pp_approved := True,
       pp_client_id := (case id_from_bytes client_id of Inr i \<Rightarrow> i | Inl _ \<Rightarrow> zero_id),
       pp_credential := Some credential\<rparr>)))))))))))))"

definition cancel_pairing :: "ident \<Rightarrow> (('c, 'a) asys, err, unit) prog" where
  "cancel_pairing pairing_id =
     mbind (mget (\<lambda>s. map_of (pending s) pairing_id)) (\<lambda>found. case found of
       None \<Rightarrow> mthrow ErrClientNotFound
     | Some p \<Rightarrow>
     mbind (mguard (\<not> pp_approved p) ErrConflict) (\<lambda>_.
     with_pending (AList.delete pairing_id)))"

definition claim_credential :: "ident \<Rightarrow> (('c, 'a) asys, err, ident \<times> bytes) prog" where
  "claim_credential pairing_id =
     mbind (mget (\<lambda>s. map_of (pending s) pairing_id)) (\<lambda>found. case found of
       None \<Rightarrow> mthrow ErrClientNotFound
     | Some p \<Rightarrow>
     mbind (mguard (pp_approved p) ErrAuthorizationDeny) (\<lambda>_.
     mbind (with_pending (AList.delete pairing_id)) (\<lambda>_. case pp_credential p of
       None \<Rightarrow> mthrow ErrClientNotFound
     | Some cred \<Rightarrow> mreturn (pp_client_id p, cred))))"

section \<open>Registered clients\<close>

record client_info =
  ci_id :: ident
  ci_kind :: client_kind
  ci_status :: i64
  ci_label :: string
  ci_last_seen :: go_time

definition info_of_row :: "crypto_prims \<Rightarrow> keyring option \<Rightarrow> bytes \<Rightarrow> client_row \<Rightarrow> err + client_info" where
  "info_of_row P ks vault_id r =
     (case id_from_bytes (cr_client_id r) of
        Inl _ \<Rightarrow> Inl ErrIntegrityFailure
      | Inr i \<Rightarrow> Inr
          \<lparr>ci_id = i, ci_kind = cr_client_kind r, ci_status = cr_status r,
           ci_label = (case ks of
             None \<Rightarrow> ''(locked)''
           | Some kr \<Rightarrow>
               (case open_box P (k_audit kr) (cr_label_nonce r) (cr_label_ciphertext r)
                       (record_aad vault_id (cr_client_id r) 0 PayloadLabel 1 0) of
                  Inr label \<Rightarrow> bytes_str label
                | Inl _ \<Rightarrow> ''(integrity failure)'')),
           ci_last_seen = (case cr_last_seen_at_ms r of
             None \<Rightarrow> zero_time | Some ms \<Rightarrow> from_milli (sint ms))\<rparr>)"

definition list_client_infos :: "crypto_prims \<Rightarrow> (('m, 'a) vsys_scheme, err, client_info list) prog" where
  "list_client_infos P =
     mbind list_clients (\<lambda>rows.
     mbind audit_keys (\<lambda>(ks, vault_id).
     mlift (smap (info_of_row P ks vault_id) rows)))"

definition revoke :: "crypto_prims \<Rightarrow> ident \<Rightarrow> (('m, 'a) vsys_scheme, err, unit) prog" where
  "revoke P client_id =
     mbind keys (\<lambda>kr.
     mbind (with_tx (
       mbind (update_client_status status_revoked client_id) (\<lambda>rows.
       if rows = 0 then mreturn (rows, 0)
       else mbind (access_stamp P kr) (\<lambda>stamped. mreturn (rows, stamped))))) (\<lambda>(rows, stamped).
     mbind (mguard (rows \<noteq> 0) ErrClientNotFound) (\<lambda>_.
     note_counter stamped)))"

definition client_of_row :: "ident \<Rightarrow> client_row \<Rightarrow> client" where
  "client_of_row i r = \<lparr>cl_id = i, cl_kind = cr_client_kind r, cl_status = cr_status r,
     cl_capabilities = cr_capability_mask r, cl_credential_hash = cr_credential_hash r,
     cl_static_key = cr_noise_static_pubkey r\<rparr>"

definition lookup :: "ident \<Rightarrow> (('m, 'a) vsys_scheme, err, client) prog" where
  "lookup client_id =
     mbind (attempt (get_client client_id)) (\<lambda>r. case r of
       Inl e \<Rightarrow> mthrow (if e = ErrNoRows then ErrClientNotFound else e)
     | Inr row \<Rightarrow> mreturn (client_of_row client_id row))"

definition touch_last_seen :: "ident \<Rightarrow> (('m, 'a) vsys_scheme, err, unit) prog" where
  "touch_last_seen client_id =
     mbind (mget now) (\<lambda>t. with_tx (update_client_last_seen (of_int (unix_milli t)) client_id))"

section \<open>Steps\<close>

lemma with_sessions_eq [prog_simps]:
  "with_sessions f s = (Inr (), s\<lparr>mem := (mem s)\<lparr>am_sessions := f (am_sessions (mem s))\<rparr>\<rparr>)"
  by (simp add: with_sessions_def prog_simps)

lemma with_pending_eq [prog_simps]:
  "with_pending f s = (Inr (), s\<lparr>mem := (mem s)\<lparr>am_pending := f (am_pending (mem s))\<rparr>\<rparr>)"
  by (simp add: with_pending_def prog_simps)

lemma mem_fields [simp]:
  "sessions (s\<lparr>mem := m\<rparr>) = am_sessions m" "pending (s\<lparr>mem := m\<rparr>) = am_pending m"
  "sessions (s\<lparr>rnd_pos := n\<rparr>) = sessions s" "pending (s\<lparr>rnd_pos := n\<rparr>) = pending s"
  "sessions (s\<lparr>io_pos := n\<rparr>) = sessions s" "pending (s\<lparr>io_pos := n\<rparr>) = pending s"
  by (simp_all add: sessions_def pending_def)

lemma valid_new_session [simp]: "valid_at (new_session i c caps epoch t) t epoch"
  by (simp add: valid_at_def new_session_def default_session_ttl_def)

lemma new_session_fields [simp]:
  "se_id (new_session i c caps epoch t) = i" "se_client_id (new_session i c caps epoch t) = c"
  "se_capabilities (new_session i c caps epoch t) = caps" "se_vault_epoch (new_session i c caps epoch t) = epoch"
  by (simp_all add: new_session_def)

lemma new_id_Inr_iff [prog_simps]:
  "new_id s = (Inr i, t) \<longleftrightarrow> rnd_ok s (rnd_pos s) \<and>
     i = map (rnd_src s) [rnd_pos s ..< rnd_pos s + 16] \<and> t = s\<lparr>rnd_pos := rnd_pos s + 16\<rparr>"
  by (auto simp: new_id_def random_bytes_def split: if_splits)

lemma issue_Inr:
  assumes "issue client_id caps epoch s = (Inr se, t)"
  shows "se = new_session (se_id se) client_id caps epoch (now s) \<and> length (se_id se) = 16 \<and>
    t = s\<lparr>rnd_pos := rnd_pos s + 16, mem := (mem s)\<lparr>am_sessions := AList.update (se_id se) se (sessions s)\<rparr>\<rparr>"
  using assms
  by (auto simp: issue_def mbind_Inr_iff prog_simps Let_def sessions_def del: upt.simps)

lemma issue_Inl: "issue client_id caps epoch s = (Inl e, t) \<Longrightarrow> e = ErrRandom \<and> mem t = mem s \<and> db t = db s"
  by (auto simp: issue_def mbind_Inl_iff prog_simps Let_def new_id_def random_bytes_def split: if_splits)

lemma validate_Inr_iff:
  "validate i epoch activity s = (Inr se, t) \<longleftrightarrow>
     (\<exists>old. map_of (sessions s) i = Some old \<and> valid_at old (now s) epoch \<and>
        se = (if activity then old\<lparr>se_last_activity := now s\<rparr> else old) \<and>
        t = (if activity then s\<lparr>mem := (mem s)\<lparr>am_sessions := AList.update i se (sessions s)\<rparr>\<rparr> else s))"
  by (auto simp: validate_def mbind_Inr_iff prog_simps sessions_def split: option.splits if_splits)

lemma validate_Inl_iff:
  "validate i epoch activity s = (Inl e, t) \<longleftrightarrow> e = ErrAuthorizationDeny \<and>
     (case map_of (sessions s) i of
        None \<Rightarrow> t = s
      | Some old \<Rightarrow> \<not> valid_at old (now s) epoch \<and>
          t = s\<lparr>mem := (mem s)\<lparr>am_sessions := AList.delete i (sessions s)\<rparr>\<rparr>)"
  by (auto simp: validate_def mbind_Inl_iff prog_simps sessions_def split: option.splits if_splits)

text \<open>What a session allows is what its mask has.\<close>

lemma session_authorize_iff: "session_authorize se c = Inr () \<longleftrightarrow> has (se_capabilities se) c"
  by (simp add: session_authorize_def)

section \<open>The latest activity\<close>

definition live_activity :: "go_time \<Rightarrow> session list \<Rightarrow> go_time set" where
  "live_activity t ses = se_last_activity ` {se \<in> set ses. \<not> t > se_expires_at se}"

lemma live_activity_Cons:
  "live_activity t (se # ses) =
     (if t > se_expires_at se then live_activity t ses else insert (se_last_activity se) (live_activity t ses))"
  by (auto simp: live_activity_def)

lemma finite_live_activity [simp]: "finite (live_activity t ses)"
  by (simp add: live_activity_def)

lemma latest_activity_Some: "latest_activity t ses (Some l) = Some (Max (insert l (live_activity t ses)))"
proof (induction ses arbitrary: l)
  case Nil
  then show ?case by (simp add: live_activity_def)
next
  case (Cons se ses)
  have "Max (insert (if se_last_activity se > l then se_last_activity se else l) (live_activity t ses)) =
      Max (insert l (insert (se_last_activity se) (live_activity t ses)))"
    by (cases "live_activity t ses = {}") (auto simp: max_def)
  with Cons show ?case by (simp add: live_activity_Cons)
qed

lemma latest_activity_None:
  "latest_activity t ses None = (if live_activity t ses = {} then None else Some (Max (live_activity t ses)))"
  by (induction ses) (auto simp: live_activity_Cons latest_activity_Some, simp add: live_activity_def)

lemma last_activity_eq:
  "last_activity s = (Inr (let live = live_activity (now s) (map snd (sessions s)) in
     if live = {} then None else Some (Max live)), s)"
  by (simp add: last_activity_def prog_simps latest_activity_None Let_def)

section \<open>Approval and the credential\<close>

lemma access_stamp_eq: "access_stamp P kr = records_stamp P kr"
  by (simp add: access_stamp_def records_stamp_def)

lemma request_pairing_Inr:
  assumes "request_pairing P kind label static_key s = (Inr p, t)"
  shows "is_pairable kind \<and> length static_key = 32 \<and> length (pp_id p) = 16 \<and> \<not> pp_approved p \<and>
    pp_kind p = kind \<and> pp_label p = label \<and> pp_static_key p = static_key \<and> pp_credential p = None \<and>
    pp_phrase p = pairing_phrase P (am_daemon_static_key (mem s)) static_key (pp_id p) \<and>
    t = s\<lparr>rnd_pos := rnd_pos s + 16, mem := (mem s)\<lparr>am_pending := AList.update (pp_id p) p (pending s)\<rparr>\<rparr>"
  using assms
  by (auto simp: request_pairing_def mbind_Inr_iff prog_simps Let_def pending_def del: upt.simps split: if_splits)

text \<open>The client row an approval writes.\<close>

definition approved_row :: "crypto_prims \<Rightarrow> pending_pairing \<Rightarrow> ident \<Rightarrow> bytes \<Rightarrow> client_row \<Rightarrow> bool" where
  "approved_row P p client_id credential r \<longleftrightarrow>
     cr_client_id r = client_id \<and> cr_client_kind r = pp_kind p \<and> cr_status r = status_approved \<and>
     cr_capability_mask r = default_capabilities (pp_kind p) \<and>
     cr_credential_hash r = credential_verifier P credential \<and> cr_noise_static_pubkey r = pp_static_key p"

lemma approve_Inr:
  assumes "approve P pid s = (Inr u, t)"
  shows "\<exists>kr p client_id credential r. has_keys s \<and> keyring s = Some kr \<and> map_of (pending s) pid = Some p \<and> \<not> pp_approved p \<and>
    length client_id = 16 \<and> length credential = 32 \<and> approved_row P p client_id credential r \<and>
    pk_insert cr_client_id client_check r (t_clients (db s)) = Inr (t_clients (db t)) \<and>
    t_records (db t) = t_records (db s) \<and> t_envelopes (db t) = t_envelopes (db s) \<and> t_vault (db t) = t_vault (db s) \<and>
    service_anchored P kr (vault s) (db t) \<and>
    mem t = (mem s)\<lparr>am_pending := AList.update pid (p\<lparr>pp_approved := True, pp_client_id := client_id,
      pp_credential := Some credential\<rparr>) (pending s)\<rparr>"
proof -
  from assms obtain kr p s1 s2 s3 s4 client_id credential nonce ct n where
    k: "is_unlocked (vault s)" "keyring s = Some kr" and p: "map_of (pending s) pid = Some p" "\<not> pp_approved p"
    and i: "new_id s = (Inr client_id, s1)" and c: "new_credential s1 = (Inr credential, s2)"
    and nn: "new_nonce s2 = (Inr nonce, s3)"
    and tx: "with_tx (
       mbind (insert_client \<lparr>cr_client_id = client_id, cr_client_kind = pp_kind p,
                cr_status = status_approved, cr_capability_mask = default_capabilities (pp_kind p),
                cr_credential_hash = credential_verifier P credential,
                cr_noise_static_pubkey = pp_static_key p, cr_label_nonce = nonce,
                cr_label_ciphertext = ct, cr_created_at_ms = of_int (unix_milli (now s3)),
                cr_last_seen_at_ms = None\<rparr>) (\<lambda>_.
       records_stamp P kr)) s3 = (Inr n, s4)"
    and t: "mbind (note_counter n) (\<lambda>_. with_pending (AList.update pid (p\<lparr>pp_approved := True,
       pp_client_id := (case id_from_bytes client_id of Inr i \<Rightarrow> i | Inl _ \<Rightarrow> zero_id),
       pp_credential := Some credential\<rparr>))) s4 = (Inr u, t)"
    unfolding approve_def access_stamp_eq
    by (auto simp: mbind_Inr_iff keys_Inr_iff vault_info_Inr_iff mget_eq mguard_eq mlift_eq mthrow_eq
        split: option.splits if_splits)
  have li: "length client_id = 16" "length credential = 32"
    and e3: "db s3 = db s" "env.more s3 = env.more s"
    using i c nn by (auto simp: new_defs dest!: random_bytes_Inr)
  obtain w y r where i0: "insert_client r (s3\<lparr>io_pos := Suc (io_pos s3)\<rparr>) = (Inr (), w)"
    and st: "records_stamp P kr w = (Inr n, y)" and ar: "approved_row P p client_id credential r"
    and ls: "r\<lparr>cr_last_seen_at_ms := None\<rparr> = r" and y: "s4 = y\<lparr>io_pos := Suc (io_pos y)\<rparr>"
    using tx by (auto simp: with_tx_Inr_iff mbind_Inr_iff approved_row_def)
  from i0 have ins: "pk_insert cr_client_id client_check r (t_clients (db s)) = Inr (t_clients (db w))"
    and rest: "t_records (db w) = t_records (db s)" "t_envelopes (db w) = t_envelopes (db s)" "t_vault (db w) = t_vault (db s)"
    and wm: "env.more w = env.more s"
    unfolding insert_client_def sql_exec_Inr_iff ls using e3 by (auto simp: sbind_Inr_iff)
  have vw: "vault w = vault s" by (rule more_vsys(1) [OF wm])
  have m4: "env.more s4 = env.more s"
    using fixedD(6) [OF fixed_records_stamp st] wm y by simp
  from t obtain v where v: "note_counter n s4 = (Inr (), v)"
    and tm: "t = v\<lparr>mem := (mem v)\<lparr>am_pending := AList.update pid (p\<lparr>pp_approved := True,
       pp_client_id := client_id, pp_credential := Some credential\<rparr>) (am_pending (mem v))\<rparr>\<rparr>"
    using li by (auto simp: mbind_Inr_iff with_pending_eq)
  from v have "db v = db s4" "mem v = mem s4" by (auto simp: note_counter_def prog_simps split: if_splits)
  then have d: "db t = db y" and m: "mem t = (mem s)\<lparr>am_pending := AList.update pid (p\<lparr>pp_approved := True,
      pp_client_id := client_id, pp_credential := Some credential\<rparr>) (pending s)\<rparr>"
    using tm y more_vsys(9) [OF m4] by (simp_all add: pending_def)
  show ?thesis
    by (rule exI [of _ kr], rule exI [of _ p], rule exI [of _ client_id], rule exI [of _ credential], rule exI [of _ r])
      (use k p li ar ins rest records_stamp_db [OF st] d m vw in \<open>simp add: has_keys_def\<close>)
qed

lemma claim_Inr_iff:
  "claim_credential pid s = (Inr (c, cred), t) \<longleftrightarrow>
     (\<exists>p. map_of (pending s) pid = Some p \<and> pp_approved p \<and> pp_credential p = Some cred \<and> pp_client_id p = c \<and>
        t = s\<lparr>mem := (mem s)\<lparr>am_pending := AList.delete pid (pending s)\<rparr>\<rparr>)"
  by (auto simp: claim_credential_def mbind_Inr_iff prog_simps pending_def split: option.splits if_splits)

lemma claim_unknown: "map_of (pending s) pid = None \<Longrightarrow> claim_credential pid s = (Inl ErrClientNotFound, s)"
  by (simp add: claim_credential_def prog_simps mbind_unfold)

section \<open>Revocation\<close>

lemma update_status_Inr:
  "update_client_status v i s = (Inr n, t) \<Longrightarrow>
     n = length (filter (\<lambda>r. cr_client_id r = i) (t_clients (db s))) \<and>
     t = s\<lparr>io_pos := Suc (io_pos s), db := (db s)\<lparr>t_clients :=
       map (\<lambda>r. if cr_client_id r = i then r\<lparr>cr_status := v\<rparr> else r) (t_clients (db s))\<rparr>\<rparr>"
  by (auto simp: update_client_status_def prog_simps sbind_Inr_iff pk_update_def split: if_splits)

lemma revoke_Inr:
  assumes "revoke P i s = (Inr u, t)"
  shows "\<exists>kr. has_keys s \<and> keyring s = Some kr \<and> i \<in> cr_client_id ` set (t_clients (db s)) \<and>
    t_clients (db t) = map (\<lambda>r. if cr_client_id r = i then r\<lparr>cr_status := status_revoked\<rparr> else r) (t_clients (db s)) \<and>
    t_records (db t) = t_records (db s) \<and> t_envelopes (db t) = t_envelopes (db s) \<and> t_vault (db t) = t_vault (db s) \<and>
    service_anchored P kr (vault s) (db t) \<and> mem t = mem s"
proof -
  from assms obtain kr n rows s1 where k: "is_unlocked (vault s)" "keyring s = Some kr"
    and tx: "with_tx (mbind (update_client_status status_revoked i) (\<lambda>rows.
       if rows = 0 then mreturn (rows, 0)
       else mbind (records_stamp P kr) (\<lambda>stamped. mreturn (rows, stamped)))) s = (Inr (rows, n), s1)"
    and nz: "rows \<noteq> 0" and nc: "note_counter n s1 = (Inr u, t)"
    unfolding revoke_def access_stamp_eq
    by (auto simp: mbind_Inr_iff keys_Inr_iff mguard_eq split: if_splits prod.splits)
  from tx obtain w y where uw: "update_client_status status_revoked i (s\<lparr>io_pos := Suc (io_pos s)\<rparr>) = (Inr rows, w)"
    and st: "records_stamp P kr w = (Inr n, y)" and s1: "s1 = y\<lparr>io_pos := Suc (io_pos y)\<rparr>"
    using nz by (auto simp: with_tx_Inr_iff mbind_Inr_iff mreturn_eq split: if_splits)
  note w = update_status_Inr [OF uw]
  have wm: "env.more w = env.more s" using w by simp
  have m1: "env.more s1 = env.more s" using fixedD(6) [OF fixed_records_stamp st] wm s1 by simp
  have vw: "vault w = vault s" by (rule more_vsys(1) [OF wm])
  from nc have "db t = db s1" "mem t = mem s1" by (auto simp: note_counter_def prog_simps split: if_splits)
  moreover have "i \<in> cr_client_id ` set (t_clients (db s))"
    using w nz by (auto simp: filter_empty_conv)
  ultimately show ?thesis
    using k w records_stamp_db [OF st] s1 vw more_vsys(9) [OF m1] by (simp add: has_keys_def)
qed

lemma lookup_Inr_iff [prog_simps]:
  "lookup i s = (Inr c, t) \<longleftrightarrow> db_open s \<and> io_ok s (io_pos s) \<and> t = s\<lparr>io_pos := Suc (io_pos s)\<rparr> \<and>
     (\<exists>r. pk_find cr_client_id i (t_clients (db s)) = Some r \<and> c = client_of_row i r)"
proof -
  have "lookup i s = (Inr c, t) \<longleftrightarrow> (\<exists>r. get_client i s = (Inr r, t) \<and> c = client_of_row i r)"
    by (cases "get_client i s")
      (auto simp: lookup_def mbind_unfold attempt_def prog_simps split: sum.splits err.splits if_splits)
  then show ?thesis by (auto simp: get_client_def prog_simps one_row_def split: option.splits)
qed

definition client_status :: "db \<Rightarrow> ident \<Rightarrow> i64 option" where
  "client_status d i = map_option cr_status (pk_find cr_client_id i (t_clients d))"

lemma lookup_approved: "lookup i s = (Inr c, t) \<Longrightarrow> is_approved c \<longleftrightarrow> client_status (db s) i = Some status_approved"
  by (auto simp: lookup_Inr_iff client_status_def is_approved_def client_of_row_def)

lemma client_status_revoked:
  assumes "revoke P i s = (Inr u, t)"
  shows "client_status (db t) i = Some status_revoked" and "j \<noteq> i \<Longrightarrow> client_status (db t) j = client_status (db s) j"
proof -
  from revoke_Inr [OF assms] have i: "i \<in> cr_client_id ` set (t_clients (db s))"
    and t: "t_clients (db t) = map (\<lambda>r. if cr_client_id r = i then r\<lparr>cr_status := status_revoked\<rparr> else r) (t_clients (db s))"
    by auto
  have f: "pk_find cr_client_id j (t_clients (db t)) =
      map_option (\<lambda>r. if cr_client_id r = i then r\<lparr>cr_status := status_revoked\<rparr> else r) (pk_find cr_client_id j (t_clients (db s)))" for j
    unfolding t by (rule pk_find_map) simp
  from i obtain r where "pk_find cr_client_id i (t_clients (db s)) = Some r"
    by (cases "pk_find cr_client_id i (t_clients (db s))") (auto simp: pk_find_None)
  with f [of i] show "client_status (db t) i = Some status_revoked"
    by (auto simp: client_status_def dest: pk_find_Some)
  show "client_status (db t) j = client_status (db s) j" if "j \<noteq> i"
    using f [of j] that by (cases "pk_find cr_client_id j (t_clients (db s))") (auto simp: client_status_def dest: pk_find_Some)
qed

section \<open>Frames\<close>

lemma fixed_access [intro]:
  "obeys (same_on fixed) (access_stamp P kr)" "obeys (same_on fixed) (lookup i)"
  "obeys (same_on fixed) (touch_last_seen i)" "obeys (same_on fixed) (list_client_infos P)"
proof -
  show "obeys (same_on fixed) (access_stamp P kr)" unfolding access_stamp_eq by (rule fixed_records_stamp)
  show "obeys (same_on fixed) (lookup i)"
    unfolding lookup_def by (intro same.ok_intros same.ok_attempt fixed_queries)
  show "obeys (same_on fixed) (touch_last_seen i)"
    unfolding touch_last_seen_def by (intro same.ok_intros fixed_tx fixed_commands)
  show "obeys (same_on fixed) (list_client_infos P)"
    unfolding list_client_infos_def by (intro same.ok_intros fixed_queries fixed_audit_keys)
qed

lemma key_with_mem [intro]:
  "obeys (keeps_inv (key_inv P)) (with_sessions f)" "obeys (keeps_inv (key_inv P)) (with_pending g)"
  by (simp_all add: obeys_def keeps_inv_def prog_simps key_inv_def)

lemma dbwf_with_mem [intro]:
  "obeys (keeps_inv sound_db) (with_sessions f)" "obeys (keeps_inv sound_db) (with_pending g)"
  by (simp_all add: obeys_def keeps_inv_def prog_simps)

lemma fixed_access_tx [intro]:
  "obeys (same_on fixed) (with_tx (mbind (insert_client r) (\<lambda>_. access_stamp P kr)))"
  "obeys (same_on fixed) (with_tx (mbind (update_client_status v i) (\<lambda>rows.
     if rows = 0 then mreturn (rows, 0) else mbind (access_stamp P kr) (\<lambda>stamped. mreturn (rows, stamped)))))"
  by (intro fixed_tx same.ok_intros fixed_commands fixed_access)+

lemmas access_op_defs = issue_def validate_def last_activity_def drop_session_def drop_client_def
  request_pairing_def list_pending_def approve_def cancel_pairing_def claim_credential_def revoke_def

lemma key_access_ops [intro]:
  "obeys (keeps_inv (key_inv P)) (issue c caps epoch)"
  "obeys (keeps_inv (key_inv P)) (validate i epoch act)"
  "obeys (keeps_inv (key_inv P)) (drop_client c)"
  "obeys (keeps_inv (key_inv P)) (request_pairing P' kind label key)"
  "obeys (keeps_inv (key_inv P)) (approve P' i)"
  "obeys (keeps_inv (key_inv P)) (cancel_pairing i)"
  "obeys (keeps_inv (key_inv P)) (claim_credential i)"
  "obeys (keeps_inv (key_inv P)) (revoke P' i)"
proof -
  show "obeys (keeps_inv (key_inv P)) (issue c caps epoch)"
    unfolding access_op_defs Let_def by (intro inv.ok_intros key_with_mem key_note_counter key_fixed fixed_new fixed_keys fixed_vault_info fixed_access_tx)
  show "obeys (keeps_inv (key_inv P)) (validate i epoch act)"
    unfolding access_op_defs Let_def by (intro inv.ok_intros key_with_mem key_note_counter key_fixed fixed_new fixed_keys fixed_vault_info fixed_access_tx)
  show "obeys (keeps_inv (key_inv P)) (drop_client c)"
    unfolding access_op_defs Let_def by (intro inv.ok_intros key_with_mem key_note_counter key_fixed fixed_new fixed_keys fixed_vault_info fixed_access_tx)
  show "obeys (keeps_inv (key_inv P)) (request_pairing P' kind label key)"
    unfolding access_op_defs Let_def by (intro inv.ok_intros key_with_mem key_note_counter key_fixed fixed_new fixed_keys fixed_vault_info fixed_access_tx)
  show "obeys (keeps_inv (key_inv P)) (approve P' i)"
    unfolding access_op_defs Let_def by (intro inv.ok_intros key_with_mem key_note_counter key_fixed fixed_new fixed_keys fixed_vault_info fixed_access_tx)
  show "obeys (keeps_inv (key_inv P)) (cancel_pairing i)"
    unfolding access_op_defs Let_def by (intro inv.ok_intros key_with_mem key_note_counter key_fixed fixed_new fixed_keys fixed_vault_info fixed_access_tx)
  show "obeys (keeps_inv (key_inv P)) (claim_credential i)"
    unfolding access_op_defs Let_def by (intro inv.ok_intros key_with_mem key_note_counter key_fixed fixed_new fixed_keys fixed_vault_info fixed_access_tx)
  show "obeys (keeps_inv (key_inv P)) (revoke P' i)"
    unfolding access_op_defs Let_def by (intro inv.ok_intros key_with_mem key_note_counter key_fixed fixed_new fixed_keys fixed_vault_info fixed_access_tx)
qed

lemma dbwf_lookup [intro]: "obeys (keeps_inv sound_db) (lookup i)"
  unfolding lookup_def by (intro inv.ok_intros inv.ok_attempt dbwf_queries)

lemma dbwf_access_ops [intro]:
  "obeys (keeps_inv sound_db) (issue c caps epoch)"
  "obeys (keeps_inv sound_db) (validate i epoch act)"
  "obeys (keeps_inv sound_db) (drop_client c)"
  "obeys (keeps_inv sound_db) (request_pairing P' kind label key)"
  "obeys (keeps_inv sound_db) (approve P' i)"
  "obeys (keeps_inv sound_db) (cancel_pairing i)"
  "obeys (keeps_inv sound_db) (claim_credential i)"
  "obeys (keeps_inv sound_db) (revoke P' i)"
  "obeys (keeps_inv sound_db) (touch_last_seen i)"
proof -
  show "obeys (keeps_inv sound_db) (issue c caps epoch)"
    unfolding access_op_defs touch_last_seen_def access_stamp_eq Let_def by (intro inv.ok_intros dbwf_with_mem dbwf_basic dbwf_new dbwf_records_stamp dbwf_tx dbwf_commands)
  show "obeys (keeps_inv sound_db) (validate i epoch act)"
    unfolding access_op_defs touch_last_seen_def access_stamp_eq Let_def by (intro inv.ok_intros dbwf_with_mem dbwf_basic dbwf_new dbwf_records_stamp dbwf_tx dbwf_commands)
  show "obeys (keeps_inv sound_db) (drop_client c)"
    unfolding access_op_defs touch_last_seen_def access_stamp_eq Let_def by (intro inv.ok_intros dbwf_with_mem dbwf_basic dbwf_new dbwf_records_stamp dbwf_tx dbwf_commands)
  show "obeys (keeps_inv sound_db) (request_pairing P' kind label key)"
    unfolding access_op_defs touch_last_seen_def access_stamp_eq Let_def by (intro inv.ok_intros dbwf_with_mem dbwf_basic dbwf_new dbwf_records_stamp dbwf_tx dbwf_commands)
  show "obeys (keeps_inv sound_db) (approve P' i)"
    unfolding access_op_defs touch_last_seen_def access_stamp_eq Let_def by (intro inv.ok_intros dbwf_with_mem dbwf_basic dbwf_new dbwf_records_stamp dbwf_tx dbwf_commands)
  show "obeys (keeps_inv sound_db) (cancel_pairing i)"
    unfolding access_op_defs touch_last_seen_def access_stamp_eq Let_def by (intro inv.ok_intros dbwf_with_mem dbwf_basic dbwf_new dbwf_records_stamp dbwf_tx dbwf_commands)
  show "obeys (keeps_inv sound_db) (claim_credential i)"
    unfolding access_op_defs touch_last_seen_def access_stamp_eq Let_def by (intro inv.ok_intros dbwf_with_mem dbwf_basic dbwf_new dbwf_records_stamp dbwf_tx dbwf_commands)
  show "obeys (keeps_inv sound_db) (revoke P' i)"
    unfolding access_op_defs touch_last_seen_def access_stamp_eq Let_def by (intro inv.ok_intros dbwf_with_mem dbwf_basic dbwf_new dbwf_records_stamp dbwf_tx dbwf_commands)
  show "obeys (keeps_inv sound_db) (touch_last_seen i)"
    unfolding access_op_defs touch_last_seen_def access_stamp_eq Let_def by (intro inv.ok_intros dbwf_with_mem dbwf_basic dbwf_new dbwf_records_stamp dbwf_tx dbwf_commands)
qed

end
