(* ===== verification/Backup.thy ===== *)
theory Backup
  imports Vault
begin

text \<open>
  Backups (\<^verbatim>\<open>internal/backup/application/backup.go\<close>, the file operations of
  \<^verbatim>\<open>internal/infrastructure/sqlite/{database,store}.go\<close>): the authenticated container around a
  database snapshot, its creation and verification, and the installation of a snapshot as the
  vault database with the previous file kept aside.
\<close>

section \<open>Files\<close>

text \<open>
  A file holds bytes, or it is the database the open store works on. An operation on files can
  fail; a write that fails may have left the file alone or written a prefix of the data. What
  SQLite makes of the bytes of a file, and the bytes it writes for a database, are parameters.
\<close>

datatype file_content = Blob bytes | LiveDb

record 'm fsys = "'m vsys" +
  files :: "string \<Rightarrow> file_content option"
  torn :: "nat \<Rightarrow> nat option"

record file_prims =
  db_image :: "db \<Rightarrow> bytes"
  db_of_image :: "bytes \<Rightarrow> db option"
  db_migrate :: "db \<Rightarrow> err + db"

text \<open>Opening reads back what a snapshot wrote.\<close>

definition image_correct :: "file_prims \<Rightarrow> bool" where
  "image_correct F \<longleftrightarrow> (\<forall>d. db_of_image F (db_image F d) = Some d)"

definition file_bytes :: "file_prims \<Rightarrow> db \<Rightarrow> file_content \<Rightarrow> bytes" where
  "file_bytes F d f = (case f of Blob b \<Rightarrow> b | LiveDb \<Rightarrow> db_image F d)"

definition read_file :: "file_prims \<Rightarrow> string \<Rightarrow> (('m, 'a) fsys_scheme, err, bytes) prog" where
  "read_file F path =
     mbind io_step (\<lambda>_.
     mbind (mget (\<lambda>s. map_option (file_bytes F (db s)) (files s path))) (\<lambda>r. case r of
       None \<Rightarrow> mthrow ErrIO
     | Some b \<Rightarrow> mreturn b))"

definition write_file :: "string \<Rightarrow> bytes \<Rightarrow> (('m, 'a) fsys_scheme, err, unit) prog" where
  "write_file path b = (\<lambda>s.
     if io_ok s (io_pos s)
     then (Inr (), s\<lparr>io_pos := Suc (io_pos s), files := (files s)(path \<mapsto> Blob b)\<rparr>)
     else (Inl ErrIO, (case torn s (io_pos s) of
            None \<Rightarrow> s\<lparr>io_pos := Suc (io_pos s)\<rparr>
          | Some n \<Rightarrow> s\<lparr>io_pos := Suc (io_pos s), files := (files s)(path \<mapsto> Blob (take n b))\<rparr>)))"

definition rename_file :: "string \<Rightarrow> string \<Rightarrow> (('m, 'a) fsys_scheme, err, unit) prog" where
  "rename_file src dst =
     mbind io_step (\<lambda>_.
     mbind (mget (\<lambda>s. files s src)) (\<lambda>f. case f of
       None \<Rightarrow> mthrow ErrIO
     | Some x \<Rightarrow> mmodify (\<lambda>s. s\<lparr>files := (files s)(src := None, dst := Some x)\<rparr>)))"

text \<open>\<^verbatim>\<open>os.Remove\<close>; the value says whether there was a file, which is the error
  \<^verbatim>\<open>os.IsNotExist\<close> recognises.\<close>

definition remove_file :: "string \<Rightarrow> (('m, 'a) fsys_scheme, err, bool) prog" where
  "remove_file path =
     mbind io_step (\<lambda>_.
     mbind (mget (\<lambda>s. files s path \<noteq> None)) (\<lambda>there.
     mbind (mmodify (\<lambda>s. s\<lparr>files := (files s)(path := None)\<rparr>)) (\<lambda>_.
     mreturn there)))"

definition file_exists :: "string \<Rightarrow> (('m, 'a) fsys_scheme, err, bool) prog" where
  "file_exists path =
     mbind (attempt io_step) (\<lambda>r. case r of
       Inl _ \<Rightarrow> mreturn False
     | Inr _ \<Rightarrow> mget (\<lambda>s. files s path \<noteq> None))"

section \<open>The database handle\<close>

text \<open>\<^verbatim>\<open>Snapshot\<close>: \<^verbatim>\<open>VACUUM INTO\<close> refuses a target that exists and is not empty.\<close>

definition snapshot :: "file_prims \<Rightarrow> string \<Rightarrow> (('m, 'a) fsys_scheme, err, unit) prog" where
  "snapshot F path =
     mbind (mget db_open) (\<lambda>opened.
     mbind (mguard opened Panic) (\<lambda>_.
     mbind (mget (\<lambda>s. files s path \<in> {None, Some (Blob [])})) (\<lambda>free.
     mbind (mguard free ErrIO) (\<lambda>_.
     mbind (mget db) (\<lambda>d. write_file path (db_image F d))))))"

text \<open>\<^verbatim>\<open>Open\<close> creates an empty database where there is no file.\<close>

definition open_database :: "file_prims \<Rightarrow> string \<Rightarrow> (('m, 'a) fsys_scheme, err, db) prog" where
  "open_database F path =
     mbind io_step (\<lambda>_.
     mbind (mget (\<lambda>s. (files s path, db s))) (\<lambda>(f, d). case f of
       None \<Rightarrow> mreturn empty_db
     | Some LiveDb \<Rightarrow> mreturn d
     | Some (Blob b) \<Rightarrow> mlift (case db_of_image F b of None \<Rightarrow> Inl ErrIO | Some d' \<Rightarrow> Inr d')))"

definition store_swap :: "string \<Rightarrow> db \<Rightarrow> (('m, 'a) fsys_scheme, err, unit) prog" where
  "store_swap path d = mmodify (\<lambda>s. s\<lparr>db := d, db_open := True, files := (files s)(path \<mapsto> LiveDb)\<rparr>)"

text \<open>\<^verbatim>\<open>Close\<close> gives up the handle even where closing reports an error.\<close>

definition settle :: "file_prims \<Rightarrow> db \<Rightarrow> file_content \<Rightarrow> file_content" where
  "settle F d f = Blob (file_bytes F d f)"

definition store_close :: "file_prims \<Rightarrow> (('m, 'a) fsys_scheme, err, unit) prog" where
  "store_close F =
     mbind (mget db_open) (\<lambda>opened.
     if \<not> opened then mreturn () else
     mbind (mmodify (\<lambda>s. s\<lparr>db_open := False, files := (\<lambda>p. map_option (settle F (db s)) (files s p))\<rparr>)) (\<lambda>_.
     io_step))"

section \<open>The container\<close>

definition magic :: bytes where "magic = str_bytes ''ALBEARBK''"
definition container_version :: u32 where "container_version = 1"
definition container_header_len :: nat where "container_header_len = 8 + 4 + 16 + 8 + 8"

record backup_info =
  bi_vault_id :: ident
  bi_created_at_ms :: u64
  bi_snapshot_len :: u64

record backup_container =
  bc_info :: backup_info
  bc_body :: bytes
  bc_snapshot :: bytes
  bc_tag :: bytes

definition container_body :: "bytes \<Rightarrow> u64 \<Rightarrow> bytes \<Rightarrow> bytes" where
  "container_body vault_id created_at_ms snap =
     magic @ be32 container_version @ vault_id @ be64 created_at_ms @ be64 (of_nat (length snap)) @ snap"

text \<open>A Go slice expression panics outside its bounds.\<close>

definition go_slice :: "nat \<Rightarrow> nat \<Rightarrow> bytes \<Rightarrow> err + bytes" where
  "go_slice lo hi b = (if lo \<le> hi \<and> hi \<le> length b then Inr (take (hi - lo) (drop lo b)) else Inl Panic)"

definition parse_container :: "bytes \<Rightarrow> err + backup_container" where
  "parse_container raw =
     (if length raw < container_header_len + 32 \<or> take 8 raw \<noteq> magic then Inl ErrBadContainer else
      let r = drop 8 raw;
          version = of_be32 (take 4 r);
          id_bytes = take 16 (drop 4 r);
          created_at_ms = of_be64 (take 8 (drop 20 r));
          snap_len = of_be64 (take 8 (drop 28 r)) in
      if version \<noteq> container_version then Inl ErrBadContainer
      else if (of_nat (length raw) :: u64) \<noteq> of_nat container_header_len + snap_len + 32 then Inl ErrBadContainer
      else case id_from_bytes id_bytes of
        Inl _ \<Rightarrow> Inl ErrBadContainer
      | Inr i \<Rightarrow>
          let body_len = unat (of_nat container_header_len + snap_len) in
          sbind (go_slice 0 body_len raw) (\<lambda>body.
          sbind (go_slice container_header_len body_len raw) (\<lambda>snap.
          sbind (go_slice body_len (length raw) raw) (\<lambda>tag.
          Inr \<lparr>bc_info = \<lparr>bi_vault_id = i, bi_created_at_ms = created_at_ms, bi_snapshot_len = snap_len\<rparr>,
               bc_body = body, bc_snapshot = snap, bc_tag = tag\<rparr>))))"

section \<open>Create and verify\<close>

text \<open>\<^verbatim>\<open>defer os.Remove\<close>: runs at the end whatever happened, and its error is dropped.\<close>

definition finally_remove :: "string \<Rightarrow> (('m, 'a) fsys_scheme, err, 'r) prog \<Rightarrow> (('m, 'a) fsys_scheme, err, 'r) prog" where
  "finally_remove path m = (\<lambda>s. case m s of (r, t) \<Rightarrow> (r, snd (remove_file path t)))"

definition backup_create ::
  "crypto_prims \<Rightarrow> file_prims \<Rightarrow> string \<Rightarrow> (('m, 'a) fsys_scheme, err, unit) prog" where
  "backup_create P F dest =
     mbind keys (\<lambda>kr.
     mbind vault_info (\<lambda>(vault_id, _, _).
     finally_remove (dest @ ''.snap.tmp'') (
       mbind (snapshot F (dest @ ''.snap.tmp'')) (\<lambda>_.
       mbind (read_file F (dest @ ''.snap.tmp'')) (\<lambda>snap.
       mbind (mget now) (\<lambda>t.
       let body = container_body vault_id (of_int (unix_milli t)) snap;
           mac = hmac_sha256 P (k_backup kr) body in
       mbind (write_file (dest @ ''.tmp'') (body @ mac)) (\<lambda>_.
       rename_file (dest @ ''.tmp'') dest)))))))"

definition backup_verify ::
  "crypto_prims \<Rightarrow> file_prims \<Rightarrow> string \<Rightarrow> (('m, 'a) fsys_scheme, err, backup_info \<times> bytes) prog" where
  "backup_verify P F path =
     mbind keys (\<lambda>kr.
     mbind (read_file F path) (\<lambda>raw.
     mbind (mlift (parse_container raw)) (\<lambda>c.
     mbind (mguard (hmac_sha256 P (k_backup kr) (bc_body c) = bc_tag c) ErrBadContainer) (\<lambda>_.
     mbind vault_info (\<lambda>(vault_id, _, _).
     mbind (mguard (bi_vault_id (bc_info c) = vault_id) ErrWrongVault) (\<lambda>_.
     mreturn (bc_info c, bc_snapshot c)))))))"

definition verify_container_format :: "file_prims \<Rightarrow> string \<Rightarrow> (('m, 'a) fsys_scheme, err, backup_info) prog" where
  "verify_container_format F path =
     mbind (read_file F path) (\<lambda>raw.
     mbind (mlift (parse_container raw)) (\<lambda>c. mreturn (bc_info c)))"

section \<open>Restore\<close>

definition restore_snapshot ::
  "bytes \<Rightarrow> string \<Rightarrow> (string \<Rightarrow> (('m, 'a) fsys_scheme, err, unit) prog) \<Rightarrow> (('m, 'a) fsys_scheme, err, unit) prog" where
  "restore_snapshot snap db_path check =
     (let candidate = db_path @ ''.restore.tmp''; recovery = db_path @ ''.recovery'' in
      mbind (write_file candidate snap) (\<lambda>_.
      finally_remove candidate (
        mbind (check candidate) (\<lambda>_.
        mbind (file_exists db_path) (\<lambda>there.
        mbind (if there then rename_file db_path recovery else mreturn ()) (\<lambda>_.
        mbind (ignore_error (remove_file (db_path @ ''-wal''))) (\<lambda>_.
        mbind (ignore_error (remove_file (db_path @ ''-shm''))) (\<lambda>_.
        mbind (attempt (rename_file candidate db_path)) (\<lambda>r. case r of
          Inr _ \<Rightarrow> mreturn ()
        | Inl e \<Rightarrow> mbind (ignore_error (rename_file recovery db_path)) (\<lambda>_. mthrow e))))))))))"

text \<open>The check the daemon passes: the candidate opens and has a vault row.\<close>

definition check_candidate :: "file_prims \<Rightarrow> string \<Rightarrow> (('m, 'a) fsys_scheme, err, unit) prog" where
  "check_candidate F candidate =
     mbind (open_database F candidate) (\<lambda>d.
     mbind io_step (\<lambda>_.
     mbind (mlift (one_row (t_vault d))) (\<lambda>_. mreturn ())))"

section \<open>Containers round trip\<close>

lemma length_magic [simp]: "length magic = 8"
  by (simp add: magic_def)

lemma length_container_body [simp]: "length v = 16 \<Longrightarrow> length (container_body v c snap) = 44 + length snap"
  by (simp add: container_body_def)

lemma unat_44_plus: "k < 2 ^ 63 \<Longrightarrow> unat (44 + of_nat k :: u64) = 44 + k"
proof -
  assume "k < 2 ^ 63"
  moreover have "44 + of_nat k = (of_nat (44 + k) :: u64)" by (simp only: of_nat_add of_nat_numeral)
  ultimately show ?thesis by (simp add: unat_of_nat del: of_nat_add)
qed

lemma snap_len_exact:
  fixes n :: u64
  assumes "(of_nat len :: u64) = 76 + n" and "76 \<le> len" and "len < 2 ^ 63"
  shows "n = of_nat (len - 76)" and "unat n = len - 76" and "unat (44 + n) = len - 32"
proof -
  show n: "n = of_nat (len - 76)" using assms(1,2) by (simp add: of_nat_diff)
  with assms(3) show "unat n = len - 76" by (simp add: unat_of_nat)
  show "unat (44 + n) = len - 32" using assms(2,3) unat_44_plus [of "len - 76"] by (simp add: n)
qed

text \<open>A container that parses is the concatenation of its parts; the length arithmetic, which
  wraps at 64 bits, admits one snapshot length only.\<close>

lemma parse_container_Inr:
  assumes "parse_container raw = Inr c" and "length raw < 2 ^ 63"
  shows "raw = bc_body c @ bc_tag c \<and> length (bc_tag c) = 32 \<and> length (bi_vault_id (bc_info c)) = 16 \<and>
    unat (bi_snapshot_len (bc_info c)) = length (bc_snapshot c) \<and>
    bc_body c = container_body (bi_vault_id (bc_info c)) (bi_created_at_ms (bc_info c)) (bc_snapshot c)"
proof -
  let ?r = "drop 8 raw" let ?n = "of_be64 (take 8 (drop 28 ?r))"
  from assms(1) have len: "76 \<le> length raw" and m: "take 8 raw = magic" and v: "of_be32 (take 4 ?r) = container_version"
    and n: "(of_nat (length raw) :: u64) = 76 + ?n"
    by (auto simp: parse_container_def Let_def container_header_len_def split: if_splits)
  note ex = snap_len_exact [OF n len assms(2)]
  from assms(1) len m v n ex have c: "c = \<lparr>bc_info = \<lparr>bi_vault_id = take 16 (drop 4 ?r),
      bi_created_at_ms = of_be64 (take 8 (drop 20 ?r)), bi_snapshot_len = ?n\<rparr>,
      bc_body = take (length raw - 32) raw, bc_snapshot = take (length raw - 76) (drop 44 raw),
      bc_tag = drop (length raw - 32) raw\<rparr>"
    by (auto simp: parse_container_def Let_def container_header_len_def go_slice_def id_from_bytes_def id_len_def
        split: if_splits sum.splits)
  have "take 44 raw = take (8 + (4 + (16 + (8 + 8)))) raw" by simp
  also have "\<dots> = take 8 raw @ take 4 ?r @ take 16 (drop 4 ?r) @ take 8 (drop 20 ?r) @ take 8 (drop 28 ?r)"
    unfolding take_add by simp
  also have "\<dots> = magic @ be32 container_version @ take 16 (drop 4 ?r) @ be64 (of_be64 (take 8 (drop 20 ?r))) @ be64 ?n"
    using len m v be32_of_be32 [of "take 4 ?r"] by (simp add: be64_of_be64)
  finally have head: "take 44 raw = \<dots>" .
  have "length raw - 32 = 44 + (length raw - 76)" using len by simp
  then have body: "take (length raw - 32) raw = take 44 raw @ take (length raw - 76) (drop 44 raw)"
    by (simp only: take_add)
  have "of_nat (length raw - 76) = ?n" using ex(1) by simp
  moreover have "length (take (length raw - 76) (drop 44 raw)) = length raw - 76" using len by simp
  ultimately have "take (length raw - 32) raw = container_body (take 16 (drop 4 ?r)) (of_be64 (take 8 (drop 20 ?r)))
      (take (length raw - 76) (drop 44 raw))"
    by (simp only: body head container_body_def append_assoc)
  moreover from this have "raw = container_body (take 16 (drop 4 ?r)) (of_be64 (take 8 (drop 20 ?r)))
      (take (length raw - 76) (drop 44 raw)) @ drop (length raw - 32) raw"
    by (metis append_take_drop_id)
  moreover have "length (take 16 (drop 4 ?r)) = 16" using len by simp
  ultimately show ?thesis
    using len ex(2) unfolding c by (simp del: take_append drop_drop)
qed

lemma parse_container_no_panic: "length raw < 2 ^ 63 \<Longrightarrow> parse_container raw \<noteq> Inl Panic"
proof
  assume l: "length raw < 2 ^ 63" and p: "parse_container raw = Inl Panic"
  let ?n = "of_be64 (take 8 (drop 28 (drop 8 raw)))"
  from p have len: "76 \<le> length raw" and n: "(of_nat (length raw) :: u64) = 76 + ?n"
    by (auto simp: parse_container_def Let_def container_header_len_def split: if_splits)
  from p len show False
    using snap_len_exact [OF n len l]
    by (auto simp: parse_container_def Let_def container_header_len_def go_slice_def
        split: if_splits sum.splits)
qed

lemma parse_container_body:
  assumes "length vid = 16" and "length tag = 32" and "length snap < 2 ^ 62"
  shows "parse_container (container_body vid c snap @ tag) = Inr
    \<lparr>bc_info = \<lparr>bi_vault_id = vid, bi_created_at_ms = c, bi_snapshot_len = of_nat (length snap)\<rparr>,
     bc_body = container_body vid c snap, bc_snapshot = snap, bc_tag = tag\<rparr>"
proof -
  let ?raw = "container_body vid c snap @ tag"
  have raw: "?raw = magic @ be32 container_version @ vid @ be64 c @ be64 (of_nat (length snap)) @ snap @ tag"
    by (simp add: container_body_def)
  have r: "take 8 ?raw = magic" "drop 8 ?raw = be32 container_version @ vid @ be64 c @ be64 (of_nat (length snap)) @ snap @ tag"
    by (simp_all add: raw)
  have len: "length ?raw = length snap + 76" using assms by simp
  show ?thesis
    unfolding parse_container_def r len
    using assms unat_44_plus [of "length snap"]
    by (simp add: Let_def container_header_len_def go_slice_def id_from_bytes_def id_len_def container_body_def)
qed

section \<open>What creation and verification do\<close>

lemma io_step_cases: "io_step s = (if io_ok s (io_pos s) then Inr () else Inl ErrIO, s\<lparr>io_pos := Suc (io_pos s)\<rparr>)"
  by (simp add: io_step_def)

lemma read_file_Inr_iff [prog_simps]:
  "read_file F path s = (Inr b, t) \<longleftrightarrow> io_ok s (io_pos s) \<and> t = s\<lparr>io_pos := Suc (io_pos s)\<rparr> \<and>
     (\<exists>f. files s path = Some f \<and> b = file_bytes F (db s) f)"
  by (auto simp: read_file_def mbind_unfold io_step_cases prog_simps split: option.splits)

lemma write_file_Inr_iff [prog_simps]:
  "write_file path b s = (Inr u, t) \<longleftrightarrow> io_ok s (io_pos s) \<and>
     t = s\<lparr>io_pos := Suc (io_pos s), files := (files s)(path \<mapsto> Blob b)\<rparr>"
  by (auto simp: write_file_def)

lemma rename_file_Inr_iff [prog_simps]:
  "rename_file src dst s = (Inr u, t) \<longleftrightarrow> io_ok s (io_pos s) \<and>
     (\<exists>f. files s src = Some f \<and>
        t = s\<lparr>io_pos := Suc (io_pos s), files := (files s)(src := None, dst := Some f)\<rparr>)"
  by (auto simp: rename_file_def mbind_unfold io_step_cases prog_simps split: option.splits)

lemma rename_file_Inl: "rename_file src dst s = (Inl e, t) \<Longrightarrow> e = ErrIO \<and> files t = files s"
  by (auto simp: rename_file_def mbind_unfold io_step_cases prog_simps split: if_splits option.splits)

lemma remove_file_files:
  "files (snd (remove_file path s)) = (if io_ok s (io_pos s) then (files s)(path := None) else files s)"
  by (simp add: remove_file_def mbind_unfold io_step_cases prog_simps)

lemma remove_file_rest [simp]:
  "db (snd (remove_file path s)) = db s" "vault (snd (remove_file path s)) = vault s"
  "keyring (snd (remove_file path s)) = keyring s" "loaded (snd (remove_file path s)) = loaded s"
  "io_ok (snd (remove_file path s)) = io_ok s"
  by (simp_all add: remove_file_def mbind_unfold io_step_cases prog_simps)

lemma finally_remove_Inr_iff:
  "finally_remove path m s = (r, t) \<longleftrightarrow> (\<exists>u. m s = (r, u) \<and> t = snd (remove_file path u))"
  by (auto simp: finally_remove_def split: prod.splits)

lemma snapshot_Inr_iff [prog_simps]:
  "snapshot F path s = (Inr u, t) \<longleftrightarrow> db_open s \<and> files s path \<in> {None, Some (Blob [])} \<and> io_ok s (io_pos s) \<and>
     t = s\<lparr>io_pos := Suc (io_pos s), files := (files s)(path \<mapsto> Blob (db_image F (db s)))\<rparr>"
  by (auto simp: snapshot_def mbind_Inr_iff prog_simps)

text \<open>Creation publishes a container of the database as it is, under the backup key of the vault.\<close>

lemma backup_create_Inr:
  assumes "backup_create P F dest s = (Inr u, t)"
  shows "\<exists>kr. has_keys s \<and> keyring s = Some kr \<and> loaded s \<and> db t = db s \<and> vault t = vault s \<and>
    keyring t = keyring s \<and> loaded t = loaded s \<and>
    (let body = container_body (v_id (vault s)) (of_int (unix_milli (now s))) (db_image F (db s)) in
       files t dest = Some (Blob (body @ hmac_sha256 P (k_backup kr) body)))"
  using assms
  by (auto simp: backup_create_def mbind_Inr_iff finally_remove_Inr_iff prog_simps Let_def has_keys_def remove_file_files
      file_bytes_def)

lemma backup_verify_Inr_iff:
  "backup_verify P F path s = (Inr (info, snap), t) \<longleftrightarrow>
     (\<exists>kr f c. has_keys s \<and> keyring s = Some kr \<and> loaded s \<and> io_ok s (io_pos s) \<and> files s path = Some f \<and>
        parse_container (file_bytes F (db s) f) = Inr c \<and>
        hmac_sha256 P (k_backup kr) (bc_body c) = bc_tag c \<and> bi_vault_id (bc_info c) = v_id (vault s) \<and>
        info = bc_info c \<and> snap = bc_snapshot c \<and> t = s\<lparr>io_pos := Suc (io_pos s)\<rparr>)"
  by (auto simp: backup_verify_def mbind_Inr_iff prog_simps has_keys_def)

text \<open>What creation wrote, verification accepts, and it returns the snapshot.\<close>

lemma create_then_verify:
  assumes "backup_create P F dest s = (Inr u, t)" and "prims_widths P" and "length (db_image F (db s)) < 2 ^ 62"
    and "length (v_id (vault s)) = 16" and "io_ok t (io_pos t)"
  shows "\<exists>v. backup_verify P F dest t = (Inr (\<lparr>bi_vault_id = v_id (vault s),
    bi_created_at_ms = of_int (unix_milli (now s)), bi_snapshot_len = of_nat (length (db_image F (db s)))\<rparr>, db_image F (db s)), v)"
proof -
  from backup_create_Inr [OF assms(1)] obtain kr where k: "has_keys s" "keyring s = Some kr" "loaded s"
    and same: "vault t = vault s" "keyring t = keyring s" "loaded t = loaded s"
    and f: "files t dest = Some (Blob (container_body (v_id (vault s)) (of_int (unix_milli (now s))) (db_image F (db s)) @
       hmac_sha256 P (k_backup kr) (container_body (v_id (vault s)) (of_int (unix_milli (now s))) (db_image F (db s)))))"
    by (auto simp: Let_def)
  have w: "length (hmac_sha256 P k b) = 32" for k b using assms(2) by (simp add: prims_widths_def)
  have "backup_verify P F dest t = (Inr (\<lparr>bi_vault_id = v_id (vault s),
    bi_created_at_ms = of_int (unix_milli (now s)), bi_snapshot_len = of_nat (length (db_image F (db s)))\<rparr>,
    db_image F (db s)), t\<lparr>io_pos := Suc (io_pos t)\<rparr>)"
    unfolding backup_verify_Inr_iff
    using k same f assms(5) parse_container_body [OF assms(4) w assms(3)] by (simp add: has_keys_def file_bytes_def)
  then show ?thesis by blast
qed

section \<open>What restoring does\<close>

definition candidate_of :: "string \<Rightarrow> string" where "candidate_of p = p @ ''.restore.tmp''"
definition recovery_of :: "string \<Rightarrow> string" where "recovery_of p = p @ ''.recovery''"

lemma paths_differ [simp]:
  "candidate_of p \<noteq> p" "recovery_of p \<noteq> p" "candidate_of p \<noteq> recovery_of p"
  "p @ ''-wal'' \<noteq> p" "p @ ''-wal'' \<noteq> candidate_of p" "p @ ''-wal'' \<noteq> recovery_of p"
  "p @ ''-shm'' \<noteq> p" "p @ ''-shm'' \<noteq> candidate_of p" "p @ ''-shm'' \<noteq> recovery_of p"
  by (simp_all add: candidate_of_def recovery_of_def)

lemmas paths_differ_sym [simp] = paths_differ [THEN not_sym]

definition core_files :: "string \<Rightarrow> ('m, 'a) fsys_scheme \<Rightarrow> file_content option \<times> file_content option \<times> file_content option" where
  "core_files p s = (files s p, files s (recovery_of p), files s (candidate_of p))"

lemma core_remove_stale:
  "ignore_error (remove_file (p @ ''-wal'')) s = (r, t) \<Longrightarrow> r = Inr () \<and> core_files p t = core_files p s"
  "ignore_error (remove_file (p @ ''-shm'')) s = (r, t) \<Longrightarrow> r = Inr () \<and> core_files p t = core_files p s"
  by (auto simp: ignore_error_def mbind_unfold attempt_def remove_file_def io_step_cases prog_simps core_files_def
      split: if_splits)

lemma file_exists_cases:
  "file_exists p s = (r, t) \<Longrightarrow> t = s\<lparr>io_pos := Suc (io_pos s)\<rparr> \<and> r = Inr (io_ok s (io_pos s) \<and> files s p \<noteq> None)"
  by (auto simp: file_exists_def mbind_unfold attempt_def io_step_cases prog_simps split: if_splits)

text \<open>
  The step that swaps the files. On success the snapshot is the database; the former database
  is at \<^verbatim>\<open>.recovery\<close> unless \<^verbatim>\<open>os.Stat\<close> itself failed. On failure the former database is still in
  its place or at \<^verbatim>\<open>.recovery\<close>, with the same exception.
\<close>

definition install_files :: "string \<Rightarrow> (('m, 'a) fsys_scheme, err, unit) prog" where
  "install_files p =
     mbind (file_exists p) (\<lambda>there.
     mbind (if there then rename_file p (recovery_of p) else mreturn ()) (\<lambda>_.
     mbind (ignore_error (remove_file (p @ ''-wal''))) (\<lambda>_.
     mbind (ignore_error (remove_file (p @ ''-shm''))) (\<lambda>_.
     mbind (attempt (rename_file (candidate_of p) p)) (\<lambda>r. case r of
       Inr _ \<Rightarrow> mreturn ()
     | Inl e \<Rightarrow> mbind (ignore_error (rename_file (recovery_of p) p)) (\<lambda>_. mthrow e))))))"

lemma restore_unfold:
  "restore_snapshot snap p check =
     mbind (write_file (candidate_of p) snap) (\<lambda>_.
       finally_remove (candidate_of p) (mbind (check (candidate_of p)) (\<lambda>_. install_files p)))"
  unfolding restore_snapshot_def install_files_def candidate_of_def recovery_of_def Let_def by (rule refl)

definition stat_failed :: "('m, 'a) fsys_scheme \<Rightarrow> bool" where
  "stat_failed s \<longleftrightarrow> \<not> io_ok s (io_pos s)"

lemma attempt_rename:
  assumes "attempt (rename_file a b) s = (r, t)"
  shows "(\<exists>f. r = Inr (Inr ()) \<and> files s a = Some f \<and> files t = (files s)(a := None, b := Some f)) \<or>
    (r = Inr (Inl ErrIO) \<and> files t = files s)"
  using assms by (cases "rename_file a b s")
    (auto simp: attempt_def rename_file_Inr_iff dest!: rename_file_Inl split: sum.splits err.splits)

lemma ignore_rename:
  assumes "ignore_error (rename_file a b) s = (r, t)"
  shows "r = Inr () \<and> ((\<exists>f. files s a = Some f \<and> files t = (files s)(a := None, b := Some f)) \<or> files t = files s)"
  using assms unfolding ignore_error_def
  by (auto simp: mbind_unfold mreturn_eq split: prod.splits sum.splits dest!: attempt_rename)

lemma install_files_cases:
  assumes "install_files p s = (r, t)" and "files s p = Some f" and "files s (candidate_of p) = Some c"
  shows "case r of
      Inr _ \<Rightarrow> files t p = Some c \<and> (stat_failed s \<or> files t (recovery_of p) = Some f)
    | Inl _ \<Rightarrow> files t p = Some f \<or> files t (recovery_of p) = Some f \<or> stat_failed s"
proof -
  obtain r1 s1 where e: "file_exists p s = (r1, s1)" by (cases "file_exists p s")
  note ex = file_exists_cases [OF e]
  have e': "file_exists p s = (Inr (io_ok s (io_pos s)), s1)" using ex e assms(2) by simp
  obtain r2 s2 where m: "(if io_ok s (io_pos s) then rename_file p (recovery_of p) else mreturn ()) s1 = (r2, s2)"
    by (cases "(if io_ok s (io_pos s) then rename_file p (recovery_of p) else mreturn ()) s1")
  have i: "install_files p s = mbind (if io_ok s (io_pos s) then rename_file p (recovery_of p) else mreturn ()) (\<lambda>_.
     mbind (ignore_error (remove_file (p @ ''-wal''))) (\<lambda>_.
     mbind (ignore_error (remove_file (p @ ''-shm''))) (\<lambda>_.
     mbind (attempt (rename_file (candidate_of p) p)) (\<lambda>r. case r of
       Inr _ \<Rightarrow> mreturn ()
     | Inl e \<Rightarrow> mbind (ignore_error (rename_file (recovery_of p) p)) (\<lambda>_. mthrow e))))) s1"
    unfolding install_files_def by (subst mbind_Inr [where m = "file_exists p", OF e']) (rule refl)
  show ?thesis
  proof (cases r2)
    case (Inl e2)
    with m i assms(1) have "r = Inl e2" "t = s2" by (auto simp: mbind_unfold)
    moreover from Inl m have "files s2 = files s1" by (auto simp: mreturn_eq split: if_splits dest: rename_file_Inl)
    ultimately show ?thesis using ex assms(2) by simp
  next
    case (Inr u2)
    have moved: "if io_ok s (io_pos s) then core_files p s2 = (None, Some f, Some c)
        else core_files p s2 = (Some f, files s (recovery_of p), Some c)"
      using m Inr ex assms(2,3) by (auto simp: prog_simps core_files_def split: if_splits)
    obtain s3 s4 r5 s5 where w: "ignore_error (remove_file (p @ ''-wal'')) s2 = (Inr (), s3)"
      and h: "ignore_error (remove_file (p @ ''-shm'')) s3 = (Inr (), s4)"
      and c: "attempt (rename_file (candidate_of p) p) s4 = (r5, s5)"
      using core_remove_stale by (metis surj_pair)
    have s4: "core_files p s4 = core_files p s2"
      using core_remove_stale(1) [OF w] core_remove_stale(2) [OF h] by simp
    have i': "install_files p s = mbind (\<lambda>_. (r5, s5)) (\<lambda>r. case r of
       Inr _ \<Rightarrow> mreturn ()
     | Inl e \<Rightarrow> mbind (ignore_error (rename_file (recovery_of p) p)) (\<lambda>_. mthrow e)) s4"
      unfolding i using m Inr w h c by (simp add: mbind_unfold split: sum.split)
    show ?thesis
      using attempt_rename [OF c] i' assms(1) moved s4
      by (auto simp: mbind_unfold mreturn_eq mthrow_eq stat_failed_def core_files_def split: prod.splits sum.splits if_splits
          dest!: ignore_rename)
  qed
qed

text \<open>Restoring as a whole, with a check that only reads.\<close>

definition restore_stat_failed ::
  "bytes \<Rightarrow> string \<Rightarrow> (string \<Rightarrow> (('m, 'a) fsys_scheme, err, unit) prog) \<Rightarrow> ('m, 'a) fsys_scheme \<Rightarrow> bool" where
  "restore_stat_failed snap p check s \<longleftrightarrow>
     (\<exists>w u. write_file (candidate_of p) snap s = (Inr (), w) \<and> check (candidate_of p) w = (Inr (), u) \<and> stat_failed u)"

lemma restore_cases:
  assumes "restore_snapshot snap p check s = (r, t)" and "files s p = Some f"
    and "\<And>c. obeys (same_on files) (check c)"
  shows "case r of
      Inr _ \<Rightarrow> files t p = Some (Blob snap) \<and> (restore_stat_failed snap p check s \<or> files t (recovery_of p) = Some f)
    | Inl _ \<Rightarrow> files t p = Some f \<or> files t (recovery_of p) = Some f \<or> restore_stat_failed snap p check s"
proof -
  obtain r1 s1 where w: "write_file (candidate_of p) snap s = (r1, s1)" by (cases "write_file (candidate_of p) snap s")
  show ?thesis
  proof (cases r1)
    case (Inl e)
    with w assms(1) have "r = Inl e" "t = s1" by (auto simp: restore_unfold mbind_unfold)
    moreover have "files s1 p = files s p" using w by (auto simp: write_file_def split: if_splits option.splits)
    ultimately show ?thesis using assms(2) by simp
  next
    case (Inr u1)
    obtain r2 s2 where c: "check (candidate_of p) s1 = (r2, s2)" by (cases "check (candidate_of p) s1")
    have f2: "files s2 = (files s)(candidate_of p \<mapsto> Blob snap)"
      using same_okD [OF assms(3) c] w Inr by (simp add: prog_simps)
    have keep: "files (snd (remove_file (candidate_of p) v)) p = files v p"
      "files (snd (remove_file (candidate_of p) v)) (recovery_of p) = files v (recovery_of p)" for v :: "('a, 'b) fsys_scheme"
      by (simp_all add: remove_file_files)
    from assms(1) w Inr obtain v where v: "mbind (check (candidate_of p)) (\<lambda>_. install_files p) s1 = (r, v)"
      and t: "t = snd (remove_file (candidate_of p) v)"
      by (auto simp: restore_unfold mbind_unfold finally_remove_Inr_iff)
    show ?thesis
    proof (cases r2)
      case (Inl e)
      with v c have "r = Inl e" "v = s2" by (auto simp: mbind_unfold)
      then show ?thesis using t keep f2 assms(2) by simp
    next
      case Inr2: (Inr u2)
      with v c have i: "install_files p s2 = (r, v)" by (simp add: mbind_unfold)
      have "stat_failed s2 \<Longrightarrow> restore_stat_failed snap p check s"
        using w Inr c Inr2 by (auto simp: restore_stat_failed_def)
      then show ?thesis
        using install_files_cases [OF i, of f "Blob snap"] f2 assms(2)
        by (auto simp: t keep split: sum.splits)
    qed
  qed
qed

lemma files_check_candidate: "obeys (same_on files) (check_candidate F c)"
proof -
  have "obeys (same_on files) io_step" by (simp add: obeys_def same_on_def io_step_def)
  then show ?thesis
    unfolding check_candidate_def open_database_def
    by (intro same.ok_intros) (auto split: file_content.split intro: same.ok_intros)
qed

end
