(* ===== verification/Generate.thy ===== *)
theory Generate
  imports Crypto "HOL-Library.Multiset"
begin

text \<open>
  The password generator (\<^verbatim>\<open>internal/records/application/generate.go\<close>): one pick from every
  enabled class, the rest from the union of the classes, then a Fisher-Yates shuffle.
\<close>

section \<open>Uniform draws\<close>

text \<open>
  \<^verbatim>\<open>rand.Int\<close> of the standard library draws a number below its bound, or fails with the random
  source. The model takes it from the next byte of the stream, so that every number below the
  bound (at most 256 here) is a possible draw; a bound of one reads nothing.
\<close>

definition rand_int :: "nat \<Rightarrow> ('a entropy_scheme, err, nat) prog" where
  "rand_int bound =
     (if bound \<le> 1 then mreturn 0
      else mbind (random_bytes 1) (\<lambda>b. mreturn (unat (hd b) mod bound)))"

lemma rand_int_below: "rand_int bound s = (Inr n, t) \<Longrightarrow> 0 < bound \<Longrightarrow> n < bound"
  by (auto simp: rand_int_def mbind_Inr_iff prog_simps split: if_splits)

section \<open>Options and alphabets\<close>

record generate_options =
  go_length :: int
  go_upper :: bool
  go_lower :: bool
  go_digits :: bool
  go_symbols :: bool

definition default_generate_options :: generate_options where
  "default_generate_options = \<lparr>go_length = 24, go_upper = True, go_lower = True, go_digits = True, go_symbols = True\<rparr>"

definition set_upper :: string where "set_upper = ''ABCDEFGHJKLMNPQRSTUVWXYZ''"
definition set_lower :: string where "set_lower = ''abcdefghijkmnopqrstuvwxyz''"
definition set_digits :: string where "set_digits = ''23456789''"
definition set_symbols :: string where "set_symbols = ''!@#$%^&*-_=+?''"

lemmas set_defs = set_upper_def set_lower_def set_digits_def set_symbols_def

definition enabled_classes :: "generate_options \<Rightarrow> string list" where
  "enabled_classes opts =
     (if go_upper opts then [set_upper] else []) @ (if go_lower opts then [set_lower] else []) @
     (if go_digits opts then [set_digits] else []) @ (if go_symbols opts then [set_symbols] else [])"

section \<open>The loops\<close>

text \<open>The picks at the positions from \<open>i\<close> on, \<open>n\<close> of them.\<close>

fun pick_chars :: "string list \<Rightarrow> string \<Rightarrow> nat \<Rightarrow> nat \<Rightarrow> ('a entropy_scheme, err, string) prog" where
  "pick_chars classes everything i 0 = mreturn []"
| "pick_chars classes everything i (Suc n) =
     (let src = (if i < length classes then classes ! i else everything) in
      mbind (rand_int (length src)) (\<lambda>k.
      mbind (pick_chars classes everything (Suc i) n) (\<lambda>rest.
      mreturn (src ! k # rest))))"

definition swap_at :: "nat \<Rightarrow> nat \<Rightarrow> 'x list \<Rightarrow> 'x list" where
  "swap_at i j xs = xs[i := xs ! j, j := xs ! i]"

fun shuffle :: "nat \<Rightarrow> 'x list \<Rightarrow> ('a entropy_scheme, err, 'x list) prog" where
  "shuffle 0 xs = mreturn xs"
| "shuffle (Suc i) xs = mbind (rand_int (Suc i + 1)) (\<lambda>j. shuffle i (swap_at (Suc i) j xs))"

definition generate_password :: "generate_options \<Rightarrow> ('a entropy_scheme, err, string) prog" where
  "generate_password opts =
     (if go_length opts < 8 \<or> go_length opts > 256 then mthrow ErrValidation
      else let classes = enabled_classes opts in
        if classes = [] then mthrow ErrValidation
        else if go_length opts < int (length classes) then mthrow ErrValidation
        else mbind (pick_chars classes (concat classes) 0 (nat (go_length opts))) (\<lambda>out.
             shuffle (length out - 1) out))"

section \<open>What comes out\<close>

lemma pick_chars_Inr:
  assumes "pick_chars classes everything i n s = (Inr out, t)" and "everything \<noteq> []" and "\<And>c. c \<in> set classes \<Longrightarrow> c \<noteq> []"
  shows "length out = n \<and> (\<forall>k < n. out ! k \<in> set (if i + k < length classes then classes ! (i + k) else everything))"
  using assms(1)
proof (induction n arbitrary: i s out t)
  case 0
  then show ?case by (simp add: prog_simps)
next
  case (Suc n)
  let ?src = "if i < length classes then classes ! i else everything"
  from Suc.prems obtain k u rest v where k: "rand_int (length ?src) s = (Inr k, u)"
    and rest: "pick_chars classes everything (Suc i) n u = (Inr rest, v)" and out: "out = ?src ! k # rest"
    by (auto simp: Let_def mbind_Inr_iff prog_simps)
  have "?src \<noteq> []" using assms(2,3) by auto
  then have "k < length ?src" using rand_int_below [OF k] by simp
  then have "?src ! k \<in> set ?src" by (rule nth_mem)
  with Suc.IH [OF rest] show ?case by (auto simp: out nth_Cons split: nat.splits)
qed

lemma mset_swap_at: "i < length xs \<Longrightarrow> j < length xs \<Longrightarrow> mset (swap_at i j xs) = mset xs"
  by (simp add: swap_at_def mset_swap)

lemma length_swap_at [simp]: "length (swap_at i j xs) = length xs"
  by (simp add: swap_at_def)

text \<open>A shuffle permutes: the same characters, each as often.\<close>

lemma shuffle_mset: "shuffle i xs s = (Inr ys, t) \<Longrightarrow> i < length xs \<or> i = 0 \<Longrightarrow> mset ys = mset xs"
proof (induction i arbitrary: xs s)
  case 0
  then show ?case by (simp add: prog_simps)
next
  case (Suc i)
  then obtain j u where j: "rand_int (Suc i + 1) s = (Inr j, u)"
    and r: "shuffle i (swap_at (Suc i) j xs) u = (Inr ys, t)" by (auto simp: mbind_Inr_iff)
  have "j < Suc i + 1" using rand_int_below [OF j] by simp
  then have "mset (swap_at (Suc i) j xs) = mset xs" using Suc.prems(2) by (intro mset_swap_at) auto
  with Suc.IH [OF r] Suc.prems(2) show ?case by simp
qed

lemma enabled_classes_facts:
  "c \<in> set (enabled_classes opts) \<Longrightarrow> c \<noteq> []" "length (enabled_classes opts) \<le> 4"
  by (auto simp: enabled_classes_def set_defs)

lemma generate_password_Inr:
  assumes "generate_password opts s = (Inr pw, t)"
  shows "int (length pw) = go_length opts \<and> 8 \<le> length pw \<and> length pw \<le> 256 \<and>
    set pw \<subseteq> \<Union> (set ` set (enabled_classes opts)) \<and>
    (\<forall>c \<in> set (enabled_classes opts). \<exists>x \<in> set pw. x \<in> set c)"
proof -
  let ?cs = "enabled_classes opts"
  from assms obtain out u where r: "8 \<le> go_length opts" "go_length opts \<le> 256" "?cs \<noteq> []" "int (length ?cs) \<le> go_length opts"
    and p: "pick_chars ?cs (concat ?cs) 0 (nat (go_length opts)) s = (Inr out, u)"
    and sh: "shuffle (length out - 1) out u = (Inr pw, t)"
    by (auto simp: generate_password_def Let_def mbind_Inr_iff prog_simps split: if_splits)
  have "concat ?cs \<noteq> []" using r(3) enabled_classes_facts(1) [of "hd ?cs" opts] by (cases ?cs) auto
  then have "length out = nat (go_length opts) \<and> (\<forall>k < nat (go_length opts). out ! k \<in> set (if 0 + k < length ?cs then ?cs ! (0 + k) else concat ?cs))"
    by (rule pick_chars_Inr [OF p]) (rule enabled_classes_facts(1))
  then have l: "length out = nat (go_length opts)"
    and pos: "k < nat (go_length opts) \<Longrightarrow> out ! k \<in> set (if k < length ?cs then ?cs ! k else concat ?cs)" for k
    by auto
  have "mset pw = mset out" using shuffle_mset [OF sh] l r(1) by simp
  then have s: "set pw = set out" "length pw = length out" by (metis set_mset_mset) (metis \<open>mset pw = mset out\<close> size_mset)
  have "x \<in> \<Union> (set ` set ?cs)" if x: "x \<in> set out" for x
  proof -
    obtain k where k: "k < length out" "x = out ! k" using x by (auto simp: in_set_conv_nth)
    with pos [of k] l have "x \<in> set (if k < length ?cs then ?cs ! k else concat ?cs)" by simp
    then show ?thesis using nth_mem by (fastforce split: if_splits)
  qed
  moreover have "\<exists>x \<in> set out. x \<in> set c" if c: "c \<in> set ?cs" for c
  proof -
    obtain k where k: "k < length ?cs" "c = ?cs ! k" using c by (auto simp: in_set_conv_nth)
    with pos [of k] l r(4) have "out ! k \<in> set c" "k < length out" by auto
    then show ?thesis by (auto intro: nth_mem)
  qed
  ultimately show ?thesis using s l r by auto
qed

text \<open>It fails for an option outside the limits and for nothing else but the random source.\<close>

lemma rand_int_Inl: "rand_int n s = (Inl e, t) \<Longrightarrow> e = ErrRandom"
  by (auto simp: rand_int_def mbind_Inl_iff prog_simps random_bytes_def split: if_splits)

lemma pick_chars_Inl: "pick_chars cs e i n s = (Inl er, t) \<Longrightarrow> er = ErrRandom"
  by (induction n arbitrary: i s) (auto simp: Let_def mbind_Inl_iff prog_simps dest: rand_int_Inl)

lemma shuffle_Inl: "shuffle i xs s = (Inl er, t) \<Longrightarrow> er = ErrRandom"
  by (induction i arbitrary: xs s) (auto simp: mbind_Inl_iff prog_simps dest: rand_int_Inl)

lemma generate_password_Inl:
  assumes "generate_password opts s = (Inl e, t)"
  shows "e = ErrRandom \<or>
    e = ErrValidation \<and> (go_length opts < 8 \<or> go_length opts > 256 \<or> enabled_classes opts = [])"
proof -
  have "go_length opts \<ge> 8 \<Longrightarrow> \<not> go_length opts < int (length (enabled_classes opts))"
    using enabled_classes_facts(2) [of opts] by simp
  with assms show ?thesis
    by (auto simp: generate_password_def Let_def mbind_Inl_iff prog_simps dest: pick_chars_Inl shuffle_Inl split: if_splits)
qed

lemma rand_int_runs: "\<forall>k. rnd_ok s k \<Longrightarrow> runs (rand_int n) s (\<lambda>_ t. \<forall>k. rnd_ok t k)"
  by (simp add: rand_int_def wp)

lemma runs_seq: "runs m s Q \<Longrightarrow> (\<And>x t. Q x t \<Longrightarrow> runs (f x) t R) \<Longrightarrow> runs (mbind m f) s R"
  by (auto simp: runs_bind elim: runs_mono)

lemma pick_chars_runs: "\<forall>k. rnd_ok s k \<Longrightarrow> runs (pick_chars cs e i n) s (\<lambda>_ t. \<forall>k. rnd_ok t k)"
proof (induction n arbitrary: i s)
  case 0
  then show ?case by (simp add: wp)
next
  case (Suc n)
  show ?case unfolding pick_chars.simps Let_def
    by (rule runs_seq [OF rand_int_runs [OF Suc.prems]], rule runs_seq [OF Suc.IH]) (simp_all add: wp)
qed

lemma shuffle_runs: "\<forall>k. rnd_ok s k \<Longrightarrow> runs (shuffle i xs) s (\<lambda>_ t. True)"
proof (induction i arbitrary: xs s)
  case 0
  then show ?case by (simp add: wp)
next
  case (Suc i)
  show ?case unfolding shuffle.simps
    by (rule runs_seq [OF rand_int_runs [OF Suc.prems]], rule Suc.IH) simp
qed

lemma generate_password_runs:
  assumes "8 \<le> go_length opts" "go_length opts \<le> 256" "enabled_classes opts \<noteq> []" and "\<forall>k. rnd_ok s k"
  shows "runs (generate_password opts) s (\<lambda>_ t. True)"
proof -
  have "\<not> go_length opts < int (length (enabled_classes opts))"
    using assms(1) enabled_classes_facts(2) [of opts] by simp
  with assms(1-3) show ?thesis
    by (simp add: generate_password_def Let_def)
      (rule runs_seq [OF pick_chars_runs [OF assms(4)]], rule shuffle_runs, simp)
qed

end
