(* ===== verification/Protocol.thy ===== *)
theory Protocol
  imports Shared
begin

text \<open>
  The request and response envelopes of the daemon (\<^verbatim>\<open>internal/adapters/protocol/protocol.go\<close>)
  and the mapping from errors to wire codes with fixed messages. \<^verbatim>\<open>encoding/json\<close> is a
  parameter of the daemon; the envelopes are the values it decodes to and encodes from.
\<close>

definition protocol_version :: int where "protocol_version = 1"

record request =
  rq_protocol_version :: int
  rq_request_id :: string
  rq_operation :: string
  rq_payload :: bytes

record wire_error =
  we_code :: string
  we_message :: string

record response =
  rs_protocol_version :: int
  rs_request_id :: string
  rs_ok :: bool
  rs_data :: "bytes option"
  rs_error :: "wire_error option"

datatype wire_code =
    CodeVaultLocked | CodeAuthFailed | CodeNotFound | CodeDenied | CodeIntegrity | CodeConflict
  | CodeInvalid | CodeRateLimited | CodeExists | CodeUninitialized | CodeWeakPassword | CodeInternal

fun code_string :: "wire_code \<Rightarrow> string" where
  "code_string CodeVaultLocked = ''VAULT_LOCKED''"
| "code_string CodeAuthFailed = ''AUTH_FAILED''"
| "code_string CodeNotFound = ''NOT_FOUND''"
| "code_string CodeDenied = ''DENIED''"
| "code_string CodeIntegrity = ''INTEGRITY_FAILURE''"
| "code_string CodeConflict = ''CONFLICT''"
| "code_string CodeInvalid = ''INVALID_REQUEST''"
| "code_string CodeRateLimited = ''RATE_LIMITED''"
| "code_string CodeExists = ''ALREADY_EXISTS''"
| "code_string CodeUninitialized = ''NOT_INITIALIZED''"
| "code_string CodeWeakPassword = ''WEAK_PASSWORD''"
| "code_string CodeInternal = ''INTERNAL''"

fun code_message :: "wire_code \<Rightarrow> string" where
  "code_message CodeVaultLocked = ''The vault is locked.''"
| "code_message CodeAuthFailed = ''Authentication failed.''"
| "code_message CodeNotFound = ''Record not found.''"
| "code_message CodeDenied = ''Authorization denied.''"
| "code_message CodeIntegrity = ''Integrity failure detected.''"
| "code_message CodeConflict = ''Revision conflict.''"
| "code_message CodeInvalid = ''Invalid request.''"
| "code_message CodeRateLimited = ''Too many attempts. Try again later.''"
| "code_message CodeExists = ''The vault already exists.''"
| "code_message CodeUninitialized = ''No vault exists. Run `vault init` first.''"
| "code_message CodeWeakPassword = ''The master password is too weak. Use at least 12 characters; a long passphrase is the easiest way to pass.''"
| "code_message CodeInternal = ''Internal failure.''"

fun error_code :: "err \<Rightarrow> wire_code" where
  "error_code ErrVaultLocked = CodeVaultLocked"
| "error_code ErrAuthenticationFail = CodeAuthFailed"
| "error_code ErrRecordNotFound = CodeNotFound"
| "error_code ErrClientNotFound = CodeNotFound"
| "error_code ErrAuthorizationDeny = CodeDenied"
| "error_code ErrIntegrityFailure = CodeIntegrity"
| "error_code ErrRevisionConflict = CodeConflict"
| "error_code ErrWeakPassword = CodeWeakPassword"
| "error_code ErrValidation = CodeInvalid"
| "error_code ErrVaultExists = CodeExists"
| "error_code ErrVaultNotFound = CodeUninitialized"
| "error_code ErrRateLimited = CodeRateLimited"
| "error_code _ = CodeInternal"

definition map_error :: "err \<Rightarrow> wire_error" where
  "map_error e = \<lparr>we_code = code_string (error_code e), we_message = code_message (error_code e)\<rparr>"

definition ok_response :: "('d \<Rightarrow> bytes option) \<Rightarrow> string \<Rightarrow> 'd \<Rightarrow> err + response" where
  "ok_response marshal request_id data =
     (case marshal data of
        None \<Rightarrow> Inl (ErrOther ''json'')
      | Some raw \<Rightarrow> Inr \<lparr>rs_protocol_version = protocol_version, rs_request_id = request_id, rs_ok = True,
          rs_data = Some raw, rs_error = None\<rparr>)"

definition err_response :: "string \<Rightarrow> err \<Rightarrow> response" where
  "err_response request_id e =
     \<lparr>rs_protocol_version = protocol_version, rs_request_id = request_id, rs_ok = False,
      rs_data = None, rs_error = Some (map_error e)\<rparr>"

lemma code_string_inject: "code_string c = code_string d \<longleftrightarrow> c = d"
  by (cases c; cases d) simp_all

lemma err_response_fields [simp]:
  "rs_ok (err_response i e) = False" "rs_data (err_response i e) = None"
  "rs_error (err_response i e) = Some (map_error e)" "rs_request_id (err_response i e) = i"
  by (simp_all add: err_response_def)

text \<open>What a client can read off an error response is its code alone: twelve possible answers,
  whatever text the error carried.\<close>

lemma map_error_eq_iff: "map_error e = map_error e' \<longleftrightarrow> error_code e = error_code e'"
  by (auto simp: map_error_def code_string_inject)

lemma error_code_internal [simp]: "error_code (ErrOther m) = CodeInternal"
  by simp

end
