(* ===== verification/Wire.thy ===== *)
theory Wire
  imports Access Backup Generate Password Protocol
begin

text \<open>
  The wire payloads of the daemon (\<^verbatim>\<open>internal/daemon/dto.go\<close>): what requests carry, the
  redacted views that answers carry, and the conversion of submitted fields into domain
  values. \<^verbatim>\<open>encoding/json\<close> is a parameter with one decoder per payload type.
\<close>

section \<open>Requests\<close>

record record_fields =
  rf_type :: string
  rf_name :: string
  rf_username :: string
  rf_service :: string
  rf_environment :: string
  rf_urls :: "string list"
  rf_url_entries :: "(string \<times> bool) list option"
  rf_tags :: "string list"
  rf_project_id :: string
  rf_password :: string
  rf_notes :: string
  rf_api_key :: string
  rf_api_secret :: string
  rf_custom :: "(string \<times> string) list"

record update_payload =
  up_id :: string
  up_expected_revision :: u64
  up_fields :: record_fields

record generate_payload =
  gp_length :: int
  gp_upper :: bool
  gp_lower :: bool
  gp_digits :: bool
  gp_symbols :: bool
  gp_default :: bool

record pair_payload =
  pr_kind :: i64
  pr_label :: string
  pr_static_key :: string

section \<open>Answers\<close>

record wire_record =
  wr_id :: string
  wr_type :: string
  wr_revision :: u64
  wr_name :: string
  wr_username :: string
  wr_service :: string
  wr_environment :: string
  wr_urls :: "string list"
  wr_url_entries :: "(string \<times> bool) list"
  wr_tags :: "string list"
  wr_project_id :: string
  wr_created_at_ms :: int
  wr_updated_at_ms :: int
  wr_matched_by :: string

definition to_record_view :: "index_entry \<Rightarrow> wire_record" where
  "to_record_view e =
     \<lparr>wr_id = id_string (ie_id e), wr_type = ie_type e, wr_revision = ie_revision e,
      wr_name = md_name (ie_metadata e), wr_username = md_username (ie_metadata e),
      wr_service = md_service (ie_metadata e), wr_environment = md_environment (ie_metadata e),
      wr_urls = map lu_raw (md_urls (ie_metadata e)),
      wr_url_entries = map (\<lambda>u. (lu_raw u, lu_allow_subdomains u)) (md_urls (ie_metadata e)),
      wr_tags = md_tags (ie_metadata e), wr_project_id = md_project_id (ie_metadata e),
      wr_created_at_ms = unix_milli (md_created_at (ie_metadata e)),
      wr_updated_at_ms = unix_milli (md_updated_at (ie_metadata e)), wr_matched_by = ''''\<rparr>"

definition to_record_views :: "index_entry list \<Rightarrow> wire_record list" where
  "to_record_views es = map to_record_view es"

fun reason_string :: "match_reason \<Rightarrow> string" where
  "reason_string MatchedByOrigin = ''origin''"
| "reason_string MatchedByProject = ''project''"

definition to_match_views :: "(index_entry \<times> match_reason) list \<Rightarrow> wire_record list" where
  "to_match_views rs = map (\<lambda>(e, why). (to_record_view e)\<lparr>wr_matched_by := reason_string why\<rparr>) rs"

record secret_view =
  sv_password :: string
  sv_notes :: string
  sv_api_key :: string
  sv_api_secret :: string
  sv_custom :: "(string \<times> string) list"

definition to_secret_view :: "secret_payload \<Rightarrow> secret_view" where
  "to_secret_view p = \<lparr>sv_password = sp_password p, sv_notes = sp_notes p, sv_api_key = sp_api_key p,
     sv_api_secret = sp_api_secret p, sv_custom = sp_custom p\<rparr>"

record pending_view =
  pv_pairing_id :: string
  pv_kind :: i64
  pv_kind_name :: string
  pv_label :: string
  pv_phrase :: string
  pv_capabilities :: "string list"

record client_view =
  cv_id :: string
  cv_kind :: i64
  cv_status :: i64
  cv_label :: string
  cv_last_seen_ms :: int

record event_view =
  evv_sequence :: i64
  evv_occurred_ms :: int
  evv_severity :: i64
  evv_code :: i64
  evv_details :: string

datatype reply =
    ReplyEmpty
  | ReplyStatus status
  | ReplyId string
  | ReplyRecords "wire_record list"
  | ReplyRecord wire_record
  | ReplySecret secret_view
  | ReplyLogin string string
  | ReplyPassword string
  | ReplyPairing string string
  | ReplyCredential string string string
  | ReplyPending "pending_view list"
  | ReplyClients "client_view list"
  | ReplyPath string
  | ReplyBackup string u64 u64
  | ReplyEvents "event_view list"

section \<open>JSON\<close>

record wire =
  un_request :: "bytes \<Rightarrow> request option"
  un_password :: "bytes \<Rightarrow> string option"
  un_change_password :: "bytes \<Rightarrow> (string \<times> string) option"
  un_fields :: "bytes \<Rightarrow> record_fields option"
  un_update :: "bytes \<Rightarrow> update_payload option"
  un_ref :: "bytes \<Rightarrow> string option"
  un_id :: "bytes \<Rightarrow> string option"
  un_query :: "bytes \<Rightarrow> string option"
  un_origin :: "bytes \<Rightarrow> (string \<times> string) option"
  un_reveal_for_origin :: "bytes \<Rightarrow> (string \<times> string \<times> string) option"
  un_generate :: "bytes \<Rightarrow> generate_payload option"
  un_pair :: "bytes \<Rightarrow> pair_payload option"
  un_pairing_id :: "bytes \<Rightarrow> string option"
  un_path :: "bytes \<Rightarrow> string option"
  un_limit :: "bytes \<Rightarrow> i64 option"
  json_reply :: "reply \<Rightarrow> bytes option"

text \<open>\<^verbatim>\<open>decode[T]\<close>: an empty or malformed payload is a validation error.\<close>

definition decode :: "(bytes \<Rightarrow> 'p option) \<Rightarrow> bytes \<Rightarrow> err + 'p" where
  "decode un payload =
     (if payload = [] then Inl ErrValidation
      else case un payload of None \<Rightarrow> Inl ErrValidation | Some v \<Rightarrow> Inr v)"

section \<open>Submitted fields\<close>

definition fields_to_domain :: "'a web_scheme \<Rightarrow> record_fields \<Rightarrow> err + (record_metadata \<times> secret_payload)" where
  "fields_to_domain W f =
     (let entries = (case rf_url_entries f of
            Some es \<Rightarrow> es | None \<Rightarrow> map (\<lambda>raw. (raw, False)) (rf_urls f)) in
      sbind (smap (\<lambda>(url, sub). new_login_url_with_policy W url sub) entries) (\<lambda>urls.
      Inr (\<lparr>md_name = rf_name f, md_username = rf_username f, md_service = rf_service f,
            md_environment = rf_environment f, md_urls = urls, md_tags = rf_tags f,
            md_project_id = trim_space W (rf_project_id f), md_custom_keys = map fst (rf_custom f),
            md_created_at = zero_time, md_updated_at = zero_time\<rparr>,
           \<lparr>sp_password = rf_password f, sp_notes = rf_notes f, sp_api_key = rf_api_key f,
            sp_api_secret = rf_api_secret f, sp_custom = rf_custom f\<rparr>)))"

lemma policy_as_asked: "new_login_url_with_policy W raw sub = Inr u \<Longrightarrow> lu_allow_subdomains u = sub"
  by (auto simp: new_login_url_with_policy_def sbind_Inr_iff)

text \<open>Without per-URL entries every URL matches exactly: the opt-in is never inferred.\<close>

lemma fields_exact_by_default:
  assumes "fields_to_domain W f = Inr (meta, sec)" and "rf_url_entries f = None"
  shows "\<forall>u \<in> set (md_urls meta). \<not> lu_allow_subdomains u"
proof -
  from assms have "smap (\<lambda>(url, sub). new_login_url_with_policy W url sub) (map (\<lambda>raw. (raw, False)) (rf_urls f)) = Inr (md_urls meta)"
    by (auto simp: fields_to_domain_def Let_def sbind_Inr_iff)
  then show ?thesis
    by (auto simp: smap_Inr_iff list_all2_conv_all_nth in_set_conv_nth) (metis policy_as_asked)
qed

end
