(* ===== verification/Transport.thy ===== *)
theory Transport
  imports Crypto
begin

text \<open>
  The transport (\<^verbatim>\<open>internal/infrastructure/transport/noise/{frames,conn,handshake}.go\<close>): frames with
  a length prefix on a byte stream, connections that encrypt every message and rekey by count,
  and the two sides of the handshake. The Noise library is a parameter: its cipher states and its
  handshake state.
\<close>

section \<open>Streams\<close>

text \<open>
  A stream is what is still to be read before the peer closes its side, what has been written,
  and the fate of the write calls: \<open>None\<close> for one that succeeds, \<open>Some k\<close> for one that fails
  after \<open>k\<close> bytes.
\<close>

record stream =
  st_in :: bytes
  st_out :: bytes
  st_cut :: "nat \<Rightarrow> nat option"
  st_writes :: nat

text \<open>\<^verbatim>\<open>io.ReadFull\<close>: \<^verbatim>\<open>io.EOF\<close> if nothing is left, another error if too little is.\<close>

definition read_full :: "nat \<Rightarrow> ('a stream_scheme, err, bytes) prog" where
  "read_full n = (\<lambda>s.
     if n \<le> length (st_in s) then (Inr (take n (st_in s)), s\<lparr>st_in := drop n (st_in s)\<rparr>)
     else (Inl (if st_in s = [] then ErrEOF else ErrIO), s\<lparr>st_in := []\<rparr>))"

definition write_bytes :: "bytes \<Rightarrow> ('a stream_scheme, err, unit) prog" where
  "write_bytes b = (\<lambda>s. case st_cut s (st_writes s) of
       None \<Rightarrow> (Inr (), s\<lparr>st_out := st_out s @ b, st_writes := Suc (st_writes s)\<rparr>)
     | Some k \<Rightarrow> (Inl ErrIO, s\<lparr>st_out := st_out s @ take k b, st_writes := Suc (st_writes s)\<rparr>))"

section \<open>Frames\<close>

definition max_frame_size :: nat where "max_frame_size = 750 * 1024"

definition write_frame :: "bytes \<Rightarrow> ('a stream_scheme, err, unit) prog" where
  "write_frame payload =
     mbind (mguard (payload \<noteq> []) ErrBadFrame) (\<lambda>_.
     mbind (mguard (\<not> length payload > max_frame_size) ErrFrameTooLarge) (\<lambda>_.
     mbind (write_bytes (be32 (of_nat (length payload)))) (\<lambda>_.
     write_bytes payload)))"

definition read_frame :: "('a stream_scheme, err, bytes) prog" where
  "read_frame =
     mbind (read_full 4) (\<lambda>hdr.
     let n = unat (of_be32 hdr) in
     mbind (mguard (n \<noteq> 0) ErrBadFrame) (\<lambda>_.
     mbind (mguard (\<not> n > max_frame_size) ErrFrameTooLarge) (\<lambda>_.
     replace_error ErrBadFrame (read_full n))))"

definition frame :: "bytes \<Rightarrow> bytes" where
  "frame payload = be32 (of_nat (length payload)) @ payload"

lemma unat_frame_length: "length payload \<le> max_frame_size \<Longrightarrow> unat (of_nat (length payload) :: u32) = length payload"
  by (simp add: max_frame_size_def unat_of_nat)

lemma write_frame_Inr_iff:
  "write_frame payload s = (Inr (), t) \<longleftrightarrow>
     payload \<noteq> [] \<and> length payload \<le> max_frame_size \<and>
     st_cut s (st_writes s) = None \<and> st_cut s (Suc (st_writes s)) = None \<and>
     t = s\<lparr>st_out := st_out s @ frame payload, st_writes := st_writes s + 2\<rparr>"
  by (auto simp: write_frame_def frame_def write_bytes_def mbind_Inr_iff prog_simps not_less split: option.splits)

lemma read_full_not_panic: "read_full n s \<noteq> (Inl Panic, t)"
  by (simp add: read_full_def)

text \<open>A frame that was written reads back, and the reader stops where the frame ends.\<close>

lemma read_frame_frame:
  assumes "st_in s = frame payload @ rest" and "payload \<noteq> []" and "length payload \<le> max_frame_size"
  shows "read_frame s = (Inr payload, s\<lparr>st_in := rest\<rparr>)"
  using assms
  by (simp add: read_frame_def frame_def read_full_def mbind_unfold Let_def mguard_eq unat_frame_length replace_error_def attempt_def
      mreturn_eq)

lemma read_full_Inr: "read_full n s = (Inr b, t) \<Longrightarrow> length b = n \<and> st_in s = b @ st_in t"
  by (auto simp: read_full_def split: if_splits)

text \<open>Whatever the peer sends, reading a frame yields a payload within the bounds or an error, and
  what was read is the frame of the payload.\<close>

lemma read_frame_Inr:
  assumes "read_frame s = (Inr payload, t)"
  shows "payload \<noteq> [] \<and> length payload \<le> max_frame_size \<and> st_in s = frame payload @ st_in t"
proof -
  from assms obtain hdr u where h: "read_full 4 s = (Inr hdr, u)" "unat (of_be32 hdr) \<noteq> 0" "unat (of_be32 hdr) \<le> max_frame_size"
    "read_full (unat (of_be32 hdr)) u = (Inr payload, t)"
    by (auto simp: read_frame_def mbind_Inr_iff prog_simps Let_def split: if_splits)
  from read_full_Inr [OF h(1)] read_full_Inr [OF h(4)]
  have l: "length hdr = 4" "st_in s = hdr @ payload @ st_in t" "length payload = unat (of_be32 hdr)" by simp_all
  have "be32 (of_nat (length payload)) = hdr" using l by (simp add: be32_of_be32)
  then show ?thesis using h l by (auto simp: frame_def)
qed

section \<open>Connections\<close>

record 'c cipher_prims =
  cp_encrypt :: "'c \<Rightarrow> bytes \<Rightarrow> (err + bytes) \<times> 'c"
  cp_decrypt :: "'c \<Rightarrow> bytes \<Rightarrow> (err + bytes) \<times> 'c"
  cp_rekey :: "'c \<Rightarrow> 'c"

record 'c conn_half =
  ch_cipher :: 'c
  ch_count :: u64

record 'c noise_conn = stream +
  nc_send :: "'c conn_half"
  nc_recv :: "'c conn_half"

definition rekey_interval :: u64 where "rekey_interval = 4096"

text \<open>The count after a message, and the cipher state the count asks for.\<close>

definition counted :: "'c cipher_prims \<Rightarrow> 'c \<Rightarrow> u64 \<Rightarrow> 'c conn_half" where
  "counted C c n =
     (let n' = n + 1 in
      \<lparr>ch_cipher = (if n' mod rekey_interval = 0 then cp_rekey C c else c), ch_count = n'\<rparr>)"

definition conn_send :: "'c cipher_prims \<Rightarrow> bytes \<Rightarrow> (('c, 'a) noise_conn_scheme, err, unit) prog" where
  "conn_send C payload = (\<lambda>s.
     case cp_encrypt C (ch_cipher (nc_send s)) payload of
       (Inl e, c) \<Rightarrow> (Inl e, s\<lparr>nc_send := (nc_send s)\<lparr>ch_cipher := c\<rparr>\<rparr>)
     | (Inr ct, c) \<Rightarrow> write_frame ct (s\<lparr>nc_send := counted C c (ch_count (nc_send s))\<rparr>))"

definition conn_recv :: "'c cipher_prims \<Rightarrow> (('c, 'a) noise_conn_scheme, err, bytes) prog" where
  "conn_recv C =
     mbind read_frame (\<lambda>ct s.
     case cp_decrypt C (ch_cipher (nc_recv s)) ct of
       (Inl _, c) \<Rightarrow> (Inl ErrTransportAEAD, s\<lparr>nc_recv := (nc_recv s)\<lparr>ch_cipher := c\<rparr>\<rparr>)
     | (Inr pt, c) \<Rightarrow> (Inr pt, s\<lparr>nc_recv := counted C c (ch_count (nc_recv s))\<rparr>))"

fun recv_all :: "'c cipher_prims \<Rightarrow> nat \<Rightarrow> (('c, 'a) noise_conn_scheme, err, bytes list) prog" where
  "recv_all C 0 = mreturn []"
| "recv_all C (Suc n) = mbind (conn_recv C) (\<lambda>m. mbind (recv_all C n) (\<lambda>ms. mreturn (m # ms)))"

text \<open>
  What a connection relies on: cipher states that are in step stay in step, and what one
  encrypts the other decrypts. The other law is the authenticity of the cipher, idealised: a
  state rejects what the other end encrypted for a later place in the sequence.
\<close>

definition steps_agree :: "'c cipher_prims \<Rightarrow> ('c \<Rightarrow> 'c \<Rightarrow> bool) \<Rightarrow> bool" where
  "steps_agree C in_step \<longleftrightarrow>
     (\<forall>c d p ct c'. in_step c d \<longrightarrow> cp_encrypt C c p = (Inr ct, c') \<longrightarrow>
        (\<exists>d'. cp_decrypt C d ct = (Inr p, d') \<and> in_step c' d')) \<and>
     (\<forall>c d. in_step c d \<longrightarrow> in_step (cp_rekey C c) (cp_rekey C d))"

definition rejects_later :: "'c cipher_prims \<Rightarrow> ('c \<Rightarrow> 'c \<Rightarrow> bool) \<Rightarrow> bool" where
  "rejects_later C in_step \<longleftrightarrow>
     (\<forall>c d p ct c' n p' ct' c''. in_step c d \<longrightarrow> cp_encrypt C c p = (Inr ct, c') \<longrightarrow>
        cp_encrypt C (ch_cipher (counted C c' n)) p' = (Inr ct', c'') \<longrightarrow> isl (fst (cp_decrypt C d ct')))"

lemma decrypts:
  assumes "steps_agree C in_step" and "in_step c d" and "cp_encrypt C c p = (Inr ct, c')"
  obtains d' where "cp_decrypt C d ct = (Inr p, d')" "in_step c' d'"
  using assms unfolding steps_agree_def by blast

text \<open>Two halves are in step when their cipher states are and they have counted the same messages.\<close>

definition halves :: "('c \<Rightarrow> 'c \<Rightarrow> bool) \<Rightarrow> 'c conn_half \<Rightarrow> 'c conn_half \<Rightarrow> bool" where
  "halves in_step a b \<longleftrightarrow> in_step (ch_cipher a) (ch_cipher b) \<and> ch_count a = ch_count b"

lemma halves_counted: "steps_agree C in_step \<Longrightarrow> in_step c d \<Longrightarrow> halves in_step (counted C c n) (counted C d n)"
  by (simp add: halves_def counted_def Let_def steps_agree_def)

lemma conn_send_Inr:
  assumes "conn_send C m s = (Inr (), t)"
  obtains ct c where "cp_encrypt C (ch_cipher (nc_send s)) m = (Inr ct, c)" "ct \<noteq> []" "length ct \<le> max_frame_size"
    "st_out t = st_out s @ frame ct" "nc_send t = counted C c (ch_count (nc_send s))" "nc_recv t = nc_recv s" "st_in t = st_in s"
  using assms by (auto simp: conn_send_def write_frame_Inr_iff split: prod.splits sum.splits)

lemma sent_is_received:
  assumes laws: "steps_agree C in_step" and "conn_send C m s = (Inr (), t)" and "halves in_step (nc_send s) (nc_recv r)"
    and "st_out t = st_out s @ wire" and "st_in r = wire @ rest"
  shows "\<exists>r'. conn_recv C r = (Inr m, r') \<and> halves in_step (nc_send t) (nc_recv r') \<and> st_in r' = rest"
proof -
  from assms(2) obtain ct c where e: "cp_encrypt C (ch_cipher (nc_send s)) m = (Inr ct, c)"
    and ct: "ct \<noteq> []" "length ct \<le> max_frame_size" "st_out t = st_out s @ frame ct" "nc_send t = counted C c (ch_count (nc_send s))"
    by (rule conn_send_Inr)
  have "in_step (ch_cipher (nc_send s)) (ch_cipher (nc_recv r))" using assms(3) by (simp add: halves_def)
  from decrypts [OF laws this e] obtain d where d: "cp_decrypt C (ch_cipher (nc_recv r)) ct = (Inr m, d)" "in_step c d" .
  have "read_frame r = (Inr ct, r\<lparr>st_in := rest\<rparr>)"
    by (rule read_frame_frame) (use ct assms(4,5) in simp_all)
  then have "conn_recv C r = (Inr m, r\<lparr>st_in := rest, nc_recv := counted C d (ch_count (nc_recv r))\<rparr>)"
    using d(1) by (simp add: conn_recv_def mbind_unfold)
  moreover have "halves in_step (nc_send t) (counted C d (ch_count (nc_recv r)))"
    using halves_counted [OF laws d(2)] assms(3) by (simp add: ct(4) halves_def)
  ultimately show ?thesis by simp
qed

lemma sends_extend: "mfor ms (conn_send C) s = (Inr (), t) \<Longrightarrow> \<exists>x. st_out t = st_out s @ x"
proof (induction ms arbitrary: s)
  case (Cons m ms)
  then obtain u where u: "conn_send C m s = (Inr (), u)" "mfor ms (conn_send C) u = (Inr (), t)" by (auto simp: mbind_Inr_iff)
  from u(1) obtain ct where "st_out u = st_out s @ frame ct" by (rule conn_send_Inr)
  with Cons.IH [OF u(2)] show ?case by auto
qed (simp add: mreturn_eq)

text \<open>Messages arrive as sent, in order, all of them, over any number of rekeys.\<close>

lemma all_sent_are_received:
  assumes "steps_agree C in_step" and "mfor ms (conn_send C) s = (Inr (), t)" and "halves in_step (nc_send s) (nc_recv r)"
    and "st_out t = st_out s @ wire" and "st_in r = wire @ rest"
  shows "\<exists>r'. recv_all C (length ms) r = (Inr ms, r') \<and> halves in_step (nc_send t) (nc_recv r') \<and> st_in r' = rest"
  using assms(2-)
proof (induction ms arbitrary: s r wire)
  case Nil
  then show ?case by (simp add: mreturn_eq)
next
  case (Cons m ms)
  from Cons.prems(1) obtain u where u: "conn_send C m s = (Inr (), u)" "mfor ms (conn_send C) u = (Inr (), t)"
    by (auto simp: mbind_Inr_iff)
  from u(1) obtain ct where x: "st_out u = st_out s @ frame ct" by (rule conn_send_Inr)
  from sends_extend [OF u(2)] obtain y where y: "st_out t = st_out u @ y" by blast
  have "wire = frame ct @ y" using Cons.prems(3) x y by simp
  then have i: "st_in r = frame ct @ (y @ rest)" using Cons.prems(4) by simp
  from sent_is_received [OF assms(1) u(1) Cons.prems(2) x i]
  obtain r1 where r1: "conn_recv C r = (Inr m, r1)" "halves in_step (nc_send u) (nc_recv r1)" "st_in r1 = y @ rest" by auto
  from Cons.IH [OF u(2) r1(2) y r1(3)] r1(1) show ?case by (auto simp: mbind_unfold mreturn_eq)
qed

text \<open>
  A message too large for a frame is only noticed after it was encrypted: nothing is written, but
  the sender's cipher state has moved on, and the receiver rejects whatever comes next.
\<close>

lemma oversize_send:
  assumes "cp_encrypt C (ch_cipher (nc_send s)) m = (Inr ct, c)" and "length ct > max_frame_size"
  shows "conn_send C m s = (Inl ErrFrameTooLarge, s\<lparr>nc_send := counted C c (ch_count (nc_send s))\<rparr>)"
  using assms by (auto simp: conn_send_def write_frame_def mbind_unfold mguard_eq max_frame_size_def)

lemma oversize_breaks_the_connection:
  assumes "rejects_later C in_step" and "halves in_step (nc_send s) (nc_recv r)"
    and "conn_send C m s = (Inl ErrFrameTooLarge, t)" and "cp_encrypt C (ch_cipher (nc_send s)) m = (Inr ct, c)"
    and "conn_send C m' t = (Inr (), u)" and "st_out u = st_out t @ wire" and "st_in r = wire @ rest"
  shows "st_out t = st_out s \<and> fst (conn_recv C r) = Inl ErrTransportAEAD"
proof -
  have t: "st_out t = st_out s" "nc_send t = counted C c (ch_count (nc_send s))"
    using assms(3,4) by (auto simp: conn_send_def write_frame_def write_bytes_def mbind_Inl_iff prog_simps split: if_splits option.splits)
  from assms(5) obtain ct' c' where e: "cp_encrypt C (ch_cipher (nc_send t)) m' = (Inr ct', c')"
    and f: "ct' \<noteq> []" "length ct' \<le> max_frame_size" "st_out u = st_out t @ frame ct'"
    by (rule conn_send_Inr)
  have "in_step (ch_cipher (nc_send s)) (ch_cipher (nc_recv r))" using assms(2) by (simp add: halves_def)
  with assms(1,4) e t(2) have "isl (fst (cp_decrypt C (ch_cipher (nc_recv r)) ct'))"
    unfolding rejects_later_def by metis
  moreover have "read_frame r = (Inr ct', r\<lparr>st_in := rest\<rparr>)"
    by (rule read_frame_frame) (use f assms(6,7) in simp_all)
  ultimately show ?thesis using t by (auto simp: conn_recv_def mbind_unfold isl_def split: prod.splits)
qed

section \<open>Handshakes\<close>

definition mode_paired :: string where "mode_paired = ''paired''"
definition mode_pairing :: string where "mode_pairing = ''pair''"
definition mode_cli :: string where "mode_cli = ''cli''"

lemmas mode_defs = mode_paired_def mode_pairing_def mode_cli_def

record hello =
  he_version :: int
  he_mode :: string
  he_client_id :: string

unbundle bit_operations_syntax

text \<open>The comparison of keys, in constant time in the source.\<close>

definition equal_keys :: "bytes \<Rightarrow> bytes \<Rightarrow> bool" where
  "equal_keys a b \<longleftrightarrow>
     (if length a \<noteq> length b \<or> length a = 0 then False
      else fold (\<lambda>(x, y) diff. diff OR (x XOR y)) (zip a b) 0 = 0)"

lemma xor_zero_iff: "x XOR y = 0 \<longleftrightarrow> x = (y :: byte)"
  by (auto simp: bit_eq_iff bit_xor_iff)

lemma or_zero_iff: "x OR y = 0 \<longleftrightarrow> x = 0 \<and> y = (0 :: byte)"
  by (auto simp: bit_eq_iff bit_or_iff)

lemma fold_diff: "fold (\<lambda>(x, y) diff. diff OR (x XOR y)) xys d = 0 \<longleftrightarrow> d = 0 \<and> (\<forall>(x, y) \<in> set xys. x = (y :: byte))"
  by (induction xys arbitrary: d) (auto simp: or_zero_iff xor_zero_iff)

lemma zip_equal: "length a = length b \<Longrightarrow> (\<forall>(x, y) \<in> set (zip a b). x = y) \<longleftrightarrow> a = b"
  by (induction rule: list_induct2) auto

lemma equal_keys_iff [simp]: "equal_keys a b \<longleftrightarrow> a \<noteq> [] \<and> a = b"
  by (cases "length a = length b") (auto simp: equal_keys_def fold_diff zip_equal)

text \<open>The handshake state of the library, with the messages of the pattern XX: the third one ends it
  and gives the cipher states of both directions, the initiator's first.\<close>

record ('h, 'c) noise_prims =
  hs_new :: "bool \<Rightarrow> bytes \<times> bytes \<Rightarrow> bytes option \<Rightarrow> bytes \<Rightarrow> err + 'h"
  hs_write :: "'h \<Rightarrow> err + bytes \<times> 'h"
  hs_read :: "'h \<Rightarrow> bytes \<Rightarrow> err + 'h"
  hs_write_last :: "'h \<Rightarrow> err + bytes \<times> 'c \<times> 'c"
  hs_read_last :: "'h \<Rightarrow> bytes \<Rightarrow> err + 'h \<times> 'c \<times> 'c"
  hs_peer :: "'h \<Rightarrow> bytes"

definition new_half :: "'c \<Rightarrow> 'c conn_half" where
  "new_half c = \<lparr>ch_cipher = c, ch_count = 0\<rparr>"

definition handshake_failed :: "err + 'r \<Rightarrow> ('s, err, 'r) prog" where
  "handshake_failed r = (case r of Inl _ \<Rightarrow> mthrow ErrHandshakeFailed | Inr x \<Rightarrow> mreturn x)"

text \<open>
  The server: up to the first message of the client, and the answer to it. The result is the
  halves for sending and receiving, the hello and the key of the peer.
\<close>

definition server_finish ::
  "('h, 'c) noise_prims \<Rightarrow> hello \<Rightarrow> bytes \<Rightarrow> 'h \<Rightarrow> ('a stream_scheme, err, 'c conn_half \<times> 'c conn_half \<times> hello \<times> bytes) prog" where
  "server_finish N h pinned hs1 =
     mbind (handshake_failed (hs_write N hs1)) (\<lambda>(msg2, hs2).
     mbind (write_frame msg2) (\<lambda>_.
     mbind read_frame (\<lambda>msg3.
     mbind (handshake_failed (hs_read_last N hs2 msg3)) (\<lambda>(hs3, cs_recv, cs_send).
     let remote = hs_peer N hs3 in
     if he_mode h = mode_paired \<and> \<not> equal_keys remote pinned then mthrow ErrStaticKeyMismatch
     else mreturn (new_half cs_send, new_half cs_recv, h, remote)))))"

definition server_handshake ::
  "('h, 'c) noise_prims \<Rightarrow> (bytes \<Rightarrow> hello option) \<Rightarrow> bytes \<times> bytes \<Rightarrow> (hello \<Rightarrow> err + bytes option \<times> bytes) \<Rightarrow>
   ('a stream_scheme, err, 'c conn_half \<times> 'c conn_half \<times> hello \<times> bytes) prog" where
  "server_handshake N un_hello static look =
     mbind read_frame (\<lambda>hello_raw.
     case un_hello hello_raw of None \<Rightarrow> mthrow ErrProtocolViolation | Some h \<Rightarrow>
     if he_version h \<noteq> 1 then mthrow ErrProtocolViolation else
     mbind (if he_mode h = mode_pairing \<or> he_mode h = mode_cli then mreturn (None, [])
            else if he_mode h = mode_paired then mlift (look h)
            else mthrow ErrUnknownMode) (\<lambda>(psk, pinned).
     mbind (mlift (hs_new N False static psk hello_raw)) (\<lambda>hs0.
     mbind read_frame (\<lambda>msg1.
     mbind (handshake_failed (hs_read N hs0 msg1)) (\<lambda>hs1.
     server_finish N h pinned hs1)))))"

definition client_handshake ::
  "('h, 'c) noise_prims \<Rightarrow> (hello \<Rightarrow> err + bytes) \<Rightarrow> bytes \<times> bytes \<Rightarrow> hello \<Rightarrow> bytes option \<Rightarrow> bytes option \<Rightarrow>
   ('a stream_scheme, err, 'c conn_half \<times> 'c conn_half \<times> bytes) prog" where
  "client_handshake N json_hello static h psk expected =
     mbind (mlift (json_hello h)) (\<lambda>hello_raw.
     mbind (write_frame hello_raw) (\<lambda>_.
     mbind (mlift (hs_new N True static psk hello_raw)) (\<lambda>hs0.
     mbind (handshake_failed (hs_write N hs0)) (\<lambda>(msg1, hs1).
     mbind (write_frame msg1) (\<lambda>_.
     mbind read_frame (\<lambda>msg2.
     mbind (handshake_failed (hs_read N hs1 msg2)) (\<lambda>hs2.
     let server_static = hs_peer N hs2 in
     if (case expected of None \<Rightarrow> False | Some k \<Rightarrow> \<not> equal_keys server_static k) then mthrow ErrStaticKeyMismatch else
     mbind (handshake_failed (hs_write_last N hs2)) (\<lambda>(msg3, cs_send, cs_recv).
     mbind (write_frame msg3) (\<lambda>_.
     mreturn (new_half cs_send, new_half cs_recv, server_static))))))))))"

lemma handshake_failed_Inr_iff [prog_simps]: "handshake_failed r s = (Inr x, t) \<longleftrightarrow> r = Inr x \<and> t = s"
  by (auto simp: handshake_failed_def prog_simps split: sum.splits)

text \<open>What a server that completes a handshake knows.\<close>

lemma server_handshake_Inr:
  assumes "server_handshake N un_hello static look s = (Inr (snd_half, rcv_half, h, remote), t)"
  shows "he_version h = 1 \<and> he_mode h \<in> {mode_paired, mode_pairing, mode_cli} \<and>
    (\<exists>raw rest. st_in s = frame raw @ rest \<and> un_hello raw = Some h) \<and>
    (he_mode h = mode_paired \<longrightarrow> (\<exists>psk. look h = Inr (psk, remote) \<and> remote \<noteq> []))"
proof -
  from assms obtain raw u where r: "read_frame s = (Inr raw, u)" "un_hello raw = Some h" "he_version h = 1"
    and m: "he_mode h \<in> {mode_paired, mode_pairing, mode_cli}"
    "he_mode h = mode_paired \<longrightarrow> (\<exists>psk. look h = Inr (psk, remote) \<and> remote \<noteq> [])"
    by (auto simp: server_handshake_def server_finish_def mbind_Inr_iff prog_simps Let_def mode_defs split: option.splits if_splits prod.splits)
  from read_frame_Inr [OF r(1)] r(2,3) m show ?thesis by blast
qed

text \<open>And a client that was told the server's key.\<close>

lemma client_handshake_Inr:
  assumes "client_handshake N json_hello static h psk (Some k) s = (Inr (snd_half, rcv_half, remote), t)"
  shows "remote = k \<and> k \<noteq> []"
  using assms by (auto simp: client_handshake_def mbind_Inr_iff prog_simps Let_def split: if_splits prod.splits)

section \<open>The two sides together\<close>

text \<open>
  What the library documents: two handshake states with the same pre-shared key and prologue carry
  each other through the pattern, learn each other's static keys, and end with cipher states in
  step, those of the initiator first.
\<close>

definition noise_agrees :: "('h, 'c) noise_prims \<Rightarrow> ('c \<Rightarrow> 'c \<Rightarrow> bool) \<Rightarrow> bool" where
  "noise_agrees N in_step \<longleftrightarrow>
     (\<forall>si sr psk pro i0 r0 m1 i1. hs_new N True si psk pro = Inr i0 \<longrightarrow> hs_new N False sr psk pro = Inr r0 \<longrightarrow>
        hs_write N i0 = Inr (m1, i1) \<longrightarrow>
        (\<exists>r1. hs_read N r0 m1 = Inr r1 \<and>
          (\<forall>m2 r2. hs_write N r1 = Inr (m2, r2) \<longrightarrow>
            (\<exists>i2. hs_read N i1 m2 = Inr i2 \<and> hs_peer N i2 = fst sr \<and>
              (\<forall>m3 a b. hs_write_last N i2 = Inr (m3, a, b) \<longrightarrow>
                (\<exists>r3 c d. hs_read_last N r2 m3 = Inr (r3, c, d) \<and> hs_peer N r3 = fst si \<and> in_step a c \<and> in_step d b))))))"

lemma noise_agreesE:
  assumes "noise_agrees N in_step" and "hs_new N True si psk pro = Inr i0" and "hs_new N False sr psk pro = Inr r0"
    and "hs_write N i0 = Inr (m1, i1)"
  obtains r1 where "hs_read N r0 m1 = Inr r1"
    "\<And>m2 r2. hs_write N r1 = Inr (m2, r2) \<Longrightarrow> \<exists>i2. hs_read N i1 m2 = Inr i2 \<and> hs_peer N i2 = fst sr \<and>
       (\<forall>m3 a b. hs_write_last N i2 = Inr (m3, a, b) \<longrightarrow>
          (\<exists>r3 c d. hs_read_last N r2 m3 = Inr (r3, c, d) \<and> hs_peer N r3 = fst si \<and> in_step a c \<and> in_step d b))"
  using assms unfolding noise_agrees_def by meson

lemma client_handshake_steps:
  assumes "client_handshake N json_hello static h psk expected s = (Inr (sh, rh, remote), t)"
  obtains raw i0 m1 i1 m2 i2 m3 a b where "json_hello h = Inr raw" "hs_new N True static psk raw = Inr i0" "hs_write N i0 = Inr (m1, i1)"
    "raw \<noteq> []" "length raw \<le> max_frame_size" "m1 \<noteq> []" "length m1 \<le> max_frame_size" "m3 \<noteq> []" "length m3 \<le> max_frame_size"
    "m2 \<noteq> []" "length m2 \<le> max_frame_size" "st_in s = frame m2 @ st_in t" "hs_read N i1 m2 = Inr i2" "hs_write_last N i2 = Inr (m3, a, b)" "remote = hs_peer N i2"
    "st_out t = st_out s @ frame raw @ frame m1 @ frame m3" "sh = new_half a" "rh = new_half b"
proof -
  from assms obtain raw s1 i0 m1 i1 s2 m2 s3 i2 m3 a b where
    c: "json_hello h = Inr raw" "write_frame raw s = (Inr (), s1)" "hs_new N True static psk raw = Inr i0" "hs_write N i0 = Inr (m1, i1)"
    "write_frame m1 s1 = (Inr (), s2)" "read_frame s2 = (Inr m2, s3)" "hs_read N i1 m2 = Inr i2" "remote = hs_peer N i2"
    "hs_write_last N i2 = Inr (m3, a, b)" "write_frame m3 s3 = (Inr (), t)" "sh = new_half a" "rh = new_half b"
    by (auto simp: client_handshake_def mbind_Inr_iff prog_simps Let_def split: if_splits prod.splits)
  have r: "st_out s3 = st_out s2" using c(6) by (auto simp: read_frame_def read_full_def mbind_Inr_iff prog_simps Let_def split: if_splits)
  show thesis
    by (rule that [OF c(1,3,4) _ _ _ _ _ _ _ _ _ c(7,9,8) _ c(11,12)])
      (use c(2,5,10) read_frame_Inr [OF c(6)] r in \<open>auto simp: write_frame_Inr_iff\<close>)
qed

lemma read_frame_out: "st_out (snd (read_frame s)) = st_out s"
  by (auto simp: read_frame_def read_full_def mbind_unfold prog_simps Let_def replace_error_def attempt_def split: sum.splits)

lemma frame_inject: "st_in s = frame p \<Longrightarrow> st_in s = frame q @ rest \<Longrightarrow> p \<noteq> [] \<Longrightarrow> q \<noteq> [] \<Longrightarrow>
    length p \<le> max_frame_size \<Longrightarrow> length q \<le> max_frame_size \<Longrightarrow> p = q \<and> rest = []"
  using read_frame_frame [of s p "[]"] read_frame_frame [of s q rest] by (metis append_Nil2 prod.inject stream.select_convs(1) sum.inject(2) stream.surjective stream.update_convs(1))

text \<open>The key with which the server protects the handshake of a hello, and whom it lets finish.\<close>

definition admits :: "(hello \<Rightarrow> err + bytes option \<times> bytes) \<Rightarrow> hello \<Rightarrow> bytes option \<Rightarrow> bytes \<Rightarrow> bool" where
  "admits look h psk key \<longleftrightarrow> he_version h = 1 \<and>
     (he_mode h \<in> {mode_pairing, mode_cli} \<and> psk = None \<or> he_mode h = mode_paired \<and> look h = Inr (psk, key) \<and> key \<noteq> [])"

text \<open>
  When a client has finished with what a server wrote, and the server has read what the client
  wrote, the server finishes too: each side holds the other's static key and the halves of the
  two connections are in step in both directions.
\<close>

lemma handshakes_meet:
  assumes laws: "noise_agrees N in_step" and fresh: "\<And>psk pro. \<exists>r0. hs_new N False server psk pro = Inr r0"
    and json: "\<And>raw. json_hello h = Inr raw \<Longrightarrow> un_hello raw = Some h"
    and client: "client_handshake N json_hello static h psk expected s = (Inr (cs, cr, remote), t)" and "st_out s = []"
    and adm: "admits look h psk (fst static)"
    and srv: "server_handshake N un_hello server look r = (res, u)" "st_out r = []" "\<And>n. st_cut r n = None"
    and wires: "st_in r = st_out t" "st_in s = st_out u"
  shows "remote = fst server \<and> (\<exists>ss sr. res = Inr (ss, sr, h, fst static) \<and> halves in_step cs sr \<and> halves in_step ss cr \<and>
    ch_count cs = 0 \<and> ch_count ss = 0)"
proof -
  from client obtain raw i0 m1 i1 m2 i2 m3 a b where c: "json_hello h = Inr raw" "hs_new N True static psk raw = Inr i0"
    "hs_write N i0 = Inr (m1, i1)" and sz: "raw \<noteq> []" "length raw \<le> max_frame_size" "m1 \<noteq> []" "length m1 \<le> max_frame_size"
    "m3 \<noteq> []" "length m3 \<le> max_frame_size" "m2 \<noteq> []" "length m2 \<le> max_frame_size" and c2: "st_in s = frame m2 @ st_in t" "hs_read N i1 m2 = Inr i2"
    "hs_write_last N i2 = Inr (m3, a, b)" "remote = hs_peer N i2" and out: "st_out t = st_out s @ frame raw @ frame m1 @ frame m3"
    and h: "cs = new_half a" "cr = new_half b" by (rule client_handshake_steps)
  obtain r0 where r0: "hs_new N False server psk raw = Inr r0" using fresh by blast
  obtain r1 where r1: "hs_read N r0 m1 = Inr r1" and ahead: "\<And>m2 r2. hs_write N r1 = Inr (m2, r2) \<Longrightarrow>
      \<exists>i2. hs_read N i1 m2 = Inr i2 \<and> hs_peer N i2 = fst server \<and>
       (\<forall>m3 a b. hs_write_last N i2 = Inr (m3, a, b) \<longrightarrow>
          (\<exists>r3 c d. hs_read_last N r2 m3 = Inr (r3, c, d) \<and> hs_peer N r3 = fst static \<and> in_step a c \<and> in_step d b))"
    using noise_agreesE [OF laws c(2) r0 c(3)] by blast
  let ?u1 = "r\<lparr>st_in := frame m1 @ frame m3\<rparr>" let ?u2 = "r\<lparr>st_in := frame m3\<rparr>"
  have f1: "read_frame r = (Inr raw, ?u1)" by (rule read_frame_frame) (use sz wires(1) out assms(5) in simp_all)
  have f2: "read_frame ?u1 = (Inr m1, ?u2)" using read_frame_frame [of ?u1 m1 "frame m3"] sz by simp
  have "server_handshake N un_hello server look r =
      mbind (if he_mode h = mode_pairing \<or> he_mode h = mode_cli then mreturn (None, [])
            else if he_mode h = mode_paired then mlift (look h) else mthrow ErrUnknownMode) (\<lambda>(psk, pinned).
      mbind (mlift (hs_new N False server psk raw)) (\<lambda>hs0.
      mbind read_frame (\<lambda>msg1.
      mbind (handshake_failed (hs_read N hs0 msg1)) (\<lambda>hs1. server_finish N h pinned hs1)))) ?u1"
    using adm by (simp add: server_handshake_def mbind_Inr [where m = read_frame, OF f1] json [OF c(1)] admits_def)
  also have "\<dots> = server_finish N h (if he_mode h = mode_paired then fst static else []) r1 ?u2"
    using adm r0 unfolding admits_def
    by (elim conjE disjE) (auto simp: mode_defs mbind_unfold mreturn_eq mlift_eq f2 r1 handshake_failed_def)
  finally have run: "server_finish N h (if he_mode h = mode_paired then fst static else []) r1 ?u2 = (res, u)" using srv(1) by simp
  show ?thesis
  proof (cases "hs_write N r1")
    case (Inl e)
    then have "st_out u = []" using run srv(2) by (auto simp: server_finish_def mbind_unfold handshake_failed_def mthrow_eq)
    with wires(2) c2(1) sz(7) show ?thesis by (simp add: frame_def)
  next
    case (Inr x)
    obtain m r2 where x: "x = (m, r2)" by (cases x)
    from ahead [OF Inr [unfolded x]] obtain i2' where i2': "hs_read N i1 m = Inr i2'" "hs_peer N i2' = fst server"
      and last: "\<And>m3 a b. hs_write_last N i2' = Inr (m3, a, b) \<Longrightarrow>
          \<exists>r3 c d. hs_read_last N r2 m3 = Inr (r3, c, d) \<and> hs_peer N r3 = fst static \<and> in_step a c \<and> in_step d b" by blast
    have hw: "handshake_failed (hs_write N r1) ?u2 = (Inr (m, r2), ?u2)"
      by (simp add: handshake_failed_def Inr x mreturn_eq)
    show ?thesis
    proof (cases "m \<noteq> [] \<and> length m \<le> max_frame_size")
      case False
      then have "st_out u = []" using run srv(2)
        by (auto simp: server_finish_def hw mbind_unfold write_frame_def mguard_eq split: if_splits)
      with wires(2) c2(1) sz(7) show ?thesis by (simp add: frame_def)
    next
      case True
      let ?u3 = "?u2\<lparr>st_out := frame m, st_writes := st_writes r + 2\<rparr>"
      have w: "write_frame m ?u2 = (Inr (), ?u3)" using srv(2,3) True by (simp add: write_frame_Inr_iff)
      have f3: "read_frame ?u3 = (Inr m3, ?u3\<lparr>st_in := []\<rparr>)" using read_frame_frame [of ?u3 m3 "[]"] sz by simp
      have fin: "server_finish N h pinned r1 ?u2 = mbind (handshake_failed (hs_read_last N r2 m3)) (\<lambda>(hs3, cs_recv, cs_send).
          let remote = hs_peer N hs3 in
          if he_mode h = mode_paired \<and> \<not> equal_keys remote pinned then mthrow ErrStaticKeyMismatch
          else mreturn (new_half cs_send, new_half cs_recv, h, remote)) (?u3\<lparr>st_in := []\<rparr>)" for pinned
        unfolding server_finish_def mbind_Inr [where m = "handshake_failed (hs_write N r1)", OF hw] prod.case
          mbind_Inr [where m = "write_frame m", OF w] mbind_Inr [where m = read_frame, OF f3] by (rule refl)
      have "st_out u = frame m" using run unfolding fin
        by (auto simp: mbind_unfold handshake_failed_def mreturn_eq mthrow_eq Let_def split: sum.splits if_splits prod.splits)
      with wires(2) have "m = m2" using frame_inject [of s m m2 "st_in t"] c2(1) True sz(7,8) by simp
      with i2' c2(2) have "i2' = i2" by simp
      with last [of m3 a b] c2(3) obtain r3 c d where l: "hs_read_last N r2 m3 = Inr (r3, c, d)" "hs_peer N r3 = fst static"
        "in_step a c" "in_step d b" by blast
      have "res = Inr (new_half d, new_half c, h, fst static)"
        using run adm unfolding fin by (auto simp: mbind_unfold handshake_failed_def l mreturn_eq Let_def admits_def mode_defs)
      with l h i2' c2(4) \<open>i2' = i2\<close> show ?thesis by (simp add: halves_def new_half_def)
    qed
  qed
qed

section \<open>A concrete library\<close>

text \<open>
  A cipher that numbers its messages and a handshake that hands over the static keys: enough to
  evaluate the definitions, and to show that the laws above can hold.
\<close>

definition plain_cipher :: "byte cipher_prims" where
  "plain_cipher = \<lparr>cp_encrypt = (\<lambda>c p. (Inr (c # p), c + 1)),
     cp_decrypt = (\<lambda>d ct. case ct of [] \<Rightarrow> (Inl ErrDecryptFailed, d)
       | x # p \<Rightarrow> if x = d then (Inr p, d + 1) else (Inl ErrDecryptFailed, d)),
     cp_rekey = (\<lambda>c. c + 2)\<rparr>"

lemma plain_cipher_agrees: "steps_agree plain_cipher (=)"
  by (auto simp: steps_agree_def plain_cipher_def)

lemma plain_cipher_rejects: "rejects_later plain_cipher (=)"
  by (auto simp: rejects_later_def plain_cipher_def counted_def Let_def)

record plain_hs =
  ph_static :: bytes
  ph_psk :: "bytes option"
  ph_prologue :: bytes
  ph_peer :: bytes

definition plain_noise :: "(plain_hs, byte) noise_prims" where
  "plain_noise = \<lparr>hs_new = (\<lambda>initiator static psk pro.
       Inr \<lparr>ph_static = fst static, ph_psk = psk, ph_prologue = pro, ph_peer = []\<rparr>),
     hs_write = (\<lambda>h. Inr (1 # ph_static h, h)),
     hs_read = (\<lambda>h m. case m of [] \<Rightarrow> Inl ErrDecryptFailed | x # k \<Rightarrow> Inr (h\<lparr>ph_peer := k\<rparr>)),
     hs_write_last = (\<lambda>h. Inr (2 # ph_static h, 0, 100)),
     hs_read_last = (\<lambda>h m. case m of [] \<Rightarrow> Inl ErrDecryptFailed | x # k \<Rightarrow> Inr (h\<lparr>ph_peer := k\<rparr>, 0, 100)),
     hs_peer = ph_peer\<rparr>"

lemma plain_noise_agrees: "noise_agrees plain_noise (=)"
  by (auto simp: noise_agrees_def plain_noise_def)

end
