(* ===== verification/Daemon.thy ===== *)
theory Daemon
  imports Wire Transport
begin

text \<open>
  The daemon (\<^verbatim>\<open>internal/daemon/{handlers,server}.go\<close>): admission of a request by the
  capability its operation needs, dispatch to the services, the life of a connection and its
  session, the idle lock, restoring and destroying the vault. A request runs as one step; the
  connection it arrived on is a field of the state while it runs.
\<close>

section \<open>State\<close>

record conn_state =
  cs_session :: "session option"
  cs_client_id :: ident
  cs_pairing :: bool
  cs_static_key :: bytes

record 'm dsys = "'m fsys" +
  stopping :: bool
  conn :: conn_state

type_synonym dstate = "access_mem dsys"
type_synonym 'r dprog = "(dstate, err, 'r) prog"

text \<open>What the daemon was started with, and the libraries it uses.\<close>

record deps =
  dp_crypto :: crypto_prims
  dp_json :: json
  dp_web :: web
  dp_wire :: wire
  dp_files :: file_prims
  dp_kdf :: kdf_params
  dp_static_public :: bytes
  dp_db_path :: string

section \<open>Tables of operations\<close>

definition required_capability :: "(string \<times> capability) list" where
  "required_capability =
     [(''vault.status'', CapVaultStatus),
      (''vault.init'', CapClientAdmin),
      (''vault.unlock'', CapVaultUnlock),
      (''vault.lock'', CapVaultLock),
      (''vault.panic'', CapVaultLock),
      (''vault.changePassword'', CapPasswordChange),
      (''vault.destroy'', CapVaultDestroy),
      (''records.create'', CapRecordWrite),
      (''records.update'', CapRecordWrite),
      (''records.delete'', CapRecordDelete),
      (''records.list'', CapRecordList),
      (''records.search'', CapRecordList),
      (''records.show'', CapRecordRead),
      (''records.reveal'', CapRecordReveal),
      (''records.match'', CapRecordMatch),
      (''records.revealForOrigin'', CapRecordRevealForOrigin),
      (''records.createLogin'', CapRecordCreateLogin),
      (''records.updateLogin'', CapRecordUpdateLogin),
      (''password.generate'', CapPasswordGenerate),
      (''clients.pending'', CapClientAdmin),
      (''clients.approve'', CapClientAdmin),
      (''clients.revoke'', CapClientAdmin),
      (''clients.list'', CapClientAdmin),
      (''backup.create'', CapBackupCreate),
      (''backup.verify'', CapBackupCreate),
      (''backup.restore'', CapBackupRestore),
      (''events.recent'', CapClientAdmin)]"

definition pairing_ops :: "string list" where
  "pairing_ops = [''clients.pair'', ''clients.claim'', ''clients.cancel'', ''vault.status'']"

definition idle_exempt_ops :: "string list" where
  "idle_exempt_ops = [''vault.status'']"

definition locked_state_ops :: "string list" where
  "locked_state_ops = [''vault.status'', ''vault.unlock'']"

section \<open>Authorization\<close>

definition set_session :: "session \<Rightarrow> unit dprog" where
  "set_session se = mmodify (\<lambda>s. s\<lparr>conn := (conn s)\<lparr>cs_session := Some se\<rparr>\<rparr>)"

text \<open>The capabilities a replacement session gets: those of the client's row as it is now.\<close>

definition renewed_capabilities :: "session \<Rightarrow> u64 dprog" where
  "renewed_capabilities se =
     mbind (mget (\<lambda>s. cs_client_id (conn s))) (\<lambda>client_id.
     if id_is_zero client_id then mreturn (se_capabilities se)
     else
       mbind (replace_error ErrAuthorizationDeny (lookup client_id)) (\<lambda>c.
       mbind (mguard (is_approved c) ErrAuthorizationDeny) (\<lambda>_.
       mreturn (cl_capabilities c))))"

definition renew :: "session \<Rightarrow> u64 \<Rightarrow> session dprog" where
  "renew se epoch =
     mbind (renewed_capabilities se) (\<lambda>caps.
     mbind (mget (\<lambda>s. cs_client_id (conn s))) (\<lambda>client_id.
     mbind (replace_error ErrAuthorizationDeny (issue client_id caps epoch)) (\<lambda>fresh.
     mbind (set_session fresh) (\<lambda>_. mreturn fresh))))"

definition authorize :: "string \<Rightarrow> capability \<Rightarrow> unit dprog" where
  "authorize oper cap =
     mbind (mget (\<lambda>s. (v_epoch (vault s), cs_session (conn s)))) (\<lambda>(epoch, current). case current of
       None \<Rightarrow> mthrow ErrAuthorizationDeny
     | Some se \<Rightarrow>
         mbind (attempt (validate (se_id se) epoch (oper \<notin> set idle_exempt_ops))) (\<lambda>r. case r of
           Inr _ \<Rightarrow> mlift (session_authorize se cap)
         | Inl _ \<Rightarrow>
             mbind (mget (\<lambda>s. \<not> is_unlocked (vault s) \<and> oper \<notin> set locked_state_ops)) (\<lambda>refused.
             mbind (mguard (\<not> refused) ErrAuthorizationDeny) (\<lambda>_.
             mbind (renew se epoch) (\<lambda>fresh. mlift (session_authorize fresh cap))))))"

section \<open>Vault operations\<close>

definition op_status :: "reply dprog" where
  "op_status = mbind vault_status (\<lambda>st. mreturn (ReplyStatus st))"

definition checked_strength :: "'a web_scheme \<Rightarrow> string \<Rightarrow> unit dprog" where
  "checked_strength W password =
     (case check_password_strength W password of Some e \<Rightarrow> mthrow e | None \<Rightarrow> mreturn ())"

definition op_init :: "deps \<Rightarrow> bytes \<Rightarrow> reply dprog" where
  "op_init D payload =
     mbind (mlift (decode (un_password (dp_wire D)) payload)) (\<lambda>password.
     mbind (checked_strength (dp_web D) password) (\<lambda>_.
     mbind (vault_init (dp_crypto D) (str_bytes password) (dp_kdf D)) (\<lambda>_.
     mbind (note_event (dp_crypto D) SeverityInfo EventVaultCreated) (\<lambda>_.
     mreturn ReplyEmpty))))"

definition op_unlock :: "deps \<Rightarrow> bytes \<Rightarrow> reply dprog" where
  "op_unlock D payload =
     mbind (mlift (decode (un_password (dp_wire D)) payload)) (\<lambda>password.
     mbind (attempt (unlock (dp_crypto D) (str_bytes password))) (\<lambda>r. case r of
       Inl e \<Rightarrow> mbind (note_event (dp_crypto D) SeverityWarning EventUnlockFailed) (\<lambda>_. mthrow e)
     | Inr _ \<Rightarrow>
     mbind (attempt (load_index (dp_crypto D) (dp_json D) (dp_web D))) (\<lambda>r. case r of
       Inl e \<Rightarrow> mbind panic_lock (\<lambda>_.
         mbind (note_event (dp_crypto D) SeverityCritical EventIntegrityFailure) (\<lambda>_. mthrow e))
     | Inr _ \<Rightarrow>
     mbind (attempt (verify_catalog (dp_crypto D))) (\<lambda>r. case r of
       Inl e \<Rightarrow> mbind panic_lock (\<lambda>_.
         mbind (note_event (dp_crypto D) SeverityCritical EventIntegrityFailure) (\<lambda>_. mthrow e))
     | Inr bootstrapped \<Rightarrow>
     mbind (if bootstrapped then note_event (dp_crypto D) SeverityInfo EventVaultStateBootstrapped else mreturn ()) (\<lambda>_.
     mbind (mget (\<lambda>s. (cs_session (conn s), cs_client_id (conn s), v_epoch (vault s)))) (\<lambda>(current, client_id, epoch).
     mbind (case current of
         None \<Rightarrow> mreturn ()
       | Some se \<Rightarrow>
           mbind (attempt (issue client_id (se_capabilities se) epoch)) (\<lambda>r. case r of
             Inl _ \<Rightarrow> mreturn ()
           | Inr fresh \<Rightarrow> set_session fresh)) (\<lambda>_.
     mbind (note_event (dp_crypto D) SeverityInfo EventVaultUnlocked) (\<lambda>_.
     mreturn ReplyEmpty))))))))"

definition op_lock :: "deps \<Rightarrow> event_code \<Rightarrow> reply dprog" where
  "op_lock D code =
     mbind lock (\<lambda>_.
     mbind (note_event (dp_crypto D) SeverityInfo code) (\<lambda>_. mreturn ReplyEmpty))"

definition op_change_password :: "deps \<Rightarrow> bytes \<Rightarrow> reply dprog" where
  "op_change_password D payload =
     mbind (mlift (decode (un_change_password (dp_wire D)) payload)) (\<lambda>(current, next_pw).
     mbind (checked_strength (dp_web D) next_pw) (\<lambda>_.
     mbind (change_master_password (dp_crypto D) (str_bytes current) (str_bytes next_pw) (dp_kdf D)) (\<lambda>_.
     mbind (note_event (dp_crypto D) SeverityInfo EventMasterPasswordChanged) (\<lambda>_.
     mreturn ReplyEmpty))))"

text \<open>
  \<^verbatim>\<open>destroyVault\<close>: lock, close, remove every copy, reopen an empty database. The loop tries all
  four files and only then looks at the errors.
\<close>

fun remove_all :: "string list \<Rightarrow> (('m, 'a) fsys_scheme, err, err list) prog" where
  "remove_all [] = mreturn []"
| "remove_all (p # ps) =
     mbind (attempt (remove_file p)) (\<lambda>r.
     mbind (remove_all ps) (\<lambda>errs.
     mreturn (case r of Inl e \<Rightarrow> e # errs | Inr _ \<Rightarrow> errs)))"

definition vault_files :: "string \<Rightarrow> string list" where
  "vault_files p = map (\<lambda>suffix. p @ suffix) ['''', ''-wal'', ''-shm'', ''.recovery'']"

definition reopen :: "deps \<Rightarrow> unit dprog" where
  "reopen D =
     mbind (open_database (dp_files D) (dp_db_path D)) (\<lambda>d.
     mbind (mlift (db_migrate (dp_files D) d)) (\<lambda>d'.
     mbind (store_swap (dp_db_path D) d') (\<lambda>_. reset)))"

definition destroy_vault :: "deps \<Rightarrow> unit dprog" where
  "destroy_vault D =
     mbind lock (\<lambda>_.
     mbind (store_close (dp_files D)) (\<lambda>_.
     mbind (remove_all (vault_files (dp_db_path D))) (\<lambda>errs.
     mbind (mguard (errs = []) ErrIO) (\<lambda>_.
     mbind (reopen D) (\<lambda>_.
     mmodify (\<lambda>s. s\<lparr>stopping := True\<rparr>))))))"

definition restore_vault :: "deps \<Rightarrow> bytes \<Rightarrow> unit dprog" where
  "restore_vault D snap =
     mbind lock (\<lambda>_.
     mbind (store_close (dp_files D)) (\<lambda>_.
     mbind (attempt (restore_snapshot snap (dp_db_path D) (check_candidate (dp_files D)))) (\<lambda>r. case r of
       Inl e \<Rightarrow>
         mbind (attempt (open_database (dp_files D) (dp_db_path D))) (\<lambda>r. case r of
           Inl _ \<Rightarrow> mthrow e
         | Inr d \<Rightarrow> mbind (store_swap (dp_db_path D) d) (\<lambda>_. mthrow e))
     | Inr _ \<Rightarrow> reopen D)))"

definition op_destroy :: "deps \<Rightarrow> bytes \<Rightarrow> reply dprog" where
  "op_destroy D payload =
     mbind (mlift (decode (un_password (dp_wire D)) payload)) (\<lambda>password.
     mbind (verify_password (dp_crypto D) (str_bytes password)) (\<lambda>_.
     mbind (note_event (dp_crypto D) SeverityCritical EventVaultDestroyed) (\<lambda>_.
     mbind (destroy_vault D) (\<lambda>_. mreturn ReplyEmpty))))"

section \<open>Record operations\<close>

definition op_create :: "deps \<Rightarrow> bytes \<Rightarrow> bool \<Rightarrow> reply dprog" where
  "op_create D payload login_only =
     mbind (mlift (decode (un_fields (dp_wire D)) payload)) (\<lambda>p.
     let ty = (if rf_type p = '''' \<or> login_only then type_login else rf_type p) in
     mbind (mlift (fields_to_domain (dp_web D) p)) (\<lambda>(meta, sec).
     mbind (create_record (dp_crypto D) (dp_json D) (dp_web D) ty meta sec) (\<lambda>i.
     mreturn (ReplyId (id_string i)))))"

definition parse_id :: "string \<Rightarrow> ident dprog" where
  "parse_id text = replace_error ErrValidation (mlift (id_from_string text))"

definition op_update :: "deps \<Rightarrow> bytes \<Rightarrow> bool \<Rightarrow> reply dprog" where
  "op_update D payload login_only =
     mbind (mlift (decode (un_update (dp_wire D)) payload)) (\<lambda>p.
     mbind (parse_id (up_id p)) (\<lambda>i.
     mbind (if login_only
            then mbind (show_entry i) (\<lambda>e. mguard (ie_type e = type_login) ErrAuthorizationDeny)
            else mreturn ()) (\<lambda>_.
     mbind (mlift (fields_to_domain (dp_web D) (up_fields p))) (\<lambda>(meta, sec).
     mbind (update_record_op (dp_crypto D) (dp_json D) (dp_web D) i (up_expected_revision p) meta sec) (\<lambda>_.
     mreturn ReplyEmpty)))))"

definition op_delete :: "deps \<Rightarrow> bytes \<Rightarrow> reply dprog" where
  "op_delete D payload =
     mbind (mlift (decode (un_id (dp_wire D)) payload)) (\<lambda>text.
     mbind (parse_id text) (\<lambda>i.
     mbind (delete_record_op (dp_crypto D) (dp_web D) i) (\<lambda>_. mreturn ReplyEmpty)))"

definition op_list :: "reply dprog" where
  "op_list = mbind list_entries (\<lambda>es. mreturn (ReplyRecords (to_record_views es)))"

definition op_search :: "deps \<Rightarrow> bytes \<Rightarrow> reply dprog" where
  "op_search D payload =
     mbind (mlift (decode (un_query (dp_wire D)) payload)) (\<lambda>query.
     mbind (search_entries (dp_web D) query) (\<lambda>es. mreturn (ReplyRecords (to_record_views es))))"

definition op_match :: "deps \<Rightarrow> bytes \<Rightarrow> reply dprog" where
  "op_match D payload =
     mbind (mlift (decode (un_origin (dp_wire D)) payload)) (\<lambda>(page, project).
     mbind (match_entries (dp_web D) page project) (\<lambda>rs. mreturn (ReplyRecords (to_match_views rs))))"

definition op_show :: "deps \<Rightarrow> bytes \<Rightarrow> reply dprog" where
  "op_show D payload =
     mbind (mlift (decode (un_ref (dp_wire D)) payload)) (\<lambda>ref.
     mbind (resolve_entry (dp_web D) ref) (\<lambda>e. mreturn (ReplyRecord (to_record_view e))))"

definition op_reveal :: "deps \<Rightarrow> bytes \<Rightarrow> reply dprog" where
  "op_reveal D payload =
     mbind (mlift (decode (un_ref (dp_wire D)) payload)) (\<lambda>ref.
     mbind (resolve_entry (dp_web D) ref) (\<lambda>e.
     mbind (reveal (dp_crypto D) (dp_json D) (ie_id e)) (\<lambda>sec.
     mreturn (ReplySecret (to_secret_view sec)))))"

definition op_reveal_for_origin :: "deps \<Rightarrow> bytes \<Rightarrow> reply dprog" where
  "op_reveal_for_origin D payload =
     mbind (mlift (decode (un_reveal_for_origin (dp_wire D)) payload)) (\<lambda>(text, page, project).
     mbind (parse_id text) (\<lambda>i.
     mbind (reveal_for_origin (dp_crypto D) (dp_json D) (dp_web D) i page project) (\<lambda>sec.
     mbind (attempt (show_entry i)) (\<lambda>r.
     let username = (case r of Inl _ \<Rightarrow> '''' | Inr e \<Rightarrow> md_username (ie_metadata e)) in
     mreturn (ReplyLogin username (sp_password sec))))))"

definition chosen_options :: "generate_payload \<Rightarrow> generate_options" where
  "chosen_options p =
     (let base = default_generate_options;
          sized = (if gp_length p > 0 then base\<lparr>go_length := gp_length p\<rparr> else base) in
      if gp_default p then base
      else if gp_upper p \<or> gp_lower p \<or> gp_digits p \<or> gp_symbols p
      then sized\<lparr>go_upper := gp_upper p, go_lower := gp_lower p, go_digits := gp_digits p, go_symbols := gp_symbols p\<rparr>
      else sized)"

definition op_generate :: "deps \<Rightarrow> bytes \<Rightarrow> reply dprog" where
  "op_generate D payload =
     mbind (if payload = [] then mreturn default_generate_options
            else mbind (mlift (decode (un_generate (dp_wire D)) payload)) (\<lambda>p. mreturn (chosen_options p))) (\<lambda>opts.
     mbind (generate_password opts) (\<lambda>pw. mreturn (ReplyPassword pw)))"

section \<open>Client operations\<close>

definition op_pair :: "deps \<Rightarrow> bytes \<Rightarrow> reply dprog" where
  "op_pair D payload =
     mbind (mlift (decode (un_pair (dp_wire D)) payload)) (\<lambda>p.
     mbind (mlift (case hex_decode (pr_static_key p) of None \<Rightarrow> Inl ErrValidation | Some b \<Rightarrow> Inr b)) (\<lambda>static_key.
     mbind (mget (\<lambda>s. cs_static_key (conn s))) (\<lambda>own.
     mbind (mguard (static_key = own) ErrValidation) (\<lambda>_.
     mbind (request_pairing (dp_crypto D) (pr_kind p) (pr_label p) static_key) (\<lambda>q.
     mbind (note_event (dp_crypto D) SeverityInfo EventClientPairingRequested) (\<lambda>_.
     mreturn (ReplyPairing (id_string (pp_id q)) (pp_phrase q))))))))"

definition op_claim :: "deps \<Rightarrow> bytes \<Rightarrow> reply dprog" where
  "op_claim D payload =
     mbind (mlift (decode (un_pairing_id (dp_wire D)) payload)) (\<lambda>text.
     mbind (parse_id text) (\<lambda>i.
     mbind (claim_credential i) (\<lambda>(client_id, credential).
     mreturn (ReplyCredential (id_string client_id) (hex_encode credential) (hex_encode (dp_static_public D))))))"

definition op_cancel :: "deps \<Rightarrow> bytes \<Rightarrow> reply dprog" where
  "op_cancel D payload =
     mbind (mlift (decode (un_pairing_id (dp_wire D)) payload)) (\<lambda>text.
     mbind (parse_id text) (\<lambda>i.
     mbind (cancel_pairing i) (\<lambda>_. mreturn ReplyEmpty)))"

definition to_pending_view :: "pending_pairing \<Rightarrow> pending_view" where
  "to_pending_view p = \<lparr>pv_pairing_id = id_string (pp_id p), pv_kind = pp_kind p,
     pv_kind_name = kind_string (pp_kind p), pv_label = pp_label p, pv_phrase = pp_phrase p,
     pv_capabilities = capability_names (default_capabilities (pp_kind p))\<rparr>"

definition op_pending :: "reply dprog" where
  "op_pending = mbind list_pending (\<lambda>ps. mreturn (ReplyPending (map to_pending_view ps)))"

definition op_approve :: "deps \<Rightarrow> bytes \<Rightarrow> reply dprog" where
  "op_approve D payload =
     mbind (mlift (decode (un_pairing_id (dp_wire D)) payload)) (\<lambda>text.
     mbind (parse_id text) (\<lambda>i.
     mbind (approve (dp_crypto D) i) (\<lambda>_.
     mbind (note_event (dp_crypto D) SeverityInfo EventClientApproved) (\<lambda>_. mreturn ReplyEmpty))))"

definition op_revoke :: "deps \<Rightarrow> bytes \<Rightarrow> reply dprog" where
  "op_revoke D payload =
     mbind (mlift (decode (un_id (dp_wire D)) payload)) (\<lambda>text.
     mbind (parse_id text) (\<lambda>i.
     mbind (revoke (dp_crypto D) i) (\<lambda>_.
     mbind (drop_client i) (\<lambda>_.
     mbind (note_event (dp_crypto D) SeverityInfo EventClientRevoked) (\<lambda>_. mreturn ReplyEmpty)))))"

definition to_client_view :: "client_info \<Rightarrow> client_view" where
  "to_client_view c = \<lparr>cv_id = id_string (ci_id c), cv_kind = ci_kind c, cv_status = ci_status c, cv_label = ci_label c,
     cv_last_seen_ms = (if ci_last_seen c = zero_time then 0 else unix_milli (ci_last_seen c))\<rparr>"

definition op_clients :: "deps \<Rightarrow> reply dprog" where
  "op_clients D = mbind (list_client_infos (dp_crypto D)) (\<lambda>cs. mreturn (ReplyClients (map to_client_view cs)))"

section \<open>Backup and events\<close>

definition op_backup_create :: "deps \<Rightarrow> bytes \<Rightarrow> reply dprog" where
  "op_backup_create D payload =
     mbind (mlift (decode (un_path (dp_wire D)) payload)) (\<lambda>path.
     mbind (backup_create (dp_crypto D) (dp_files D) path) (\<lambda>_.
     mbind (note_event (dp_crypto D) SeverityInfo EventBackupCreated) (\<lambda>_. mreturn (ReplyPath path))))"

definition op_backup_verify :: "deps \<Rightarrow> bytes \<Rightarrow> reply dprog" where
  "op_backup_verify D payload =
     mbind (mlift (decode (un_path (dp_wire D)) payload)) (\<lambda>path.
     mbind (backup_verify (dp_crypto D) (dp_files D) path) (\<lambda>(info, _).
     mreturn (ReplyBackup (id_string (bi_vault_id info)) (bi_created_at_ms info) (bi_snapshot_len info))))"

definition op_backup_restore :: "deps \<Rightarrow> bytes \<Rightarrow> reply dprog" where
  "op_backup_restore D payload =
     mbind (mlift (decode (un_path (dp_wire D)) payload)) (\<lambda>path.
     mbind (backup_verify (dp_crypto D) (dp_files D) path) (\<lambda>(_, snap).
     mbind (restore_vault D snap) (\<lambda>_.
     mbind (note_event (dp_crypto D) SeverityInfo EventBackupRestored) (\<lambda>_. mreturn ReplyEmpty))))"

definition to_event_view :: "event \<Rightarrow> event_view" where
  "to_event_view e = \<lparr>evv_sequence = ev_sequence e, evv_occurred_ms = unix_milli (ev_occurred_at e),
     evv_severity = ev_severity e, evv_code = ev_code e, evv_details = ev_details e\<rparr>"

definition event_limit :: "deps \<Rightarrow> bytes \<Rightarrow> i64" where
  "event_limit D payload =
     (if payload = [] then 50
      else case decode (un_limit (dp_wire D)) payload of
        Inl _ \<Rightarrow> 50
      | Inr n \<Rightarrow> if sint n > 0 then n else 50)"

definition op_events :: "deps \<Rightarrow> bytes \<Rightarrow> reply dprog" where
  "op_events D payload =
     mbind (recent (dp_crypto D) (event_limit D payload)) (\<lambda>es.
     mreturn (ReplyEvents (map to_event_view es)))"

section \<open>Dispatch\<close>

definition dispatch :: "deps \<Rightarrow> string \<Rightarrow> bytes \<Rightarrow> reply dprog" where
  "dispatch D oper payload =
     (if oper = ''vault.status'' then op_status
      else if oper = ''vault.init'' then op_init D payload
      else if oper = ''vault.unlock'' then op_unlock D payload
      else if oper = ''vault.lock'' then op_lock D EventVaultLocked
      else if oper = ''vault.panic'' then op_lock D EventVaultPanicLocked
      else if oper = ''vault.changePassword'' then op_change_password D payload
      else if oper = ''vault.destroy'' then op_destroy D payload
      else if oper = ''records.create'' then op_create D payload False
      else if oper = ''records.createLogin'' then op_create D payload True
      else if oper = ''records.update'' then op_update D payload False
      else if oper = ''records.updateLogin'' then op_update D payload True
      else if oper = ''records.delete'' then op_delete D payload
      else if oper = ''records.list'' then op_list
      else if oper = ''records.search'' then op_search D payload
      else if oper = ''records.match'' then op_match D payload
      else if oper = ''records.show'' then op_show D payload
      else if oper = ''records.reveal'' then op_reveal D payload
      else if oper = ''records.revealForOrigin'' then op_reveal_for_origin D payload
      else if oper = ''password.generate'' then op_generate D payload
      else if oper = ''clients.pair'' then op_pair D payload
      else if oper = ''clients.claim'' then op_claim D payload
      else if oper = ''clients.cancel'' then op_cancel D payload
      else if oper = ''clients.pending'' then op_pending
      else if oper = ''clients.approve'' then op_approve D payload
      else if oper = ''clients.revoke'' then op_revoke D payload
      else if oper = ''clients.list'' then op_clients D
      else if oper = ''backup.create'' then op_backup_create D payload
      else if oper = ''backup.verify'' then op_backup_verify D payload
      else if oper = ''backup.restore'' then op_backup_restore D payload
      else if oper = ''events.recent'' then op_events D payload
      else mthrow ErrValidation)"

text \<open>The part of \<^verbatim>\<open>Handle\<close> that decides whether the request may run.\<close>

definition admit :: "deps \<Rightarrow> string \<Rightarrow> unit dprog" where
  "admit D oper =
     mbind (mget (\<lambda>s. cs_pairing (conn s))) (\<lambda>pairing.
     if pairing then
       (if oper \<in> set pairing_ops then mreturn ()
        else mbind (note_event (dp_crypto D) SeverityWarning EventUnauthorizedRequest) (\<lambda>_.
             mthrow ErrAuthorizationDeny))
     else (case map_of required_capability oper of
       None \<Rightarrow> mthrow ErrValidation
     | Some cap \<Rightarrow>
         mbind (attempt (authorize oper cap)) (\<lambda>r. case r of
           Inr _ \<Rightarrow> mreturn ()
         | Inl e \<Rightarrow>
             mbind (note_event (dp_crypto D) SeverityWarning EventUnauthorizedRequest) (\<lambda>_. mthrow e))))"

definition answer :: "deps \<Rightarrow> string \<Rightarrow> err + reply \<Rightarrow> response" where
  "answer D request_id r =
     (case r of
        Inl e \<Rightarrow> err_response request_id e
      | Inr data \<Rightarrow>
          (case ok_response (json_reply (dp_wire D)) request_id data of
             Inl e \<Rightarrow> err_response request_id e
           | Inr resp \<Rightarrow> resp))"

definition handle :: "deps \<Rightarrow> bytes \<Rightarrow> response dprog" where
  "handle D raw =
     (case un_request (dp_wire D) raw of
        None \<Rightarrow> mreturn (err_response '''' ErrValidation)
      | Some req \<Rightarrow>
          if rq_protocol_version req \<noteq> protocol_version
          then mreturn (err_response (rq_request_id req) ErrValidation)
          else
            mbind (attempt (mbind (admit D (rq_operation req)) (\<lambda>_.
                     dispatch D (rq_operation req) (rq_payload req)))) (\<lambda>r.
            mreturn (answer D (rq_request_id req) r)))"

section \<open>Connections\<close>

text \<open>\<^verbatim>\<open>lookupClient\<close>: the PSK and the pinned static key for the handshake of a paired client.\<close>

definition lookup_client :: "hello \<Rightarrow> (bytes \<times> bytes) dprog" where
  "lookup_client h =
     (if he_mode h \<noteq> mode_paired then mthrow ErrUnknownMode else
      mbind (replace_error ErrClientNotFound (mlift (id_from_string (he_client_id h)))) (\<lambda>i.
      mbind (lookup i) (\<lambda>c.
      mbind (mguard (is_approved c) ErrAuthorizationDeny) (\<lambda>_.
      mreturn (cl_credential_hash c, cl_static_key c)))))"

definition build_conn_state :: "hello \<Rightarrow> bytes \<Rightarrow> conn_state dprog" where
  "build_conn_state h remote_static =
     mbind (mget (\<lambda>s. v_epoch (vault s))) (\<lambda>epoch.
     if he_mode h = mode_cli then
       mbind (issue zero_id cli_capabilities epoch) (\<lambda>se.
       mreturn \<lparr>cs_session = Some se, cs_client_id = zero_id, cs_pairing = False, cs_static_key = remote_static\<rparr>)
     else if he_mode h = mode_pairing then
       mreturn \<lparr>cs_session = None, cs_client_id = zero_id, cs_pairing = True, cs_static_key = remote_static\<rparr>
     else if he_mode h = mode_paired then
       mbind (replace_error ErrClientNotFound (mlift (id_from_string (he_client_id h)))) (\<lambda>i.
       mbind (lookup i) (\<lambda>c.
       mbind (issue i (cl_capabilities c) epoch) (\<lambda>se.
       mbind (ignore_error (touch_last_seen i)) (\<lambda>_.
       mreturn \<lparr>cs_session = Some se, cs_client_id = i, cs_pairing = False, cs_static_key = remote_static\<rparr>))))
     else mthrow ErrUnknownMode)"

section \<open>The idle lock\<close>

definition enforce_idle_lock :: "deps \<Rightarrow> go_time \<Rightarrow> bool dprog" where
  "enforce_idle_lock D t =
     mbind (mget (\<lambda>s. (is_unlocked (vault s), v_auto_lock_after (vault s)))) (\<lambda>(unlocked, window).
     if \<not> unlocked \<or> window \<le> 0 then mreturn False else
     mbind last_activity (\<lambda>latest.
     if (case latest of None \<Rightarrow> False | Some l \<Rightarrow> t - l < window) then mreturn False else
     mbind lock (\<lambda>_.
     mbind (note_event (dp_crypto D) SeverityInfo EventVaultLocked) (\<lambda>_. mreturn True))))"

end
