(* ===== verification/Frames.thy ===== *)
theory Frames
  imports Daemon
begin

text \<open>
  What a relation between the state before and after has to admit so that every operation of
  the services respects it. The locale names the primitive steps the services are built from;
  its lemmas go through the services once, and each invariant of the daemon is an
  interpretation.
\<close>

section \<open>Primitive steps\<close>

text \<open>A step on the fields of the vault service only.\<close>

definition vault_step :: "('m, 'a) vsys_scheme \<Rightarrow> ('m, 'a) vsys_scheme \<Rightarrow> bool" where
  "vault_step s t \<longleftrightarrow> fixed (s\<lparr>db := db t\<rparr>) = fixed s \<and> db t = db s \<and> now t = now s \<and> io_ok t = io_ok s \<and> io_pos t = io_pos s \<and>
     db_open t = db_open s \<and> rnd_src t = rnd_src s \<and> rnd_ok t = rnd_ok s \<and> rnd_pos t = rnd_pos s \<and>
     on_lock t = on_lock s \<and> mem t = mem s \<and> vsys.more t = vsys.more s"

text \<open>A step on the memory of the other services only.\<close>

definition mem_step :: "('m, 'a) vsys_scheme \<Rightarrow> ('m, 'a) vsys_scheme \<Rightarrow> bool" where
  "mem_step s t \<longleftrightarrow> (\<exists>m. t = s\<lparr>mem := m\<rparr>)"

text \<open>What a step is known to return may be used for the rest.\<close>

lemma keeps_fine:
  assumes "obeys (keeps_inv I) m" and "\<And>s x t. I s \<Longrightarrow> m s = (Inr x, t) \<Longrightarrow> fine x"
    and "\<And>x. fine x \<Longrightarrow> obeys (keeps_inv I) (f x)"
  shows "obeys (keeps_inv I) (mbind m f)"
proof (rule keeps_post [where J = "\<lambda>x s. I s \<and> fine x", OF assms(1)], goal_cases)
  case (1 s x t)
  then show ?case using inv_okD [OF assms(1)] assms(2) by blast
next
  case (2 x)
  then show ?case using assms(3) [of x] by (cases "fine x") (simp_all add: obeys_def keeps_inv_def)
qed simp

text \<open>The generator only draws random bytes.\<close>

lemma generate_obeys:
  assumes "effect R" and r: "\<And>n. obeys R (random_bytes n)"
  shows "obeys R (generate_password opts)"
proof -
  note ok = effect.ok_intros [OF assms(1)]
  have i: "obeys R (rand_int n)" for n unfolding rand_int_def by (intro ok r)
  have p: "obeys R (pick_chars cs e i n)" for cs e i n
    by (induction n arbitrary: i) (auto simp: Let_def intro: ok i)
  have s: "obeys R (shuffle k xs)" for k and xs :: string
    by (induction k arbitrary: xs) (auto intro: ok i)
  show ?thesis unfolding generate_password_def Let_def by (intro ok p s)
qed

locale service_effect = effect R for R :: "dstate \<Rightarrow> dstate \<Rightarrow> bool" +
  assumes step_io: "R s (s\<lparr>io_pos := n\<rparr>)"
    and step_rnd: "R s (s\<lparr>rnd_pos := n\<rparr>)"
    and step_rollback: "R s t \<Longrightarrow> R s (t\<lparr>db := db s\<rparr>)"
    and step_vault: "vault_step s t \<Longrightarrow> R s t"
    and step_mem: "mem_step s t \<Longrightarrow> R s t"
    and step_insert_vault: "obeys R (insert_vault v)"
    and step_active: "obeys R (set_active_envelope w u)"
    and step_insert_envelope: "obeys R (insert_key_envelope e)"
    and step_delete_envelope: "obeys R (delete_key_envelope w)"
    and step_insert_record: "obeys R (insert_record r)"
    and step_update_record: "obeys R (Store.update_record r w)"
    and step_delete_record: "obeys R (Store.delete_record i)"
    and step_event: "obeys R (insert_security_event x)"
    and step_state: "obeys R (upsert_vault_state y)"
begin

lemma step_random: "obeys R (random_bytes n)"
  by (rule okI) (simp add: random_bytes_def step_rnd)

lemma step_io_step: "obeys R io_step"
  by (rule okI) (simp add: io_step_def step_io)

lemma step_query: "obeys R (sql_query f)"
  unfolding sql_query_def by (intro ok_intros step_io_step)

lemma step_tx:
  fixes m :: "'r dprog"
  assumes "obeys R m"
  shows "obeys R (with_tx m)"
proof -
  have body: "obeys R (\<lambda>s. rollback_to (db s) (mbind m (\<lambda>x. mbind io_step (\<lambda>_. mreturn x))) s)"
  proof (rule okI)
    fix s
    let ?b = "mbind m (\<lambda>x. mbind io_step (\<lambda>_. mreturn x))"
    have "obeys R ?b" by (intro ok_intros step_io_step assms)
    then have "R s (snd (?b s))" by (simp add: obeys_def)
    then show "R s (snd (rollback_to (db s) ?b s))"
      using snd_rollback_to [of "db s" ?b s] step_rollback by metis
  qed
  have "with_tx m = mbind (mget db_open) (\<lambda>opened. mbind (mguard opened Panic) (\<lambda>_. mbind io_step
      (\<lambda>_ s. rollback_to (db s) (mbind m (\<lambda>x. mbind io_step (\<lambda>_. mreturn x))) s)))"
    by (rule ext) (simp add: with_tx_def mbind_unfold prog_simps split: prod.split sum.split)
  then show ?thesis by (simp only:) (intro ok_intros step_io_step body)
qed

lemma step_read: "obeys R m \<Longrightarrow> obeys R (read_tx m)"
  unfolding read_tx_def by (intro ok_intros step_io_step)

lemma q_steps:
  "obeys R get_vault" "obeys R (get_key_envelope w)" "obeys R list_key_envelope_versions" "obeys R (get_record i)"
  "obeys R list_records" "obeys R count_records" "obeys R (get_client i)" "obeys R list_clients"
  "obeys R (list_security_events w)" "obeys R list_records_for_root" "obeys R list_clients_for_root"
  "obeys R (get_active_envelope_digest w)" "obeys R get_vault_state"
  unfolding query_defs by (rule step_query)+

lemma new_steps: "obeys R new_id" "obeys R new_key" "obeys R new_nonce" "obeys R new_salt" "obeys R new_credential"
  unfolding new_defs by (rule step_random)+

lemma modify_vault: "(\<And>s. vault_step s (g s)) \<Longrightarrow> obeys R (mmodify g)"
  by (rule ok_modify) (rule step_vault)

lemma modify_mem: "(\<And>s. mem_step s (g s)) \<Longrightarrow> obeys R (mmodify g)"
  by (rule ok_modify) (rule step_mem)

lemma err_steps:
  "obeys R m \<Longrightarrow> obeys R (attempt m)" "obeys R m \<Longrightarrow> obeys R (replace_error e m)" "obeys R m \<Longrightarrow> obeys R (ignore_error m)"
  by (rule ok_attempt ok_replace_error ok_ignore_error; assumption)+

lemma catalog_steps:
  "obeys R load" "obeys R (stamp P k vid ev t)" "obeys R (verify P k vid ev)"
  "obeys R (root P k vid ev n)"
proof -
  show l: "obeys R load" unfolding load_def by (intro ok_intros err_steps q_steps)
  show r: "obeys R (root P k vid ev n)" for n unfolding root_def by (intro ok_intros err_steps q_steps)
  show "obeys R (stamp P k vid ev t)" unfolding stamp_def Let_def by (intro ok_intros err_steps l r step_state)
  show "obeys R (verify P k vid ev)" unfolding verify_def by (intro ok_intros err_steps l r)
qed

lemma vault_basic:
  "obeys R (set_vault v)" "obeys R (note_counter n)" "obeys R unlock_failed" "obeys R keys" "obeys R vault_info"
  "obeys R (build_envelope P vid ev rk pw params)" "obeys R lock" "obeys R panic_lock" "obeys R reset"
proof -
  show "obeys R (set_vault v)" unfolding set_vault_def by (rule modify_vault) (simp add: vault_step_def)
  show "obeys R (note_counter n)" unfolding note_counter_def by (rule modify_vault) (simp add: vault_step_def)
  show "obeys R unlock_failed" unfolding unlock_failed_def
    by (intro ok_bind ok_throw modify_vault) (simp_all add: vault_step_def)
  show "obeys R keys" unfolding keys_def by (intro ok_intros)
  show "obeys R vault_info" unfolding vault_info_def by (intro ok_intros)
  show "obeys R (build_envelope P vid ev rk pw params)" unfolding build_envelope_def by (intro ok_intros new_steps)
  have "R s (run_on_lock (lock_fields s))" for s
    by (rule trans [of _ "lock_fields s"], rule step_vault, simp add: vault_step_def lock_fields_def,
        rule step_mem, auto simp: mem_step_def run_on_lock_def)
  then show l: "obeys R lock" unfolding lock_def by (rule ok_modify)
  then show "obeys R panic_lock" by (simp add: panic_lock_def)
  show "obeys R reset" unfolding reset_def by (intro ok_bind l modify_vault) (simp_all add: vault_step_def)
qed

lemma vault_steps:
  "obeys R load_vault" "obeys R vault_status" "obeys R (vault_init P pw params)" "obeys R (unlock P pw)"
  "obeys R (stamp_locked P kr)" "obeys R (verify_catalog P)" "obeys R (change_master_password P pw pw' params)"
  "obeys R (verify_password P pw)"
proof -
  show l: "obeys R load_vault" unfolding load_vault_def by (intro ok_intros err_steps q_steps vault_basic)
  show "obeys R vault_status" unfolding vault_status_def by (intro ok_intros err_steps q_steps l)
  show "obeys R (vault_init P pw params)" unfolding vault_init_def
    by (intro ok_intros err_steps l vault_basic new_steps step_tx step_insert_vault step_insert_envelope catalog_steps)
  show "obeys R (unlock P pw)" unfolding unlock_def open_vault_def [symmetric]
    by (intro ok_intros err_steps l vault_basic q_steps modify_vault) (simp add: vault_step_def open_vault_def)
  show s: "obeys R (stamp_locked P kr)" for kr unfolding stamp_locked_def
    by (intro ok_intros vault_basic step_tx catalog_steps)
  show "obeys R (verify_catalog P)" unfolding verify_catalog_def
    by (intro ok_intros err_steps vault_basic step_read catalog_steps s modify_vault) (simp add: vault_step_def)
  show "obeys R (change_master_password P pw pw' params)" unfolding change_master_password_def Let_def
    by (intro ok_intros err_steps l q_steps vault_basic step_tx step_insert_envelope step_active step_delete_envelope
        catalog_steps modify_vault) (simp add: vault_step_def)
  show "obeys R (verify_password P pw)" unfolding verify_password_def by (intro ok_intros err_steps l q_steps)
qed

lemma record_basic:
  "obeys R (with_index f)" "obeys R (records_stamp P kr)" "obeys R (note_stamped n)" "obeys R (validated rec)"
  "obeys R (encrypt_record P J kr rec)" "obeys R act \<Longrightarrow> obeys R (stamped_change P kr act)"
proof -
  show "obeys R (with_index f)" unfolding with_index_def by (rule modify_mem) (auto simp: mem_step_def)
  show s: "obeys R (records_stamp P kr)" unfolding records_stamp_def by (intro ok_intros vault_basic catalog_steps)
  show "obeys R (note_stamped n)" unfolding note_stamped_def by (intro ok_intros vault_basic)
  show "obeys R (validated rec)" unfolding validated_def by (intro ok_intros)
  show "obeys R (encrypt_record P J kr rec)" unfolding encrypt_record_def Let_def by (intro ok_intros vault_basic new_steps)
  show "obeys R (stamped_change P kr act)" if "obeys R act"
    unfolding stamped_change_def by (intro step_tx ok_intros that s)
qed

lemma record_steps:
  "obeys R (create_record P J W ty meta sec)" "obeys R (update_record_op P J W i w meta sec)" "obeys R (delete_record_op P W i)"
  "obeys R (load_index P J W)" "obeys R list_entries" "obeys R (search_entries W qs)" "obeys R (match_entries W po pid)"
  "obeys R (show_entry i)" "obeys R (resolve_entry W qs)" "obeys R (reveal P J i)" "obeys R (reveal_for_origin P J W i po pid)"
proof -
  show "obeys R (create_record P J W ty meta sec)" unfolding create_record_def Let_def
    by (intro ok_intros vault_basic new_steps record_basic step_tx step_insert_record)
  show "obeys R (update_record_op P J W i w meta sec)" unfolding update_record_op_def Let_def the_index_def
    by (intro ok_intros vault_basic record_basic step_update_record)
  show "obeys R (delete_record_op P W i)" unfolding delete_record_op_def
    by (intro ok_intros vault_basic record_basic step_delete_record)
  show "obeys R (load_index P J W)" unfolding load_index_def load_row_def
    by (intro ok_intros vault_basic record_basic q_steps)
  show "obeys R list_entries" "obeys R (search_entries W qs)" "obeys R (match_entries W po pid)"
    "obeys R (show_entry i)"
    unfolding list_entries_def search_entries_def match_entries_def show_entry_def the_index_def
    by (intro ok_intros vault_basic)+
  show "obeys R (resolve_entry W qs)" unfolding resolve_entry_def the_index_def
    by (intro ok_intros vault_basic) (auto split: list.split intro: ok_return ok_throw)
  show r: "obeys R (reveal P J i)" unfolding reveal_def by (intro ok_intros err_steps vault_basic q_steps)
  show "obeys R (reveal_for_origin P J W i po pid)" unfolding reveal_for_origin_def the_index_def
    by (intro ok_intros vault_basic r)
qed

lemma mem_steps: "obeys R (with_sessions f)" "obeys R (with_pending g)"
  unfolding with_sessions_def with_pending_def by (rule modify_mem, auto simp: mem_step_def)+

lemma access_steps:
  "obeys R (issue c caps epoch)" "obeys R (validate i epoch b)" "obeys R last_activity" "obeys R (drop_client c)"
  "obeys R (request_pairing P kind label key)" "obeys R list_pending" "obeys R (cancel_pairing i)" "obeys R (claim_credential i)"
  "obeys R (lookup i)" "obeys R audit_keys" "obeys R (list_client_infos P)"
proof -
  show "obeys R (issue c caps epoch)" "obeys R (validate i epoch b)" "obeys R last_activity" "obeys R (drop_client c)"
    unfolding access_op_defs Let_def by (intro ok_intros new_steps mem_steps)+
  show "obeys R (request_pairing P kind label key)" unfolding access_op_defs Let_def by (intro ok_intros new_steps mem_steps)
  show "obeys R list_pending" unfolding access_op_defs by (intro ok_intros)
  show "obeys R (cancel_pairing i)" unfolding access_op_defs by (intro ok_intros mem_steps)
  show "obeys R (claim_credential i)" unfolding access_op_defs by (intro ok_intros mem_steps)
  show "obeys R (lookup i)" unfolding lookup_def by (intro ok_intros err_steps q_steps)
  show a: "obeys R audit_keys" unfolding audit_keys_def by (intro ok_intros err_steps vault_basic)
  show "obeys R (list_client_infos P)" unfolding list_client_infos_def by (intro ok_intros q_steps a)
qed

lemma event_steps: "obeys R (note_event P sev code)" "obeys R (recent P limit)"
proof -
  have d: "obeys R (seal_details P code details)" for details unfolding seal_details_def
    by (intro ok_intros err_steps vault_basic new_steps)
  show "obeys R (note_event P sev code)" unfolding note_event_def record_event_def
    by (intro ok_intros err_steps d step_tx step_event)
  show "obeys R (recent P limit)" unfolding recent_def by (intro ok_intros q_steps access_steps)
qed

lemma generate_steps: "obeys R (generate_password opts)"
  by (rule generate_obeys [OF effect_axioms step_random])

end

section \<open>Files\<close>

text \<open>The same for the steps on files and on the handle of the database.\<close>

locale file_effect = effect R for R :: "dstate \<Rightarrow> dstate \<Rightarrow> bool" +
  assumes step_io: "R s (s\<lparr>io_pos := n\<rparr>)"
    and step_files: "R s (s\<lparr>files := f\<rparr>)"
    and step_close: "R s (s\<lparr>db_open := False\<rparr>)"
begin

lemma step_io_step: "obeys R io_step"
  by (rule okI) (simp add: io_step_def step_io)

lemma guard_steps: "obeys R keys" "obeys R vault_info"
  unfolding keys_def vault_info_def by (intro ok_intros)+

lemma err_steps:
  "obeys R m \<Longrightarrow> obeys R (attempt m)" "obeys R m \<Longrightarrow> obeys R (replace_error e m)" "obeys R m \<Longrightarrow> obeys R (ignore_error m)"
  by (rule ok_attempt ok_replace_error ok_ignore_error; assumption)+

lemma io_files: "R s (s\<lparr>io_pos := n, files := f\<rparr>)"
  using trans [OF step_io step_files] by blast

lemma file_basic:
  "obeys R (read_file F p)" "obeys R (write_file p b)" "obeys R (rename_file p q)" "obeys R (remove_file p)"
  "obeys R (file_exists p)" "obeys R (snapshot F p)" "obeys R (open_database F p)" "obeys R (store_close F)"
proof -
  show "obeys R (read_file F p)" unfolding read_file_def by (intro ok_intros step_io_step)
  show w: "obeys R (write_file p b)" for b
    by (rule okI) (simp add: write_file_def io_files step_io split: option.split)
  show "obeys R (rename_file p q)" unfolding rename_file_def
    by (intro ok_intros step_io_step ok_modify step_files)
  show "obeys R (remove_file p)" unfolding remove_file_def by (intro ok_intros step_io_step ok_modify step_files)
  show "obeys R (file_exists p)" unfolding file_exists_def by (intro ok_intros err_steps step_io_step)
  show "obeys R (snapshot F p)" unfolding snapshot_def by (intro ok_intros w)
  show "obeys R (open_database F p)" unfolding open_database_def
    by (intro ok_intros step_io_step) (auto split: file_content.split intro: ok_return ok_lift)
  show "obeys R (store_close F)" unfolding store_close_def
    by (intro ok_intros step_io_step ok_modify) (rule trans [OF step_close step_files])
qed

lemma ok_finally: "obeys R m \<Longrightarrow> obeys R (finally_remove p m)"
proof (rule okI)
  fix s assume m: "obeys R m"
  obtain r t where e: "m s = (r, t)" by (cases "m s")
  have "R s t" using okD [OF m e] .
  moreover have "R t (snd (remove_file p t))" using file_basic(4) by (simp add: obeys_def)
  ultimately show "R s (snd (finally_remove p m s))" using e trans by (auto simp: finally_remove_def)
qed

lemma backup_steps:
  "obeys R (backup_create P F p)" "obeys R (backup_verify P F p)" "obeys R (check_candidate F p)"
  "(\<And>c. obeys R (check c)) \<Longrightarrow> obeys R (restore_snapshot snap p check)" "obeys R (remove_all ps)"
proof -
  show "obeys R (backup_create P F p)" unfolding backup_create_def Let_def
    by (intro ok_intros ok_finally file_basic guard_steps)
  show "obeys R (backup_verify P F p)" unfolding backup_verify_def by (intro ok_intros file_basic guard_steps)
  show "obeys R (check_candidate F p)" unfolding check_candidate_def by (intro ok_intros file_basic step_io_step)
  show "obeys R (restore_snapshot snap p check)" if "\<And>c. obeys R (check c)"
    unfolding restore_snapshot_def Let_def by (intro ok_intros ok_finally err_steps file_basic that)
  show "obeys R (remove_all ps)" by (induction ps) (auto intro!: ok_intros err_steps file_basic)
qed

end

end
