(* ===== verification/Daemon_Inv.thy ===== *)
theory Daemon_Inv
  imports Frames
begin

text \<open>
  What every operation of the daemon keeps: the keys are in memory exactly while the vault is
  unlocked, the index is empty while it is locked, a pending pairing is of a pairable kind, the
  database satisfies its schema, and a client row carries no administrative capability.
\<close>

section \<open>Interpretations\<close>

lemmas primitive_steps = same_on_def keeps_inv_def vault_step_def mem_step_def obeys_def command_defs sql_exec_def
  sql_query_def io_step_def mbind_unfold prog_simps Let_def sbind_def

interpretation clients: service_effect "same_on (\<lambda>s :: dstate. t_clients (db s))"
  by unfold_locales (auto simp: primitive_steps split: if_splits sum.splits prod.splits option.splits)

interpretation hooks: service_effect "same_on (\<lambda>s :: dstate. on_lock s)"
  by unfold_locales (auto simp: primitive_steps split: if_splits sum.splits prod.splits option.splits)

interpretation handle_open: service_effect "same_on (\<lambda>s :: dstate. db_open s)"
  by unfold_locales (auto simp: primitive_steps split: if_splits sum.splits prod.splits option.splits)

interpretation soundness: service_effect "keeps_inv (sound_db :: dstate \<Rightarrow> bool)"
proof unfold_locales
  fix s t :: dstate
  show "vault_step s t \<Longrightarrow> keeps_inv sound_db s t" "mem_step s t \<Longrightarrow> keeps_inv sound_db s t"
    by (auto simp: keeps_inv_def vault_step_def mem_step_def)
qed (auto simp: keeps_inv_def intro: dbwf_commands)

section \<open>The invariant of the memory\<close>

definition lock_hooks :: "(access_mem \<Rightarrow> access_mem) list" where
  "lock_hooks = [clear_index, invalidate_all]"

definition pending_ok :: "access_mem \<Rightarrow> bool" where
  "pending_ok m \<longleftrightarrow> (\<forall>x \<in> set (am_pending m). is_pairable (pp_kind (snd x)))"

definition open_inv :: "crypto_prims \<Rightarrow> dstate \<Rightarrow> bool" where
  "open_inv P s \<longleftrightarrow> key_inv P s \<and> on_lock s = lock_hooks \<and> pending_ok (mem s) \<and> is_unlocked (vault s)"

definition mem_inv :: "crypto_prims \<Rightarrow> dstate \<Rightarrow> bool" where
  "mem_inv P s \<longleftrightarrow> key_inv P s \<and> on_lock s = lock_hooks \<and> pending_ok (mem s) \<and>
     (\<not> is_unlocked (vault s) \<longrightarrow> rec_index (mem s) = new_index)"

lemma mem_inv_more: "env.more s = env.more t \<Longrightarrow> mem_inv P s = mem_inv P t"
  using key_inv_more [of s t P] by (auto simp: mem_inv_def more_vsys [of s t])

lemma open_inv_more: "env.more s = env.more t \<Longrightarrow> open_inv P s = open_inv P t"
  using key_inv_more [of s t P] by (auto simp: open_inv_def more_vsys [of s t])

lemma mem_fixed [intro]: "obeys (same_on fixed) m \<Longrightarrow> obeys (keeps_inv (mem_inv P)) m"
  by (erule fixed_inv) (rule mem_inv_more)
lemma open_fixed [intro]: "obeys (same_on fixed) m \<Longrightarrow> obeys (keeps_inv (open_inv P)) m"
  by (erule fixed_inv) (rule open_inv_more)

text \<open>What asks for the keys first, and leaves the vault unlocked, may do to the index what it
  likes.\<close>

lemma mem_guarded:
  assumes "\<And>kr. obeys (keeps_inv (open_inv P)) (f kr)"
  shows "obeys (keeps_inv (mem_inv P)) (mbind keys f)"
  unfolding obeys_def keeps_inv_def
proof (intro allI impI)
  fix s assume m: "mem_inv P s"
  obtain r t where k: "keys s = (r, t)" by (cases "keys s")
  show "mem_inv P (snd (mbind keys f s))"
  proof (cases r)
    case (Inl e)
    with k have "t = s" by (simp add: keys_Inl_iff)
    with k Inl m show ?thesis by (simp add: mbind_unfold)
  next
    case (Inr kr)
    with k have t: "t = s" and u: "is_unlocked (vault s)" by (simp_all add: keys_Inr_iff)
    from m u have "open_inv P s" by (simp add: mem_inv_def open_inv_def)
    then have "open_inv P (snd (f kr s))" using assms by (simp add: obeys_def keeps_inv_def)
    with k Inr t show ?thesis by (simp add: mbind_unfold mem_inv_def open_inv_def)
  qed
qed

lemma open_modify:
  "obeys (keeps_inv (open_inv P)) (with_index f)" "obeys (keeps_inv (open_inv P)) (note_counter n)"
  "obeys (keeps_inv (open_inv P)) (note_stamped n)"
proof -
  show "obeys (keeps_inv (open_inv P)) (with_index f)"
    by (auto simp: obeys_def keeps_inv_def prog_simps open_inv_def key_inv_def pending_ok_def)
  show n: "obeys (keeps_inv (open_inv P)) (note_counter n)"
    unfolding note_counter_def by (rule inv.ok_modify) (auto simp: keeps_inv_def open_inv_def key_inv_def)
  show "obeys (keeps_inv (open_inv P)) (note_stamped n)" unfolding note_stamped_def by (intro inv.ok_intros n)
qed

lemma mem_modify:
  "obeys (keeps_inv (mem_inv P)) (with_sessions f)" "obeys (keeps_inv (mem_inv P)) (note_counter n)"
  "obeys (keeps_inv (mem_inv P)) (set_session se)"
proof -
  show "obeys (keeps_inv (mem_inv P)) (with_sessions f)"
    by (simp add: obeys_def keeps_inv_def prog_simps mem_inv_def key_inv_def pending_ok_def)
  show "obeys (keeps_inv (mem_inv P)) (note_counter n)"
    unfolding note_counter_def by (rule inv.ok_modify) (simp add: keeps_inv_def mem_inv_def key_inv_def)
  show "obeys (keeps_inv (mem_inv P)) (set_session se)"
    unfolding set_session_def by (rule inv.ok_modify) (simp add: keeps_inv_def mem_inv_def key_inv_def)
qed

section \<open>The vault service\<close>

lemma mem_load_vault [intro]: "obeys (keeps_inv (mem_inv P)) load_vault"
  unfolding obeys_def keeps_inv_def
proof (intro allI impI)
  fix s :: dstate
  assume m: "mem_inv P s"
  obtain r t where l: "load_vault s = (r, t)" by (cases "load_vault s")
  have k: "key_inv P t" using m l inv_okD [OF key_load_vault] by (auto simp: mem_inv_def)
  show "mem_inv P (snd (load_vault s))"
  proof (cases r)
    case (Inl e)
    with l have "env.more t = env.more s" by (auto dest!: load_vault_Inl simp: fixed_def)
    with l m show ?thesis using mem_inv_more [of t s P] by simp
  next
    case (Inr u)
    with load_vault_Inr [of s u t] l m k key_locked_inv [of P s]
    show ?thesis by (auto simp: mem_inv_def locked_inv_def)
  qed
qed

lemma mem_lock [intro]:
  "obeys (keeps_inv (mem_inv P)) lock" "obeys (keeps_inv (mem_inv P)) panic_lock" "obeys (keeps_inv (mem_inv P)) reset"
proof -
  have "mem_inv P (run_on_lock (lock_fields s))" if "mem_inv P s" for s
    using that
    by (simp add: mem_inv_def lock_fields_def run_on_lock_def lock_hooks_def key_inv_def pending_ok_def clear_index_def
        invalidate_all_def index_clear_def is_unlocked_def agg_lock_def)
  then show l: "obeys (keeps_inv (mem_inv P)) lock" unfolding lock_def by (intro inv.ok_modify) (simp add: keeps_inv_def)
  then show "obeys (keeps_inv (mem_inv P)) panic_lock" by (simp add: panic_lock_def)
  show "obeys (keeps_inv (mem_inv P)) reset"
    by (auto simp: obeys_def keeps_inv_def reset_def mbind_unfold lock_def prog_simps mem_inv_def lock_fields_def
        run_on_lock_def lock_hooks_def key_inv_def pending_ok_def clear_index_def invalidate_all_def index_clear_def
        is_unlocked_def zero_vault_def)
qed

definition loaded_inv :: "crypto_prims \<Rightarrow> dstate \<Rightarrow> bool" where
  "loaded_inv P s \<longleftrightarrow> mem_inv P s \<and> loaded s"

lemma loaded_inv_more: "env.more s = env.more t \<Longrightarrow> loaded_inv P s = loaded_inv P t"
  unfolding loaded_inv_def by (metis mem_inv_more more_vsys(2))

lemma loaded_fixed: "obeys (same_on fixed) m \<Longrightarrow> obeys (keeps_inv (loaded_inv P)) m"
  by (erule fixed_inv) (rule loaded_inv_more)

lemma loaded_unlock_failed: "obeys (keeps_inv (loaded_inv P)) unlock_failed"
  unfolding unlock_failed_def
  by (intro inv.ok_bind inv.ok_modify inv.ok_throw) (auto simp: keeps_inv_def loaded_inv_def mem_inv_def key_inv_def)

lemma loaded_open_vault:
  "obeys (keeps_inv (loaded_inv P)) (mbind (mlift (derive_keyring P rk)) (\<lambda>kr. mmodify (open_vault rk kr)))"
  by (intro obeys_lift inv.ok_throw inv.ok_modify)
    (auto simp: keeps_inv_def loaded_inv_def mem_inv_def key_inv_def open_vault_def agg_unlock_def is_unlocked_def)

lemma mem_unlock [intro]: "obeys (keeps_inv (mem_inv P)) (unlock P pw)"
  unfolding unlock_def open_vault_def [symmetric]
proof (rule inv.ok_bind [OF inv.ok_get], rule inv.ok_bind [OF inv.ok_guard],
    rule keeps_post [where J = "\<lambda>_. loaded_inv P", OF mem_load_vault], goal_cases)
  case (1 early u s x t)
  then show ?case using inv_okD [OF mem_load_vault] load_vault_Inr by (metis loaded_inv_def)
next
  case (2 early u x)
  show ?case
    by (rule inv.ok_bind [OF inv.ok_get], rule inv.ok_bind [OF inv.ok_replace_error [OF loaded_fixed [OF fixed_queries(2)]]],
        intro inv.ok_sum inv.ok_if loaded_unlock_failed loaded_open_vault)
qed (simp add: loaded_inv_def)

lemma mem_vault_ops [intro]:
  "obeys (keeps_inv (mem_inv P)) vault_status" "obeys (keeps_inv (mem_inv P)) (stamp_locked P kr)"
  "obeys (keeps_inv (mem_inv P)) (verify_catalog P)" "obeys (keeps_inv (mem_inv P)) (verify_password P pw)"
  "obeys (keeps_inv (mem_inv P)) (change_master_password P pw pw' params)"
proof -
  show "obeys (keeps_inv (mem_inv P)) vault_status"
    unfolding vault_status_def by (intro inv.ok_intros inv.ok_err mem_load_vault mem_fixed fixed_queries)
  show s: "obeys (keeps_inv (mem_inv P)) (stamp_locked P kr)" for kr
    unfolding stamp_locked_def by (intro inv.ok_intros mem_modify mem_fixed fixed_tx fixed_stamp)
  show "obeys (keeps_inv (mem_inv P)) (verify_catalog P)"
    unfolding verify_catalog_def
    by (intro inv.ok_intros inv.ok_err s mem_fixed fixed_keys fixed_read_tx fixed_verify inv.ok_modify)
      (auto simp: keeps_inv_def mem_inv_def key_inv_def)
  show "obeys (keeps_inv (mem_inv P)) (verify_password P pw)"
    unfolding verify_password_def by (intro inv.ok_intros inv.ok_err mem_load_vault mem_fixed fixed_queries)
  show "obeys (keeps_inv (mem_inv P)) (change_master_password P pw pw' params)"
    unfolding change_master_password_def Let_def
    by (intro inv.ok_intros inv.ok_err mem_load_vault mem_modify mem_lock mem_fixed fixed_queries
        fixed_build_envelope fixed_tx fixed_commands fixed_stamp same.ok_bind inv.ok_modify)
      (auto simp: keeps_inv_def mem_inv_def key_inv_def is_unlocked_def)
qed

text \<open>Creation starts where loading found no vault, which is a locked state.\<close>

definition shut_inv :: "crypto_prims \<Rightarrow> dstate \<Rightarrow> bool" where
  "shut_inv P s \<longleftrightarrow> mem_inv P s \<and> \<not> is_unlocked (vault s) \<and> keyring s = None"

lemma shut_inv_more: "env.more s = env.more t \<Longrightarrow> shut_inv P s = shut_inv P t"
  unfolding shut_inv_def by (metis mem_inv_more more_vsys(1,3))

lemma shut_fixed: "obeys (same_on fixed) m \<Longrightarrow> obeys (keeps_inv (shut_inv P)) m"
  by (erule fixed_inv) (rule shut_inv_more)

lemma shut_steps:
  "obeys (keeps_inv (shut_inv P)) (note_counter n)" "obeys (keeps_inv (shut_inv P)) (set_vault (fresh_vault i fv ev))"
  unfolding note_counter_def set_vault_def
  by (rule inv.ok_modify, auto simp: keeps_inv_def shut_inv_def mem_inv_def key_inv_def)+

lemma mem_vault_init [intro]: "obeys (keeps_inv (mem_inv P)) (vault_init P pw params)"
  unfolding vault_init_def
proof (rule keeps_post [where J = "\<lambda>r s. case r of Inl _ \<Rightarrow> shut_inv P s | Inr _ \<Rightarrow> mem_inv P s"], goal_cases)
  case 1
  show ?case by (intro inv.ok_err mem_load_vault)
next
  case (2 s r t)
  then show ?case
    using attempt_load_post [of P s r t] inv_okD [OF inv.ok_attempt [OF mem_load_vault] 2(2) 2(1)]
    by (cases r) (auto simp: shut_inv_def mem_inv_def locked_inv_def)
next
  case (3 r)
  show ?case
  proof (cases r)
    case (Inl e)
    show ?thesis unfolding Inl sum.case
      by (intro inv.ok_intros inv.ok_err shut_fixed fixed_new fixed_build_envelope fixed_tx fixed_commands
        fixed_stamp same.ok_bind shut_steps)
  next
    case (Inr u)
    show ?thesis unfolding Inr sum.case by (rule inv.ok_throw)
  qed
next
  case (4 r s)
  then show ?case by (auto split: sum.splits simp: shut_inv_def)
qed

section \<open>Files and services\<close>

interpretation client_files: file_effect "same_on (\<lambda>s :: dstate. t_clients (db s))"
  by unfold_locales (simp_all add: same_on_def)

lemma more_conn: "vsys.more s = vsys.more t \<Longrightarrow> conn s = conn (t :: dstate)"
  by (cases s; cases t) simp

interpretation conn_steps: service_effect "same_on (\<lambda>s :: dstate. conn s)"
proof unfold_locales
  fix s t :: dstate
  show "vault_step s t \<Longrightarrow> same_on conn s t" by (auto simp: same_on_def vault_step_def intro: more_conn)
qed (auto simp: primitive_steps split: if_splits sum.splits prod.splits option.splits)

interpretation sound_files: file_effect "keeps_inv (sound_db :: dstate \<Rightarrow> bool)"
  by unfold_locales (simp_all add: keeps_inv_def)

interpretation conn_files: file_effect "same_on (\<lambda>s :: dstate. conn s)"
  by unfold_locales (simp_all add: same_on_def)

text \<open>The fields the invariant of the memory speaks of.\<close>

definition memory :: "dstate \<Rightarrow> vault_agg \<times> bool \<times> keyring option \<times> bytes option \<times> (access_mem \<Rightarrow> access_mem) list \<times> access_mem" where
  "memory s = (vault s, loaded s, keyring s, root_key s, on_lock s, mem s)"

interpretation memory_files: file_effect "same_on memory"
  by unfold_locales (simp_all add: same_on_def memory_def)

lemma mem_inv_memory: "memory t = memory s \<Longrightarrow> mem_inv P t = mem_inv P s"
  by (simp add: memory_def mem_inv_def key_inv_def)

lemma mem_memory: "obeys (same_on memory) m \<Longrightarrow> obeys (keeps_inv (mem_inv P)) m"
  unfolding obeys_def same_on_def keeps_inv_def using mem_inv_memory by blast

lemma mem_record_ops [intro]:
  "obeys (keeps_inv (mem_inv P)) (create_record P' J W ty meta sec)"
  "obeys (keeps_inv (mem_inv P)) (update_record_op P' J W i n meta sec)"
  "obeys (keeps_inv (mem_inv P)) (delete_record_op P' W i)"
  "obeys (keeps_inv (mem_inv P)) (load_index P' J W)"
  "obeys (keeps_inv (mem_inv P)) list_entries" "obeys (keeps_inv (mem_inv P)) (search_entries W qs)"
  "obeys (keeps_inv (mem_inv P)) (match_entries W po pid)" "obeys (keeps_inv (mem_inv P)) (show_entry i)"
  "obeys (keeps_inv (mem_inv P)) (resolve_entry W qs)" "obeys (keeps_inv (mem_inv P)) (reveal P' J i)"
  "obeys (keeps_inv (mem_inv P)) (reveal_for_origin P' J W i po pid)"
proof -
  show "obeys (keeps_inv (mem_inv P)) (create_record P' J W ty meta sec)"
    unfolding create_record_def Let_def
    by (rule mem_guarded)
      (intro inv.ok_bind inv.ok_get inv.ok_pair inv.ok_return open_modify
        open_fixed fixed_new fixed_validated fixed_encrypt fixed_vault_info fixed_tx
        same.ok_bind fixed_commands fixed_records_stamp)
  show "obeys (keeps_inv (mem_inv P)) (update_record_op P' J W i n meta sec)"
    unfolding update_record_op_def Let_def the_index_def
    by (rule mem_guarded)
      (intro inv.ok_bind inv.ok_get inv.ok_pair inv.ok_option inv.ok_throw inv.ok_guard open_modify
        open_fixed fixed_validated fixed_encrypt fixed_stamped_change fixed_commands)
  show "obeys (keeps_inv (mem_inv P)) (delete_record_op P' W i)"
    unfolding delete_record_op_def
    by (rule mem_guarded)
      (intro inv.ok_bind inv.ok_pair inv.ok_guard open_modify open_fixed fixed_stamped_change fixed_commands)
  show "obeys (keeps_inv (mem_inv P)) (load_index P' J W)"
    unfolding load_index_def load_row_def
    by (rule mem_guarded)
      (intro inv.ok_bind inv.ok_pair inv.ok_for inv.ok_sum inv.ok_throw open_modify
        open_fixed fixed_vault_info fixed_queries)
  show "obeys (keeps_inv (mem_inv P)) list_entries" "obeys (keeps_inv (mem_inv P)) (search_entries W qs)"
    "obeys (keeps_inv (mem_inv P)) (match_entries W po pid)" "obeys (keeps_inv (mem_inv P)) (show_entry i)"
    unfolding list_entries_def search_entries_def match_entries_def show_entry_def the_index_def
    by (intro inv.ok_intros mem_fixed fixed_keys)+
  show "obeys (keeps_inv (mem_inv P)) (resolve_entry W qs)"
    unfolding resolve_entry_def the_index_def
    by (intro inv.ok_intros mem_fixed fixed_keys) (auto split: list.split intro: same.ok_return same.ok_throw)
  have r: "obeys (same_on fixed) (reveal P' J i)"
    unfolding reveal_def by (intro same.ok_intros same.ok_err fixed_keys fixed_vault_info fixed_queries)
  then show "obeys (keeps_inv (mem_inv P)) (reveal P' J i)" by (rule mem_fixed)
  show "obeys (keeps_inv (mem_inv P)) (reveal_for_origin P' J W i po pid)"
    unfolding reveal_for_origin_def the_index_def by (intro inv.ok_intros mem_fixed fixed_keys r)
qed

lemma set_alist_update: "set (AList.update k v al) \<subseteq> insert (k, v) (set al)"
  by (induction al) auto

lemma set_alist_delete: "set (AList.delete k al) \<subseteq> set al"
  by (auto simp: AList.delete_eq)

lemma pending_ok_update:
  "pending_ok m \<Longrightarrow> is_pairable (pp_kind p) \<Longrightarrow> pending_ok (m\<lparr>am_pending := AList.update i p (am_pending m)\<rparr>)"
  unfolding pending_ok_def using set_alist_update [of i p "am_pending m"] by auto

lemma pending_ok_delete: "pending_ok m \<Longrightarrow> pending_ok (m\<lparr>am_pending := AList.delete i (am_pending m)\<rparr>)"
  unfolding pending_ok_def using set_alist_delete [of i "am_pending m"] by auto

lemma mem_with_pending:
  assumes "\<And>m. pending_ok m \<Longrightarrow> pending_ok (m\<lparr>am_pending := f (am_pending m)\<rparr>)"
  shows "obeys (keeps_inv (mem_inv P)) (with_pending f)"
  using assms by (auto simp: obeys_def keeps_inv_def prog_simps mem_inv_def key_inv_def)

lemma open_with_pending:
  assumes "is_pairable (pp_kind p)"
  shows "obeys (keeps_inv (open_inv P)) (with_pending (AList.update i p))"
  using assms by (auto simp: obeys_def keeps_inv_def prog_simps open_inv_def key_inv_def pending_ok_update)

text \<open>An approval changes a pending pairing that is there, so its kind stays pairable.\<close>

lemma mem_approve [intro]: "obeys (keeps_inv (mem_inv P)) (approve P' i)"
  unfolding approve_def
proof (rule mem_guarded, rule keeps_post [where J = "\<lambda>x s. open_inv P s \<and> (\<forall>p. x = Some p \<longrightarrow> is_pairable (pp_kind p))"], goal_cases)
  case (3 kr found)
  show ?case
  proof (cases "\<exists>p. found = Some p \<and> is_pairable (pp_kind p)")
    case True
    then obtain p where p: "found = Some p" "is_pairable (pp_kind p)" by blast
    then have "(\<lambda>s. open_inv P s \<and> (\<forall>p. found = Some p \<longrightarrow> is_pairable (pp_kind p))) = open_inv P" by auto
    with p show ?thesis
      by (simp only: option.case)
        (intro inv.ok_intros open_fixed fixed_new fixed_vault_info fixed_access_tx open_modify open_with_pending, simp)
  next
    case False
    then show ?thesis by (cases found) (auto simp: obeys_def keeps_inv_def prog_simps)
  qed
qed (auto simp: obeys_def keeps_inv_def prog_simps open_inv_def pending_ok_def pending_def dest!: map_of_SomeD)

lemma mem_access_ops [intro]:
  "obeys (keeps_inv (mem_inv P)) (issue c caps epoch)" "obeys (keeps_inv (mem_inv P)) (validate i epoch b)"
  "obeys (keeps_inv (mem_inv P)) (drop_client c)" "obeys (keeps_inv (mem_inv P)) last_activity"
  "obeys (keeps_inv (mem_inv P)) (request_pairing P' kind label key)" "obeys (keeps_inv (mem_inv P)) list_pending"
  "obeys (keeps_inv (mem_inv P)) (cancel_pairing i)"
  "obeys (keeps_inv (mem_inv P)) (claim_credential i)" "obeys (keeps_inv (mem_inv P)) (revoke P' i)"
  "obeys (keeps_inv (mem_inv P)) (lookup i)" "obeys (keeps_inv (mem_inv P)) (touch_last_seen i)"
  "obeys (keeps_inv (mem_inv P)) (list_client_infos P')" "obeys (keeps_inv (mem_inv P)) (note_event P' sev code)"
  "obeys (keeps_inv (mem_inv P)) (recent P' limit)" "obeys (keeps_inv (mem_inv P)) (generate_password opts)"
proof -
  show "obeys (keeps_inv (mem_inv P)) (issue c caps epoch)"
    unfolding issue_def Let_def by (intro inv.ok_intros mem_fixed fixed_new mem_modify)
  show "obeys (keeps_inv (mem_inv P)) (validate i epoch b)"
    unfolding validate_def by (intro inv.ok_intros mem_modify)
  show "obeys (keeps_inv (mem_inv P)) (drop_client c)"
    unfolding drop_client_def by (intro mem_modify)
  show "obeys (keeps_inv (mem_inv P)) last_activity" "obeys (keeps_inv (mem_inv P)) list_pending"
    unfolding last_activity_def list_pending_def by (intro inv.ok_intros)+
  show "obeys (keeps_inv (mem_inv P)) (cancel_pairing i)"
    unfolding cancel_pairing_def by (intro inv.ok_intros mem_with_pending pending_ok_delete)
  show "obeys (keeps_inv (mem_inv P)) (claim_credential i)"
    unfolding claim_credential_def by (intro inv.ok_intros mem_with_pending pending_ok_delete)
  show "obeys (keeps_inv (mem_inv P)) (revoke P' i)"
    unfolding revoke_def by (intro inv.ok_intros mem_fixed fixed_keys fixed_access_tx mem_modify)
  show "obeys (keeps_inv (mem_inv P)) (lookup i)" "obeys (keeps_inv (mem_inv P)) (touch_last_seen i)"
    "obeys (keeps_inv (mem_inv P)) (list_client_infos P')" by (intro mem_fixed fixed_access)+
  show "obeys (keeps_inv (mem_inv P)) (note_event P' sev code)" by (intro mem_fixed fixed_note_event)
  show "obeys (keeps_inv (mem_inv P)) (recent P' limit)" by (intro mem_fixed fixed_recent)
  show "obeys (keeps_inv (mem_inv P)) (request_pairing P' kind label key)"
    unfolding obeys_def keeps_inv_def
  proof (intro allI impI)
    fix s assume m: "mem_inv P s"
    obtain r t where e: "request_pairing P' kind label key s = (r, t)" by (cases "request_pairing P' kind label key s")
    show "mem_inv P (snd (request_pairing P' kind label key s))"
    proof (cases r)
      case (Inr p)
      from request_pairing_Inr [OF e [unfolded Inr]] m e show ?thesis
        by (auto simp: mem_inv_def key_inv_def pending_def intro: pending_ok_update)
    next
      case (Inl x)
      with e have "env.more t = env.more s"
        by (auto simp: request_pairing_def mbind_Inl_iff prog_simps Let_def new_id_def random_bytes_def split: if_splits)
      with e m show ?thesis using mem_inv_more [of t s] by simp
    qed
  qed
  show "obeys (keeps_inv (mem_inv P)) (generate_password opts)"
    by (rule mem_fixed, rule generate_obeys) (unfold_locales, auto simp: same_on_def)
qed

end
