(* ===== verification/Serving.thy ===== *)
theory Serving
  imports Daemon_Inv
begin

text \<open>
  Every request, connection and idle check keeps the invariant of the daemon; the daemon as a
  transition system over its connections, and its reachable states.
\<close>

section \<open>The invariant\<close>

definition least :: "u64 \<Rightarrow> bool" where
  "least m \<longleftrightarrow> (\<forall>c \<in> administrative. \<not> has m c)"

definition clients_least :: "db \<Rightarrow> bool" where
  "clients_least d \<longleftrightarrow> (\<forall>r \<in> set (t_clients d). least (cr_capability_mask r))"

text \<open>The connection of a registered client holds a session without administrative capability.\<close>

definition conn_least :: "conn_state \<Rightarrow> bool" where
  "conn_least c \<longleftrightarrow> cs_client_id c \<noteq> zero_id \<longrightarrow>
     (case cs_session c of None \<Rightarrow> True | Some se \<Rightarrow> least (se_capabilities se))"

definition daemon_inv :: "deps \<Rightarrow> dstate \<Rightarrow> bool" where
  "daemon_inv D s \<longleftrightarrow> mem_inv (dp_crypto D) s \<and> db_wf (db s) \<and> clients_least (db s) \<and> conn_least (conn s)"

text \<open>What is relied on of database files: SQLite opens only files that satisfy the schema, and the
  files the daemon is given hold no client with administrative capabilities.\<close>

definition images_ok :: "file_prims \<Rightarrow> bool" where
  "images_ok F \<longleftrightarrow> (\<forall>b d. db_of_image F b = Some d \<longrightarrow> db_wf d \<and> clients_least d) \<and>
     (\<forall>d d'. db_migrate F d = Inr d' \<longrightarrow> db_wf d \<and> clients_least d \<longrightarrow> db_wf d' \<and> clients_least d')"

lemma least_default: "is_pairable k \<Longrightarrow> least (default_capabilities k)"
  using pairable_not_administrative by (auto simp: least_def)

lemma inv_service:
  assumes "obeys (keeps_inv (mem_inv (dp_crypto D))) m" and "obeys (same_on (\<lambda>s. t_clients (db s))) m"
    and "obeys (keeps_inv sound_db) m" and "obeys (same_on conn) m"
  shows "obeys (keeps_inv (daemon_inv D)) m"
  using assms by (simp add: obeys_def keeps_inv_def same_on_def daemon_inv_def clients_least_def)

lemma inv_vault_ops [intro]:
  "obeys (keeps_inv (daemon_inv D)) vault_status" "obeys (keeps_inv (daemon_inv D)) (vault_init (dp_crypto D) pw params)"
  "obeys (keeps_inv (daemon_inv D)) (unlock (dp_crypto D) pw)" "obeys (keeps_inv (daemon_inv D)) (verify_catalog (dp_crypto D))"
  "obeys (keeps_inv (daemon_inv D)) (verify_password (dp_crypto D) pw)"
  "obeys (keeps_inv (daemon_inv D)) (change_master_password (dp_crypto D) pw pw' params)"
  "obeys (keeps_inv (daemon_inv D)) lock" "obeys (keeps_inv (daemon_inv D)) panic_lock" "obeys (keeps_inv (daemon_inv D)) reset"
  by (intro inv_service mem_vault_ops mem_vault_init mem_unlock mem_lock clients.vault_steps clients.vault_basic
      soundness.vault_steps soundness.vault_basic conn_steps.vault_steps conn_steps.vault_basic)+

lemma inv_record_ops [intro]:
  "obeys (keeps_inv (daemon_inv D)) (create_record P' J W ty meta sec)"
  "obeys (keeps_inv (daemon_inv D)) (update_record_op P' J W i n meta sec)"
  "obeys (keeps_inv (daemon_inv D)) (delete_record_op P' W i)" "obeys (keeps_inv (daemon_inv D)) (load_index P' J W)"
  "obeys (keeps_inv (daemon_inv D)) list_entries" "obeys (keeps_inv (daemon_inv D)) (search_entries W qs)"
  "obeys (keeps_inv (daemon_inv D)) (match_entries W po pid)" "obeys (keeps_inv (daemon_inv D)) (show_entry i)"
  "obeys (keeps_inv (daemon_inv D)) (resolve_entry W qs)" "obeys (keeps_inv (daemon_inv D)) (reveal P' J i)"
  "obeys (keeps_inv (daemon_inv D)) (reveal_for_origin P' J W i po pid)"
  by (intro inv_service mem_record_ops clients.record_steps soundness.record_steps conn_steps.record_steps)+

lemma inv_access_ops [intro]:
  "obeys (keeps_inv (daemon_inv D)) (issue c caps epoch)" "obeys (keeps_inv (daemon_inv D)) (validate i epoch b)"
  "obeys (keeps_inv (daemon_inv D)) (drop_client c)" "obeys (keeps_inv (daemon_inv D)) last_activity"
  "obeys (keeps_inv (daemon_inv D)) (request_pairing P' kind label key)" "obeys (keeps_inv (daemon_inv D)) list_pending"
  "obeys (keeps_inv (daemon_inv D)) (cancel_pairing i)" "obeys (keeps_inv (daemon_inv D)) (claim_credential i)"
  "obeys (keeps_inv (daemon_inv D)) (lookup i)" "obeys (keeps_inv (daemon_inv D)) (list_client_infos P')"
  "obeys (keeps_inv (daemon_inv D)) (note_event P' sev code)" "obeys (keeps_inv (daemon_inv D)) (recent P' limit)"
  "obeys (keeps_inv (daemon_inv D)) (generate_password opts)"
  by (intro inv_service mem_access_ops clients.access_steps soundness.access_steps conn_steps.access_steps
      clients.event_steps soundness.event_steps conn_steps.event_steps
      clients.generate_steps soundness.generate_steps conn_steps.generate_steps)+

lemma inv_file_ops [intro]:
  "obeys (keeps_inv (daemon_inv D)) (backup_create P' F p)" "obeys (keeps_inv (daemon_inv D)) (backup_verify P' F p)"
  "obeys (keeps_inv (daemon_inv D)) (restore_snapshot snap p (check_candidate F))"
  "obeys (keeps_inv (daemon_inv D)) (remove_all ps)" "obeys (keeps_inv (daemon_inv D)) (store_close F)"
  "obeys (keeps_inv (daemon_inv D)) (open_database F p)"
  by (intro inv_service mem_memory memory_files.backup_steps memory_files.file_basic client_files.backup_steps
      client_files.file_basic sound_files.backup_steps sound_files.file_basic conn_files.backup_steps
      conn_files.file_basic)+

section \<open>The client table\<close>

interpretation least_db: service_effect "keeps_inv (\<lambda>s :: dstate. clients_least (db s))"
  by unfold_locales
    (auto simp: primitive_steps clients_least_def split: if_splits sum.splits prod.splits option.splits)

lemma least_commands:
  "obeys (keeps_inv (\<lambda>s :: dstate. clients_least (db s))) (update_client_status v i)"
  "obeys (keeps_inv (\<lambda>s :: dstate. clients_least (db s))) (update_client_last_seen v i)"
  "least (cr_capability_mask r) \<Longrightarrow> obeys (keeps_inv (\<lambda>s :: dstate. clients_least (db s))) (insert_client r)"
  by (auto simp: primitive_steps clients_least_def pk_update_def pk_insert_def
      split: if_splits sum.splits prod.splits option.splits)

lemma conn_commands:
  "obeys (same_on (\<lambda>s :: dstate. conn s)) (update_client_status v i)"
  "obeys (same_on (\<lambda>s :: dstate. conn s)) (update_client_last_seen v i)"
  "obeys (same_on (\<lambda>s :: dstate. conn s)) (insert_client r)"
  by (auto simp: primitive_steps split: if_splits sum.splits prod.splits option.splits)

lemma inv_parts:
  assumes "obeys (keeps_inv (mem_inv (dp_crypto D))) m" and "obeys (keeps_inv (\<lambda>s. clients_least (db s))) m"
    and "obeys (keeps_inv sound_db) m" and "obeys (same_on conn) m"
  shows "obeys (keeps_inv (daemon_inv D)) m"
  using assms by (simp add: obeys_def keeps_inv_def same_on_def daemon_inv_def)

lemma inv_revoke [intro]: "obeys (keeps_inv (daemon_inv D)) (revoke P i)"
proof (rule inv_parts)
  show "obeys (keeps_inv (\<lambda>s :: dstate. clients_least (db s))) (revoke P i)"
    unfolding revoke_def access_stamp_eq
    by (intro inv.ok_intros least_db.vault_basic least_db.step_tx least_db.record_basic least_commands)
  show "obeys (same_on (\<lambda>s :: dstate. conn s)) (revoke P i)"
    unfolding revoke_def access_stamp_eq
    by (intro same.ok_intros conn_steps.vault_basic conn_steps.step_tx conn_steps.record_basic conn_commands)
qed (rule mem_access_ops dbwf_access_ops)+

lemma inv_touch [intro]: "obeys (keeps_inv (daemon_inv D)) (touch_last_seen i)"
proof (rule inv_parts)
  show "obeys (keeps_inv (\<lambda>s :: dstate. clients_least (db s))) (touch_last_seen i)"
    unfolding touch_last_seen_def by (intro inv.ok_intros least_db.step_tx least_commands)
  show "obeys (same_on (\<lambda>s :: dstate. conn s)) (touch_last_seen i)"
    unfolding touch_last_seen_def by (intro same.ok_intros conn_steps.step_tx conn_commands)
qed (rule mem_access_ops dbwf_access_ops)+

lemma approve_Inl: "approve P i s = (Inl e, t) \<Longrightarrow> db t = db s"
proof -
  have "obeys (same_on db) new_id" "obeys (same_on db) new_credential" "obeys (same_on db) new_nonce"
    unfolding new_defs by (rule same_db_basic)+
  note same = this [THEN same_okD] same_db_basic(2,3) [THEN same_okD]
  assume "approve P i s = (Inl e, t)"
  then show ?thesis
    unfolding approve_def note_counter_def
    by (auto simp: mbind_Inl_iff mget_eq mguard_eq mlift_eq mthrow_eq mmodify_eq with_pending_eq
        split: option.splits if_splits dest!: with_tx_Inl same)
qed

lemma inv_approve [intro]: "obeys (keeps_inv (daemon_inv D)) (approve P i)"
proof -
  have c: "obeys (same_on (\<lambda>s :: dstate. conn s)) (approve P i)"
    unfolding approve_def access_stamp_eq
    by (intro same.ok_intros conn_steps.vault_basic conn_steps.new_steps conn_steps.step_tx conn_steps.record_basic
        conn_commands conn_steps.mem_steps)
  have l: "clients_least (db (snd (approve P i s)))" if inv: "daemon_inv D s" for s
  proof -
    obtain r t where e: "approve P i s = (r, t)" by (cases "approve P i s")
    show ?thesis
    proof (cases r)
      case (Inl x)
      with e inv show ?thesis by (auto simp: daemon_inv_def dest!: approve_Inl)
    next
      case (Inr u)
      with approve_Inr [of P i s u t] e obtain p cid cred row where p: "map_of (pending s) i = Some p"
        and row: "approved_row P p cid cred row"
        and ins: "pk_insert cr_client_id client_check row (t_clients (db s)) = Inr (t_clients (db t))" by auto
      from p inv have "is_pairable (pp_kind p)"
        by (auto simp: daemon_inv_def mem_inv_def pending_ok_def pending_def dest!: map_of_SomeD)
      with row have "least (cr_capability_mask row)" by (simp add: approved_row_def least_default)
      with ins inv e show ?thesis by (auto simp: pk_insert_Inr_iff clients_least_def daemon_inv_def)
    qed
  qed
  show ?thesis
    unfolding obeys_def keeps_inv_def
  proof (intro allI impI)
    fix s assume inv: "daemon_inv D s"
    have "mem_inv (dp_crypto D) (snd (approve P i s))" using inv mem_approve by (simp add: obeys_def keeps_inv_def daemon_inv_def)
    moreover have "db_wf (db (snd (approve P i s)))"
      using inv dbwf_access_ops(5) by (auto simp: obeys_def keeps_inv_def daemon_inv_def)
    ultimately show "daemon_inv D (snd (approve P i s))"
      using l [OF inv] c inv by (simp add: daemon_inv_def obeys_def same_on_def)
  qed
qed

section \<open>Opening a database again\<close>

lemma inv_note [intro]: "obeys (keeps_inv (daemon_inv D)) (note_event P sev code)"
  by (rule inv_access_ops)

definition good_db :: "db \<Rightarrow> bool" where
  "good_db d \<longleftrightarrow> db_wf d \<and> clients_least d"

lemma inv_swap: "good_db d \<Longrightarrow> obeys (keeps_inv (daemon_inv D)) (store_swap p d)"
  unfolding store_swap_def
  by (rule inv.ok_modify) (auto simp: keeps_inv_def daemon_inv_def good_db_def mem_inv_def key_inv_def)

lemma open_database_good:
  assumes "images_ok F" and "daemon_inv D s" and "open_database F p s = (Inr d, t)"
  shows "good_db d"
  using assms
  by (auto simp: open_database_def mbind_Inr_iff prog_simps daemon_inv_def good_db_def images_ok_def clients_least_def
      empty_db_def split: option.splits file_content.splits) (auto simp: db_wf_def table_ok_def)

text \<open>Programs over a database that was found to be good.\<close>

lemma inv_with_good:
  assumes "\<And>d. good_db d \<Longrightarrow> obeys (keeps_inv (daemon_inv D)) (f d)" and "images_ok (dp_files D)"
  shows "obeys (keeps_inv (daemon_inv D)) (mbind (open_database (dp_files D) p) f)"
  by (rule keeps_fine [OF inv_file_ops(6) open_database_good [OF assms(2)] assms(1)])

lemma inv_reopen [intro]: "images_ok (dp_files D) \<Longrightarrow> obeys (keeps_inv (daemon_inv D)) (reopen D)"
  unfolding reopen_def
  by (intro inv_with_good obeys_lift inv.ok_throw inv.ok_bind inv_swap inv_vault_ops)
    (auto simp: images_ok_def good_db_def)

lemma inv_stop: "obeys (keeps_inv (daemon_inv D)) (mmodify (\<lambda>s. s\<lparr>stopping := True\<rparr>))"
  by (rule inv.ok_modify) (auto simp: keeps_inv_def daemon_inv_def mem_inv_def key_inv_def)

lemma inv_destroy_vault [intro]: "images_ok (dp_files D) \<Longrightarrow> obeys (keeps_inv (daemon_inv D)) (destroy_vault D)"
  unfolding destroy_vault_def
  by (intro inv.ok_bind inv.ok_guard inv_vault_ops inv_file_ops inv_reopen inv_stop)

lemma inv_attempt_open:
  assumes "images_ok (dp_files D)" and "\<And>d. good_db d \<Longrightarrow> obeys (keeps_inv (daemon_inv D)) (f d)"
    and "\<And>e. obeys (keeps_inv (daemon_inv D)) (h e)"
  shows "obeys (keeps_inv (daemon_inv D)) (mbind (attempt (open_database (dp_files D) p)) (\<lambda>r. case r of Inl e \<Rightarrow> h e | Inr d \<Rightarrow> f d))"
proof (rule keeps_fine [where fine = "\<lambda>r. \<forall>d. r = Inr d \<longrightarrow> good_db d"], goal_cases)
  case (2 s r t)
  then show ?case using open_database_good [OF assms(1) 2(1)] by (auto simp: attempt_Inr_iff)
next
  case (3 r)
  then show ?case using assms(2,3) by (cases r) simp_all
qed (intro inv.ok_err inv_file_ops)

lemma inv_restore_vault [intro]: "images_ok (dp_files D) \<Longrightarrow> obeys (keeps_inv (daemon_inv D)) (restore_vault D snap)"
  unfolding restore_vault_def
  by (intro inv.ok_bind inv.ok_sum inv.ok_err inv.ok_throw inv_vault_ops inv_file_ops inv_reopen inv_attempt_open inv_swap)

section \<open>Authorization and sessions\<close>

lemma renewed_least:
  assumes "renewed_capabilities se s = (Inr caps, t)" and "daemon_inv D s" and "cs_client_id (conn s) \<noteq> zero_id"
  shows "least caps"
  using assms
  by (auto simp: renewed_capabilities_def mbind_Inr_iff prog_simps id_is_zero_def daemon_inv_def clients_least_def
      client_of_row_def split: if_splits dest!: pk_find_Some)

lemma conn_renewed: "obeys (same_on (\<lambda>s :: dstate. conn s)) (renewed_capabilities se)"
  unfolding renewed_capabilities_def by (intro same.ok_intros same.ok_err conn_steps.access_steps)

lemma inv_renewed: "obeys (keeps_inv (daemon_inv D)) (renewed_capabilities se)"
  unfolding renewed_capabilities_def by (intro inv.ok_intros inv.ok_err inv_access_ops)

text \<open>The invariant with the capabilities at hand: where they are least, a session with them may be
  issued and put in place.\<close>

definition granting :: "deps \<Rightarrow> u64 \<Rightarrow> dstate \<Rightarrow> bool" where
  "granting D caps s \<longleftrightarrow> daemon_inv D s \<and> (cs_client_id (conn s) \<noteq> zero_id \<longrightarrow> least caps)"

lemma granting_issue: "obeys (keeps_inv (granting D caps)) (issue c caps' epoch)"
proof -
  have "daemon_inv D (snd (issue c caps' epoch s))" "conn (snd (issue c caps' epoch s)) = conn s"
    if "daemon_inv D s" for s
    using that inv_access_ops(1) conn_steps.access_steps(1) by (simp_all add: obeys_def keeps_inv_def same_on_def)
  then show ?thesis by (simp add: obeys_def keeps_inv_def granting_def)
qed

lemma granting_set: "se_capabilities se = caps \<Longrightarrow> obeys (keeps_inv (granting D caps)) (set_session se)"
  by (auto simp: obeys_def keeps_inv_def granting_def set_session_def prog_simps daemon_inv_def mem_inv_def key_inv_def
      conn_least_def)

lemma inv_granting:
  "obeys (keeps_inv (granting D caps)) m \<Longrightarrow> daemon_inv D s \<Longrightarrow> (cs_client_id (conn s) \<noteq> zero_id \<Longrightarrow> least caps) \<Longrightarrow>
     daemon_inv D (snd (m s))"
  by (simp add: obeys_def keeps_inv_def granting_def)

lemma issued_capabilities: "issue c caps epoch s = (Inr se, t) \<Longrightarrow> se_capabilities se = caps"
  using issue_Inr [of c caps epoch s se t] by (metis new_session_fields(3))

lemma granting_replace:
  "obeys (keeps_inv (granting D caps)) (mbind (replace_error e (issue c caps epoch)) (\<lambda>fresh.
     mbind (set_session fresh) (\<lambda>_. mreturn fresh)))"
proof (rule keeps_fine [where fine = "\<lambda>se. se_capabilities se = caps"], goal_cases)
  case (2 s se t)
  then show ?case by (auto simp: replace_error_Inr_iff dest: issued_capabilities)
qed (intro inv.ok_err granting_issue inv.ok_bind inv.ok_return granting_set | assumption)+

lemma granting_attempt:
  "obeys (keeps_inv (granting D caps)) (mbind (attempt (issue c caps epoch)) (\<lambda>r. case r of
     Inl e \<Rightarrow> mreturn () | Inr fresh \<Rightarrow> set_session fresh))"
proof (rule keeps_fine [where fine = "\<lambda>r. \<forall>se. r = Inr se \<longrightarrow> se_capabilities se = caps"], goal_cases)
  case (2 s r t)
  then show ?case by (auto simp: attempt_Inr_iff dest: issued_capabilities)
next
  case (3 r)
  then show ?case by (cases r) (auto intro: inv.ok_return granting_set)
qed (intro inv.ok_err granting_issue)

lemma inv_renew [intro]: "obeys (keeps_inv (daemon_inv D)) (renew se epoch)"
  unfolding renew_def
proof (rule keeps_post [where J = "granting D"], goal_cases)
  case (2 s caps t)
  then show ?case
    using inv_okD [OF inv_renewed 2(2,1)] renewed_least [OF 2(2,1)] same_okD [OF conn_renewed 2(2)]
    by (simp add: granting_def)
next
  case (3 caps)
  show ?case by (intro inv.ok_bind [OF inv.ok_get] granting_replace)
qed (rule inv_renewed, simp add: granting_def)

lemma inv_authorize [intro]: "obeys (keeps_inv (daemon_inv D)) (authorize oper cap)"
  unfolding authorize_def by (intro inv.ok_intros inv.ok_err inv_access_ops inv_renew)

section \<open>Requests\<close>

lemma inv_parse_id: "obeys (keeps_inv (daemon_inv D)) (parse_id text)"
  unfolding parse_id_def by (intro inv.ok_err inv.ok_lift)

lemma inv_checked_strength: "obeys (keeps_inv (daemon_inv D)) (checked_strength W pw)"
  unfolding checked_strength_def by (intro inv.ok_intros)

lemma inv_reissue:
  "obeys (keeps_inv (daemon_inv D)) (mbind (mget (\<lambda>s. (cs_session (conn s), cs_client_id (conn s), v_epoch (vault s)))) (\<lambda>(current, client_id, epoch).
     mbind (case current of
         None \<Rightarrow> mreturn ()
       | Some se \<Rightarrow>
           mbind (attempt (issue client_id (se_capabilities se) epoch)) (\<lambda>r. case r of
             Inl _ \<Rightarrow> mreturn ()
           | Inr fresh \<Rightarrow> set_session fresh)) (\<lambda>_.
     mbind (note_event P SeverityInfo EventVaultUnlocked) (\<lambda>_.
     mreturn ReplyEmpty))))"
proof (rule keeps_post [where J = "\<lambda>(current, _, _) s. daemon_inv D s \<and>
    (case current of None \<Rightarrow> True | Some se \<Rightarrow> granting D (se_capabilities se) s)"], goal_cases)
  case (2 s x t)
  then show ?case
    by (auto simp: prog_simps granting_def daemon_inv_def conn_least_def split: option.splits)
next
  case (3 x)
  have n: "obeys (keeps_inv (granting D caps)) (mbind (note_event P SeverityInfo EventVaultUnlocked) (\<lambda>_. mreturn ReplyEmpty))" for caps
  proof -
    have "obeys (same_on (\<lambda>s :: dstate. conn s)) (mbind (note_event P SeverityInfo EventVaultUnlocked) (\<lambda>_. mreturn ReplyEmpty))"
      by (intro same.ok_intros conn_steps.event_steps)
    moreover have "obeys (keeps_inv (daemon_inv D)) (mbind (note_event P SeverityInfo EventVaultUnlocked) (\<lambda>_. mreturn ReplyEmpty))"
      by (intro inv.ok_intros inv_note)
    ultimately show ?thesis by (simp add: obeys_def keeps_inv_def same_on_def granting_def)
  qed
  obtain current client_id epoch where x: "x = (current, client_id, epoch)" by (cases x)
  show ?case
  proof (cases current)
    case None
    then show ?thesis by (simp add: x) (intro inv.ok_intros inv_note)
  next
    case (Some se)
    have "(\<lambda>s. daemon_inv D s \<and> granting D (se_capabilities se) s) = granting D (se_capabilities se)"
      by (auto simp: granting_def)
    then show ?thesis by (simp add: x Some) (intro inv.ok_bind [OF granting_attempt] n)
  qed
qed (rule inv.ok_get, auto)

lemma inv_vault_requests:
  "obeys (keeps_inv (daemon_inv D)) op_status" "obeys (keeps_inv (daemon_inv D)) (op_init D payload)"
  "obeys (keeps_inv (daemon_inv D)) (op_unlock D payload)" "obeys (keeps_inv (daemon_inv D)) (op_lock D code)"
  "obeys (keeps_inv (daemon_inv D)) (op_change_password D payload)"
  "images_ok (dp_files D) \<Longrightarrow> obeys (keeps_inv (daemon_inv D)) (op_destroy D payload)"
proof -
  show "obeys (keeps_inv (daemon_inv D)) op_status" unfolding op_status_def by (intro inv.ok_intros inv_vault_ops)
  show "obeys (keeps_inv (daemon_inv D)) (op_init D payload)" unfolding op_init_def
    by (intro inv.ok_intros inv_vault_ops inv_note inv_checked_strength)
  show "obeys (keeps_inv (daemon_inv D)) (op_unlock D payload)" unfolding op_unlock_def
    by (rule inv.ok_bind [OF inv.ok_lift] inv.ok_bind [OF inv.ok_attempt] inv.ok_bind [OF inv.ok_if] inv_vault_ops
        inv_record_ops inv.ok_sum inv.ok_return inv_note inv_reissue inv.ok_throw inv.ok_bind)+
  show "obeys (keeps_inv (daemon_inv D)) (op_lock D code)" unfolding op_lock_def
    by (intro inv.ok_intros inv_vault_ops inv_note)
  show "obeys (keeps_inv (daemon_inv D)) (op_change_password D payload)" unfolding op_change_password_def
    by (intro inv.ok_intros inv_vault_ops inv_note inv_checked_strength)
  show "obeys (keeps_inv (daemon_inv D)) (op_destroy D payload)" if "images_ok (dp_files D)" unfolding op_destroy_def
    by (intro inv.ok_intros inv_vault_ops inv_note inv_destroy_vault that)
qed

lemma inv_record_requests:
  "obeys (keeps_inv (daemon_inv D)) (op_create D payload b)" "obeys (keeps_inv (daemon_inv D)) (op_update D payload b)"
  "obeys (keeps_inv (daemon_inv D)) (op_delete D payload)" "obeys (keeps_inv (daemon_inv D)) op_list"
  "obeys (keeps_inv (daemon_inv D)) (op_search D payload)" "obeys (keeps_inv (daemon_inv D)) (op_match D payload)"
  "obeys (keeps_inv (daemon_inv D)) (op_show D payload)" "obeys (keeps_inv (daemon_inv D)) (op_reveal D payload)"
  "obeys (keeps_inv (daemon_inv D)) (op_reveal_for_origin D payload)" "obeys (keeps_inv (daemon_inv D)) (op_generate D payload)"
  unfolding op_create_def op_update_def op_delete_def op_list_def op_search_def op_match_def op_show_def op_reveal_def
    op_reveal_for_origin_def op_generate_def Let_def
  by (intro inv.ok_intros inv.ok_err inv_record_ops inv_access_ops inv_parse_id)+

lemma inv_client_requests:
  "obeys (keeps_inv (daemon_inv D)) (op_pair D payload)" "obeys (keeps_inv (daemon_inv D)) (op_claim D payload)"
  "obeys (keeps_inv (daemon_inv D)) (op_cancel D payload)" "obeys (keeps_inv (daemon_inv D)) op_pending"
  "obeys (keeps_inv (daemon_inv D)) (op_approve D payload)" "obeys (keeps_inv (daemon_inv D)) (op_revoke D payload)"
  "obeys (keeps_inv (daemon_inv D)) (op_clients D)" "obeys (keeps_inv (daemon_inv D)) (op_events D payload)"
  unfolding op_pair_def op_claim_def op_cancel_def op_pending_def op_approve_def op_revoke_def op_clients_def op_events_def
  by (intro inv.ok_intros inv_access_ops inv_approve inv_revoke inv_parse_id)+

lemma inv_backup_requests:
  "obeys (keeps_inv (daemon_inv D)) (op_backup_create D payload)" "obeys (keeps_inv (daemon_inv D)) (op_backup_verify D payload)"
  "images_ok (dp_files D) \<Longrightarrow> obeys (keeps_inv (daemon_inv D)) (op_backup_restore D payload)"
  unfolding op_backup_create_def op_backup_verify_def op_backup_restore_def
  by (intro inv.ok_intros inv_note inv_file_ops inv_restore_vault; assumption)+

lemma inv_dispatch [intro]: "images_ok (dp_files D) \<Longrightarrow> obeys (keeps_inv (daemon_inv D)) (dispatch D oper payload)"
  unfolding dispatch_def
  by (intro inv.ok_if inv.ok_throw inv_vault_requests inv_record_requests inv_client_requests inv_backup_requests)

lemma inv_admit [intro]: "obeys (keeps_inv (daemon_inv D)) (admit D oper)"
  unfolding admit_def by (intro inv.ok_intros inv.ok_err inv_note inv_authorize)

lemma inv_handle [intro]: "images_ok (dp_files D) \<Longrightarrow> obeys (keeps_inv (daemon_inv D)) (handle D raw)"
  unfolding handle_def by (intro inv.ok_intros inv.ok_err inv_admit inv_dispatch)

lemma inv_idle_lock [intro]: "obeys (keeps_inv (daemon_inv D)) (enforce_idle_lock D t)"
  unfolding enforce_idle_lock_def by (intro inv.ok_intros inv_vault_ops inv_access_ops)

lemma inv_lookup_client [intro]: "obeys (keeps_inv (daemon_inv D)) (lookup_client h)"
  unfolding lookup_client_def by (intro inv.ok_intros inv.ok_err inv_access_ops)

lemma inv_build [intro]: "obeys (keeps_inv (daemon_inv D)) (build_conn_state h remote)"
  unfolding build_conn_state_def by (intro inv.ok_intros inv.ok_err inv_access_ops inv_touch)

end
