(* ===== verification/World.thy ===== *)
theory World
  imports Serving
begin

text \<open>
  The daemon process over time (\<^verbatim>\<open>internal/daemon/server.go\<close>): the server a start makes, the
  connections it holds, and the steps it takes. A handshake and the session that follows it are
  two steps, as in \<^verbatim>\<open>handleConn\<close>, so other connections may act in between; a request runs on the
  connection it came from. A panic ends the process.
\<close>

section \<open>Start\<close>

text \<open>\<^verbatim>\<open>New\<close>: fresh services over an opened database.\<close>

definition no_conn :: conn_state where
  "no_conn = \<lparr>cs_session = None, cs_client_id = zero_id, cs_pairing = False, cs_static_key = []\<rparr>"

definition new_server :: "deps \<Rightarrow> dstate \<Rightarrow> dstate" where
  "new_server D s =
     s\<lparr>vault := zero_vault, loaded := False, keyring := None, root_key := None, failed_unlocks := 0,
       next_unlock_at := zero_time, catalog_high_water := 0, on_lock := lock_hooks,
       mem := \<lparr>rec_index = new_index, am_sessions = [], am_pending = [], am_daemon_static_key = dp_static_public D\<rparr>,
       stopping := False, conn := no_conn\<rparr>"

section \<open>Steps\<close>

record world =
  w_state :: dstate
  w_shaken :: "nat \<Rightarrow> (hello \<times> bytes) option"
  w_conns :: "nat \<Rightarrow> conn_state option"
  w_crashed :: bool

datatype action =
    Wait int
  | Shake nat hello bytes
  | Build nat
  | Request nat bytes
  | Tamper nat
  | Hang_up nat
  | Reject
  | Idle_check
  | Put_file string bytes

text \<open>The daemon's side of the handshake, as far as it decides: the mode, the client's row and the
  pinned key. That the other side holds the key \<open>remote\<close> is what the Noise library shows.\<close>

definition shake_check :: "hello \<Rightarrow> bytes \<Rightarrow> unit dprog" where
  "shake_check h remote =
     (if he_version h \<noteq> 1 then mthrow ErrProtocolViolation
      else if he_mode h = mode_pairing \<or> he_mode h = mode_cli then mreturn ()
      else if he_mode h = mode_paired then
        mbind (lookup_client h) (\<lambda>(psk, pinned).
        mguard (equal_keys remote pinned) ErrStaticKeyMismatch)
      else mthrow ErrUnknownMode)"

definition shake :: "deps \<Rightarrow> hello \<Rightarrow> bytes \<Rightarrow> unit dprog" where
  "shake D h remote =
     mbind (attempt (shake_check h remote)) (\<lambda>r. case r of
       Inl e \<Rightarrow> mbind (note_event (dp_crypto D) SeverityWarning EventTransportHandshakeFailed) (\<lambda>_. mthrow e)
     | Inr _ \<Rightarrow> mreturn ())"

definition build :: "deps \<Rightarrow> hello \<Rightarrow> bytes \<Rightarrow> conn_state dprog" where
  "build D h remote =
     mbind (attempt (build_conn_state h remote)) (\<lambda>r. case r of
       Inl e \<Rightarrow> mbind (note_event (dp_crypto D) SeverityWarning EventTransportHandshakeFailed) (\<lambda>_. mthrow e)
     | Inr c \<Rightarrow> mreturn c)"

text \<open>The outcome of a program in the world: only a panic ends the process.\<close>

definition settle_step :: "world \<Rightarrow> (err + 'r) \<times> dstate \<Rightarrow> ('r \<Rightarrow> world \<Rightarrow> world) \<Rightarrow> world" where
  "settle_step w res f =
     (case res of
        (Inl e, t) \<Rightarrow> w\<lparr>w_state := t, w_crashed := (e = Panic)\<rparr>
      | (Inr r, t) \<Rightarrow> f r (w\<lparr>w_state := t\<rparr>))"

fun act :: "deps \<Rightarrow> action \<Rightarrow> world \<Rightarrow> world" where
  "act D (Wait d) w = w\<lparr>w_state := (w_state w)\<lparr>now := now (w_state w) + d\<rparr>\<rparr>"
| "act D (Shake n h remote) w =
     settle_step w (shake D h remote (w_state w)) (\<lambda>_ w. w\<lparr>w_shaken := (w_shaken w)(n \<mapsto> (h, remote))\<rparr>)"
| "act D (Build n) w =
     (case w_shaken w n of
        None \<Rightarrow> w
      | Some (h, remote) \<Rightarrow>
          settle_step (w\<lparr>w_shaken := (w_shaken w)(n := None)\<rparr>) (build D h remote (w_state w))
            (\<lambda>c w. w\<lparr>w_conns := (w_conns w)(n \<mapsto> c)\<rparr>))"
| "act D (Request n raw) w =
     (case w_conns w n of
        None \<Rightarrow> w
      | Some c \<Rightarrow>
          settle_step w (handle D raw ((w_state w)\<lparr>conn := c\<rparr>))
            (\<lambda>_ w. w\<lparr>w_conns := (w_conns w)(n \<mapsto> conn (w_state w))\<rparr>))"
| "act D (Tamper n) w =
     (case w_conns w n of
        None \<Rightarrow> w
      | Some _ \<Rightarrow>
          settle_step (w\<lparr>w_conns := (w_conns w)(n := None)\<rparr>)
            (note_event (dp_crypto D) SeverityWarning EventProtocolViolation (w_state w)) (\<lambda>_ w. w))"
| "act D (Hang_up n) w = w\<lparr>w_shaken := (w_shaken w)(n := None), w_conns := (w_conns w)(n := None)\<rparr>"
| "act D Reject w =
     settle_step w (note_event (dp_crypto D) SeverityWarning EventUnauthorizedRequest (w_state w)) (\<lambda>_ w. w)"
| "act D Idle_check w = settle_step w (enforce_idle_lock D (now (w_state w)) (w_state w)) (\<lambda>_ w. w)"
| "act D (Put_file p b) w =
     (if p \<in> set (vault_files (dp_db_path D)) then w
      else w\<lparr>w_state := (w_state w)\<lparr>files := (files (w_state w))(p \<mapsto> Blob b)\<rparr>\<rparr>)"

definition started :: "deps \<Rightarrow> dstate \<Rightarrow> world" where
  "started D s = \<lparr>w_state = new_server D s, w_shaken = (\<lambda>_. None), w_conns = (\<lambda>_. None), w_crashed = False\<rparr>"

text \<open>The worlds the daemon can be in: time never runs backwards, and nothing follows a panic.\<close>

inductive reach :: "deps \<Rightarrow> dstate \<Rightarrow> world \<Rightarrow> bool" for D s where
  reach_start: "reach D s (started D s)"
| reach_act: "reach D s w \<Longrightarrow> \<not> w_crashed w \<Longrightarrow> (\<And>d. a = Wait d \<Longrightarrow> 0 \<le> d) \<Longrightarrow> reach D s (act D a w)"

section \<open>The invariant of the world\<close>

definition world_inv :: "deps \<Rightarrow> world \<Rightarrow> bool" where
  "world_inv D w \<longleftrightarrow> daemon_inv D (w_state w) \<and> (\<forall>n c. w_conns w n = Some c \<longrightarrow> conn_least c)"

lemma inv_new_server: "good_db (db s) \<Longrightarrow> daemon_inv D (new_server D s)"
  by (simp add: new_server_def daemon_inv_def mem_inv_def key_inv_def pending_ok_def good_db_def conn_least_def
      no_conn_def zero_vault_def is_unlocked_def)

lemma inv_shake: "obeys (keeps_inv (daemon_inv D)) (shake D h remote)"
  unfolding shake_def shake_check_def by (intro inv.ok_intros inv.ok_err inv_lookup_client inv_note)

lemma inv_build_step: "obeys (keeps_inv (daemon_inv D)) (build D h remote)"
  unfolding build_def by (intro inv.ok_intros inv.ok_err inv_build inv_note)

lemma build_Inr: "build D h remote s = (Inr c, t) \<longleftrightarrow> build_conn_state h remote s = (Inr c, t)"
  by (auto simp: build_def mbind_Inr_iff attempt_Inr_iff prog_simps sum_prog_iff)

lemma lookup_least: "lookup i s = (Inr c, t) \<Longrightarrow> clients_least (db s) \<Longrightarrow> least (cl_capabilities c) \<and> db t = db s"
  by (auto simp: lookup_Inr_iff client_of_row_def clients_least_def dest!: pk_find_Some)

lemma build_least:
  assumes "build_conn_state h remote s = (Inr c, t)" and "daemon_inv D s"
  shows "conn_least c"
  using assms
  by (auto simp: build_conn_state_def mbind_Inr_iff prog_simps conn_least_def daemon_inv_def clients_least_def client_of_row_def
      split: if_splits dest!: issued_capabilities pk_find_Some)

lemma daemon_inv_conn: "daemon_inv D s \<Longrightarrow> conn_least c \<Longrightarrow> daemon_inv D (s\<lparr>conn := c\<rparr>)"
  by (simp add: daemon_inv_def mem_inv_def key_inv_def)

lemma inv_conn_least: "daemon_inv D s \<Longrightarrow> conn_least (conn s)"
  by (simp add: daemon_inv_def)

lemma world_inv_settle:
  assumes "obeys (keeps_inv (daemon_inv D)) m" and "daemon_inv D s" and "world_inv D w"
    and "\<And>r w'. m s = (Inr r, w_state w') \<Longrightarrow> world_inv D w' \<Longrightarrow> w_conns w' = w_conns w \<Longrightarrow> world_inv D (f r w')"
  shows "world_inv D (settle_step w (m s) f)"
proof (cases "m s")
  case (Pair r t)
  have "daemon_inv D t" using inv_okD [OF assms(1) Pair assms(2)] .
  with assms(3) have "world_inv D (w\<lparr>w_state := t\<rparr>)" by (simp add: world_inv_def)
  with assms(4) [of _ "w\<lparr>w_state := t\<rparr>"] Pair show ?thesis
    by (cases r) (auto simp: settle_step_def world_inv_def)
qed

lemma world_inv_act:
  assumes "images_ok (dp_files D)" and "world_inv D w"
  shows "world_inv D (act D a w)"
proof (cases a)
  case (Wait d)
  with assms show ?thesis by (simp add: world_inv_def daemon_inv_def mem_inv_def key_inv_def)
next
  case (Shake n h remote)
  have i: "daemon_inv D (w_state w)" using assms(2) by (simp add: world_inv_def)
  show ?thesis unfolding Shake act.simps
    by (rule world_inv_settle [OF inv_shake i assms(2)]) (simp add: world_inv_def)
next
  case (Build n)
  have i: "daemon_inv D (w_state w)" using assms(2) by (simp add: world_inv_def)
  show ?thesis
  proof (cases "w_shaken w n")
    case (Some x)
    obtain h remote where x: "x = (h, remote)" by (cases x)
    have w: "world_inv D (w\<lparr>w_shaken := (w_shaken w)(n := None)\<rparr>)" using assms(2) by (simp add: world_inv_def)
    show ?thesis unfolding Build act.simps Some x option.case prod.case
      by (rule world_inv_settle [OF inv_build_step i w])
        (auto simp: world_inv_def build_Inr dest: build_least [OF _ i])
  qed (simp add: Build assms(2))
next
  case (Request n raw)
  show ?thesis
  proof (cases "w_conns w n")
    case (Some c)
    then have i: "daemon_inv D ((w_state w)\<lparr>conn := c\<rparr>)"
      using assms(2) by (auto simp: world_inv_def intro: daemon_inv_conn)
    show ?thesis unfolding Request act.simps Some option.case
      by (rule world_inv_settle [OF inv_handle [OF assms(1)] i assms(2)])
        (auto simp: world_inv_def dest: inv_conn_least)
  qed (simp add: Request assms(2))
next
  case (Hang_up n)
  with assms show ?thesis by (simp add: world_inv_def)
next
  case (Tamper n)
  have i: "daemon_inv D (w_state w)" using assms(2) by (simp add: world_inv_def)
  have w: "world_inv D (w\<lparr>w_conns := (w_conns w)(n := None)\<rparr>)" using assms(2) by (simp add: world_inv_def)
  show ?thesis unfolding Tamper act.simps
    by (cases "w_conns w n") (simp_all add: assms(2) world_inv_settle [OF inv_note i w])
next
  case Reject
  have i: "daemon_inv D (w_state w)" using assms(2) by (simp add: world_inv_def)
  show ?thesis unfolding Reject act.simps
    by (rule world_inv_settle [OF inv_note i assms(2)]) simp
next
  case Idle_check
  have i: "daemon_inv D (w_state w)" using assms(2) by (simp add: world_inv_def)
  show ?thesis unfolding Idle_check act.simps
    by (rule world_inv_settle [OF inv_idle_lock i assms(2)]) simp
next
  case (Put_file p b)
  with assms show ?thesis by (simp add: world_inv_def daemon_inv_def mem_inv_def key_inv_def)
qed

lemma reach_inv:
  assumes "reach D s w" and "images_ok (dp_files D)" and "good_db (db s)"
  shows "world_inv D w"
  using assms(1)
proof induction
  case reach_start
  show ?case using inv_new_server [OF assms(3)] by (simp add: started_def world_inv_def)
next
  case (reach_act w a)
  then show ?case by (intro world_inv_act assms(2))
qed

section \<open>The end of the process\<close>

text \<open>\<^verbatim>\<open>run\<close> of \<^verbatim>\<open>cmd/vaultd/main.go\<close> after the serving: when it ends, with or without an error, the vault is locked; a panic ends the process before.\<close>

definition daemon_stop :: "world \<Rightarrow> world" where
  "daemon_stop w = (if w_crashed w then w else w\<lparr>w_state := snd (lock (w_state w))\<rparr>)"

lemma stopped_daemon_is_locked: "\<not> w_crashed w \<Longrightarrow> locked_inv (w_state (daemon_stop w))"
  by (simp add: daemon_stop_def locked_lock)

end
