(* ===== verification/Requests.thy ===== *)
theory Requests
  imports World
begin

text \<open>
  What a request that is answered positively has shown, and what a refused one leaves behind: the
  session table, the connection's session and an event in the log.
\<close>

section \<open>What admission keeps\<close>

definition kept :: "dstate \<Rightarrow> db \<times> (vault_agg \<times> bool \<times> keyring option \<times> bytes option) \<times>
    (nat \<times> go_time \<times> i64 \<times> (access_mem \<Rightarrow> access_mem) list) \<times> access_mem \<times>
    (string \<Rightarrow> file_content option) \<times> bool \<times> (go_time \<times> bool)" where
  "kept s = (besides_events (db s), (vault s, loaded s, keyring s, root_key s),
     (failed_unlocks s, next_unlock_at s, catalog_high_water s, on_lock s), (mem s)\<lparr>am_sessions := []\<rparr>,
     files s, stopping s, (now s, db_open s))"

lemma more_dsys:
  assumes "env.more (s :: dstate) = env.more t"
  shows "vault s = vault t" "loaded s = loaded t" "keyring s = keyring t" "root_key s = root_key t"
    "failed_unlocks s = failed_unlocks t" "next_unlock_at s = next_unlock_at t"
    "catalog_high_water s = catalog_high_water t" "on_lock s = on_lock t" "mem s = mem t"
    "files s = files t" "stopping s = stopping t" "conn s = conn t"
  using assms by (cases s; cases t; simp)+

lemma kept_by:
  assumes "obeys (same_on fixed) m" and "obeys (same_on (\<lambda>s. besides_events (db s))) m"
  shows "obeys (same_on kept) m"
  unfolding obeys_def same_on_def
proof
  fix s
  have f: "fixed (snd (m s)) = fixed s" and b: "besides_events (db (snd (m s))) = besides_events (db s)"
    using assms by (simp_all add: obeys_def same_on_def)
  then have "env.more (snd (m s)) = env.more s" "now (snd (m s)) = now s" "db_open (snd (m s)) = db_open s"
    by (simp_all add: fixed_def)
  with b show "kept (snd (m s)) = kept s"
    unfolding kept_def by (simp add: more_dsys [of "snd (m s)" s])
qed

lemma kept_db:
  assumes "obeys (same_on fixed) m" and "obeys (same_on db) m"
  shows "obeys (same_on kept) m"
  using assms by (intro kept_by) (simp_all add: obeys_def same_on_def)

lemma same_db_get [intro]: "obeys (same_on db) (get_client i)"
  by (auto simp: obeys_def same_on_def get_client_def sql_query_def io_step_def mbind_unfold prog_simps split: if_splits sum.splits)

lemma kept_lookup [intro]: "obeys (same_on kept) (lookup i)"
proof (rule kept_db)
  show "obeys (same_on db) (lookup i)" unfolding lookup_def by (intro same.ok_intros same.ok_err same_db_get)
qed (rule fixed_access)

lemma kept_note [intro]: "obeys (same_on kept) (note_event P sev code)"
  by (intro kept_by fixed_note_event besides_note_event)

lemma kept_steps [intro]:
  "obeys (same_on kept) (with_sessions f)" "obeys (same_on kept) (set_session se)" "obeys (same_on kept) new_id"
proof -
  show "obeys (same_on kept) (with_sessions f)" by (simp add: obeys_def same_on_def kept_def prog_simps)
  show "obeys (same_on kept) (set_session se)" by (simp add: obeys_def same_on_def kept_def set_session_def prog_simps)
  show "obeys (same_on kept) new_id"
    unfolding new_id_def by (intro kept_db fixed_random same_db_basic)
qed

lemma kept_renew: "obeys (same_on kept) (renew se epoch)"
  unfolding renew_def renewed_capabilities_def issue_def Let_def
  by (intro same.ok_intros same.ok_err kept_lookup kept_steps)

lemma kept_authorize: "obeys (same_on kept) (authorize oper cap)"
  unfolding authorize_def validate_def by (intro same.ok_intros same.ok_err kept_renew kept_steps)

lemma kept_admit: "obeys (same_on kept) (admit D oper)"
  unfolding admit_def by (intro same.ok_intros same.ok_err kept_authorize kept_note)

text \<open>Admission never turns one connection into another.\<close>

definition peer :: "dstate \<Rightarrow> ident \<times> bool \<times> bytes" where
  "peer s = (cs_client_id (conn s), cs_pairing (conn s), cs_static_key (conn s))"

lemma peer_conn: "obeys (same_on (\<lambda>s :: dstate. conn s)) m \<Longrightarrow> obeys (same_on peer) m"
  by (simp add: obeys_def same_on_def peer_def)

lemma peer_set: "obeys (same_on peer) (set_session se)"
  by (simp add: obeys_def same_on_def peer_def set_session_def prog_simps)

lemma peer_admit: "obeys (same_on peer) (admit D oper)"
  unfolding admit_def authorize_def renew_def
  by (intro same.ok_intros same.ok_err peer_set peer_conn conn_renewed conn_steps.access_steps conn_steps.event_steps)

section \<open>What admission shows\<close>

text \<open>The session the connection holds after admission is in the table, live, and has the capability.\<close>

definition holds :: "capability \<Rightarrow> dstate \<Rightarrow> bool" where
  "holds cap s \<longleftrightarrow> (\<exists>se live. cs_session (conn s) = Some se \<and> has (se_capabilities se) cap \<and>
     map_of (sessions s) (se_id se) = Some live \<and> valid_at live (now s) (v_epoch (vault s)))"

lemma sessions_conn [simp]: "sessions (s\<lparr>conn := c\<rparr>) = sessions (s :: dstate)"
  by (simp add: sessions_def)

lemma sessions_sessions [simp]: "sessions (s\<lparr>mem := m\<lparr>am_sessions := x\<rparr>\<rparr>) = x"
  by (simp add: sessions_def)

lemma renew_Inr:
  assumes "renew se epoch s = (Inr fresh, t)"
  shows "\<exists>caps u. renewed_capabilities se s = (Inr caps, u) \<and> fresh = new_session (se_id fresh) (cs_client_id (conn u)) caps epoch (now u) \<and>
    conn t = (conn u)\<lparr>cs_session := Some fresh\<rparr> \<and> map_of (sessions t) (se_id fresh) = Some fresh \<and>
    now t = now u \<and> vault t = vault u"
  using assms
  by (auto simp: renew_def mbind_Inr_iff mget_eq mreturn_eq replace_error_Inr_iff set_session_def mmodify_eq update_Some_unfold
      dest!: issue_Inr)

lemma renewed_frame: "renewed_capabilities se s = (Inr caps, u) \<Longrightarrow> now u = now s \<and> vault u = vault s \<and> conn u = conn s \<and> sessions u = sessions s"
  by (auto simp: renewed_capabilities_def mbind_Inr_iff prog_simps split: if_splits)

lemma authorize_cases:
  assumes "authorize oper cap s = (Inr (), t)"
  obtains (valid) se live se' where "cs_session (conn s) = Some se" "map_of (sessions s) (se_id se) = Some live"
      "valid_at live (now s) (v_epoch (vault s))" "has (se_capabilities se) cap"
      "validate (se_id se) (v_epoch (vault s)) (oper \<notin> set idle_exempt_ops) s = (Inr se', t)" "conn t = conn s"
  | (renewed) se u fresh where "cs_session (conn s) = Some se"
      "validate (se_id se) (v_epoch (vault s)) (oper \<notin> set idle_exempt_ops) s = (Inl ErrAuthorizationDeny, u)"
      "is_unlocked (vault s) \<or> oper \<in> set locked_state_ops"
      "renew se (v_epoch (vault s)) u = (Inr fresh, t)" "has (se_capabilities fresh) cap"
      "now u = now s" "vault u = vault s" "conn u = conn s" "db u = db s"
proof -
  from assms obtain se where se: "cs_session (conn s) = Some se"
    and rest: "mbind (attempt (validate (se_id se) (v_epoch (vault s)) (oper \<notin> set idle_exempt_ops))) (\<lambda>r. case r of
         Inr _ \<Rightarrow> mlift (session_authorize se cap)
       | Inl _ \<Rightarrow>
           mbind (mget (\<lambda>s. \<not> is_unlocked (vault s) \<and> oper \<notin> set locked_state_ops)) (\<lambda>refused.
           mbind (mguard (\<not> refused) ErrAuthorizationDeny) (\<lambda>_.
           mbind (renew se (v_epoch (vault s))) (\<lambda>fresh. mlift (session_authorize fresh cap))))) s = (Inr (), t)"
    by (auto simp: authorize_def mbind_Inr_iff mget_eq mthrow_eq split: option.splits)
  from rest obtain r u where v: "validate (se_id se) (v_epoch (vault s)) (oper \<notin> set idle_exempt_ops) s = (r, u)"
    and k: "(case r of
         Inr _ \<Rightarrow> mlift (session_authorize se cap)
       | Inl _ \<Rightarrow>
           mbind (mget (\<lambda>s. \<not> is_unlocked (vault s) \<and> oper \<notin> set locked_state_ops)) (\<lambda>refused.
           mbind (mguard (\<not> refused) ErrAuthorizationDeny) (\<lambda>_.
           mbind (renew se (v_epoch (vault s))) (\<lambda>fresh. mlift (session_authorize fresh cap))))) u = (Inr (), t)"
    by (auto simp: mbind_Inr_iff attempt_Inr_iff)
  show ?thesis
  proof (cases r)
    case (Inr se')
    with k have "t = u" "session_authorize se cap = Inr ()" by (auto simp: mlift_eq)
    moreover from v Inr obtain live where "map_of (sessions s) (se_id se) = Some live"
      "valid_at live (now s) (v_epoch (vault s))" "conn u = conn s"
      by (auto simp: validate_Inr_iff split: if_splits)
    ultimately show ?thesis using v Inr se valid by (simp add: session_authorize_iff)
  next
    case (Inl e)
    with v have u: "e = ErrAuthorizationDeny" "now u = now s" "vault u = vault s" "conn u = conn s" "db u = db s"
      by (auto simp: validate_Inl_iff split: option.splits)
    from k Inl u obtain fresh where "is_unlocked (vault s) \<or> oper \<in> set locked_state_ops"
      "renew se (v_epoch (vault s)) u = (Inr fresh, t)" "session_authorize fresh cap = Inr ()"
      by (auto simp: mbind_Inr_iff mget_eq mguard_eq mlift_eq split: if_splits)
    with v Inl se u show ?thesis by (intro renewed [of se u fresh]) (simp_all add: session_authorize_iff)
  qed
qed

lemma authorize_holds:
  assumes "authorize oper cap s = (Inr (), t)"
  shows "holds cap t"
  using assms
proof (cases rule: authorize_cases)
  case (valid se live se')
  then show ?thesis by (auto simp: holds_def validate_Inr_iff valid_at_def split: if_splits)
next
  case (renewed se u fresh)
  from renew_Inr [OF renewed(4)] obtain caps v where
    r: "renewed_capabilities se u = (Inr caps, v)" "fresh = new_session (se_id fresh) (cs_client_id (conn v)) caps (v_epoch (vault s)) (now v)"
    "conn t = (conn v)\<lparr>cs_session := Some fresh\<rparr>" "map_of (sessions t) (se_id fresh) = Some fresh" "now t = now v" "vault t = vault v"
    by blast
  have "valid_at fresh (now v) (v_epoch (vault s))" by (subst r(2)) (rule valid_new_session)
  with r renewed_frame [OF r(1)] renewed show ?thesis by (auto simp: holds_def)
qed

text \<open>A connection whose session is gone from the table needs a new one, and for that an approved
  client; and while the vault is locked only the operations of the locked state.\<close>

lemma authorize_gone:
  assumes "authorize oper cap s = (Inr (), t)" and "cs_session (conn s) = Some se" and "map_of (sessions s) (se_id se) = None"
  shows "(is_unlocked (vault s) \<or> oper \<in> set locked_state_ops) \<and>
    (cs_client_id (conn s) \<noteq> zero_id \<longrightarrow> client_status (db s) (cs_client_id (conn s)) = Some status_approved)"
  using assms(1)
proof (cases rule: authorize_cases)
  case (valid se' live x)
  with assms show ?thesis by simp
next
  case (renewed se' u fresh)
  from renew_Inr [OF renewed(4)] obtain caps v where r: "renewed_capabilities se' u = (Inr caps, v)" by blast
  then have "cs_client_id (conn u) \<noteq> zero_id \<longrightarrow> client_status (db u) (cs_client_id (conn u)) = Some status_approved"
    by (auto simp: renewed_capabilities_def mbind_Inr_iff mget_eq mguard_eq replace_error_Inr_iff id_is_zero_def lookup_approved split: if_splits)
  with renewed show ?thesis by simp
qed

section \<open>Requests\<close>

lemma admit_Inr_iff:
  "admit D oper s = (Inr (), u) \<longleftrightarrow>
     (if cs_pairing (conn s) then oper \<in> set pairing_ops \<and> u = s
      else \<exists>cap. map_of required_capability oper = Some cap \<and> authorize oper cap s = (Inr (), u))"
  by (auto simp: admit_def mbind_Inr_iff mget_eq mreturn_eq mthrow_eq attempt_Inr_iff sum_prog_iff split: option.splits if_splits)

lemma handle_ok:
  assumes "handle D raw s = (Inr resp, t)" and "rs_ok resp"
  obtains req u data where "un_request (dp_wire D) raw = Some req" "rq_protocol_version req = protocol_version"
    "admit D (rq_operation req) s = (Inr (), u)" "dispatch D (rq_operation req) (rq_payload req) u = (Inr data, t)"
proof (cases "un_request (dp_wire D) raw")
  case None
  with assms show ?thesis by (auto simp: handle_def mreturn_eq err_response_def)
next
  case (Some req)
  show ?thesis
  proof (cases "rq_protocol_version req = protocol_version")
    case True
    with assms(1) Some obtain r where r: "mbind (admit D (rq_operation req)) (\<lambda>_. dispatch D (rq_operation req) (rq_payload req)) s = (r, t)"
      "resp = answer D (rq_request_id req) r"
      by (auto simp: handle_def mbind_Inr_iff attempt_Inr_iff mreturn_eq)
    from r(2) assms(2) obtain data where "r = Inr data" by (cases r) (auto simp: answer_def err_response_def)
    with r(1) Some True show ?thesis by (auto simp: mbind_Inr_iff intro: that)
  next
    case False
    with assms Some show ?thesis by (auto simp: handle_def mreturn_eq err_response_def)
  qed
qed

text \<open>A refused request: the answer is the error, and what admission keeps is kept.\<close>

lemma handle_refused:
  assumes "un_request (dp_wire D) raw = Some req" and "rq_protocol_version req = protocol_version"
    and "\<And>u. admit D (rq_operation req) s \<noteq> (Inr (), u)"
  shows "kept (snd (handle D raw s)) = kept s \<and> (\<forall>resp. fst (handle D raw s) = Inr resp \<longrightarrow> \<not> rs_ok resp)"
proof -
  obtain r t where a: "admit D (rq_operation req) s = (r, t)" by (cases "admit D (rq_operation req) s")
  then obtain e where e: "r = Inl e" using assms(3) by (cases r) auto
  have k: "kept t = kept s" by (rule same_okD [OF kept_admit a])
  have "mbind (admit D (rq_operation req)) (\<lambda>_. dispatch D (rq_operation req) (rq_payload req)) s = (Inl e, t)"
    using a e by (simp add: mbind_unfold)
  then show ?thesis
    using assms(1,2) k by (cases e) (simp_all add: handle_def mbind_unfold attempt_def answer_def err_response_def mreturn_eq)
qed

lemma granted:
  assumes "handle D raw s = (Inr resp, t)" and "rs_ok resp"
  shows "\<exists>req u data. un_request (dp_wire D) raw = Some req \<and> rq_protocol_version req = protocol_version \<and>
    kept u = kept s \<and> peer u = peer s \<and> dispatch D (rq_operation req) (rq_payload req) u = (Inr data, t) \<and>
    (if cs_pairing (conn s) then rq_operation req \<in> set pairing_ops
     else \<exists>cap. map_of required_capability (rq_operation req) = Some cap \<and> holds cap u)"
proof -
  from assms obtain req u data where r: "un_request (dp_wire D) raw = Some req" "rq_protocol_version req = protocol_version"
    "admit D (rq_operation req) s = (Inr (), u)" "dispatch D (rq_operation req) (rq_payload req) u = (Inr data, t)"
    by (rule handle_ok)
  have "kept u = kept s" "peer u = peer s" using same_okD [OF kept_admit r(3)] same_okD [OF peer_admit r(3)] by auto
  moreover have "if cs_pairing (conn s) then rq_operation req \<in> set pairing_ops
     else \<exists>cap. map_of required_capability (rq_operation req) = Some cap \<and> holds cap u"
    using r(3) authorize_holds by (auto simp: admit_Inr_iff split: if_splits)
  ultimately show ?thesis using r by blast
qed

section \<open>Clients\<close>

lemma paired_never_administrative:
  assumes "daemon_inv D s" and "cs_client_id (conn s) \<noteq> zero_id" and "\<not> cs_pairing (conn s)"
    and "map_of required_capability oper = Some cap" and "cap \<in> administrative"
  shows "admit D oper s \<noteq> (Inr (), u)"
proof
  assume a: "admit D oper s = (Inr (), u)"
  then have "holds cap u" using assms(3,4) authorize_holds by (auto simp: admit_Inr_iff)
  moreover have "conn_least (conn u)" by (rule inv_conn_least [OF inv_okD [OF inv_admit a assms(1)]])
  moreover have "cs_client_id (conn u) \<noteq> zero_id" using same_okD [OF peer_admit a] assms(2) by (simp add: peer_def)
  ultimately show False using assms(5) by (auto simp: holds_def conn_least_def least_def)
qed

lemma admit_gone:
  assumes "admit D oper s = (Inr (), u)" and "\<not> cs_pairing (conn s)" and "cs_session (conn s) = Some se"
    and "map_of (sessions s) (se_id se) = None"
  shows "(is_unlocked (vault s) \<or> oper \<in> set locked_state_ops) \<and>
    (cs_client_id (conn s) \<noteq> zero_id \<longrightarrow> client_status (db s) (cs_client_id (conn s)) = Some status_approved)"
proof -
  from assms(1,2) obtain cap where "authorize oper cap s = (Inr (), u)" by (auto simp: admit_Inr_iff)
  from authorize_gone [OF this assms(3,4)] show ?thesis .
qed

end
