(* ===== verification/Operations.thy ===== *)
theory Operations
  imports Requests
begin

text \<open>
  What single operations of the daemon achieve: unlocking, locking and the idle lock, the
  login-only writes of the browser extension, revocation, and the failures of destruction.
\<close>

section \<open>Locking\<close>

definition shut :: "dstate \<Rightarrow> bool" where
  "shut s \<longleftrightarrow> \<not> is_unlocked (vault s) \<and> keyring s = None \<and> root_key s = None \<and>
     rec_index (mem s) = new_index \<and> sessions s = []"

lemma lock_shuts:
  assumes "on_lock s = lock_hooks"
  shows "lock s = (Inr (), snd (lock s))" "shut (snd (lock s))" "db (snd (lock s)) = db s"
    "pending (snd (lock s)) = pending s" "db_open (snd (lock s)) = db_open s"
    "v_epoch (vault (snd (lock s))) = (if is_unlocked (vault s) then v_epoch (vault s) + 1 else v_epoch (vault s))"
    "conn (snd (lock s)) = conn s" "on_lock (snd (lock s)) = lock_hooks"
  using assms
  by (simp_all add: lock_def mmodify_eq shut_def run_on_lock_def lock_fields_def lock_hooks_def clear_index_def invalidate_all_def
      index_clear_def is_unlocked_def agg_lock_def sessions_def pending_def)

lemma besides_fields [simp]:
  "t_records (besides_events d) = t_records d" "t_clients (besides_events d) = t_clients d"
  "t_envelopes (besides_events d) = t_envelopes d" "t_vault (besides_events d) = t_vault d"
  "t_state (besides_events d) = t_state d"
  by (simp_all add: besides_events_def)

lemma besides_tables:
  assumes "besides_events d = besides_events d'"
  shows "t_records d = t_records d'" "t_clients d = t_clients d'" "t_envelopes d = t_envelopes d'"
    "t_vault d = t_vault d'" "t_state d = t_state d'"
  using arg_cong [OF assms, of t_records] arg_cong [OF assms, of t_clients] arg_cong [OF assms, of t_envelopes]
    arg_cong [OF assms, of t_vault] arg_cong [OF assms, of t_state] by simp_all

lemma kept_fields:
  assumes "kept t = kept s"
  shows "vault t = vault s" "keyring t = keyring s" "root_key t = root_key s" "rec_index (mem t) = rec_index (mem s)"
    "t_records (db t) = t_records (db s)" "t_clients (db t) = t_clients (db s)" "t_envelopes (db t) = t_envelopes (db s)"
    "t_vault (db t) = t_vault (db s)" "t_state (db t) = t_state (db s)" "pending t = pending s" "files t = files s"
    "db_open t = db_open s" "now t = now s" "on_lock t = on_lock s" "catalog_high_water t = catalog_high_water s"
    "failed_unlocks t = failed_unlocks s" "next_unlock_at t = next_unlock_at s"
proof -
  have b: "besides_events (db t) = besides_events (db s)" using assms by (simp add: kept_def)
  show "t_records (db t) = t_records (db s)" "t_clients (db t) = t_clients (db s)" "t_envelopes (db t) = t_envelopes (db s)"
    "t_vault (db t) = t_vault (db s)" "t_state (db t) = t_state (db s)" by (rule besides_tables [OF b])+
  have m: "(mem t)\<lparr>am_sessions := []\<rparr> = (mem s)\<lparr>am_sessions := []\<rparr>" using assms by (simp add: kept_def)
  show "rec_index (mem t) = rec_index (mem s)" "pending t = pending s"
    using arg_cong [OF m, of rec_index] arg_cong [OF m, of am_pending] by (simp_all add: pending_def)
qed (use assms in \<open>simp_all add: kept_def\<close>)

lemma note_keeps:
  assumes "note_event P sev code s = (r, t)"
  shows "kept t = kept s" "mem t = mem s" "conn t = conn (s :: dstate)" "vault t = vault s"
proof -
  show "kept t = kept s" by (rule same_okD [OF kept_note assms])
  have "fixed t = fixed s" by (rule same_okD [OF fixed_note_event assms])
  then have "env.more t = env.more s" by (simp add: fixed_def)
  from more_dsys [OF this] show "mem t = mem s" "conn t = conn s" "vault t = vault s" by simp_all
qed

lemma shut_noted: "note_event P sev code s = (r, t) \<Longrightarrow> shut s \<Longrightarrow> shut t"
  using note_keeps [of P sev code s r t] kept_fields [of t s] by (simp add: shut_def sessions_def)

lemma op_lock_Inr:
  assumes "op_lock D code s = (Inr r, t)" and "on_lock s = lock_hooks"
  shows "r = ReplyEmpty \<and> shut t \<and> besides_events (db t) = besides_events (db s) \<and> pending t = pending s \<and>
    v_epoch (vault t) = (if is_unlocked (vault s) then v_epoch (vault s) + 1 else v_epoch (vault s))"
proof -
  let ?u = "snd (lock s)"
  have "op_lock D code s = mbind (note_event (dp_crypto D) SeverityInfo code) (\<lambda>_. mreturn ReplyEmpty) ?u"
    unfolding op_lock_def by (rule mbind_Inr [where m = lock, OF lock_shuts(1) [OF assms(2)]])
  with assms(1) obtain v where n: "note_event (dp_crypto D) SeverityInfo code ?u = (Inr v, t)" "r = ReplyEmpty"
    by (simp only: mbind_Inr_iff mreturn_eq) blast
  have k: "kept t = kept ?u" by (rule note_keeps(1) [OF n(1)])
  then have "besides_events (db t) = besides_events (db ?u)" by (simp add: kept_def)
  with kept_fields(1,10) [OF k] lock_shuts(2-6) [OF assms(2)] shut_noted [OF n(1)] n(2) show ?thesis by simp
qed

text \<open>After a lock no connection has a session left: what it asks for is refused, but for the
  operations of the locked state.\<close>

lemma shut_refuses:
  assumes "shut s" and "\<not> cs_pairing c" and "oper \<notin> set locked_state_ops"
  shows "admit D oper (s\<lparr>conn := c\<rparr>) \<noteq> (Inr (), u)"
proof
  assume a: "admit D oper (s\<lparr>conn := c\<rparr>) = (Inr (), u)"
  with assms(2) obtain cap where au: "authorize oper cap (s\<lparr>conn := c\<rparr>) = (Inr (), u)" by (auto simp: admit_Inr_iff)
  then obtain se where "cs_session c = Some se" by (cases rule: authorize_cases) auto
  with admit_gone [OF a] assms show False by (simp add: shut_def)
qed

section \<open>The idle lock\<close>

lemma idle_lock_iff:
  assumes "enforce_idle_lock D t s = (Inr b, u)" and "on_lock s = lock_hooks"
  shows "(b \<longleftrightarrow> is_unlocked (vault s) \<and> 0 < v_auto_lock_after (vault s) \<and>
       (\<forall>se \<in> snd ` set (sessions s). now s \<le> se_expires_at se \<longrightarrow> v_auto_lock_after (vault s) \<le> t - se_last_activity se)) \<and>
    (if b then shut u \<and> besides_events (db u) = besides_events (db s) else u = s)"
proof -
  let ?live = "live_activity (now s) (map snd (sessions s))" and ?w = "v_auto_lock_after (vault s)"
  have live: "?live = se_last_activity ` {se \<in> snd ` set (sessions s). now s \<le> se_expires_at se}"
    by (auto simp: live_activity_def not_less)
  define busy where "busy \<longleftrightarrow> ?live \<noteq> {} \<and> t - Max ?live < ?w"
  have all: "\<not> busy \<longleftrightarrow> (\<forall>se \<in> snd ` set (sessions s). now s \<le> se_expires_at se \<longrightarrow> ?w \<le> t - se_last_activity se)"
  proof -
    have "\<not> busy \<longleftrightarrow> (\<forall>a \<in> ?live. ?w \<le> t - a)"
    proof (cases "?live = {}")
      case False
      have "busy \<longleftrightarrow> t - Max ?live < ?w" unfolding busy_def using False by blast
      then have "\<not> busy \<longleftrightarrow> Max ?live \<le> t - ?w" by linarith
      also have "\<dots> \<longleftrightarrow> (\<forall>a \<in> ?live. a \<le> t - ?w)" by (rule Max_le_iff [OF finite_live_activity False])
      also have "\<dots> \<longleftrightarrow> (\<forall>a \<in> ?live. ?w \<le> t - a)" by (intro ball_cong refl) linarith
      finally show ?thesis .
    qed (simp add: busy_def)
    then show ?thesis unfolding live by auto
  qed
  have steps: "enforce_idle_lock D t s = (if \<not> (is_unlocked (vault s) \<and> 0 < ?w \<and> \<not> busy) then (Inr False, s)
      else mbind lock (\<lambda>_. mbind (note_event (dp_crypto D) SeverityInfo EventVaultLocked) (\<lambda>_. mreturn True)) s)"
    by (simp add: enforce_idle_lock_def mbind_unfold [of "mget _"] mbind_unfold [of last_activity] mget_eq mreturn_eq
        last_activity_eq Let_def busy_def not_less)
  show ?thesis
  proof (cases "is_unlocked (vault s) \<and> 0 < ?w \<and> \<not> busy")
    case False
    then have "b = False" "u = s" using steps assms(1) by auto
    with False all show ?thesis by auto
  next
    case True
    let ?u = "snd (lock s)"
    have "enforce_idle_lock D t s = mbind (note_event (dp_crypto D) SeverityInfo EventVaultLocked) (\<lambda>_. mreturn True) ?u"
      unfolding steps using True mbind_Inr [where m = lock, OF lock_shuts(1) [OF assms(2)]] by simp
    with assms(1) obtain v where n: "note_event (dp_crypto D) SeverityInfo EventVaultLocked ?u = (Inr v, u)" "b"
      by (simp only: mbind_Inr_iff mreturn_eq) blast
    have "besides_events (db u) = besides_events (db ?u)" using note_keeps(1) [OF n(1)] by (simp add: kept_def)
    with lock_shuts(2,3) [OF assms(2)] shut_noted [OF n(1)] n(2) True all show ?thesis by simp
  qed
qed

section \<open>Unlocking\<close>

lemma anchored_besides: "besides_events d = besides_events d' \<Longrightarrow> anchored P k vid ev d = anchored P k vid ev d'"
  by (simp only: anchored_def catalog_root_def besides_tables [of d d'])

lemma kept_reissue:
  "obeys (same_on kept) (mbind (if b then note_event P sev code else mreturn ()) (\<lambda>_.
     mbind (mget (\<lambda>s. (cs_session (conn s), cs_client_id (conn s), v_epoch (vault s)))) (\<lambda>(current, client_id, epoch).
     mbind (case current of
         None \<Rightarrow> mreturn ()
       | Some se \<Rightarrow>
           mbind (attempt (issue client_id (se_capabilities se) epoch)) (\<lambda>r. case r of
             Inl _ \<Rightarrow> mreturn ()
           | Inr fresh \<Rightarrow> set_session fresh)) (\<lambda>_.
     mbind (note_event P sev' code') (\<lambda>_. mreturn ReplyEmpty)))))"
  unfolding issue_def Let_def by (intro same.ok_intros same.ok_err kept_note kept_steps)

lemma attempt_bind_Inr:
  assumes "mbind (attempt m) (\<lambda>r. case r of Inl e \<Rightarrow> h e | Inr x \<Rightarrow> f x) s = (Inr y, t)" and "\<And>e u. h e u \<noteq> (Inr y, t)"
  obtains x u where "m s = (Inr x, u)" "f x u = (Inr y, t)"
proof -
  from assms(1) obtain r u where r: "m s = (r, u)" "(case r of Inl e \<Rightarrow> h e | Inr x \<Rightarrow> f x) u = (Inr y, t)"
    by (auto simp: mbind_Inr_iff attempt_Inr_iff)
  with assms(2) that show ?thesis by (cases r) auto
qed

lemma bind_throw_never [simp]: "mbind m (\<lambda>_. mthrow e) s \<noteq> (Inr x, t)" "mbind m (\<lambda>_. mbind m' (\<lambda>_. mthrow e)) s \<noteq> (Inr x, t)"
  by (auto simp: mbind_Inr_iff mthrow_eq)

lemma op_unlock_Inr:
  assumes "op_unlock D payload s = (Inr r, t)"
  obtains pw s1 s2 s3 b where "decode (un_password (dp_wire D)) payload = Inr pw"
    "unlock (dp_crypto D) (str_bytes pw) s = (Inr (), s1)"
    "load_index (dp_crypto D) (dp_json D) (dp_web D) s1 = (Inr (), s2)"
    "verify_catalog (dp_crypto D) s2 = (Inr b, s3)" "kept t = kept s3"
  using assms unfolding op_unlock_def
  apply (simp add: mbind_Inr_iff [where m = "mlift _"] mlift_eq)
  apply (elim exE conjE)
  apply (erule attempt_bind_Inr, simp)
  apply (erule attempt_bind_Inr, simp)
  apply (erule attempt_bind_Inr, simp)
  apply (drule same_okD [OF kept_reissue])
  apply simp
  done

text \<open>What the check of the catalog leaves alone.\<close>

definition opened :: "dstate \<Rightarrow> vault_agg \<times> keyring option \<times> bytes option \<times> access_mem \<times> nat \<times> (access_mem \<Rightarrow> access_mem) list" where
  "opened s = (vault s, keyring s, root_key s, mem s, failed_unlocks s, on_lock s)"

definition rows :: "dstate \<Rightarrow> record_row list \<times> client_row list \<times> envelope_row list" where
  "rows s = (t_records (db s), t_clients (db s), t_envelopes (db s))"

lemma opened_fixed: "obeys (same_on fixed) m \<Longrightarrow> obeys (same_on opened) m"
proof -
  have "opened t = opened s" if "fixed t = fixed s" for s t
  proof -
    from that have "env.more t = env.more s" by (simp add: fixed_def)
    from more_dsys [OF this] show ?thesis by (simp add: opened_def)
  qed
  then show "obeys (same_on fixed) m \<Longrightarrow> obeys (same_on opened) m" unfolding obeys_def same_on_def by blast
qed

lemma opened_verify: "obeys (same_on opened) (verify_catalog P)"
proof -
  have n: "obeys (same_on opened) (note_counter n)" for n
    unfolding note_counter_def by (rule same.ok_modify) (simp add: same_on_def opened_def)
  show ?thesis
    unfolding verify_catalog_def stamp_locked_def
    by (intro same.ok_intros same.ok_err n same.ok_modify opened_fixed fixed_keys fixed_read_tx fixed_verify fixed_tx fixed_stamp)
      (simp add: same_on_def opened_def)
qed

lemma verify_rows:
  assumes "verify_catalog P s = (Inr b, t)"
  shows "rows t = rows s"
proof (cases b)
  case False
  with verify_catalog_Inr [OF assms] show ?thesis by (auto simp: rows_def)
next
  case True
  from assms obtain kr where "mbind (mget vault) (\<lambda>v.
     mbind (attempt (read_tx (verify P (k_catalog kr) (v_id v) (v_active_envelope_version v)))) (\<lambda>r.
     case r of
       Inl e \<Rightarrow> if e = ErrNoState then mbind (stamp_locked P kr) (\<lambda>_. mreturn True) else mthrow e
     | Inr (st, same) \<Rightarrow>
         mbind (mguard same ErrIntegrityFailure) (\<lambda>_.
         mbind (mget catalog_high_water) (\<lambda>hw.
         mbind (mguard (\<not> sint (st_state_counter st) < sint hw) ErrIntegrityFailure) (\<lambda>_.
         mbind (mmodify (\<lambda>s. s\<lparr>catalog_high_water := st_state_counter st\<rparr>)) (\<lambda>_.
         mreturn False)))))) s = (Inr b, t)"
    unfolding verify_catalog_def by (subst (asm) mbind_Inr_iff) (auto simp only: keys_Inr_iff)
  then obtain r u where r: "attempt (read_tx (verify P (k_catalog kr) (v_id (vault s)) (v_active_envelope_version (vault s)))) s = (Inr r, u)"
    "(case r of Inl e \<Rightarrow> if e = ErrNoState then mbind (stamp_locked P kr) (\<lambda>_. mreturn True) else mthrow e
       | Inr (st, same) \<Rightarrow>
         mbind (mguard same ErrIntegrityFailure) (\<lambda>_.
         mbind (mget catalog_high_water) (\<lambda>hw.
         mbind (mguard (\<not> sint (st_state_counter st) < sint hw) ErrIntegrityFailure) (\<lambda>_.
         mbind (mmodify (\<lambda>s. s\<lparr>catalog_high_water := st_state_counter st\<rparr>)) (\<lambda>_.
         mreturn False))))) u = (Inr b, t)"
    unfolding mbind_get by (subst (asm) mbind_Inr_iff) blast
  with True have "r = Inl ErrNoState" "stamp_locked P kr u = (Inr (), t)"
    by (auto simp: mbind_Inr_iff mreturn_eq mthrow_eq split: sum.splits prod.splits if_splits)
  moreover from this r(1) have "verify P (k_catalog kr) (v_id (vault s)) (v_active_envelope_version (vault s)) (s\<lparr>io_pos := Suc (io_pos s)\<rparr>) = (Inl ErrNoState, u) \<or> db u = db s"
    by (auto simp: attempt_Inr_iff read_tx_def mbind_unfold io_step_def prog_simps split: if_splits sum.splits)
  then have "db u = db s" by (auto dest: verify_NoState)
  ultimately show ?thesis using stamp_locked_Inr [of P kr u t] by (simp add: rows_def)
qed

lemma op_unlock_opens:
  assumes "op_unlock D payload s = (Inr r, t)" and "db_wf (db s)"
  shows "is_unlocked (vault t) \<and> failed_unlocks t = 0 \<and> rows t = rows s \<and>
    mirrors (rec_index (mem t)) (t_records (db t)) \<and>
    (\<exists>kr. keyring t = Some kr \<and> service_anchored (dp_crypto D) kr (vault t) (db t))"
proof -
  from assms(1) obtain pw s1 s2 s3 b where u: "unlock (dp_crypto D) (str_bytes pw) s = (Inr (), s1)"
    and l: "load_index (dp_crypto D) (dp_json D) (dp_web D) s1 = (Inr (), s2)"
    and v: "verify_catalog (dp_crypto D) s2 = (Inr b, s3)" and k: "kept t = kept s3"
    by (rule op_unlock_Inr)
  from unlock_Inr [OF u] obtain w rk kr where w: "load_vault s = (Inr (), w)" "s1 = open_vault rk kr (w\<lparr>io_pos := Suc (io_pos w)\<rparr>)" by blast
  then have s1: "is_unlocked (vault s1)" "keyring s1 = Some kr" "db s1 = db s" "failed_unlocks s1 = 0"
    by (auto simp: open_vault_def agg_unlock_def is_unlocked_def dest: load_vault_db)
  from load_index_Inr [OF l] s1 obtain es where
    es: "smap (entry_of_row (dp_crypto D) (dp_json D) (dp_web D) kr (v_id (vault s1)) (v_format_version (vault s1))) (t_records (db s)) = Inr es"
    and s2: "s2 = s1\<lparr>io_pos := Suc (io_pos s1), mem := (mem s1)\<lparr>rec_index := fold (index_put (dp_web D)) es new_index\<rparr>\<rparr>" by auto
  have m: "mirrors (rec_index (mem s2)) (t_records (db s))"
    using load_mirrors [OF _ es] assms(2) by (simp add: s2 db_wf_def table_ok_def)
  have o: "opened s3 = opened s2" by (rule same_okD [OF opened_verify v])
  have r: "rows s3 = rows s2" by (rule verify_rows [OF v])
  from verify_catalog_Inr [OF v] have a: "service_anchored (dp_crypto D) kr (vault s2) (db s3)"
    using s1 by (auto simp: s2 split: if_splits)
  have d: "besides_events (db t) = besides_events (db s3)" using k by (simp add: kept_def)
  show ?thesis
    using kept_fields(1,2,4-7,16) [OF k] o r m s1 a anchored_besides [OF d]
    by (auto simp: opened_def rows_def s2)
qed

text \<open>
  What an error leaves behind: from states with \<open>I\<close>, an error of the program other than a panic
  ends in a state with \<open>Q\<close>.
\<close>

definition errs :: "('s \<Rightarrow> bool) \<Rightarrow> ('s \<Rightarrow> bool) \<Rightarrow> ('s, err, 'r) prog \<Rightarrow> bool" where
  "errs I Q m \<longleftrightarrow> (\<forall>s e t. I s \<longrightarrow> m s = (Inl e, t) \<longrightarrow> e \<noteq> Panic \<longrightarrow> Q t)"

lemma errs_keeps: "obeys (keeps_inv I) m \<Longrightarrow> errs I I m"
  unfolding errs_def using inv_okD by metis

lemma errs_bind:
  assumes "errs I Q m" and "\<And>s x t. I s \<Longrightarrow> m s = (Inr x, t) \<Longrightarrow> J t" and "\<And>x. errs J Q (f x)"
  shows "errs I Q (mbind m f)"
  using assms unfolding errs_def mbind_Inl_iff by metis

lemma errs_then: "obeys (keeps_inv I) m \<Longrightarrow> (\<And>x. errs I I (f x)) \<Longrightarrow> errs I I (mbind m f)"
  by (rule errs_bind [where J = I, OF errs_keeps]) (auto dest: inv_okD)

lemma errs_never: "(\<And>s e t. m s = (Inl e, t) \<Longrightarrow> e = Panic) \<Longrightarrow> errs I Q m"
  by (auto simp: errs_def)

lemma errs_attempt:
  assumes "errs I J m" and "\<And>e. errs J Q (h e)" and "\<And>x. errs (\<lambda>_. True) Q (f x)"
  shows "errs I Q (mbind (attempt m) (\<lambda>r. case r of Inl e \<Rightarrow> h e | Inr x \<Rightarrow> f x))"
  using assms unfolding errs_def
  by (auto simp: mbind_Inl_iff attempt_Inl_iff attempt_Inr_iff sum_prog_iff) metis+

lemma errs_weaken: "errs (\<lambda>_. True) Q m \<Longrightarrow> errs I Q m"
  by (simp add: errs_def)

text \<open>Programs that only panics end early.\<close>

definition settled :: "('s, err, 'r) prog \<Rightarrow> bool" where
  "settled m \<longleftrightarrow> (\<forall>s e t. m s = (Inl e, t) \<longrightarrow> e = Panic)"

lemma settled_intros:
  "settled (mreturn x)" "settled (mget g)" "settled (mmodify h)" "settled (attempt m)"
  "settled m' \<Longrightarrow> (\<And>x. settled (f x)) \<Longrightarrow> settled (mbind m' f)"
  "settled a \<Longrightarrow> settled b \<Longrightarrow> settled (if c then a else b)"
proof -
  show "settled m' \<Longrightarrow> (\<And>x. settled (f x)) \<Longrightarrow> settled (mbind m' f)"
    unfolding settled_def mbind_Inl_iff by metis
qed (auto simp: settled_def mreturn_eq mget_eq mmodify_eq attempt_Inl_iff)

lemma errs_settled: "settled m \<Longrightarrow> errs I Q m"
  unfolding settled_def errs_def by blast

lemma settled_sum: "(\<And>e. settled (h e)) \<Longrightarrow> (\<And>x. settled (f x)) \<Longrightarrow> settled (case r of Inl e \<Rightarrow> h e | Inr x \<Rightarrow> f x)"
  by (cases r) simp_all

lemma settled_option: "settled h \<Longrightarrow> (\<And>x. settled (f x)) \<Longrightarrow> settled (case r of None \<Rightarrow> h | Some x \<Rightarrow> f x)"
  by (cases r) simp_all

lemma settled_pair: "(\<And>x y. settled (f x y)) \<Longrightarrow> settled (case r of (x, y) \<Rightarrow> f x y)"
  by (cases r) simp

lemma settled_note: "settled (note_event P sev code)"
  unfolding note_event_def ignore_error_def by (intro settled_intros)

definition locked :: "dstate \<Rightarrow> bool" where
  "locked s \<longleftrightarrow> \<not> is_unlocked (vault s)"

lemma locked_fixed_prog: "obeys (same_on fixed) m \<Longrightarrow> obeys (keeps_inv locked) m"
  using opened_fixed [of m] by (simp add: obeys_def same_on_def keeps_inv_def locked_def opened_def)

lemma locked_load: "obeys (keeps_inv locked) load_vault"
  unfolding load_vault_def set_vault_def
  by (intro inv.ok_intros inv.ok_err locked_fixed_prog fixed_queries inv.ok_modify)
    (auto simp: keeps_inv_def locked_def)

lemma unlock_errs: "errs locked locked (unlock P pw)"
proof -
  have f: "errs locked locked unlock_failed"
    unfolding unlock_failed_def
    by (intro errs_keeps inv.ok_bind inv.ok_modify inv.ok_throw) (simp_all add: keeps_inv_def locked_def)
  have m: "errs locked locked (mbind (mlift x) (\<lambda>kr. mmodify (g kr)))" for x :: "err + keyring" and g
    by (intro errs_then inv.ok_lift) (simp add: errs_def mmodify_eq)
  have c: "errs locked locked (if b then p else q)" "errs locked locked (case r of Inl e \<Rightarrow> p | Inr x \<Rightarrow> f x)"
    if "errs locked locked p" "errs locked locked q" "\<And>x. errs locked locked (f x)"
    for b r and p q :: "unit dprog" and f :: "bytes \<Rightarrow> unit dprog"
    using that by (cases r, auto)+
  show ?thesis
    unfolding unlock_def
    by (rule errs_then [OF inv.ok_get], rule errs_then [OF inv.ok_guard], rule errs_then [OF locked_load],
      rule errs_then [OF inv.ok_get], rule errs_then [OF inv.ok_replace_error [OF locked_fixed_prog [OF fixed_queries(2)]]])
     (auto intro!: f m split: sum.splits)
qed

lemma locked_note: "obeys (keeps_inv locked) (note_event P sev code)"
  by (intro locked_fixed_prog fixed_note_event)

lemma locks_then_throws:
  "errs (\<lambda>_. True) locked (mbind panic_lock (\<lambda>_. mbind (note_event P sev code) (\<lambda>_. mthrow e)))"
proof (rule errs_bind [where J = locked])
  show "errs (\<lambda>_. True) locked panic_lock"
    by (simp add: errs_def panic_lock_def lock_def mmodify_eq)
  show "locked t" if "panic_lock s = (Inr u, t)" for s :: dstate and u t
    using that locked_lock [of s] by (simp add: panic_lock_def locked_def locked_inv_def)
  show "errs locked locked (mbind (note_event P sev code) (\<lambda>_. mthrow e))"
    by (intro errs_keeps inv.ok_bind locked_note inv.ok_throw)
qed

text \<open>Whatever makes an unlock request fail, the vault is not open afterwards.\<close>

lemma op_unlock_errs: "errs locked locked (op_unlock D payload)"
proof -
  have t: "errs (\<lambda>_. True) locked (mbind (if b then note_event P sev code else mreturn ()) (\<lambda>_.
     mbind (mget (\<lambda>s. (cs_session (conn s), cs_client_id (conn s), v_epoch (vault s)))) (\<lambda>(current, client_id, epoch).
     mbind (case current of
         None \<Rightarrow> mreturn ()
       | Some se \<Rightarrow>
           mbind (attempt (issue client_id (se_capabilities se) epoch)) (\<lambda>r. case r of
             Inl _ \<Rightarrow> mreturn ()
           | Inr fresh \<Rightarrow> set_session fresh)) (\<lambda>_.
     mbind (note_event P sev' code') (\<lambda>_. mreturn ReplyEmpty)))))" for b P sev code sev' code'
    unfolding set_session_def by (intro errs_settled settled_intros settled_sum settled_option settled_pair settled_note)
  have a: "errs I (\<lambda>_. True) m" for I and m :: "'r dprog" by (simp add: errs_def)
  show ?thesis
    unfolding op_unlock_def
    by (rule errs_then [OF inv.ok_lift], rule errs_attempt [OF unlock_errs],
      intro errs_keeps inv.ok_bind locked_note inv.ok_throw,
      rule errs_attempt [OF a locks_then_throws], rule errs_attempt [OF a locks_then_throws], rule t)
qed

lemma mem_op_unlock: "obeys (keeps_inv (mem_inv (dp_crypto D))) (op_unlock D payload)"
  unfolding op_unlock_def issue_def Let_def
  by (rule inv.ok_bind [OF inv.ok_lift] inv.ok_bind [OF inv.ok_attempt] mem_unlock mem_lock mem_record_ops mem_vault_ops
      mem_access_ops inv.ok_bind inv.ok_sum inv.ok_if inv.ok_return inv.ok_throw inv.ok_option inv.ok_pair inv.ok_get
      mem_modify inv.ok_attempt mem_fixed fixed_new)+

lemma op_unlock_fails_shut:
  assumes "op_unlock D payload s = (Inl e, t)" and "e \<noteq> Panic" and "mem_inv (dp_crypto D) s" and "\<not> is_unlocked (vault s)"
  shows "\<not> is_unlocked (vault t) \<and> keyring t = None \<and> root_key t = None \<and> rec_index (mem t) = new_index"
proof -
  have l: "\<not> is_unlocked (vault t)" using op_unlock_errs [of D payload] assms(1,2,4) by (auto simp: errs_def locked_def)
  have "mem_inv (dp_crypto D) t"
    by (rule inv_okD [where m = "op_unlock D payload", OF mem_op_unlock assms(1,3)])
  with l show ?thesis by (auto simp: mem_inv_def key_inv_def)
qed

section \<open>Sessions that outlive a lock\<close>

text \<open>A connection of the command line whose session a lock ended gets a new one as soon as the vault
  is unlocked again, by whomever.\<close>

lemma old_connection_resumes:
  assumes "is_unlocked (vault s)" and "\<not> cs_pairing (conn s)" and "cs_client_id (conn s) = zero_id"
    and "cs_session (conn s) = Some se" and "map_of (sessions s) (se_id se) = None"
    and "map_of required_capability oper = Some cap" and "has (se_capabilities se) cap" and "rnd_ok s (rnd_pos s)"
  shows "\<exists>u. admit D oper s = (Inr (), u)"
proof -
  have v: "attempt (validate (se_id se) (v_epoch (vault s)) b) s = (Inr (Inl ErrAuthorizationDeny), s)" for b
    using assms(5) by (simp add: attempt_Inr_iff validate_Inl_iff)
  have c: "renewed_capabilities se s = (Inr (se_capabilities se), s)"
    using assms(3) by (simp add: renewed_capabilities_def mbind_unfold mget_eq mreturn_eq id_is_zero_def)
  obtain fresh u where i: "issue zero_id (se_capabilities se) (v_epoch (vault s)) s = (Inr fresh, u)"
    using assms(8) by (simp add: issue_def Let_def mbind_unfold new_id_def random_bytes_def mget_eq mreturn_eq with_sessions_eq)
  have "renew se (v_epoch (vault s)) s = (Inr fresh, u\<lparr>conn := (conn u)\<lparr>cs_session := Some fresh\<rparr>\<rparr>)"
    unfolding renew_def mbind_Inr [where m = "renewed_capabilities se", OF c] mbind_get assms(3)
      mbind_Inr [where m = "replace_error _ (issue zero_id _ _)", OF replace_error_Inr [where m = "issue zero_id (se_capabilities se) (v_epoch (vault s))", OF i]]
    by (simp add: set_session_def mmodify_eq mbind_unfold mreturn_eq)
  moreover have "session_authorize fresh cap = Inr ()"
    using issued_capabilities [OF i] assms(7) by (simp add: session_authorize_iff)
  ultimately have "authorize oper cap s = (Inr (), u\<lparr>conn := (conn u)\<lparr>cs_session := Some fresh\<rparr>\<rparr>)"
    unfolding authorize_def mbind_get using assms(1,4)
    by (simp add: mbind_Inr [where m = "attempt (validate _ _ _)", OF v] mbind_get)
      (simp add: mbind_unfold mguard_eq mlift_eq)
  with assms(2,6) show ?thesis by (auto simp: admit_Inr_iff)
qed

end
