(* ===== verification/Outcomes.thy ===== *)
theory Outcomes
  imports Operations
begin

text \<open>
  Further operations of the daemon: the login-only writes of the browser extension, revocation
  and its race with a connection being built, and a destruction that fails.
\<close>

section \<open>Login-only writes\<close>

lemma op_create_login:
  assumes "op_create D payload True s = (Inr r, t)"
  shows "\<exists>i e. r = ReplyId (id_string i) \<and> index_get (rec_index (mem t)) i = Some e \<and> ie_type e = type_login \<and>
    (\<forall>j. j \<noteq> i \<longrightarrow> pk_find rr_record_id j (t_records (db t)) = pk_find rr_record_id j (t_records (db s)))"
proof -
  from assms obtain p meta sec i where r: "r = ReplyId (id_string i)"
    and c: "create_record (dp_crypto D) (dp_json D) (dp_web D) type_login meta sec s = (Inr i, t)"
    by (auto simp: op_create_def mbind_Inr_iff mlift_eq mreturn_eq Let_def)
  from create_record_Inr [OF c] show ?thesis
    by (intro exI [of _ i]) (auto simp: r index_get_put pk_insert_Inr_iff pk_find_append split: option.splits)
qed

lemma op_update_login:
  assumes "op_update D payload True s = (Inr r, t)"
  shows "\<exists>i e. index_get (rec_index (mem s)) i = Some e \<and> ie_type e = type_login \<and>
    (\<forall>j. j \<noteq> i \<longrightarrow> pk_find rr_record_id j (t_records (db t)) = pk_find rr_record_id j (t_records (db s)))"
proof -
  from assms obtain i e n meta sec where e: "index_get (rec_index (mem s)) i = Some e" "ie_type e = type_login"
    and u: "update_record_op (dp_crypto D) (dp_json D) (dp_web D) i n meta sec s = (Inr (), t)"
    by (auto simp: op_update_def mbind_Inr_iff mlift_eq mreturn_eq mguard_eq parse_id_def replace_error_Inr_iff show_entry_def
        keys_Inr_iff the_index_eq mthrow_eq split: option.splits if_splits)
  from update_record_op_Inr [OF u] obtain x :: sealed_record where
    rows: "t_records (db t) = map (\<lambda>r. if rr_record_id r = i \<and> rr_revision r = n
      then updated_row x (n + 1) r else r) (t_records (db s))" by blast
  have "pk_find rr_record_id j (t_records (db t)) = pk_find rr_record_id j (t_records (db s))" if "j \<noteq> i" for j
  proof -
    have id: "rr_record_id (updated_row x m r) = rr_record_id r" for m r by (simp add: updated_row_def)
    have "pk_find rr_record_id j (t_records (db t)) = map_option (\<lambda>r. if rr_record_id r = i \<and> rr_revision r = n
      then updated_row x (n + 1) r else r) (pk_find rr_record_id j (t_records (db s)))"
      unfolding rows by (rule pk_find_map) (simp add: id)
    then show ?thesis using that by (auto simp: map_option_case split: option.split dest!: pk_find_Some)
  qed
  with e show ?thesis by blast
qed

section \<open>Revocation\<close>

lemma op_revoke_Inr:
  assumes "op_revoke D payload s = (Inr r, t)" and "decode (un_id (dp_wire D)) payload = Inr text" and "id_from_string text = Inr i"
  shows "client_status (db t) i = Some status_revoked \<and> sessions t = filter (\<lambda>(_, se). se_client_id se \<noteq> i) (sessions s) \<and>
    is_unlocked (vault s) \<and> (\<forall>j. j \<noteq> i \<longrightarrow> client_status (db t) j = client_status (db s) j)"
proof -
  from assms obtain u v w where r: "revoke (dp_crypto D) i s = (Inr u, v)"
    and n: "note_event (dp_crypto D) SeverityInfo EventClientRevoked (snd (drop_client i v)) = (Inr w, t)"
    by (auto simp: op_revoke_def mbind_Inr_iff mlift_eq mreturn_eq parse_id_def replace_error_Inr_iff drop_client_def with_sessions_eq)
  have m: "mem v = mem s" and u: "is_unlocked (vault s)" using revoke_Inr [OF r] by (auto simp: has_keys_def)
  have c: "t_clients (db t) = t_clients (db v)"
    using kept_fields(6) [OF note_keeps(1) [OF n]] by (simp add: drop_client_def with_sessions_eq)
  then have "client_status (db t) j = client_status (db v) j" for j by (simp add: client_status_def)
  moreover have "sessions t = filter (\<lambda>(_, se). se_client_id se \<noteq> i) (sessions s)"
    using note_keeps(2) [OF n] m by (simp add: sessions_def drop_client_def with_sessions_eq)
  ultimately show ?thesis using client_status_revoked [OF r] u by simp
qed

lemma map_of_filter_None:
  "(\<And>x. map_of xs k = Some x \<Longrightarrow> \<not> P x) \<Longrightarrow> distinct (map fst xs) \<Longrightarrow> map_of (filter (\<lambda>(_, x). P x) xs) k = None"
proof (induction xs)
  case (Cons a xs)
  obtain k' y where a: "a = (k', y)" by (cases a)
  show ?case
  proof (cases "k' = k")
    case True
    with Cons.prems a have "\<not> P y" "k \<notin> fst ` set xs" by auto
    then show ?thesis using a True by (auto simp: map_of_eq_None_iff)
  next
    case False
    with Cons a show ?thesis by auto
  qed
qed simp

text \<open>A connection of the revoked client is refused from then on, whatever it asks for.\<close>

lemma revoked_refused:
  assumes "op_revoke D payload s = (Inr r, t)" and "decode (un_id (dp_wire D)) payload = Inr text" and "id_from_string text = Inr i"
    and "distinct (map fst (sessions s))" and "i \<noteq> zero_id"
    and "cs_client_id c = i" and "\<not> cs_pairing c"
    and "\<And>se live. cs_session c = Some se \<Longrightarrow> map_of (sessions s) (se_id se) = Some live \<Longrightarrow> se_client_id live = i"
  shows "admit D oper (t\<lparr>conn := c\<rparr>) \<noteq> (Inr (), u)"
proof
  assume a: "admit D oper (t\<lparr>conn := c\<rparr>) = (Inr (), u)"
  with assms(7) obtain cap where au: "authorize oper cap (t\<lparr>conn := c\<rparr>) = (Inr (), u)" by (auto simp: admit_Inr_iff)
  then obtain se where se: "cs_session c = Some se" by (cases rule: authorize_cases) auto
  have "map_of (sessions t) (se_id se) = None"
    using op_revoke_Inr [OF assms(1-3)] map_of_filter_None [of "sessions s" "se_id se" "\<lambda>x. se_client_id x \<noteq> i"]
      assms(4) assms(8) [OF se] by auto
  with admit_gone [OF a] assms(5-7) se op_revoke_Inr [OF assms(1-3)] show False
    by (simp add: status_approved_def status_revoked_def)
qed

text \<open>But a connection that is being built gets a live session whatever the status of its client, which
  may have been revoked since the handshake.\<close>

lemma client_connects:
  assumes "he_mode h = mode_paired" and "id_from_string (he_client_id h) = Inr i" and "i \<noteq> zero_id"
    and "client_status (db s) i = Some status" and "db_open s" and "\<And>n. io_ok s n" and "\<And>n. rnd_ok s n"
  shows "\<exists>c t row. build_conn_state h remote s = (Inr c, t) \<and> pk_find cr_client_id i (t_clients (db s)) = Some row \<and>
    cs_client_id c = i \<and> \<not> cs_pairing c \<and>
    (\<forall>oper cap. map_of required_capability oper = Some cap \<longrightarrow> has (cr_capability_mask row) cap \<longrightarrow>
       (\<exists>u. admit D oper (t\<lparr>conn := c\<rparr>) = (Inr (), u)))"
proof -
  from assms(4) obtain row where row: "pk_find cr_client_id i (t_clients (db s)) = Some row"
    by (auto simp: client_status_def)
  let ?s1 = "s\<lparr>io_pos := Suc (io_pos s)\<rparr>" and ?caps = "cl_capabilities (client_of_row i row)" and ?ep = "v_epoch (vault s)"
  have l: "lookup i s = (Inr (client_of_row i row), ?s1)" using row assms(5,6) by (simp add: lookup_Inr_iff)
  obtain se s2 where iss: "issue i ?caps ?ep ?s1 = (Inr se, s2)"
    using assms(7) by (simp add: issue_def Let_def mbind_unfold new_id_def random_bytes_def mget_eq mreturn_eq with_sessions_eq)
  note i2 = issue_Inr [OF iss]
  obtain r s3 where t: "touch_last_seen i s2 = (r, s3)" by (cases "touch_last_seen i s2")
  have o2: "db_open s2" using i2 assms(5) by simp
  have np: "r \<noteq> Inl Panic"
    using t o2 by (auto simp: touch_last_seen_def with_tx_def mbind_unfold mget_eq mguard_eq io_step_def rollback_to_def
        update_client_last_seen_def sql_exec_def sql_query_def mreturn_eq mmodify_eq mlift_eq sbind_def pk_update_def split: if_splits sum.splits prod.splits)
  have f: "fixed s3 = fixed s2" by (rule same_okD [OF fixed_access(3) t])
  then have "env.more s3 = env.more s2" by (simp add: fixed_def)
  note m = more_dsys [OF this]
  let ?c = "\<lparr>cs_session = Some se, cs_client_id = i, cs_pairing = False, cs_static_key = remote\<rparr>"
  have "ignore_error (touch_last_seen i) s2 = (Inr (), s3)"
    using t np by (cases r) (auto simp: ignore_error_def mbind_unfold attempt_Inr attempt_Inl mreturn_eq)
  then have b: "build_conn_state h remote s = (Inr ?c, s3)"
    using assms(1,2) iss l by (simp add: build_conn_state_def mode_defs mbind_get mbind_Inr [where m = "lookup i", OF l]
        mbind_Inr [where m = "issue _ _ _", OF iss] mbind_Inr [where m = "ignore_error _"] replace_error_Inr mlift_eq mbind_Inr mreturn_eq)
  have ok: "map_of (sessions (s3\<lparr>conn := ?c\<rparr>)) (se_id se) = Some se" "valid_at se (now s3) (v_epoch (vault s3))"
    "se_capabilities se = cr_capability_mask row"
  proof -
    have e: "se = new_session (se_id se) i ?caps ?ep (now s)" using i2 by simp
    show "se_capabilities se = cr_capability_mask row" by (subst e) (simp add: client_of_row_def)
    have "now s3 = now s" "vault s3 = vault s" using f m i2 by (simp_all add: fixed_def)
    then show "valid_at se (now s3) (v_epoch (vault s3))" by (subst e) simp
    show "map_of (sessions (s3\<lparr>conn := ?c\<rparr>)) (se_id se) = Some se"
      using m(9) i2 by (simp add: sessions_def update_conv')
  qed
  have "\<exists>u. admit D oper (s3\<lparr>conn := ?c\<rparr>) = (Inr (), u)"
    if "map_of required_capability oper = Some cap" "has (cr_capability_mask row) cap" for oper cap
  proof -
    obtain se' u where "validate (se_id se) (v_epoch (vault s3)) (oper \<notin> set idle_exempt_ops) (s3\<lparr>conn := ?c\<rparr>) = (Inr se', u)"
      using ok(1,2) by (fastforce simp: validate_Inr_iff)
    then have "authorize oper cap (s3\<lparr>conn := ?c\<rparr>) = (Inr (), u)"
      using that(2) ok(3) by (simp add: authorize_def mbind_get mbind_Inr [where m = "attempt _", OF attempt_Inr] session_authorize_iff mlift_eq)
    with that(1) show ?thesis by (auto simp: admit_Inr_iff)
  qed
  with b row show ?thesis by fastforce
qed

section \<open>A destruction that fails\<close>

lemma closed_note:
  assumes "\<not> db_open s"
  shows "note_event P sev code s = (Inl Panic, s)"
  using assms by (simp add: note_event_def ignore_error_def record_event_def seal_details_def with_tx_def mbind_unfold mget_eq
      mguard_eq mreturn_eq mthrow_eq attempt_def)

lemma closed_get_envelope: "\<not> db_open s \<Longrightarrow> get_key_envelope v s = (Inl Panic, s)"
  by (simp add: get_key_envelope_def sql_query_def mbind_unfold mget_eq mguard_eq mthrow_eq)

lemma closed_load: "\<not> db_open s \<Longrightarrow> load_vault s = (if loaded s then (Inr (), s) else (Inl Panic, s))"
  by (simp add: load_vault_def get_vault_def sql_query_def mbind_unfold mget_eq mguard_eq mthrow_eq mreturn_eq attempt_def)

lemma closed_unlock: "\<not> db_open s \<Longrightarrow> unlock P pw s \<in> {(Inl ErrRateLimited, s), (Inl Panic, s)}"
  by (simp add: unlock_def mbind_get mbind_unfold [of "mguard _ _"] mguard_eq mthrow_eq mbind_unfold [of load_vault] closed_load
      mbind_unfold [of "replace_error _ _"] replace_error_panic closed_get_envelope)

lemma closed_op_unlock:
  assumes "\<not> db_open s" and "decode (un_password (dp_wire D)) payload = Inr pw"
  shows "op_unlock D payload s = (Inl Panic, s)"
proof -
  from closed_unlock [OF assms(1), of "dp_crypto D" "str_bytes pw"]
  have "attempt (unlock (dp_crypto D) (str_bytes pw)) s \<in> {(Inr (Inl ErrRateLimited), s), (Inl Panic, s)}"
    by (auto simp: attempt_def)
  then show ?thesis
    using assms by (auto simp: op_unlock_def mbind_unfold [of "mlift _"] mlift_eq mbind_unfold [of "attempt (unlock _ _)"]
        mbind_unfold [of "note_event _ _ _"] closed_note)
qed

lemma closed_authorize: "authorize oper cap s = (r, t) \<Longrightarrow> \<not> db_open s \<Longrightarrow> \<not> db_open t"
  using kept_fields(12) [OF same_okD [OF kept_authorize]] by blast

lemma closed_admit:
  assumes "\<not> db_open s" and "admit D oper s = (Inl e, t)" and "cs_pairing (conn s) \<or> map_of required_capability oper \<noteq> None"
  shows "e = Panic"
  using assms
  by (auto simp: admit_def mbind_get mbind_Inl_iff mreturn_eq attempt_Inl_iff attempt_Inr_iff sum_prog_iff mthrow_eq closed_note
      split: if_splits option.splits dest: closed_authorize)

text \<open>Without a database the next request to unlock ends the process.\<close>

lemma closed_unlock_request:
  assumes "\<not> db_open s" and "un_request (dp_wire D) raw = Some req" and "rq_protocol_version req = protocol_version"
    and "rq_operation req = ''vault.unlock''" and "decode (un_password (dp_wire D)) (rq_payload req) = Inr pw"
  shows "fst (handle D raw s) = Inl Panic"
proof -
  obtain r t where a: "admit D ''vault.unlock'' s = (r, t)" by (cases "admit D ''vault.unlock'' s")
  have o: "\<not> db_open t" using kept_fields(12) [OF same_okD [OF kept_admit a]] assms(1) by simp
  have "fst (mbind (admit D ''vault.unlock'') (\<lambda>_. dispatch D ''vault.unlock'' (rq_payload req)) s) = Inl Panic"
  proof (cases r)
    case (Inl e)
    with a closed_admit [OF assms(1), of D "''vault.unlock''" e t] show ?thesis
      by (simp add: mbind_unfold required_capability_def)
  next
    case (Inr u)
    with a o assms(5) show ?thesis by (simp add: mbind_unfold dispatch_def closed_op_unlock)
  qed
  then show ?thesis
    using assms(2-4) by (auto simp: handle_def mbind_unfold attempt_def split: sum.splits err.splits prod.splits)
qed

text \<open>And every way a destruction fails leaves the daemon without a database.\<close>

lemma open_keeps_handle: "open_database F p s = (r, t) \<Longrightarrow> db_open t = db_open s"
  by (auto simp: open_database_def mbind_unfold io_step_def mget_eq mreturn_eq mlift_eq split: option.splits file_content.splits if_splits)

lemma remove_keeps_handle: "remove_all ps s = (r, t) \<Longrightarrow> db_open t = db_open s \<and> (\<exists>errs. r = Inr errs)"
proof (induction ps arbitrary: s r t)
  case (Cons p ps)
  have "\<exists>x u. attempt (remove_file p) s = (Inr x, u) \<and> db_open u = db_open s"
    by (auto simp: remove_file_def attempt_def mbind_unfold io_step_def mget_eq mmodify_eq mreturn_eq)
  then obtain x u where a: "attempt (remove_file p) s = (Inr x, u)" "db_open u = db_open s" by blast
  obtain r' v where rest: "remove_all ps u = (r', v)" by (cases "remove_all ps u")
  from Cons.IH [OF this] a Cons.prems rest show ?case
    by (auto simp: mbind_unfold mreturn_eq)
qed (simp add: mreturn_eq)

lemma close_closes: "store_close F s = (r, t) \<Longrightarrow> \<not> db_open t"
  by (auto simp: store_close_def mbind_unfold mget_eq mreturn_eq mmodify_eq io_step_def split: if_splits)

lemma reset_never [simp]: "reset s \<noteq> (Inl e, t)"
  by (simp add: reset_def lock_def mbind_unfold mmodify_eq)

lemma reopen_Inl: "reopen D s = (Inl e, t) \<Longrightarrow> \<not> db_open s \<Longrightarrow> \<not> db_open t"
  by (auto simp: reopen_def mbind_Inl_iff [of "open_database _ _"] mbind_Inl_iff [of "mlift _"] mbind_Inl_iff [of "store_swap _ _"]
      mlift_eq store_swap_def mmodify_eq dest: open_keeps_handle)

lemma destroy_fails_closed:
  assumes "destroy_vault D s = (Inl e, t)"
  shows "\<not> db_open t"
proof -
  let ?s1 = "snd (lock s)"
  have l: "lock s = (Inr (), ?s1)" by (simp add: lock_def mmodify_eq)
  from assms consider
      "store_close (dp_files D) ?s1 = (Inl e, t)"
    | u v where "store_close (dp_files D) ?s1 = (Inr u, v)"
        "mbind (remove_all (vault_files (dp_db_path D))) (\<lambda>errs.
           mbind (mguard (errs = []) ErrIO) (\<lambda>_.
           mbind (reopen D) (\<lambda>_. mmodify (\<lambda>s. s\<lparr>stopping := True\<rparr>)))) v = (Inl e, t)"
    unfolding destroy_vault_def mbind_Inr [where m = lock, OF l] by (subst (asm) mbind_Inl_iff) blast
  then show ?thesis
  proof cases
    case 1
    then show ?thesis by (rule close_closes)
  next
    case (2 u v)
    from 2(1) have v: "\<not> db_open v" by (rule close_closes)
    obtain errs w where r: "remove_all (vault_files (dp_db_path D)) v = (Inr errs, w)"
      using remove_keeps_handle by (metis surj_pair)
    then have w: "\<not> db_open w" using v remove_keeps_handle by blast
    from 2(2) have "mbind (mguard (errs = []) ErrIO) (\<lambda>_. mbind (reopen D) (\<lambda>_. mmodify (\<lambda>s. s\<lparr>stopping := True\<rparr>))) w = (Inl e, t)"
      unfolding mbind_Inr [where m = "remove_all _", OF r] .
    then show ?thesis
      using w by (auto simp: mbind_Inl_iff mguard_eq mmodify_eq dest: reopen_Inl split: if_splits)
  qed
qed

end
