(* ===== verification/Demo.thy ===== *)
theory Demo
  imports Outcomes Samples
begin

text \<open>
  Concrete daemons: a simple wire format, a daemon over an empty database, one with an unlocked
  vault, and databases with registered clients.
\<close>

section \<open>The surroundings\<close>

text \<open>A request is the length of the operation's name, the name, and the payload.\<close>

definition demo_request :: "string \<Rightarrow> bytes \<Rightarrow> bytes" where
  "demo_request oper payload = of_nat (length oper) # str_bytes oper @ payload"

definition demo_un_request :: "bytes \<Rightarrow> request option" where
  "demo_un_request raw = (case raw of
     [] \<Rightarrow> None
   | n # rest \<Rightarrow> Some \<lparr>rq_protocol_version = 1, rq_request_id = ''1'',
       rq_operation = bytes_str (take (unat n) rest), rq_payload = drop (unat n) rest\<rparr>)"

definition demo_fields :: record_fields where
  "demo_fields = \<lparr>rf_type = ''note'', rf_name = ''Example'', rf_username = ''alice'', rf_service = '''', rf_environment = '''',
     rf_urls = [], rf_url_entries = None, rf_tags = [], rf_project_id = '''', rf_password = ''s3cret'', rf_notes = '''',
     rf_api_key = '''', rf_api_secret = '''', rf_custom = []\<rparr>"

definition demo_edit :: update_payload where
  "demo_edit = \<lparr>up_id = id_string (replicate 16 9), up_expected_revision = 1, up_fields = demo_fields\<rparr>"

definition demo_wire :: wire where
  "demo_wire = \<lparr>un_request = demo_un_request, un_password = (\<lambda>b. Some (bytes_str b)),
     un_change_password = (\<lambda>b. None), un_fields = (\<lambda>b. Some demo_fields),
     un_update = (\<lambda>b. Some demo_edit), un_ref = (\<lambda>b. Some (bytes_str b)), un_id = (\<lambda>b. Some (bytes_str b)),
     un_query = (\<lambda>b. Some (bytes_str b)), un_origin = (\<lambda>b. Some (bytes_str b, '''')),
     un_reveal_for_origin = (\<lambda>b. None), un_generate = (\<lambda>b. None), un_pair = (\<lambda>b. None),
     un_pairing_id = (\<lambda>b. Some (bytes_str b)), un_path = (\<lambda>b. Some (bytes_str b)),
     un_limit = (\<lambda>b. None), json_reply = (\<lambda>r. Some [])\<rparr>"

definition demo_files :: file_prims where
  "demo_files = \<lparr>db_image = (\<lambda>d. []), db_of_image = (\<lambda>b. None), db_migrate = Inr\<rparr>"

definition demo_deps :: deps where
  "demo_deps = \<lparr>dp_crypto = plain_prims, dp_json = plain_json, dp_web = plain_web, dp_wire = demo_wire,
     dp_files = demo_files, dp_kdf = default_kdf_params, dp_static_public = replicate 32 7,
     dp_db_path = ''vault.db''\<rparr>"

definition demo_disk :: "db \<Rightarrow> dstate" where
  "demo_disk d =
     \<lparr>rnd_src = (\<lambda>n. of_nat (Suc n)), rnd_ok = (\<lambda>_. True), rnd_pos = 0,
      now = 1700000000000000000, io_ok = (\<lambda>_. True), io_pos = 0, db_open = True, db = d,
      vault = zero_vault, loaded = False, keyring = None, root_key = None, failed_unlocks = 0,
      next_unlock_at = zero_time, catalog_high_water = 0, on_lock = [],
      mem = \<lparr>rec_index = new_index, am_sessions = [], am_pending = [], am_daemon_static_key = []\<rparr>,
      files = [''vault.db'' \<mapsto> LiveDb], torn = (\<lambda>_. None), stopping = False, conn = no_conn\<rparr>"

definition demo_server :: dstate where
  "demo_server = new_server demo_deps (demo_disk empty_db)"

definition cli_hello :: hello where
  "cli_hello = \<lparr>he_version = 1, he_mode = mode_cli, he_client_id = ''''\<rparr>"

definition demo_conn :: "dstate \<Rightarrow> conn_state \<times> dstate" where
  "demo_conn s = (case build_conn_state cli_hello (replicate 32 1) s of (Inr c, t) \<Rightarrow> (c, t\<lparr>conn := c\<rparr>) | (Inl _, t) \<Rightarrow> (no_conn, t))"

definition demo_status :: bytes where "demo_status = demo_request ''vault.status'' []"

definition demo_cli :: dstate where
  "demo_cli = snd (demo_conn demo_server)"

lemma demo_status_answered: "\<exists>resp t. handle demo_deps demo_status demo_cli = (Inr resp, t) \<and> rs_ok resp"
proof -
  have "case fst (handle demo_deps demo_status demo_cli) of Inl _ \<Rightarrow> False | Inr r \<Rightarrow> rs_ok r" by code_simp
  then show ?thesis by (cases "handle demo_deps demo_status demo_cli") (auto split: sum.splits)
qed

text \<open>A pairing connection that asks for more than it may.\<close>

definition demo_pairing :: dstate where
  "demo_pairing = demo_server\<lparr>conn := \<lparr>cs_session = None, cs_client_id = zero_id, cs_pairing = True, cs_static_key = replicate 32 1\<rparr>\<rparr>"

lemma demo_server_fields [simp]:
  "db_open demo_server" "io_ok demo_server n" "rnd_ok demo_server n" "on_lock demo_server = lock_hooks" "db demo_server = empty_db"
  "now demo_server = 1700000000000000000" "next_unlock_at demo_server = zero_time" "catalog_high_water demo_server = 0"
  "loaded demo_server = False" "vault demo_server = zero_vault" "mem demo_server = \<lparr>rec_index = new_index, am_sessions = [], am_pending = [], am_daemon_static_key = replicate 32 7\<rparr>"
  by (simp_all add: demo_server_def new_server_def demo_disk_def demo_deps_def)

lemma demo_pairing_refused: "\<exists>t. admit demo_deps ''vault.unlock'' demo_pairing = (Inl ErrAuthorizationDeny, t)"
proof -
  have "db_open demo_pairing" by (simp add: demo_pairing_def)
  from note_event_Inr [OF this] obtain t where "note_event plain_prims SeverityWarning EventUnauthorizedRequest demo_pairing = (Inr (), t)" by blast
  then show ?thesis
    by (simp add: admit_def mbind_get demo_pairing_def [of, THEN arg_cong [of _ _ conn]] pairing_ops_def mbind_Inr demo_deps_def mthrow_eq)
qed

section \<open>An unlocked vault\<close>

definition demo_root :: bytes where "demo_root = replicate 32 1"

definition demo_keyring :: keyring where
  "demo_keyring = (case derive_keyring plain_prims demo_root of Inr kr \<Rightarrow> kr | Inl _ \<Rightarrow> undefined)"

lemma demo_keyring: "derive_keyring plain_prims demo_root = Inr demo_keyring"
  using derive_keyring_total [of demo_root plain_prims] by (auto simp: demo_keyring_def demo_root_def)

definition demo_unlocked :: "db \<Rightarrow> index \<Rightarrow> dstate" where
  "demo_unlocked d ix = (demo_disk d)\<lparr>vault := agg_unlock (fresh_vault zero_id format_version 1), loaded := True,
     keyring := Some demo_keyring, root_key := Some demo_root, on_lock := lock_hooks,
     mem := \<lparr>rec_index = ix, am_sessions = [], am_pending = [], am_daemon_static_key = replicate 32 7\<rparr>\<rparr>"

lemma demo_unlocked_fields [simp]:
  "db_open (demo_unlocked d ix)" "io_ok (demo_unlocked d ix) n" "rnd_ok (demo_unlocked d ix) n" "loaded (demo_unlocked d ix)"
  "on_lock (demo_unlocked d ix) = lock_hooks" "db (demo_unlocked d ix) = d" "is_unlocked (vault (demo_unlocked d ix))"
  "vault (demo_unlocked d ix) = agg_unlock (fresh_vault zero_id format_version 1)" "rec_index (mem (demo_unlocked d ix)) = ix"
  "sessions (demo_unlocked d ix) = []" "keyring (demo_unlocked d ix) = Some demo_keyring"
  by (simp_all add: demo_unlocked_def demo_disk_def is_unlocked_def agg_unlock_def sessions_def)

lemma demo_unlocked_serving:
  assumes "t_envelopes d = [sample_envelope]" and "t_state d = None"
  shows "serving plain_prims (demo_unlocked d ix)"
proof -
  have "key_inv plain_prims (demo_unlocked d ix)"
    using demo_keyring by (simp add: key_inv_def demo_unlocked_def demo_disk_def is_unlocked_def agg_unlock_def)
  moreover have "active_envelope (vault (demo_unlocked d ix)) d = Some sample_envelope"
    using assms(1) by (simp add: active_envelope_def agg_unlock_def fresh_vault_def pk_find_def sample_envelope_def)
  ultimately show ?thesis
    using assms(2) by (simp add: serving_def healthy_def has_keys_def next_counter_def is_unlocked_def agg_unlock_def)
qed

text \<open>Locking it, by request and by the clock.\<close>

lemma demo_locks: "\<exists>t. op_lock demo_deps EventVaultLocked (demo_unlocked d ix) = (Inr ReplyEmpty, t)"
proof -
  let ?s = "demo_unlocked d ix"
  have h: "on_lock ?s = lock_hooks" by simp
  have "db_open (snd (lock ?s))" using lock_shuts(5) [OF h] by simp
  from note_event_Inr [OF this] obtain t where "note_event (dp_crypto demo_deps) SeverityInfo EventVaultLocked (snd (lock ?s)) = (Inr (), t)" by blast
  then show ?thesis
    unfolding op_lock_def mbind_Inr [where m = lock, OF lock_shuts(1) [OF h]]
    by (simp add: mbind_unfold mreturn_eq)
qed

lemma demo_idles: "\<exists>t. enforce_idle_lock demo_deps n (demo_unlocked d ix) = (Inr True, t)"
proof -
  let ?s = "demo_unlocked d ix"
  have h: "on_lock ?s = lock_hooks" by simp
  have "db_open (snd (lock ?s))" using lock_shuts(5) [OF h] by simp
  from note_event_Inr [OF this] obtain t where n: "note_event (dp_crypto demo_deps) SeverityInfo EventVaultLocked (snd (lock ?s)) = (Inr (), t)" by blast
  have w: "\<not> v_auto_lock_after (vault ?s) \<le> 0"
    by (simp add: agg_unlock_def fresh_vault_def default_auto_lock_after_def)
  have l: "last_activity ?s = (Inr None, ?s)" by (simp add: last_activity_eq live_activity_def)
  show ?thesis
    unfolding enforce_idle_lock_def mbind_get
    using w n by (simp add: mbind_Inr [where m = last_activity, OF l] mbind_Inr [where m = lock, OF lock_shuts(1) [OF h]] mbind_Inr mreturn_eq
      del: demo_unlocked_fields(8))
qed

section \<open>A record, written by the extension\<close>

definition demo_entry :: index_entry where
  "demo_entry = \<lparr>ie_id = replicate 16 9, ie_type = type_login, ie_revision = 1,
     ie_metadata = demo_meta\<lparr>md_created_at := 0, md_updated_at := 0\<rparr>\<rparr>"

definition demo_row :: record_row where
  "demo_row = \<lparr>rr_record_id = replicate 16 9, rr_key_version = 1, rr_revision = 1, rr_metadata_nonce = replicate 24 0,
     rr_metadata_ciphertext = [], rr_secret_nonce = replicate 24 0, rr_secret_ciphertext = [], rr_payload_version = 1\<rparr>"

definition record_db :: db where
  "record_db = envelope_db\<lparr>t_records := [demo_row]\<rparr>"

definition demo_editing :: dstate where
  "demo_editing = demo_unlocked record_db (index_put plain_web demo_entry new_index)"

lemma record_db_wf: "db_wf record_db"
  by (simp add: db_wf_def record_db_def envelope_db_def empty_db_def table_ok_def sample_envelope_def demo_row_def
      envelope_check_def record_check_def zero_id_def id_len_def)

lemma demo_editing_serving: "serving plain_prims demo_editing"
  unfolding demo_editing_def by (rule demo_unlocked_serving) (simp_all add: record_db_def envelope_db_def empty_db_def)

lemma demo_fields_domain: "\<exists>meta sec. fields_to_domain plain_web demo_fields = Inr (meta, sec) \<and>
    (\<forall>i a b n. \<not> id_is_zero i \<longrightarrow> 1 \<le> n \<longrightarrow> record_validate \<lparr>rec_id = i, rec_type = type_login, rec_revision = n,
       rec_metadata = meta\<lparr>md_created_at := a, md_updated_at := b\<rparr>, rec_secret = sec\<rparr> = None)"
  by (simp add: fields_to_domain_def demo_fields_def Let_def smap.simps sbind_def record_validate_def type_valid_def type_login_def
      type_api_def)

lemma demo_deps_parts [simp]:
  "dp_crypto demo_deps = plain_prims" "dp_json demo_deps = plain_json" "dp_web demo_deps = plain_web"
  "dp_wire demo_deps = demo_wire" "dp_files demo_deps = demo_files" "dp_db_path demo_deps = ''vault.db''"
  "dp_kdf demo_deps = default_kdf_params"
  by (simp_all add: demo_deps_def)

lemma demo_fresh_id: "map (rnd_src demo_editing) [rnd_pos demo_editing ..< rnd_pos demo_editing + 16] = map (\<lambda>n. of_nat (Suc n)) [0..<16]"
  by (simp add: demo_editing_def demo_unlocked_def demo_disk_def del: upt.simps)

lemma demo_creates: "\<exists>r t. op_create demo_deps [1] True demo_editing = (Inr r, t)"
proof -
  from demo_fields_domain obtain meta sec where d: "fields_to_domain plain_web demo_fields = Inr (meta, sec)"
    and v: "\<And>i a b n. \<not> id_is_zero i \<Longrightarrow> 1 \<le> n \<Longrightarrow> record_validate \<lparr>rec_id = i, rec_type = type_login, rec_revision = n,
       rec_metadata = meta\<lparr>md_created_at := a, md_updated_at := b\<rparr>, rec_secret = sec\<rparr> = None" by blast
  let ?i = "map (\<lambda>n. of_nat (Suc n)) [0..<16] :: bytes"
  have new: "?i \<notin> rr_record_id ` set (t_records (db demo_editing))" "\<not> id_is_zero ?i"
    by (simp_all add: demo_editing_def record_db_def demo_row_def id_is_zero_def zero_id_def id_len_def upt_rec numeral_eq_Suc)
  from create_record_runs [OF plain_prims_widths demo_editing_serving demo_fresh_id new(1) v [OF new(2)], of plain_json plain_web]
  obtain j t where "create_record plain_prims plain_json plain_web type_login meta sec demo_editing = (Inr j, t)"
    by (auto simp: runs_def)
  then have "op_create demo_deps [1] True demo_editing = (Inr (ReplyId (id_string j)), t)"
    by (simp add: op_create_def demo_wire_def decode_def mbind_unfold mlift_eq d mreturn_eq)
  then show ?thesis by blast
qed

lemma demo_updates: "\<exists>r t. op_update demo_deps [1] True demo_editing = (Inr r, t)"
proof -
  from demo_fields_domain obtain meta sec where d: "fields_to_domain plain_web demo_fields = Inr (meta, sec)"
    and v: "\<And>i a b n. \<not> id_is_zero i \<Longrightarrow> 1 \<le> n \<Longrightarrow> record_validate \<lparr>rec_id = i, rec_type = type_login, rec_revision = n,
       rec_metadata = meta\<lparr>md_created_at := a, md_updated_at := b\<rparr>, rec_secret = sec\<rparr> = None" by blast
  let ?i = "replicate 16 9 :: bytes"
  have w: "db_wf (db demo_editing)" by (simp add: demo_editing_def record_db_wf)
  have e: "index_get (rec_index (mem demo_editing)) ?i = Some demo_entry"
    by (simp add: demo_editing_def index_get_put demo_entry_def)
  have r: "pk_find rr_record_id ?i (t_records (db demo_editing)) = Some demo_row" "rr_revision demo_row = 1"
    by (simp_all add: demo_editing_def record_db_def pk_find_def demo_row_def)
  have nz: "\<not> id_is_zero ?i" by (simp add: id_is_zero_def zero_id_def id_len_def)
  have t: "ie_type demo_entry = type_login" by (simp add: demo_entry_def)
  have "runs (update_record_op plain_prims plain_json plain_web ?i 1 meta sec) demo_editing (\<lambda>_ t. True)"
    by (rule update_record_op_runs [OF plain_prims_widths demo_editing_serving w e r]) (simp_all add: t v nz)
  then obtain u where u: "update_record_op plain_prims plain_json plain_web ?i 1 meta sec demo_editing = (Inr (), u)"
    by (auto simp: runs_def)
  have s: "show_entry ?i demo_editing = (Inr demo_entry, demo_editing)"
    unfolding show_entry_def by (simp add: mbind_unfold keys_def the_index_eq mget_eq demo_editing_def e [unfolded demo_editing_def, simplified] mreturn_eq
        is_unlocked_def agg_unlock_def)
  have i: "parse_id (id_string ?i) demo_editing = (Inr ?i, demo_editing)"
    by (simp add: parse_id_def replace_error_Inr mlift_eq id_from_string_Inr_iff id_string_def)
  have "op_update demo_deps [1] True demo_editing = (Inr ReplyEmpty, u)"
    unfolding op_update_def
    by (simp add: demo_wire_def decode_def mlift_eq i
        mbind_unfold mguard_eq s t demo_edit_def d u mreturn_eq)
  then show ?thesis by blast
qed

end
