(* ===== verification/Demo_Runs.thy ===== *)
theory Demo_Runs
  imports Demo
begin

text \<open>
  Longer runs of the concrete daemon: revoking and approving clients, unlocking, a destruction
  that fails, and a world with a paired connection.
\<close>

section \<open>Clients\<close>

text \<open>A registered client can be revoked while the vault serves.\<close>

lemma mbind_lift_Inr: "mbind (mlift (Inr x)) f = f x"
  by (rule ext) (simp add: mbind_unfold mlift_eq)

lemma revoke_runs:
  assumes P: "prims_widths P" and s: "serving P s" and w: "db_wf (db s)" and i: "i \<in> cr_client_id ` set (t_clients (db s))"
  shows "runs (revoke P i) s (\<lambda>_ t. True)"
proof -
  obtain kr where kr: "keyring s = Some kr" "is_unlocked (vault s)" "loaded s" using serving_keys [OF P s] .
  have h: "db_open s" "\<And>n. io_ok s n" "\<And>n. rnd_ok s n" using s by (simp_all add: serving_def healthy_def)
  have k: "runs keys s Q = Q kr s" for Q using kr by (auto simp: runs_def keys_Inr_iff)
  from s obtain e where e: "active_envelope (vault s) (db s) = Some e" and c: "0 \<le> sint (next_counter (t_state (db s)))"
    by (auto simp: serving_def)
  have st: "runs (records_stamp P kr) (s\<lparr>io_pos := m, db := (db s)\<lparr>t_clients := rows\<rparr>\<rparr>) (\<lambda>n t. io_ok t (io_pos t))" for m rows
    using kr e c h by (intro records_stamp_runs [OF P, where e = e]) (simp_all add: healthy_def active_envelope_def)
  have ck: "\<forall>r \<in> set (t_clients (db s)). client_check (r\<lparr>cr_status := v\<rparr>)" for v
    using w by (auto simp: db_wf_def table_ok_def list_all_iff client_check_def)
  have ne: "filter (\<lambda>r. cr_client_id r = i) (t_clients (db s)) \<noteq> []" using i by (auto simp: filter_empty_conv)
  show ?thesis
    unfolding revoke_def access_stamp_eq
    apply (simp add: wp k update_client_status_def pk_update_def h list_ex_iff ck ne split: prod.splits if_splits)
    apply (rule runs_mono [OF st])
    apply (simp add: note_counter_def wp ne split: if_splits)
    done
qed

definition paired_id :: ident where "paired_id = replicate 16 2"

definition paired_row :: "i64 \<Rightarrow> client_row" where
  "paired_row status = \<lparr>cr_client_id = paired_id, cr_client_kind = kind_chrome_native_host, cr_status = status,
     cr_capability_mask = relay_capabilities, cr_credential_hash = replicate 32 4, cr_noise_static_pubkey = replicate 32 3,
     cr_label_nonce = replicate 24 0, cr_label_ciphertext = [], cr_created_at_ms = 0, cr_last_seen_at_ms = None\<rparr>"

definition paired_db :: "i64 \<Rightarrow> db" where
  "paired_db status = envelope_db\<lparr>t_clients := [paired_row status]\<rparr>"

lemma paired_db_good: "good_db (paired_db n)"
proof -
  have "least relay_capabilities"
    using least_default [of kind_chrome_native_host] by (simp add: is_pairable_def default_capabilities_def kind_defs)
  then show ?thesis
    by (simp add: good_db_def db_wf_def clients_least_def paired_db_def envelope_db_def empty_db_def table_ok_def sample_envelope_def
      paired_row_def envelope_check_def client_check_def zero_id_def id_len_def paired_id_def)
qed

lemma paired_status: "client_status (paired_db n) paired_id = Some n"
  by (simp add: client_status_def paired_db_def pk_find_def paired_row_def)

lemma paired_serving: "serving plain_prims (demo_unlocked (paired_db n) ix)"
  by (rule demo_unlocked_serving) (simp_all add: paired_db_def envelope_db_def empty_db_def)

definition paired_text :: bytes where "paired_text = str_bytes (id_string paired_id)"

lemma paired_parse:
  "decode (un_id (dp_wire demo_deps)) paired_text = Inr (id_string paired_id)"
  "id_from_string (id_string paired_id) = Inr paired_id" "paired_id \<noteq> zero_id"
proof -
  have "length paired_text = 32" by (simp add: paired_text_def id_string_def paired_id_def)
  then have "paired_text \<noteq> []" by auto
  then show "decode (un_id (dp_wire demo_deps)) paired_text = Inr (id_string paired_id)"
    by (simp add: decode_def demo_wire_def) (simp add: paired_text_def)
  show "id_from_string (id_string paired_id) = Inr paired_id"
    by (simp add: id_from_string_Inr_iff id_string_def) (simp add: paired_id_def)
  show "paired_id \<noteq> zero_id" by (simp add: paired_id_def zero_id_def id_len_def)
qed

lemma revoke_keeps_handle: "obeys (same_on env_fixed) (revoke P i)"
  unfolding revoke_def by (intro same.ok_intros fixed_env fixed_keys fixed_access_tx envf_basic)

lemma demo_revokes: "\<exists>r t. op_revoke demo_deps paired_text (demo_unlocked (paired_db n) ix) = (Inr r, t)"
proof -
  let ?s = "demo_unlocked (paired_db n) ix"
  have w: "db_wf (db ?s)" using paired_db_good by (simp add: good_db_def)
  have i: "paired_id \<in> cr_client_id ` set (t_clients (db ?s))" by (simp add: paired_db_def paired_row_def)
  from revoke_runs [OF plain_prims_widths paired_serving w i] obtain u where u: "revoke plain_prims paired_id ?s = (Inr (), u)"
    by (auto simp: runs_def)
  have "env_fixed u = env_fixed ?s" by (rule same_okD [OF revoke_keeps_handle u])
  then have "db_open (snd (drop_client paired_id u))" by (simp add: env_fixed_def drop_client_def with_sessions_eq)
  from note_event_Inr [OF this] obtain v where v: "note_event plain_prims SeverityInfo EventClientRevoked (snd (drop_client paired_id u)) = (Inr (), v)"
    by blast
  have p: "parse_id (id_string paired_id) ?s = (Inr paired_id, ?s)"
    by (simp add: parse_id_def replace_error_Inr mlift_eq paired_parse)
  have d: "drop_client paired_id u = (Inr (), snd (drop_client paired_id u))" by (simp add: drop_client_def with_sessions_eq)
  have "op_revoke demo_deps paired_text ?s = (Inr ReplyEmpty, v)"
    unfolding op_revoke_def paired_parse(1) mbind_lift_Inr mbind_Inr [where m = "parse_id _", OF p]
    by (simp add: mbind_Inr [where m = "revoke _ _", OF u] mbind_Inr [where m = "drop_client _", OF d] mbind_Inr [where m = "note_event _ _ _", OF v] mreturn_eq)
  then show ?thesis by blast
qed

section \<open>Unlocking\<close>

definition demo_made :: dstate where
  "demo_made = snd (vault_init plain_prims old_password default_kdf_params demo_server)"

lemma demo_made_runs: "vault_init plain_prims old_password default_kdf_params demo_server = (Inr (), demo_made)"
proof -
  have "blank demo_server" by (simp add: blank_def healthy_def empty_db_def)
  from snd_runs [OF vault_init_runs [OF plain_prims_widths default_kdf_valid this]] show ?thesis
    by (auto simp: demo_made_def)
qed

lemma demo_server_good: "daemon_inv demo_deps demo_server"
  unfolding demo_server_def
  by (rule inv_new_server) (simp add: good_db_def db_wf_empty demo_disk_def clients_least_def, simp add: empty_db_def)

lemma demo_unlocks:
  "\<exists>r t. op_unlock demo_deps old_password demo_made = (Inr r, t)" "db_wf (db demo_made)"
proof -
  show wf: "db_wf (db demo_made)"
    using inv_okD [where m = "vault_init plain_prims old_password default_kdf_params", OF inv_vault_ops(2) [of demo_deps, simplified] demo_made_runs demo_server_good]
    by (simp add: daemon_inv_def)
  have h: "healthy demo_server" by (simp add: healthy_def)
  obtain u where u: "unlock plain_prims old_password demo_made = (Inr (), u)" "db u = db demo_made"
    using init_then_unlock [OF plain_prims_correct demo_made_runs] by (auto simp: zero_time_def)
  have b: "t_envelopes (db demo_server) = []" "t_state (db demo_server) = None" "catalog_high_water demo_server = 0"
    "next_unlock_at demo_server \<le> now demo_server" by (simp_all add: empty_db_def zero_time_def)
  obtain vid kr st where f: "vault u = agg_unlock (fresh_vault vid format_version 1)" "keyring u = Some kr" "t_state (db u) = Some st"
    "st_state_counter st = 1" "sint (catalog_high_water u) = 1" "t_records (db u) = t_records (db demo_server)" "loaded u"
    "env_fixed u = env_fixed demo_server" "anchored plain_prims (k_catalog kr) vid 1 (db u)"
    by (rule first_unlock [OF plain_prims_correct demo_made_runs u(1) b(1-3) h b(4)]) (rule that; assumption)
  let ?l = "u\<lparr>io_pos := Suc (io_pos u), mem := (mem u)\<lparr>rec_index := new_index\<rparr>\<rparr>"
  have hu: "healthy u" using f(8) h healthy_fixed [of u demo_server] by simp
  have un: "is_unlocked (vault u)" by (simp add: f(1) agg_unlock_def is_unlocked_def)
  have r: "t_records (db u) = []" using f(6) by (simp add: empty_db_def)
  have l: "load_index plain_prims plain_json plain_web u = (Inr (), ?l)"
    using load_index_runs [OF un f(2) f(7), of plain_prims plain_json plain_web "[]"] hu r by (auto simp: runs_def healthy_def)
  have "runs (verify_catalog plain_prims) ?l (\<lambda>b t. b = False)"
    by (rule verify_catalog_runs [where kr = kr and st = st])
      (use hu f un in \<open>simp_all add: healthy_def agg_unlock_def fresh_vault_def\<close>)
  then obtain w where v: "verify_catalog plain_prims ?l = (Inr False, w)" by (auto simp: runs_def)
  have "conn demo_made = conn demo_server" by (rule same_okD [OF conn_steps.vault_steps(3) demo_made_runs])
  moreover have "conn u = conn demo_made" by (rule same_okD [OF conn_steps.vault_steps(4) u(1)])
  moreover have "conn w = conn ?l" by (rule same_okD [OF conn_steps.vault_steps(6) v])
  ultimately have c: "cs_session (conn w) = None" by (simp add: demo_server_def new_server_def no_conn_def)
  have "db_open w" using same_okD [OF handle_open.vault_steps(6) v] hu by (simp add: healthy_def)
  from note_event_Inr [OF this] obtain x where n: "note_event plain_prims SeverityInfo EventVaultUnlocked w = (Inr (), x)" by blast
  have "old_password \<noteq> []" by (simp add: old_password_def str_bytes_def)
  then have d: "decode (un_password demo_wire) old_password = Inr (bytes_str old_password)" by (simp add: decode_def demo_wire_def)
  have "op_unlock demo_deps old_password demo_made = (Inr ReplyEmpty, x)"
    unfolding op_unlock_def demo_deps_parts d mbind_lift_Inr str_bytes_bytes_str
      mbind_Inr [where m = "attempt _", OF attempt_Inr [where m = "unlock _ _", OF u(1)]]
      mbind_Inr [where m = "attempt _", OF attempt_Inr [where m = "load_index _ _ _", OF l]]
      mbind_Inr [where m = "attempt _", OF attempt_Inr [where m = "verify_catalog _", OF v]] sum.case
    by (simp add: mget_eq c n mbind_unfold mreturn_eq)
  then show "\<exists>r t. op_unlock demo_deps old_password demo_made = (Inr r, t)" by blast
qed

section \<open>Pairing\<close>

text \<open>A pending pairing can be approved while the vault serves.\<close>

lemma approve_runs:
  assumes P: "prims_widths P" and s: "serving P s" and p: "map_of (pending s) i = Some p" "\<not> pp_approved p" "length (pp_static_key p) = 32"
    and fresh: "t_clients (db s) = []"
  shows "runs (approve P i) s (\<lambda>_ t. True)"
proof -
  obtain kr where kr: "keyring s = Some kr" "is_unlocked (vault s)" "loaded s" using serving_keys [OF P s] .
  from s kr obtain rk where rk: "derive_keyring P rk = Inr kr" by (auto simp: serving_def key_inv_def)
  have ka: "length (k_audit kr) = 32" using rk P by (auto simp: derive_keyring_def sbind_Inr_iff derive_subkey_Inr_iff prims_widths_def)
  have h: "db_open s" "\<And>n. io_ok s n" "\<And>n. rnd_ok s n" using s by (simp_all add: serving_def healthy_def)
  have k: "runs keys s Q = Q kr s" for Q using kr by (auto simp: runs_def keys_Inr_iff)
  from s obtain e where e: "active_envelope (vault s) (db s) = Some e" and c: "0 \<le> sint (next_counter (t_state (db s)))"
    by (auto simp: serving_def)
  have st: "runs (records_stamp P kr) (s\<lparr>rnd_pos := m, io_pos := n, db := (db s)\<lparr>t_clients := rows\<rparr>\<rparr>) (\<lambda>n t. io_ok t (io_pos t))" for m n rows
    using kr e c h by (intro records_stamp_runs [OF P, where e = e]) (simp_all add: healthy_def active_envelope_def)
  have vi: "runs vault_info s' Q = Q (v_id (vault s'), v_format_version (vault s'), v_active_envelope_version (vault s')) s'"
    if "loaded s'" for s' Q using that by (auto simp: runs_def vault_info_Inr_iff)
  have hash: "length (credential_verifier P b) = 32" for b using P by (simp add: credential_verifier_def prims_widths_def)
  show ?thesis
    unfolding approve_def access_stamp_eq
    apply (simp add: wp k p h kr new_defs vi seal_eq ka sbind_def insert_client_def pk_insert_def client_check_def fresh hash del: upt.simps)
    apply (rule runs_mono [OF st])
    apply (simp add: note_counter_def wp with_pending_def)
    done
qed

definition pairing_waiting :: pending_pairing where
  "pairing_waiting = \<lparr>pp_id = replicate 16 5, pp_kind = kind_chrome_extension, pp_label = ''Chrome'', pp_static_key = replicate 32 3,
     pp_phrase = '''', pp_created_at = 0, pp_approved = False, pp_client_id = zero_id, pp_credential = None\<rparr>"

definition demo_waiting :: dstate where
  "demo_waiting = (demo_unlocked envelope_db new_index)\<lparr>mem := \<lparr>rec_index = new_index, am_sessions = [],
     am_pending = [(replicate 16 5, pairing_waiting)], am_daemon_static_key = replicate 32 7\<rparr>\<rparr>"

lemma demo_approves: "\<exists>t. approve plain_prims (replicate 16 5) demo_waiting = (Inr (), t)"
proof -
  have "serving plain_prims (demo_unlocked envelope_db new_index)"
    by (rule demo_unlocked_serving) (simp_all add: envelope_db_def empty_db_def)
  then have s: "serving plain_prims demo_waiting"
    by (simp add: demo_waiting_def serving_def healthy_def key_inv_def has_keys_def)
  have "map_of (pending demo_waiting) (replicate 16 5) = Some pairing_waiting" by (simp add: demo_waiting_def)
  from approve_runs [OF plain_prims_widths s this] show ?thesis
    by (auto simp: runs_def pairing_waiting_def demo_waiting_def envelope_db_def empty_db_def)
qed

section \<open>A destruction that fails\<close>

definition demo_stuck :: dstate where
  "demo_stuck = (demo_unlocked envelope_db new_index)\<lparr>io_ok := (\<lambda>n. n \<noteq> 1)\<rparr>"

lemma demo_stuck_fails: "\<exists>t. destroy_vault demo_deps demo_stuck = (Inl ErrIO, t)"
  by (simp add: destroy_vault_def lock_def mmodify_eq mbind_unfold store_close_def mget_eq io_step_def vault_files_def
      remove_file_def attempt_def mreturn_eq mguard_eq mthrow_eq run_on_lock_def lock_fields_def demo_stuck_def demo_unlocked_def demo_disk_def)

definition demo_password_request :: bytes where
  "demo_password_request = demo_request ''vault.unlock'' [1]"

lemma demo_password_decodes:
  "\<exists>req pw. un_request (dp_wire demo_deps) demo_password_request = Some req \<and> rq_protocol_version req = protocol_version \<and>
     rq_operation req = ''vault.unlock'' \<and> decode (un_password (dp_wire demo_deps)) (rq_payload req) = Inr pw"
  by (simp add: demo_wire_def demo_un_request_def demo_password_request_def demo_request_def protocol_version_def decode_def)

section \<open>A paired connection\<close>

definition paired_hello :: hello where
  "paired_hello = \<lparr>he_version = 1, he_mode = mode_paired, he_client_id = id_string paired_id\<rparr>"

definition paired_world :: world where
  "paired_world = act demo_deps (Build 0) (act demo_deps (Shake 0 paired_hello (replicate 32 3))
     (started demo_deps (demo_disk (paired_db status_approved))))"

definition paired_start :: dstate where
  "paired_start = new_server demo_deps (demo_disk (paired_db status_approved))"

lemma paired_start_fields [simp]:
  "db_open paired_start" "io_ok paired_start n" "rnd_ok paired_start n" "db paired_start = paired_db status_approved"
  by (simp_all add: paired_start_def new_server_def demo_disk_def)

lemma paired_shakes: "shake demo_deps paired_hello (replicate 32 3) paired_start = (Inr (), paired_start\<lparr>io_pos := Suc (io_pos paired_start)\<rparr>)"
proof -
  have "lookup paired_id paired_start = (Inr (client_of_row paired_id (paired_row status_approved)), paired_start\<lparr>io_pos := Suc (io_pos paired_start)\<rparr>)"
    by (simp add: lookup_Inr_iff paired_db_def pk_find_def paired_row_def)
  then have "shake_check paired_hello (replicate 32 3) paired_start = (Inr (), paired_start\<lparr>io_pos := Suc (io_pos paired_start)\<rparr>)"
    by (simp add: shake_check_def paired_hello_def mode_defs lookup_client_def mbind_unfold replace_error_Inr mlift_eq paired_parse
        mguard_eq is_approved_def client_of_row_def paired_row_def mreturn_eq)
  from attempt_Inr [where m = "shake_check _ _", OF this] show ?thesis by (simp add: shake_def mbind_unfold mreturn_eq)
qed

lemma paired_world_conn:
  "\<exists>c. w_conns paired_world 0 = Some c \<and> cs_client_id c = paired_id \<and> \<not> cs_pairing c"
proof -
  let ?s = "paired_start\<lparr>io_pos := Suc (io_pos paired_start)\<rparr>"
  obtain c t where c: "build_conn_state paired_hello (replicate 32 3) ?s = (Inr c, t)" "cs_client_id c = paired_id" "\<not> cs_pairing c"
    using client_connects [of paired_hello paired_id ?s status_approved "replicate 32 3" demo_deps]
    by (simp add: paired_hello_def paired_parse paired_status) blast
  then have "build demo_deps paired_hello (replicate 32 3) ?s = (Inr c, t)" by (simp add: build_Inr)
  with c show ?thesis
    by (simp add: paired_world_def started_def paired_start_def [symmetric] paired_shakes settle_step_def)
qed

lemma paired_world_reach: "reach demo_deps (demo_disk (paired_db status_approved)) paired_world"
proof -
  have "\<not> w_crashed (act demo_deps (Shake 0 paired_hello (replicate 32 3)) (started demo_deps (demo_disk (paired_db status_approved))))"
    by (simp add: started_def paired_start_def [symmetric] paired_shakes settle_step_def)
  then show ?thesis
    unfolding paired_world_def by (intro reach_act reach_start) (simp_all add: started_def)
qed

lemma demo_images: "images_ok (dp_files demo_deps)"
  by (simp add: images_ok_def demo_files_def)

lemma paired_disk_good: "good_db (db (demo_disk (paired_db n)))"
  using paired_db_good by (simp add: demo_disk_def)

definition demo_list_request :: bytes where
  "demo_list_request = demo_request ''clients.list'' []"

lemma demo_list_decodes:
  "\<exists>req. un_request (dp_wire demo_deps) demo_list_request = Some req \<and> rq_protocol_version req = protocol_version \<and>
     map_of required_capability (rq_operation req) = Some CapClientAdmin"
  by (simp add: demo_wire_def demo_un_request_def demo_list_request_def demo_request_def protocol_version_def required_capability_def)

section \<open>Short runs\<close>

lemma demo_unlock_absent:
  "\<exists>t. op_unlock demo_deps old_password demo_server = (Inl ErrVaultNotFound, t)"
proof -
  let ?t = "demo_server\<lparr>io_pos := Suc (io_pos demo_server)\<rparr>"
  have p: "decode (un_password demo_wire) old_password = Inr (bytes_str old_password)"
    by (simp add: decode_def demo_wire_def old_password_def str_bytes_def)
  have v: "get_vault demo_server = (Inl ErrNoRows, ?t)"
    by (simp add: get_vault_def sql_query_def mbind_unfold mget_eq mguard_eq io_step_def mreturn_eq mlift_eq empty_db_def one_row_def)
  have "unlock plain_prims pw demo_server = (Inl ErrVaultNotFound, ?t)" for pw
    by (simp add: unlock_def mbind_get mbind_unfold mguard_eq load_vault_def v attempt_def mthrow_eq zero_time_def mget_eq)
  then have u: "attempt (unlock plain_prims pw) demo_server = (Inr (Inl ErrVaultNotFound), ?t)" for pw
    by (simp add: attempt_def)
  have "db_open ?t" by simp
  from note_event_Inr [OF this] obtain w where w: "note_event plain_prims SeverityWarning EventUnlockFailed ?t = (Inr (), w)" by blast
  have "op_unlock demo_deps old_password demo_server = (Inl ErrVaultNotFound, w)"
    unfolding op_unlock_def demo_deps_parts p mbind_lift_Inr mbind_Inr [where m = "attempt _", OF u] sum.case
      mbind_Inr [where m = "note_event _ _ _", OF w] by (simp add: mthrow_eq)
  then show ?thesis by blast
qed

text \<open>A connection whose session a lock has dropped.\<close>

definition demo_old_session :: session where
  "demo_old_session = new_session (replicate 16 8) zero_id cli_capabilities 0 0"

definition demo_resumed :: dstate where
  "demo_resumed = (demo_unlocked envelope_db new_index)\<lparr>conn := no_conn\<lparr>cs_session := Some demo_old_session\<rparr>\<rparr>"

lemma demo_resumed_fields:
  "is_unlocked (vault demo_resumed)" "cs_session (conn demo_resumed) = Some demo_old_session"
  "cs_client_id (conn demo_resumed) = zero_id" "\<not> cs_pairing (conn demo_resumed)" "sessions demo_resumed = []"
  "rnd_ok demo_resumed n" "has (se_capabilities demo_old_session) CapVaultDestroy"
proof -
  show "sessions demo_resumed = []"
    by (simp add: demo_resumed_def demo_unlocked_def sessions_def)
qed (simp_all add: demo_resumed_def no_conn_def demo_old_session_def new_session_def cli_capabilities_def is_unlocked_def agg_unlock_def)

end
