(* ===== verification/Service_Demo.thy ===== *)
theory Service_Demo
  imports Demo_Runs
begin

text \<open>
  Concrete runs of the services: the password generator, the event log, backups and the
  index.
\<close>

section \<open>The generator\<close>

definition demo_entropy :: entropy where
  "demo_entropy = \<lparr>rnd_src = (\<lambda>n. of_nat (Suc n)), rnd_ok = (\<lambda>_. True), rnd_pos = 0\<rparr>"

lemma demo_generates: "\<exists>pw t. generate_password \<lparr>go_length = 8, go_upper = True, go_lower = True, go_digits = True, go_symbols = True\<rparr> demo_entropy = (Inr pw, t)"
proof -
  have "case fst (generate_password \<lparr>go_length = 8, go_upper = True, go_lower = True, go_digits = True, go_symbols = True\<rparr> demo_entropy) of Inl _ \<Rightarrow> False | Inr r \<Rightarrow> True"
    by code_simp
  then show ?thesis by (cases "generate_password \<lparr>go_length = 8, go_upper = True, go_lower = True, go_digits = True, go_symbols = True\<rparr> demo_entropy") (auto split: sum.splits)
qed

section \<open>The event log\<close>

lemma demo_records_event:
  "\<exists>t es v. record_event plain_prims SeverityInfo EventVaultLocked '''' demo_server = (Inr (), t) \<and> recent plain_prims 1 t = (Inr es, v)"
proof -
  have "case record_event plain_prims SeverityInfo EventVaultLocked '''' demo_server of (Inl _, _) \<Rightarrow> False
    | (Inr _, t) \<Rightarrow> (case fst (recent plain_prims 1 t) of Inl _ \<Rightarrow> False | Inr _ \<Rightarrow> True)" by code_simp
  then show ?thesis
    by (auto split: prod.splits sum.splits)
      (metis prod.collapse)
qed

lemma demo_events_ordered: "events_ordered (db demo_server)"
  by (simp add: events_ordered_def empty_db_def)

section \<open>Backups\<close>

lemma demo_backs_up: "\<exists>t. backup_create plain_prims demo_files ''b'' demo_editing = (Inr (), t) \<and> io_ok t (io_pos t)"
  by (simp add: backup_create_def demo_editing_def demo_unlocked_def demo_disk_def keys_def vault_info_def mbind_unfold mget_eq mreturn_eq mthrow_eq
     finally_remove_def snapshot_def read_file_def io_step_def write_file_def rename_file_def remove_file_def Let_def
     mguard_eq mmodify_eq is_unlocked_def agg_unlock_def)

lemma demo_restores: "\<exists>t. restore_snapshot [1] ''vault.db'' (\<lambda>_. mreturn ()) demo_editing = (Inr (), t)"
  by (simp add: restore_snapshot_def demo_editing_def demo_unlocked_def demo_disk_def mbind_unfold mget_eq mreturn_eq mthrow_eq
     finally_remove_def io_step_def write_file_def rename_file_def remove_file_def file_exists_def Let_def attempt_def ignore_error_def
     mguard_eq mmodify_eq)

section \<open>The index\<close>

lemma demo_index_ok: "index_ok plain_web (index_put plain_web demo_entry new_index)"
  by (intro index_ok_put index_ok_new)

lemma new_index_get: "index_get new_index i = None"
  by (simp add: index_get_def new_index_def)

lemma demo_index_stable:
  "index_get (index_put plain_web demo_entry new_index) i = Some e \<Longrightarrow> suffix_stable plain_web demo_page e"
  by (rule exact_suffix_stable) (auto simp: index_get_put new_index_get demo_entry_def demo_meta_def split: if_splits)

lemma demo_page_parses: "parse_origin plain_web demo_raw = Inr demo_page"
  using plain_web_example by (simp add: demo_raw_def demo_page_def)

lemma demo_reveals_for_page:
  "\<exists>t. reveal_for_origin plain_prims plain_json plain_web demo_id demo_raw '''' demo_store = (Inr demo_secret, t)"
proof -
  obtain row e st kr rk where k: "keyring demo_store = Some kr" by (rule demo_store_state)
  have s: "is_unlocked (vault demo_store)" "db_open demo_store" "\<And>n. io_ok demo_store n" "db_open demo_open" "\<And>n. io_ok demo_open n"
    using demo_store_serving demo_open_serving by (simp_all add: serving_def has_keys_def healthy_def)
  from create_record_Inr [OF demo_store_runs] obtain en where en: "index_get (rec_index (mem demo_store)) demo_id = Some en"
    "md_urls (ie_metadata en) = md_urls demo_meta"
    by (auto simp: index_get_put)
  have m: "matches_origin (ie_metadata en) demo_page"
    by (simp add: matches_origin_def en(2) demo_meta_def url_matches_iff)
  from create_then_reveal [OF plain_prims_correct plain_json_faithful demo_clean(2) demo_store_runs s(4,5)]
  have r: "reveal plain_prims plain_json demo_id demo_store = (Inr demo_secret, demo_store\<lparr>io_pos := Suc (io_pos demo_store)\<rparr>)"
    by (simp add: demo_secret_def)
  have "reveal_for_origin plain_prims plain_json plain_web demo_id demo_raw '''' demo_store = (Inr demo_secret, demo_store\<lparr>io_pos := Suc (io_pos demo_store)\<rparr>)"
    using s(1) k en(1) m r by (simp add: reveal_for_origin_def keys_def mbind_unfold mget_eq mreturn_eq mlift_eq demo_page_parses mguard_eq
      is_secure_def demo_page_def [of, THEN arg_cong [of _ _ o_scheme]] the_index_eq)
  then show ?thesis by blast
qed

end
