(* ===== verification/Native.thy ===== *)
theory Native
  imports Transport
begin

text \<open>
  The browser side (\<^verbatim>\<open>internal/native/{framing,origin_chrome,relay}.go\<close>): native messages with
  their little-endian length, the check of the calling extension, and the relay between the
  extension and the daemon. JSON is a parameter; base64 is that of the standard library.
\<close>

section \<open>Base64\<close>

text \<open>\<^verbatim>\<open>base64.StdEncoding\<close>: three bytes to four digits, padded.\<close>

definition b64_digits :: string where
  "b64_digits = ''ABCDEFGHIJKLMNOPQRSTUVWXYZabcdefghijklmnopqrstuvwxyz0123456789+/''"

definition b64_digit :: "nat \<Rightarrow> char" where
  "b64_digit n = b64_digits ! n"

definition b64_value :: "char \<Rightarrow> nat option" where
  "b64_value c = (let n = length (takeWhile (\<lambda>d. d \<noteq> c) b64_digits) in if n < 64 then Some n else None)"

fun b64_encode :: "bytes \<Rightarrow> string" where
  "b64_encode [] = ''''"
| "b64_encode [a] = (let v = unat a * 16 in [b64_digit (v div 64), b64_digit (v mod 64), CHR ''='', CHR ''=''])"
| "b64_encode [a, b] = (let v = (unat a * 256 + unat b) * 4 in
     [b64_digit (v div 4096), b64_digit (v div 64 mod 64), b64_digit (v mod 64), CHR ''=''])"
| "b64_encode (a # b # c # rest) = (let v = (unat a * 256 + unat b) * 256 + unat c in
     [b64_digit (v div 262144), b64_digit (v div 4096 mod 64), b64_digit (v div 64 mod 64), b64_digit (v mod 64)]) @
     b64_encode rest"

text \<open>
  Decoding skips carriage returns and line feeds anywhere, and takes what bits a last short
  group has beyond its bytes as they come.
\<close>

fun b64_groups :: "string \<Rightarrow> bytes option" where
  "b64_groups [] = Some []"
| "b64_groups [p, q, r, s] =
     (case (b64_value p, b64_value q) of
        (Some v, Some w) \<Rightarrow>
          if r = CHR ''='' then (if s = CHR ''='' then Some [of_nat ((v * 64 + w) div 16)] else None)
          else (case b64_value r of None \<Rightarrow> None | Some x \<Rightarrow>
            if s = CHR ''='' then (let u = (v * 64 + w) * 64 + x in Some [of_nat (u div 1024), of_nat (u div 4 mod 256)])
            else (case b64_value s of None \<Rightarrow> None | Some y \<Rightarrow>
              (let u = ((v * 64 + w) * 64 + x) * 64 + y in
               Some [of_nat (u div 65536), of_nat (u div 256 mod 256), of_nat (u mod 256)])))
      | _ \<Rightarrow> None)"
| "b64_groups (p # q # r # s # rest) =
     (case (b64_value p, b64_value q, b64_value r, b64_value s) of
        (Some v, Some w, Some x, Some y) \<Rightarrow>
          (let u = ((v * 64 + w) * 64 + x) * 64 + y in
           map_option (\<lambda>b. of_nat (u div 65536) # of_nat (u div 256 mod 256) # of_nat (u mod 256) # b) (b64_groups rest))
      | _ \<Rightarrow> None)"
| "b64_groups _ = None"

definition b64_decode :: "string \<Rightarrow> bytes option" where
  "b64_decode s = b64_groups (filter (\<lambda>c. c \<noteq> CHR 0x0D \<and> c \<noteq> CHR 0x0A) s)"

lemma length_b64_digits [simp]: "length b64_digits = 64"
  by (simp add: b64_digits_def)

lemma b64_value_all: "list_all (\<lambda>n. b64_value (b64_digit n) = Some n) [0..<64]"
  by code_simp

lemma b64_value_digit [simp]: "n < 64 \<Longrightarrow> b64_value (b64_digit n) = Some n"
  using b64_value_all by (simp add: list_all_iff del: upt.simps)

lemma b64_digits_plain: "list_all (\<lambda>c. c \<noteq> CHR ''='' \<and> c \<noteq> CHR 0x0D \<and> c \<noteq> CHR 0x0A) b64_digits"
  by code_simp

lemma b64_digit_plain [simp]: "n < 64 \<Longrightarrow> b64_digit n \<noteq> CHR ''=''" "n < 64 \<Longrightarrow> b64_digit n \<noteq> CHR 0x0D" "n < 64 \<Longrightarrow> b64_digit n \<noteq> CHR 0x0A"
  using b64_digits_plain nth_mem [of n b64_digits] by (auto simp: list_all_iff b64_digit_def)

lemma length_b64_encode: "length (b64_encode b) = 4 * ((length b + 2) div 3)"
proof (induction b rule: b64_encode.induct)
  case (4 a b c rest)
  have "(length (a # b # c # rest) + 2) div 3 = Suc ((length rest + 2) div 3)" by simp
  moreover have "length (b64_encode (a # b # c # rest)) = 4 + length (b64_encode rest)"
    by (simp only: b64_encode.simps Let_def length_append) simp
  ultimately show ?case using 4 by (simp only:) simp
qed (simp_all add: Let_def)

lemma two_digits: "n mod (64 :: nat) + 64 * (n div 64) = n"
  by simp

lemma four_digits:
  fixes v :: nat
  shows "((v div 262144 * 64 + v div 4096 mod 64) * 64 + v div 64 mod 64) * 64 + v mod 64 = v"
proof -
  have "v div 262144 * 64 + v div 4096 mod 64 = v div 4096" using div_mult2_eq [of v 4096 64] by simp
  moreover have "v div 4096 * 64 + v div 64 mod 64 = v div 64" using div_mult2_eq [of v 64 64] by simp
  ultimately show ?thesis by simp
qed

lemma three_digits:
  fixes v :: nat
  shows "(v div 4096 * 64 + v div 64 mod 64) * 64 + v mod 64 = v"
proof -
  have "v div 4096 * 64 + v div 64 mod 64 = v div 64" using div_mult2_eq [of v 64 64] by simp
  then show ?thesis by simp
qed

lemma byte_digits:
  fixes x y z :: nat
  assumes "x < 256" and "y < 256" and "z < 256"
  shows "x * 16 div 64 < 64" "(x * 256 + y) * 4 div 4096 < 64" "((x * 256 + y) * 256 + z) div 262144 < 64"
    "(x * 256 + y) * 4 div 1024 = x" "(x * 256 + y) * 4 div 4 mod 256 = y" "x * 16 div 16 = x"
    "((x * 256 + y) * 256 + z) div 65536 = x" "((x * 256 + y) * 256 + z) div 256 mod 256 = y" "((x * 256 + y) * 256 + z) mod 256 = z"
proof -
  show "x * 16 div 64 < 64" "(x * 256 + y) * 4 div 4096 < 64" "((x * 256 + y) * 256 + z) div 262144 < 64"
    using assms by (auto intro!: less_mult_imp_div_less)
  have "(x * 256 + y) * 4 div 4 div 256 = x" using assms by simp
  then show "(x * 256 + y) * 4 div 1024 = x" using div_mult2_eq [of "(x * 256 + y) * 4" 4 256] by simp
  have "((x * 256 + y) * 256 + z) div 256 = x * 256 + y" using assms by simp
  moreover from this have "((x * 256 + y) * 256 + z) div 256 div 256 = x" using assms by simp
  ultimately show "((x * 256 + y) * 256 + z) div 65536 = x" "((x * 256 + y) * 256 + z) div 256 mod 256 = y"
    using div_mult2_eq [of "(x * 256 + y) * 256 + z" 256 256] assms by simp_all
  show "((x * 256 + y) * 256 + z) mod 256 = z" by (subst mod_mult_self3) (rule mod_less [OF assms(3)])
  have "(x * 256 + y) * 4 div 4 = x * 256 + y" by (rule nonzero_mult_div_cancel_right) simp
  then show "(x * 256 + y) * 4 div 4 mod 256 = y" using assms by (simp only: mod_mult_self3 mod_less)
  show "x * 16 div 16 = x" by simp
qed

lemmas group_bounds = byte_digits [OF byte_bound byte_bound byte_bound]

lemma of_nat_byte [simp]: "of_nat (unat (b :: byte)) = b"
  by simp

lemma b64_groups_encode: "b64_groups (b64_encode b) = Some b"
proof (induction b rule: b64_encode.induct)
  case (2 a)
  define v p q where "v = unat a * 16" and "p = v div 64" and "q = v mod 64"
  have "p * 64 + q = v" unfolding p_def q_def by (rule div_mult_mod_eq)
  then have d: "p < 64" "q < 64" "(p * 64 + q) div 16 = unat a"
    using group_bounds(1,6) [of a] by (simp_all only: p_def q_def v_def)
  show ?case using d by (simp add: Let_def v_def [symmetric] p_def [symmetric] q_def [symmetric])
next
  case (3 a b)
  define v p q r where "v = (unat a * 256 + unat b) * 4" and "p = v div 4096" and "q = v div 64 mod 64" and "r = v mod 64"
  have "(p * 64 + q) * 64 + r = v" unfolding p_def q_def r_def by (rule three_digits)
  then have d: "p < 64" "q < 64" "r < 64" "((p * 64 + q) * 64 + r) div 1024 = unat a" "((p * 64 + q) * 64 + r) div 4 mod 256 = unat b"
    using group_bounds(2,4,5) [of a b] by (simp_all only: p_def q_def r_def v_def) simp_all
  have "b64_encode [a, b] = [b64_digit p, b64_digit q, b64_digit r, CHR ''='']"
    by (simp only: b64_encode.simps Let_def v_def p_def q_def r_def)
  then show ?case using d by (simp add: Let_def)
next
  case (4 a b c rest)
  define v p q r t where "v = (unat a * 256 + unat b) * 256 + unat c" and "p = v div 262144" and "q = v div 4096 mod 64"
    and "r = v div 64 mod 64" and "t = v mod 64"
  have "((p * 64 + q) * 64 + r) * 64 + t = v" unfolding p_def q_def r_def t_def by (rule four_digits)
  then have d: "p < 64" "q < 64" "r < 64" "t < 64" "(((p * 64 + q) * 64 + r) * 64 + t) div 65536 = unat a"
    "(((p * 64 + q) * 64 + r) * 64 + t) div 256 mod 256 = unat b" "(((p * 64 + q) * 64 + r) * 64 + t) mod 256 = unat c"
    using group_bounds(3,7-9) [of a b c] by (simp_all only: p_def q_def r_def t_def v_def) simp_all
  have "b64_encode (a # b # c # rest) = [b64_digit p, b64_digit q, b64_digit r, b64_digit t] @ b64_encode rest"
    by (simp only: b64_encode.simps Let_def v_def p_def q_def r_def t_def)
  then show ?case using 4 d by (cases "b64_encode rest") (simp_all add: Let_def)
qed simp

lemma b64_encode_plain: "list_all (\<lambda>c. c \<noteq> CHR 0x0D \<and> c \<noteq> CHR 0x0A) (b64_encode b)"
proof (induction b rule: b64_encode.induct)
  case (2 a)
  show ?case unfolding b64_encode.simps using group_bounds(1) [of a] by (simp add: Let_def del: div_mult_self4)
next
  case (3 a b)
  define v where "v = (unat a * 256 + unat b) * 4"
  have "v div 4096 < 64" unfolding v_def by (rule group_bounds)
  then show ?case unfolding b64_encode.simps v_def [symmetric] by (simp add: Let_def)
next
  case (4 a b c rest)
  define v where "v = (unat a * 256 + unat b) * 256 + unat c"
  have "v div 262144 < 64" unfolding v_def by (rule group_bounds)
  then show ?case unfolding b64_encode.simps v_def [symmetric] using 4 by (simp add: Let_def)
qed simp

lemma b64_decode_encode [simp]: "b64_decode (b64_encode b) = Some b"
proof -
  have "filter (\<lambda>c. c \<noteq> CHR 0x0D \<and> c \<noteq> CHR 0x0A) (b64_encode b) = b64_encode b"
    using b64_encode_plain [of b] by (simp add: filter_id_conv list_all_iff)
  then show ?thesis by (simp add: b64_decode_def b64_groups_encode)
qed

section \<open>Native messages\<close>

definition max_native_message :: nat where "max_native_message = 1024 * 1024"

record wire_msg =
  wm_frame :: string
  wm_error :: string

record native_json =
  un_msg :: "bytes \<Rightarrow> wire_msg option"
  json_msg :: "wire_msg \<Rightarrow> err + bytes"
  un_hello :: "bytes \<Rightarrow> hello option"

definition read_message :: "native_json \<Rightarrow> ('a stream_scheme, err, wire_msg) prog" where
  "read_message J =
     mbind (read_full 4) (\<lambda>hdr.
     let n = unat (of_le32 hdr) in
     mbind (mguard (\<not> n > max_native_message) ErrMessageTooLarge) (\<lambda>_.
     mbind (replace_error ErrBadMessage (read_full n)) (\<lambda>buf.
     case un_msg J buf of None \<Rightarrow> mthrow ErrBadMessage | Some m \<Rightarrow> mreturn m)))"

definition write_message :: "native_json \<Rightarrow> wire_msg \<Rightarrow> ('a stream_scheme, err, unit) prog" where
  "write_message J m =
     mbind (mlift (json_msg J m)) (\<lambda>buf.
     mbind (mguard (\<not> length buf > max_native_message) ErrMessageTooLarge) (\<lambda>_.
     mbind (write_bytes (le32 (of_nat (length buf)))) (\<lambda>_.
     write_bytes buf)))"

definition frame_msg :: "bytes \<Rightarrow> wire_msg" where
  "frame_msg b = \<lparr>wm_frame = b64_encode b, wm_error = ''''\<rparr>"

definition error_msg :: "string \<Rightarrow> wire_msg" where
  "error_msg text = \<lparr>wm_frame = '''', wm_error = text\<rparr>"

text \<open>What \<^verbatim>\<open>encoding/json\<close> documents about a message with only a frame of base64 digits: none of
  them is escaped. And what is written reads back.\<close>

definition json_plain :: "native_json \<Rightarrow> bool" where
  "json_plain J \<longleftrightarrow> (\<forall>b. b \<noteq> [] \<longrightarrow>
     json_msg J (frame_msg b) = Inr (str_bytes (''{'' @ [CHR 0x22] @ ''frame'' @ [CHR 0x22] @ '':'' @ [CHR 0x22] @ b64_encode b @ [CHR 0x22] @ ''}'')))"

definition json_reads_back :: "native_json \<Rightarrow> bool" where
  "json_reads_back J \<longleftrightarrow> (\<forall>m b. json_msg J m = Inr b \<longrightarrow> un_msg J b = Some m)"

lemma write_message_Inr_iff:
  "write_message J m s = (Inr (), t) \<longleftrightarrow>
     (\<exists>buf. json_msg J m = Inr buf \<and> length buf \<le> max_native_message \<and>
        st_cut s (st_writes s) = None \<and> st_cut s (Suc (st_writes s)) = None \<and>
        t = s\<lparr>st_out := st_out s @ le32 (of_nat (length buf)) @ buf, st_writes := st_writes s + 2\<rparr>)"
  by (auto simp: write_message_def write_bytes_def mbind_Inr_iff prog_simps not_less split: option.splits)

lemma message_round_trip:
  assumes "json_reads_back J" and "write_message J m s = (Inr (), t)" and "st_out t = st_out s @ wire" and "st_in r = wire @ rest"
  shows "read_message J r = (Inr m, r\<lparr>st_in := rest\<rparr>)"
proof -
  from assms(2) obtain buf where b: "json_msg J m = Inr buf" "length buf \<le> max_native_message"
    "st_out t = st_out s @ le32 (of_nat (length buf)) @ buf" by (auto simp: write_message_Inr_iff)
  have n: "unat (of_nat (length buf) :: u32) = length buf" using b(2) by (simp add: max_native_message_def unat_of_nat)
  have "st_in r = le32 (of_nat (length buf)) @ buf @ rest" using b(3) assms(3,4) by simp
  moreover have "un_msg J buf = Some m" using assms(1) b(1) by (simp add: json_reads_back_def)
  ultimately show ?thesis
    using b(2) n by (simp add: read_message_def read_full_def mbind_unfold Let_def mguard_eq replace_error_def attempt_def mreturn_eq)
qed

text \<open>Every frame the transport carries fits into a native message.\<close>

lemma frame_message_length:
  assumes "json_plain J" and "b \<noteq> []"
  shows "\<exists>buf. json_msg J (frame_msg b) = Inr buf \<and> length buf = 12 + 4 * ((length b + 2) div 3)"
  using assms by (simp add: json_plain_def length_b64_encode)

lemma frame_fits_message:
  assumes "json_plain J" and "b \<noteq> []" and "length b \<le> max_frame_size"
  shows "\<exists>buf. json_msg J (frame_msg b) = Inr buf \<and> length buf \<le> max_native_message"
proof -
  have "(length b + 2) div 3 \<le> (max_frame_size + 2) div 3" using assms(3) by (intro div_le_mono) simp
  then have "12 + 4 * ((length b + 2) div 3) \<le> max_native_message" by (simp add: max_frame_size_def max_native_message_def)
  with frame_message_length [OF assms(1,2)] show ?thesis by metis
qed

text \<open>A concrete encoding with these laws: objects of one field, without escapes.\<close>

definition quoted :: "string \<Rightarrow> string" where
  "quoted t = [CHR 0x22] @ t @ [CHR 0x22]"

definition object1 :: "string \<Rightarrow> string \<Rightarrow> bytes" where
  "object1 k v = str_bytes (''{'' @ quoted k @ '':'' @ quoted v @ ''}'')"

definition un_object1 :: "string \<Rightarrow> bytes \<Rightarrow> string option" where
  "un_object1 k b =
     (let p = ''{'' @ quoted k @ '':'' @ [CHR 0x22]; t = bytes_str b in
      if length p + 2 \<le> length t \<and> take (length p) t = p then Some (take (length t - length p - 2) (drop (length p) t)) else None)"

lemma un_object1_same [simp]: "un_object1 k (object1 k v) = Some v"
  by (simp add: un_object1_def object1_def quoted_def Let_def)

definition plain_native :: "(bytes \<Rightarrow> hello option) \<Rightarrow> native_json" where
  "plain_native hello_of = \<lparr>
     un_msg = (\<lambda>b. case un_object1 ''frame'' b of Some f \<Rightarrow> Some \<lparr>wm_frame = f, wm_error = ''''\<rparr>
       | None \<Rightarrow> (case un_object1 ''error'' b of Some e \<Rightarrow> Some \<lparr>wm_frame = '''', wm_error = e\<rparr>
         | None \<Rightarrow> if b = str_bytes ''{}'' then Some \<lparr>wm_frame = '''', wm_error = ''''\<rparr> else None)),
     json_msg = (\<lambda>m. if wm_error m = '''' then Inr (if wm_frame m = '''' then str_bytes ''{}'' else object1 ''frame'' (wm_frame m))
       else if wm_frame m = '''' then Inr (object1 ''error'' (wm_error m)) else Inl (ErrOther ''two fields'')),
     un_hello = hello_of\<rparr>"

lemma b64_encode_eq_Nil [simp]: "b64_encode b = '''' \<longleftrightarrow> b = []"
  by (induction b rule: b64_encode.induct) (simp_all add: Let_def)

lemma plain_native_plain: "json_plain (plain_native f)"
  by (simp add: json_plain_def plain_native_def frame_msg_def object1_def quoted_def)

lemma plain_native_reads_back: "json_reads_back (plain_native f)"
proof -
  have e: "un_object1 ''frame'' (object1 ''error'' v) = None" for v
    by (simp add: un_object1_def object1_def quoted_def Let_def)
  have n: "un_object1 ''frame'' (str_bytes ''{}'') = None" "un_object1 ''error'' (str_bytes ''{}'') = None"
    by (simp_all add: un_object1_def quoted_def Let_def)
  show ?thesis
    by (auto simp: json_reads_back_def plain_native_def e n split: if_splits)
qed

section \<open>The caller\<close>

definition extension_scheme :: string where "extension_scheme = ''chrome-extension://''"

definition trim_slash :: "string \<Rightarrow> string" where
  "trim_slash s = (if s \<noteq> [] \<and> last s = CHR ''/'' then butlast s else s)"

definition chrome_validate :: "string list \<Rightarrow> string \<Rightarrow> err option" where
  "chrome_validate allowed origin =
     (if take (length extension_scheme) origin \<noteq> extension_scheme then Some ErrOriginDenied
      else let i = trim_slash (drop (length extension_scheme) origin) in
        if length i \<noteq> 32 then Some ErrOriginDenied
        else if i \<in> set allowed then None else Some ErrOriginDenied)"

lemma trim_slash_cases: "trim_slash s = i \<Longrightarrow> s = i \<or> s = i @ ''/''"
  by (auto simp: trim_slash_def split: if_splits) (metis append_butlast_last_id)

lemma chrome_validate_Some: "chrome_validate allowed origin = Some e \<Longrightarrow> e = ErrOriginDenied"
  by (auto simp: chrome_validate_def Let_def split: if_splits)

lemma chrome_validate_None:
  assumes "chrome_validate allowed origin = None"
  shows "\<exists>i \<in> set allowed. length i = 32 \<and> (origin = extension_scheme @ i \<or> origin = extension_scheme @ i @ ''/'')"
proof -
  define i where "i = trim_slash (drop (length extension_scheme) origin)"
  from assms have a: "take (length extension_scheme) origin = extension_scheme" "length i = 32" "i \<in> set allowed"
    by (auto simp: chrome_validate_def Let_def i_def split: if_splits)
  have "drop (length extension_scheme) origin = i \<or> drop (length extension_scheme) origin = i @ ''/''"
    by (rule trim_slash_cases) (simp add: i_def)
  with a(1) have "origin = extension_scheme @ i \<or> origin = extension_scheme @ i @ ''/''"
    by (metis append_take_drop_id)
  with a show ?thesis by blast
qed

end
