(* ===== verification/Relay.thy ===== *)
theory Relay
  imports Native
begin

text \<open>
  The relay between the extension and the daemon (\<^verbatim>\<open>internal/native/relay.go\<close>). It checks the
  hello, dials the daemon, and then runs two pumps: the function itself carries the extension's
  messages to the daemon, a goroutine carries the daemon's frames back. One iteration of a pump is
  one step, and the pumps interleave freely.
\<close>

section \<open>The hello\<close>

definition refuse :: "native_json \<Rightarrow> string \<Rightarrow> err \<Rightarrow> ('a stream_scheme, err, 'r) prog" where
  "refuse J text e = mbind (attempt (write_message J (error_msg text))) (\<lambda>_. mthrow e)"

definition relay_hello :: "native_json \<Rightarrow> ('a stream_scheme, err, bytes) prog" where
  "relay_hello J =
     mbind (read_message J) (\<lambda>first.
     case b64_decode (wm_frame first) of None \<Rightarrow> refuse J ''bad frame encoding'' ErrBadMessage | Some hello_raw \<Rightarrow>
     case un_hello J hello_raw of None \<Rightarrow> refuse J ''hello mode refused'' ErrModeRefused | Some h \<Rightarrow>
     if he_mode h \<noteq> mode_pairing \<and> he_mode h \<noteq> mode_paired then refuse J ''hello mode refused'' ErrModeRefused
     else mreturn hello_raw)"

section \<open>The pumps\<close>

text \<open>
  The extension's pump is reading, or it waits for the other one with what it will return (no error
  stands for \<^verbatim>\<open>nil\<close>), or it has returned. The other pump ends by putting an error into the channel.
  \<open>rl_silent\<close> says of the daemon that it keeps its side open after the last byte of \<open>st_in\<close>, so a
  read that needs more blocks.
\<close>

datatype pump = Pumping | Waiting "err option" | Returned "err option"

record relay =
  rl_ext :: stream
  rl_conn :: stream
  rl_silent :: bool
  rl_closed :: bool
  rl_up :: pump
  rl_done :: "err option"

definition relay_open :: "native_json \<Rightarrow> err + stream \<Rightarrow> bool \<Rightarrow> (stream, err, relay) prog" where
  "relay_open J dial silent =
     mbind (relay_hello J) (\<lambda>hello_raw.
     mbind (case dial of Inl e \<Rightarrow> refuse J ''daemon unavailable'' e | Inr conn \<Rightarrow> mreturn conn) (\<lambda>conn.
     mbind (mlift (fst (write_frame hello_raw conn))) (\<lambda>_.
     mget (\<lambda>ext. \<lparr>rl_ext = ext, rl_conn = snd (write_frame hello_raw conn), rl_silent = silent,
       rl_closed = False, rl_up = Pumping, rl_done = None\<rparr>))))"

definition up_step :: "native_json \<Rightarrow> relay \<Rightarrow> relay" where
  "up_step J r =
     (case read_message J (rl_ext r) of
        (Inl e, x) \<Rightarrow> r\<lparr>rl_ext := x, rl_closed := True, rl_up := Waiting (if e = ErrEOF then None else Some e)\<rparr>
      | (Inr msg, x) \<Rightarrow>
          (case b64_decode (wm_frame msg) of
             None \<Rightarrow> r\<lparr>rl_ext := x, rl_closed := True, rl_up := Waiting (Some ErrBadMessage)\<rparr>
           | Some payload \<Rightarrow>
               (case write_frame payload (rl_conn r) of
                  (Inl e, c) \<Rightarrow> r\<lparr>rl_ext := x, rl_conn := c, rl_up := Waiting (Some e)\<rparr>
                | (Inr _, c) \<Rightarrow> r\<lparr>rl_ext := x, rl_conn := c\<rparr>)))"

definition down_step :: "native_json \<Rightarrow> relay \<Rightarrow> relay" where
  "down_step J r =
     (if rl_closed r then r\<lparr>rl_done := Some ErrIO\<rparr>
      else case read_frame (rl_conn r) of
        (Inl e, c) \<Rightarrow> r\<lparr>rl_conn := c, rl_done := Some e\<rparr>
      | (Inr payload, c) \<Rightarrow>
          (case write_message J (frame_msg payload) (rl_ext r) of
             (Inl e, x) \<Rightarrow> r\<lparr>rl_conn := c, rl_ext := x, rl_done := Some e\<rparr>
           | (Inr _, x) \<Rightarrow> r\<lparr>rl_conn := c, rl_ext := x\<rparr>))"

text \<open>Reading a frame needs more than there is.\<close>

definition starved :: "'a stream_scheme \<Rightarrow> bool" where
  "starved s \<longleftrightarrow>
     length (st_in s) < 4 \<or>
     (let n = unat (of_be32 (take 4 (st_in s))) in 0 < n \<and> n \<le> max_frame_size \<and> length (st_in s) < 4 + n)"

definition down_blocked :: "relay \<Rightarrow> bool" where
  "down_blocked r \<longleftrightarrow> \<not> rl_closed r \<and> rl_silent r \<and> starved (rl_conn r)"

definition returned :: "relay \<Rightarrow> bool" where
  "returned r = (case rl_up r of Returned _ \<Rightarrow> True | _ \<Rightarrow> False)"

inductive relay_step :: "native_json \<Rightarrow> relay \<Rightarrow> relay \<Rightarrow> bool" for J where
  up: "rl_up r = Pumping \<Longrightarrow> relay_step J r (up_step J r)"
| down: "rl_done r = None \<Longrightarrow> \<not> down_blocked r \<Longrightarrow> \<not> returned r \<Longrightarrow> relay_step J r (down_step J r)"
| finish: "rl_up r = Waiting res \<Longrightarrow> rl_done r = Some e \<Longrightarrow> relay_step J r (r\<lparr>rl_up := Returned res, rl_closed := True\<rparr>)"

inductive_cases relay_stepE: "relay_step J r r'"

inductive relay_runs :: "native_json \<Rightarrow> relay \<Rightarrow> relay \<Rightarrow> bool" for J r where
  start: "relay_runs J r r"
| more: "relay_runs J r r' \<Longrightarrow> relay_step J r' r'' \<Longrightarrow> relay_runs J r r''"

section \<open>Every run ends\<close>

lemma write_bytes_in: "write_bytes b s = (res, t) \<Longrightarrow> st_in t = st_in s"
  by (auto simp: write_bytes_def split: option.splits)

lemma write_frame_in: "write_frame p s = (res, t) \<Longrightarrow> st_in t = st_in s"
  by (auto simp: write_frame_def mbind_unfold mguard_eq dest!: write_bytes_in split: prod.splits sum.splits if_splits)

lemma write_message_in: "write_message J m s = (res, t) \<Longrightarrow> st_in t = st_in s"
  by (auto simp: write_message_def mbind_unfold mguard_eq mlift_eq dest!: write_bytes_in split: prod.splits sum.splits if_splits)

lemma read_full_in: "read_full n s = (res, t) \<Longrightarrow> length (st_in t) \<le> length (st_in s)"
  by (auto simp: read_full_def split: if_splits)

lemma read_frame_in:
  "read_frame s = (res, t) \<Longrightarrow> length (st_in t) \<le> length (st_in s)"
  "read_frame s = (Inr p, t) \<Longrightarrow> length (st_in t) < length (st_in s)"
proof -
  show "read_frame s = (Inr p, t) \<Longrightarrow> length (st_in t) < length (st_in s)"
    using read_frame_Inr [of s p t] by (auto simp: frame_def)
  show "read_frame s = (res, t) \<Longrightarrow> length (st_in t) \<le> length (st_in s)"
    by (auto simp: read_frame_def read_full_def mbind_unfold mguard_eq mthrow_eq mreturn_eq Let_def replace_error_def attempt_def
        split: prod.splits sum.splits if_splits)
qed

lemma read_message_in:
  "read_message J s = (res, t) \<Longrightarrow> length (st_in t) \<le> length (st_in s)"
  "read_message J s = (Inr m, t) \<Longrightarrow> length (st_in t) < length (st_in s)"
  by (auto simp: read_message_def read_full_def mbind_unfold mguard_eq mthrow_eq mreturn_eq Let_def replace_error_def attempt_def
        split: prod.splits sum.splits if_splits option.splits)

definition relay_measure :: "relay \<Rightarrow> nat" where
  "relay_measure r =
     length (st_in (rl_ext r)) + length (st_in (rl_conn r)) +
     (case rl_up r of Pumping \<Rightarrow> 2 | Waiting _ \<Rightarrow> 1 | Returned _ \<Rightarrow> 0) + (if rl_done r = None then 1 else 0)"

lemma up_decreases:
  assumes "rl_up r = Pumping"
  shows "relay_measure (up_step J r) < relay_measure r"
proof (cases "read_message J (rl_ext r)")
  case (Pair res x)
  show ?thesis
  proof (cases res)
    case (Inl e)
    then show ?thesis using assms Pair read_message_in(1) [OF Pair] by (simp add: up_step_def relay_measure_def)
  next
    case (Inr msg)
    then have x: "length (st_in x) < length (st_in (rl_ext r))" using Pair read_message_in(2) by blast
    show ?thesis
    proof (cases "b64_decode (wm_frame msg)")
      case None
      then show ?thesis using assms Pair Inr x by (simp add: up_step_def relay_measure_def)
    next
      case (Some p)
      obtain w c where w: "write_frame p (rl_conn r) = (w, c)" by fastforce
      then show ?thesis using assms Pair Inr Some x write_frame_in [OF w]
        by (cases w) (simp_all add: up_step_def relay_measure_def)
    qed
  qed
qed

lemma down_decreases:
  assumes "rl_done r = None"
  shows "relay_measure (down_step J r) < relay_measure r"
proof (cases "rl_closed r")
  case True
  then show ?thesis using assms by (simp add: down_step_def relay_measure_def)
next
  case False
  obtain res c where r: "read_frame (rl_conn r) = (res, c)" by fastforce
  show ?thesis
  proof (cases res)
    case (Inl e)
    then show ?thesis using assms False r read_frame_in(1) [OF r] by (simp add: down_step_def relay_measure_def)
  next
    case (Inr p)
    then have c: "length (st_in c) < length (st_in (rl_conn r))" using r read_frame_in(2) by blast
    obtain w x where w: "write_message J (frame_msg p) (rl_ext r) = (w, x)" by fastforce
    then show ?thesis using assms False r Inr c write_message_in [OF w]
      by (cases w) (simp_all add: down_step_def relay_measure_def)
  qed
qed

lemma relay_step_decreases: "relay_step J r r' \<Longrightarrow> relay_measure r' < relay_measure r"
  by (induction rule: relay_step.induct) (auto simp: up_decreases down_decreases, simp add: relay_measure_def)

lemma relay_terminates: "wfp (\<lambda>r' r. relay_step J r r')"
  by (rule wfp_if_convertible_to_nat [where f = relay_measure]) (rule relay_step_decreases)

text \<open>A relay that can do nothing has returned, or it waits for the daemon while the daemon waits for it.\<close>

lemma relay_progress: "(\<exists>r'. relay_step J r r') \<or> returned r \<or> (\<exists>res. rl_up r = Waiting res \<and> rl_done r = None \<and> down_blocked r)"
proof (cases "rl_up r")
  case Pumping
  then show ?thesis using relay_step.up by blast
next
  case (Waiting res)
  then have n: "\<not> returned r" by (simp add: returned_def)
  show ?thesis
  proof (cases "rl_done r")
    case None
    then show ?thesis using relay_step.down [OF None _ n] Waiting by blast
  next
    case (Some e)
    then show ?thesis using relay_step.finish [OF Waiting Some] by blast
  qed
next
  case (Returned res)
  then show ?thesis by (simp add: returned_def)
qed

lemma up_keeps: "rl_silent (up_step J r) = rl_silent r" "rl_done (up_step J r) = rl_done r"
  by (simp_all add: up_step_def split: prod.splits sum.splits option.splits)

lemma down_keeps: "rl_silent (down_step J r) = rl_silent r" "rl_up (down_step J r) = rl_up r" "rl_closed (down_step J r) = rl_closed r"
  by (simp_all add: down_step_def split: prod.splits sum.splits option.splits)

lemma runs_from: "relay_step J r r' \<Longrightarrow> relay_runs J r' r'' \<Longrightarrow> relay_runs J r r''"
  by (rotate_tac 1, induction rule: relay_runs.induct) (auto intro: relay_runs.intros)

lemma relay_can_return: "\<not> rl_silent r \<Longrightarrow> \<exists>r'. relay_runs J r r' \<and> returned r'"
proof (induction r rule: measure_induct_rule [where f = relay_measure])
  case (less r)
  show ?case
  proof (cases "\<exists>r'. relay_step J r r'")
    case True
    then obtain r' where r': "relay_step J r r'" by blast
    then have "\<not> rl_silent r'" using less.prems by (auto elim!: relay_stepE simp: up_keeps down_keeps)
    then obtain r'' where "relay_runs J r' r''" "returned r''" using less.IH [OF relay_step_decreases [OF r']] by blast
    then show ?thesis using runs_from [OF r'] by blast
  next
    case False
    then have "returned r" using relay_progress [of J r] less.prems by (auto simp: down_blocked_def)
    then show ?thesis using relay_runs.start by blast
  qed
qed

text \<open>A message without a frame is such a case: it is not written, but the connection stays open.\<close>

lemma relay_stuck:
  assumes "rl_up r = Pumping" and "rl_done r = None" and "down_blocked r"
    and "read_message J (rl_ext r) = (Inr msg, x)" and "b64_decode (wm_frame msg) = Some []"
  shows "relay_step J r (up_step J r) \<and> \<not> returned (up_step J r) \<and> (\<nexists>r'. relay_step J (up_step J r) r')"
proof -
  have "write_frame [] (rl_conn r) = (Inl ErrBadFrame, rl_conn r)"
    by (simp add: write_frame_def mbind_unfold mguard_eq)
  then have u: "up_step J r = r\<lparr>rl_ext := x, rl_up := Waiting (Some ErrBadFrame)\<rparr>"
    using assms by (simp add: up_step_def)
  have "\<not> relay_step J (up_step J r) r'" for r'
  proof
    assume "relay_step J (up_step J r) r'"
    then show False using assms(2,3) by (auto elim!: relay_stepE simp: u down_blocked_def)
  qed
  moreover have "relay_step J r (up_step J r)" by (rule relay_step.up [OF assms(1)])
  moreover have "\<not> returned (up_step J r)" by (simp add: u returned_def)
  ultimately show ?thesis by blast
qed

section \<open>What the daemon hears\<close>

text \<open>What is written only grows, so the daemon's side begins with the hello that was checked.\<close>

definition greeted :: "native_json \<Rightarrow> relay \<Rightarrow> bool" where
  "greeted J r \<longleftrightarrow>
     (\<exists>hello_raw h out. st_out (rl_conn r) = frame hello_raw @ out \<and> hello_raw \<noteq> [] \<and> length hello_raw \<le> max_frame_size \<and>
        un_hello J hello_raw = Some h \<and> he_mode h \<in> {mode_pairing, mode_paired})"

lemma write_bytes_out: "write_bytes b s = (res, t) \<Longrightarrow> \<exists>k. st_out t = st_out s @ take k b"
  by (auto simp: write_bytes_def split: option.splits) (metis take_all_iff order_refl)

lemma write_frame_out: "write_frame p s = (res, t) \<Longrightarrow> \<exists>x. st_out t = st_out s @ x"
  by (auto simp: write_frame_def mbind_unfold mguard_eq dest!: write_bytes_out split: prod.splits sum.splits if_splits)

lemma relay_hello_Inr:
  assumes "relay_hello J s = (Inr raw, t)"
  shows "\<exists>h. un_hello J raw = Some h \<and> he_mode h \<in> {mode_pairing, mode_paired}"
  using assms
  by (auto simp: relay_hello_def refuse_def attempt_def mbind_Inr_iff prog_simps split: option.splits if_splits prod.splits)

lemma relay_open_greeted:
  assumes "relay_open J dial silent s = (Inr r, t)" and "\<And>c. dial = Inr c \<Longrightarrow> st_out c = []"
  shows "greeted J r"
proof -
  from assms(1) obtain raw u conn where
    r: "relay_hello J s = (Inr raw, u)" "dial = Inr conn" "fst (write_frame raw conn) = Inr ()" "rl_conn r = snd (write_frame raw conn)"
    by (auto simp: relay_open_def refuse_def mbind_Inr_iff prog_simps split: sum.splits)
  from r(3,4) have "write_frame raw conn = (Inr (), rl_conn r)" by (simp add: prod_eq_iff)
  then have "raw \<noteq> []" "length raw \<le> max_frame_size" "st_out (rl_conn r) = frame raw @ []"
    using assms(2) [OF r(2)] by (simp_all add: write_frame_Inr_iff)
  with relay_hello_Inr [OF r(1)] show ?thesis unfolding greeted_def by blast
qed

lemma greeted_mono: "greeted J r \<Longrightarrow> st_out (rl_conn r') = st_out (rl_conn r) @ x \<Longrightarrow> greeted J r'"
  unfolding greeted_def by (metis append_assoc)

lemma up_out: "\<exists>x. st_out (rl_conn (up_step J r)) = st_out (rl_conn r) @ x"
  by (auto simp: up_step_def dest: write_frame_out split: prod.splits sum.splits option.splits)

lemma down_out: "st_out (rl_conn (down_step J r)) = st_out (rl_conn r)"
proof -
  have "st_out c = st_out (rl_conn r)" if "read_frame (rl_conn r) = (res, c)" for res c
    using read_frame_out [of "rl_conn r"] that by simp
  then show ?thesis by (auto simp: down_step_def split: prod.splits sum.splits)
qed

lemma relay_step_greeted: "relay_step J r r' \<Longrightarrow> greeted J r \<Longrightarrow> greeted J r'"
proof (induction rule: relay_step.induct)
  case (up r)
  then show ?case using up_out [of J r] greeted_mono by blast
next
  case (down r)
  then show ?case using down_out [of J r] by (simp add: greeted_def)
next
  case (finish r res e)
  then show ?case by (simp add: greeted_def)
qed

lemma relay_runs_greeted: "relay_runs J r r' \<Longrightarrow> greeted J r \<Longrightarrow> greeted J r'"
  by (induction rule: relay_runs.induct) (auto dest: relay_step_greeted)

text \<open>So a daemon at the other end never completes a handshake in the mode of the command-line client,
  whatever the extension sends.\<close>

lemma relayed_hello_is_browser:
  assumes "relay_open J dial silent s = (Inr r, t)" and "\<And>c. dial = Inr c \<Longrightarrow> st_out c = []"
    and "relay_runs J r r'" and "st_in v = st_out (rl_conn r') @ rest"
    and "server_handshake N (un_hello J) static look v = (Inr (snd_half, rcv_half, h, remote), w)"
  shows "he_mode h \<noteq> mode_cli"
proof -
  from relay_runs_greeted [OF assms(3) relay_open_greeted [OF assms(1,2)]] obtain raw g out where
    g: "st_out (rl_conn r') = frame raw @ out" "raw \<noteq> []" "length raw \<le> max_frame_size" "un_hello J raw = Some g"
    "he_mode g \<in> {mode_pairing, mode_paired}" unfolding greeted_def by blast
  have "read_frame v = (Inr raw, v\<lparr>st_in := out @ rest\<rparr>)" using g assms(4) by (intro read_frame_frame) simp_all
  moreover obtain raw' u where "read_frame v = (Inr raw', u)" "un_hello J raw' = Some h"
    using assms(5) by (auto simp: server_handshake_def mbind_Inr_iff prog_simps server_finish_def Let_def split: option.splits if_splits prod.splits)
  ultimately have "h = g" using g(4) by simp
  then show ?thesis using g(5) by (auto simp: mode_defs)
qed

section \<open>A concrete run\<close>

text \<open>The extension's side of a pairing handshake, in the concrete encoding, and a daemon that is silent.\<close>

definition demo_hello_of :: "bytes \<Rightarrow> hello option" where
  "demo_hello_of b =
     (if b = [7] then Some \<lparr>he_version = 1, he_mode = mode_pairing, he_client_id = ''''\<rparr>
      else if b = [8] then Some \<lparr>he_version = 1, he_mode = mode_cli, he_client_id = ''''\<rparr> else None)"

definition native_wire :: "string \<Rightarrow> bytes" where
  "native_wire text = (let b = object1 ''frame'' text in le32 (of_nat (length b)) @ b)"

definition stream_of :: "bytes \<Rightarrow> stream" where
  "stream_of b = \<lparr>st_in = b, st_out = [], st_cut = (\<lambda>_. None), st_writes = 0\<rparr>"

definition wires :: "bytes list \<Rightarrow> bytes" where
  "wires payloads = concat (map (\<lambda>p. native_wire (b64_encode p)) payloads)"

lemma wires_simps [simp]: "wires [] = []" "wires (p # ps) = native_wire (b64_encode p) @ wires ps"
  by (simp_all add: wires_def)

lemma read_native_wire:
  assumes "st_in s = native_wire t @ rest" and "length t \<le> 1000"
  shows "read_message (plain_native f) s = (Inr \<lparr>wm_frame = t, wm_error = ''''\<rparr>, s\<lparr>st_in := rest\<rparr>)"
proof -
  define b where "b = object1 ''frame'' t"
  have l: "length b \<le> 1012" using assms(2) by (simp add: b_def object1_def quoted_def)
  have n: "unat (of_nat (length b) :: u32) = length b" using l by (simp add: unat_of_nat)
  have i: "st_in s = le32 (of_nat (length b)) @ b @ rest" using assms(1) by (simp add: native_wire_def b_def Let_def)
  have u: "un_msg (plain_native f) b = Some \<lparr>wm_frame = t, wm_error = ''''\<rparr>" by (simp add: plain_native_def b_def)
  show ?thesis
    using l by (simp add: read_message_def read_full_def mbind_unfold mguard_eq Let_def i n replace_error_def attempt_def
        mreturn_eq u max_native_message_def)
qed

lemma read_payload:
  assumes "st_in s = native_wire (b64_encode p) @ rest" and "length p \<le> 100"
  shows "read_message (plain_native f) s = (Inr (frame_msg p), s\<lparr>st_in := rest\<rparr>)"
  unfolding frame_msg_def using assms by (intro read_native_wire) (simp_all add: length_b64_encode)

definition demo_relay :: "bytes list \<Rightarrow> err + relay" where
  "demo_relay payloads = fst (relay_open (plain_native demo_hello_of) (Inr (stream_of [])) True (stream_of (wires payloads)))"

definition demo_opened :: "bytes list \<Rightarrow> relay" where
  "demo_opened payloads = \<lparr>rl_ext = stream_of (wires payloads),
     rl_conn = (stream_of [])\<lparr>st_out := frame [7], st_writes := 2\<rparr>, rl_silent = True, rl_closed = False, rl_up = Pumping, rl_done = None\<rparr>"

lemma demo_opens: "relay_open (plain_native demo_hello_of) (Inr (stream_of [])) True (stream_of (wires ([7] # ps))) =
  (Inr (demo_opened ps), stream_of (wires ps))"
proof -
  define ext :: stream where "ext = stream_of (wires ([7] # ps))"
  have "read_message (plain_native demo_hello_of) ext = (Inr (frame_msg [7]), ext\<lparr>st_in := wires ps\<rparr>)"
    by (rule read_payload) (simp_all add: ext_def stream_of_def)
  moreover have "un_hello (plain_native demo_hello_of) [7] = Some \<lparr>he_version = 1, he_mode = mode_pairing, he_client_id = ''''\<rparr>"
    by (simp add: plain_native_def demo_hello_of_def)
  ultimately have "relay_hello (plain_native demo_hello_of) ext = (Inr [7], ext\<lparr>st_in := wires ps\<rparr>)"
    by (simp add: relay_hello_def mbind_unfold frame_msg_def mreturn_eq del: b64_encode.simps)
  moreover have "write_frame [7] (stream_of []) = (Inr (), (stream_of [])\<lparr>st_out := frame [7], st_writes := 2\<rparr>)"
    by (subst write_frame_Inr_iff) (simp add: stream_of_def max_frame_size_def)
  ultimately show ?thesis
    unfolding ext_def [symmetric] by (simp add: relay_open_def mbind_unfold mreturn_eq mlift_eq mget_eq demo_opened_def ext_def stream_of_def)
qed

lemma demo_up:
  assumes "rl_up r = Pumping" and "st_in (rl_ext r) = wires (p # ps)" and "p \<noteq> []" and "length p \<le> 100" and "\<And>n. st_cut (rl_conn r) n = None"
  shows "up_step (plain_native f) r = r\<lparr>rl_ext := (rl_ext r)\<lparr>st_in := wires ps\<rparr>,
    rl_conn := (rl_conn r)\<lparr>st_out := st_out (rl_conn r) @ frame p, st_writes := st_writes (rl_conn r) + 2\<rparr>\<rparr>"
proof -
  have "read_message (plain_native f) (rl_ext r) = (Inr (frame_msg p), (rl_ext r)\<lparr>st_in := wires ps\<rparr>)"
    using assms by (intro read_payload) simp_all
  moreover have "write_frame p (rl_conn r) = (Inr (), (rl_conn r)\<lparr>st_out := st_out (rl_conn r) @ frame p, st_writes := st_writes (rl_conn r) + 2\<rparr>)"
    using assms by (subst write_frame_Inr_iff) (simp add: max_frame_size_def)
  ultimately show ?thesis by (simp add: up_step_def frame_msg_def)
qed

text \<open>The relay after the three messages of a handshake, and what the daemon makes of them.\<close>

definition demo_done :: relay where
  "demo_done = (demo_opened [])\<lparr>rl_conn := (stream_of [])\<lparr>st_out := frame [7] @ frame [1, 9] @ frame [2, 9], st_writes := 6\<rparr>\<rparr>"

lemma demo_runs: "relay_runs (plain_native demo_hello_of) (demo_opened [[1, 9], [2, 9]]) demo_done"
proof -
  define J where "J = plain_native demo_hello_of"
  define r0 where "r0 = demo_opened [[1, 9], [2, 9]]"
  have a: "relay_step J r0 (up_step J r0)" by (rule relay_step.up) (simp add: r0_def demo_opened_def)
  have 1: "up_step J r0 = (demo_opened [[2, 9]])\<lparr>rl_conn := (stream_of [])\<lparr>st_out := frame [7] @ frame [1, 9], st_writes := 4\<rparr>\<rparr>"
    unfolding J_def by (subst demo_up [of r0 "[1, 9]" "[[2, 9]]"]) (simp_all add: r0_def demo_opened_def stream_of_def)
  have b: "relay_step J (up_step J r0) (up_step J (up_step J r0))"
    by (rule relay_step.up) (simp add: 1 demo_opened_def)
  have c: "up_step J (up_step J r0) = demo_done"
    unfolding 1 unfolding J_def
    by (subst demo_up [of _ "[2, 9]" "[]"]) (simp_all add: demo_opened_def stream_of_def demo_done_def)
  from relay_runs.more [OF relay_runs.more [OF relay_runs.start a] b] show ?thesis
    unfolding c by (simp only: r0_def J_def)
qed

definition demo_daemon :: stream where
  "demo_daemon = stream_of (st_out (rl_conn demo_done))"

definition demo_hello :: hello where
  "demo_hello = \<lparr>he_version = 1, he_mode = mode_pairing, he_client_id = ''''\<rparr>"

lemma short_frame:
  fixes s :: stream
  shows "st_in s = frame p @ rest \<Longrightarrow> p \<noteq> [] \<Longrightarrow> length p \<le> 100 \<Longrightarrow> read_frame s = (Inr p, s\<lparr>st_in := rest\<rparr>)"
    and "p \<noteq> [] \<Longrightarrow> length p \<le> 100 \<Longrightarrow> st_cut s = (\<lambda>_. None) \<Longrightarrow>
      write_frame p s = (Inr (), s\<lparr>st_out := st_out s @ frame p, st_writes := st_writes s + 2\<rparr>)"
  by (rule read_frame_frame) (simp_all add: write_frame_Inr_iff max_frame_size_def)

lemma demo_serves:
  "\<exists>t. server_handshake plain_noise demo_hello_of ([5], []) (\<lambda>_. Inl ErrClientNotFound) demo_daemon =
     (Inr (new_half 100, new_half 0, demo_hello, [9]), t) \<and> st_out t = frame [1, 5]"
proof -
  define s0 :: stream where "s0 = stream_of (frame [7] @ frame [1, 9] @ frame [2, 9])"
  define s1 where "s1 = s0\<lparr>st_in := frame [1, 9] @ frame [2, 9]\<rparr>"
  define s2 where "s2 = s0\<lparr>st_in := frame [2, 9]\<rparr>"
  define s3 where "s3 = s2\<lparr>st_out := frame [1, 5], st_writes := 2\<rparr>"
  define s4 where "s4 = s3\<lparr>st_in := []\<rparr>"
  have d: "demo_daemon = s0" by (simp add: demo_daemon_def demo_done_def s0_def)
  have 1: "read_frame s0 = (Inr [7], s1)" unfolding s1_def by (rule short_frame) (simp_all add: s0_def stream_of_def)
  have "read_frame s1 = (Inr [1, 9], s1\<lparr>st_in := frame [2, 9]\<rparr>)" by (rule short_frame) (simp_all add: s1_def)
  then have 2: "read_frame s1 = (Inr [1, 9], s2)" by (simp add: s1_def s2_def)
  have 3: "write_frame [1, 5] s2 = (Inr (), s3)" using short_frame(2) [of "[1, 5]" s2] by (simp add: s3_def s2_def s0_def stream_of_def)
  have 4: "read_frame s3 = (Inr [2, 9], s4)" unfolding s4_def by (rule short_frame) (simp_all add: s3_def s2_def)
  have h: "demo_hello_of [7] = Some demo_hello" by (simp add: demo_hello_of_def demo_hello_def)
  have n: "hs_new plain_noise False ([5], []) None [7] = Inr \<lparr>ph_static = [5], ph_psk = None, ph_prologue = [7], ph_peer = []\<rparr>"
    by (simp add: plain_noise_def)
  have f: "server_finish plain_noise demo_hello [] \<lparr>ph_static = [5], ph_psk = None, ph_prologue = [7], ph_peer = [9]\<rparr> s2 =
      (Inr (new_half 100, new_half 0, demo_hello, [9]), s4)"
    by (simp add: server_finish_def plain_noise_def mbind_unfold handshake_failed_def mreturn_eq 3 4 Let_def demo_hello_def mode_defs)
  have "server_handshake plain_noise demo_hello_of ([5], []) (\<lambda>_. Inl ErrClientNotFound) s0 =
      (Inr (new_half 100, new_half 0, demo_hello, [9]), s4)"
    using f by (simp add: server_handshake_def mbind_unfold 1 2 h mreturn_eq mlift_eq n)
      (simp add: demo_hello_def mode_defs mbind_unfold mreturn_eq plain_noise_def handshake_failed_def)
  moreover have "st_out s4 = frame [1, 5]" by (simp add: s4_def s3_def)
  ultimately show ?thesis unfolding d by blast
qed

lemma demo_greets:
  "\<exists>t. client_handshake plain_noise (\<lambda>_. Inr [7]) ([9], []) demo_hello None (Some [5]) (stream_of (frame [1, 5])) =
     (Inr (new_half 0, new_half 100, [5]), t) \<and> st_out t = st_in demo_daemon"
proof -
  define s0 :: stream where "s0 = stream_of (frame [1, 5])"
  define s1 where "s1 = s0\<lparr>st_out := frame [7], st_writes := 2\<rparr>"
  define s2 where "s2 = s0\<lparr>st_out := frame [7] @ frame [1, 9], st_writes := 4\<rparr>"
  define s3 where "s3 = s2\<lparr>st_in := []\<rparr>"
  define s4 where "s4 = s3\<lparr>st_out := frame [7] @ frame [1, 9] @ frame [2, 9], st_writes := 6\<rparr>"
  have 1: "write_frame [7] s0 = (Inr (), s1)" using short_frame(2) [of "[7]" s0] by (simp add: s0_def stream_of_def s1_def)
  have 2: "write_frame [1, 9] s1 = (Inr (), s2)"
    using short_frame(2) [of "[1, 9]" s1] by (simp add: s0_def stream_of_def s1_def s2_def)
  have 3: "read_frame s2 = (Inr [1, 5], s3)" unfolding s3_def by (rule short_frame) (simp_all add: s2_def s0_def stream_of_def)
  have 4: "write_frame [2, 9] s3 = (Inr (), s4)"
    using short_frame(2) [of "[2, 9]" s3] by (simp add: s0_def stream_of_def s2_def s3_def s4_def)
  have "client_handshake plain_noise (\<lambda>_. Inr [7]) ([9], []) demo_hello None (Some [5]) s0 = (Inr (new_half 0, new_half 100, [5]), s4)"
    by (simp add: client_handshake_def mbind_unfold mlift_eq 1 plain_noise_def handshake_failed_def mreturn_eq 2 3 4 Let_def)
  moreover have "st_out s4 = st_in demo_daemon" by (simp add: s4_def demo_daemon_def demo_done_def stream_of_def)
  ultimately show ?thesis unfolding s0_def by blast
qed

text \<open>A connection over the concrete cipher that sends two messages.\<close>

definition demo_conn :: "byte noise_conn" where
  "demo_conn = \<lparr>st_in = [], st_out = [], st_cut = (\<lambda>_. None), st_writes = 0, nc_send = new_half 0, nc_recv = new_half 100\<rparr>"

lemma demo_sends:
  "\<exists>t. mfor [[4], [6]] (conn_send plain_cipher) demo_conn = (Inr (), t) \<and> st_out t = frame [0, 4] @ frame [1, 6]"
proof -
  have w: "write_frame p s = (Inr (), s\<lparr>st_out := st_out s @ frame p, st_writes := st_writes s + 2\<rparr>)"
    if "p \<noteq> []" "length p \<le> 100" "st_cut s = (\<lambda>_. None)" for s :: "byte noise_conn" and p
    using that by (subst write_frame_Inr_iff) (simp add: max_frame_size_def)
  show ?thesis
    by (simp add: mbind_unfold mreturn_eq conn_send_def demo_conn_def new_half_def plain_cipher_def w counted_def Let_def rekey_interval_def)
qed

end
