(* ===== verification/Client.thy ===== *)
theory Client
  imports Daemon
begin

text \<open>
  The Go client of the daemon (\<^verbatim>\<open>internal/client/client.go\<close>): the three ways to dial, and a call, which
  sends one request envelope over the connection and reads the response. JSON is a parameter.
\<close>

section \<open>Dialling\<close>

record 'c client = "'c noise_conn" +
  ct_counter :: u64

definition err_unavailable :: err where "err_unavailable = ErrOther ''client: daemon unavailable''"

definition client_of :: "'c conn_half \<Rightarrow> 'c conn_half \<Rightarrow> stream \<Rightarrow> 'c client" where
  "client_of snd_half rcv_half s =
     \<lparr>st_in = st_in s, st_out = st_out s, st_cut = st_cut s, st_writes = st_writes s,
      nc_send = snd_half, nc_recv = rcv_half, ct_counter = 0\<rparr>"

definition dial ::
  "('h, 'c) noise_prims \<Rightarrow> (hello \<Rightarrow> err + bytes) \<Rightarrow> err + stream \<Rightarrow> bytes \<times> bytes \<Rightarrow> hello \<Rightarrow> bytes option \<Rightarrow> bytes option \<Rightarrow>
   err + 'c client" where
  "dial N json_hello net static h psk pinned =
     (case net of
        Inl _ \<Rightarrow> Inl err_unavailable
      | Inr s \<Rightarrow>
          (case client_handshake N json_hello static h psk pinned s of
             (Inl e, _) \<Rightarrow> Inl e
           | (Inr (snd_half, rcv_half, _), t) \<Rightarrow> Inr (client_of snd_half rcv_half t)))"

definition dial_cli where
  "dial_cli N json_hello net generated =
     sbind generated (\<lambda>static. dial N json_hello net static \<lparr>he_version = 1, he_mode = ''cli'', he_client_id = ''''\<rparr> None None)"

definition dial_pairing where
  "dial_pairing N json_hello net static =
     dial N json_hello net static \<lparr>he_version = 1, he_mode = mode_pairing, he_client_id = ''''\<rparr> None None"

definition dial_paired where
  "dial_paired P N json_hello net static client_id credential pinned =
     dial N json_hello net static \<lparr>he_version = 1, he_mode = mode_paired, he_client_id = client_id\<rparr>
       (Some (credential_verifier P credential)) pinned"

section \<open>Calls\<close>

text \<open>\<^verbatim>\<open>fmt\<close>'s decimal notation.\<close>

fun decimal :: "nat \<Rightarrow> string" where
  "decimal n = (if n < 10 then [char_of (48 + n)] else decimal (n div 10) @ [char_of (48 + n mod 10)])"

declare decimal.simps [simp del]

record client_json =
  json_request :: "request \<Rightarrow> err + bytes"
  un_response :: "bytes \<Rightarrow> response option"

definition api_error :: "wire_error \<Rightarrow> err" where
  "api_error e = ErrAPI (we_code e) (we_message e)"

definition next_request :: "u64 \<Rightarrow> string \<Rightarrow> bytes \<Rightarrow> request" where
  "next_request n oper payload =
     \<lparr>rq_protocol_version = protocol_version, rq_request_id = ''req-'' @ decimal (unat n), rq_operation = oper, rq_payload = payload\<rparr>"

text \<open>What a response means to the caller: no value where none was asked for or none came.\<close>

definition read_response :: "(bytes \<Rightarrow> 'o option) option \<Rightarrow> response \<Rightarrow> err + 'o option" where
  "read_response out resp =
     (if \<not> rs_ok resp then
        (case rs_error resp of None \<Rightarrow> Inl (ErrOther ''client: malformed error response'') | Some e \<Rightarrow> Inl (api_error e))
      else
        (case (out, rs_data resp) of
           (Some un, Some d) \<Rightarrow> if d = [] then Inr None else
             (case un d of None \<Rightarrow> Inl (ErrOther ''encoding/json'') | Some x \<Rightarrow> Inr (Some x))
         | _ \<Rightarrow> Inr None))"

definition client_call ::
  "'c cipher_prims \<Rightarrow> client_json \<Rightarrow> string \<Rightarrow> (err + bytes) option \<Rightarrow> (bytes \<Rightarrow> 'o option) option \<Rightarrow> ('c client, err, 'o option) prog" where
  "client_call C J oper payload out =
     mbind (mmodify (\<lambda>s. s\<lparr>ct_counter := ct_counter s + 1\<rparr>)) (\<lambda>_.
     mbind (mget ct_counter) (\<lambda>n.
     mbind (case payload of None \<Rightarrow> mreturn [] | Some raw \<Rightarrow> mlift raw) (\<lambda>raw.
     mbind (mlift (json_request J (next_request n oper raw))) (\<lambda>raw_req.
     mbind (replace_error err_unavailable (conn_send C raw_req)) (\<lambda>_.
     mbind (replace_error err_unavailable (conn_recv C)) (\<lambda>raw_resp.
     case un_response J raw_resp of
       None \<Rightarrow> mthrow (ErrOther ''encoding/json'')
     | Some resp \<Rightarrow> mlift (read_response out resp)))))))"

section \<open>The identity a paired client stores\<close>

record paired_identity =
  pt_client_id :: string
  pt_credential :: string
  pt_daemon_static_key :: string
  pt_static_public :: string
  pt_static_private :: string

definition unhex :: "string \<Rightarrow> err + bytes" where
  "unhex t = (case hex_decode t of None \<Rightarrow> Inl (ErrOther ''encoding/hex'') | Some b \<Rightarrow> Inr b)"

definition credential_bytes :: "paired_identity \<Rightarrow> err + bytes" where
  "credential_bytes i = unhex (pt_credential i)"

definition daemon_key_bytes :: "paired_identity \<Rightarrow> err + bytes" where
  "daemon_key_bytes i = unhex (pt_daemon_static_key i)"

definition static_key :: "paired_identity \<Rightarrow> err + bytes \<times> bytes" where
  "static_key i = sbind (unhex (pt_static_public i)) (\<lambda>pub. sbind (unhex (pt_static_private i)) (\<lambda>priv. Inr (pub, priv)))"

text \<open>What is read is what was stored, up to the case of the digits.\<close>

lemma unhex_Inr: "unhex t = Inr b \<longleftrightarrow> hex_encode b = map ascii_lower t"
  by (simp add: unhex_def hex_decode_iff [symmetric] split: option.split)

lemma stored_identity:
  assumes "pt_credential i = hex_encode c" and "pt_daemon_static_key i = hex_encode d"
    and "pt_static_public i = hex_encode p" and "pt_static_private i = hex_encode q"
  shows "credential_bytes i = Inr c \<and> daemon_key_bytes i = Inr d \<and> static_key i = Inr (p, q)"
  using assms by (simp add: credential_bytes_def daemon_key_bytes_def static_key_def unhex_def)

section \<open>A call and the daemon that answers it\<close>

text \<open>One round of the daemon's loop over a connection: a message, the handler, the answer.\<close>

definition serve_one ::
  "'c cipher_prims \<Rightarrow> (response \<Rightarrow> err + bytes) \<Rightarrow> deps \<Rightarrow> dstate \<Rightarrow> ('c noise_conn, err, dstate) prog" where
  "serve_one C json_response D d =
     mbind (conn_recv C) (\<lambda>raw.
     case handle D raw d of
       (Inl e, _) \<Rightarrow> mthrow e
     | (Inr resp, d') \<Rightarrow>
         mbind (mlift (json_response resp)) (\<lambda>b.
         mbind (conn_send C b) (\<lambda>_.
         mreturn d')))"

lemma conn_recv_keeps:
  assumes "conn_recv C s = (res, t)"
  shows "st_out t = st_out s \<and> nc_send t = nc_send s \<and> res \<noteq> Inl Panic"
proof -
  obtain x u where x: "read_frame s = (x, u)" by fastforce
  have u: "st_out u = st_out s \<and> nc_send u = nc_send s \<and> x \<noteq> Inl Panic"
    using x by (auto simp: read_frame_def read_full_def mbind_unfold mguard_eq replace_error_def attempt_def mreturn_eq mthrow_eq Let_def
        split: if_splits)
  show ?thesis
    using assms x u by (auto simp: conn_recv_def mbind_unfold split: sum.splits prod.splits)
qed

lemma conn_send_panic: "conn_send C m s = (Inl Panic, t) \<Longrightarrow> st_out t = st_out s"
  by (auto simp: conn_send_def write_frame_def write_bytes_def mbind_unfold mguard_eq split: prod.splits sum.splits if_splits option.splits)

lemma client_call_Inr:
  assumes "client_call C J oper payload out s = (res, t)" and "payload = None \<and> body = [] \<or> payload = Some (Inr body)"
    and "json_request J (next_request (ct_counter s + 1) oper body) = Inr raw" and "res \<noteq> Inl err_unavailable"
  shows "(\<exists>u b. conn_send C raw (s\<lparr>ct_counter := ct_counter s + 1\<rparr>) = (Inr (), u) \<and> conn_recv C u = (Inr b, t) \<and>
       (\<forall>resp. un_response J b = Some resp \<longrightarrow> res = read_response out resp)) \<or> st_out t = st_out s"
proof -
  let ?s = "s\<lparr>ct_counter := ct_counter s + 1\<rparr>"
  obtain x u where x: "conn_send C raw ?s = (x, u)" by fastforce
  have run: "(res, t) = mbind (replace_error err_unavailable (conn_send C raw)) (\<lambda>_.
      mbind (replace_error err_unavailable (conn_recv C)) (\<lambda>raw_resp.
      case un_response J raw_resp of None \<Rightarrow> mthrow (ErrOther ''encoding/json'') | Some resp \<Rightarrow> mlift (read_response out resp))) ?s"
    using assms(1-3) by (auto simp: client_call_def mbind_unfold mmodify_eq mget_eq mlift_eq mreturn_eq)
  show ?thesis
  proof (cases x)
    case (Inl e)
    have a: "attempt (conn_send C raw) ?s = (Inr (Inl e), u)" if "e \<noteq> Panic"
      by (rule attempt_Inl) (use x Inl that in simp_all)
    have "e = Panic"
    proof (rule ccontr)
      assume "e \<noteq> Panic"
      then have "res = Inl err_unavailable" using run a by (simp add: replace_error_def mbind_unfold mthrow_eq)
      with assms(4) show False ..
    qed
    then have "t = u" using run x Inl by (simp add: replace_error_def attempt_def mbind_unfold)
    then show ?thesis using conn_send_panic x Inl \<open>e = Panic\<close> by fastforce
  next
    case (Inr y)
    then have send: "conn_send C raw ?s = (Inr (), u)" using x by simp
    obtain z v where z: "conn_recv C u = (z, v)" by fastforce
    have run2: "(res, t) = mbind (replace_error err_unavailable (conn_recv C)) (\<lambda>raw_resp.
      case un_response J raw_resp of None \<Rightarrow> mthrow (ErrOther ''encoding/json'') | Some resp \<Rightarrow> mlift (read_response out resp)) u"
      using run send by (simp add: replace_error_def attempt_def mbind_unfold mreturn_eq)
    have "\<exists>b. z = Inr b"
    proof (rule ccontr)
      assume "\<not> ?thesis"
      then obtain e where e: "z = Inl e" by (cases z) auto
      have "attempt (conn_recv C) u = (Inr (Inl e), v)"
        by (rule attempt_Inl) (use conn_recv_keeps [OF z] z e in auto)
      then have "res = Inl err_unavailable" using run2 by (simp add: replace_error_def mbind_unfold mthrow_eq)
      with assms(4) show False ..
    qed
    then obtain b where b: "conn_recv C u = (Inr b, v)" using z by blast
    then have "(res, t) = (case un_response J b of None \<Rightarrow> mthrow (ErrOther ''encoding/json'') | Some resp \<Rightarrow> mlift (read_response out resp)) v"
      using run2 by (simp add: replace_error_def attempt_def mbind_unfold mreturn_eq)
    then show ?thesis using send b by (auto simp: mlift_eq mthrow_eq split: option.splits)
  qed
qed

lemma call_is_answered:
  assumes laws: "steps_agree C together" and call: "client_call C J oper payload out s = (res, t)" "res \<noteq> Inl err_unavailable"
    and payload: "payload = None \<and> body = [] \<or> payload = Some (Inr body)"
    and req: "json_request J (next_request (ct_counter s + 1) oper body) = Inr raw"
    and serve: "serve_one C json_response D d r = (Inr d', r')" and resp: "\<And>x b. json_response x = Inr b \<Longrightarrow> un_response J b = Some x"
    and ends: "halves together (nc_send s) (nc_recv r)" "halves together (nc_send r) (nc_recv s)"
    and fresh: "st_out s = []" "st_out r = []" and wires: "st_in r = st_out t" "st_in s = st_out r'"
  shows "\<exists>x. handle D raw d = (Inr x, d') \<and> res = read_response out x"
proof -
  let ?s = "s\<lparr>ct_counter := ct_counter s + 1\<rparr>"
  from serve obtain m r1 where m: "conn_recv C r = (Inr m, r1)" and rest: "(case handle D m d of
       (Inl e, _) \<Rightarrow> mthrow e
     | (Inr resp, d') \<Rightarrow> mbind (mlift (json_response resp)) (\<lambda>b. mbind (conn_send C b) (\<lambda>_. mreturn d'))) r1 = (Inr d', r')"
    by (auto simp: serve_one_def mbind_Inr_iff)
  obtain hx hd where h: "handle D m d = (hx, hd)" by fastforce
  from rest obtain x b where sv: "conn_recv C r = (Inr m, r1)" "handle D m d = (Inr x, d')" "json_response x = Inr b"
    "conn_send C b r1 = (Inr (), r')"
    using m h by (cases hx) (auto simp: mbind_Inr_iff prog_simps)
  have "st_out t \<noteq> []"
    using sv(1) wires(1) by (auto simp: conn_recv_def read_frame_def read_full_def mbind_unfold)
  with client_call_Inr [OF call(1) payload req call(2)] fresh(1) obtain u c where
    u: "conn_send C raw ?s = (Inr (), u)" "conn_recv C u = (Inr c, t)" "\<And>y. un_response J c = Some y \<Longrightarrow> res = read_response out y" by auto
  from u(1) obtain ct where ct: "st_out u = st_out ?s @ frame ct" "nc_recv u = nc_recv ?s" "st_in u = st_in ?s" by (rule conn_send_Inr)
  have "st_out t = st_out u" using conn_recv_keeps [OF u(2)] by simp
  then have w: "st_out u = st_out ?s @ st_in r" "st_in r = st_in r @ []" using wires(1) fresh(1) by simp_all
  have h: "halves together (nc_send ?s) (nc_recv r)" using ends(1) by simp
  obtain r2 where "conn_recv C r = (Inr raw, r2)" using sent_is_received [OF laws u(1) h w] by blast
  then have m: "m = raw" using sv(1) by simp
  have k: "st_out r1 = st_out r" "nc_send r1 = nc_send r" using conn_recv_keeps [OF sv(1)] by simp_all
  have h2: "halves together (nc_send r1) (nc_recv u)" using ends(2) k(2) ct(2) by simp
  have w2: "st_out r' = st_out r1 @ st_in u" "st_in u = st_in u @ []" using wires(2) k(1) fresh(2) ct(3) by simp_all
  obtain t2 where "conn_recv C u = (Inr b, t2)" using sent_is_received [OF laws sv(4) h2 w2] by blast
  then have "c = b" using u(2) by simp
  then show ?thesis using sv(2) m u(3) resp [OF sv(3)] by blast
qed

end
