(* ===== verification/Client_Demo.thy ===== *)
theory Client_Demo
  imports Client Demo
begin

text \<open>One call of the client that the daemon of the concrete runs answers, over the concrete cipher.\<close>

definition demo_caller :: "byte client" where
  "demo_caller = \<lparr>st_in = frame [100, 9], st_out = [], st_cut = (\<lambda>_. None), st_writes = 0,
     nc_send = new_half 0, nc_recv = new_half 100, ct_counter = 0\<rparr>"

definition demo_line :: "byte noise_conn" where
  "demo_line = \<lparr>st_in = frame (0 # demo_status), st_out = [], st_cut = (\<lambda>_. None), st_writes = 0,
     nc_send = new_half 100, nc_recv = new_half 0\<rparr>"

definition demo_client_json :: "response \<Rightarrow> client_json" where
  "demo_client_json resp = \<lparr>json_request = (\<lambda>_. Inr demo_status), un_response = (\<lambda>b. if b = [9] then Some resp else None)\<rparr>"

definition demo_json_response :: "response \<Rightarrow> response \<Rightarrow> err + bytes" where
  "demo_json_response resp x = (if x = resp then Inr [9] else Inl ErrIO)"

lemma demo_status_length: "length demo_status = 13"
  by (simp add: demo_status_def demo_request_def)

lemma small_frame:
  assumes "p \<noteq> []" and "length p \<le> 100" and "\<And>n. st_cut s n = None"
  shows "write_frame p s = (Inr (), s\<lparr>st_out := st_out s @ frame p, st_writes := st_writes s + 2\<rparr>)"
  using assms by (subst write_frame_Inr_iff) (simp add: max_frame_size_def)

lemma demo_call:
  assumes h: "handle demo_deps demo_status demo_cli = (Inr resp, d')"
  shows "\<exists>t. client_call plain_cipher (demo_client_json resp) ''vault.status'' None (None :: (bytes \<Rightarrow> unit option) option) demo_caller =
      (read_response None resp, t) \<and> st_out t = frame (0 # demo_status)"
    and "\<exists>r'. serve_one plain_cipher (demo_json_response resp) demo_deps demo_cli demo_line = (Inr d', r') \<and> st_out r' = frame [100, 9]"
proof -
  have c: "counted plain_cipher n 0 = \<lparr>ch_cipher = n, ch_count = 1\<rparr>" for n
    by (simp add: counted_def Let_def rekey_interval_def)
  let ?s = "demo_caller\<lparr>ct_counter := 1, nc_send := \<lparr>ch_cipher = 1, ch_count = 1\<rparr>\<rparr>"
  have w: "write_frame (0 # demo_status) ?s = (Inr (), ?s\<lparr>st_out := frame (0 # demo_status), st_writes := 2\<rparr>)"
    using small_frame [of "0 # demo_status" ?s] by (simp add: demo_status_length demo_caller_def)
  let ?u = "?s\<lparr>st_out := frame (0 # demo_status), st_writes := 2\<rparr>"
  have send: "conn_send plain_cipher demo_status (demo_caller\<lparr>ct_counter := 1\<rparr>) = (Inr (), ?u)"
    using w by (simp add: conn_send_def plain_cipher_def demo_caller_def new_half_def c [unfolded plain_cipher_def])
  have r: "read_frame ?u = (Inr [100, 9], ?u\<lparr>st_in := []\<rparr>)"
    by (rule read_frame_frame) (simp_all add: demo_caller_def max_frame_size_def)
  have recv: "conn_recv plain_cipher ?u = (Inr [9], ?u\<lparr>st_in := [], nc_recv := \<lparr>ch_cipher = 101, ch_count = 1\<rparr>\<rparr>)"
    by (simp add: conn_recv_def mbind_unfold r) (simp add: plain_cipher_def demo_caller_def new_half_def c [unfolded plain_cipher_def])
  show "\<exists>t. client_call plain_cipher (demo_client_json resp) ''vault.status'' None (None :: (bytes \<Rightarrow> unit option) option) demo_caller =
      (read_response None resp, t) \<and> st_out t = frame (0 # demo_status)"
    using send recv
    by (simp add: client_call_def demo_client_json_def mbind_unfold mmodify_eq mget_eq mreturn_eq mlift_eq demo_caller_def
        replace_error_def attempt_def)
  have r2: "read_frame demo_line = (Inr (0 # demo_status), demo_line\<lparr>st_in := []\<rparr>)"
    by (rule read_frame_frame) (simp_all add: demo_line_def max_frame_size_def demo_status_length)
  let ?v = "demo_line\<lparr>st_in := [], nc_recv := \<lparr>ch_cipher = 1, ch_count = 1\<rparr>\<rparr>"
  have recv2: "conn_recv plain_cipher demo_line = (Inr demo_status, ?v)"
    by (simp add: conn_recv_def mbind_unfold r2) (simp add: plain_cipher_def demo_line_def new_half_def c [unfolded plain_cipher_def])
  let ?w = "?v\<lparr>nc_send := \<lparr>ch_cipher = 101, ch_count = 1\<rparr>\<rparr>"
  have w2: "write_frame [100, 9] ?w = (Inr (), ?w\<lparr>st_out := frame [100, 9], st_writes := 2\<rparr>)"
    using small_frame [of "[100, 9]" ?w] by (simp add: demo_line_def)
  have send2: "conn_send plain_cipher [9] ?v = (Inr (), ?w\<lparr>st_out := frame [100, 9], st_writes := 2\<rparr>)"
    using w2 by (simp add: conn_send_def plain_cipher_def demo_line_def new_half_def c [unfolded plain_cipher_def])
  show "\<exists>r'. serve_one plain_cipher (demo_json_response resp) demo_deps demo_cli demo_line = (Inr d', r') \<and> st_out r' = frame [100, 9]"
    by (simp add: serve_one_def mbind_unfold recv2 h demo_json_response_def mlift_eq send2 mreturn_eq)
qed

end
