(* ===== verification/Versions.thy ===== *)
theory Versions
  imports Text "HOL-Library.Product_Lexorder" "HOL-Library.Option_ord"
begin

text \<open>
  Versions and environments (\<^verbatim>\<open>internal/version/{version,environment}.go\<close>): the version tags the
  program understands, their order, the recovery of a version from the build, and the environment
  that follows from it.
\<close>

section \<open>Integers in text (\<^verbatim>\<open>strconv.Atoi\<close>)\<close>

definition digit_value :: "char \<Rightarrow> nat option" where
  "digit_value c = (let n = of_char c in if 48 \<le> n \<and> n \<le> 57 then Some (n - 48) else None)"

fun digits_value :: "nat \<Rightarrow> string \<Rightarrow> nat option" where
  "digits_value a [] = Some a"
| "digits_value a (c # s) = (case digit_value c of None \<Rightarrow> None | Some d \<Rightarrow> digits_value (10 * a + d) s)"

definition unsigned_value :: "string \<Rightarrow> int option" where
  "unsigned_value s = (if s = [] then None else map_option int (digits_value 0 s))"

text \<open>A sign and digits, in the range of \<^verbatim>\<open>int\<close>.\<close>

definition atoi :: "string \<Rightarrow> int option" where
  "atoi s =
     (let v = (case s of
          [] \<Rightarrow> None
        | c # r \<Rightarrow> if c = CHR ''-'' then map_option uminus (unsigned_value r)
            else if c = CHR ''+'' then unsigned_value r else unsigned_value s) in
      case v of None \<Rightarrow> None | Some n \<Rightarrow> if - (2 ^ 63) \<le> n \<and> n < 2 ^ 63 then Some n else None)"

lemma unsigned_value_nonneg: "unsigned_value s = Some n \<Longrightarrow> 0 \<le> n"
  by (auto simp: unsigned_value_def split: if_splits)

section \<open>Version tags\<close>

definition normalize :: "'a unicode_tables_scheme \<Rightarrow> string \<Rightarrow> string" where
  "normalize U tag =
     (let t = trim_space U tag in
      case t of [] \<Rightarrow> t | c # r \<Rightarrow> if c = CHR ''v'' \<or> c = CHR ''V'' then r else t)"

fun split_on :: "char \<Rightarrow> string \<Rightarrow> string list" where
  "split_on c [] = [[]]"
| "split_on c (x # s) = (if x = c then [] # split_on c s else (case split_on c s of p # ps \<Rightarrow> (x # p) # ps | [] \<Rightarrow> [[x]]))"

lemma split_on_nonempty [simp]: "split_on c s \<noteq> []"
  by (induction s) (auto split: list.splits)

record parsed =
  pv_nums :: "int list"
  pv_pre :: "string list"

fun parse_nums :: "string list \<Rightarrow> int list option" where
  "parse_nums [] = Some []"
| "parse_nums (f # fs) =
     (case atoi f of None \<Rightarrow> None | Some n \<Rightarrow>
        if n < 0 then None else map_option ((#) n) (parse_nums fs))"

definition parse_version :: "'a unicode_tables_scheme \<Rightarrow> string \<Rightarrow> parsed option" where
  "parse_version U tag =
     (let s = fst (cut (CHR ''+'') (normalize U tag));
          (core, pre) = (case cut (CHR ''-'') s of (a, None) \<Rightarrow> (a, []) | (a, Some b) \<Rightarrow> (a, split_on (CHR ''.'') b));
          fields = split_on (CHR ''.'') core in
      if length fields > 3 then None
      else case parse_nums fields of
        None \<Rightarrow> None
      | Some ns \<Rightarrow> Some \<lparr>pv_nums = ns @ replicate (3 - length ns) 0, pv_pre = pre\<rparr>)"

definition is_valid :: "'a unicode_tables_scheme \<Rightarrow> string \<Rightarrow> bool" where
  "is_valid U tag \<longleftrightarrow> parse_version U tag \<noteq> None"

section \<open>The order of versions\<close>

definition compare_int :: "int \<Rightarrow> int \<Rightarrow> int" where
  "compare_int a b = (if a < b then -1 else if a > b then 1 else 0)"

definition compare_string :: "string \<Rightarrow> string \<Rightarrow> int" where
  "compare_string a b = (if a = b then 0 else if a < b then -1 else 1)"

definition compare_ident :: "string \<Rightarrow> string \<Rightarrow> int" where
  "compare_ident a b =
     (case (atoi a, atoi b) of
        (Some m, Some n) \<Rightarrow> compare_int m n
      | (Some _, None) \<Rightarrow> -1
      | (None, Some _) \<Rightarrow> 1
      | (None, None) \<Rightarrow> compare_string a b)"

text \<open>A loop that returns the first difference, and what follows it.\<close>

fun first_nonzero :: "int list \<Rightarrow> int \<Rightarrow> int" where
  "first_nonzero [] d = d"
| "first_nonzero (c # cs) d = (if c \<noteq> 0 then c else first_nonzero cs d)"

definition compare_pre :: "string list \<Rightarrow> string list \<Rightarrow> int" where
  "compare_pre a b =
     (if a = [] \<and> b = [] then 0
      else if a = [] then 1
      else if b = [] then -1
      else first_nonzero (map2 compare_ident a b) (compare_int (int (length a)) (int (length b))))"

definition compare_versions :: "'a unicode_tables_scheme \<Rightarrow> string \<Rightarrow> string \<Rightarrow> int" where
  "compare_versions U a b =
     (case (parse_version U a, parse_version U b) of
        (None, None) \<Rightarrow> 0
      | (None, Some _) \<Rightarrow> -1
      | (Some _, None) \<Rightarrow> 1
      | (Some p, Some q) \<Rightarrow> first_nonzero (map2 compare_int (pv_nums p) (pv_nums q)) (compare_pre (pv_pre p) (pv_pre q)))"

definition is_newer :: "'a unicode_tables_scheme \<Rightarrow> string \<Rightarrow> string \<Rightarrow> bool" where
  "is_newer U candidate current \<longleftrightarrow>
     is_valid U candidate \<and> is_valid U current \<and> compare_versions U candidate current > 0"

section \<open>The order by keys\<close>

text \<open>
  The reference: an identifier of a pre-release is a number or a text, numbers first; a version is
  its numbers, then whether it is a release, then its identifiers; no version is below all.
\<close>

datatype pre_id = Numeric int | Alphanumeric string

instantiation pre_id :: linorder
begin

fun less_pre_id :: "pre_id \<Rightarrow> pre_id \<Rightarrow> bool" where
  "less_pre_id (Numeric a) (Numeric b) = (a < b)"
| "less_pre_id (Numeric a) (Alphanumeric t) = True"
| "less_pre_id (Alphanumeric s) (Numeric b) = False"
| "less_pre_id (Alphanumeric s) (Alphanumeric t) = (s < t)"

definition less_eq_pre_id :: "pre_id \<Rightarrow> pre_id \<Rightarrow> bool" where
  "less_eq_pre_id x y = (x = y \<or> x < y)"

instance
proof
  fix x y z :: pre_id
  show "(x < y) = (x \<le> y \<and> \<not> y \<le> x)"
    by (cases x; cases y) (auto simp: less_eq_pre_id_def)
  show "x \<le> x" by (simp add: less_eq_pre_id_def)
  show "x \<le> y \<Longrightarrow> y \<le> z \<Longrightarrow> x \<le> z"
    by (cases x; cases y; cases z) (auto simp: less_eq_pre_id_def)
  show "x \<le> y \<Longrightarrow> y \<le> x \<Longrightarrow> x = y"
    by (cases x; cases y) (auto simp: less_eq_pre_id_def)
  show "x \<le> y \<or> y \<le> x"
    by (cases x; cases y) (auto simp: less_eq_pre_id_def)
qed

end

definition id_key :: "string \<Rightarrow> pre_id" where
  "id_key s = (case atoi s of Some n \<Rightarrow> Numeric n | None \<Rightarrow> Alphanumeric s)"

definition version_key :: "'a unicode_tables_scheme \<Rightarrow> string \<Rightarrow> (int list \<times> bool \<times> pre_id list) option" where
  "version_key U tag = map_option (\<lambda>p. (pv_nums p, pv_pre p = [], map id_key (pv_pre p))) (parse_version U tag)"

definition order_sign :: "'k::linorder \<Rightarrow> 'k \<Rightarrow> int" where
  "order_sign x y = (if x < y then -1 else if y < x then 1 else 0)"

lemma compare_int_sign: "compare_int = order_sign"
  by (simp add: fun_eq_iff compare_int_def order_sign_def)

lemma compare_ident_sign: "compare_ident a b = order_sign (id_key a) (id_key b)"
  by (auto simp: compare_ident_def id_key_def compare_int_sign compare_string_def order_sign_def split: option.splits)

lemma order_sign_simps [simp]:
  "order_sign (a, x) (b, y) = (if a < b then -1 else if b < a then 1 else order_sign x y)"
  "order_sign None (Some u) = -1" "order_sign (Some u) None = 1" "order_sign (Some u) (Some v) = order_sign u v"
  "order_sign u u = 0"
  by (auto simp: order_sign_def)

lemma first_nonzero_same_length:
  "length xs = length ys \<Longrightarrow> first_nonzero (map2 order_sign xs ys) d = (if xs < ys then -1 else if ys < xs then 1 else d)"
  by (induction xs ys rule: list_induct2) (auto simp: order_sign_def)

lemma first_nonzero_lists:
  "first_nonzero (map2 (\<lambda>x y. order_sign (f x) (f y)) xs ys) (order_sign (int (length xs)) (int (length ys))) =
     order_sign (map f xs) (map f ys)"
proof (induction xs arbitrary: ys)
  case Nil
  then show ?case by (cases ys) (auto simp: order_sign_def)
next
  case (Cons x xs)
  show ?case
  proof (cases ys)
    case Nil
    then show ?thesis by (simp add: order_sign_def)
  next
    case (Cons y zs)
    show ?thesis
      using Cons.IH [of zs] by (auto simp: Cons order_sign_def split: if_splits)
  qed
qed

lemma compare_pre_sign: "compare_pre a b = order_sign (a = [], map id_key a) (b = [], map id_key b)"
proof -
  have e: "compare_ident = (\<lambda>x y. order_sign (id_key x) (id_key y))" by (simp add: fun_eq_iff compare_ident_sign)
  show ?thesis unfolding compare_pre_def compare_int_sign e first_nonzero_lists
    by (cases "a = []"; cases "b = []") simp_all
qed

lemma parse_nums_length: "parse_nums fs = Some ns \<Longrightarrow> length ns = length fs"
  by (induction fs arbitrary: ns) (auto split: option.splits if_splits)

lemma parse_version_nums: "parse_version U a = Some p \<Longrightarrow> length (pv_nums p) = 3"
  by (auto simp: parse_version_def Let_def split: option.splits if_splits prod.splits dest!: parse_nums_length)

lemma compare_versions_sign: "compare_versions U a b = order_sign (version_key U a) (version_key U b)"
proof (cases "parse_version U a")
  case None
  then show ?thesis by (cases "parse_version U b") (simp_all add: compare_versions_def version_key_def)
next
  case (Some p)
  show ?thesis
  proof (cases "parse_version U b")
    case None
    with Some show ?thesis by (simp add: compare_versions_def version_key_def)
  next
    case q: (Some q)
    have l: "length (pv_nums p) = length (pv_nums q)" using parse_version_nums Some q by metis
    show ?thesis
      by (simp add: compare_versions_def version_key_def Some q compare_int_sign compare_pre_sign first_nonzero_same_length [OF l])
  qed
qed

lemma order_sign_swap: "order_sign y x = - order_sign x y"
  by (auto simp: order_sign_def)

lemma order_sign_iff: "order_sign x y = -1 \<longleftrightarrow> x < y" "order_sign x y = 0 \<longleftrightarrow> x = y" "order_sign x y = 1 \<longleftrightarrow> y < x"
  "0 < order_sign x y \<longleftrightarrow> y < x"
  by (auto simp: order_sign_def)

lemma is_valid_key: "is_valid U a \<longleftrightarrow> version_key U a \<noteq> None"
  by (simp add: is_valid_def version_key_def)

lemma is_newer_iff: "is_newer U a b \<longleftrightarrow> version_key U b \<noteq> None \<and> version_key U b < version_key U a"
  by (cases "version_key U a") (auto simp: is_newer_def is_valid_key compare_versions_sign order_sign_iff)

lemma is_newer_trans: "is_newer U a b \<Longrightarrow> is_newer U b c \<Longrightarrow> is_newer U a c"
  unfolding is_newer_iff using order.strict_trans by blast

section \<open>Pseudo-versions (\<^verbatim>\<open>regexp\<close>)\<close>

text \<open>Regular expressions, matched by derivatives.\<close>

datatype rx = Never | Empty | Class "char \<Rightarrow> bool" | Seq rx rx | Alt rx rx | Many rx

fun nullable :: "rx \<Rightarrow> bool" where
  "nullable Never = False"
| "nullable Empty = True"
| "nullable (Class P) = False"
| "nullable (Seq r s) = (nullable r \<and> nullable s)"
| "nullable (Alt r s) = (nullable r \<or> nullable s)"
| "nullable (Many r) = True"

fun deriv_rx :: "char \<Rightarrow> rx \<Rightarrow> rx" where
  "deriv_rx c Never = Never"
| "deriv_rx c Empty = Never"
| "deriv_rx c (Class P) = (if P c then Empty else Never)"
| "deriv_rx c (Seq r s) = (if nullable r then Alt (Seq (deriv_rx c r) s) (deriv_rx c s) else Seq (deriv_rx c r) s)"
| "deriv_rx c (Alt r s) = Alt (deriv_rx c r) (deriv_rx c s)"
| "deriv_rx c (Many r) = Seq (deriv_rx c r) (Many r)"

definition rx_match :: "rx \<Rightarrow> string \<Rightarrow> bool" where
  "rx_match r s = nullable (foldl (\<lambda>r c. deriv_rx c r) r s)"

inductive rx_lang :: "rx \<Rightarrow> string \<Rightarrow> bool" where
  lang_empty: "rx_lang Empty []"
| lang_class: "P c \<Longrightarrow> rx_lang (Class P) [c]"
| lang_seq: "rx_lang r u \<Longrightarrow> rx_lang s v \<Longrightarrow> rx_lang (Seq r s) (u @ v)"
| lang_alt1: "rx_lang r u \<Longrightarrow> rx_lang (Alt r s) u"
| lang_alt2: "rx_lang s u \<Longrightarrow> rx_lang (Alt r s) u"
| lang_none: "rx_lang (Many r) []"
| lang_more: "rx_lang r u \<Longrightarrow> rx_lang (Many r) v \<Longrightarrow> rx_lang (Many r) (u @ v)"

inductive_simps rx_lang_simps: "rx_lang Never s" "rx_lang Empty s" "rx_lang (Class P) s" "rx_lang (Seq r t) s" "rx_lang (Alt r t) s"

inductive_cases rx_lang_ManyE: "rx_lang (Many r) s"

lemma many_cons: "rx_lang (Many r) w \<Longrightarrow> w = c # s \<Longrightarrow> \<exists>u v. s = u @ v \<and> rx_lang r (c # u) \<and> rx_lang (Many r) v"
proof (induction "Many r" w rule: rx_lang.induct)
  case (lang_more u v)
  then show ?case by (cases u) auto
qed simp

lemma nullable_iff: "nullable r \<longleftrightarrow> rx_lang r []"
  by (induction r) (auto simp: rx_lang_simps intro: rx_lang.intros)

lemma deriv_rx_iff: "rx_lang (deriv_rx c r) s \<longleftrightarrow> rx_lang r (c # s)"
proof (induction r arbitrary: s)
  case (Seq r t)
  have "rx_lang (Seq r t) (c # s) \<longleftrightarrow> (nullable r \<and> rx_lang t (c # s)) \<or> (\<exists>u v. s = u @ v \<and> rx_lang r (c # u) \<and> rx_lang t v)"
    by (auto simp: rx_lang_simps nullable_iff Cons_eq_append_conv)
  then show ?case using Seq by (auto simp: rx_lang_simps)
next
  case (Many r)
  have "rx_lang (Many r) (c # s) \<longleftrightarrow> (\<exists>u v. s = u @ v \<and> rx_lang r (c # u) \<and> rx_lang (Many r) v)"
    using many_cons lang_more [of r "c # u" v for u v] by (metis append_Cons)
  then show ?case using Many by (auto simp: rx_lang_simps)
qed (auto simp: rx_lang_simps)

lemma rx_match_iff: "rx_match r s \<longleftrightarrow> rx_lang r s"
proof -
  have "nullable (foldl (\<lambda>r c. deriv_rx c r) r s) \<longleftrightarrow> rx_lang r s" for r
    by (induction s arbitrary: r) (simp_all add: nullable_iff deriv_rx_iff)
  then show ?thesis by (simp add: rx_match_def)
qed

definition rx_text :: "string \<Rightarrow> rx" where
  "rx_text s = foldr (\<lambda>c r. Seq (Class (\<lambda>x. x = c)) r) s Empty"

definition rx_digit :: rx where "rx_digit = Class (\<lambda>c. CHR ''0'' \<le> c \<and> c \<le> CHR ''9'')"

definition alnum :: "char \<Rightarrow> bool" where
  "alnum c \<longleftrightarrow> CHR ''0'' \<le> c \<and> c \<le> CHR ''9'' \<or> CHR ''A'' \<le> c \<and> c \<le> CHR ''Z'' \<or> CHR ''a'' \<le> c \<and> c \<le> CHR ''z''"

definition some :: "rx \<Rightarrow> rx" where "some r = Seq r (Many r)"

definition pseudo_version_re :: rx where
  "pseudo_version_re =
     (let digits = some rx_digit; ident = some (Class (\<lambda>c. alnum c \<or> c = CHR ''-'')) in
      foldr Seq
        [rx_text ''v'', digits, rx_text ''.'',
         Alt (rx_text ''0.0-'')
           (foldr Seq [digits, rx_text ''.'', digits, rx_text ''-'',
              Alt Empty (Seq (Many (Class (\<lambda>c. c \<noteq> CHR ''+''))) (rx_text ''.'')), rx_text ''0.''] Empty),
         foldr Seq (replicate 14 rx_digit) Empty, rx_text ''-'', some (Class alnum),
         Alt Empty (foldr Seq [rx_text ''+'', ident, Many (Seq (rx_text ''.'') ident)] Empty)]
        Empty)"

section \<open>The version of a build\<close>

definition release_version :: "'a unicode_tables_scheme \<Rightarrow> string \<Rightarrow> string option" where
  "release_version U v =
     (if v = '''' \<or> v = ''(devel)'' \<or> contains v ''+dirty'' then None
      else if rx_match pseudo_version_re v then None
      else if \<not> is_valid U v then None
      else Some v)"

definition dev_version :: string where "dev_version = ''dev''"

text \<open>\<^verbatim>\<open>init\<close>: the stamp of the linker, or what the module system recorded.\<close>

definition effective_version :: "'a unicode_tables_scheme \<Rightarrow> string \<Rightarrow> string option \<Rightarrow> string" where
  "effective_version U stamped build_info =
     (if stamped \<noteq> dev_version then stamped
      else case build_info of
        None \<Rightarrow> stamped
      | Some v \<Rightarrow> (case release_version U v of None \<Rightarrow> stamped | Some w \<Rightarrow> w))"

section \<open>Environments\<close>

datatype environment = Prod | Dev

fun environment_name :: "environment \<Rightarrow> string" where
  "environment_name Prod = ''prod''"
| "environment_name Dev = ''dev''"

definition environment_of :: "'a unicode_tables_scheme \<Rightarrow> string \<Rightarrow> environment" where
  "environment_of U v = (if is_valid U v then Prod else Dev)"

definition parse_environment :: "string \<Rightarrow> err + environment" where
  "parse_environment s =
     (if s = environment_name Prod then Inr Prod
      else if s = environment_name Dev then Inr Dev
      else Inl (ErrOther ''invalid ALBEAR_ENV''))"

definition env_var :: string where "env_var = ''ALBEAR_ENV''"

definition current_environment :: "'a unicode_tables_scheme \<Rightarrow> (string \<Rightarrow> string option) \<Rightarrow> string \<Rightarrow> err + environment" where
  "current_environment U getenv version =
     (case getenv env_var of
        Some s \<Rightarrow> if s \<noteq> '''' then parse_environment s else Inr (environment_of U version)
      | None \<Rightarrow> Inr (environment_of U version))"

lemma parse_environment_Inr_iff: "parse_environment s = Inr e \<longleftrightarrow> s = environment_name e"
  by (cases e) (auto simp: parse_environment_def)

lemma release_version_Some: "release_version U v = Some w \<longleftrightarrow>
    w = v \<and> is_valid U v \<and> \<not> rx_lang pseudo_version_re v \<and> \<not> (\<exists>a b. v = a @ ''+dirty'' @ b)"
proof -
  have d: "trim_space U ''(devel)'' = ''(devel)''" "trim_space U [] = []"
    by (rule trim_space_ascii; simp add: is_space_def)+
  have "\<not> is_valid U []" "\<not> is_valid U ''(devel)''"
    by (simp_all add: is_valid_def parse_version_def normalize_def d Let_def cut_def atoi_def unsigned_value_def digit_value_def)
  then show ?thesis by (auto simp: release_version_def rx_match_iff contains_iff)
qed

end
