(* ===== verification/Paths.thy ===== *)
theory Paths
  imports Versions
begin

unbundle bit_operations_syntax

text \<open>
  Places in the file system (\<^verbatim>\<open>internal/infrastructure/system/{paths,statickey}.go\<close>): the folders
  of an environment, their permissions, and the file with the daemon's transport key.
  \<^verbatim>\<open>path/filepath\<close> is written out; the key generation and JSON are parameters.
\<close>

section \<open>Joining and cleaning (\<^verbatim>\<open>path/filepath\<close>)\<close>

fun clean_step :: "bool \<Rightarrow> string \<Rightarrow> string list \<Rightarrow> string list" where
  "clean_step rooted c st =
     (if c = '''' \<or> c = ''.'' then st
      else if c = ''..'' then
        (case st of [] \<Rightarrow> if rooted then [] else [c] | d # ds \<Rightarrow> if d = ''..'' then c # st else ds)
      else c # st)"

fun join_with :: "char \<Rightarrow> string list \<Rightarrow> string" where
  "join_with c [] = []"
| "join_with c [s] = s"
| "join_with c (s # t # ss) = s @ c # join_with c (t # ss)"

definition is_rooted :: "string \<Rightarrow> bool" where
  "is_rooted p \<longleftrightarrow> p \<noteq> [] \<and> hd p = CHR ''/''"

text \<open>The components that are left of a path.\<close>

definition path_parts :: "string \<Rightarrow> string list" where
  "path_parts p = rev (fold (clean_step (is_rooted p)) (split_on (CHR ''/'') p) [])"

definition clean_path :: "string \<Rightarrow> string" where
  "clean_path p =
     (let out = join_with (CHR ''/'') (path_parts p) in
      if is_rooted p then CHR ''/'' # out else if out = '''' then ''.'' else out)"

definition path_join :: "string list \<Rightarrow> string" where
  "path_join elems =
     (case dropWhile (\<lambda>e. e = '''') elems of [] \<Rightarrow> '''' | es \<Rightarrow> clean_path (join_with (CHR ''/'') es))"

section \<open>The folders of an environment\<close>

record paths =
  pt_env :: environment
  pt_data :: string
  pt_config :: string
  pt_runtime :: string

definition database_path :: "paths \<Rightarrow> string" where "database_path p = path_join [pt_data p, ''vault.db'']"
definition socket_path :: "paths \<Rightarrow> string" where "socket_path p = path_join [pt_runtime p, ''vault.sock'']"
definition static_key_path :: "paths \<Rightarrow> string" where "static_key_path p = path_join [pt_config p, ''daemon.key'']"
definition client_dir :: "paths \<Rightarrow> string" where "client_dir p = path_join [pt_config p, ''clients'']"

definition dir_name :: "environment \<Rightarrow> string" where
  "dir_name env = (if env = Dev then ''albear-dev'' else ''albear'')"

definition env_or :: "(string \<Rightarrow> string option) \<Rightarrow> string \<Rightarrow> string \<Rightarrow> string" where
  "env_or getenv name fallback = (case getenv name of Some v \<Rightarrow> if v = '''' then fallback else v | None \<Rightarrow> fallback)"

definition paths_in :: "(string \<Rightarrow> string option) \<Rightarrow> string \<Rightarrow> environment \<Rightarrow> paths" where
  "paths_in getenv home env =
     (let data = env_or getenv ''XDG_DATA_HOME'' (path_join [home, ''.local'', ''share'']);
          config = env_or getenv ''XDG_CONFIG_HOME'' (path_join [home, ''.config'']);
          name = dir_name env;
          runtime = env_or getenv ''XDG_RUNTIME_DIR'' (path_join [data, name, ''run'']) in
      \<lparr>pt_env = env, pt_data = path_join [data, name], pt_config = path_join [config, name],
       pt_runtime = path_join [runtime, name]\<rparr>)"

definition resolve_paths ::
  "'a unicode_tables_scheme \<Rightarrow> (string \<Rightarrow> string option) \<Rightarrow> err + string \<Rightarrow> string \<Rightarrow> err + paths" where
  "resolve_paths U getenv user_home version =
     sbind (current_environment U getenv version) (\<lambda>env.
     sbind user_home (\<lambda>home.
     Inr (paths_in getenv home env)))"

section \<open>Different environments, different files\<close>

definition plain_name :: "string \<Rightarrow> bool" where
  "plain_name n \<longleftrightarrow> n \<noteq> '''' \<and> n \<noteq> ''.'' \<and> n \<noteq> ''..'' \<and> CHR ''/'' \<notin> set n"

lemma split_on_no_sep: "c \<notin> set s \<Longrightarrow> split_on c s = [s]"
  by (induction s) auto

lemma split_on_append: "split_on c (a @ c # b) = split_on c a @ split_on c b"
  by (induction a) (auto split: list.splits)

lemma split_on_parts: "x \<in> set (split_on c s) \<Longrightarrow> c \<notin> set x"
  by (induction s arbitrary: x) (auto split: list.splits if_splits)

lemma split_join: "ss \<noteq> [] \<Longrightarrow> (\<And>s. s \<in> set ss \<Longrightarrow> c \<notin> set s) \<Longrightarrow> split_on c (join_with c ss) = ss"
  by (induction c ss rule: join_with.induct) (auto simp: split_on_append split_on_no_sep)

lemma clean_step_plain: "plain_name n \<Longrightarrow> clean_step r n st = n # st"
  by (simp add: plain_name_def)

lemma path_parts_snoc:
  assumes "plain_name n" and "p \<noteq> ''''"
  shows "path_parts (p @ CHR ''/'' # n) = path_parts p @ [n]"
proof -
  have "is_rooted (p @ CHR ''/'' # n) = is_rooted p" using assms(2) by (cases p) (simp_all add: is_rooted_def)
  moreover have "split_on (CHR ''/'') n = [n]" using assms(1) by (simp add: split_on_no_sep plain_name_def)
  ultimately show ?thesis
    by (simp add: path_parts_def split_on_append clean_step_plain [OF assms(1)] del: clean_step.simps)
qed

lemma clean_step_mem: "y \<in> set (clean_step r c st) \<Longrightarrow> y \<in> set st \<or> y = c \<and> y \<noteq> ''''"
  by (auto split: if_splits list.splits)

lemma clean_step_set:
  "x \<in> set (fold (clean_step r) cs st) \<Longrightarrow> x \<in> set st \<or> x \<in> set cs \<and> x \<noteq> ''''"
proof (induction cs arbitrary: st)
  case (Cons c cs)
  have "x \<in> set (clean_step r c st) \<or> x \<in> set cs \<and> x \<noteq> ''''"
    by (rule Cons.IH) (use Cons.prems in simp)
  then show ?case using clean_step_mem [of x r c st] by auto
qed simp

lemma path_parts_plain: "x \<in> set (path_parts p) \<Longrightarrow> x \<noteq> '''' \<and> CHR ''/'' \<notin> set x"
  using clean_step_set [of x "is_rooted p" "split_on (CHR ''/'') p" "[]"] split_on_parts
  by (auto simp: path_parts_def)

lemma clean_path_parts:
  assumes "path_parts p \<noteq> []"
  shows "split_on (CHR ''/'') (clean_path p) = (if is_rooted p then [[]] else []) @ path_parts p"
proof -
  have j: "split_on (CHR ''/'') (join_with (CHR ''/'') (path_parts p)) = path_parts p"
    using assms path_parts_plain by (intro split_join) auto
  moreover have "join_with (CHR ''/'') (path_parts p) \<noteq> ''''"
  proof
    assume e: "join_with (CHR ''/'') (path_parts p) = ''''"
    have "path_parts p = [[]]" using j unfolding e by simp
    then show False using path_parts_plain [of "[]" p] by simp
  qed
  ultimately show ?thesis by (simp add: clean_path_def Let_def)
qed

lemma join_ends:
  assumes "plain_name n"
  shows "\<exists>ys. split_on (CHR ''/'') (path_join [d, n]) = ys @ [n]"
proof (cases "d = ''''")
  case True
  have "path_parts n = [n]"
    using assms by (auto simp: path_parts_def split_on_no_sep plain_name_def)
  moreover have "\<not> is_rooted n" using assms by (cases n) (auto simp: is_rooted_def plain_name_def)
  ultimately have "clean_path n = n" using assms by (simp add: clean_path_def plain_name_def)
  then show ?thesis using True assms by (simp add: path_join_def plain_name_def split_on_no_sep)
next
  case False
  then show ?thesis using clean_path_parts [of "d @ CHR ''/'' # n"] by (simp add: path_join_def path_parts_snoc [OF assms])
qed

lemma join_ends_two:
  assumes "plain_name n" and "plain_name f"
  shows "\<exists>ys. split_on (CHR ''/'') (path_join [path_join [d, n], f]) = ys @ [n, f]"
proof -
  define e where "e = path_join [d, n]"
  obtain xs where xs: "split_on (CHR ''/'') e = xs @ [n]" using join_ends [OF assms(1)] unfolding e_def by blast
  have "e \<noteq> ''''" using xs assms(1) by (auto simp: plain_name_def Cons_eq_append_conv)
  moreover obtain ys where "path_parts e = ys @ [n]"
    using xs by (simp add: path_parts_def clean_step_plain [OF assms(1)] del: clean_step.simps)
  ultimately show ?thesis
    using clean_path_parts [of "e @ CHR ''/'' # f"] unfolding e_def [symmetric]
    by (simp add: path_join_def path_parts_snoc [OF assms(2)])
qed

lemma plain_names: "plain_name (dir_name e)" "plain_name ''vault.db''" "plain_name ''vault.sock''" "plain_name ''daemon.key''"
  "plain_name ''clients''"
  by (simp_all add: plain_name_def dir_name_def)

lemma joins_differ:
  assumes "plain_name f" and "e \<noteq> e'"
  shows "path_join [path_join [d, dir_name e], f] \<noteq> path_join [path_join [d', dir_name e'], f]"
proof
  assume eq: "path_join [path_join [d, dir_name e], f] = path_join [path_join [d', dir_name e'], f]"
  obtain ys zs where "split_on (CHR ''/'') (path_join [path_join [d, dir_name e], f]) = ys @ [dir_name e, f]"
    "split_on (CHR ''/'') (path_join [path_join [d', dir_name e'], f]) = zs @ [dir_name e', f]"
    using join_ends_two [OF plain_names(1) assms(1)] by meson
  with eq have "dir_name e = dir_name e'" by simp
  then show False using assms(2) by (cases e; cases e') (simp_all add: dir_name_def)
qed

lemma environments_differ:
  assumes "e \<noteq> e'"
  shows "database_path (paths_in g h e) \<noteq> database_path (paths_in g' h' e')"
    and "socket_path (paths_in g h e) \<noteq> socket_path (paths_in g' h' e')"
    and "static_key_path (paths_in g h e) \<noteq> static_key_path (paths_in g' h' e')"
    and "client_dir (paths_in g h e) \<noteq> client_dir (paths_in g' h' e')"
  using joins_differ [OF _ assms] plain_names
  by (simp_all add: database_path_def socket_path_def static_key_path_def client_dir_def paths_in_def Let_def)

section \<open>The file system\<close>

text \<open>
  Files, folders and symbolic links with their permission bits. Any operation may fail, by its
  place in the sequence of operations; a failed write leaves a part of the content.
\<close>

datatype node = File nat bytes | Dir nat | Link string

record fsys =
  fs_nodes :: "string \<Rightarrow> node option"
  fs_ok :: "nat \<Rightarrow> bool"
  fs_part :: "nat \<Rightarrow> nat"
  fs_pos :: nat

definition err_not_exist :: err where "err_not_exist = ErrOther ''file does not exist''"
definition err_exist :: err where "err_exist = ErrOther ''file already exists''"

definition fs_op :: "('a fsys_scheme, err, unit) prog" where
  "fs_op = (\<lambda>s. (if fs_ok s (fs_pos s) then Inr () else Inl ErrIO, s\<lparr>fs_pos := Suc (fs_pos s)\<rparr>))"

text \<open>Links are followed 40 times at most.\<close>

fun follow :: "nat \<Rightarrow> (string \<Rightarrow> node option) \<Rightarrow> string \<Rightarrow> node option" where
  "follow 0 m p = m p"
| "follow (Suc k) m p = (case m p of Some (Link q) \<Rightarrow> follow k m q | n \<Rightarrow> n)"

definition fs_lookup :: "string \<Rightarrow> ('a fsys_scheme, err, node) prog" where
  "fs_lookup p =
     mbind fs_op (\<lambda>_.
     mbind (mget (\<lambda>s. follow 40 (fs_nodes s) p)) (\<lambda>n. case n of
       None \<Rightarrow> mthrow err_not_exist
     | Some (Link _) \<Rightarrow> mthrow ErrIO
     | Some n \<Rightarrow> mreturn n))"

definition fs_read :: "string \<Rightarrow> ('a fsys_scheme, err, bytes) prog" where
  "fs_read p = mbind (fs_lookup p) (\<lambda>n. case n of File _ b \<Rightarrow> mreturn b | _ \<Rightarrow> mthrow ErrIO)"

fun node_mode :: "node \<Rightarrow> nat" where
  "node_mode (File m _) = m"
| "node_mode (Dir m) = m"
| "node_mode (Link _) = 511"

definition set_node :: "string \<Rightarrow> node option \<Rightarrow> ('a fsys_scheme, err, unit) prog" where
  "set_node p n = mmodify (\<lambda>s. s\<lparr>fs_nodes := (fs_nodes s)(p := n)\<rparr>)"

text \<open>\<^verbatim>\<open>os.OpenFile\<close> with \<^verbatim>\<open>O_CREATE|O_EXCL\<close>: no node may be there, not even a link.\<close>

definition fs_create_excl :: "string \<Rightarrow> nat \<Rightarrow> ('a fsys_scheme, err, unit) prog" where
  "fs_create_excl p mode =
     mbind fs_op (\<lambda>_.
     mbind (mget (\<lambda>s. fs_nodes s p = None)) (\<lambda>absent.
     mbind (mguard absent err_exist) (\<lambda>_.
     set_node p (Some (File mode [])))))"

definition fs_write_new :: "string \<Rightarrow> nat \<Rightarrow> bytes \<Rightarrow> ('a fsys_scheme, err, unit) prog" where
  "fs_write_new p mode b =
     mbind (mget (\<lambda>s. fs_part s (fs_pos s))) (\<lambda>k.
     mbind (attempt fs_op) (\<lambda>r. case r of
       Inl e \<Rightarrow> mbind (set_node p (Some (File mode (take k b)))) (\<lambda>_. mthrow e)
     | Inr _ \<Rightarrow> set_node p (Some (File mode b))))"

definition fs_remove :: "string \<Rightarrow> ('a fsys_scheme, err, unit) prog" where
  "fs_remove p = mbind fs_op (\<lambda>_. set_node p None)"

section \<open>Private folders\<close>

text \<open>\<^verbatim>\<open>os.MkdirAll\<close>: the folders on the way to a path.\<close>

definition way_to :: "string \<Rightarrow> string list" where
  "way_to p = map (\<lambda>i. take i p) (filter (\<lambda>i. 0 < i \<and> (i = length p \<or> p ! i = CHR ''/'')) [0..<Suc (length p)])"

definition fs_mkdir :: "nat \<Rightarrow> string \<Rightarrow> ('a fsys_scheme, err, unit) prog" where
  "fs_mkdir mode p =
     mbind fs_op (\<lambda>_.
     mbind (mget (\<lambda>s. (follow 40 (fs_nodes s) p, fs_nodes s p))) (\<lambda>n. case n of
       (Some (Dir _), _) \<Rightarrow> mreturn ()
     | (None, None) \<Rightarrow> set_node p (Some (Dir mode))
     | _ \<Rightarrow> mthrow ErrIO))"

definition fs_mkdir_all :: "string \<Rightarrow> nat \<Rightarrow> ('a fsys_scheme, err, unit) prog" where
  "fs_mkdir_all p mode = mfor (way_to p) (fs_mkdir mode)"

fun with_mode :: "nat \<Rightarrow> node \<Rightarrow> node" where
  "with_mode m (File _ b) = File m b"
| "with_mode m (Dir _) = Dir m"
| "with_mode m (Link p) = Link p"

fun chmod_at :: "nat \<Rightarrow> nat \<Rightarrow> string \<Rightarrow> (string \<Rightarrow> node option) \<Rightarrow> string \<Rightarrow> node option" where
  "chmod_at 0 mode p m = (case m p of Some n \<Rightarrow> m(p \<mapsto> with_mode mode n) | None \<Rightarrow> m)"
| "chmod_at (Suc k) mode p m =
     (case m p of Some (Link q) \<Rightarrow> chmod_at k mode q m | Some n \<Rightarrow> m(p \<mapsto> with_mode mode n) | None \<Rightarrow> m)"

definition fs_chmod :: "string \<Rightarrow> nat \<Rightarrow> ('a fsys_scheme, err, unit) prog" where
  "fs_chmod p mode =
     mbind (fs_lookup p) (\<lambda>_. mmodify (\<lambda>s. s\<lparr>fs_nodes := chmod_at 40 mode p (fs_nodes s)\<rparr>))"

definition prepare_paths :: "paths \<Rightarrow> ('a fsys_scheme, err, unit) prog" where
  "prepare_paths p =
     mfor [pt_data p, pt_config p, pt_runtime p, client_dir p] (\<lambda>dir.
       mbind (fs_mkdir_all dir 448) (\<lambda>_. fs_chmod dir 448))"

definition check_private :: "string \<Rightarrow> ('a fsys_scheme, err, unit) prog" where
  "check_private p =
     mbind (fs_lookup p) (\<lambda>n. mguard (node_mode n AND 63 = 0) (ErrOther ''accessible by other users''))"

section \<open>The transport key\<close>

record key_prims =
  kp_generate :: "err + bytes \<times> bytes"
  kp_json :: "string \<times> string \<Rightarrow> err + bytes"
  kp_un_json :: "bytes \<Rightarrow> (string \<times> string) option"

definition decode_hex :: "string \<Rightarrow> ('s, err, bytes) prog" where
  "decode_hex t = (case hex_decode t of None \<Rightarrow> mthrow (ErrOther ''encoding/hex'') | Some b \<Rightarrow> mreturn b)"

definition load_or_create_key :: "key_prims \<Rightarrow> string \<Rightarrow> ('a fsys_scheme, err, bytes \<times> bytes) prog" where
  "load_or_create_key K path =
     mbind (attempt (fs_read path)) (\<lambda>r. case r of
       Inr raw \<Rightarrow>
         mbind (check_private path) (\<lambda>_.
         case kp_un_json K raw of None \<Rightarrow> mthrow (ErrOther ''encoding/json'') | Some (p, q) \<Rightarrow>
         mbind (decode_hex p) (\<lambda>pub.
         mbind (decode_hex q) (\<lambda>priv.
         mreturn (pub, priv))))
     | Inl e \<Rightarrow>
         mbind (mguard (e = err_not_exist) e) (\<lambda>_.
         mbind (mlift (kp_generate K)) (\<lambda>key.
         mbind (mlift (kp_json K (hex_encode (fst key), hex_encode (snd key)))) (\<lambda>raw.
         mbind (fs_create_excl path 384) (\<lambda>_.
         mbind (attempt (fs_write_new path 384 raw)) (\<lambda>w. case w of
           Inl e \<Rightarrow> mbind (ignore_error (fs_remove path)) (\<lambda>_. mthrow e)
         | Inr _ \<Rightarrow>
             mbind (attempt fs_op) (\<lambda>c. case c of
               Inl e \<Rightarrow> mbind (ignore_error (fs_remove path)) (\<lambda>_. mthrow e)
             | Inr _ \<Rightarrow> mreturn key)))))))"
section \<open>What the key file holds\<close>

lemma fs_op_Inr_iff: "fs_op s = (Inr (), t) \<longleftrightarrow> fs_ok s (fs_pos s) \<and> t = s\<lparr>fs_pos := Suc (fs_pos s)\<rparr>"
  by (auto simp: fs_op_def)

lemma snd_fs_op [simp]: "snd (fs_op s) = s\<lparr>fs_pos := Suc (fs_pos s)\<rparr>"
  by (simp add: fs_op_def)

lemma fs_lookup_Inr_iff:
  "fs_lookup p s = (Inr n, t) \<longleftrightarrow>
     fs_ok s (fs_pos s) \<and> t = s\<lparr>fs_pos := Suc (fs_pos s)\<rparr> \<and> follow 40 (fs_nodes s) p = Some n \<and> (\<forall>q. n \<noteq> Link q)"
  by (auto simp: fs_lookup_def mbind_Inr_iff fs_op_Inr_iff prog_simps split: option.splits node.splits)

lemma fs_read_Inr_iff:
  "fs_read p s = (Inr b, t) \<longleftrightarrow>
     fs_ok s (fs_pos s) \<and> t = s\<lparr>fs_pos := Suc (fs_pos s)\<rparr> \<and> (\<exists>m. follow 40 (fs_nodes s) p = Some (File m b))"
proof -
  have "(case n of File _ c \<Rightarrow> mreturn c | _ \<Rightarrow> mthrow ErrIO) u = (Inr b, t) \<longleftrightarrow> (\<exists>m. n = File m b) \<and> t = u" for n and u :: "'a fsys_scheme"
    by (cases n) (auto simp: prog_simps)
  then show ?thesis by (auto simp: fs_read_def mbind_Inr_iff fs_lookup_Inr_iff)
qed

lemma check_private_Inr_iff:
  "check_private p s = (Inr (), t) \<longleftrightarrow>
     fs_ok s (fs_pos s) \<and> t = s\<lparr>fs_pos := Suc (fs_pos s)\<rparr> \<and>
     (\<exists>n. follow 40 (fs_nodes s) p = Some n \<and> (\<forall>q. n \<noteq> Link q) \<and> node_mode n AND 63 = 0)"
  by (auto simp: check_private_def mbind_Inr_iff fs_lookup_Inr_iff prog_simps)

lemma decode_hex_Inr_iff: "decode_hex x s = (Inr b, t) \<longleftrightarrow> hex_decode x = Some b \<and> t = s"
  by (auto simp: decode_hex_def prog_simps split: option.splits)

definition key_stored :: "key_prims \<Rightarrow> node option \<Rightarrow> bytes \<times> bytes \<Rightarrow> bool" where
  "key_stored K n k \<longleftrightarrow>
     (\<exists>m raw p q. n = Some (File m raw) \<and> m AND 63 = 0 \<and> kp_un_json K raw = Some (p, q) \<and>
        hex_decode p = Some (fst k) \<and> hex_decode q = Some (snd k))"

lemma load_key_stored:
  assumes "key_stored K (follow 40 (fs_nodes s) path) k" and "\<And>n. fs_ok s n"
  shows "\<exists>t. load_or_create_key K path s = (Inr k, t) \<and> fs_nodes t = fs_nodes s"
proof -
  from assms(1) obtain m raw p q where f: "follow 40 (fs_nodes s) path = Some (File m raw)" "m AND 63 = 0"
    "kp_un_json K raw = Some (p, q)" "hex_decode p = Some (fst k)" "hex_decode q = Some (snd k)"
    by (auto simp: key_stored_def)
  let ?s = "s\<lparr>fs_pos := Suc (fs_pos s)\<rparr>" and ?t = "s\<lparr>fs_pos := Suc (Suc (fs_pos s))\<rparr>"
  have "fs_read path s = (Inr raw, ?s)" using f(1) assms(2) by (simp add: fs_read_Inr_iff)
  then have "attempt (fs_read path) s = (Inr (Inr raw), ?s)" by (rule attempt_Inr)
  moreover have "check_private path ?s = (Inr (), ?t)" using f(1,2) assms(2) by (simp add: check_private_Inr_iff)
  ultimately have "load_or_create_key K path s = (Inr k, ?t)"
    using f(3-5) by (simp add: load_or_create_key_def mbind_unfold decode_hex_def mreturn_eq)
  then show ?thesis by simp
qed

lemma follow_plain: "m p = Some (File a b) \<Longrightarrow> follow k m p = Some (File a b)"
  by (cases k) simp_all

lemma fs_write_new_Inr: "fs_write_new p mode b s = (Inr (), t) \<Longrightarrow> fs_nodes t = (fs_nodes s)(p \<mapsto> File mode b)"
  by (auto simp: fs_write_new_def set_node_def attempt_def mbind_unfold prog_simps fs_op_def split: if_splits)

lemma fs_create_excl_Inr: "fs_create_excl p mode s = (Inr (), t) \<Longrightarrow> fs_nodes s p = None \<and> fs_nodes t = (fs_nodes s)(p \<mapsto> File mode [])"
  by (auto simp: fs_create_excl_def mbind_Inr_iff fs_op_Inr_iff set_node_def prog_simps split: if_splits)

lemma load_or_create_key_Inr:
  assumes "load_or_create_key K path s = (Inr k, t)" and "\<And>x b. kp_json K x = Inr b \<Longrightarrow> kp_un_json K b = Some x"
  shows "key_stored K (follow 40 (fs_nodes t) path) k"
proof -
  from assms(1) obtain r u where r: "attempt (fs_read path) s = (Inr r, u)"
    by (auto simp: load_or_create_key_def mbind_Inr_iff)
  show ?thesis
  proof (cases r)
    case (Inr raw)
    then have f: "fs_read path s = (Inr raw, u)" using r by (auto simp: attempt_def split: prod.splits sum.splits err.splits)
    from assms(1) r Inr obtain v p q where v: "check_private path u = (Inr (), v)" "kp_un_json K raw = Some (p, q)"
      "hex_decode p = Some (fst k)" "hex_decode q = Some (snd k)" "t = v"
      by (auto simp: load_or_create_key_def mbind_unfold decode_hex_def prog_simps split: prod.splits sum.splits option.splits)
    from f v show ?thesis by (auto simp: key_stored_def fs_read_Inr_iff check_private_Inr_iff)
  next
    case (Inl e)
    from assms(1) r Inl obtain raw v w x where c: "kp_json K (hex_encode (fst k), hex_encode (snd k)) = Inr raw"
      "fs_create_excl path 384 u = (Inr (), v)" "attempt (fs_write_new path 384 raw) v = (Inr (Inr ()), w)"
      "attempt fs_op w = (Inr (Inr ()), t)"
      by (auto simp: load_or_create_key_def mbind_unfold prog_simps split: prod.splits sum.splits if_splits)
    from c(3) have "fs_write_new path 384 raw v = (Inr (), w)"
      by (auto simp: attempt_def split: prod.splits sum.splits err.splits)
    then have "fs_nodes w path = Some (File 384 raw)" by (simp add: fs_write_new_Inr)
    moreover have "fs_nodes t = fs_nodes w"
      using c(4) by (auto simp: attempt_def fs_op_def split: prod.splits sum.splits err.splits if_splits)
    ultimately have "follow 40 (fs_nodes t) path = Some (File 384 raw)" by (simp add: follow_plain)
    with assms(2) [OF c(1)] show ?thesis by (simp add: key_stored_def)
  qed
qed

text \<open>No node that was there is changed, whatever fails.\<close>

lemma create_taken: "fs_nodes s p \<noteq> None \<Longrightarrow> \<exists>e. fs_create_excl p m s = (Inl e, s\<lparr>fs_pos := Suc (fs_pos s)\<rparr>)"
  by (auto simp: fs_create_excl_def mbind_unfold fs_op_def mguard_eq mget_eq)

lemma load_taken:
  assumes "fs_nodes s path \<noteq> None" and "load_or_create_key K path s = (r, t)"
  shows "fs_nodes t = fs_nodes s"
proof -
  obtain a u where a: "attempt (fs_read path) s = (a, u)" by fastforce
  have "fs_nodes u = fs_nodes s"
  proof -
    have "snd (fs_read path s) = s\<lparr>fs_pos := Suc (fs_pos s)\<rparr>"
      by (simp add: fs_read_def fs_lookup_def mbind_unfold fs_op_def mthrow_eq mreturn_eq mget_eq split: option.splits node.splits)
    then show ?thesis using a snd_attempt [of "fs_read path" s] by simp
  qed
  moreover have "fs_nodes w = fs_nodes v" if "check_private path v = (x, w)" for v w :: "'a fsys_scheme" and x
  proof -
    have "snd (check_private path v) = v\<lparr>fs_pos := Suc (fs_pos v)\<rparr>"
      by (simp add: check_private_def fs_lookup_def mbind_unfold fs_op_def mthrow_eq mreturn_eq mguard_eq mget_eq split: option.splits node.splits)
    then show ?thesis using that by simp
  qed
  moreover obtain e where "fs_create_excl path 384 u = (Inl e, u\<lparr>fs_pos := Suc (fs_pos u)\<rparr>)"
    using create_taken [of u path 384] assms(1) \<open>fs_nodes u = fs_nodes s\<close> by auto
  ultimately show ?thesis
    using assms(2) a
    by (auto simp: load_or_create_key_def mbind_unfold decode_hex_def prog_simps split: prod.splits sum.splits option.splits if_splits)
qed

lemma obeys_attempt: "obeys R m \<Longrightarrow> obeys R (attempt m)"
  by (simp add: obeys_def)

definition other_nodes :: "string \<Rightarrow> 'a fsys_scheme \<Rightarrow> string \<Rightarrow> node option" where
  "other_nodes p s = (fs_nodes s)(p := None)"

lemma others_steps:
  "obeys (same_on (other_nodes p)) fs_op" "obeys (same_on (other_nodes p)) (set_node p n)"
  "obeys (same_on (other_nodes p)) (fs_lookup q)"
  by (simp_all add: obeys_def same_on_def other_nodes_def fs_op_def set_node_def mmodify_eq fs_lookup_def mbind_unfold mthrow_eq mreturn_eq mget_eq
      split: option.splits node.splits)

lemma others_key: "obeys (same_on (other_nodes p)) (load_or_create_key K p)"
  unfolding load_or_create_key_def fs_read_def check_private_def decode_hex_def fs_create_excl_def fs_write_new_def fs_remove_def ignore_error_def
  by (intro same.ok_intros obeys_attempt others_steps) (auto intro!: same.ok_intros obeys_attempt others_steps split: node.splits sum.splits option.splits)

lemma key_file_overwrites_nothing:
  assumes "load_or_create_key K path s = (r, t)" and "fs_nodes s q = Some n"
  shows "fs_nodes t q = Some n"
proof (cases "fs_nodes s path = None")
  case True
  then have "q \<noteq> path" using assms(2) by auto
  moreover have "other_nodes path t = other_nodes path s" by (rule same_okD [OF others_key assms(1)])
  ultimately show ?thesis using assms(2) unfolding other_nodes_def by (metis fun_upd_apply)
next
  case False
  then show ?thesis using load_taken assms by metis
qed

lemma loaded_key_stays:
  assumes "load_or_create_key K path s = (Inr k, t)" and "\<And>x b. kp_json K x = Inr b \<Longrightarrow> kp_un_json K b = Some x"
    and "fs_nodes u = fs_nodes t" and "\<And>n. fs_ok u n"
  shows "\<exists>v. load_or_create_key K path u = (Inr k, v) \<and> fs_nodes v = fs_nodes u"
  by (rule load_key_stored) (use load_or_create_key_Inr [OF assms(1,2)] assms(3,4) in simp_all)

section \<open>What the preparation leaves\<close>

text \<open>Nodes appear and become private; nothing else changes.\<close>

definition private_node :: "node option \<Rightarrow> bool" where
  "private_node n \<longleftrightarrow> (case n of Some (File m _) \<Rightarrow> m = 448 | Some (Dir m) \<Rightarrow> m = 448 | _ \<Rightarrow> False)"

definition tightens :: "(string \<Rightarrow> node option) \<Rightarrow> (string \<Rightarrow> node option) \<Rightarrow> bool" where
  "tightens m m' \<longleftrightarrow> (\<forall>q n. m q = Some n \<longrightarrow> m' q = Some n \<or> m' q = Some (with_mode 448 n))"

definition tighter :: "'a fsys_scheme \<Rightarrow> 'a fsys_scheme \<Rightarrow> bool" where
  "tighter s t \<longleftrightarrow> tightens (fs_nodes s) (fs_nodes t)"

lemma with_mode_twice [simp]: "with_mode m (with_mode m' n) = with_mode m n"
  by (cases n) simp_all

interpretation tight: effect tighter
  by unfold_locales (auto simp: tighter_def tightens_def, metis with_mode_twice)

lemma tightens_private: "tightens m m' \<Longrightarrow> private_node (follow k m p) \<Longrightarrow> private_node (follow k m' p)"
proof (induction k arbitrary: p)
  case 0
  show ?case
  proof (cases "m p")
    case None
    then show ?thesis using 0 by (simp add: private_node_def)
  next
    case (Some n)
    then have "m' p = Some n \<or> m' p = Some (with_mode 448 n)" using 0(1) by (simp add: tightens_def)
    then show ?thesis using 0 Some by (cases n) (auto simp: private_node_def)
  qed
next
  case (Suc k)
  show ?case
  proof (cases "m p")
    case None
    then show ?thesis using Suc.prems by (simp add: private_node_def)
  next
    case (Some n)
    then have "m' p = Some n \<or> m' p = Some (with_mode 448 n)" using Suc.prems(1) by (simp add: tightens_def)
    then show ?thesis using Suc Some by (cases n) (auto simp: private_node_def)
  qed
qed

lemma chmod_tightens: "tightens m (chmod_at k 448 p m)"
proof (induction k arbitrary: p)
  case 0
  show ?case by (cases "m p") (auto simp: tightens_def)
next
  case (Suc k)
  then show ?case by (cases "m p"; cases "the (m p)") (auto simp: tightens_def)
qed

lemma chmod_private:
  "follow k m p = Some n \<Longrightarrow> (\<And>q. n \<noteq> Link q) \<Longrightarrow> private_node (follow k (chmod_at k 448 p m) p)"
proof (induction k arbitrary: p)
  case 0
  then show ?case by (cases n) (auto simp: private_node_def)
next
  case (Suc k)
  then obtain x where x: "m p = Some x" by (cases "m p") auto
  show ?case
  proof (cases x)
    case (Link q)
    have "private_node (follow k (chmod_at k 448 q m) q)" using Suc x Link by simp
    moreover have "chmod_at k 448 q m p = Some (Link q)"
      using chmod_tightens [of m k q] x Link unfolding tightens_def by (metis with_mode.simps(3))
    ultimately show ?thesis using x Link by simp
  next
    case (File a b)
    then show ?thesis using x by (simp add: private_node_def)
  next
    case (Dir a)
    then show ?thesis using x by (simp add: private_node_def)
  qed
qed

lemma tight_steps:
  "obeys tighter fs_op" "obeys tighter (fs_mkdir 448 p)" "obeys tighter (fs_chmod p 448)"
  by (auto simp: obeys_def tighter_def fs_op_def fs_mkdir_def fs_chmod_def fs_lookup_def mbind_unfold mthrow_eq mreturn_eq mget_eq
      mmodify_eq set_node_def chmod_tightens tightens_def [of m m for m] split: option.splits node.splits prod.splits)
    (auto simp: tightens_def)

lemma chmod_Inr: "fs_chmod p 448 s = (Inr (), t) \<Longrightarrow> private_node (follow 40 (fs_nodes t) p)"
  using chmod_private [of 40 "fs_nodes s" p]
  by (auto simp: fs_chmod_def mbind_Inr_iff fs_lookup_Inr_iff prog_simps)

lemma prepare_makes_private:
  assumes "prepare_paths p s = (Inr (), t)" and "dir \<in> {pt_data p, pt_config p, pt_runtime p, client_dir p}"
  shows "private_node (follow 40 (fs_nodes t) dir)"
proof -
  have ok: "obeys tighter (mbind (fs_mkdir_all d 448) (\<lambda>_. fs_chmod d 448))" for d
    unfolding fs_mkdir_all_def by (intro tight.ok_intros tight_steps)
  have "private_node (follow 40 (fs_nodes t) d)"
    if "mfor ds (\<lambda>dir. mbind (fs_mkdir_all dir 448) (\<lambda>_. fs_chmod dir 448)) s = (Inr (), t)" "d \<in> set ds" for ds d s
    using that
  proof (induction ds arbitrary: s)
    case (Cons c ds)
    then obtain u v where u: "fs_chmod c 448 u = (Inr (), v)" "mfor ds (\<lambda>dir. mbind (fs_mkdir_all dir 448) (\<lambda>_. fs_chmod dir 448)) v = (Inr (), t)"
      by (auto simp: mbind_Inr_iff)
    show ?case
    proof (cases "d = c")
      case True
      have "tighter v t" by (rule tight.okD [OF tight.ok_for [OF ok] u(2)])
      then show ?thesis using tightens_private chmod_Inr [OF u(1)] True by (auto simp: tighter_def)
    qed (use Cons u in auto)
  qed simp
  then show ?thesis using assms unfolding prepare_paths_def by fastforce
qed

section \<open>A concrete file system\<close>

definition demo_fsys :: fsys where
  "demo_fsys = \<lparr>fs_nodes = [''/'' \<mapsto> Dir 493], fs_ok = (\<lambda>_. True), fs_part = (\<lambda>_. 0), fs_pos = 0\<rparr>"

definition demo_paths :: paths where
  "demo_paths = \<lparr>pt_env = Prod, pt_data = ''/d'', pt_config = ''/c'', pt_runtime = ''/r''\<rparr>"

lemma demo_client_dir: "client_dir demo_paths = ''/c/clients''"
  by (simp add: client_dir_def demo_paths_def path_join_def clean_path_def path_parts_def is_rooted_def)

lemma follow_none: "m p = None \<Longrightarrow> follow k m p = None"
  by (cases k) auto

lemma follow_dir: "m p = Some (Dir d) \<Longrightarrow> follow k m p = Some (Dir d)"
  by (cases k) auto

lemma chmod_folder: "m p = Some (Dir d) \<Longrightarrow> chmod_at k mode p m = m(p \<mapsto> Dir mode)"
  by (cases k) auto

lemma mkdir_works:
  "fs_ok s (fs_pos s) \<Longrightarrow> fs_nodes s p = None \<Longrightarrow>
     fs_mkdir mode p s = (Inr (), s\<lparr>fs_pos := Suc (fs_pos s), fs_nodes := (fs_nodes s)(p \<mapsto> Dir mode)\<rparr>)"
  by (simp add: fs_mkdir_def mbind_unfold fs_op_def mget_eq follow_none set_node_def mmodify_eq)

lemma mkdir_present:
  "fs_ok s (fs_pos s) \<Longrightarrow> fs_nodes s p = Some (Dir d) \<Longrightarrow> fs_mkdir mode p s = (Inr (), s\<lparr>fs_pos := Suc (fs_pos s)\<rparr>)"
  by (simp add: fs_mkdir_def mbind_unfold fs_op_def mget_eq follow_dir mreturn_eq)

lemma chmod_works:
  "fs_ok s (fs_pos s) \<Longrightarrow> fs_nodes s p = Some (Dir d) \<Longrightarrow>
     fs_chmod p mode s = (Inr (), s\<lparr>fs_pos := Suc (fs_pos s), fs_nodes := (fs_nodes s)(p \<mapsto> Dir mode)\<rparr>)"
  by (simp add: fs_chmod_def fs_lookup_def mbind_unfold fs_op_def mget_eq follow_dir mreturn_eq mmodify_eq chmod_folder)

lemma demo_prepares: "\<exists>t. prepare_paths demo_paths demo_fsys = (Inr (), t)"
  unfolding prepare_paths_def demo_client_dir
  by (simp add: demo_paths_def fs_mkdir_all_def way_to_def mbind_unfold demo_fsys_def mkdir_works mkdir_present chmod_works mreturn_eq)

definition demo_keys :: key_prims where
  "demo_keys = \<lparr>kp_generate = Inr ([7], [8]),
     kp_json = (\<lambda>(a, b). if length a < 256 then Inr (of_nat (length a) # str_bytes (a @ b)) else Inl ErrIO),
     kp_un_json = (\<lambda>b. case b of [] \<Rightarrow> None | n # r \<Rightarrow> Some (take (unat n) (bytes_str r), drop (unat n) (bytes_str r)))\<rparr>"

lemma demo_keys_json: "kp_json demo_keys x = Inr b \<Longrightarrow> kp_un_json demo_keys b = Some x"
  by (cases x) (auto simp: demo_keys_def unat_of_nat split: if_splits)

lemma demo_makes_key: "\<exists>t. load_or_create_key demo_keys ''/k'' demo_fsys = (Inr ([7], [8]), t) \<and> (\<forall>n. fs_ok t n)"
  by (simp add: load_or_create_key_def mbind_unfold attempt_def fs_read_def fs_lookup_def fs_op_def mget_eq mthrow_eq mguard_eq mlift_eq mreturn_eq
      follow_none demo_fsys_def err_not_exist_def demo_keys_def fs_create_excl_def set_node_def mmodify_eq fs_write_new_def hex_encode_def)

end
