(* ===== verification/Files.thy ===== *)
theory Files
  imports Paths
begin

text \<open>
  What the update check and the installer use of \<^verbatim>\<open>path/filepath\<close> and
  \<^verbatim>\<open>os\<close> beyond the folders of an environment: the folder and the last component of a
  path, writing a whole file, renaming, and temporary files.
\<close>

section \<open>Paths\<close>

text \<open>\<^verbatim>\<open>filepath.Dir\<close>: everything up to the last separator, cleaned.\<close>

definition path_dir :: "string \<Rightarrow> string" where
  "path_dir p = clean_path (rev (dropWhile (\<lambda>c. c \<noteq> CHR ''/'') (rev p)))"

text \<open>\<^verbatim>\<open>filepath.Base\<close>.\<close>

definition path_base :: "string \<Rightarrow> string" where
  "path_base p =
     (if p = '''' then ''.''
      else let q = rev (dropWhile (\<lambda>c. c = CHR ''/'') (rev p)) in
        if q = '''' then ''/'' else rev (takeWhile (\<lambda>c. c \<noteq> CHR ''/'') (rev q)))"

lemma path_dir_child: "CHR ''/'' \<notin> set n \<Longrightarrow> path_dir (d @ CHR ''/'' # n) = clean_path (d @ ''/'')"
  by (simp add: path_dir_def dropWhile_append)

section \<open>Files\<close>

text \<open>Where a path leads: the last link of the chain, present or not.\<close>

fun final_path :: "nat \<Rightarrow> (string \<Rightarrow> node option) \<Rightarrow> string \<Rightarrow> string option" where
  "final_path 0 m p = (case m p of Some (Link _) \<Rightarrow> None | _ \<Rightarrow> Some p)"
| "final_path (Suc k) m p = (case m p of Some (Link q) \<Rightarrow> final_path k m q | _ \<Rightarrow> Some p)"

text \<open>\<^verbatim>\<open>os.WriteFile\<close>: opening truncates, the write may stop half way, and the file is closed in any
  case. A file that is there keeps its permissions.\<close>

definition fs_write_file :: "string \<Rightarrow> nat \<Rightarrow> bytes \<Rightarrow> ('a fsys_scheme, err, unit) prog" where
  "fs_write_file p mode b =
     mbind fs_op (\<lambda>_.
     mbind (mget (\<lambda>s. (final_path 40 (fs_nodes s) p, fs_nodes s))) (\<lambda>(target, m). case target of
       None \<Rightarrow> mthrow ErrIO
     | Some q \<Rightarrow>
         mbind (mguard (\<forall>d. m q \<noteq> Some (Dir d)) ErrIO) (\<lambda>_.
         let keep = (case m q of Some n \<Rightarrow> node_mode n | None \<Rightarrow> mode) in
         mbind (set_node q (Some (File keep []))) (\<lambda>_.
         mbind (attempt (fs_write_new q keep b)) (\<lambda>w.
         mbind (attempt fs_op) (\<lambda>c. case w of
           Inl e \<Rightarrow> mthrow e
         | Inr _ \<Rightarrow> mlift c))))))"

definition fs_rename :: "string \<Rightarrow> string \<Rightarrow> ('a fsys_scheme, err, unit) prog" where
  "fs_rename p q =
     mbind fs_op (\<lambda>_.
     mbind (mget fs_nodes) (\<lambda>m. case m p of
       None \<Rightarrow> mthrow err_not_exist
     | Some n \<Rightarrow>
         mbind (mguard (\<forall>d. m q \<noteq> Some (Dir d)) ErrIO) (\<lambda>_.
         mmodify (\<lambda>s. s\<lparr>fs_nodes := (fs_nodes s)(p := None, q \<mapsto> n)\<rparr>))))"

text \<open>Looking at a path (\<^verbatim>\<open>os.Stat\<close>) with absence told from failure.\<close>

definition fs_stat :: "string \<Rightarrow> ('a fsys_scheme, err, node option) prog" where
  "fs_stat p =
     mbind (attempt (fs_lookup p)) (\<lambda>r. case r of
       Inr n \<Rightarrow> mreturn (Some n)
     | Inl e \<Rightarrow> if e = err_not_exist then mreturn None else mthrow e)"

text \<open>\<^verbatim>\<open>os.Remove\<close> of a file that may be absent; a folder is left alone (it could only be removed
  when empty, and the paths removed here are those of files).\<close>

definition fs_remove_existing :: "string \<Rightarrow> ('a fsys_scheme, err, unit) prog" where
  "fs_remove_existing p =
     mbind fs_op (\<lambda>_.
     mbind (mget (\<lambda>s. fs_nodes s p)) (\<lambda>n. case n of
       None \<Rightarrow> mthrow err_not_exist
     | Some (Dir _) \<Rightarrow> mthrow ErrIO
     | Some _ \<Rightarrow> set_node p None))"

section \<open>What they do\<close>

lemma final_plain: "m p = None \<or> m p = Some (File a b) \<Longrightarrow> final_path k m p = Some p"
  by (cases k) auto

lemma write_new_works:
  "fs_ok s (fs_pos s) \<Longrightarrow> fs_write_new p mode b s = (Inr (), s\<lparr>fs_pos := Suc (fs_pos s), fs_nodes := (fs_nodes s)(p \<mapsto> File mode b)\<rparr>)"
  by (simp add: fs_write_new_def mbind_unfold mget_eq fs_op_def attempt_def set_node_def mmodify_eq)

lemma write_file_works:
  assumes "\<And>n. fs_ok s n" and "fs_nodes s p = None \<or> (\<exists>a c. fs_nodes s p = Some (File a c))"
  shows "\<exists>m. fs_write_file p mode b s = (Inr (), s\<lparr>fs_nodes := (fs_nodes s)(p \<mapsto> File m b), fs_pos := fs_pos s + 3\<rparr>)"
proof -
  have "final_path 40 (fs_nodes s) p = Some p" using assms(2) final_plain by blast
  then show ?thesis
    using assms
    by (auto simp: fs_write_file_def mbind_unfold mget_eq mguard_eq fs_op_def attempt_def set_node_def mmodify_eq mlift_eq
        write_new_works numeral_3_eq_3)
qed

lemma mkdirs_present:
  assumes "\<And>n. fs_ok s n" and "\<And>p. p \<in> set ps \<Longrightarrow> \<exists>d. fs_nodes s p = Some (Dir d)"
  shows "\<exists>n. mfor ps (fs_mkdir mode) s = (Inr (), s\<lparr>fs_pos := n\<rparr>)"
  using assms
proof (induction ps arbitrary: s)
  case Nil
  then show ?case by (intro exI [of _ "fs_pos s"]) (simp add: mreturn_eq)
next
  case (Cons p ps)
  from Cons.prems(2) [of p] obtain d where "fs_nodes s p = Some (Dir d)" by auto
  then have "fs_mkdir mode p s = (Inr (), s\<lparr>fs_pos := Suc (fs_pos s)\<rparr>)" using Cons.prems(1) mkdir_present by blast
  moreover have "\<exists>n. mfor ps (fs_mkdir mode) (s\<lparr>fs_pos := Suc (fs_pos s)\<rparr>) = (Inr (), s\<lparr>fs_pos := Suc (fs_pos s)\<rparr>\<lparr>fs_pos := n\<rparr>)"
    by (rule Cons.IH) (use Cons.prems in auto)
  ultimately show ?case by (simp add: mbind_unfold)
qed

end
