(* ===== verification/Extension.thy ===== *)
theory Extension
  imports Shared
begin

unbundle bit_operations_syntax

text \<open>
  Packages of the browser extension (\<^verbatim>\<open>internal/crx/crx.go\<close>): the identifier of an extension, the
  hand-written protobuf encoding, signing a package and verifying one. SHA-256 and the RSA
  operations of the standard library are a parameter.
\<close>

section \<open>Variable-length integers (\<^verbatim>\<open>encoding/binary\<close>)\<close>

fun uvarint_loop :: "nat \<Rightarrow> u64 \<Rightarrow> bytes \<Rightarrow> u64 \<times> int" where
  "uvarint_loop i x [] = (0, 0)"
| "uvarint_loop i x (b # bs) =
     (if i = 10 then (0, - (int i + 1))
      else if b < 0x80 then
        if i = 9 \<and> b > 1 then (0, - (int i + 1)) else (x OR push_bit (7 * i) (ucast b), int i + 1)
      else uvarint_loop (Suc i) (x OR push_bit (7 * i) (ucast (b AND 0x7F))) bs)"

definition uvarint :: "bytes \<Rightarrow> u64 \<times> int" where
  "uvarint b = uvarint_loop 0 0 b"

function append_uvarint :: "u64 \<Rightarrow> bytes" where
  "append_uvarint v = (if v < 0x80 then [ucast v] else (ucast v OR 0x80) # append_uvarint (drop_bit 7 v))"
  by pat_completeness auto

lemma drop_bit_less: "\<not> v < 0x80 \<Longrightarrow> unat (drop_bit 7 v) < unat (v :: u64)"
proof -
  assume "\<not> v < 0x80"
  then have "128 \<le> unat v" by (simp add: word_less_nat_alt)
  moreover have "unat (drop_bit 7 v) = unat v div 128" by (simp add: drop_bit_eq_div unat_div_distrib)
  ultimately show ?thesis by simp
qed

termination append_uvarint
  by (relation "measure unat") (simp_all add: drop_bit_less)

declare append_uvarint.simps [simp del]

lemma uvarint_loop_bound: "uvarint_loop i x b = (v, n) \<Longrightarrow> 0 < n \<Longrightarrow> int i < n \<and> n \<le> int i + int (length b)"
  by (induction i x b rule: uvarint_loop.induct) (auto split: if_splits)

lemma uvarint_bound: "uvarint b = (v, n) \<Longrightarrow> 0 < n \<Longrightarrow> 0 < nat n \<and> nat n \<le> length b"
  using uvarint_loop_bound [of 0 0 b v n] by (simp add: uvarint_def)

text \<open>The encoding reads back: seven bits at each place.\<close>

lemma and_7F: "(w :: 'a::len word) AND 0x7F = take_bit 7 w"
proof -
  have "(0x7F :: 'a word) = mask 7" by (simp add: mask_eq_exp_minus_1)
  then show ?thesis by (simp add: take_bit_eq_mask)
qed

lemma low_byte: "ucast ((ucast v OR 0x80 :: byte) AND 0x7F) = (take_bit 7 v :: u64)"
proof -
  have "(ucast v OR 0x80 :: byte) AND 0x7F = take_bit 7 (ucast v)"
    by (simp add: and_7F take_bit_or)
  then show ?thesis by (simp add: unsigned_take_bit_eq unsigned_ucast_eq)
qed

lemma high_byte: "\<not> (ucast v OR 0x80 :: byte) < 0x80"
proof -
  have "uint (0x80 :: byte) \<le> uint (ucast v OR 0x80 :: byte)"
    using or_greater_eq [of "uint (ucast v :: byte)" "uint (0x80 :: byte)"] by (simp only: unsigned_or_eq or.commute uint_ge_0)
  then show ?thesis by (simp add: word_less_def)
qed

lemma seven_bits: "push_bit k (take_bit 7 v) OR push_bit (7 + k) (drop_bit 7 v) = push_bit k (v :: u64)"
proof -
  have "take_bit 7 v OR push_bit 7 (drop_bit 7 v) = v" by (rule bit_word_eqI) (auto simp: bit_simps, metis add_diff_inverse_nat)
  then show ?thesis by (metis push_bit_or push_bit_push_bit add.commute)
qed

lemma small_byte: "v < 0x80 \<Longrightarrow> unat (ucast v :: byte) = unat (v :: u64)"
  by (simp add: unsigned_ucast_eq take_bit_nat_eq_self_iff word_less_nat_alt)

lemma uvarint_loop_append:
  "unat v < 2 ^ (64 - 7 * i) \<Longrightarrow> i \<le> 9 \<Longrightarrow>
   uvarint_loop i x (append_uvarint v @ rest) = (x OR push_bit (7 * i) v, int i + int (length (append_uvarint v)))"
proof (induction v arbitrary: i x rule: append_uvarint.induct)
  case (1 v)
  show ?case
  proof (cases "v < 0x80")
    case True
    have b: "unat (ucast v :: byte) = unat v" by (rule small_byte [OF True])
    then have "(ucast v :: byte) < 0x80" "ucast (ucast v :: byte) = v"
      using True by (simp_all add: word_less_nat_alt word_unat_eq_iff unsigned_ucast_eq unsigned_take_bit_eq)
    moreover have "\<not> (i = 9 \<and> (ucast v :: byte) > 1)"
      using "1.prems"(1) b by (auto simp: word_less_nat_alt)
    moreover have "append_uvarint v = [ucast v]" using True by (subst append_uvarint.simps) simp
    ultimately show ?thesis using "1.prems"(2) by simp
  next
    case False
    have "128 \<le> unat v" using False by (simp add: word_less_nat_alt)
    then have "i \<noteq> 9" using "1.prems"(1) by auto
    then have i: "i \<le> 8" using "1.prems"(2) by simp
    have d: "unat (drop_bit 7 v) = unat v div 128" by (simp add: drop_bit_eq_div unat_div_distrib)
    have "64 - 7 * i = 64 - 7 * Suc i + 7" using i by simp
    then have e: "(2 :: nat) ^ (64 - 7 * i) = 2 ^ (64 - 7 * Suc i) * 128" by (simp only: power_add) simp
    have "unat (drop_bit 7 v) < 2 ^ (64 - 7 * Suc i)"
      using "1.prems"(1) unfolding d e by (simp add: div_less_iff_less_mult)
    from "1.IH" [OF False this] i
    have "uvarint_loop (Suc i) (x OR push_bit (7 * i) (take_bit 7 v)) (append_uvarint (drop_bit 7 v) @ rest) =
        (x OR (push_bit (7 * i) (take_bit 7 v) OR push_bit (7 + 7 * i) (drop_bit 7 v)), int (Suc i) + int (length (append_uvarint (drop_bit 7 v))))"
      by (simp add: or.assoc)
    then show ?thesis
      using False i high_byte [of v] by (simp add: append_uvarint.simps [of v] low_byte seven_bits)
  qed
qed

lemma uvarint_append: "uvarint (append_uvarint v @ rest) = (v, int (length (append_uvarint v)))"
  using uvarint_loop_append [of v 0 0 rest] u64_bound [of v] by (simp add: uvarint_def)

lemma uvarint_le_10: "uvarint_loop i x b = (v, n) \<Longrightarrow> i \<le> 10 \<Longrightarrow> n \<le> 10"
  by (induction i x b rule: uvarint_loop.induct) (auto split: if_splits)

lemma length_append_uvarint: "length (append_uvarint v) \<le> 10"
  using uvarint_le_10 [of 0 0 "append_uvarint v @ []"] uvarint_append [of v "[]"] by (simp add: uvarint_def)

lemma append_uvarint_nonempty [simp]: "append_uvarint v \<noteq> []"
  by (subst append_uvarint.simps) simp

section \<open>Fields\<close>

definition append_bytes_field :: "bytes \<Rightarrow> u64 \<Rightarrow> bytes \<Rightarrow> bytes" where
  "append_bytes_field b field v = b @ append_uvarint (push_bit 3 field OR 2) @ append_uvarint (of_nat (length v)) @ v"

text \<open>The fields in the order in which \<^verbatim>\<open>walkFields\<close> calls its function.\<close>

function walk_fields :: "bytes \<Rightarrow> err + (u64 \<times> bytes) list" where
  "walk_fields b =
     (if b = [] then Inr [] else
      let (tag, n) = uvarint b in
      if n \<le> 0 then Inl (ErrOther ''bad tag'') else
      let b = drop (nat n) b in
      if tag AND 7 = 0 then
        (let (_, n) = uvarint b in
         if n \<le> 0 then Inl (ErrOther ''bad varint'') else walk_fields (drop (nat n) b))
      else if tag AND 7 = 1 then
        (if length b < 8 then Inl (ErrOther ''truncated fixed64'') else walk_fields (drop 8 b))
      else if tag AND 7 = 5 then
        (if length b < 4 then Inl (ErrOther ''truncated fixed32'') else walk_fields (drop 4 b))
      else if tag AND 7 = 2 then
        (let (l, n) = uvarint b in
         if n \<le> 0 \<or> l > of_nat (length b - nat n) then Inl (ErrOther ''bad length'')
         else map_sum id ((#) (drop_bit 3 tag, take (unat l) (drop (nat n) b)))
                (walk_fields (drop (nat n + unat l) b)))
      else Inl (ErrOther ''unsupported wire type''))"
  by pat_completeness auto

termination walk_fields
proof (relation "measure length", goal_cases)
  case 1
  show ?case by simp
qed (auto dest!: uvarint_bound)

declare walk_fields.simps [simp del]

definition field_tag :: "u64 \<Rightarrow> bool" where
  "field_tag f \<longleftrightarrow> (push_bit 3 f OR 2) AND 7 = 2 \<and> drop_bit 3 (push_bit 3 f OR 2) = f"

lemma walk_field:
  assumes "field_tag f" and "length v + length rest < 2 ^ 63"
  shows "walk_fields (append_bytes_field [] f v @ rest) = map_sum id ((#) (f, v)) (walk_fields rest)"
proof -
  let ?l = "append_uvarint (of_nat (length v))"
  have k: "unat (of_nat k :: u64) = k" if "k < 2 ^ 63" for k using that by (simp add: unat_of_nat)
  have l: "unat (of_nat (length v) :: u64) = length v" by (rule k) (use assms(2) in simp)
  have "unat (of_nat (length v + length rest) :: u64) = length v + length rest" by (rule k [OF assms(2)])
  then have n: "\<not> (of_nat (length v) :: u64) > of_nat (length v + length rest)" using l by (simp add: word_less_nat_alt)
  show ?thesis
    using assms(1) n l
    by (subst walk_fields.simps) (simp add: append_bytes_field_def uvarint_append field_tag_def Let_def)
qed

lemma walk_nothing [simp]: "walk_fields [] = Inr []"
  by (simp add: walk_fields.simps)

lemma append_bytes_field_more: "append_bytes_field b f v = b @ append_bytes_field [] f v"
  by (simp add: append_bytes_field_def)

lemma field_tags: "field_tag 1" "field_tag 2" "field_tag 10000"
  by (simp_all add: field_tag_def)

section \<open>Identifiers\<close>

text \<open>Hexadecimal digits mapped to the letters from \<^verbatim>\<open>a\<close> to \<^verbatim>\<open>p\<close>.\<close>

definition id_letter :: "char \<Rightarrow> char" where
  "id_letter c = (let n = of_char c :: nat in if 97 \<le> n then char_of (107 + (n - 97)) else char_of (97 + (n - 48)))"

definition id_from_crx_id :: "bytes \<Rightarrow> string" where
  "id_from_crx_id b = map id_letter (hex_encode b)"

record ('k, 'p) crx_prims =
  cx_sha256 :: "bytes \<Rightarrow> bytes"
  cx_public_der :: "'k \<Rightarrow> err + bytes"
  cx_sign :: "'k \<Rightarrow> bytes \<Rightarrow> err + bytes"
  cx_parse_public :: "bytes \<Rightarrow> err + 'p option"
  cx_verify :: "'p \<Rightarrow> bytes \<Rightarrow> bytes \<Rightarrow> bool"

definition extension_id :: "('k, 'p) crx_prims \<Rightarrow> bytes \<Rightarrow> string" where
  "extension_id C pub = id_from_crx_id (take 16 (cx_sha256 C pub))"

section \<open>Packing\<close>

definition crx_magic :: bytes where "crx_magic = str_bytes ''Cr24''"
definition crx_format :: u32 where "crx_format = 3"
definition signature_context :: bytes where "signature_context = str_bytes (''CRX3 SignedData'' @ [CHR 0x00])"
definition max_header_size :: u32 where "max_header_size = 1048576"
definition field_proof :: u64 where "field_proof = 2"
definition field_signed_header :: u64 where "field_signed_header = 10000"
definition field_public_key :: u64 where "field_public_key = 1"
definition field_signature :: u64 where "field_signature = 2"
definition field_crx_id :: u64 where "field_crx_id = 1"

lemmas crx_fields = field_proof_def field_signed_header_def field_public_key_def field_signature_def field_crx_id_def

definition signed_payload :: "bytes \<Rightarrow> bytes \<Rightarrow> bytes" where
  "signed_payload header archive = signature_context @ le32 (of_nat (length header)) @ header @ archive"

definition crx_pack :: "('k, 'p) crx_prims \<Rightarrow> bytes \<Rightarrow> 'k \<Rightarrow> err + bytes" where
  "crx_pack C archive key =
     sbind (cx_public_der C key) (\<lambda>pub.
     let signed_header = append_bytes_field [] field_crx_id (take 16 (cx_sha256 C pub));
         digest = cx_sha256 C (signed_payload signed_header archive) in
     sbind (cx_sign C key digest) (\<lambda>sig.
     let prf = append_bytes_field (append_bytes_field [] field_public_key pub) field_signature sig;
         header = append_bytes_field (append_bytes_field [] field_proof prf) field_signed_header signed_header in
     Inr (crx_magic @ le32 crx_format @ le32 (of_nat (length header)) @ header @ archive)))"

section \<open>Verifying\<close>

record crx_package =
  cp_id :: string
  cp_public_key :: bytes
  cp_archive :: bytes

definition fields_named :: "u64 \<Rightarrow> (u64 \<times> bytes) list \<Rightarrow> bytes list" where
  "fields_named f fs = map snd (filter (\<lambda>(g, _). g = f) fs)"

definition last_field :: "u64 \<Rightarrow> (u64 \<times> bytes) list \<Rightarrow> bytes" where
  "last_field f fs = (case fields_named f fs of [] \<Rightarrow> [] | v # vs \<Rightarrow> last (v # vs))"

fun check_proofs :: "('k, 'p) crx_prims \<Rightarrow> bytes \<Rightarrow> bytes \<Rightarrow> bytes list \<Rightarrow> bytes option \<Rightarrow> err + bytes option" where
  "check_proofs C digest crx_id [] found = Inr found"
| "check_proofs C digest crx_id (p # ps) found =
     sbind (walk_fields p) (\<lambda>fs.
     let pub = last_field field_public_key fs; sig = last_field field_signature fs in
     sbind (cx_parse_public C pub) (\<lambda>k. case k of
       None \<Rightarrow> Inl (ErrOther ''proof key is not RSA'')
     | Some rk \<Rightarrow>
         if \<not> cx_verify C rk digest sig then Inl (ErrOther ''signature does not verify'')
         else check_proofs C digest crx_id ps (if take 16 (cx_sha256 C pub) = crx_id then Some pub else found)))"

definition crx_verify :: "('k, 'p) crx_prims \<Rightarrow> bytes \<Rightarrow> err + crx_package" where
  "crx_verify C data =
     (if length data < 12 \<or> take 4 data \<noteq> crx_magic then Inl (ErrOther ''not a CRX file'') else
      if of_le32 (take 4 (drop 4 data)) \<noteq> crx_format then Inl (ErrOther ''unsupported CRX version'') else
      let n = of_le32 (take 4 (drop 8 data)) in
      if n > max_header_size \<or> (ucast n :: u64) > of_nat (length data - 12) then Inl (ErrOther ''header size out of range'') else
      let header = take (unat n) (drop 12 data); archive = drop (unat n) (drop 12 data) in
      sbind (walk_fields header) (\<lambda>fs.
      let proofs = fields_named field_proof fs; signed_header = last_field field_signed_header fs in
      sbind (walk_fields signed_header) (\<lambda>gs.
      let crx_id = last_field field_crx_id gs in
      if length crx_id \<noteq> 16 then Inl (ErrOther ''missing crx_id'') else
      if proofs = [] then Inl (ErrOther ''no RSA proof'') else
      let digest = cx_sha256 C (signed_payload signed_header archive) in
      sbind (check_proofs C digest crx_id proofs None) (\<lambda>found. case found of
        None \<Rightarrow> Inl (ErrOther ''no proof from the key matching crx_id'')
      | Some key \<Rightarrow> Inr \<lparr>cp_id = id_from_crx_id crx_id, cp_public_key = key, cp_archive = archive\<rparr>))))"

text \<open>What the keys of the library promise.\<close>

definition crx_agrees :: "('k, 'p) crx_prims \<Rightarrow> bool" where
  "crx_agrees C \<longleftrightarrow>
     (\<forall>b. length (cx_sha256 C b) = 32) \<and>
     (\<forall>key pub d sig. cx_public_der C key = Inr pub \<longrightarrow> cx_sign C key d = Inr sig \<longrightarrow>
        (\<exists>rk. cx_parse_public C pub = Inr (Some rk) \<and> cx_verify C rk d sig))"

lemma check_proofs_Some:
  assumes "check_proofs C digest crx_id ps found = Inr (Some key)" and "found \<noteq> Some key"
  shows "\<exists>rk sig. cx_parse_public C key = Inr (Some rk) \<and> cx_verify C rk digest sig \<and> take 16 (cx_sha256 C key) = crx_id"
  using assms
proof (induction ps arbitrary: found)
  case (Cons p ps)
  from Cons.prems(1) obtain fs rk where fs: "walk_fields p = Inr fs" "cx_parse_public C (last_field field_public_key fs) = Inr (Some rk)"
    "cx_verify C rk digest (last_field field_signature fs)"
    "check_proofs C digest crx_id ps (if take 16 (cx_sha256 C (last_field field_public_key fs)) = crx_id
       then Some (last_field field_public_key fs) else found) = Inr (Some key)"
    by (auto simp: sbind_Inr_iff Let_def split: option.splits if_splits)
  show ?case
  proof (cases "take 16 (cx_sha256 C (last_field field_public_key fs)) = crx_id \<and> last_field field_public_key fs = key")
    case True
    then show ?thesis using fs(2,3) by auto
  next
    case False
    show ?thesis by (rule Cons.IH [OF fs(4)]) (use False Cons.prems(2) in auto)
  qed
qed simp

text \<open>A verified package was signed, archive and all, with the key its identifier names.\<close>

lemma crx_verify_Inr:
  assumes "crx_verify C data = Inr pkg"
  shows "cp_id pkg = extension_id C (cp_public_key pkg) \<and>
    (\<exists>rk sig header. cx_parse_public C (cp_public_key pkg) = Inr (Some rk) \<and>
       cx_verify C rk (cx_sha256 C (signed_payload header (cp_archive pkg))) sig) \<and>
    (\<exists>front. data = front @ cp_archive pkg)"
proof -
  define n where "n = of_le32 (take 4 (drop 8 data))"
  define archive where "archive = drop (unat n) (drop 12 data)"
  from assms obtain fs gs found where v: "walk_fields (last_field field_signed_header fs) = Inr gs"
    "check_proofs C (cx_sha256 C (signed_payload (last_field field_signed_header fs) archive)) (last_field field_crx_id gs)
       (fields_named field_proof fs) None = Inr (Some found)"
    "pkg = \<lparr>cp_id = id_from_crx_id (last_field field_crx_id gs), cp_public_key = found, cp_archive = archive\<rparr>"
    by (auto simp: crx_verify_def sbind_Inr_iff Let_def n_def archive_def split: if_splits option.splits)
  from check_proofs_Some [OF v(2)] v(3) have k: "take 16 (cx_sha256 C (cp_public_key pkg)) = last_field field_crx_id gs"
    "\<exists>rk sig. cx_parse_public C (cp_public_key pkg) = Inr (Some rk) \<and>
       cx_verify C rk (cx_sha256 C (signed_payload (last_field field_signed_header fs) (cp_archive pkg))) sig" by auto
  have "data = take 12 data @ take (unat n) (drop 12 data) @ archive"
    unfolding archive_def append_take_drop_id ..
  then have "\<exists>front. data = front @ archive" by (metis append.assoc)
  with k v(3) show ?thesis by (auto simp: extension_id_def)
qed

text \<open>What is packed verifies, and unpacks to the archive and the key's identifier.\<close>

lemma crx_pack_verifies:
  assumes "crx_agrees C" and "crx_pack C archive key = Inr data" and "cx_public_der C key = Inr pub"
    and "\<And>d sig. cx_sign C key d = Inr sig \<Longrightarrow> length pub + length sig \<le> 2 ^ 19" and "length archive < 2 ^ 62"
  shows "crx_verify C data = Inr \<lparr>cp_id = extension_id C pub, cp_public_key = pub, cp_archive = archive\<rparr>"
proof -
  let ?id = "take 16 (cx_sha256 C pub)"
  define sh where "sh = append_bytes_field [] field_crx_id ?id"
  from assms(2,3) obtain sig where sig: "cx_sign C key (cx_sha256 C (signed_payload sh archive)) = Inr sig"
    by (auto simp: crx_pack_def sbind_Inr_iff Let_def sh_def)
  define pf where "pf = append_bytes_field (append_bytes_field [] field_public_key pub) field_signature sig"
  define header where "header = append_bytes_field (append_bytes_field [] field_proof pf) field_signed_header sh"
  have data: "data = crx_magic @ le32 crx_format @ le32 (of_nat (length header)) @ header @ archive"
    using assms(2,3) sig by (simp add: crx_pack_def Let_def sh_def [symmetric] pf_def header_def)
  have b: "length pub + length sig \<le> 2 ^ 19" by (rule assms(4) [OF sig])
  have id16: "length ?id = 16" using assms(1) by (simp add: crx_agrees_def)
  have lf: "length (append_bytes_field b f v) \<le> length b + 20 + length v" for b f v
    using length_append_uvarint [of "push_bit 3 f OR 2"] length_append_uvarint [of "of_nat (length v)"]
    by (simp add: append_bytes_field_def)
  have lsh: "length sh \<le> 36" using lf [of "[]" field_crx_id ?id] id16 by (simp add: sh_def)
  have lpf: "length pf \<le> 40 + length pub + length sig"
    using lf [of "[]" field_public_key pub] lf [of "append_bytes_field [] field_public_key pub" field_signature sig] by (simp add: pf_def)
  have lh: "length header \<le> 2 ^ 20"
    using lf [of "[]" field_proof pf] lf [of "append_bytes_field [] field_proof pf" field_signed_header sh] lsh lpf b
    by (simp add: header_def)
  have n: "unat (of_nat (length header) :: u32) = length header" using lh by (simp add: unat_of_nat)
  have wsh: "walk_fields sh = Inr [(field_crx_id, ?id)]"
    using walk_field [of field_crx_id ?id "[]"] field_tags id16 by (simp add: sh_def crx_fields)
  have wpf: "walk_fields pf = Inr [(field_public_key, pub), (field_signature, sig)]"
    using walk_field [of field_public_key pub "append_bytes_field [] field_signature sig"] walk_field [of field_signature sig "[]"] field_tags b
      lf [of "[]" field_signature sig]
    unfolding pf_def append_bytes_field_more [of "append_bytes_field [] field_public_key pub"] by (simp add: crx_fields)
  have wh: "walk_fields header = Inr [(field_proof, pf), (field_signed_header, sh)]"
    using walk_field [of field_proof pf "append_bytes_field [] field_signed_header sh"] walk_field [of field_signed_header sh "[]"] field_tags b
      lf [of "[]" field_signed_header sh] lsh lpf
    unfolding header_def append_bytes_field_more [of "append_bytes_field [] field_proof pf"] by (simp add: crx_fields)
  obtain rk where rk: "cx_parse_public C pub = Inr (Some rk)" "cx_verify C rk (cx_sha256 C (signed_payload sh archive)) sig"
    using assms(1,3) sig unfolding crx_agrees_def by blast
  have cp: "check_proofs C (cx_sha256 C (signed_payload sh archive)) ?id [pf] None = Inr (Some pub)"
    using rk by (simp add: wpf last_field_def fields_named_def crx_fields)
  have k: "unat (of_nat k :: u64) = k" if "k < 2 ^ 63" for k using that by (simp add: unat_of_nat)
  have dl: "length data - 12 = length header + length archive" by (simp add: data crx_magic_def)
  have "unat (of_nat (length header + length archive) :: u64) = length header + length archive"
    by (rule k) (use lh assms(5) in simp)
  then have fits: "\<not> ((ucast (of_nat (length header) :: u32) :: u64) > of_nat (length data - 12))"
    using n unfolding dl word_less_nat_alt by simp
  have small: "\<not> (of_nat (length header) :: u32) > max_header_size"
    using lh n by (simp add: max_header_size_def word_less_nat_alt)
  have parts: "take 4 data = crx_magic" "take 4 (drop 4 data) = le32 crx_format" "take 4 (drop 8 data) = le32 (of_nat (length header))"
    "drop 12 data = header @ archive" "\<not> length data < 12"
    by (simp_all add: data crx_magic_def)
  have "last_field field_signed_header [(field_proof, pf), (field_signed_header, sh)] = sh"
    "fields_named field_proof [(field_proof, pf), (field_signed_header, sh)] = [pf]" "last_field field_crx_id [(field_crx_id, ?id)] = ?id"
    by (simp_all add: last_field_def fields_named_def crx_fields)
  then show ?thesis
    using fits small n wh wsh cp id16 unfolding crx_verify_def
    by (simp add: parts Let_def extension_id_def del: check_proofs.simps)
qed

section \<open>Identifiers are faithful\<close>

lemma id_letter_digit:
  assumes "n < 16"
  shows "id_letter (hex_digit n) = char_of (97 + n)"
proof (cases "n < 10")
  case True
  then have "(of_char (hex_digit n) :: nat) = 48 + n" by (simp add: hex_digit_def)
  with True show ?thesis by (simp add: id_letter_def)
next
  case False
  then have "(of_char (hex_digit n) :: nat) = 87 + n" using assms by (simp add: hex_digit_def)
  with False show ?thesis by (simp add: id_letter_def)
qed

lemma id_from_crx_id_eq:
  "id_from_crx_id b = concat (map (\<lambda>w. [char_of (97 + unat w div 16), char_of (97 + unat w mod 16)]) b)"
proof (induction b)
  case (Cons w b)
  have "unat w div 16 < 16" using byte_bound [of w] by linarith
  with Cons show ?case by (simp add: id_from_crx_id_def hex_encode_def id_letter_digit)
qed (simp add: id_from_crx_id_def hex_encode_def)

lemma id_from_crx_id_inject: "id_from_crx_id b = id_from_crx_id c \<longleftrightarrow> b = c"
proof
  show "id_from_crx_id b = id_from_crx_id c \<Longrightarrow> b = c"
  proof (induction b arbitrary: c)
    case Nil
    then show ?case by (cases c) (simp_all add: id_from_crx_id_eq)
  next
    case (Cons w b)
    then obtain v d where c: "c = v # d" by (cases c) (simp_all add: id_from_crx_id_eq)
    have l: "97 + unat x div 16 < 256" "97 + unat x mod 16 < 256" for x :: byte
      using byte_bound [of x] by linarith+
    from Cons.prems have e: "char_of (97 + unat w div 16) = (char_of (97 + unat v div 16) :: char)"
      "char_of (97 + unat w mod 16) = (char_of (97 + unat v mod 16) :: char)" "id_from_crx_id b = id_from_crx_id d"
      by (simp_all add: id_from_crx_id_eq c)
    have "unat w div 16 = unat v div 16" "unat w mod 16 = unat v mod 16"
      using arg_cong [OF e(1), of "of_char :: char \<Rightarrow> nat"] arg_cong [OF e(2), of "of_char :: char \<Rightarrow> nat"] l by simp_all
    then have "unat w = unat v" by (metis div_mult_mod_eq)
    then show ?case using Cons.IH [OF e(3)] by (simp add: c word_unat_eq_iff)
  qed
qed simp

lemma length_id_from_crx_id: "length (id_from_crx_id b) = 2 * length b"
  by (induction b) (simp_all add: id_from_crx_id_eq)

section \<open>A concrete signature\<close>

definition plain_crx :: "(bytes, bytes) crx_prims" where
  "plain_crx = \<lparr>cx_sha256 = (\<lambda>b. take 32 (b @ replicate 32 0)), cx_public_der = Inr, cx_sign = (\<lambda>k d. Inr (k @ take 32 d)),
     cx_parse_public = (\<lambda>p. Inr (Some p)), cx_verify = (\<lambda>p d s. s = p @ take 32 d)\<rparr>"

lemma plain_crx_agrees: "crx_agrees plain_crx"
  by (auto simp: crx_agrees_def plain_crx_def min_def)

lemma plain_crx_packs: "\<exists>data. crx_pack plain_crx archive key = Inr data"
  by (simp add: crx_pack_def plain_crx_def Let_def)

end
