(* ===== verification/Browsers.thy ===== *)
theory Browsers
  imports Files Extension Native
begin

unbundle bit_operations_syntax

text \<open>
  The browsers the command line can set up and what it installs from
  (\<^verbatim>\<open>internal/install/{browser,chromium,chrome,lookup}.go\<close>): the identities of the prod and dev
  extension, the registered browsers with their folders, and the search for the native host, the
  signed package and the unpacked extension. The process's surroundings (variables, home and
  working folder, path of the binary, \<^verbatim>\<open>PATH\<close>) are a parameter, like JSON and ZIP.
\<close>

section \<open>Identities\<close>

record identity =
  id_host_name :: string
  id_extension_id :: string

definition chrome_extension_id :: string where "chrome_extension_id = ''legbdpcjojmfelbcjfelmdelnjcnpllc''"
definition native_host_name :: string where "native_host_name = ''dev.albear.native''"
definition dev_extension_id :: string where "dev_extension_id = ''ohcnnpelgjehhoejpajdkmeejklpaden''"
definition dev_native_host_name :: string where "dev_native_host_name = ''dev.albear.native_dev''"

definition default_identity :: identity where
  "default_identity = \<lparr>id_host_name = native_host_name, id_extension_id = chrome_extension_id\<rparr>"

definition dev_identity :: identity where
  "dev_identity = \<lparr>id_host_name = dev_native_host_name, id_extension_id = dev_extension_id\<rparr>"

definition identity_for :: "environment \<Rightarrow> identity" where
  "identity_for env = (if env = Dev then dev_identity else default_identity)"

definition or_default :: "identity \<Rightarrow> identity" where
  "or_default i = (if i = \<lparr>id_host_name = '''', id_extension_id = ''''\<rparr> then default_identity else i)"

section \<open>Surroundings and options\<close>

record host =
  ho_getenv :: "string \<Rightarrow> string option"
  ho_home :: "err + string"
  ho_linux :: bool
  ho_exe :: "err + string"
  ho_cwd :: "err + string"
  ho_look_path :: "err + string"

record options =
  op_native_host_path :: string
  op_extension_dir :: string
  op_crx_path :: string
  op_print_only :: bool
  op_identity :: identity
  op_system_root :: string

definition system_path :: "options \<Rightarrow> string \<Rightarrow> string" where
  "system_path o' p = (if op_system_root o' = '''' then p else path_join [op_system_root o', p])"

section \<open>Browsers\<close>

record browser =
  br_name :: string
  br_config_dir :: string
  br_external :: bool
  br_system_dir :: string

definition chromium :: browser where
  "chromium = \<lparr>br_name = ''chromium'', br_config_dir = ''chromium'', br_external = True, br_system_dir = ''''\<rparr>"
definition brave :: browser where
  "brave = \<lparr>br_name = ''brave'', br_config_dir = path_join [''BraveSoftware'', ''Brave-Browser''],
     br_external = True, br_system_dir = ''''\<rparr>"
definition helium :: browser where
  "helium = \<lparr>br_name = ''helium'', br_config_dir = ''net.imput.helium'', br_external = True, br_system_dir = ''''\<rparr>"
definition chrome :: browser where
  "chrome = \<lparr>br_name = ''chrome'', br_config_dir = ''google-chrome'', br_external = False,
     br_system_dir = ''/usr/share/google-chrome/extensions''\<rparr>"

text \<open>The registry is a map by name; it is filled when the package is initialised.\<close>

definition register :: "browser \<Rightarrow> (string \<times> browser) list \<Rightarrow> (string \<times> browser) list" where
  "register b reg = AList.update (br_name b) b reg"

definition registry :: "(string \<times> browser) list" where
  "registry = fold register [chrome, chromium, brave, helium] []"

definition get_browser :: "string \<Rightarrow> err + browser" where
  "get_browser name = (case map_of registry name of Some b \<Rightarrow> Inr b | None \<Rightarrow> Inl (ErrOther ''unknown browser''))"

definition browser_names :: "string list" where
  "browser_names = sort (map fst registry)"

definition all_browsers :: "browser list" where
  "all_browsers = map (\<lambda>n. the (map_of registry n)) browser_names"

definition config_dir :: "host \<Rightarrow> browser \<Rightarrow> err + string" where
  "config_dir H b =
     (if \<not> ho_linux H then Inl (ErrOther ''only Linux current-user installs are supported'') else
      let v = env_or (ho_getenv H) ''XDG_CONFIG_HOME'' '''' in
      sbind (if v = '''' then sbind (ho_home H) (\<lambda>h. Inr (path_join [h, ''.config''])) else Inr v) (\<lambda>config.
      Inr (path_join [config, br_config_dir b])))"

definition native_hosts_dir :: "host \<Rightarrow> browser \<Rightarrow> err + string" where
  "native_hosts_dir H b = sbind (config_dir H b) (\<lambda>c. Inr (path_join [c, ''NativeMessagingHosts'']))"

definition build_allowed_origins :: "string \<Rightarrow> string list" where
  "build_allowed_origins i = [''chrome-extension://'' @ i @ ''/'']"

definition validate_extension_id :: "string \<Rightarrow> err option" where
  "validate_extension_id i =
     (if length i \<noteq> 32 then Some (ErrOther ''extension ID must be 32 characters'')
      else if \<forall>c \<in> set i. CHR ''a'' \<le> c \<and> c \<le> CHR ''p'' then None
      else Some (ErrOther ''extension ID contains invalid character''))"

definition detect :: "host \<Rightarrow> browser \<Rightarrow> ('a fsys_scheme, err, bool) prog" where
  "detect H b =
     mbind (mlift (config_dir H b)) (\<lambda>dir.
     mbind (fs_stat dir) (\<lambda>n. mreturn (case n of Some (Dir _) \<Rightarrow> True | _ \<Rightarrow> False)))"

definition manifest_path :: "host \<Rightarrow> browser \<Rightarrow> identity \<Rightarrow> err + string" where
  "manifest_path H b i = sbind (native_hosts_dir H b) (\<lambda>d. Inr (path_join [d, id_host_name i @ ''.json'']))"

section \<open>Manifests of the extension\<close>

record manifest =
  mf_name :: string
  mf_version :: string
  mf_key :: string

record lookup_prims =
  lk_json :: "bytes \<Rightarrow> err + manifest"
  lk_unzip :: "bytes \<Rightarrow> err + bytes"

definition decode_manifest :: "lookup_prims \<Rightarrow> bytes \<Rightarrow> err + manifest" where
  "decode_manifest L raw =
     sbind (lk_json L raw) (\<lambda>m. if mf_version m = '''' then Inl (ErrOther ''manifest.json has no version'') else Inr m)"

text \<open>The archive's \<^verbatim>\<open>manifest.json\<close> comes out of the parameter for ZIP.\<close>

definition read_manifest :: "lookup_prims \<Rightarrow> bytes \<Rightarrow> err + manifest" where
  "read_manifest L archive = sbind (lk_unzip L archive) (decode_manifest L)"

definition read_manifest_file :: "lookup_prims \<Rightarrow> string \<Rightarrow> ('a fsys_scheme, err, manifest) prog" where
  "read_manifest_file L dir =
     mbind (fs_read (path_join [dir, ''manifest.json''])) (\<lambda>raw. mlift (decode_manifest L raw))"

section \<open>Finding things\<close>

definition package_crx :: string where "package_crx = ''/usr/share/albear/albear.crx''"
definition package_extension_dir :: string where "package_extension_dir = ''/usr/share/albear/extension''"
definition package_native_host :: string where "package_native_host = ''/usr/bin/vault-native''"
definition repo_crx :: string where "repo_crx = ''extension/albear.crx''"
definition repo_extension_dir :: string where "repo_extension_dir = ''extension/dist''"

record found_crx =
  fc_path :: string
  fc_version :: string
  fc_data :: bytes

definition no_crx :: found_crx where "no_crx = \<lparr>fc_path = '''', fc_version = '''', fc_data = []\<rparr>"

definition exe_dir :: "host \<Rightarrow> string" where
  "exe_dir H = (case ho_exe H of Inl _ \<Rightarrow> '''' | Inr e \<Rightarrow> path_dir e)"

definition cwd_path :: "host \<Rightarrow> string \<Rightarrow> string" where
  "cwd_path H rel = (case ho_cwd H of Inl _ \<Rightarrow> '''' | Inr d \<Rightarrow> path_join [d, rel])"

definition abs_path :: "host \<Rightarrow> string \<Rightarrow> err + string" where
  "abs_path H p =
     (if is_rooted p then Inr (clean_path p) else sbind (ho_cwd H) (\<lambda>d. Inr (path_join [d, p])))"

definition clean_existing_file :: "'u unicode_tables_scheme \<Rightarrow> host \<Rightarrow> string \<Rightarrow> ('a fsys_scheme, err, string) prog" where
  "clean_existing_file U H path =
     mbind (mguard (trim_space U path \<noteq> '''') (ErrOther ''empty path'')) (\<lambda>_.
     mbind (mlift (abs_path H path)) (\<lambda>p.
     mbind (fs_lookup p) (\<lambda>n.
     mbind (mguard (\<forall>d. n \<noteq> Dir d) (ErrOther ''native host path is a directory'')) (\<lambda>_.
     mbind (mguard (node_mode n AND 73 \<noteq> 0) (ErrOther ''native host is not executable'')) (\<lambda>_.
     mreturn p)))))"

text \<open>The first candidate that is acceptable.\<close>

fun first_found :: "(string \<Rightarrow> ('s, err, 'r) prog) \<Rightarrow> string list \<Rightarrow> ('s, err, 'r option) prog" where
  "first_found try [] = mreturn None"
| "first_found try (c # cs) =
     mbind (attempt (try c)) (\<lambda>r. case r of Inr x \<Rightarrow> mreturn (Some x) | Inl _ \<Rightarrow> first_found try cs)"

definition resolve_native_host ::
  "'u unicode_tables_scheme \<Rightarrow> host \<Rightarrow> options \<Rightarrow> ('a fsys_scheme, err, string) prog" where
  "resolve_native_host U H o' =
     (if op_native_host_path o' \<noteq> '''' then clean_existing_file U H (op_native_host_path o')
      else mbind (first_found (clean_existing_file U H)
          ((if exe_dir H \<noteq> '''' then [path_join [exe_dir H, ''vault-native'']] else []) @
           [cwd_path H ''vault-native'', system_path o' package_native_host])) (\<lambda>r. case r of
        Some p \<Rightarrow> mreturn p
      | None \<Rightarrow> (case ho_look_path H of
            Inr p \<Rightarrow> clean_existing_file U H p
          | Inl _ \<Rightarrow> mthrow (ErrOther ''could not find vault-native''))))"

definition read_crx ::
  "('k, 'p) crx_prims \<Rightarrow> lookup_prims \<Rightarrow> string \<Rightarrow> identity \<Rightarrow> ('a fsys_scheme, err, found_crx) prog" where
  "read_crx C L path i =
     mbind (fs_read path) (\<lambda>data.
     mbind (mlift (crx_verify C data)) (\<lambda>pkg.
     mbind (mguard (cp_id pkg = id_extension_id i) (ErrOther ''signed for another extension'')) (\<lambda>_.
     mbind (mlift (read_manifest L (cp_archive pkg))) (\<lambda>m.
     mreturn \<lparr>fc_path = path, fc_version = mf_version m, fc_data = data\<rparr>))))"

definition resolve_crx ::
  "('k, 'p) crx_prims \<Rightarrow> lookup_prims \<Rightarrow> host \<Rightarrow> options \<Rightarrow> identity \<Rightarrow> ('a fsys_scheme, err, found_crx) prog" where
  "resolve_crx C L H o' i =
     (if op_crx_path o' \<noteq> '''' then mbind (mlift (abs_path H (op_crx_path o'))) (\<lambda>p. read_crx C L p i)
      else mbind (first_found (\<lambda>p. read_crx C L p i) (filter (\<lambda>p. p \<noteq> '''')
          ([system_path o' package_crx, cwd_path H repo_crx] @
           (if exe_dir H \<noteq> '''' then [path_join [exe_dir H, ''albear.crx'']] else [])))) (\<lambda>r.
        mreturn (case r of Some x \<Rightarrow> x | None \<Rightarrow> no_crx)))"

text \<open>\<^verbatim>\<open>extensionDirIs\<close>, as a program that fails where the code answers false.\<close>

definition extension_dir_is ::
  "('k, 'p) crx_prims \<Rightarrow> lookup_prims \<Rightarrow> identity \<Rightarrow> string \<Rightarrow> ('a fsys_scheme, err, string) prog" where
  "extension_dir_is C L i dir =
     mbind (read_manifest_file L dir) (\<lambda>m.
     mbind (mguard (mf_key m \<noteq> '''') (ErrOther ''no key'')) (\<lambda>_.
     case b64_decode (mf_key m) of
       None \<Rightarrow> mthrow (ErrOther ''encoding/base64'')
     | Some der \<Rightarrow>
         mbind (mguard (extension_id C der = id_extension_id i) (ErrOther ''another extension'')) (\<lambda>_.
         mreturn dir)))"

definition resolve_extension_dir ::
  "('k, 'p) crx_prims \<Rightarrow> lookup_prims \<Rightarrow> host \<Rightarrow> options \<Rightarrow> identity \<Rightarrow> ('a fsys_scheme, err, string) prog" where
  "resolve_extension_dir C L H o' i =
     (if op_extension_dir o' \<noteq> '''' then
        mbind (mlift (abs_path H (op_extension_dir o'))) (\<lambda>p.
        mbind (fs_lookup p) (\<lambda>n.
        mbind (mguard (\<exists>d. n = Dir d) (ErrOther ''extension path is not a directory'')) (\<lambda>_.
        mreturn p)))
      else mbind (first_found (extension_dir_is C L i) (filter (\<lambda>p. p \<noteq> '''')
          ([system_path o' package_extension_dir, cwd_path H repo_extension_dir] @
           (if exe_dir H \<noteq> '''' then [path_join [exe_dir H, ''extension'']] else [])))) (\<lambda>r.
        mreturn (case r of Some d \<Rightarrow> d | None \<Rightarrow> '''')))"

end
