(* ===== verification/Install.thy ===== *)
theory Install
  imports Browsers
begin

text \<open>
  Installing into a browser and removing from it (\<^verbatim>\<open>Install\<close>, \<^verbatim>\<open>InstallDetected\<close> and
  \<^verbatim>\<open>Uninstall\<close> of \<^verbatim>\<open>internal/install/browser.go\<close>, and
  \<^verbatim>\<open>internal/install/external.go\<close>): the manifest of the native host, the registration of the
  signed extension through files that are replaced atomically, and the command line that is
  printed for what needs root.
\<close>

section \<open>State and results\<close>

text \<open>The random part of a temporary name comes from the environment.\<close>

record installer = fsys +
  tmp_names :: "nat \<Rightarrow> string"
  tmp_count :: nat

record native_manifest =
  nm_name :: string
  nm_description :: string
  nm_path :: string
  nm_type :: string
  nm_allowed_origins :: "string list"

record external_pref =
  ep_crx :: string
  ep_version :: string

record install_json =
  ij_manifest :: "native_manifest \<Rightarrow> err + bytes"
  ij_pref :: "external_pref \<Rightarrow> err + bytes"
  ij_pref_line :: "external_pref \<Rightarrow> err + string"

datatype extension_status = ExtensionManual | ExtensionRegistered | ExtensionSystemPresent | ExtensionNeedsSudo

record install_result =
  in_browser :: string
  in_manifest_path :: string
  in_native_host_path :: string
  in_extension_dir :: string
  in_extension_id :: string
  in_wrote_manifest :: bool
  in_crx_path :: string
  in_version :: string
  in_extension :: extension_status
  in_external_path :: string
  in_wrote_external :: bool
  in_sudo :: string

record uninstall_result =
  un_browser :: string
  un_manifest_path :: string
  un_removed_manifest :: bool
  un_removed_external :: bool
  un_system_external :: string

section \<open>Quoting for the shell\<close>

definition safe_chars :: string where
  "safe_chars = ''abcdefghijklmnopqrstuvwxyzABCDEFGHIJKLMNOPQRSTUVWXYZ0123456789/._-+''"

definition quote_char :: char where "quote_char = CHR 0x27"

definition shell_quote :: "string \<Rightarrow> string" where
  "shell_quote s =
     (if s \<noteq> '''' \<and> dropWhile (\<lambda>c. c \<in> set safe_chars) s = '''' then s
      else quote_char # concat (map (\<lambda>c. if c = quote_char then [quote_char, CHR 0x5C, quote_char, quote_char] else [c]) s) @ [quote_char])"

definition sudo_command :: "install_json \<Rightarrow> string \<Rightarrow> external_pref \<Rightarrow> err + string" where
  "sudo_command J path pref =
     sbind (ij_pref_line J pref) (\<lambda>data.
     Inr (''sudo mkdir -p '' @ shell_quote (path_dir path) @ '' && printf '' @ [quote_char] @ ''%s'' @ [CHR 0x5C] @ ''n'' @ [quote_char] @ '' '' @
       shell_quote data @ '' | sudo tee '' @ shell_quote path @ '' >/dev/null''))"

section \<open>Replacing a file\<close>

definition temp_tries :: nat where "temp_tries = 10000"

definition next_temp :: "('a installer_scheme, err, string) prog" where
  "next_temp = (\<lambda>s. (Inr (tmp_names s (tmp_count s)), s\<lparr>tmp_count := Suc (tmp_count s)\<rparr>))"

text \<open>\<^verbatim>\<open>os.CreateTemp\<close>: a fresh name, tried 10000 times at most.\<close>

fun create_temp :: "nat \<Rightarrow> string \<Rightarrow> ('a installer_scheme, err, string) prog" where
  "create_temp 0 prefix = mthrow err_exist"
| "create_temp (Suc k) prefix =
     mbind next_temp (\<lambda>r.
     mbind (attempt (fs_create_excl (prefix @ r) 384)) (\<lambda>c. case c of
       Inr _ \<Rightarrow> mreturn (prefix @ r)
     | Inl e \<Rightarrow> if e = err_exist then create_temp k prefix else mthrow e))"

definition in_folder :: "string \<Rightarrow> string \<Rightarrow> string" where
  "in_folder d n = (if d \<noteq> '''' \<and> last d = CHR ''/'' then d @ n else d @ CHR ''/'' # n)"

definition temp_prefix :: "string \<Rightarrow> string" where
  "temp_prefix p = in_folder (path_dir p) (CHR ''.'' # path_base p @ ''.'')"

definition file_chmod :: "string \<Rightarrow> nat \<Rightarrow> ('a fsys_scheme, err, unit) prog" where
  "file_chmod p mode =
     mbind fs_op (\<lambda>_. mmodify (\<lambda>s. s\<lparr>fs_nodes := (fs_nodes s)(p := map_option (with_mode mode) (fs_nodes s p))\<rparr>))"

text \<open>After the temporary file is there: write, set the permissions, close, rename; an error of one of
  the first two closes the file before it is reported.\<close>

definition fill_and_move :: "string \<Rightarrow> string \<Rightarrow> bytes \<Rightarrow> ('a fsys_scheme, err, unit) prog" where
  "fill_and_move tmp p data =
     mbind (attempt (fs_write_new tmp 384 data)) (\<lambda>w. case w of
       Inl e \<Rightarrow> mbind (ignore_error fs_op) (\<lambda>_. mthrow e)
     | Inr _ \<Rightarrow>
     mbind (attempt (file_chmod tmp 420)) (\<lambda>m. case m of
       Inl e \<Rightarrow> mbind (ignore_error fs_op) (\<lambda>_. mthrow e)
     | Inr _ \<Rightarrow>
     mbind fs_op (\<lambda>_. fs_rename tmp p)))"

definition write_file_atomic :: "string \<Rightarrow> bytes \<Rightarrow> ('a installer_scheme, err, unit) prog" where
  "write_file_atomic p data =
     mbind (create_temp temp_tries (temp_prefix p)) (\<lambda>tmp.
     mbind (attempt (fill_and_move tmp p data)) (\<lambda>r.
     mbind (ignore_error (fs_remove_existing tmp)) (\<lambda>_.
     mlift r)))"

section \<open>External extensions\<close>

definition external_paths :: "host \<Rightarrow> browser \<Rightarrow> identity \<Rightarrow> err + string \<times> string" where
  "external_paths H b i =
     sbind (config_dir H b) (\<lambda>config.
     let dir = path_join [config, ''External Extensions''] in
     Inr (path_join [dir, id_extension_id i @ ''.json''], path_join [dir, id_extension_id i @ ''.crx'']))"

definition plan_extension ::
  "host \<Rightarrow> install_json \<Rightarrow> browser \<Rightarrow> options \<Rightarrow> identity \<Rightarrow> install_result \<Rightarrow> ('a fsys_scheme, err, install_result) prog" where
  "plan_extension H J b o' i r =
     (if in_crx_path r = '''' then mreturn (r\<lparr>in_extension := ExtensionManual\<rparr>)
      else if br_external b then
        mbind (mlift (external_paths H b i)) (\<lambda>(json_path, _).
        mreturn (r\<lparr>in_extension := ExtensionRegistered, in_external_path := json_path\<rparr>))
      else if br_system_dir b = '''' then mreturn (r\<lparr>in_extension := ExtensionManual\<rparr>)
      else
        let p = system_path o' (path_join [br_system_dir b, id_extension_id i @ ''.json'']) in
        mbind (fs_stat p) (\<lambda>n. case n of
          Some _ \<Rightarrow> mreturn (r\<lparr>in_external_path := p, in_extension := ExtensionSystemPresent\<rparr>)
        | None \<Rightarrow>
            mbind (mlift (sudo_command J p \<lparr>ep_crx = in_crx_path r, ep_version = in_version r\<rparr>)) (\<lambda>cmd.
            mreturn (r\<lparr>in_external_path := p, in_extension := ExtensionNeedsSudo, in_sudo := cmd\<rparr>))))"

definition trim_suffix :: "string \<Rightarrow> string \<Rightarrow> string" where
  "trim_suffix s suf = (if suf = drop (length s - length suf) s then take (length s - length suf) s else s)"

definition write_external :: "install_json \<Rightarrow> string \<Rightarrow> found_crx \<Rightarrow> ('a installer_scheme, err, unit) prog" where
  "write_external J json_path pkg =
     (let crx_path = trim_suffix json_path ''.json'' @ ''.crx'' in
      mbind (fs_mkdir_all (path_dir json_path) 493) (\<lambda>_.
      mbind (write_file_atomic crx_path (fc_data pkg)) (\<lambda>_.
      mbind (mlift (ij_pref J \<lparr>ep_crx = crx_path, ep_version = fc_version pkg\<rparr>)) (\<lambda>data.
      write_file_atomic json_path (data @ [10])))))"

section \<open>Install and Uninstall\<close>

definition build_manifest :: "install_json \<Rightarrow> identity \<Rightarrow> string \<Rightarrow> err + bytes" where
  "build_manifest J i host_path =
     ij_manifest J \<lparr>nm_name = id_host_name i,
       nm_description = ''albear vault native messaging bridge (blind relay)'',
       nm_path = host_path, nm_type = ''stdio'', nm_allowed_origins = build_allowed_origins (id_extension_id i)\<rparr>"

text \<open>What \<^verbatim>\<open>Install\<close> does unless it only prints.\<close>

definition carry_out ::
  "install_json \<Rightarrow> identity \<Rightarrow> string \<Rightarrow> found_crx \<Rightarrow> install_result \<Rightarrow> ('a installer_scheme, err, install_result) prog" where
  "carry_out J i host_path pkg r =
     mbind (mlift (build_manifest J i host_path)) (\<lambda>data.
     mbind (fs_mkdir_all (path_dir (in_manifest_path r)) 493) (\<lambda>_.
     mbind (fs_write_file (in_manifest_path r) 420 data) (\<lambda>_.
     let r = r\<lparr>in_wrote_manifest := True\<rparr> in
     if in_extension r = ExtensionRegistered then
       mbind (write_external J (in_external_path r) pkg) (\<lambda>_. mreturn (r\<lparr>in_wrote_external := True\<rparr>))
     else mreturn r)))"

text \<open>What it finds and plans before it writes.\<close>

definition plan_install ::
  "'u unicode_tables_scheme \<Rightarrow> ('k, 'p) crx_prims \<Rightarrow> lookup_prims \<Rightarrow> install_json \<Rightarrow> host \<Rightarrow> browser \<Rightarrow> options \<Rightarrow> identity \<Rightarrow>
     ('a fsys_scheme, err, string \<times> found_crx \<times> install_result) prog" where
  "plan_install U C L J H b o' i =
     mbind (mlift (case validate_extension_id (id_extension_id i) of Some e \<Rightarrow> Inl e | None \<Rightarrow> Inr ())) (\<lambda>_.
     mbind (resolve_native_host U H o') (\<lambda>host_path.
     mbind (resolve_crx C L H o' i) (\<lambda>pkg.
     mbind (resolve_extension_dir C L H o' i) (\<lambda>ext_dir.
     mbind (mguard (\<not> (ext_dir = '''' \<and> fc_path pkg = '''')) (ErrOther ''could not find the extension'')) (\<lambda>_.
     mbind (mlift (manifest_path H b i)) (\<lambda>mpath.
     mbind (plan_extension H J b o' i \<lparr>in_browser = br_name b, in_manifest_path = mpath, in_native_host_path = host_path,
          in_extension_dir = ext_dir, in_extension_id = id_extension_id i, in_wrote_manifest = False,
          in_crx_path = fc_path pkg, in_version = fc_version pkg, in_extension = ExtensionManual,
          in_external_path = '''', in_wrote_external = False, in_sudo = ''''\<rparr>) (\<lambda>r.
     mreturn (host_path, pkg, r))))))))"

definition install ::
  "'u unicode_tables_scheme \<Rightarrow> ('k, 'p) crx_prims \<Rightarrow> lookup_prims \<Rightarrow> install_json \<Rightarrow> host \<Rightarrow> browser \<Rightarrow> options \<Rightarrow>
     ('a installer_scheme, err, install_result) prog" where
  "install U C L J H b o' =
     (let i = or_default (op_identity o') in
      mbind (plan_install U C L J H b o' i) (\<lambda>(host_path, pkg, r).
      if op_print_only o' then mreturn r else carry_out J i host_path pkg r))"

text \<open>\<^verbatim>\<open>InstallDetected\<close>: every browser whose folder exists, in the order of the names; the first
  error ends it.\<close>

fun install_each ::
  "'u unicode_tables_scheme \<Rightarrow> ('k, 'p) crx_prims \<Rightarrow> lookup_prims \<Rightarrow> install_json \<Rightarrow> host \<Rightarrow> options \<Rightarrow> browser list \<Rightarrow>
     ('a installer_scheme, err, install_result list \<times> (string \<times> string) list) prog" where
  "install_each U C L J H o' [] = mreturn ([], [])"
| "install_each U C L J H o' (b # bs) =
     mbind (detect H b) (\<lambda>found.
     if \<not> found then
       mbind (mlift (config_dir H b)) (\<lambda>dir.
       mbind (install_each U C L J H o' bs) (\<lambda>(rs, ss). mreturn (rs, (br_name b, dir) # ss)))
     else
       mbind (install U C L J H b o') (\<lambda>r.
       mbind (install_each U C L J H o' bs) (\<lambda>(rs, ss). mreturn (r # rs, ss))))"

definition install_detected ::
  "'u unicode_tables_scheme \<Rightarrow> ('k, 'p) crx_prims \<Rightarrow> lookup_prims \<Rightarrow> install_json \<Rightarrow> host \<Rightarrow> options \<Rightarrow>
     ('a installer_scheme, err, install_result list \<times> (string \<times> string) list) prog" where
  "install_detected U C L J H o' = install_each U C L J H o' all_browsers"

definition remove_if_exists :: "string \<Rightarrow> ('a fsys_scheme, err, bool) prog" where
  "remove_if_exists p =
     mbind (attempt (fs_remove_existing p)) (\<lambda>r. case r of
       Inr _ \<Rightarrow> mreturn True
     | Inl e \<Rightarrow> if e = err_not_exist then mreturn False else mthrow e)"

definition uninstall :: "host \<Rightarrow> browser \<Rightarrow> options \<Rightarrow> ('a fsys_scheme, err, uninstall_result) prog" where
  "uninstall H b o' =
     (let i = or_default (op_identity o') in
      mbind (mlift (manifest_path H b i)) (\<lambda>path.
      mbind (remove_if_exists path) (\<lambda>removed.
      let r = \<lparr>un_browser = br_name b, un_manifest_path = path, un_removed_manifest = removed,
        un_removed_external = False, un_system_external = ''''\<rparr> in
      if br_external b then
        mbind (mlift (external_paths H b i)) (\<lambda>(json_path, crx_path).
        mbind (remove_if_exists json_path) (\<lambda>a.
        mbind (remove_if_exists crx_path) (\<lambda>c.
        mreturn (r\<lparr>un_removed_external := a \<or> c\<rparr>))))
      else if br_system_dir b \<noteq> '''' then
        let p = system_path o' (path_join [br_system_dir b, id_extension_id i @ ''.json'']) in
        mbind (attempt (fs_lookup p)) (\<lambda>n. case n of
          Inr _ \<Rightarrow> mreturn (r\<lparr>un_system_external := p\<rparr>)
        | Inl _ \<Rightarrow> mreturn r)
      else mreturn r)))"

section \<open>What the shell reads back\<close>

text \<open>A word of a POSIX shell: unquoted characters, escaped ones, and parts in single quotes. A
  character with a meaning of its own ends the attempt.\<close>

definition shell_special :: "char \<Rightarrow> bool" where
  "shell_special c \<longleftrightarrow> c \<in> set (''|&;<>()$`*?[#~=% '' @ [CHR 0x22, CHR 0x09, CHR 0x0A])"

fun sh_word :: "bool \<Rightarrow> string \<Rightarrow> string option" where
  "sh_word q [] = (if q then None else Some '''')"
| "sh_word True (c # cs) = (if c = quote_char then sh_word False cs else map_option ((#) c) (sh_word True cs))"
| "sh_word False (c # cs) =
     (if c = quote_char then sh_word True cs
      else if c = CHR 0x5C then (case cs of [] \<Rightarrow> None | d # ds \<Rightarrow> map_option ((#) d) (sh_word False ds))
      else if shell_special c then None
      else map_option ((#) c) (sh_word False cs))"

lemma safe_plain: "list_all (\<lambda>c. c \<noteq> quote_char \<and> c \<noteq> CHR 0x5C \<and> \<not> shell_special c) safe_chars"
  by code_simp

lemma sh_word_safe: "set s \<subseteq> set safe_chars \<Longrightarrow> sh_word False s = Some s"
  using safe_plain by (induction s) (auto simp: list_all_iff)

lemma sh_word_quoted:
  "sh_word True (concat (map (\<lambda>c. if c = quote_char then [quote_char, CHR 0x5C, quote_char, quote_char] else [c]) s) @ [quote_char]) = Some s"
  by (induction s) (simp_all add: quote_char_def)

lemma shell_quote_word: "sh_word False (shell_quote s) = Some s"
proof (cases "s \<noteq> '''' \<and> dropWhile (\<lambda>c. c \<in> set safe_chars) s = ''''")
  case True
  then have "set s \<subseteq> set safe_chars" by (auto simp: dropWhile_eq_Nil_conv)
  then show ?thesis using True by (simp add: shell_quote_def sh_word_safe)
next
  case False
  then have "shell_quote s = quote_char # concat (map (\<lambda>c. if c = quote_char then [quote_char, CHR 0x5C, quote_char, quote_char] else [c]) s) @ [quote_char]"
    unfolding shell_quote_def by (rule if_not_P)
  then show ?thesis by (simp add: sh_word_quoted)
qed

section \<open>Files are replaced whole\<close>

definition last_part :: "string \<Rightarrow> string" where
  "last_part p = rev (takeWhile (\<lambda>c. c \<noteq> CHR ''/'') (rev p))"

text \<open>Names a browser does not look at: those of temporary files begin with a dot.\<close>

definition hidden :: "string \<Rightarrow> bool" where
  "hidden p \<longleftrightarrow> (\<exists>r. last_part p = CHR ''.'' # r)"

lemma last_part_child: "CHR ''/'' \<notin> set n \<Longrightarrow> last_part (d @ CHR ''/'' # n) = n"
  by (simp add: last_part_def takeWhile_append)

lemma path_base_last:
  assumes "plain_name (last_part p)"
  shows "path_base p = last_part p"
proof -
  have "p \<noteq> ''''" using assms by (auto simp: last_part_def plain_name_def)
  then obtain q c where p: "p = q @ [c]" by (metis rev_exhaust)
  with assms have "c \<noteq> CHR ''/''" by (auto simp: last_part_def plain_name_def)
  then show ?thesis by (simp add: path_base_def last_part_def p)
qed

lemma temp_hidden:
  assumes "plain_name (last_part p)" and "CHR ''/'' \<notin> set r"
  shows "hidden (temp_prefix p @ r)"
proof -
  have n: "CHR ''/'' \<notin> set (CHR ''.'' # path_base p @ ''.'' @ r)"
    using assms by (simp add: path_base_last plain_name_def)
  have "\<exists>d. temp_prefix p @ r = d @ CHR ''/'' # CHR ''.'' # path_base p @ ''.'' @ r"
  proof (cases "path_dir p \<noteq> '''' \<and> last (path_dir p) = CHR ''/''")
    case True
    then have "path_dir p = butlast (path_dir p) @ ''/''" using append_butlast_last_id [of "path_dir p"] by simp
    then have "temp_prefix p = butlast (path_dir p) @ CHR ''/'' # CHR ''.'' # path_base p @ ''.''"
      using True unfolding temp_prefix_def in_folder_def by (metis (no_types, lifting) append.assoc append_Cons append_Nil)
    then show ?thesis by simp
  next
    case False
    then have "temp_prefix p = path_dir p @ CHR ''/'' # CHR ''.'' # path_base p @ ''.''"
      unfolding temp_prefix_def in_folder_def by (rule if_not_P)
    then show ?thesis by simp
  qed
  then obtain d where "temp_prefix p @ r = d @ CHR ''/'' # CHR ''.'' # path_base p @ ''.'' @ r" by blast
  then show ?thesis using last_part_child [OF n, of d] by (simp add: hidden_def)
qed

lemma fs_op_cases: "fs_op s = (if fs_ok s (fs_pos s) then Inr () else Inl ErrIO, s\<lparr>fs_pos := Suc (fs_pos s)\<rparr>)"
  by (simp add: fs_op_def)

lemma fill_and_move_effect:
  assumes "fill_and_move tmp p data s = (r, t)" and "tmp \<noteq> p"
  shows "(\<forall>x. x \<noteq> tmp \<longrightarrow> x \<noteq> p \<longrightarrow> fs_nodes t x = fs_nodes s x) \<and>
    (if r = Inr () then fs_nodes t p = Some (File 420 data) else fs_nodes t p = fs_nodes s p) \<and> r \<noteq> Inl Panic \<and>
    fsys.more t = fsys.more s"
  using assms
  by (auto simp: err_not_exist_def fill_and_move_def mbind_unfold fs_write_new_def mget_eq mmodify_eq mguard_eq mthrow_eq mreturn_eq set_node_def
      attempt_def fs_op_cases ignore_error_def file_chmod_def fs_rename_def split: if_splits)

lemma create_temp_effect:
  assumes "create_temp k prefix s = (r, t)"
  shows "tmp_names t = tmp_names s \<and>
    (case r of
       Inr tmp \<Rightarrow> \<exists>j. tmp = prefix @ tmp_names s j \<and> fs_nodes t = (fs_nodes s)(tmp \<mapsto> File 384 [])
     | Inl _ \<Rightarrow> fs_nodes t = fs_nodes s)"
  using assms
proof (induction k arbitrary: s)
  case 0
  then show ?case by (auto simp: mthrow_eq)
next
  case (Suc k)
  let ?u = "s\<lparr>tmp_count := Suc (tmp_count s), fs_pos := Suc (fs_pos s)\<rparr>"
  let ?name = "prefix @ tmp_names s (tmp_count s)"
  consider "r = Inr ?name" "t = ?u\<lparr>fs_nodes := (fs_nodes s)(?name \<mapsto> File 384 [])\<rparr>"
    | e where "r = Inl e" "t = ?u" | "create_temp k prefix ?u = (r, t)"
    using Suc.prems
    by (auto simp: mbind_unfold next_temp_def fs_create_excl_def fs_op_cases attempt_def mget_eq mguard_eq mthrow_eq mreturn_eq
        set_node_def mmodify_eq err_exist_def split: if_splits)
  then show ?case
  proof cases
    case 1
    then show ?thesis by auto
  next
    case 2
    then show ?thesis by simp
  next
    case 3
    from Suc.IH [OF this] show ?thesis by (simp add: fun_upd_def split: sum.splits)
  qed
qed

lemma remove_existing_effect:
  assumes "ignore_error (fs_remove_existing p) s = (r, t)"
  shows "r = Inr () \<and> (x \<noteq> p \<longrightarrow> fs_nodes t x = fs_nodes s x) \<and> fsys.more t = fsys.more s"
  using assms
  by (auto simp: ignore_error_def mbind_unfold attempt_def fs_remove_existing_def fs_op_cases mget_eq mreturn_eq mthrow_eq set_node_def mmodify_eq
      err_not_exist_def split: if_splits option.splits node.splits)

lemma more_names: "fsys.more s = fsys.more t \<Longrightarrow> tmp_names s = tmp_names t"
  by (cases s; cases t) simp

lemma write_file_atomic_effect:
  assumes w: "write_file_atomic p data s = (r, t)" and p: "plain_name (last_part p)" "\<not> hidden p"
    and names: "\<And>k. CHR ''/'' \<notin> set (tmp_names s k)"
  shows "(\<forall>x. \<not> hidden x \<longrightarrow> x \<noteq> p \<longrightarrow> fs_nodes t x = fs_nodes s x) \<and>
    (if r = Inr () then fs_nodes t p = Some (File 420 data) else fs_nodes t p = fs_nodes s p) \<and> tmp_names t = tmp_names s"
proof -
  obtain c u where c: "create_temp temp_tries (temp_prefix p) s = (c, u)" by fastforce
  show ?thesis
  proof (cases c)
    case (Inl e)
    with w c create_temp_effect [OF c] show ?thesis by (auto simp: write_file_atomic_def mbind_unfold)
  next
    case (Inr tmp)
    with create_temp_effect [OF c] obtain j where tmp: "tmp = temp_prefix p @ tmp_names s j"
      and u: "fs_nodes u = (fs_nodes s)(tmp \<mapsto> File 384 [])" by auto
    have h: "hidden tmp" unfolding tmp by (rule temp_hidden [OF p(1) names])
    then have tp: "tmp \<noteq> p" using p(2) by blast
    obtain f v where f: "fill_and_move tmp p data u = (f, v)" by fastforce
    obtain g z where g: "ignore_error (fs_remove_existing tmp) v = (g, z)" by fastforce
    note fe = fill_and_move_effect [OF f tp]
    have ge: "x \<noteq> tmp \<Longrightarrow> fs_nodes z x = fs_nodes v x" and gi: "g = Inr ()" "fsys.more z = fsys.more v" for x
      using remove_existing_effect [OF g, of x] by simp_all
    have names': "tmp_names z = tmp_names s"
      using create_temp_effect [OF c] fe gi(2) more_names [of z u] by simp
    have "attempt (fill_and_move tmp p data) u = (Inr f, v)"
      using fe by (cases f) (auto simp: f intro: attempt_Inr attempt_Inl)
    then have "r = f \<and> t = z"
      using w g by (simp add: write_file_atomic_def mbind_unfold c Inr gi mlift_eq)
    moreover have "\<not> hidden x \<Longrightarrow> x \<noteq> tmp" for x using h by blast
    ultimately show ?thesis using fe ge u tp p(2) names' by (auto simp: fun_upd_def)
  qed
qed

section \<open>Paths of the installer\<close>

lemma join_with_snoc: "join_with c (xs @ [n]) = (if xs = [] then n else join_with c xs @ c # n)"
  by (induction c xs rule: join_with.induct) auto

text \<open>Siblings differ in their last component only.\<close>

lemma join_siblings:
  assumes "d \<noteq> ''''"
  shows "\<exists>q. (q = '''' \<or> last q = CHR ''/'') \<and> (\<forall>n. plain_name n \<longrightarrow> path_join [d, n] = q @ n)"
proof -
  define q where "q = (if is_rooted d then ''/'' else '''') @
    (if path_parts d = [] then '''' else join_with (CHR ''/'') (path_parts d) @ ''/'')"
  have "path_join [d, n] = q @ n" if n: "plain_name n" for n
  proof -
    have r: "is_rooted (d @ CHR ''/'' # n) = is_rooted d" using assms by (cases d) (simp_all add: is_rooted_def)
    show ?thesis
      using n by (simp add: path_join_def assms clean_path_def r path_parts_snoc [OF n assms] join_with_snoc q_def)
        (auto simp: plain_name_def)
  qed
  moreover have "q = '''' \<or> last q = CHR ''/''" by (simp add: q_def)
  ultimately show ?thesis by blast
qed

lemma last_part_prefix: "q = '''' \<or> last q = CHR ''/'' \<Longrightarrow> CHR ''/'' \<notin> set n \<Longrightarrow> last_part (q @ n) = n"
proof -
  assume q: "q = '''' \<or> last q = CHR ''/''" and n: "CHR ''/'' \<notin> set n"
  show "last_part (q @ n) = n"
  proof (cases "q = ''''")
    case True
    have "takeWhile (\<lambda>c. c \<noteq> CHR ''/'') (rev n) = rev n"
      by (rule takeWhile_eq_all_conv [THEN iffD2]) (use n in auto)
    then show ?thesis unfolding True append_Nil last_part_def by (rule ssubst) simp
  next
    case False
    then have "q = butlast q @ ''/''" using q append_butlast_last_id [of q] by simp
    then have "last_part (q @ n) = last_part (butlast q @ CHR ''/'' # n)" by (metis append.assoc append_Cons append_Nil)
    then show ?thesis using last_part_child [OF n] by simp
  qed
qed

lemma path_join_nonempty: "plain_name n \<Longrightarrow> path_join [d, n] \<noteq> ''''"
  using join_ends [of n d] by (auto simp: plain_name_def Cons_eq_append_conv)

lemma trim_suffix_append [simp]: "trim_suffix (a @ s) s = a"
  by (simp add: trim_suffix_def)

definition id_letters :: "string \<Rightarrow> bool" where
  "id_letters i \<longleftrightarrow> i \<noteq> '''' \<and> (\<forall>c \<in> set i. CHR ''a'' \<le> c \<and> c \<le> CHR ''p'')"

lemma id_letters_plain:
  assumes "id_letters i"
  shows "plain_name (i @ ''.json'')" "plain_name (i @ ''.crx'')" "CHR ''/'' \<notin> set i" "hd i \<noteq> CHR ''.''"
proof -
  have "\<not> CHR ''a'' \<le> CHR ''/''" "\<not> CHR ''a'' \<le> CHR ''.''" by (simp_all add: less_eq_char_def)
  moreover have l: "CHR ''a'' \<le> c" if "c \<in> set i" for c using assms that by (simp add: id_letters_def)
  ultimately show s: "CHR ''/'' \<notin> set i" by blast
  have "hd i \<in> set i" using assms by (simp add: id_letters_def)
  with l \<open>\<not> CHR ''a'' \<le> CHR ''.''\<close> show "hd i \<noteq> CHR ''.''" by metis
  from s show "plain_name (i @ ''.json'')" "plain_name (i @ ''.crx'')"
    by (auto simp: plain_name_def dest: arg_cong [of _ _ length])
qed

lemma validated_letters: "validate_extension_id i = None \<Longrightarrow> id_letters i"
  by (auto simp: validate_extension_id_def id_letters_def split: if_splits)

lemma external_paths_Inr:
  assumes "external_paths H b i = Inr (json, crx)" and "id_letters (id_extension_id i)"
  shows "\<exists>q. (q = '''' \<or> last q = CHR ''/'') \<and> json = q @ id_extension_id i @ ''.json'' \<and> crx = q @ id_extension_id i @ ''.crx''"
proof -
  from assms(1) obtain c where c: "json = path_join [path_join [c, ''External Extensions''], id_extension_id i @ ''.json'']"
    "crx = path_join [path_join [c, ''External Extensions''], id_extension_id i @ ''.crx'']"
    by (auto simp: external_paths_def sbind_Inr_iff Let_def)
  have "path_join [c, ''External Extensions''] \<noteq> ''''" by (rule path_join_nonempty) (simp add: plain_name_def)
  from join_siblings [OF this] c id_letters_plain [OF assms(2)] show ?thesis by blast
qed

section \<open>A registration never points at nothing\<close>

text \<open>What is there beside folders, which the making of folders leaves alone.\<close>

definition solid :: "'a fsys_scheme \<Rightarrow> string \<Rightarrow> node option" where
  "solid s p = (case fs_nodes s p of Some (Dir _) \<Rightarrow> None | n \<Rightarrow> n)"

lemma solid_mkdir: "obeys (same_on (\<lambda>s. (solid s, tmp_names s))) (fs_mkdir_all p mode)"
  unfolding fs_mkdir_all_def
  by (rule same.ok_for)
    (auto simp: obeys_def same_on_def fs_mkdir_def mbind_unfold fs_op_cases mget_eq mreturn_eq mthrow_eq set_node_def mmodify_eq solid_def fun_eq_iff
      split: option.splits node.splits)

lemma write_file_atomic_solid:
  assumes "write_file_atomic p data s = (r, t)" and "plain_name (last_part p)" "\<not> hidden p"
    and "\<And>k. CHR ''/'' \<notin> set (tmp_names s k)"
  shows "(\<forall>x. \<not> hidden x \<longrightarrow> x \<noteq> p \<longrightarrow> solid t x = solid s x) \<and>
    solid t p = (if r = Inr () then Some (File 420 data) else solid s p) \<and> tmp_names t = tmp_names s"
  using write_file_atomic_effect [OF assms] by (auto simp: solid_def)

lemma write_external_effect:
  assumes w: "write_external J json pkg s = (r, t)" and i: "id_letters i"
    and q: "q = '''' \<or> last q = CHR ''/''" and json: "json = q @ i @ ''.json''" and crx: "crx = q @ i @ ''.crx''"
    and names: "\<And>k. CHR ''/'' \<notin> set (tmp_names s k)"
  shows "(solid t json = solid s json \<or>
      (\<exists>b. ij_pref J \<lparr>ep_crx = crx, ep_version = fc_version pkg\<rparr> = Inr b \<and> solid t json = Some (File 420 (b @ [10])) \<and>
         solid t crx = Some (File 420 (fc_data pkg)))) \<and>
    (r = Inr () \<longrightarrow> solid t json \<noteq> None \<and> solid t crx = Some (File 420 (fc_data pkg)))"
proof -
  have parts: "last_part json = i @ ''.json''" "last_part crx = i @ ''.crx''"
    using last_part_prefix [OF q] id_letters_plain [OF i] by (simp_all add: json crx)
  then have h: "\<not> hidden json" "\<not> hidden crx" "crx \<noteq> json" "plain_name (last_part json)" "plain_name (last_part crx)"
    using i id_letters_plain [OF i] by (auto simp: hidden_def id_letters_def append_eq_Cons_conv)
  have c: "trim_suffix json ''.json'' @ ''.crx'' = crx" using trim_suffix_append [of "q @ i" "''.json''"] by (simp add: json crx)
  obtain m u where m: "fs_mkdir_all (path_dir json) 493 s = (m, u)" by fastforce
  from same_okD [OF solid_mkdir this] have ru: "solid u = solid s" "tmp_names u = tmp_names s" by simp_all
  obtain a v where a: "write_file_atomic crx (fc_data pkg) u = (a, v)" by fastforce
  have ae: "solid v json = solid s json" "solid v crx = (if a = Inr () then Some (File 420 (fc_data pkg)) else solid s crx)"
    "tmp_names v = tmp_names s"
    using write_file_atomic_solid [OF a h(5,2)] names ru h by auto
  consider "m \<noteq> Inr ()" "t = u" "r \<noteq> Inr ()" | "m = Inr ()" "t = v" "r \<noteq> Inr ()"
    | b where "ij_pref J \<lparr>ep_crx = crx, ep_version = fc_version pkg\<rparr> = Inr b" "a = Inr ()" "write_file_atomic json (b @ [10]) v = (r, t)"
    using w m a
    by (cases m; cases a; cases "ij_pref J \<lparr>ep_crx = crx, ep_version = fc_version pkg\<rparr>")
      (auto simp: write_external_def c mbind_unfold mlift_eq)
  then show ?thesis
  proof cases
    case 1
    with ru show ?thesis by simp
  next
    case 2
    with ae show ?thesis by simp
  next
    case 3
    from write_file_atomic_solid [OF 3(3) h(4,1)] names ae h 3 show ?thesis by auto
  qed
qed

section \<open>What an installation leaves\<close>

definition disk :: "'a installer_scheme \<Rightarrow> (string \<Rightarrow> node option) \<times> (nat \<Rightarrow> string)" where
  "disk s = (fs_nodes s, tmp_names s)"

lemma looks:
  "obeys (same_on disk) fs_op" "obeys (same_on disk) (fs_lookup p)" "obeys (same_on disk) (fs_read p)"
  "obeys (same_on disk) (fs_stat p)"
proof -
  show o: "obeys (same_on disk) fs_op" by (simp add: obeys_def same_on_def fs_op_cases disk_def)
  have n: "obeys (same_on disk) (case n of Link q \<Rightarrow> f q | File m b \<Rightarrow> g m b | Dir m \<Rightarrow> h m)"
    if "\<And>q. obeys (same_on disk) (f q)" "\<And>m b. obeys (same_on disk) (g m b)" "\<And>m. obeys (same_on disk) (h m)"
    for n and f g h :: "_ \<Rightarrow> _" using that by (cases n) auto
  show l: "obeys (same_on disk) (fs_lookup p)"
    unfolding fs_lookup_def by (intro same.ok_intros o) (auto intro!: same.ok_intros split: node.split)
  show "obeys (same_on disk) (fs_read p)"
    unfolding fs_read_def by (intro same.ok_bind l) (auto intro!: same.ok_intros split: node.split)
  show "obeys (same_on disk) (fs_stat p)"
    unfolding fs_stat_def by (intro same.ok_intros obeys_attempt l)
qed

lemma first_found_looks: "(\<And>c. obeys (same_on disk) (f c)) \<Longrightarrow> obeys (same_on disk) (first_found f cs)"
  by (induction cs) (auto intro!: same.ok_intros obeys_attempt)

lemma searches:
  "obeys (same_on disk) (clean_existing_file U H p)" "obeys (same_on disk) (read_crx C L p i)"
  "obeys (same_on disk) (extension_dir_is C L i p)"
  "obeys (same_on disk) (resolve_native_host U H o')" "obeys (same_on disk) (resolve_crx C L H o' i)"
  "obeys (same_on disk) (resolve_extension_dir C L H o' i)" "obeys (same_on disk) (plan_extension H J b o' i r)"
proof -
  show c: "obeys (same_on disk) (clean_existing_file U H p)" for p
    unfolding clean_existing_file_def by (intro same.ok_intros looks)
  show r: "obeys (same_on disk) (read_crx C L p i)" for p
    unfolding read_crx_def by (intro same.ok_intros looks)
  show e: "obeys (same_on disk) (extension_dir_is C L i p)" for p
    unfolding extension_dir_is_def read_manifest_file_def by (intro same.ok_intros looks)
  show "obeys (same_on disk) (resolve_native_host U H o')"
    unfolding resolve_native_host_def by (intro same.ok_intros first_found_looks c)
  show "obeys (same_on disk) (resolve_crx C L H o' i)"
    unfolding resolve_crx_def by (intro same.ok_intros first_found_looks r)
  show "obeys (same_on disk) (resolve_extension_dir C L H o' i)"
    unfolding resolve_extension_dir_def by (intro same.ok_intros first_found_looks e looks)
  show "obeys (same_on disk) (plan_extension H J b o' i r)"
    unfolding plan_extension_def Let_def by (intro same.ok_intros looks)
qed

lemma first_found_Some: "first_found f cs s = (Inr (Some x), t) \<Longrightarrow> \<exists>c u v. c \<in> set cs \<and> f c u = (Inr x, v)"
proof (induction cs arbitrary: s)
  case (Cons c cs)
  then show ?case by (auto simp: mbind_Inr_iff attempt_Inr_iff sum_prog_iff mreturn_eq)
qed (simp add: mreturn_eq)

text \<open>A package that was found has a signature of the extension it is installed for.\<close>

definition signed_for :: "('k, 'p) crx_prims \<Rightarrow> identity \<Rightarrow> found_crx \<Rightarrow> bool" where
  "signed_for C i pkg \<longleftrightarrow> (\<exists>p. crx_verify C (fc_data pkg) = Inr p \<and> cp_id p = id_extension_id i)"

lemma read_crx_signed: "read_crx C L p i s = (Inr pkg, t) \<Longrightarrow> signed_for C i pkg"
  by (auto simp: read_crx_def mbind_Inr_iff mlift_eq mguard_eq mreturn_eq signed_for_def split: if_splits)

lemma resolve_crx_signed:
  assumes "resolve_crx C L H o' i s = (Inr pkg, t)" and "fc_path pkg \<noteq> ''''"
  shows "signed_for C i pkg"
proof (cases "op_crx_path o' = ''''")
  case False
  with assms(1) show ?thesis by (auto simp: resolve_crx_def mbind_Inr_iff mlift_eq dest: read_crx_signed)
next
  case True
  with assms obtain u v where "first_found (\<lambda>p. read_crx C L p i) u s = (Inr (Some pkg), v)"
    by (auto simp: resolve_crx_def mbind_Inr_iff mreturn_eq no_crx_def split: option.splits)
  from first_found_Some [OF this] read_crx_signed show ?thesis by blast
qed

lemma plan_facts:
  assumes "plan_extension H J b o' i r s = (Inr r', t)" and "in_extension r = ExtensionManual"
  shows "in_manifest_path r' = in_manifest_path r \<and>
    (in_extension r' = ExtensionRegistered \<longrightarrow>
       in_crx_path r \<noteq> '''' \<and> (\<exists>crx. external_paths H b i = Inr (in_external_path r', crx)))"
  using assms
  by (auto simp: plan_extension_def mbind_Inr_iff mreturn_eq mlift_eq Let_def split: if_splits option.splits)

lemma plan_install_looks: "obeys (same_on disk) (plan_install U C L J H b o' i)"
  unfolding plan_install_def by (intro same.ok_intros searches)

definition sound_plan :: "('k, 'p) crx_prims \<Rightarrow> host \<Rightarrow> browser \<Rightarrow> identity \<Rightarrow> found_crx \<Rightarrow> install_result \<Rightarrow> bool" where
  "sound_plan C H b i pkg p \<longleftrightarrow>
     id_letters (id_extension_id i) \<and> manifest_path H b i = Inr (in_manifest_path p) \<and>
     (in_extension p = ExtensionRegistered \<longrightarrow>
        signed_for C i pkg \<and> (\<exists>crx. external_paths H b i = Inr (in_external_path p, crx)))"

lemma plan_install_sound:
  assumes "plan_install U C L J H b o' i s = (Inr (host_path, pkg, p), t)"
  shows "sound_plan C H b i pkg p"
  using assms
  by (auto simp: plan_install_def mbind_Inr_iff mlift_eq mguard_eq mreturn_eq sound_plan_def split: if_splits option.splits
      dest: validated_letters resolve_crx_signed dest!: plan_facts)

text \<open>An installation either leaves the disk alone or carries out a plan made from what it found.\<close>

lemma install_cases:
  assumes "install U C L J H b o' s = (r, t)"
  shows "disk t = disk s \<or> (\<exists>host_path pkg p u. \<not> op_print_only o' \<and> disk u = disk s \<and>
     sound_plan C H b (or_default (op_identity o')) pkg p \<and>
     carry_out J (or_default (op_identity o')) host_path pkg p u = (r, t))"
proof -
  obtain x u where x: "plan_install U C L J H b o' (or_default (op_identity o')) s = (x, u)" by fastforce
  have d: "disk u = disk s" by (rule same_okD [OF plan_install_looks x])
  show ?thesis
  proof (cases x)
    case (Inl e)
    with assms x d show ?thesis by (simp add: install_def Let_def mbind_unfold)
  next
    case (Inr y)
    obtain host_path pkg p where y: "y = (host_path, pkg, p)" by (cases y)
    from assms x Inr y plan_install_sound [of U C L J H b o' "or_default (op_identity o')" s host_path pkg p u] d show ?thesis
      by (auto simp: install_def Let_def mbind_unfold mreturn_eq split: if_splits)
  qed
qed

lemma attempt_op: "attempt fs_op s = (Inr (if fs_ok s (fs_pos s) then Inr () else Inl ErrIO), s\<lparr>fs_pos := Suc (fs_pos s)\<rparr>)"
  by (simp add: attempt_def fs_op_cases)

lemma attempt_write_new:
  "attempt (fs_write_new p mode b) s = (Inr (if fs_ok s (fs_pos s) then Inr () else Inl ErrIO),
     s\<lparr>fs_pos := Suc (fs_pos s),
       fs_nodes := (fs_nodes s)(p \<mapsto> File mode (if fs_ok s (fs_pos s) then b else take (fs_part s (fs_pos s)) b))\<rparr>)"
  by (simp add: attempt_def fs_write_new_def mbind_unfold mget_eq fs_op_cases set_node_def mmodify_eq mthrow_eq)

lemma write_file_elsewhere:
  assumes "fs_write_file p mode b s = (r, t)" and "\<And>q. fs_nodes s p \<noteq> Some (Link q)" and "x \<noteq> p"
  shows "fs_nodes t x = fs_nodes s x \<and> fsys.more t = fsys.more s"
proof -
  have "final_path 40 (fs_nodes s) p = Some p"
    using assms(2) by (auto simp: numeral_eq_Suc split: option.split node.split)
  with assms(1,3) show ?thesis
    by (auto simp: fs_write_file_def mbind_unfold mget_eq mguard_eq mthrow_eq mreturn_eq mlift_eq set_node_def mmodify_eq Let_def
        fs_op_cases attempt_op attempt_write_new split: if_splits)
qed

lemma manifest_beside:
  assumes "manifest_path H b i = Inr m" and "external_paths H b i = Inr (json, crx)" and "id_letters (id_extension_id i)"
    and "plain_name (id_host_name i @ ''.json'')"
  shows "m \<noteq> json"
proof
  assume eq: "m = json"
  from assms(1,2) obtain c where c: "m = path_join [path_join [c, ''NativeMessagingHosts''], id_host_name i @ ''.json'']"
    "json = path_join [path_join [c, ''External Extensions''], id_extension_id i @ ''.json'']"
    by (auto simp: manifest_path_def native_hosts_dir_def external_paths_def sbind_Inr_iff Let_def)
  have p: "plain_name ''NativeMessagingHosts''" "plain_name ''External Extensions''" by (simp_all add: plain_name_def)
  from join_ends_two [OF p(1) assms(4), of c] join_ends_two [OF p(2) id_letters_plain(1) [OF assms(3)], of c] eq c
  obtain ys zs where "ys @ [''NativeMessagingHosts'', id_host_name i @ ''.json''] = zs @ [''External Extensions'', id_extension_id i @ ''.json'']"
    by metis
  then show False by simp
qed

lemma host_names_plain: "plain_name (id_host_name (identity_for env) @ ''.json'')"
  by (simp add: identity_for_def dev_identity_def default_identity_def native_host_name_def dev_native_host_name_def plain_name_def)

text \<open>What a browser finds registered after an installation is what it found before, or a complete
  package signed for the extension; wherever the installation failed.\<close>

lemma registration_is_sound:
  assumes f: "install U C L J H b o' s = (r, t)" and i: "or_default (op_identity o') = identity_for env"
    and x: "external_paths H b (identity_for env) = Inr (json, crx)"
    and names: "\<And>k. CHR ''/'' \<notin> set (tmp_names s k)"
    and nl: "\<And>m q. manifest_path H b (identity_for env) = Inr m \<Longrightarrow> fs_nodes s m \<noteq> Some (Link q)"
  shows "solid t json = solid s json \<or>
    (\<exists>data version pref p. solid t json = Some (File 420 (pref @ [10])) \<and>
       ij_pref J \<lparr>ep_crx = crx, ep_version = version\<rparr> = Inr pref \<and> solid t crx = Some (File 420 data) \<and>
       crx_verify C data = Inr p \<and> cp_id p = id_extension_id (identity_for env))"
proof (cases "disk t = disk s")
  case True
  then show ?thesis by (simp add: disk_def solid_def)
next
  case False
  with install_cases [OF f] i obtain host_path pkg p u where u: "disk u = disk s" and p: "sound_plan C H b (identity_for env) pkg p"
    and c: "carry_out J (identity_for env) host_path pkg p u = (r, t)" by auto
  let ?i = "identity_for env" and ?m = "in_manifest_path p"
  have l: "id_letters (id_extension_id ?i)" and m: "manifest_path H b ?i = Inr ?m" using p by (simp_all add: sound_plan_def)
  obtain a v where a: "fs_mkdir_all (path_dir ?m) 493 u = (a, v)" by fastforce
  from same_okD [OF solid_mkdir this] u have sv: "solid v = solid s" "tmp_names v = tmp_names s"
    by (simp_all add: disk_def solid_def fun_eq_iff)
  have nv: "fs_nodes v ?m \<noteq> Some (Link q)" for q
    using nl [OF m] fun_cong [OF sv(1), of ?m] by (auto simp: solid_def split: option.splits node.splits)
  show ?thesis
  proof (cases "build_manifest J ?i host_path")
    case (Inl e)
    with c u show ?thesis by (auto simp: carry_out_def mbind_unfold mlift_eq disk_def solid_def)
  next
    case (Inr data)
    obtain w z where w: "fs_write_file ?m 420 data v = (w, z)" by fastforce
    have z: "solid z json = solid s json" "tmp_names z = tmp_names s"
      using write_file_elsewhere [OF w nv, of json] manifest_beside [OF m x l host_names_plain] sv more_names [of z v]
      by (auto simp: solid_def fun_eq_iff)
    consider "solid t json = solid s json" | r' where "in_extension p = ExtensionRegistered" "write_external J (in_external_path p) pkg z = (r', t)"
      using c a w Inr sv z
      by (cases a; cases w) (auto simp: carry_out_def mbind_unfold mlift_eq mreturn_eq Let_def split: if_splits sum.splits prod.splits)
    then show ?thesis
    proof cases
      case 2
      with p x have j: "in_external_path p = json" and sg: "signed_for C ?i pkg" by (auto simp: sound_plan_def)
      from external_paths_Inr [OF x l] obtain q where q: "q = '''' \<or> last q = CHR ''/''" "json = q @ id_extension_id ?i @ ''.json''"
        "crx = q @ id_extension_id ?i @ ''.crx''" by blast
      from write_external_effect [OF 2(2) [unfolded j] l q] names z sg show ?thesis by (auto simp: signed_for_def)
    qed simp
  qed
qed

lemma printing_writes_nothing: "op_print_only o' \<Longrightarrow> fs_nodes (snd (install U C L J H b o' s)) = fs_nodes s"
  using install_cases [of U C L J H b o' s] by (cases "install U C L J H b o' s") (auto simp: disk_def)

end
