(* ===== verification/Install_Demo.thy ===== *)
theory Install_Demo
  imports Install Origin
begin

text \<open>One installation that runs to its end: a disk with the native host and a signed package, and
  Chromium's folders.\<close>

section \<open>A concrete installation\<close>

lemma create_temp_works:
  assumes "\<And>n. fs_ok s n" and "fs_nodes s (prefix @ tmp_names s (tmp_count s)) = None"
  shows "create_temp (Suc k) prefix s = (Inr (prefix @ tmp_names s (tmp_count s)),
    s\<lparr>tmp_count := Suc (tmp_count s), fs_pos := Suc (fs_pos s), fs_nodes := (fs_nodes s)(prefix @ tmp_names s (tmp_count s) \<mapsto> File 384 [])\<rparr>)"
  using assms
  by (simp add: mbind_unfold next_temp_def fs_create_excl_def fs_op_cases attempt_def mget_eq mguard_eq mreturn_eq set_node_def mmodify_eq)

lemma fill_and_move_works:
  assumes "\<And>n. fs_ok s n" and "fs_nodes s tmp = Some (File m b)" and "\<And>d. fs_nodes s p \<noteq> Some (Dir d)" and "tmp \<noteq> p"
  shows "fill_and_move tmp p data s = (Inr (), s\<lparr>fs_pos := fs_pos s + 4, fs_nodes := (fs_nodes s)(tmp := None, p \<mapsto> File 420 data)\<rparr>)"
  using assms
  by (simp add: fill_and_move_def mbind_unfold write_new_works file_chmod_def fs_op_cases mmodify_eq attempt_def fs_rename_def mget_eq mguard_eq
      eval_nat_numeral fun_upd_upd)

lemma write_file_atomic_works:
  assumes ok: "\<And>n. fs_ok s n" and free: "fs_nodes s (temp_prefix p @ tmp_names s (tmp_count s)) = None"
    and p: "\<And>d. fs_nodes s p \<noteq> Some (Dir d)" and tp: "temp_prefix p @ tmp_names s (tmp_count s) \<noteq> p"
  shows "\<exists>t. write_file_atomic p data s = (Inr (), t) \<and> fs_nodes t = (fs_nodes s)(p \<mapsto> File 420 data) \<and>
    fs_ok t = fs_ok s \<and> tmp_names t = tmp_names s"
proof -
  define tmp where "tmp = temp_prefix p @ tmp_names s (tmp_count s)"
  define u where "u = s\<lparr>tmp_count := Suc (tmp_count s), fs_pos := Suc (fs_pos s), fs_nodes := (fs_nodes s)(tmp \<mapsto> File 384 [])\<rparr>"
  have c: "create_temp temp_tries (temp_prefix p) s = (Inr tmp, u)"
    using create_temp_works [OF ok free, of 9999] by (simp add: temp_tries_def u_def tmp_def del: create_temp.simps)
  define v where "v = u\<lparr>fs_pos := fs_pos u + 4, fs_nodes := (fs_nodes u)(tmp := None, p \<mapsto> File 420 data)\<rparr>"
  have f: "fill_and_move tmp p data u = (Inr (), v)"
    unfolding v_def by (rule fill_and_move_works) (use ok p tp in \<open>auto simp: u_def tmp_def\<close>)
  have r: "ignore_error (fs_remove_existing tmp) v = (Inr (), v\<lparr>fs_pos := Suc (fs_pos v)\<rparr>)"
    using ok tp
    by (simp add: ignore_error_def mbind_unfold attempt_def fs_remove_existing_def fs_op_cases mget_eq mthrow_eq mreturn_eq err_not_exist_def
        v_def u_def tmp_def)
  have "fs_nodes v = (fs_nodes s)(p \<mapsto> File 420 data)" using free by (auto simp: fun_eq_iff v_def u_def tmp_def)
  moreover have "write_file_atomic p data s = (Inr (), v\<lparr>fs_pos := Suc (fs_pos v)\<rparr>)"
    by (simp add: write_file_atomic_def mbind_unfold c attempt_def f r mlift_eq)
  moreover have "fs_ok v = fs_ok s" "tmp_names v = tmp_names s" by (simp_all add: v_def u_def)
  ultimately show ?thesis by simp
qed

text \<open>A signer whose extension is the one of the releases: the bytes behind its identifier.\<close>

definition release_id_bytes :: bytes where
  "release_id_bytes = [0xb4, 0x61, 0x3f, 0x29, 0xe9, 0xc5, 0x4b, 0x12, 0x95, 0x4b, 0xc3, 0x4b, 0xd9, 0x2d, 0xfb, 0xb2]"

definition demo_signer :: "(bytes, bytes) crx_prims" where
  "demo_signer = \<lparr>cx_sha256 = (\<lambda>b. release_id_bytes @ replicate 16 0), cx_public_der = Inr, cx_sign = (\<lambda>k d. Inr (k @ take 32 d)),
     cx_parse_public = (\<lambda>p. Inr (Some p)), cx_verify = (\<lambda>p d s. s = p @ take 32 d)\<rparr>"

lemma release_id: "id_from_crx_id release_id_bytes = chrome_extension_id"
  by code_simp

lemma demo_signer_id: "extension_id demo_signer k = chrome_extension_id"
proof -
  have "length release_id_bytes = 16" by (simp add: release_id_bytes_def)
  then show ?thesis by (simp add: extension_id_def demo_signer_def release_id)
qed

lemma demo_signed: "\<exists>data. crx_verify demo_signer data = Inr \<lparr>cp_id = chrome_extension_id, cp_public_key = [4], cp_archive = [1, 2, 3]\<rparr>"
proof -
  obtain data where d: "crx_pack demo_signer [1, 2, 3] [4] = Inr data"
    by (auto simp: crx_pack_def demo_signer_def Let_def)
  have a: "crx_agrees demo_signer" by (auto simp: crx_agrees_def demo_signer_def release_id_bytes_def)
  have "crx_verify demo_signer data = Inr \<lparr>cp_id = extension_id demo_signer [4], cp_public_key = [4], cp_archive = [1, 2, 3]\<rparr>"
    by (rule crx_pack_verifies [OF a d]) (auto simp: demo_signer_def)
  then show ?thesis by (simp add: demo_signer_id) blast
qed

definition demo_lookup :: lookup_prims where
  "demo_lookup = \<lparr>lk_json = (\<lambda>b. Inr \<lparr>mf_name = ''albear'', mf_version = ''1.0'', mf_key = ''''\<rparr>), lk_unzip = Inr\<rparr>"

definition demo_install_json :: install_json where
  "demo_install_json = \<lparr>ij_manifest = (\<lambda>m. Inr (str_bytes (nm_path m))), ij_pref = (\<lambda>p. Inr (str_bytes (ep_crx p))),
     ij_pref_line = (\<lambda>p. Inr (ep_crx p))\<rparr>"

definition demo_host :: host where
  "demo_host = \<lparr>ho_getenv = [''XDG_CONFIG_HOME'' \<mapsto> ''/c''], ho_home = Inl ErrIO, ho_linux = True, ho_exe = Inl ErrIO,
     ho_cwd = Inl ErrIO, ho_look_path = Inl ErrIO\<rparr>"

definition demo_options :: options where
  "demo_options = \<lparr>op_native_host_path = ''/h.x'', op_extension_dir = ''/e'', op_crx_path = ''/x.crx'', op_print_only = False,
     op_identity = identity_for Prod, op_system_root = ''''\<rparr>"

text \<open>A disk on which the paths without a dot are folders.\<close>

definition demo_disk_files :: "bytes \<Rightarrow> installer" where
  "demo_disk_files data = \<lparr>fs_nodes = (\<lambda>p. if p = ''/h.x'' then Some (File 493 []) else if p = ''/x.crx'' then Some (File 420 data)
       else if CHR ''.'' \<in> set p then None else Some (Dir 493)),
     fs_ok = (\<lambda>_. True), fs_part = (\<lambda>_. 0), fs_pos = 0, tmp_names = (\<lambda>_. ''1''), tmp_count = 0\<rparr>"

definition demo_manifest :: string where
  "demo_manifest = ''/c/chromium/NativeMessagingHosts/dev.albear.native.json''"
definition demo_registration :: string where
  "demo_registration = ''/c/chromium/External Extensions/legbdpcjojmfelbcjfelmdelnjcnpllc.json''"
definition demo_package :: string where
  "demo_package = ''/c/chromium/External Extensions/legbdpcjojmfelbcjfelmdelnjcnpllc.crx''"

lemma demo_places:
  "manifest_path demo_host chromium (identity_for Prod) = Inr demo_manifest"
  "external_paths demo_host chromium (identity_for Prod) = Inr (demo_registration, demo_package)"
  "path_dir demo_manifest = ''/c/chromium/NativeMessagingHosts''"
  "path_dir demo_registration = ''/c/chromium/External Extensions''"
  "path_dir demo_package = ''/c/chromium/External Extensions''"
  "path_base demo_registration = ''legbdpcjojmfelbcjfelmdelnjcnpllc.json''"
  "path_base demo_package = ''legbdpcjojmfelbcjfelmdelnjcnpllc.crx''"
  by (simp_all add: manifest_path_def native_hosts_dir_def external_paths_def config_dir_def demo_host_def env_or_def chromium_def
      path_join_def clean_path_def path_parts_def is_rooted_def identity_for_def default_identity_def native_host_name_def chrome_extension_id_def
      demo_manifest_def demo_registration_def demo_package_def path_dir_def path_base_def Let_def)

text \<open>The search and the plan.\<close>

lemma demo_plans:
  assumes d: "crx_verify demo_signer data = Inr \<lparr>cp_id = chrome_extension_id, cp_public_key = [4], cp_archive = [1, 2, 3]\<rparr>"
    and U: "trim_space U ''/h.x'' = ''/h.x''"
  shows "\<exists>p n. plan_install U demo_signer demo_lookup demo_install_json demo_host chromium demo_options (identity_for Prod) (demo_disk_files data) =
      (Inr (''/h.x'', \<lparr>fc_path = ''/x.crx'', fc_version = ''1.0'', fc_data = data\<rparr>, p), (demo_disk_files data)\<lparr>fs_pos := n\<rparr>) \<and>
    in_manifest_path p = demo_manifest \<and> in_extension p = ExtensionRegistered \<and> in_external_path p = demo_registration"
proof -
  have v: "validate_extension_id (id_extension_id (identity_for Prod)) = None" by code_simp
  have c: "clean_path ''/h.x'' = ''/h.x''" "clean_path ''/x.crx'' = ''/x.crx''" "clean_path ''/e'' = ''/e''"
    by (simp_all add: clean_path_def path_parts_def is_rooted_def)
  have f: "fs_lookup p s = (Inr n, s\<lparr>fs_pos := Suc (fs_pos s)\<rparr>)"
    if "fs_ok s (fs_pos s)" "fs_nodes s p = Some n" "\<And>q. n \<noteq> Link q" for p n and s :: installer
    using that by (cases n) (auto simp: fs_lookup_Inr_iff follow_plain follow_dir)
  have h: "resolve_native_host U demo_host demo_options s = (Inr ''/h.x'', s\<lparr>fs_pos := Suc (fs_pos s)\<rparr>)"
    if "fs_nodes s = fs_nodes (demo_disk_files data)" "fs_ok s = (\<lambda>_. True)" for s :: installer
    using that f [of s "''/h.x''" "File 493 []"]
    by (simp add: resolve_native_host_def clean_existing_file_def demo_options_def U abs_path_def is_rooted_def c mbind_unfold mguard_eq mlift_eq
        mreturn_eq demo_disk_files_def)
  have r: "resolve_crx demo_signer demo_lookup demo_host demo_options (identity_for Prod) s =
      (Inr \<lparr>fc_path = ''/x.crx'', fc_version = ''1.0'', fc_data = data\<rparr>, s\<lparr>fs_pos := Suc (fs_pos s)\<rparr>)"
    if "fs_nodes s = fs_nodes (demo_disk_files data)" "fs_ok s = (\<lambda>_. True)" for s :: installer
    using that f [of s "''/x.crx''" "File 420 data"]
    by (simp add: resolve_crx_def demo_options_def abs_path_def is_rooted_def c mbind_unfold mguard_eq mlift_eq mreturn_eq demo_disk_files_def
        read_crx_def fs_read_def d identity_for_def default_identity_def read_manifest_def demo_lookup_def decode_manifest_def)
  have e: "resolve_extension_dir demo_signer demo_lookup demo_host demo_options (identity_for Prod) s =
      (Inr ''/e'', s\<lparr>fs_pos := Suc (fs_pos s)\<rparr>)"
    if "fs_nodes s = fs_nodes (demo_disk_files data)" "fs_ok s = (\<lambda>_. True)" for s :: installer
    using that f [of s "''/e''" "Dir 493"]
    by (simp add: resolve_extension_dir_def demo_options_def abs_path_def is_rooted_def c mbind_unfold mguard_eq mlift_eq mreturn_eq demo_disk_files_def)
  have "br_external chromium" by (simp add: chromium_def)
  then show ?thesis
    by (simp add: plan_install_def v mbind_unfold mlift_eq h r e demo_disk_files_def [THEN arg_cong [where f = fs_ok]] mguard_eq mreturn_eq
        demo_places plan_extension_def)
      (rule exI, rule refl)
qed

lemma way_to_chars: "p \<in> set (way_to q) \<Longrightarrow> set p \<subseteq> set q"
  by (auto simp: way_to_def dest: in_set_takeD)

lemma demo_mkdirs:
  assumes "CHR ''.'' \<notin> set q" and "fs_ok s = (\<lambda>_. True)" and "\<And>p. CHR ''.'' \<notin> set p \<Longrightarrow> fs_nodes s p = Some (Dir 493)"
  shows "\<exists>n. fs_mkdir_all q 493 s = (Inr (), s\<lparr>fs_pos := n\<rparr>)"
  unfolding fs_mkdir_all_def
proof (rule mkdirs_present)
  fix p assume "p \<in> set (way_to q)"
  then have "CHR ''.'' \<notin> set p" using way_to_chars assms(1) by blast
  from assms(3) [OF this] show "\<exists>d. fs_nodes s p = Some (Dir d)" by blast
qed (simp add: assms)

lemma demo_paths_facts:
  "CHR ''.'' \<notin> set (path_dir demo_manifest)" "CHR ''.'' \<notin> set (path_dir demo_registration)"
  "trim_suffix demo_registration ''.json'' @ ''.crx'' = demo_package"
  "CHR ''.'' \<in> set demo_manifest" "CHR ''.'' \<in> set demo_package" "CHR ''.'' \<in> set demo_registration"
  "demo_manifest \<notin> {''/h.x'', ''/x.crx''}" "demo_package \<notin> {''/h.x'', ''/x.crx'', demo_manifest}"
  "demo_registration \<notin> {''/h.x'', ''/x.crx'', demo_manifest, demo_package}"
  "temp_prefix demo_package @ ''1'' = ''/c/chromium/External Extensions/.legbdpcjojmfelbcjfelmdelnjcnpllc.crx.1''"
  "temp_prefix demo_registration @ ''1'' = ''/c/chromium/External Extensions/.legbdpcjojmfelbcjfelmdelnjcnpllc.json.1''"
  unfolding temp_prefix_def demo_places by code_simp+

definition demo_temps :: "string list" where
  "demo_temps = [''/c/chromium/External Extensions/.legbdpcjojmfelbcjfelmdelnjcnpllc.crx.1'',
     ''/c/chromium/External Extensions/.legbdpcjojmfelbcjfelmdelnjcnpllc.json.1'']"

lemma demo_temps_facts:
  "list_all (\<lambda>p. CHR ''.'' \<in> set p \<and> p \<notin> {''/h.x'', ''/x.crx'', demo_manifest, demo_package, demo_registration}) demo_temps"
  by code_simp

lemma demo_trims: "trim_space plain_web ''/h.x'' = ''/h.x''"
  by (rule trim_space_ascii) (simp_all add: ascii_def is_space_def plain_web_def)

lemma demo_installs:
  assumes d: "crx_verify demo_signer data = Inr \<lparr>cp_id = chrome_extension_id, cp_public_key = [4], cp_archive = [1, 2, 3]\<rparr>"
    and U: "trim_space U ''/h.x'' = ''/h.x''"
  shows "\<exists>r t. install U demo_signer demo_lookup demo_install_json demo_host chromium demo_options (demo_disk_files data) = (Inr r, t) \<and>
    in_wrote_external r \<and> solid t demo_registration \<noteq> None"
proof -
  from demo_plans [OF d U] obtain p n where pl: "plan_install U demo_signer demo_lookup demo_install_json demo_host chromium demo_options (identity_for Prod) (demo_disk_files data) =
      (Inr (''/h.x'', \<lparr>fc_path = ''/x.crx'', fc_version = ''1.0'', fc_data = data\<rparr>, p), (demo_disk_files data)\<lparr>fs_pos := n\<rparr>)"
    and p: "in_manifest_path p = demo_manifest" "in_extension p = ExtensionRegistered" "in_external_path p = demo_registration" by blast
  let ?pkg = "\<lparr>fc_path = ''/x.crx'', fc_version = ''1.0'', fc_data = data\<rparr>"
  have i: "or_default (op_identity demo_options) = identity_for Prod"
    by (simp add: or_default_def demo_options_def identity_for_def default_identity_def native_host_name_def)
  have dots: "fs_nodes (demo_disk_files data) q = (if q = ''/h.x'' then Some (File 493 []) else if q = ''/x.crx'' then Some (File 420 data)
       else if CHR ''.'' \<in> set q then None else Some (Dir 493))" for q by (simp add: demo_disk_files_def)
  have ok: "fs_ok (demo_disk_files data) = (\<lambda>_. True)" "tmp_names (demo_disk_files data) = (\<lambda>_. ''1'')" by (simp_all add: demo_disk_files_def)
  have plain: "fs_nodes (demo_disk_files data) q = Some (Dir 493)" if "CHR ''.'' \<notin> set q" for q
    using that by (auto simp: dots)
  obtain n1 where m: "fs_mkdir_all (path_dir demo_manifest) 493 ((demo_disk_files data)\<lparr>fs_pos := n\<rparr>) = (Inr (), (demo_disk_files data)\<lparr>fs_pos := n1\<rparr>)"
    using demo_mkdirs [of "path_dir demo_manifest" "(demo_disk_files data)\<lparr>fs_pos := n\<rparr>"] demo_paths_facts(1) plain by (simp add: ok) blast
  obtain md where w: "fs_write_file demo_manifest 420 (str_bytes ''/h.x'') ((demo_disk_files data)\<lparr>fs_pos := n1\<rparr>) = (Inr (), (demo_disk_files data)\<lparr>fs_pos := n1\<rparr>
      \<lparr>fs_nodes := (fs_nodes (demo_disk_files data))(demo_manifest \<mapsto> File md (str_bytes ''/h.x'')), fs_pos := n1 + 3\<rparr>)"
    using write_file_works [of "(demo_disk_files data)\<lparr>fs_pos := n1\<rparr>" demo_manifest 420 "str_bytes ''/h.x''"] demo_paths_facts by (auto simp: dots ok)
  define u where "u = (demo_disk_files data)\<lparr>fs_pos := n1 + 3, fs_nodes := (fs_nodes (demo_disk_files data))(demo_manifest \<mapsto> File md (str_bytes ''/h.x''))\<rparr>"
  have nu: "fs_nodes u q = (if q = demo_manifest then Some (File md (str_bytes ''/h.x'')) else fs_nodes (demo_disk_files data) q)" for q by (simp add: u_def)
  have plain_u: "fs_nodes u q = Some (Dir 493)" if "CHR ''.'' \<notin> set q" for q
    using that demo_paths_facts(4) by (auto simp: nu plain)
  have ok_u: "fs_ok u = (\<lambda>_. True)" "tmp_names u = (\<lambda>_. ''1'')" by (simp_all add: u_def ok)
  obtain n2 where m2: "fs_mkdir_all (path_dir demo_registration) 493 u = (Inr (), u\<lparr>fs_pos := n2\<rparr>)"
    using demo_mkdirs [of "path_dir demo_registration" u] demo_paths_facts(2) plain_u by (simp add: ok_u) blast
  obtain v where v: "write_file_atomic demo_package data (u\<lparr>fs_pos := n2\<rparr>) = (Inr (), v)" "fs_nodes v = (fs_nodes u)(demo_package \<mapsto> File 420 data)"
    "fs_ok v = (\<lambda>_. True)" "tmp_names v = (\<lambda>_. ''1'')"
    using write_file_atomic_works [of "u\<lparr>fs_pos := n2\<rparr>" demo_package data] demo_paths_facts demo_temps_facts
    by (auto simp: u_def ok dots demo_temps_def)
  obtain z where z: "write_file_atomic demo_registration (str_bytes demo_package @ [10]) v = (Inr (), z)"
    "fs_nodes z = (fs_nodes v)(demo_registration \<mapsto> File 420 (str_bytes demo_package @ [10]))"
    using write_file_atomic_works [of v demo_registration "str_bytes demo_package @ [10]"] demo_paths_facts demo_temps_facts v
    by (auto simp: nu ok dots demo_temps_def)
  have u: "(demo_disk_files data)\<lparr>fs_nodes := (fs_nodes (demo_disk_files data))(demo_manifest \<mapsto> File md (str_bytes ''/h.x'')), fs_pos := n1 + 3\<rparr> = u"
    by (simp add: u_def)
  have po: "\<not> op_print_only demo_options" by (simp add: demo_options_def)
  have bm: "build_manifest demo_install_json k q = Inr (str_bytes q)" for k q by (simp add: build_manifest_def demo_install_json_def)
  have pf: "ij_pref demo_install_json e = Inr (str_bytes (ep_crx e))" for e by (simp add: demo_install_json_def)
  have x: "write_external demo_install_json demo_registration ?pkg u = (Inr (), z)"
    using m2 v(1) z(1) by (simp add: write_external_def demo_paths_facts(3) mbind_unfold pf mlift_eq)
  have c: "carry_out demo_install_json (identity_for Prod) ''/h.x'' ?pkg p ((demo_disk_files data)\<lparr>fs_pos := n\<rparr>) =
      (Inr (p\<lparr>in_wrote_manifest := True, in_wrote_external := True\<rparr>), z)"
    using m w x by (simp add: carry_out_def mbind_unfold bm mlift_eq p u mreturn_eq)
  have "install U demo_signer demo_lookup demo_install_json demo_host chromium demo_options (demo_disk_files data) =
      (Inr (p\<lparr>in_wrote_manifest := True, in_wrote_external := True\<rparr>), z)"
    by (simp add: install_def Let_def i mbind_unfold pl c po)
  then show ?thesis by (simp add: z(2) solid_def)
qed

end
