(* ===== verification/Updates.thy ===== *)
theory Updates
  imports Files
begin

text \<open>
  The update check behind the command line's notice (\<^verbatim>\<open>internal/update/update.go\<close>): a
  cache file that is read on every command and refreshed from the release API at most once per
  day. HTTP and JSON are parameters; the replies of the server are part of the environment, and
  the requests made are recorded, since the claims are about them. The refresh runs while the
  command works; nothing but the cache joins the two, and the notice waits for its end, so it is
  a step before the notice here.
\<close>

section \<open>State\<close>

record cache_state =
  cs_checked_at :: go_time
  cs_latest_tag :: string
  cs_html_url :: string

definition empty_cache :: cache_state where
  "empty_cache = \<lparr>cs_checked_at = zero_time, cs_latest_tag = '''', cs_html_url = ''''\<rparr>"

record release =
  rs_tag :: string
  rs_url :: string

record http_reply =
  hr_status :: int
  hr_body :: bytes

record checker =
  ck_version :: string
  ck_repo :: string
  ck_api_base :: string
  ck_cache_path :: string
  ck_source :: string

record online = fsys +
  on_clock :: "nat \<Rightarrow> go_time"
  on_ticks :: nat
  on_replies :: "nat \<Rightarrow> err + http_reply"
  on_requests :: "string list"

record update_json =
  uj_cache :: "cache_state \<Rightarrow> err + bytes"
  uj_un_cache :: "bytes \<Rightarrow> cache_state option"
  uj_un_release :: "bytes \<Rightarrow> err + string \<times> string"
  uj_url :: "string \<Rightarrow> err option"

definition default_repo :: string where "default_repo = ''m7medVision/albear''"
definition cache_file :: string where "cache_file = ''update-check.json''"
definition cache_ttl :: int where "cache_ttl = 24 * 60 * 60 * 1000000000"
definition env_repo :: string where "env_repo = ''ALBEAR_UPDATE_REPO''"
definition env_disable :: string where "env_disable = ''ALBEAR_NO_UPDATE_CHECK''"
definition source_arch :: string where "source_arch = ''arch''"
definition reply_limit :: nat where "reply_limit = 1048576"

section \<open>Operations\<close>

definition new_checker :: "(string \<Rightarrow> string option) \<Rightarrow> err + paths \<Rightarrow> string \<Rightarrow> string \<Rightarrow> checker" where
  "new_checker getenv resolved install_source current =
     \<lparr>ck_version = current,
      ck_repo = env_or getenv env_repo default_repo,
      ck_api_base = ''https://api.github.com'',
      ck_cache_path = (case resolved of Inl _ \<Rightarrow> '''' | Inr p \<Rightarrow> path_join [pt_config p, cache_file]),
      ck_source = install_source\<rparr>"

definition enabled :: "(string \<Rightarrow> string option) \<Rightarrow> checker \<Rightarrow> bool" where
  "enabled getenv c \<longleftrightarrow>
     env_or getenv env_disable '''' = '''' \<and> ck_version c \<noteq> ''dev'' \<and> ck_cache_path c \<noteq> ''''"

definition clock_now :: "('a online_scheme, err, go_time) prog" where
  "clock_now = (\<lambda>s. (Inr (on_clock s (on_ticks s)), s\<lparr>on_ticks := Suc (on_ticks s)\<rparr>))"

definition http_get :: "string \<Rightarrow> ('a online_scheme, err, http_reply) prog" where
  "http_get url = (\<lambda>s. (on_replies s (length (on_requests s)), s\<lparr>on_requests := on_requests s @ [url]\<rparr>))"

definition read_cache :: "update_json \<Rightarrow> checker \<Rightarrow> ('a fsys_scheme, err, cache_state \<times> bool) prog" where
  "read_cache J c =
     mbind (attempt (fs_read (ck_cache_path c))) (\<lambda>r. case r of
       Inl _ \<Rightarrow> mreturn (empty_cache, False)
     | Inr raw \<Rightarrow>
         (case uj_un_cache J raw of
            None \<Rightarrow> mreturn (empty_cache, False)
          | Some st \<Rightarrow> if cs_checked_at st = zero_time then mreturn (empty_cache, False) else mreturn (st, True)))"

definition write_cache :: "update_json \<Rightarrow> checker \<Rightarrow> cache_state \<Rightarrow> ('a fsys_scheme, err, unit) prog" where
  "write_cache J c st =
     (case uj_cache J st of
        Inl _ \<Rightarrow> mreturn ()
      | Inr raw \<Rightarrow>
          mbind (attempt (fs_mkdir_all (path_dir (ck_cache_path c)) 448)) (\<lambda>r. case r of
            Inl _ \<Rightarrow> mreturn ()
          | Inr _ \<Rightarrow> ignore_error (fs_write_file (ck_cache_path c) 384 raw)))"

definition release_url :: "checker \<Rightarrow> string" where
  "release_url c = ck_api_base c @ ''/repos/'' @ ck_repo c @ ''/releases/latest''"

definition check_now :: "update_json \<Rightarrow> checker \<Rightarrow> ('a online_scheme, err, release) prog" where
  "check_now J c =
     (let url = release_url c in
      case uj_url J url of Some e \<Rightarrow> mthrow e | None \<Rightarrow>
      mbind (http_get url) (\<lambda>resp.
      mbind (mguard (hr_status resp = 200) (ErrOther ''update: GitHub responded'')) (\<lambda>_.
      mbind (mlift (uj_un_release J (take reply_limit (hr_body resp)))) (\<lambda>(tag, html_url).
      mbind (mguard (tag \<noteq> '''') (ErrOther ''update: release has no tag_name'')) (\<lambda>_.
      mbind clock_now (\<lambda>t.
      mbind (write_cache J c \<lparr>cs_checked_at = t, cs_latest_tag = tag, cs_html_url = html_url\<rparr>) (\<lambda>_.
      mreturn \<lparr>rs_tag = tag, rs_url = html_url\<rparr>)))))))"

text \<open>\<^verbatim>\<open>Background\<close>, with the refresh it may start. The first clock is only read when the cache is
  there.\<close>

definition refresh :: "update_json \<Rightarrow> checker \<Rightarrow> cache_state \<Rightarrow> ('a online_scheme, err, unit) prog" where
  "refresh J c st =
     mbind (attempt (check_now J c)) (\<lambda>r. case r of
       Inr _ \<Rightarrow> mreturn ()
     | Inl _ \<Rightarrow> mbind clock_now (\<lambda>t. write_cache J c (st\<lparr>cs_checked_at := t\<rparr>)))"

definition background :: "(string \<Rightarrow> string option) \<Rightarrow> update_json \<Rightarrow> checker \<Rightarrow> ('a online_scheme, err, unit) prog" where
  "background getenv J c =
     mbind (read_cache J c) (\<lambda>(st, ok).
     if \<not> enabled getenv c then mreturn () else
     mbind (if ok then mbind clock_now (\<lambda>t. mreturn (t - cs_checked_at st < cache_ttl)) else mreturn False) (\<lambda>fresh.
     if fresh then mreturn () else refresh J c st))"

definition upgrade_hint :: "checker \<Rightarrow> release \<Rightarrow> string" where
  "upgrade_hint c rel =
     (if ck_source c = source_arch then ''update with: paru -Syu''
      else if rs_url rel \<noteq> '''' then rs_url rel
      else ''https://github.com/'' @ ck_repo c @ ''/releases/latest'')"

definition notice_line :: "string \<Rightarrow> string \<Rightarrow> string \<Rightarrow> string" where
  "notice_line current latest hint =
     ''vault: update available '' @ current @ '' -> '' @ latest @ '' '' @ [CHR 0xE2, CHR 0x80, CHR 0x94] @ '' '' @
     hint @ '' (set '' @ env_disable @ ''=1 to silence)''"

definition notice ::
  "'u unicode_tables_scheme \<Rightarrow> (string \<Rightarrow> string option) \<Rightarrow> update_json \<Rightarrow> checker \<Rightarrow> ('a fsys_scheme, err, string option) prog" where
  "notice U getenv J c =
     (if \<not> enabled getenv c then mreturn None else
      mbind (read_cache J c) (\<lambda>(st, ok).
      if \<not> ok \<or> \<not> is_newer U (cs_latest_tag st) (ck_version c) then mreturn None
      else mreturn (Some (notice_line (ck_version c) (cs_latest_tag st)
             (upgrade_hint c \<lparr>rs_tag = cs_latest_tag st, rs_url = cs_html_url st\<rparr>)))))"

section \<open>The cache\<close>

definition cached :: "update_json \<Rightarrow> checker \<Rightarrow> (string \<Rightarrow> node option) \<Rightarrow> cache_state \<times> bool" where
  "cached J c m =
     (case follow 40 m (ck_cache_path c) of
        Some (File _ raw) \<Rightarrow>
          (case uj_un_cache J raw of
             Some st \<Rightarrow> if cs_checked_at st = zero_time then (empty_cache, False) else (st, True)
           | None \<Rightarrow> (empty_cache, False))
      | _ \<Rightarrow> (empty_cache, False))"

lemma read_cache_eq:
  "fs_ok s (fs_pos s) \<Longrightarrow> read_cache J c s = (Inr (cached J c (fs_nodes s)), s\<lparr>fs_pos := Suc (fs_pos s)\<rparr>)"
  by (simp add: read_cache_def cached_def fs_read_def fs_lookup_def fs_op_def mbind_unfold attempt_def mget_eq mthrow_eq mreturn_eq
      err_not_exist_def split: option.split node.split)

lemma read_cache_any: "\<exists>r. read_cache J c s = (Inr r, s\<lparr>fs_pos := Suc (fs_pos s)\<rparr>) \<and> (snd r \<longrightarrow> r = cached J c (fs_nodes s))"
proof (cases "fs_ok s (fs_pos s)")
  case True
  then show ?thesis by (simp add: read_cache_eq)
next
  case False
  then have "read_cache J c s = (Inr (empty_cache, False), s\<lparr>fs_pos := Suc (fs_pos s)\<rparr>)"
    by (simp add: read_cache_def fs_read_def fs_lookup_def fs_op_def mbind_unfold attempt_def mreturn_eq)
  then show ?thesis by simp
qed

text \<open>A folder in which the cache can be written.\<close>

definition cache_ready :: "checker \<Rightarrow> 'a fsys_scheme \<Rightarrow> bool" where
  "cache_ready c s \<longleftrightarrow> (\<forall>n. fs_ok s n) \<and>
     (\<forall>p \<in> set (way_to (path_dir (ck_cache_path c))). \<exists>d. fs_nodes s p = Some (Dir d)) \<and>
     (fs_nodes s (ck_cache_path c) = None \<or> (\<exists>a b. fs_nodes s (ck_cache_path c) = Some (File a b)))"

definition cache_json :: "update_json \<Rightarrow> bool" where
  "cache_json J \<longleftrightarrow> (\<forall>st. \<exists>raw. uj_cache J st = Inr raw \<and> uj_un_cache J raw = Some st)"

lemma write_cache_works:
  assumes "cache_json J" and "cache_ready c s" and "cs_checked_at st \<noteq> zero_time"
  shows "\<exists>n m. write_cache J c st s = (Inr (), s\<lparr>fs_nodes := m, fs_pos := n\<rparr>) \<and> cached J c m = (st, True)"
proof -
  from assms(1) obtain raw where raw: "uj_cache J st = Inr raw" "uj_un_cache J raw = Some st" unfolding cache_json_def by blast
  have ok: "\<And>n. fs_ok s n" using assms(2) by (simp add: cache_ready_def)
  from mkdirs_present [of s "way_to (path_dir (ck_cache_path c))" 448] assms(2)
  obtain n where mk: "fs_mkdir_all (path_dir (ck_cache_path c)) 448 s = (Inr (), s\<lparr>fs_pos := n\<rparr>)"
    unfolding cache_ready_def fs_mkdir_all_def by blast
  obtain md where w: "fs_write_file (ck_cache_path c) 384 raw (s\<lparr>fs_pos := n\<rparr>) =
      (Inr (), s\<lparr>fs_pos := n\<rparr>\<lparr>fs_nodes := (fs_nodes s)(ck_cache_path c \<mapsto> File md raw), fs_pos := n + 3\<rparr>)"
    using write_file_works [of "s\<lparr>fs_pos := n\<rparr>" "ck_cache_path c" 384 raw] assms(2) by (auto simp: cache_ready_def)
  have "write_cache J c st s = (Inr (), s\<lparr>fs_nodes := (fs_nodes s)(ck_cache_path c \<mapsto> File md raw), fs_pos := n + 3\<rparr>)"
    by (simp add: write_cache_def raw mbind_unfold attempt_def mk w ignore_error_def mreturn_eq)
  moreover have "cached J c ((fs_nodes s)(ck_cache_path c \<mapsto> File md raw)) = (st, True)"
    using assms(3) by (simp add: cached_def raw follow_plain)
  ultimately show ?thesis by blast
qed

section \<open>At most one request a day\<close>

lemma check_now_cases:
  assumes "check_now J c s = (r, t)" and "cache_json J" and "cache_ready c s" and "\<And>n. on_clock s n \<noteq> zero_time"
  shows "on_clock t = on_clock s \<and> (on_requests t = on_requests s \<or> (\<exists>url. on_requests t = on_requests s @ [url])) \<and>
    (case r of
       Inl _ \<Rightarrow> on_ticks t = on_ticks s \<and> fs_nodes t = fs_nodes s \<and> fs_ok t = fs_ok s
     | Inr rel \<Rightarrow> cached J c (fs_nodes t) =
         (\<lparr>cs_checked_at = on_clock s (on_ticks s), cs_latest_tag = rs_tag rel, cs_html_url = rs_url rel\<rparr>, True))"
proof (cases "uj_url J (release_url c)")
  case (Some e)
  with assms(1) show ?thesis by (auto simp: check_now_def mthrow_eq)
next
  case None
  let ?u = "s\<lparr>on_requests := on_requests s @ [release_url c]\<rparr>"
  have "\<exists>n m. write_cache J c \<lparr>cs_checked_at = on_clock s (on_ticks s), cs_latest_tag = tag, cs_html_url = html\<rparr> (?u\<lparr>on_ticks := Suc (on_ticks s)\<rparr>) =
      (Inr (), ?u\<lparr>on_ticks := Suc (on_ticks s)\<rparr>\<lparr>fs_nodes := m, fs_pos := n\<rparr>) \<and>
      cached J c m = (\<lparr>cs_checked_at = on_clock s (on_ticks s), cs_latest_tag = tag, cs_html_url = html\<rparr>, True)" for tag html
    by (rule write_cache_works [OF assms(2)]) (use assms(3,4) in \<open>simp_all add: cache_ready_def\<close>)
  then obtain n m where w: "write_cache J c \<lparr>cs_checked_at = on_clock s (on_ticks s), cs_latest_tag = tag, cs_html_url = html\<rparr> (?u\<lparr>on_ticks := Suc (on_ticks s)\<rparr>) =
      (Inr (), ?u\<lparr>on_ticks := Suc (on_ticks s)\<rparr>\<lparr>fs_nodes := m tag html, fs_pos := n tag html\<rparr>)"
    "cached J c (m tag html) = (\<lparr>cs_checked_at = on_clock s (on_ticks s), cs_latest_tag = tag, cs_html_url = html\<rparr>, True)" for tag html
    by metis
  from assms(1) None show ?thesis
    by (auto simp: check_now_def mbind_unfold http_get_def mguard_eq mlift_eq clock_now_def w mreturn_eq
        split: sum.splits prod.splits if_splits)
qed

lemma background_eq:
  assumes "read_cache J c s = (Inr (st, ok), u)"
  shows "background getenv J c s =
    (if \<not> enabled getenv c then (Inr (), u)
     else if \<not> ok then refresh J c st u
     else if on_clock u (on_ticks u) - cs_checked_at st < cache_ttl then (Inr (), u\<lparr>on_ticks := Suc (on_ticks u)\<rparr>)
     else refresh J c st (u\<lparr>on_ticks := Suc (on_ticks u)\<rparr>))"
proof -
  have rb: "mbind (read_cache J c) f s = f (st, ok) u" for f :: "_ \<Rightarrow> ('a online_scheme, err, unit) prog"
    using assms by (rule mbind_Inr)
  show ?thesis unfolding background_def rb by (simp add: mbind_unfold clock_now_def mreturn_eq)
qed

lemma background_caches:
  assumes b: "background getenv J c s = (Inr (), t)" and J: "cache_json J" and r: "cache_ready c s"
    and m: "mono (on_clock s)" and z: "\<And>n. on_clock s n \<noteq> zero_time" and q: "on_requests t \<noteq> on_requests s"
  shows "length (on_requests t) = Suc (length (on_requests s)) \<and>
    (\<exists>st. cached J c (fs_nodes t) = (st, True) \<and> on_clock s (on_ticks s) \<le> cs_checked_at st)"
proof -
  obtain st ok where c: "cached J c (fs_nodes s) = (st, ok)" by fastforce
  have rc: "read_cache J c s = (Inr (st, ok), s\<lparr>fs_pos := Suc (fs_pos s)\<rparr>)"
    using read_cache_eq [of s J c] r c by (simp add: cache_ready_def)
  from b q obtain k where k: "on_ticks s \<le> k" and rf: "refresh J c st (s\<lparr>fs_pos := Suc (fs_pos s), on_ticks := k\<rparr>) = (Inr (), t)"
  proof (cases ok)
    case True
    with b q that [of "Suc (on_ticks s)"] show ?thesis by (auto simp: background_eq [OF rc] split: if_splits)
  next
    case False
    with b q that [of "on_ticks s"] show ?thesis by (auto simp: background_eq [OF rc] split: if_splits)
  qed
  from rf obtain x u where x: "check_now J c (s\<lparr>fs_pos := Suc (fs_pos s), on_ticks := k\<rparr>) = (x, u)"
    and rest: "(case x of
       Inr _ \<Rightarrow> mreturn ()
     | Inl _ \<Rightarrow> mbind clock_now (\<lambda>t. write_cache J c (st\<lparr>cs_checked_at := t\<rparr>))) u = (Inr (), t)"
    unfolding refresh_def by (auto simp: mbind_Inr_iff attempt_Inr_iff)
  have r': "cache_ready c (s\<lparr>fs_pos := Suc (fs_pos s), on_ticks := k\<rparr>)" using r by (simp add: cache_ready_def)
  note cn = check_now_cases [OF x J r', simplified, OF z]
  have mk: "on_clock s (on_ticks s) \<le> on_clock s k" using m k by (simp add: monoD)
  show ?thesis
  proof (cases x)
    case (Inr rel)
    with rest have "t = u" by (simp add: mreturn_eq)
    with cn Inr mk q show ?thesis by auto
  next
    case (Inl e)
    then have u: "on_ticks u = k" "fs_nodes u = fs_nodes s" "fs_ok u = fs_ok s" "on_clock u = on_clock s" using cn by simp_all
    have "cache_ready c (u\<lparr>on_ticks := Suc k\<rparr>)" using r u by (simp add: cache_ready_def)
    from write_cache_works [OF J this, of "st\<lparr>cs_checked_at := on_clock s k\<rparr>"] z
    obtain n mm where w: "write_cache J c (st\<lparr>cs_checked_at := on_clock s k\<rparr>) (u\<lparr>on_ticks := Suc k\<rparr>) =
        (Inr (), u\<lparr>on_ticks := Suc k\<rparr>\<lparr>fs_nodes := mm, fs_pos := n\<rparr>)" "cached J c mm = (st\<lparr>cs_checked_at := on_clock s k\<rparr>, True)" by auto
    have "t = u\<lparr>on_ticks := Suc k\<rparr>\<lparr>fs_nodes := mm, fs_pos := n\<rparr>"
      using rest Inl u w by (simp add: mbind_unfold clock_now_def)
    with w mk q cn show ?thesis by auto
  qed
qed

lemma background_fresh:
  assumes "cached J c (fs_nodes s) = (st, True)" and "\<And>n. fs_ok s n"
    and "on_clock s (on_ticks s) - cs_checked_at st < cache_ttl"
  shows "on_requests (snd (background getenv J c s)) = on_requests s"
proof -
  have rc: "read_cache J c s = (Inr (st, True), s\<lparr>fs_pos := Suc (fs_pos s)\<rparr>)"
    using read_cache_eq [of s J c] assms by simp
  show ?thesis using assms(3) by (simp add: background_eq [OF rc])
qed

lemma at_most_one_request_a_day:
  assumes "background getenv J c s = (Inr (), t)" and "cache_json J" and "cache_ready c s"
    and "mono (on_clock s)" and "\<And>n. on_clock s n \<noteq> zero_time" and "on_requests t \<noteq> on_requests s"
    and "fs_nodes u = fs_nodes t" and "\<And>n. fs_ok u n" and "on_clock u (on_ticks u) < on_clock s (on_ticks s) + cache_ttl"
  shows "length (on_requests t) = Suc (length (on_requests s)) \<and> on_requests (snd (background getenv J c u)) = on_requests u"
proof -
  from background_caches [OF assms(1-6)] obtain st where st: "cached J c (fs_nodes t) = (st, True)"
    "on_clock s (on_ticks s) \<le> cs_checked_at st" "length (on_requests t) = Suc (length (on_requests s))" by blast
  with background_fresh [of J c u st getenv] assms(7-9) show ?thesis by auto
qed

text \<open>A check that is switched off neither asks nor writes.\<close>

lemma background_disabled:
  assumes "\<not> enabled getenv c"
  shows "on_requests (snd (background getenv J c s)) = on_requests s \<and> fs_nodes (snd (background getenv J c s)) = fs_nodes s \<and>
    notice U getenv J c s = (Inr None, s)"
  using assms read_cache_any [of J c s] background_eq [of J c s _ _ "s\<lparr>fs_pos := Suc (fs_pos s)\<rparr>" getenv]
  by (auto simp: notice_def mreturn_eq)

text \<open>The notice names a release that is newer than the running version in the order of versions.\<close>

lemma notice_Some:
  assumes "notice U getenv J c s = (Inr (Some line), t)"
  shows "enabled getenv c \<and> (\<exists>st hint. cached J c (fs_nodes s) = (st, True) \<and>
    version_key U (ck_version c) \<noteq> None \<and> version_key U (ck_version c) < version_key U (cs_latest_tag st) \<and>
    line = notice_line (ck_version c) (cs_latest_tag st) hint)"
proof -
  obtain st ok where r: "read_cache J c s = (Inr (st, ok), s\<lparr>fs_pos := Suc (fs_pos s)\<rparr>)" "ok \<Longrightarrow> cached J c (fs_nodes s) = (st, ok)"
    using read_cache_any [of J c s] by (metis prod.collapse snd_conv)
  with assms show ?thesis
    by (auto simp: notice_def mbind_unfold mreturn_eq is_newer_iff split: if_splits)
qed

section \<open>A concrete check\<close>

text \<open>A stored form for the cache: numbers in unary, texts behind their length.\<close>

definition put_nat :: "nat \<Rightarrow> bytes" where "put_nat n = replicate n 1 @ [0]"

fun take_nat :: "bytes \<Rightarrow> (nat \<times> bytes) option" where
  "take_nat [] = None"
| "take_nat (b # bs) = (if b = 0 then Some (0, bs) else map_option (\<lambda>(n, r). (Suc n, r)) (take_nat bs))"

definition put_text :: "string \<Rightarrow> bytes" where "put_text s = put_nat (length s) @ str_bytes s"

definition take_text :: "bytes \<Rightarrow> (string \<times> bytes) option" where
  "take_text b = map_option (\<lambda>(n, r). (bytes_str (take n r), drop n r)) (take_nat b)"

definition put_cache :: "cache_state \<Rightarrow> bytes" where
  "put_cache st = put_nat (nat (cs_checked_at st)) @ put_nat (nat (- cs_checked_at st)) @
     put_text (cs_latest_tag st) @ put_text (cs_html_url st)"

definition take_cache :: "bytes \<Rightarrow> cache_state option" where
  "take_cache b =
     Option.bind (take_nat b) (\<lambda>(p, b).
     Option.bind (take_nat b) (\<lambda>(n, b).
     Option.bind (take_text b) (\<lambda>(tag, b).
     Option.bind (take_text b) (\<lambda>(url, _).
     Some \<lparr>cs_checked_at = int p - int n, cs_latest_tag = tag, cs_html_url = url\<rparr>))))"

lemma take_put_nat: "take_nat (put_nat n @ r) = Some (n, r)"
  by (induction n) (simp_all add: put_nat_def)

lemma take_put_text: "take_text (put_text s @ r) = Some (s, r)"
proof -

  show ?thesis by (simp add: take_text_def put_text_def take_put_nat)
qed

lemma take_put_cache: "take_cache (put_cache st) = Some st"
  using take_put_text [of "cs_html_url st" "[]"]
  by (cases st) (simp add: take_cache_def put_cache_def take_put_nat take_put_text)

definition plain_update_json :: update_json where
  "plain_update_json = \<lparr>uj_cache = (\<lambda>st. Inr (put_cache st)), uj_un_cache = take_cache,
     uj_un_release = (\<lambda>b. Inr (bytes_str b, '''')), uj_url = (\<lambda>_. None)\<rparr>"

lemma plain_cache_json: "cache_json plain_update_json"
  by (simp add: cache_json_def plain_update_json_def take_put_cache)

definition demo_checker :: checker where
  "demo_checker = \<lparr>ck_version = ''v1.0.0'', ck_repo = default_repo, ck_api_base = '''', ck_cache_path = ''/c'', ck_source = ''''\<rparr>"

definition demo_online :: online where
  "demo_online = \<lparr>fs_nodes = [''/'' \<mapsto> Dir 493], fs_ok = (\<lambda>_. True), fs_part = (\<lambda>_. 0), fs_pos = 0,
     on_clock = int \<circ> Suc, on_ticks = 0,
     on_replies = (\<lambda>_. Inr \<lparr>hr_status = 200, hr_body = str_bytes ''v1.1.0''\<rparr>), on_requests = []\<rparr>"

lemma demo_folder: "path_dir ''/c'' = ''/''"
  by (simp add: path_dir_def clean_path_def path_parts_def is_rooted_def)

lemma demo_cache_ready: "cache_ready demo_checker demo_online"
  by (simp add: cache_ready_def demo_checker_def demo_online_def demo_folder way_to_def)

lemma demo_clock: "mono (on_clock demo_online)" "on_clock demo_online n \<noteq> zero_time"
  by (simp_all add: demo_online_def mono_def zero_time_def)

lemma demo_asks:
  "\<exists>t. background (\<lambda>_. None) plain_update_json demo_checker demo_online = (Inr (), t) \<and> on_requests t \<noteq> on_requests demo_online"
proof -
  have c: "read_cache plain_update_json demo_checker demo_online = (Inr (empty_cache, False), demo_online\<lparr>fs_pos := 1\<rparr>)"
  proof -
    have "cached plain_update_json demo_checker (fs_nodes demo_online) = (empty_cache, False)"
      by (simp add: cached_def demo_online_def demo_checker_def follow_none)
    then show ?thesis using read_cache_eq [of demo_online plain_update_json demo_checker] by (simp add: demo_online_def)
  qed
  let ?s = "demo_online\<lparr>fs_pos := 1\<rparr>"
  obtain r t where x: "check_now plain_update_json demo_checker ?s = (r, t)" by fastforce
  let ?u = "demo_online\<lparr>fs_pos := 1, on_requests := [release_url demo_checker], on_ticks := 1\<rparr>"
  have "cache_ready demo_checker ?u" using demo_cache_ready by (simp add: cache_ready_def)
  from write_cache_works [OF plain_cache_json this, of "\<lparr>cs_checked_at = 1, cs_latest_tag = ''v1.1.0'', cs_html_url = ''''\<rparr>"]
  obtain n m where w: "write_cache plain_update_json demo_checker \<lparr>cs_checked_at = 1, cs_latest_tag = ''v1.1.0'', cs_html_url = ''''\<rparr> ?u =
      (Inr (), ?u\<lparr>fs_nodes := m, fs_pos := n\<rparr>)" by (auto simp: zero_time_def)
  have b: "take reply_limit (str_bytes ''v1.1.0'') = str_bytes ''v1.1.0''" by (simp add: reply_limit_def)
  have "check_now plain_update_json demo_checker ?s = (Inr \<lparr>rs_tag = ''v1.1.0'', rs_url = ''''\<rparr>, ?u\<lparr>fs_nodes := m, fs_pos := n\<rparr>)"
    using w b
    by (simp add: check_now_def plain_update_json_def demo_online_def mbind_unfold http_get_def mguard_eq mlift_eq clock_now_def mreturn_eq)
  then have "refresh plain_update_json demo_checker empty_cache ?s = (Inr (), ?u\<lparr>fs_nodes := m, fs_pos := n\<rparr>)"
    by (simp add: refresh_def mbind_unfold attempt_def mreturn_eq)
  moreover have "enabled (\<lambda>_. None) demo_checker" by (simp add: enabled_def env_or_def demo_checker_def)
  ultimately show ?thesis by (simp add: background_eq [OF c]) (simp add: demo_online_def)
qed

end
