(* ===== verification/Migrations.thy ===== *)
theory Migrations
  imports Versions
begin

text \<open>
  Schema migrations (\<^verbatim>\<open>internal/infrastructure/sqlite/migrations.go\<close>): the embedded scripts applied
  in the order of their names, each in its transaction, with a checksum that later starts compare.
  What a script does to the tables is a parameter, as is SHA-256.
\<close>

section \<open>The database and its record of migrations\<close>

record mig_row =
  mi_version :: int
  mi_applied_at :: int
  mi_checksum :: bytes

record 'd mig_db =
  mg_data :: 'd
  mg_rows :: "mig_row list option"
  mg_now :: go_time
  mg_ok :: "nat \<Rightarrow> bool"
  mg_pos :: nat

record 'd mig_prims =
  mp_exec :: "bytes \<Rightarrow> 'd \<Rightarrow> err + 'd"
  mp_sha256 :: "bytes \<Rightarrow> bytes"

definition mig_io :: "('d mig_db, err, unit) prog" where
  "mig_io = (\<lambda>s. (if mg_ok s (mg_pos s) then Inr () else Inl ErrIO, s\<lparr>mg_pos := Suc (mg_pos s)\<rparr>))"

text \<open>\<^verbatim>\<open>WithTx\<close>: whatever fails in between, or at the commit, the tables are as before.\<close>

definition mig_tx :: "('d mig_db, err, unit) prog \<Rightarrow> ('d mig_db, err, unit) prog" where
  "mig_tx m =
     mbind mig_io (\<lambda>_ s.
       case mbind m (\<lambda>_. mig_io) s of
         (Inr _, t) \<Rightarrow> (Inr (), t)
       | (Inl e, t) \<Rightarrow> (Inl e, t\<lparr>mg_data := mg_data s, mg_rows := mg_rows s\<rparr>))"

definition create_mig_table :: "('d mig_db, err, unit) prog" where
  "create_mig_table =
     mbind mig_io (\<lambda>_. mmodify (\<lambda>s. s\<lparr>mg_rows := Some (case mg_rows s of None \<Rightarrow> [] | Some rs \<Rightarrow> rs)\<rparr>))"

definition rows_of :: "'d mig_db \<Rightarrow> mig_row list" where
  "rows_of s = (case mg_rows s of None \<Rightarrow> [] | Some rs \<Rightarrow> rs)"

definition stored_checksum :: "int \<Rightarrow> ('d mig_db, err, bytes option) prog" where
  "stored_checksum v = mbind mig_io (\<lambda>_. mget (\<lambda>s. map_option mi_checksum (find (\<lambda>r. mi_version r = v) (rows_of s))))"

definition run_script :: "'d mig_prims \<Rightarrow> bytes \<Rightarrow> ('d mig_db, err, unit) prog" where
  "run_script M body =
     mbind mig_io (\<lambda>_.
     mbind (mget (\<lambda>s. mp_exec M body (mg_data s))) (\<lambda>r.
     mbind (mlift r) (\<lambda>d. mmodify (\<lambda>s. s\<lparr>mg_data := d\<rparr>))))"

definition insert_mig_row :: "int \<Rightarrow> bytes \<Rightarrow> ('d mig_db, err, unit) prog" where
  "insert_mig_row v digest =
     mbind mig_io (\<lambda>_.
     mbind (mget rows_of) (\<lambda>rs.
     mbind (mguard (v \<notin> set (map mi_version rs) \<and> length digest = 32) ErrConstraint) (\<lambda>_.
     mmodify (\<lambda>s. s\<lparr>mg_rows := Some (rs @ [\<lparr>mi_version = v, mi_applied_at = unix_milli (mg_now s), mi_checksum = digest\<rparr>])\<rparr>))))"

section \<open>Migrating\<close>

definition migration_version :: "string \<Rightarrow> err + int" where
  "migration_version name =
     (if \<not> has_suffix name ''.sql'' then Inl (ErrOther ''not a .sql file'')
      else case atoi (fst (cut (CHR ''_'') (take (length name - 4) name))) of
        None \<Rightarrow> Inl (ErrOther ''no numeric version prefix'')
      | Some v \<Rightarrow> Inr v)"

definition migrate_one :: "'d mig_prims \<Rightarrow> (string \<times> bytes) list \<Rightarrow> string \<Rightarrow> ('d mig_db, err, unit) prog" where
  "migrate_one M files name =
     mbind (mlift (migration_version name)) (\<lambda>v.
     mbind (mlift (case map_of files name of None \<Rightarrow> Inl ErrIO | Some body \<Rightarrow> Inr body)) (\<lambda>body.
     let digest = mp_sha256 M body in
     mbind (stored_checksum v) (\<lambda>stored. case stored of
       Some c \<Rightarrow> mguard (c = digest) (ErrOther ''checksum mismatch'')
     | None \<Rightarrow> mig_tx (mbind (run_script M body) (\<lambda>_. insert_mig_row v digest)))))"

definition migrate :: "'d mig_prims \<Rightarrow> (string \<times> bytes) list \<Rightarrow> ('d mig_db, err, unit) prog" where
  "migrate M files = mbind create_mig_table (\<lambda>_. mfor (sort (map fst files)) (migrate_one M files))"

definition schema_version :: "('d mig_db, err, int) prog" where
  "schema_version =
     mbind mig_io (\<lambda>_. mget (\<lambda>s. if rows_of s = [] then 0 else Max (set (map mi_version (rows_of s)))))"

section \<open>One migration\<close>

text \<open>A database in which the scripts of a list of names, in this order, have been run and recorded.\<close>

fun run_all :: "'d mig_prims \<Rightarrow> bytes list \<Rightarrow> 'd \<Rightarrow> err + 'd" where
  "run_all M [] d = Inr d"
| "run_all M (b # bs) d = sbind (mp_exec M b d) (run_all M bs)"

definition recorded :: "'d mig_prims \<Rightarrow> (string \<times> bytes) list \<Rightarrow> string \<Rightarrow> mig_row \<Rightarrow> bool" where
  "recorded M files name r \<longleftrightarrow>
     migration_version name = Inr (mi_version r) \<and>
     (\<exists>body. map_of files name = Some body \<and> mi_checksum r = mp_sha256 M body)"

definition bodies :: "(string \<times> bytes) list \<Rightarrow> string list \<Rightarrow> bytes list" where
  "bodies files names = map (\<lambda>n. the (map_of files n)) names"

definition migrated :: "'d mig_prims \<Rightarrow> (string \<times> bytes) list \<Rightarrow> 'd \<Rightarrow> string list \<Rightarrow> 'd mig_db \<Rightarrow> bool" where
  "migrated M files d names s \<longleftrightarrow>
     list_all2 (recorded M files) names (rows_of s) \<and> run_all M (bodies files names) d = Inr (mg_data s)"

lemma run_all_append: "run_all M (bs @ cs) d = sbind (run_all M bs d) (run_all M cs)"
proof (induction bs arbitrary: d)
  case (Cons b bs)
  then show ?case by (cases "mp_exec M b d") simp_all
qed simp

lemma mig_io_cases: "mig_io s = (Inr (), s\<lparr>mg_pos := Suc (mg_pos s)\<rparr>) \<or> mig_io s = (Inl ErrIO, s\<lparr>mg_pos := Suc (mg_pos s)\<rparr>)"
  by (simp add: mig_io_def)

lemma mig_io_Inr_iff: "mig_io s = (Inr (), t) \<longleftrightarrow> mg_ok s (mg_pos s) \<and> t = s\<lparr>mg_pos := Suc (mg_pos s)\<rparr>"
  by (auto simp: mig_io_def)

lemma rows_of_simps [simp]: "rows_of (s\<lparr>mg_pos := n\<rparr>) = rows_of s" "rows_of (s\<lparr>mg_data := d\<rparr>) = rows_of s"
  "rows_of (s\<lparr>mg_rows := Some rs\<rparr>) = rs"
  by (simp_all add: rows_of_def)

lemma stored_checksum_Inr_iff:
  "stored_checksum v s = (Inr c, t) \<longleftrightarrow>
     mg_ok s (mg_pos s) \<and> t = s\<lparr>mg_pos := Suc (mg_pos s)\<rparr> \<and> c = map_option mi_checksum (find (\<lambda>r. mi_version r = v) (rows_of s))"
  by (auto simp: stored_checksum_def mbind_Inr_iff mig_io_Inr_iff prog_simps)

text \<open>The database's tables are all that a step may change.\<close>

definition tables :: "'d mig_db \<Rightarrow> 'd \<times> mig_row list" where
  "tables s = (mg_data s, rows_of s)"

lemma script_and_row_Inr:
  assumes "mbind (mbind (run_script M body) (\<lambda>_. insert_mig_row v digest)) (\<lambda>_. mig_io) s = (Inr (), t)"
  shows "mp_exec M body (mg_data s) = Inr (mg_data t) \<and> v \<notin> set (map mi_version (rows_of s)) \<and>
    (\<exists>ms. rows_of t = rows_of s @ [\<lparr>mi_version = v, mi_applied_at = ms, mi_checksum = digest\<rparr>]) \<and> length digest = 32"
  using assms by (auto simp: mbind_Inr_iff run_script_def insert_mig_row_def mig_io_Inr_iff prog_simps split: if_splits)

lemma mig_tx_cases:
  assumes "mig_tx m s = (r, t)"
  obtains (Fails) e where "r = Inl e" "tables t = tables s"
  | (Commits) u where "r = Inr ()" "tables u = tables s" "mbind m (\<lambda>_. mig_io) u = (Inr (), t)"
proof -
  let ?u = "s\<lparr>mg_pos := Suc (mg_pos s)\<rparr>"
  have u: "tables ?u = tables s" by (simp add: tables_def)
  from mig_io_cases [of s] show thesis
  proof
    assume io: "mig_io s = (Inr (), ?u)"
    obtain x v where x: "mbind m (\<lambda>_. mig_io) ?u = (x, v)" by fastforce
    show thesis
    proof (cases x)
      case (Inl e)
      then have "r = Inl e" "t = v\<lparr>mg_data := mg_data ?u, mg_rows := mg_rows ?u\<rparr>"
        using assms io x by (simp_all add: mig_tx_def mbind_Inr [where m = mig_io, OF io])
      then show thesis by (intro Fails) (simp_all add: tables_def rows_of_def)
    next
      case (Inr y)
      then have "r = Inr ()" "t = v" using assms io x by (simp_all add: mig_tx_def mbind_Inr [where m = mig_io, OF io])
      then show thesis using x Inr u by (intro Commits) simp_all
    qed
  next
    assume io: "mig_io s = (Inl ErrIO, ?u)"
    then have "r = Inl ErrIO" "t = ?u" using assms by (simp_all add: mig_tx_def mbind_unfold)
    then show thesis using u by (intro Fails) simp_all
  qed
qed

lemma migrate_one_cases:
  assumes "migrate_one M files name s = (r, t)"
  obtains (Fails) e where "r = Inl e" "tables t = tables s"
  | (Known) row where "r = Inr ()" "tables t = tables s" "row \<in> set (rows_of s)" "recorded M files name row"
  | (Applied) body row where "r = Inr ()" "map_of files name = Some body" "mp_exec M body (mg_data s) = Inr (mg_data t)"
      "rows_of t = rows_of s @ [row]" "recorded M files name row" "mi_version row \<notin> set (map mi_version (rows_of s))"
proof -
  consider (Bad) e where "migrate_one M files name s = (Inl e, s)"
    | (Good) v body where "migration_version name = Inr v" "map_of files name = Some body"
    by (cases "migration_version name"; cases "map_of files name")
      (auto simp: migrate_one_def mbind_unfold mlift_eq)
  then show thesis
  proof cases
    case Bad
    then show thesis using assms by (intro Fails) auto
  next
    case Good
    define digest where "digest = mp_sha256 M body"
    let ?u = "s\<lparr>mg_pos := Suc (mg_pos s)\<rparr>"
    let ?c = "map_option mi_checksum (find (\<lambda>r. mi_version r = v) (rows_of s))"
    have u: "tables ?u = tables s" by (simp add: tables_def)
    have run: "(r, t) = mbind (stored_checksum v) (\<lambda>stored. case stored of
        Some c \<Rightarrow> mguard (c = digest) (ErrOther ''checksum mismatch'')
      | None \<Rightarrow> mig_tx (mbind (run_script M body) (\<lambda>_. insert_mig_row v digest))) s"
      using assms Good unfolding digest_def by (simp add: migrate_one_def mbind_unfold mlift_eq Let_def)
    show thesis
    proof (cases "mg_ok s (mg_pos s)")
      case False
      then have "stored_checksum v s = (Inl ErrIO, ?u)" by (simp add: stored_checksum_def mbind_unfold mig_io_def)
      then show thesis using run u by (intro Fails [of ErrIO]) (simp_all add: mbind_unfold)
    next
      case True
      then have st: "stored_checksum v s = (Inr ?c, ?u)" by (simp add: stored_checksum_Inr_iff)
      show thesis
      proof (cases "find (\<lambda>r. mi_version r = v) (rows_of s)")
        case (Some row)
        then have row: "row \<in> set (rows_of s)" "mi_version row = v" by (auto simp: find_Some_iff)
        have "(r, t) = mguard (mi_checksum row = digest) (ErrOther ''checksum mismatch'') ?u"
          using run by (simp add: mbind_Inr [where m = "stored_checksum v", OF st] Some)
        then show thesis
          using u row Good Known [of row] Fails by (auto simp: mguard_eq recorded_def digest_def split: if_splits)
      next
        case None
        then have tx: "mig_tx (mbind (run_script M body) (\<lambda>_. insert_mig_row v digest)) ?u = (r, t)"
          using run by (simp add: mbind_Inr [where m = "stored_checksum v", OF st])
        then show thesis
        proof (cases rule: mig_tx_cases)
          case (Fails e)
          then show thesis using u that(1) by simp
        next
          case (Commits w)
          have w: "mg_data w = mg_data s" "rows_of w = rows_of s" using Commits(2) u by (simp_all add: tables_def)
          from script_and_row_Inr [OF Commits(3)] obtain ms where ms: "mp_exec M body (mg_data s) = Inr (mg_data t)"
            "v \<notin> set (map mi_version (rows_of s))"
            "rows_of t = rows_of s @ [\<lparr>mi_version = v, mi_applied_at = ms, mi_checksum = digest\<rparr>]"
            unfolding w by blast
          show thesis by (rule that(3) [OF Commits(1) Good(2) ms(1,3)]) (use ms Good in \<open>simp_all add: recorded_def digest_def\<close>)
        qed
      qed
    qed
  qed
qed

section \<open>All migrations\<close>

text \<open>However far it gets, a run over a database with some prefix of the scripts leaves it with a longer
  one, in order and complete; only a run over all of them succeeds.\<close>

lemma migrate_from:
  assumes "migrated M files d done s" and "mfor todo (migrate_one M files) s = (r, t)"
    and "distinct (map migration_version (done @ todo))"
  shows "\<exists>k \<le> length todo. migrated M files d (done @ take k todo) t \<and> (r = Inr () \<longrightarrow> k = length todo)"
  using assms
proof (induction todo arbitrary: "done" s)
  case Nil
  then show ?case by (simp add: mreturn_eq)
next
  case (Cons n todo)
  obtain x u where x: "migrate_one M files n s = (x, u)" by fastforce
  have l: "list_all2 (recorded M files) done (rows_of s)" "run_all M (bodies files done) d = Inr (mg_data s)"
    using Cons.prems(1) by (simp_all add: migrated_def)
  show ?case
  proof (cases rule: migrate_one_cases [OF x])
    case (1 e)
    then have "r = Inl e" "t = u" using Cons.prems(2) x by (simp_all add: mbind_unfold)
    then show ?thesis using 1 Cons.prems(1) by (intro exI [of _ 0]) (simp add: migrated_def tables_def)
  next
    case (2 row)
    from l(1) 2(3) obtain m where "m \<in> set done" "recorded M files m row"
      by (metis in_set_conv_nth list_all2_conv_all_nth)
    then have "migration_version m = migration_version n" using 2(4) by (simp add: recorded_def)
    then have False using Cons.prems(3) \<open>m \<in> set done\<close> by (metis imageI distinct_append list.set_intros(1) list.set_map map_append disjoint_iff)
    then show ?thesis ..
  next
    case (3 body row)
    have "migrated M files d (done @ [n]) u"
      using l 3 by (simp add: migrated_def run_all_append bodies_def list_all2_appendI)
    moreover have "mfor todo (migrate_one M files) u = (r, t)" using Cons.prems(2) x 3(1) by (simp add: mbind_unfold)
    ultimately obtain k where "k \<le> length todo" "migrated M files d ((done @ [n]) @ take k todo) t" "r = Inr () \<longrightarrow> k = length todo"
      using Cons.IH [of "done @ [n]" u] Cons.prems(3) by auto
    then show ?thesis by (intro exI [of _ "Suc k"]) simp
  qed
qed

lemma create_mig_table_cases:
  "(create_mig_table s = (Inl ErrIO, s\<lparr>mg_pos := Suc (mg_pos s)\<rparr>)) \<or>
   (create_mig_table s = (Inr (), s\<lparr>mg_pos := Suc (mg_pos s), mg_rows := Some (rows_of s)\<rparr>))"
  by (simp add: create_mig_table_def mbind_unfold mig_io_def mmodify_eq rows_of_def split: option.splits)

lemma migrate_fresh:
  assumes "migrate M files s = (r, t)" and "rows_of s = []" and "distinct (map migration_version (map fst files))"
  shows "\<exists>k \<le> length files. migrated M files (mg_data s) (take k (sort (map fst files))) t \<and> (r = Inr () \<longrightarrow> k = length files)"
proof -
  have d: "distinct (map migration_version (sort (map fst files)))"
    using assms(3) by (simp only: distinct_map [of migration_version] set_sort distinct_sort)
  from create_mig_table_cases [of s] show ?thesis
  proof
    assume "create_mig_table s = (Inl ErrIO, s\<lparr>mg_pos := Suc (mg_pos s)\<rparr>)"
    then have "r = Inl ErrIO" "t = s\<lparr>mg_pos := Suc (mg_pos s)\<rparr>" using assms(1) by (simp_all add: migrate_def mbind_unfold)
    then show ?thesis using assms(2) by (intro exI [of _ 0]) (simp add: migrated_def bodies_def)
  next
    assume c: "create_mig_table s = (Inr (), s\<lparr>mg_pos := Suc (mg_pos s), mg_rows := Some (rows_of s)\<rparr>)"
    let ?u = "s\<lparr>mg_pos := Suc (mg_pos s), mg_rows := Some (rows_of s)\<rparr>"
    have "migrated M files (mg_data s) [] ?u" using assms(2) by (simp add: migrated_def bodies_def)
    moreover have "mfor (sort (map fst files)) (migrate_one M files) ?u = (r, t)"
      using assms(1) by (simp add: migrate_def mbind_Inr [where m = create_mig_table, OF c])
    ultimately show ?thesis using migrate_from [of M files "mg_data s" "[]"] d by force
  qed
qed

text \<open>A start over a migrated database checks every script and changes nothing; a script that is not
  the one that was recorded is refused.\<close>

lemma find_by_key: "distinct (map f xs) \<Longrightarrow> x \<in> set xs \<Longrightarrow> find (\<lambda>y. f y = f x) xs = Some x"
  by (induction xs) auto

lemma migrate_one_known:
  assumes "\<exists>row \<in> set (rows_of s). recorded M files name row" and "distinct (map mi_version (rows_of s))" and "\<And>n. mg_ok s n"
  shows "migrate_one M files name s = (Inr (), s\<lparr>mg_pos := Suc (mg_pos s)\<rparr>)"
proof -
  from assms(1) obtain row body where r: "row \<in> set (rows_of s)" "migration_version name = Inr (mi_version row)"
    "map_of files name = Some body" "mi_checksum row = mp_sha256 M body" by (auto simp: recorded_def)
  have "find (\<lambda>x. mi_version x = mi_version row) (rows_of s) = Some row"
    by (rule find_by_key [OF assms(2) r(1)])
  then show ?thesis
    using r assms(3) by (simp add: migrate_one_def mbind_unfold mlift_eq Let_def stored_checksum_def mig_io_def mget_eq mguard_eq)
qed

lemma mfor_known:
  assumes "\<forall>n \<in> set names. \<exists>row \<in> set (rows_of s). recorded M files n row" and "distinct (map mi_version (rows_of s))" and "\<And>n. mg_ok s n"
  shows "\<exists>k. mfor names (migrate_one M files) s = (Inr (), s\<lparr>mg_pos := k\<rparr>)"
  using assms
proof (induction names arbitrary: s)
  case Nil
  show ?case by (rule exI [of _ "mg_pos s"]) (simp add: mreturn_eq)
next
  case (Cons n names)
  let ?u = "s\<lparr>mg_pos := Suc (mg_pos s)\<rparr>"
  have "migrate_one M files n s = (Inr (), ?u)" by (rule migrate_one_known) (use Cons.prems in auto)
  moreover obtain k where "mfor names (migrate_one M files) ?u = (Inr (), ?u\<lparr>mg_pos := k\<rparr>)"
    using Cons.IH [of ?u] Cons.prems by auto
  ultimately show ?case by (intro exI [of _ k]) (simp add: mbind_unfold)
qed

lemma recorded_versions:
  "list_all2 (recorded M files) names rows \<Longrightarrow> map migration_version names = map (\<lambda>r. Inr (mi_version r)) rows"
  by (induction rule: list_all2_induct) (simp_all add: recorded_def)

lemma migrate_again:
  assumes "migrated M files d (sort (map fst files)) s" and "distinct (map migration_version (map fst files))" and "\<And>n. mg_ok s n"
  shows "\<exists>t. migrate M files s = (Inr (), t) \<and> tables t = tables s"
proof -
  let ?names = "sort (map fst files)"
  have l: "list_all2 (recorded M files) ?names (rows_of s)" using assms(1) by (simp add: migrated_def)
  have v: "map migration_version ?names = map (\<lambda>r. Inr (mi_version r)) (rows_of s)"
    by (rule recorded_versions [OF l])
  have "distinct (map migration_version ?names)"
    using assms(2) by (simp only: distinct_map [of migration_version] set_sort distinct_sort)
  then have "distinct (map mi_version (rows_of s))" unfolding v by (auto simp: distinct_map inj_on_def)
  moreover have "\<forall>n \<in> set ?names. \<exists>row \<in> set (rows_of s). recorded M files n row"
    using l by (metis in_set_conv_nth list_all2_conv_all_nth)
  moreover let ?u = "s\<lparr>mg_pos := Suc (mg_pos s), mg_rows := Some (rows_of s)\<rparr>"
  have "create_mig_table s = (Inr (), ?u)"
    using assms(3) by (simp add: create_mig_table_def mbind_unfold mig_io_def mmodify_eq rows_of_def split: option.splits)
  ultimately obtain k where "migrate M files s = (Inr (), ?u\<lparr>mg_pos := k\<rparr>)"
    using mfor_known [of ?names ?u M files] assms(3) by (auto simp: migrate_def mbind_unfold)
  then show ?thesis by (simp add: tables_def)
qed

text \<open>From any database: success means that every script is recorded with its checksum.\<close>

lemma migrate_one_rows:
  assumes "migrate_one M files n s = (r, t)"
  shows "set (rows_of s) \<subseteq> set (rows_of t) \<and> (r = Inr () \<longrightarrow> (\<exists>row \<in> set (rows_of t). recorded M files n row))"
  using assms by (cases rule: migrate_one_cases) (auto simp: tables_def)

lemma mfor_rows:
  "mfor names (migrate_one M files) s = (Inr (), t) \<Longrightarrow>
   set (rows_of s) \<subseteq> set (rows_of t) \<and> (\<forall>n \<in> set names. \<exists>row \<in> set (rows_of t). recorded M files n row)"
proof (induction names arbitrary: s)
  case (Cons n names)
  then obtain u where u: "migrate_one M files n s = (Inr (), u)" "mfor names (migrate_one M files) u = (Inr (), t)"
    by (auto simp: mbind_Inr_iff)
  from migrate_one_rows [OF u(1)] Cons.IH [OF u(2)] show ?case by auto
qed (simp add: mreturn_eq)

lemma migrate_Inr:
  assumes "migrate M files s = (Inr (), t)"
  shows "set (rows_of s) \<subseteq> set (rows_of t) \<and> (\<forall>name \<in> set (map fst files). \<exists>row \<in> set (rows_of t). recorded M files name row)"
proof -
  from assms obtain u where "create_mig_table s = (Inr (), u)" and m: "mfor (sort (map fst files)) (migrate_one M files) u = (Inr (), t)"
    by (auto simp: migrate_def mbind_Inr_iff)
  then have "rows_of u = rows_of s" using create_mig_table_cases [of s] by auto
  with mfor_rows [OF m] show ?thesis by simp
qed

section \<open>A concrete database\<close>

definition demo_scripts :: "(string \<times> bytes) list" where
  "demo_scripts = [(''0002_state.sql'', [2]), (''0001_init.sql'', [1])]"

definition demo_mig_prims :: "bytes mig_prims" where
  "demo_mig_prims = \<lparr>mp_exec = (\<lambda>b d. Inr (d @ b)), mp_sha256 = (\<lambda>b. take 32 (b @ replicate 32 0))\<rparr>"

definition demo_mig_db :: "bytes mig_db" where
  "demo_mig_db = \<lparr>mg_data = [], mg_rows = None, mg_now = 0, mg_ok = (\<lambda>_. True), mg_pos = 0\<rparr>"

lemma demo_versions: "migration_version ''0002_state.sql'' = Inr 2" "migration_version ''0001_init.sql'' = Inr 1"
  by (simp_all add: migration_version_def has_suffix_def cut_def atoi_def unsigned_value_def digit_value_def)

lemma demo_scripts_distinct: "distinct (map migration_version (map fst demo_scripts))"
  by (simp add: demo_scripts_def demo_versions)

lemma demo_scripts_sorted: "sort (map fst demo_scripts) = [''0001_init.sql'', ''0002_state.sql'']"
  by (simp add: demo_scripts_def less_char_def)

lemma demo_migrates:
  "\<exists>t. migrate demo_mig_prims demo_scripts demo_mig_db = (Inr (), t) \<and> mg_data t = [1, 2] \<and> (\<forall>n. mg_ok t n) \<and>
     migrated demo_mig_prims demo_scripts [] (sort (map fst demo_scripts)) t"
  unfolding migrated_def migrate_def demo_scripts_sorted
  by (simp add: migrate_one_def mbind_unfold mlift_eq mget_eq mmodify_eq mreturn_eq mguard_eq create_mig_table_def mig_io_def
      stored_checksum_def mig_tx_def run_script_def insert_mig_row_def demo_mig_prims_def demo_mig_db_def demo_versions demo_scripts_def
      rows_of_def Let_def recorded_def bodies_def)

end
