(* ===== verification/Flags.thy ===== *)
theory Flags
  imports Versions
begin

text \<open>
  Command-line flags as the command line uses them: the package \<^verbatim>\<open>flag\<close> of the standard library with
  text, switch and number flags, and \<^verbatim>\<open>parseAnywhere\<close> of \<^verbatim>\<open>cmd/vault/main.go\<close>, which lets them stand after
  positional arguments.
\<close>

section \<open>Numbers (\<^verbatim>\<open>strconv.ParseInt\<close> with base 0) and switches\<close>

definition lower_char :: "char \<Rightarrow> char" where
  "lower_char c = (if CHR ''A'' \<le> c \<and> c \<le> CHR ''Z'' then char_of (of_char c + 32 :: nat) else c)"

definition digit_in :: "nat \<Rightarrow> char \<Rightarrow> nat option" where
  "digit_in base c =
     (let n = (of_char c :: nat); l = (of_char (lower_char c) :: nat);
          d = (if 48 \<le> n \<and> n \<le> 57 then Some (n - 48) else if 97 \<le> l \<and> l \<le> 122 then Some (l - 87) else None) in
      case d of None \<Rightarrow> None | Some d \<Rightarrow> if d < base then Some d else None)"

fun digits_in :: "nat \<Rightarrow> nat \<Rightarrow> string \<Rightarrow> nat option" where
  "digits_in base a [] = Some a"
| "digits_in base a (c # s) =
     (if c = CHR ''_'' then digits_in base a s
      else case digit_in base c of None \<Rightarrow> None | Some d \<Rightarrow> digits_in base (base * a + d) s)"

definition base_prefix :: "string \<Rightarrow> (nat \<times> string) option" where
  "base_prefix s =
     (case s of
        z # x # y # r \<Rightarrow>
          if z \<noteq> CHR ''0'' then None
          else if lower_char x = CHR ''b'' then Some (2, y # r)
          else if lower_char x = CHR ''o'' then Some (8, y # r)
          else if lower_char x = CHR ''x'' then Some (16, y # r)
          else None
      | _ \<Rightarrow> None)"

text \<open>An underscore only separates digits, or a base prefix and a digit.\<close>

datatype seen = SeenStart | SeenDigit | SeenUnderscore | SeenOther

fun underscores_ok :: "bool \<Rightarrow> seen \<Rightarrow> string \<Rightarrow> bool" where
  "underscores_ok hex saw [] \<longleftrightarrow> saw \<noteq> SeenUnderscore"
| "underscores_ok hex saw (c # s) \<longleftrightarrow>
     (if CHR ''0'' \<le> c \<and> c \<le> CHR ''9'' \<or> hex \<and> CHR ''a'' \<le> lower_char c \<and> lower_char c \<le> CHR ''f'' then underscores_ok hex SeenDigit s
      else if c = CHR ''_'' then saw = SeenDigit \<and> underscores_ok hex SeenUnderscore s
      else saw \<noteq> SeenUnderscore \<and> underscores_ok hex SeenOther s)"

definition underscore_ok :: "string \<Rightarrow> bool" where
  "underscore_ok s =
     (case s of
        z # x # r \<Rightarrow>
          if z = CHR ''0'' \<and> lower_char x \<in> {CHR ''b'', CHR ''o'', CHR ''x''}
          then underscores_ok (lower_char x = CHR ''x'') SeenDigit r
          else underscores_ok False SeenStart s
      | _ \<Rightarrow> underscores_ok False SeenStart s)"

definition parse_uint :: "string \<Rightarrow> nat option" where
  "parse_uint s =
     (if s = [] then None else
      let (base, digits) = (case base_prefix s of
            Some (b, r) \<Rightarrow> (b, r)
          | None \<Rightarrow> if hd s = CHR ''0'' then (8, tl s) else (10, s)) in
      if CHR ''_'' \<in> set digits \<and> \<not> underscore_ok s then None
      else case digits_in base 0 digits of None \<Rightarrow> None | Some n \<Rightarrow> if n < 2 ^ 64 then Some n else None)"

definition parse_int :: "string \<Rightarrow> int option" where
  "parse_int s =
     (case s of
        [] \<Rightarrow> None
      | c # r \<Rightarrow>
          if c = CHR ''-'' then (case parse_uint r of None \<Rightarrow> None | Some n \<Rightarrow> if n \<le> 2 ^ 63 then Some (- int n) else None)
          else (case parse_uint (if c = CHR ''+'' then r else s) of None \<Rightarrow> None | Some n \<Rightarrow> if n < 2 ^ 63 then Some (int n) else None))"

definition parse_bool :: "string \<Rightarrow> bool option" where
  "parse_bool s =
     (if s \<in> {''1'', ''t'', ''T'', ''TRUE'', ''true'', ''True''} then Some True
      else if s \<in> {''0'', ''f'', ''F'', ''FALSE'', ''false'', ''False''} then Some False
      else None)"

section \<open>Flag sets\<close>

text \<open>The formal flags with their present values; the value a flag has says what it takes.\<close>

datatype flag_value = Text string | Switch bool | Number int

type_synonym flags = "(string \<times> flag_value) list"

fun set_value :: "flag_value \<Rightarrow> string \<Rightarrow> flag_value option" where
  "set_value (Text _) v = Some (Text v)"
| "set_value (Switch _) v = map_option Switch (parse_bool v)"
| "set_value (Number _) v = map_option Number (parse_int v)"

fun is_switch :: "flag_value \<Rightarrow> bool" where
  "is_switch (Switch _) = True"
| "is_switch _ = False"

text \<open>\<^verbatim>\<open>parseOne\<close>: the end of the flags, with what is left, or one flag set.\<close>

datatype one_flag = Done "string list" | Set flags "string list"

definition is_flag :: "string \<Rightarrow> bool" where
  "is_flag s \<longleftrightarrow> 2 \<le> length s \<and> hd s = CHR ''-''"

definition flag_name :: "string \<Rightarrow> string" where
  "flag_name s = drop (if s ! 1 = CHR ''-'' then 2 else 1) s"

definition set_flag :: "flags \<Rightarrow> string \<Rightarrow> string \<Rightarrow> string list \<Rightarrow> err + one_flag" where
  "set_flag fs name v rest =
     (case map_of fs name of
        None \<Rightarrow> Inl (ErrOther ''flag provided but not defined'')
      | Some d \<Rightarrow>
          (case set_value d v of
             None \<Rightarrow> Inl (ErrOther ''invalid value'')
           | Some w \<Rightarrow> Inr (Set (AList.update name w fs) rest)))"

definition parse_one :: "flags \<Rightarrow> string list \<Rightarrow> err + one_flag" where
  "parse_one fs args =
     (case args of
        [] \<Rightarrow> Inr (Done [])
      | s # rest \<Rightarrow>
          if \<not> is_flag s then Inr (Done args)
          else if s = ''--'' then Inr (Done rest)
          else
            let name = flag_name s in
            if name = [] \<or> hd name = CHR ''-'' \<or> hd name = CHR ''='' then Inl (ErrOther ''bad flag syntax'')
            else
              (case cut CHR ''='' name of
                 (n, Some v) \<Rightarrow> set_flag fs n v rest
               | (n, None) \<Rightarrow>
                   (case map_of fs n of
                      None \<Rightarrow> Inl (ErrOther ''flag provided but not defined'')
                    | Some d \<Rightarrow>
                        if is_switch d then set_flag fs n ''true'' rest
                        else (case rest of
                            [] \<Rightarrow> Inl (ErrOther ''flag needs an argument'')
                          | v # rest' \<Rightarrow> set_flag fs n v rest'))))"

lemma set_flag_rest: "set_flag fs n v rest = Inr (Set gs r) \<Longrightarrow> r = rest"
  by (auto simp: set_flag_def split: option.splits)

lemma set_flag_not_done: "set_flag fs n v rest \<noteq> Inr (Done r)"
  by (auto simp: set_flag_def split: option.splits)

lemma parse_one_shorter:
  "parse_one fs args = Inr (Set gs rest) \<Longrightarrow> length rest < length args"
  by (cases args) (auto simp: parse_one_def Let_def dest!: set_flag_rest split: if_splits prod.splits option.splits list.splits)

lemma parse_one_done: "parse_one fs args = Inr (Done rest) \<Longrightarrow> length rest \<le> length args"
  by (cases args) (auto simp: parse_one_def Let_def set_flag_not_done split: if_splits prod.splits option.splits list.splits)

text \<open>\<^verbatim>\<open>Parse\<close>: flags up to the first argument that is none.\<close>

function parse_flags :: "flags \<Rightarrow> string list \<Rightarrow> err + flags \<times> string list" where
  "parse_flags fs args =
     (case parse_one fs args of
        Inl e \<Rightarrow> Inl e
      | Inr (Done rest) \<Rightarrow> Inr (fs, rest)
      | Inr (Set gs rest) \<Rightarrow> parse_flags gs rest)"
  by pat_completeness auto
termination
  by (relation "measure (\<lambda>(fs, args). length args)") (auto dest: parse_one_shorter)

declare parse_flags.simps [simp del]

lemma parse_flags_length: "parse_flags fs args = Inr (gs, rest) \<Longrightarrow> length rest \<le> length args"
proof (induction fs args rule: parse_flags.induct)
  case (1 fs args)
  show ?case
  proof (cases "parse_one fs args")
    case (Inl e)
    with "1.prems" show ?thesis by (simp add: parse_flags.simps)
  next
    case (Inr r)
    show ?thesis
    proof (cases r)
      case (Done r')
      with Inr "1.prems" parse_one_done show ?thesis by (auto simp: parse_flags.simps)
    next
      case (Set hs r')
      from Inr Set "1.prems" have "parse_flags hs r' = Inr (gs, rest)" by (simp add: parse_flags.simps)
      with "1.IH" [OF Inr Set] parse_one_shorter [of fs args hs r'] Inr Set show ?thesis by simp
    qed
  qed
qed

section \<open>Flags anywhere\<close>

text \<open>\<^verbatim>\<open>parseAnywhere\<close>: what stops the flags is an argument, and the flags go on behind it.\<close>

function parse_anywhere :: "flags \<Rightarrow> string list \<Rightarrow> string list \<Rightarrow> err + flags \<times> string list" where
  "parse_anywhere fs positional args =
     (case parse_flags fs args of
        Inl e \<Rightarrow> Inl e
      | Inr (gs, []) \<Rightarrow> Inr (gs, positional)
      | Inr (gs, p # rest) \<Rightarrow> parse_anywhere gs (positional @ [p]) rest)"
  by pat_completeness auto
termination
  by (relation "measure (\<lambda>(fs, ps, args). length args)") (auto dest: parse_flags_length)

declare parse_anywhere.simps [simp del]

lemma parse_anywhere_step:
  "parse_anywhere fs ps args =
     (case parse_one fs args of
        Inl e \<Rightarrow> Inl e
      | Inr (Set gs rest) \<Rightarrow> parse_anywhere gs ps rest
      | Inr (Done []) \<Rightarrow> Inr (fs, ps)
      | Inr (Done (p # rest)) \<Rightarrow> parse_anywhere fs (ps @ [p]) rest)"
  by (subst parse_anywhere.simps, subst parse_flags.simps)
    (auto simp: parse_anywhere.simps [of _ ps] split: sum.splits one_flag.splits list.splits)

section \<open>The place of a flag does not matter\<close>

text \<open>A flag that takes nothing from the next argument: with its value in it, a switch, or none the
  set knows.\<close>

definition stands_alone :: "flags \<Rightarrow> string \<Rightarrow> bool" where
  "stands_alone fs a \<longleftrightarrow> is_flag a \<and> a \<noteq> ''--'' \<and>
     (case cut CHR ''='' (flag_name a) of
        (n, Some _) \<Rightarrow> True
      | (n, None) \<Rightarrow> (case map_of fs n of None \<Rightarrow> True | Some d \<Rightarrow> is_switch d))"

definition kinds :: "flags \<Rightarrow> string \<Rightarrow> bool option" where
  "kinds fs n = map_option is_switch (map_of fs n)"

lemma stands_alone_iff:
  "stands_alone fs a \<longleftrightarrow> is_flag a \<and> a \<noteq> ''--'' \<and>
    (snd (cut CHR ''='' (flag_name a)) \<noteq> None \<or> kinds fs (fst (cut CHR ''='' (flag_name a))) \<noteq> Some False)"
  by (cases "cut CHR ''='' (flag_name a)") (auto simp: stands_alone_def kinds_def split: option.splits)

lemma stands_alone_kinds: "kinds gs = kinds fs \<Longrightarrow> stands_alone gs a = stands_alone fs a"
  by (simp add: stands_alone_iff)

lemma set_value_kind: "set_value d v = Some w \<Longrightarrow> is_switch w = is_switch d"
  by (cases d) auto

lemma set_flag_kinds: "set_flag fs n v rest = Inr (Set gs r) \<Longrightarrow> kinds gs = kinds fs"
  by (auto simp: set_flag_def kinds_def fun_eq_iff update_conv' dest: set_value_kind split: option.splits)

lemma parse_alone:
  assumes "stands_alone fs a"
  obtains e where "\<And>rest. parse_one fs (a # rest) = Inl e"
    | gs where "\<And>rest. parse_one fs (a # rest) = Inr (Set gs rest)" and "kinds gs = kinds fs"
proof (cases "parse_one fs [a]")
  case (Inl e)
  then have "parse_one fs (a # rest) = Inl e" for rest
    using assms
    by (auto simp: parse_one_def stands_alone_def Let_def set_flag_def split: if_splits prod.splits option.splits list.splits)
  then show thesis by (rule that(1))
next
  case (Inr x)
  then obtain gs where gs: "x = Set gs []" "kinds gs = kinds fs"
    using assms set_flag_kinds set_flag_rest set_flag_not_done
    by (cases x) (auto simp: parse_one_def stands_alone_def Let_def split: if_splits prod.splits option.splits list.splits)
  have "parse_one fs (a # rest) = Inr (Set gs rest)" for rest
    using assms Inr gs(1)
    by (auto simp: parse_one_def stands_alone_def Let_def set_flag_def split: if_splits prod.splits option.splits list.splits)
  then show thesis using gs(2) by (rule that(2))
qed

text \<open>The flags alone, in their order.\<close>

fun set_all :: "flags \<Rightarrow> string list \<Rightarrow> err + flags" where
  "set_all fs [] = Inr fs"
| "set_all fs (a # as) =
     (case parse_one fs [a] of
        Inl e \<Rightarrow> Inl e
      | Inr (Set gs _) \<Rightarrow> set_all gs as
      | Inr (Done _) \<Rightarrow> Inr fs)"

lemma parse_anywhere_filters:
  assumes "\<forall>a \<in> set args. is_flag a \<longrightarrow> stands_alone fs a"
  shows "parse_anywhere fs ps args =
    sbind (set_all fs (filter is_flag args)) (\<lambda>gs. Inr (gs, ps @ filter (\<lambda>a. \<not> is_flag a) args))"
  using assms
proof (induction args arbitrary: fs ps)
  case Nil
  show ?case by (subst parse_anywhere_step) (simp add: parse_one_def)
next
  case (Cons a args)
  show ?case
  proof (cases "is_flag a")
    case False
    then have "parse_one fs (a # args) = Inr (Done (a # args))" by (simp add: parse_one_def)
    then show ?thesis using Cons False by (subst parse_anywhere_step) simp
  next
    case True
    then have "stands_alone fs a" using Cons.prems by simp
    then show ?thesis
    proof (cases rule: parse_alone)
      case (1 e)
      then show ?thesis using True by (subst parse_anywhere_step) simp
    next
      case (2 gs)
      have "\<forall>b \<in> set args. is_flag b \<longrightarrow> stands_alone gs b"
        using Cons.prems stands_alone_kinds [OF 2(2)] by simp
      from Cons.IH [OF this] show ?thesis using 2(1) True by (subst parse_anywhere_step) simp
    qed
  qed
qed

end
