(* ===== verification/Packing.thy ===== *)
theory Packing
  imports Native Browsers Flags
begin

text \<open>
  The tool that signs the extension (\<^verbatim>\<open>tools/crxpack/main.go\<close>), with what it uses of \<^verbatim>\<open>internal/crx\<close> beyond
  the format itself: reading the private key and archiving a folder. PEM, x509, the walk over a folder and
  ZIP are parameters.
\<close>

section \<open>The key and the archive\<close>

text \<open>\<open>pk_pkcs8\<close> gives no key for one that is not RSA; \<open>pk_walk\<close> lists what \<^verbatim>\<open>filepath.WalkDir\<close> visits, the folder
  itself (as a dot) and all below it in lexical order, relative to it; \<open>pk_zip\<close> writes an archive.\<close>

record 'k pack_prims =
  pk_pem :: "bytes \<Rightarrow> (string \<times> bytes) option"
  pk_pkcs8 :: "bytes \<Rightarrow> err + 'k option"
  pk_pkcs1 :: "bytes \<Rightarrow> err + 'k"
  pk_walk :: "string \<Rightarrow> (string \<Rightarrow> node option) \<Rightarrow> string list"
  pk_zip :: "(string \<times> bytes) list \<Rightarrow> err + bytes"

definition parse_private_key :: "'k pack_prims \<Rightarrow> bytes \<Rightarrow> err + 'k" where
  "parse_private_key K pem =
     (case pk_pem K pem of
        None \<Rightarrow> Inl (ErrOther ''crx: no PEM block in key'')
      | Some (ty, body) \<Rightarrow>
          if ty = ''PRIVATE KEY'' then
            sbind (pk_pkcs8 K body) (\<lambda>k. case k of None \<Rightarrow> Inl (ErrOther ''crx: key is not RSA'') | Some rk \<Rightarrow> Inr rk)
          else if ty = ''RSA PRIVATE KEY'' then pk_pkcs1 K body
          else Inl (ErrOther ''crx: unsupported PEM block''))"

text \<open>Folders are read for what is in them, what is not a regular file is refused.\<close>

definition zip_entry :: "string \<Rightarrow> string \<Rightarrow> ('a fsys_scheme, err, (string \<times> bytes) list) prog" where
  "zip_entry dir rel =
     mbind (mget (\<lambda>s. fs_nodes s (path_join [dir, rel]))) (\<lambda>n. case n of
       None \<Rightarrow> mthrow err_not_exist
     | Some (Dir _) \<Rightarrow> mbind fs_op (\<lambda>_. mreturn [])
     | Some (Link _) \<Rightarrow> mthrow (ErrOther ''crx: not a regular file'')
     | Some (File _ _) \<Rightarrow> mbind (fs_read (path_join [dir, rel])) (\<lambda>b. mreturn [(rel, b)]))"

fun zip_entries :: "string \<Rightarrow> string list \<Rightarrow> ('a fsys_scheme, err, (string \<times> bytes) list) prog" where
  "zip_entries dir [] = mreturn []"
| "zip_entries dir (rel # rels) =
     mbind (zip_entry dir rel) (\<lambda>es. mbind (zip_entries dir rels) (\<lambda>rest. mreturn (es @ rest)))"

definition zip_dir :: "'k pack_prims \<Rightarrow> string \<Rightarrow> ('a fsys_scheme, err, bytes) prog" where
  "zip_dir K dir =
     mbind fs_op (\<lambda>_.
     mbind (mget (\<lambda>s. pk_walk K dir (fs_nodes s))) (\<lambda>rels.
     mbind (zip_entries dir rels) (\<lambda>es.
     mlift (pk_zip K es))))"

section \<open>The tool\<close>

record packer = fsys +
  pa_out :: "string list"

definition put_line :: "string \<Rightarrow> (packer, err, unit) prog" where
  "put_line l = mmodify (\<lambda>s. s\<lparr>pa_out := pa_out s @ [l]\<rparr>)"

definition id_and_version :: "string \<Rightarrow> string \<Rightarrow> string" where
  "id_and_version i v = i @ '' '' @ v"

text \<open>A folder whose manifest pins its key, or a package that verifies.\<close>

definition inspect_crx :: "('k, 'p) crx_prims \<Rightarrow> lookup_prims \<Rightarrow> string \<Rightarrow> (packer, err, unit) prog" where
  "inspect_crx C L path =
     mbind (attempt (fs_lookup path)) (\<lambda>st.
     if (case st of Inr (Dir _) \<Rightarrow> True | _ \<Rightarrow> False) then
       mbind (read_manifest_file L path) (\<lambda>m.
       if mf_key m = '''' then mthrow (ErrOther ''manifest pins no key, so its extension ID is not fixed'') else
       (case b64_decode (mf_key m) of
          None \<Rightarrow> mthrow (ErrOther ''manifest key'')
        | Some der \<Rightarrow> put_line (id_and_version (extension_id C der) (mf_version m))))
     else
       mbind (fs_read path) (\<lambda>data.
       mbind (mlift (crx_verify C data)) (\<lambda>pkg.
       mbind (mlift (read_manifest L (cp_archive pkg))) (\<lambda>m.
       put_line (id_and_version (cp_id pkg) (mf_version m))))))"

definition pack_flags :: "(string \<Rightarrow> string option) \<Rightarrow> flags" where
  "pack_flags getenv =
     [(''key'', Text (case getenv ''ALBEAR_CRX_KEY'' of Some k \<Rightarrow> k | None \<Rightarrow> '''')), (''out'', Text ''''),
      (''print-id'', Switch False), (''inspect'', Text '''')]"

definition text_flag :: "flags \<Rightarrow> string \<Rightarrow> string" where
  "text_flag fs n = (case map_of fs n of Some (Text t) \<Rightarrow> t | _ \<Rightarrow> '''')"

definition switch_flag :: "flags \<Rightarrow> string \<Rightarrow> bool" where
  "switch_flag fs n = (map_of fs n = Some (Switch True))"

text \<open>The manifest must not pin another key than the one that signs.\<close>

definition check_pin :: "bytes \<Rightarrow> manifest \<Rightarrow> err option" where
  "check_pin pub m =
     (if mf_key m = '''' then None
      else case b64_decode (mf_key m) of
        None \<Rightarrow> Some (ErrOther ''manifest key'')
      | Some pinned \<Rightarrow> if pinned \<noteq> pub then Some (ErrOther ''manifest pins another extension; build for the matching environment'') else None)"

definition pack_folder ::
  "('k, 'p) crx_prims \<Rightarrow> lookup_prims \<Rightarrow> 'k pack_prims \<Rightarrow> 'k \<Rightarrow> bytes \<Rightarrow> string \<Rightarrow> string \<Rightarrow> (packer, err, unit) prog" where
  "pack_folder C L K key pub dir out =
     mbind (read_manifest_file L dir) (\<lambda>m.
     case check_pin pub m of
       Some e \<Rightarrow> mthrow e
     | None \<Rightarrow>
         mbind (zip_dir K dir) (\<lambda>archive.
         mbind (mlift (crx_pack C archive key)) (\<lambda>data.
         mbind (fs_mkdir_all (path_dir out) 493) (\<lambda>_.
         mbind (fs_write_file out 420 data) (\<lambda>_.
         put_line (out @ '': '' @ mf_name m @ '' '' @ mf_version m @ '' (extension '' @ extension_id C pub @ '')''))))))"

definition pack_run ::
  "('k, 'p) crx_prims \<Rightarrow> lookup_prims \<Rightarrow> 'k pack_prims \<Rightarrow> (string \<Rightarrow> string option) \<Rightarrow> string list \<Rightarrow> (packer, err, unit) prog" where
  "pack_run C L K getenv args =
     (case parse_flags (pack_flags getenv) args of
        Inl e \<Rightarrow> mthrow e
      | Inr (fs, rest) \<Rightarrow>
          let key_path = text_flag fs ''key''; out = text_flag fs ''out''; print_id = switch_flag fs ''print-id'' in
          if text_flag fs ''inspect'' \<noteq> '''' then inspect_crx C L (text_flag fs ''inspect'')
          else if print_id \<and> (rest \<noteq> [] \<or> key_path = '''') then mthrow (ErrOther ''usage: crxpack -key KEY.pem -print-id'')
          else if \<not> print_id \<and> (length rest \<noteq> 1 \<or> key_path = '''' \<or> out = '''') then
            mthrow (ErrOther ''usage: crxpack -key KEY.pem -out FILE.crx EXTENSION_DIR'')
          else
            mbind (fs_read key_path) (\<lambda>pem.
            mbind (mlift (parse_private_key K pem)) (\<lambda>key.
            mbind (mlift (cx_public_der C key)) (\<lambda>pub.
            if print_id then
              mbind (put_line (extension_id C pub)) (\<lambda>_. put_line (b64_encode pub))
            else pack_folder C L K key pub (hd rest) out))))"

section \<open>What was packed is found again\<close>

lemma nodes_steps:
  "obeys (same_on fs_nodes) fs_op" "obeys (same_on fs_nodes) (fs_lookup p)" "obeys (same_on fs_nodes) (fs_read p)"
  by (auto simp: obeys_def same_on_def fs_op_def fs_lookup_def fs_read_def mbind_unfold mget_eq mthrow_eq mreturn_eq
      split: option.splits node.splits prod.splits if_splits)

lemma nodes_entry: "obeys (same_on fs_nodes) (zip_entry dir rel)"
  unfolding zip_entry_def
  by (intro same.ok_intros nodes_steps, rename_tac n, case_tac n) (auto intro!: same.ok_intros nodes_steps split: node.split)

text \<open>What an archive holds of an entry.\<close>

definition entry_held :: "(string \<times> bytes) list \<Rightarrow> string \<Rightarrow> node option \<Rightarrow> bool" where
  "entry_held es rel n =
     (case n of Some (File _ b) \<Rightarrow> map_of es rel = Some b | Some (Dir _) \<Rightarrow> True | _ \<Rightarrow> False)"

lemma entry_held_append:
  assumes "entry_held es rel n" and "rel \<notin> fst ` set e"
  shows "entry_held (e @ es) rel n"
proof -
  have "map_of e rel = None" using assms(2) by (simp add: map_of_eq_None_iff)
  then show ?thesis using assms(1) by (auto simp: entry_held_def map_add_def split: option.splits node.splits)
qed

lemma entry_held_front: "entry_held e rel n \<Longrightarrow> entry_held (e @ es) rel n"
  by (auto simp: entry_held_def map_add_def split: option.splits node.splits)

lemma zip_entry_Inr:
  assumes "zip_entry dir r s = (Inr e, u)"
  shows "entry_held e r (fs_nodes s (path_join [dir, r])) \<and> fst ` set e \<subseteq> {r}"
  using assms follow_plain [where m = "fs_nodes s" and p = "path_join [dir, r]" and k = 40]
  by (auto simp: zip_entry_def entry_held_def mbind_Inr_iff prog_simps fs_read_Inr_iff fs_op_Inr_iff split: option.splits node.splits)

lemma zip_entries_hold:
  assumes "zip_entries dir rels s = (Inr es, t)"
  shows "fs_nodes t = fs_nodes s \<and> (\<forall>rel \<in> set rels. entry_held es rel (fs_nodes s (path_join [dir, rel])))"
  using assms
proof (induction rels arbitrary: s es)
  case Nil
  then show ?case by (simp add: mreturn_eq)
next
  case (Cons r rels)
  then obtain e u es' where e: "zip_entry dir r s = (Inr e, u)" and es: "zip_entries dir rels u = (Inr es', t)" "es = e @ es'"
    by (auto simp: mbind_Inr_iff prog_simps)
  have u: "fs_nodes u = fs_nodes s" using same.okD [OF nodes_entry e] by (simp add: same_on_def)
  note one = zip_entry_Inr [OF e] and IH = Cons.IH [OF es(1)]
  have "entry_held es rel (fs_nodes s (path_join [dir, rel]))" if "rel \<in> set (r # rels)" for rel
  proof (cases "rel = r")
    case True
    then show ?thesis using one es(2) entry_held_front by simp
  next
    case False
    then have "entry_held es' rel (fs_nodes s (path_join [dir, rel]))" "rel \<notin> fst ` set e" using that IH u one by auto
    then show ?thesis unfolding es(2) by (rule entry_held_append)
  qed
  with IH u show ?case by simp
qed

lemma final_followed:
  "final_path k m p = Some q \<Longrightarrow> (\<And>x. m q \<noteq> Some (Link x)) \<Longrightarrow> follow k (m(q \<mapsto> File a b)) p = Some (File a b)"
proof (induction k arbitrary: p)
  case 0
  then show ?case by (auto split: option.splits node.splits)
next
  case (Suc k)
  show ?case
  proof (cases "\<exists>x. m p = Some (Link x)")
    case True
    then obtain x where x: "m p = Some (Link x)" by blast
    then have "p \<noteq> q" using Suc.prems(2) by auto
    then show ?thesis using Suc x by simp
  next
    case False
    then have "p = q" using Suc.prems(1) by (auto split: option.splits node.splits)
    then show ?thesis by simp
  qed
qed

lemma final_not_link: "final_path k m p = Some q \<Longrightarrow> m q \<noteq> Some (Link x)"
  by (induction k arbitrary: p) (auto split: option.splits node.splits)

text \<open>Filling a file that was opened for writing.\<close>

definition fill_file :: "string \<Rightarrow> nat \<Rightarrow> bytes \<Rightarrow> ('a fsys_scheme, err, unit) prog" where
  "fill_file q keep b =
     mbind (set_node q (Some (File keep []))) (\<lambda>_.
     mbind (attempt (fs_write_new q keep b)) (\<lambda>w.
     mbind (attempt fs_op) (\<lambda>c. case w of
       Inl e \<Rightarrow> mthrow e
     | Inr _ \<Rightarrow> mlift c)))"

lemma fill_file_Inr:
  assumes "fill_file q keep b s = (Inr (), t)"
  shows "fs_nodes t = (fs_nodes s)(q \<mapsto> File keep b)"
proof -
  let ?u = "s\<lparr>fs_nodes := (fs_nodes s)(q \<mapsto> File keep [])\<rparr>"
  from assms have "mbind (attempt (fs_write_new q keep b)) (\<lambda>w. mbind (attempt fs_op) (\<lambda>c. case w of
      Inl e \<Rightarrow> mthrow e | Inr _ \<Rightarrow> mlift c)) ?u = (Inr (), t)"
    by (simp add: fill_file_def set_node_def mbind_unfold mmodify_eq)
  then obtain x v c w where w: "attempt (fs_write_new q keep b) ?u = (Inr x, v)" and c: "attempt fs_op v = (Inr c, w)"
    and r: "(case x of Inl e \<Rightarrow> mthrow e | Inr _ \<Rightarrow> mlift c) w = (Inr (), t)"
    unfolding mbind_Inr_iff by blast
  from r have x: "x = Inr ()" "t = w" by (cases x; auto simp: prog_simps)+
  have "fs_nodes v = (fs_nodes s)(q \<mapsto> File keep b)" using w x(1) fs_write_new_Inr [of q keep b ?u v] by (simp add: attempt_Inr_iff)
  moreover have "fs_nodes w = fs_nodes v" using c by (auto simp: attempt_Inr_iff fs_op_def)
  ultimately show ?thesis using x(2) by simp
qed

lemma written_is_read:
  assumes "fs_write_file p mode b s = (Inr (), t)"
  shows "\<exists>m. follow 40 (fs_nodes t) p = Some (File m b)"
proof -
  have f: "fs_write_file p mode b =
     mbind fs_op (\<lambda>_.
     mbind (mget (\<lambda>s. (final_path 40 (fs_nodes s) p, fs_nodes s))) (\<lambda>(target, m). case target of
       None \<Rightarrow> mthrow ErrIO
     | Some q \<Rightarrow>
         mbind (mguard (\<forall>d. m q \<noteq> Some (Dir d)) ErrIO) (\<lambda>_.
         fill_file q (case m q of Some n \<Rightarrow> node_mode n | None \<Rightarrow> mode) b)))"
    unfolding fs_write_file_def fill_file_def Let_def by (rule refl)
  let ?u = "s\<lparr>fs_pos := Suc (fs_pos s)\<rparr>"
  have g: "mbind (mguard c e) (\<lambda>_. m) v = (Inr (), t) \<Longrightarrow> m v = (Inr (), t)" for c e and m :: "('a fsys_scheme, err, unit) prog" and v
    by (simp add: mbind_unfold mguard_eq split: if_splits)
  have "fs_op s = (Inr (), ?u)" using assms unfolding f by (auto simp: mbind_unfold fs_op_def split: if_splits)
  then have "(case final_path 40 (fs_nodes s) p of None \<Rightarrow> mthrow ErrIO
     | Some q \<Rightarrow>
         mbind (mguard (\<forall>d. fs_nodes s q \<noteq> Some (Dir d)) ErrIO) (\<lambda>_.
         fill_file q (case fs_nodes s q of Some n \<Rightarrow> node_mode n | None \<Rightarrow> mode) b)) ?u = (Inr (), t)"
    using assms unfolding f mbind_unfold by (cases "final_path 40 (fs_nodes s) p") (simp_all add: mget_eq mguard_eq split: if_splits)
  then obtain q where q: "final_path 40 (fs_nodes s) p = Some q"
    and w: "fill_file q (case fs_nodes s q of Some n \<Rightarrow> node_mode n | None \<Rightarrow> mode) b ?u = (Inr (), t)"
    by (cases "final_path 40 (fs_nodes s) p") (auto simp: mthrow_eq dest: g)
  have "\<exists>keep. fs_nodes t = (fs_nodes s)(q \<mapsto> File keep b)" using fill_file_Inr [OF w] by auto
  then show ?thesis using final_followed [OF q final_not_link [OF q]] by auto
qed


lemma zip_dir_holds:
  assumes "zip_dir K dir s = (Inr archive, t)"
    and "''manifest.json'' \<in> set (pk_walk K dir (fs_nodes s))" and "follow 40 (fs_nodes s) (path_join [dir, ''manifest.json'']) = Some (File m raw)"
  shows "fs_nodes t = fs_nodes s \<and> (\<exists>es. pk_zip K es = Inr archive \<and> map_of es ''manifest.json'' = Some raw)"
proof -
  from assms(1) obtain es where e: "zip_entries dir (pk_walk K dir (fs_nodes s)) (s\<lparr>fs_pos := Suc (fs_pos s)\<rparr>) = (Inr es, t)"
    and a: "pk_zip K es = Inr archive"
    by (auto simp: zip_dir_def mbind_Inr_iff prog_simps fs_op_Inr_iff)
  note h = zip_entries_hold [OF e]
  have "entry_held es ''manifest.json'' (fs_nodes s (path_join [dir, ''manifest.json'']))" using h assms(2) by simp
  then have "map_of es ''manifest.json'' = Some raw"
    using assms(3) by (auto simp: entry_held_def numeral_eq_Suc split: option.splits node.splits)
  with a h show ?thesis by auto
qed

text \<open>The key in a file and its public half, and the manifest of a folder.\<close>

definition signs_as :: "('k, 'p) crx_prims \<Rightarrow> 'k pack_prims \<Rightarrow> (string \<Rightarrow> node option) \<Rightarrow> string \<Rightarrow> 'k \<Rightarrow> bytes \<Rightarrow> bool" where
  "signs_as C K nodes path key pub \<longleftrightarrow>
     (\<exists>mode pem. follow 40 nodes path = Some (File mode pem) \<and> parse_private_key K pem = Inr key) \<and> cx_public_der C key = Inr pub"

definition folder_manifest :: "lookup_prims \<Rightarrow> (string \<Rightarrow> node option) \<Rightarrow> string \<Rightarrow> manifest \<Rightarrow> bool" where
  "folder_manifest L nodes dir m \<longleftrightarrow>
     (\<exists>mode raw. follow 40 nodes (path_join [dir, ''manifest.json'']) = Some (File mode raw) \<and> decode_manifest L raw = Inr m)"

definition pins :: "manifest \<Rightarrow> bytes \<Rightarrow> bool" where
  "pins m pub \<longleftrightarrow> mf_key m = '''' \<or> b64_decode (mf_key m) = Some pub"

lemma check_pin_None: "check_pin pub m = None \<longleftrightarrow> pins m pub"
  by (auto simp: check_pin_def pins_def split: option.splits)

lemma decided_args:
  assumes "parse_flags (pack_flags getenv) args = Inr (fs, rest)" and "text_flag fs ''inspect'' = ''''" and "\<not> switch_flag fs ''print-id''"
    and "pack_run C L K getenv args s = (Inr (), t)"
  shows "text_flag fs ''out'' \<noteq> '''' \<and> (\<exists>dir key pub. rest = [dir] \<and>
     signs_as C K (fs_nodes s) (text_flag fs ''key'') key pub \<and>
     pack_folder C L K key pub dir (text_flag fs ''out'') (s\<lparr>fs_pos := Suc (fs_pos s)\<rparr>) = (Inr (), t))"
proof -
  have "length rest = 1" and "text_flag fs ''out'' \<noteq> ''''"
    using assms by (auto simp: pack_run_def Let_def mthrow_eq split: if_splits)
  moreover from this assms obtain key pub where "signs_as C K (fs_nodes s) (text_flag fs ''key'') key pub"
     "pack_folder C L K key pub (hd rest) (text_flag fs ''out'') (s\<lparr>fs_pos := Suc (fs_pos s)\<rparr>) = (Inr (), t)"
    by (auto simp: pack_run_def signs_as_def Let_def mthrow_eq mbind_Inr_iff prog_simps fs_read_Inr_iff split: if_splits)
  ultimately show ?thesis by (cases rest) auto
qed

text \<open>Only the lines of the tool itself are printed.\<close>

lemma outs_steps:
  "obeys (same_on pa_out) (fs_op :: (packer, err, unit) prog)" "obeys (same_on pa_out) (set_node p n :: (packer, err, unit) prog)"
  "obeys (same_on pa_out) (fs_lookup p :: (packer, err, node) prog)" "obeys (same_on pa_out) (fs_read p :: (packer, err, bytes) prog)"
  by (auto simp: obeys_def same_on_def fs_op_def set_node_def mmodify_eq fs_lookup_def fs_read_def mbind_unfold mthrow_eq mreturn_eq mget_eq
      split: option.splits node.splits prod.splits if_splits)

lemma outs_entry: "obeys (same_on pa_out) (zip_entry dir rel :: (packer, err, (string \<times> bytes) list) prog)"
  unfolding zip_entry_def
  by (intro same.ok_intros outs_steps, rename_tac n, case_tac n) (auto intro!: same.ok_intros outs_steps split: node.split)

lemma outs_entries: "obeys (same_on pa_out) (zip_entries dir rels :: (packer, err, (string \<times> bytes) list) prog)"
  by (induction rels) (auto intro!: same.ok_intros outs_entry)

lemma outs_kept:
  "obeys (same_on pa_out) (zip_dir K dir :: (packer, err, bytes) prog)"
  "obeys (same_on pa_out) (fs_mkdir_all p n :: (packer, err, unit) prog)"
  "obeys (same_on pa_out) (fs_write_file p n b :: (packer, err, unit) prog)"
proof -
  show "obeys (same_on pa_out) (zip_dir K dir :: (packer, err, bytes) prog)"
    unfolding zip_dir_def by (intro same.ok_intros outs_steps outs_entries)
  show "obeys (same_on pa_out) (fs_mkdir_all p n :: (packer, err, unit) prog)"
    unfolding fs_mkdir_all_def fs_mkdir_def
    by (rule same.ok_for) (auto intro!: same.ok_intros outs_steps split: option.splits node.splits)
  show "obeys (same_on pa_out) (fs_write_file p n b :: (packer, err, unit) prog)"
    unfolding fs_write_file_def fs_write_new_def Let_def
    by (intro same.ok_intros outs_steps) (auto intro!: same.ok_intros obeys_attempt outs_steps split: option.splits sum.splits)
qed

text \<open>What packing leaves: the package in the file, over an archive of the folder's manifest, and the line
  that announces it.\<close>

lemma pack_folder_Inr:
  assumes "pack_folder C L K key pub dir out s = (Inr (), t)"
    and "follow 40 (fs_nodes s) (path_join [dir, ''manifest.json'']) \<noteq> None \<Longrightarrow> ''manifest.json'' \<in> set (pk_walk K dir (fs_nodes s))"
  shows "\<exists>m raw es archive data mode. decode_manifest L raw = Inr m \<and> folder_manifest L (fs_nodes s) dir m \<and> pins m pub \<and> pk_zip K es = Inr archive \<and> map_of es ''manifest.json'' = Some raw \<and>
     crx_pack C archive key = Inr data \<and> follow 40 (fs_nodes t) out = Some (File mode data) \<and>
     pa_out t = pa_out s @ [out @ '': '' @ mf_name m @ '' '' @ mf_version m @ '' (extension '' @ extension_id C pub @ '')'']"
proof -
  let ?u = "s\<lparr>fs_pos := Suc (fs_pos s)\<rparr>"
  obtain m raw b where m: "follow 40 (fs_nodes s) (path_join [dir, ''manifest.json'']) = Some (File b raw)" "decode_manifest L raw = Inr m"
    and c: "(case check_pin pub m of Some e \<Rightarrow> mthrow e
     | None \<Rightarrow> mbind (zip_dir K dir) (\<lambda>archive. mbind (mlift (crx_pack C archive key)) (\<lambda>data.
         mbind (fs_mkdir_all (path_dir out) 493) (\<lambda>_. mbind (fs_write_file out 420 data) (\<lambda>_.
         put_line (out @ '': '' @ mf_name m @ '' '' @ mf_version m @ '' (extension '' @ extension_id C pub @ '')'')))))) ?u = (Inr (), t)"
    using assms(1) unfolding pack_folder_def read_manifest_file_def by (auto simp: mbind_Inr_iff fs_read_Inr_iff mlift_eq)
  from c obtain archive data v w x where z: "zip_dir K dir ?u = (Inr archive, v)" and p: "crx_pack C archive key = Inr data"
    and d: "fs_mkdir_all (path_dir out) 493 v = (Inr (), w)" and f: "fs_write_file out 420 data w = (Inr (), x)"
    and t: "t = x\<lparr>pa_out := pa_out x @ [out @ '': '' @ mf_name m @ '' '' @ mf_version m @ '' (extension '' @ extension_id C pub @ '')'']\<rparr>"
    by (cases "check_pin pub m") (auto simp: mthrow_eq mbind_Inr_iff mlift_eq put_line_def mmodify_eq)
  obtain es where es: "pk_zip K es = Inr archive" "map_of es ''manifest.json'' = Some raw"
    using zip_dir_holds [OF z, of b raw] assms(2) m(1) by auto
  obtain mode where "follow 40 (fs_nodes x) out = Some (File mode data)" using written_is_read [OF f] by blast
  moreover have "pa_out x = pa_out s"
    using same_okD [OF outs_kept(1) z] same_okD [OF outs_kept(2) d] same_okD [OF outs_kept(3) f] by simp
  moreover have "pins m pub" using c by (cases "check_pin pub m") (simp_all add: mthrow_eq check_pin_None)
  moreover have "folder_manifest L (fs_nodes s) dir m" using m by (auto simp: folder_manifest_def)
  ultimately show ?thesis using m(2) es p t by auto
qed

lemma inspected_package:
  assumes "follow 40 (fs_nodes u) path = Some (File mode data)" and "\<And>n. fs_ok u n"
    and "crx_verify C data = Inr pkg" and "read_manifest L (cp_archive pkg) = Inr m"
  shows "\<exists>w. inspect_crx C L path u = (Inr (), w) \<and> pa_out w = pa_out u @ [id_and_version (cp_id pkg) (mf_version m)]"
  using assms
  by (simp add: inspect_crx_def fs_read_def fs_lookup_def fs_op_def mbind_unfold mget_eq mreturn_eq attempt_def mlift_eq put_line_def mmodify_eq)

lemma inspect_flag:
  "parse_one (pack_flags getenv) [''-inspect'', path] = Inr (Set (AList.update ''inspect'' (Text path) (pack_flags getenv)) [])"
  by (simp add: parse_one_def is_flag_def flag_name_def cut_def pack_flags_def set_flag_def Let_def)

lemma inspect_args:
  assumes "path \<noteq> ''''"
  shows "pack_run C L K getenv [''-inspect'', path] = inspect_crx C L path"
proof -
  have "parse_flags (pack_flags getenv) [''-inspect'', path] = Inr (AList.update ''inspect'' (Text path) (pack_flags getenv), [])"
    by (subst parse_flags.simps, subst inspect_flag) (simp add: parse_flags.simps [of _ "[]"] parse_one_def)
  moreover have "text_flag (AList.update ''inspect'' (Text path) (pack_flags getenv)) ''inspect'' = path"
    by (simp add: text_flag_def update_conv)
  ultimately show ?thesis using assms by (simp add: pack_run_def)
qed

text \<open>What was packed, an inspection identifies by the key that signed and the manifest of the folder.\<close>

lemma packed_is_inspected:
  assumes "crx_agrees C" and "pack_run C L K getenv args s = (Inr (), t)"
    and "parse_flags (pack_flags getenv) args = Inr (fs, [dir])" and "text_flag fs ''inspect'' = ''''" and "\<not> switch_flag fs ''print-id''"
    and walk: "follow 40 (fs_nodes s) (path_join [dir, ''manifest.json'']) \<noteq> None \<Longrightarrow> ''manifest.json'' \<in> set (pk_walk K dir (fs_nodes s))"
    and zip: "\<And>es a b. pk_zip K es = Inr a \<Longrightarrow> map_of es ''manifest.json'' = Some b \<Longrightarrow> lk_unzip L a = Inr b"
    and size: "\<And>es a. pk_zip K es = Inr a \<Longrightarrow> length a < 2 ^ 62"
    and sizes: "\<And>k p d sig. signs_as C K (fs_nodes s) (text_flag fs ''key'') k p \<Longrightarrow> cx_sign C k d = Inr sig \<Longrightarrow> length p + length sig \<le> 2 ^ 19"
    and "fs_nodes u = fs_nodes t" and "\<And>n. fs_ok u n"
  shows "\<exists>key pub m w. signs_as C K (fs_nodes s) (text_flag fs ''key'') key pub \<and> folder_manifest L (fs_nodes s) dir m \<and> pins m pub \<and>
    pack_run C L K getenv' [''-inspect'', text_flag fs ''out''] u = (Inr (), w) \<and>
    pa_out w = pa_out u @ [id_and_version (extension_id C pub) (mf_version m)]"
proof -
  from decided_args [OF assms(3,4,5,2)] obtain key pub where out: "text_flag fs ''out'' \<noteq> ''''"
    and k: "signs_as C K (fs_nodes s) (text_flag fs ''key'') key pub"
    and p: "pack_folder C L K key pub dir (text_flag fs ''out'') (s\<lparr>fs_pos := Suc (fs_pos s)\<rparr>) = (Inr (), t)"
    by auto
  have pub: "cx_public_der C key = Inr pub" using k by (simp add: signs_as_def)
  obtain m raw es archive data mode where r: "decode_manifest L raw = Inr m" "pk_zip K es = Inr archive" "map_of es ''manifest.json'' = Some raw"
    and m: "folder_manifest L (fs_nodes s) dir m" "pins m pub"
    and c: "crx_pack C archive key = Inr data" and f: "follow 40 (fs_nodes t) (text_flag fs ''out'') = Some (File mode data)"
    using pack_folder_Inr [OF p] walk by auto
  have v: "crx_verify C data = Inr \<lparr>cp_id = extension_id C pub, cp_public_key = pub, cp_archive = archive\<rparr>"
    by (rule crx_pack_verifies [OF assms(1) c pub]) (use sizes [OF k] size [OF r(2)] in auto)
  have rm: "read_manifest L archive = Inr m" using r zip [OF r(2,3)] by (simp add: read_manifest_def)
  from inspected_package [of u "text_flag fs ''out''" mode data C _ L m] f assms(10,11) v rm
  obtain w where "inspect_crx C L (text_flag fs ''out'') u = (Inr (), w) \<and> pa_out w = pa_out u @ [id_and_version (extension_id C pub) (mf_version m)]"
    by auto
  with k m show ?thesis unfolding inspect_args [OF out] by blast
qed

section \<open>A concrete run\<close>

definition demo_packing :: "bytes pack_prims" where
  "demo_packing = \<lparr>pk_pem = (\<lambda>b. Some (''PRIVATE KEY'', b)), pk_pkcs8 = (\<lambda>b. Inr (Some b)), pk_pkcs1 = Inr,
     pk_walk = (\<lambda>_ _. [''.'', ''manifest.json'']),
     pk_zip = (\<lambda>es. case map_of es ''manifest.json'' of
        Some b \<Rightarrow> if length b < 1000 then Inr b else Inl ErrIO
      | None \<Rightarrow> Inl ErrIO)\<rparr>"

definition demo_manifests :: lookup_prims where
  "demo_manifests = \<lparr>lk_json = (\<lambda>b. Inr \<lparr>mf_name = ''albear'', mf_version = ''1.0'', mf_key = ''BA==''\<rparr>), lk_unzip = Inr\<rparr>"

definition demo_workshop :: packer where
  "demo_workshop = \<lparr>fs_nodes = [''/'' \<mapsto> Dir 493, ''/k'' \<mapsto> File 384 [4], ''/d'' \<mapsto> Dir 493, ''/d/manifest.json'' \<mapsto> File 420 [1, 2, 3]],
     fs_ok = (\<lambda>_. True), fs_part = (\<lambda>_. 0), fs_pos = 0, pa_out = []\<rparr>"

definition demo_pack_args :: "string list" where
  "demo_pack_args = [''-key'', ''/k'', ''-out'', ''/o'', ''/d'']"

definition demo_pack_flags :: flags where
  "demo_pack_flags = [(''key'', Text ''/k''), (''out'', Text ''/o''), (''print-id'', Switch False), (''inspect'', Text '''')]"

lemma demo_pack_parsed: "parse_flags (pack_flags (\<lambda>_. None)) demo_pack_args = Inr (demo_pack_flags, [''/d''])"
  by code_simp

lemma demo_pack_flag:
  "text_flag demo_pack_flags ''key'' = ''/k''" "text_flag demo_pack_flags ''out'' = ''/o''" "text_flag demo_pack_flags ''inspect'' = ''''"
  "\<not> switch_flag demo_pack_flags ''print-id''"
  by (simp_all add: demo_pack_flags_def text_flag_def switch_flag_def)

lemma demo_joined: "path_join [''/d'', ''manifest.json''] = ''/d/manifest.json''" "path_join [''/d'', ''.''] = ''/d''"
  "path_dir ''/o'' = ''/''" "way_to ''/'' = [''/'']" "b64_decode ''BA=='' = Some [4]"
  by code_simp+

definition demo_shop :: "(string \<Rightarrow> node option) \<Rightarrow> nat \<Rightarrow> packer" where
  "demo_shop nodes n = demo_workshop\<lparr>fs_nodes := nodes, fs_pos := n\<rparr>"

lemma demo_shop_sel [simp]: "fs_nodes (demo_shop m n) = m" "fs_ok (demo_shop m n) = (\<lambda>_. True)" "fs_pos (demo_shop m n) = n"
  "(demo_shop m n)\<lparr>fs_pos := k\<rparr> = demo_shop m k" "(demo_shop m n)\<lparr>fs_nodes := m'\<rparr> = demo_shop m' n"
  by (simp_all add: demo_shop_def demo_workshop_def)

lemma demo_op: "fs_op (demo_shop m n) = (Inr (), demo_shop m (Suc n))"
  by (simp add: fs_op_def)

lemma demo_read: "m p = Some (File k b) \<Longrightarrow> fs_read p (demo_shop m n) = (Inr b, demo_shop m (Suc n))"
  by (simp add: fs_read_Inr_iff follow_plain)

lemma demo_write:
  "m p = None \<Longrightarrow> fs_write_file p k b (demo_shop m n) = (Inr (), demo_shop (m(p \<mapsto> File k b)) (n + 3))"
  by (simp add: fs_write_file_def fs_write_new_def demo_op mbind_unfold mget_eq mguard_eq attempt_def set_node_def mmodify_eq mlift_eq
      numeral_eq_Suc mreturn_eq)

lemma demo_packs:
  "\<exists>t. pack_run plain_crx demo_manifests demo_packing (\<lambda>_. None) demo_pack_args demo_workshop = (Inr (), t) \<and> (\<forall>n. fs_ok t n)"
proof -
  define m where "m = fs_nodes demo_workshop"
  have w: "demo_workshop = demo_shop m 0" by (simp add: demo_shop_def m_def demo_workshop_def)
  have nodes: "m ''/'' = Some (Dir 493)" "m ''/k'' = Some (File 384 [4])" "m ''/d'' = Some (Dir 493)"
    "m ''/d/manifest.json'' = Some (File 420 [1, 2, 3])" "m ''/o'' = None"
    by (simp_all add: m_def demo_workshop_def)
  obtain data where d: "crx_pack plain_crx [1, 2, 3] [4] = Inr data" using plain_crx_packs by blast
  have k: "cx_public_der plain_crx [4] = Inr [4]" by (simp add: plain_crx_def)
  have mf: "read_manifest_file demo_manifests ''/d'' (demo_shop m n) = (Inr \<lparr>mf_name = ''albear'', mf_version = ''1.0'', mf_key = ''BA==''\<rparr>, demo_shop m (Suc n))" for n
    by (simp add: read_manifest_file_def demo_joined mbind_unfold demo_read [where m = m, OF nodes(4)] mlift_eq decode_manifest_def demo_manifests_def)
  have z: "zip_dir demo_packing ''/d'' (demo_shop m n) = (Inr [1, 2, 3], demo_shop m (Suc (Suc (Suc n))))" for n
    by (simp add: zip_dir_def zip_entry_def demo_packing_def demo_joined mbind_unfold demo_op mget_eq nodes mreturn_eq demo_read [where m = m, OF nodes(4)] mlift_eq)
  have mk: "fs_mkdir_all ''/'' 493 (demo_shop m n) = (Inr (), demo_shop m (Suc n))" for n
    by (simp add: fs_mkdir_all_def demo_joined fs_mkdir_def mbind_unfold demo_op mget_eq nodes numeral_eq_Suc mreturn_eq)
  have p: "check_pin [4] \<lparr>mf_name = ''albear'', mf_version = ''1.0'', mf_key = ''BA==''\<rparr> = None"
    by (simp add: check_pin_def demo_joined)
  have key: "parse_private_key demo_packing [4] = Inr [4]" by (simp add: parse_private_key_def demo_packing_def)
  show ?thesis
    by (simp add: pack_run_def demo_pack_parsed demo_pack_flag Let_def w mbind_unfold demo_read [where m = m, OF nodes(2)] mlift_eq key k
        pack_folder_def mf p z d demo_joined mk demo_write [where m = m, OF nodes(5)] put_line_def mmodify_eq)
qed

lemma demo_pack_key:
  assumes "signs_as plain_crx demo_packing (fs_nodes demo_workshop) ''/k'' key pub"
  shows "key = [4] \<and> pub = [4]"
proof -
  have "follow 40 (fs_nodes demo_workshop) ''/k'' = Some (File 384 [4])" by (rule follow_plain) (simp add: demo_workshop_def)
  then show ?thesis using assms by (auto simp: signs_as_def parse_private_key_def demo_packing_def plain_crx_def)
qed

lemma demo_zips: "pk_zip demo_packing es = Inr a \<Longrightarrow> map_of es ''manifest.json'' = Some a \<and> length a < 1000"
  by (auto simp: demo_packing_def split: option.splits if_splits)

end
