(* ===== verification/Console.thy ===== *)
theory Console
  imports Client Updates Flags Install
begin

text \<open>
  The plumbing of the command line (\<^verbatim>\<open>cmd/vault/main.go\<close>): exit codes, the connection to the daemon, one
  request, passwords and answers from the terminal. The terminal is what is typed or piped and what has
  been printed; the requests made of the client library are kept in order.
\<close>

section \<open>Values of JSON\<close>

text \<open>What a \<^verbatim>\<open>map[string]any\<close> or \<^verbatim>\<open>[]any\<close> holds; a nil map inside an interface is \<open>JNil\<close>.\<close>

datatype jval = JNull | JNil | JBool bool | JInt int | JStr string | JArr "jval list" | JObj "(string \<times> jval) list"

type_synonym payload = "(string \<times> jval) list"

section \<open>Exit codes\<close>

definition exit_ok :: nat where "exit_ok = 0"
definition exit_usage :: nat where "exit_usage = 2"
definition exit_locked :: nat where "exit_locked = 3"
definition exit_auth :: nat where "exit_auth = 4"
definition exit_not_found :: nat where "exit_not_found = 5"
definition exit_denied :: nat where "exit_denied = 6"
definition exit_integrity :: nat where "exit_integrity = 7"
definition exit_unavailable :: nat where "exit_unavailable = 8"
definition exit_conflict :: nat where "exit_conflict = 9"
definition exit_internal :: nat where "exit_internal = 10"

lemmas exit_codes = exit_ok_def exit_usage_def exit_locked_def exit_auth_def exit_not_found_def exit_denied_def
  exit_integrity_def exit_unavailable_def exit_conflict_def exit_internal_def

definition exit_code_for :: "err \<Rightarrow> nat" where
  "exit_code_for e =
     (case e of
        ErrAPI code _ \<Rightarrow>
          if code = code_string CodeVaultLocked then exit_locked
          else if code = code_string CodeAuthFailed \<or> code = code_string CodeRateLimited then exit_auth
          else if code = code_string CodeNotFound \<or> code = code_string CodeUninitialized then exit_not_found
          else if code = code_string CodeDenied then exit_denied
          else if code = code_string CodeIntegrity then exit_integrity
          else if code = code_string CodeConflict then exit_conflict
          else if code = code_string CodeInvalid \<or> code = code_string CodeWeakPassword then exit_usage
          else exit_internal
      | _ \<Rightarrow> if e = err_unavailable then exit_unavailable else exit_internal)"

section \<open>The terminal and the connection\<close>

record ('h, 'c, 'k, 'p) cli =
  cl_unicode :: unicode_tables
  cl_host :: host
  cl_version :: string
  cl_install_source :: string
  cl_noise :: "('h, 'c) noise_prims"
  cl_cipher :: "'c cipher_prims"
  cl_hello :: "hello \<Rightarrow> err + bytes"
  cl_envelopes :: client_json
  cl_encode :: "payload \<Rightarrow> err + bytes"
  cl_text :: "err \<Rightarrow> string"
  cl_quoted :: "string \<Rightarrow> string"
  cl_any :: "jval \<Rightarrow> string"
  cl_indented :: "payload \<Rightarrow> string"
  cl_update :: update_json
  cl_crx :: "('k, 'p) crx_prims"
  cl_lookup :: lookup_prims
  cl_install :: install_json

record 'c console = online +
  co_tty :: bool
  co_input :: "string list"
  co_out :: "string list"
  co_err :: "string list"
  co_tmp_names :: "nat \<Rightarrow> string"
  co_tmp_count :: nat
  co_nets :: "string \<Rightarrow> nat \<Rightarrow> err + stream"
  co_keys :: "nat \<Rightarrow> err + bytes \<times> bytes"
  co_dials :: nat
  co_client :: "'c client"
  co_requests :: "(string \<times> payload option) list"

definition say :: "string \<Rightarrow> ('c console, err, unit) prog" where
  "say l = mmodify (\<lambda>s. s\<lparr>co_out := co_out s @ [l]\<rparr>)"

definition warn :: "string \<Rightarrow> ('c console, err, unit) prog" where
  "warn l = mmodify (\<lambda>s. s\<lparr>co_err := co_err s @ [l]\<rparr>)"

text \<open>A message on the error stream, or a line on the other, and an exit code.\<close>

definition warn_exit :: "string \<Rightarrow> nat \<Rightarrow> ('c console, err, nat) prog" where
  "warn_exit l code = mbind (warn l) (\<lambda>_. mreturn code)"

definition say_exit :: "string \<Rightarrow> nat \<Rightarrow> ('c console, err, nat) prog" where
  "say_exit l code = mbind (say l) (\<lambda>_. mreturn code)"

definition error_text :: "('h, 'c, 'k, 'p) cli \<Rightarrow> err \<Rightarrow> string" where
  "error_text L e = (case e of ErrAPI code message \<Rightarrow> code @ '': '' @ message | _ \<Rightarrow> cl_text L e)"

definition cli_fail :: "('h, 'c, 'k, 'p) cli \<Rightarrow> err \<Rightarrow> ('c console, err, nat) prog" where
  "cli_fail L e = warn_exit (''vault: '' @ error_text L e) (exit_code_for e)"

definition cli_paths :: "('h, 'c, 'k, 'p) cli \<Rightarrow> err + paths" where
  "cli_paths L = resolve_paths (cl_unicode L) (ho_getenv (cl_host L)) (ho_home (cl_host L)) (cl_version L)"

text \<open>\<^verbatim>\<open>connect\<close>: no exit code stands for a client.\<close>

definition em_dash :: string where "em_dash = [CHR 0xE2, CHR 0x80, CHR 0x94]"

definition connect :: "('h, 'c, 'k, 'p) cli \<Rightarrow> ('c console, err, nat option) prog" where
  "connect L =
     (case cli_paths L of
        Inl e \<Rightarrow> mbind (warn (''vault: '' @ error_text L e)) (\<lambda>_. mreturn (Some exit_internal))
      | Inr p \<Rightarrow> (\<lambda>s.
          let n = co_dials s; t = s\<lparr>co_dials := Suc n\<rparr> in
          case dial_cli (cl_noise L) (cl_hello L) (co_nets s (socket_path p) n) (co_keys s n) of
            Inl _ \<Rightarrow> mbind (warn (''vault: daemon unavailable '' @ em_dash @ '' is vaultd running?'')) (\<lambda>_.
              mreturn (Some exit_unavailable)) t
          | Inr c \<Rightarrow> (Inr None, t\<lparr>co_client := c\<rparr>)))"

definition with_connection :: "('h, 'c, 'k, 'p) cli \<Rightarrow> ('c console, err, nat) prog \<Rightarrow> ('c console, err, nat) prog" where
  "with_connection L m = mbind (connect L) (\<lambda>c. case c of Some code \<Rightarrow> mreturn code | None \<Rightarrow> m)"

text \<open>\<^verbatim>\<open>c.Call\<close> on the open connection.\<close>

definition request ::
  "('h, 'c, 'k, 'p) cli \<Rightarrow> string \<Rightarrow> payload option \<Rightarrow> (bytes \<Rightarrow> 'o option) option \<Rightarrow> ('c console, err, 'o option) prog" where
  "request L oper payload out = (\<lambda>s.
     case client_call (cl_cipher L) (cl_envelopes L) oper (map_option (cl_encode L) payload) out (co_client s) of
       (r, c) \<Rightarrow> (r, s\<lparr>co_client := c, co_requests := co_requests s @ [(oper, payload)]\<rparr>))"

text \<open>A request whose failure ends the command.\<close>

definition request_or_fail ::
  "('h, 'c, 'k, 'p) cli \<Rightarrow> string \<Rightarrow> payload option \<Rightarrow> (bytes \<Rightarrow> 'o option) option \<Rightarrow>
   ('o option \<Rightarrow> ('c console, err, nat) prog) \<Rightarrow> ('c console, err, nat) prog" where
  "request_or_fail L oper payload out k =
     mbind (attempt (request L oper payload out)) (\<lambda>r. case r of Inl e \<Rightarrow> cli_fail L e | Inr x \<Rightarrow> k x)"

definition no_output :: "(bytes \<Rightarrow> unit option) option" where "no_output = None"

text \<open>\<^verbatim>\<open>call\<close>: connect, one request, close. The error of a connection that failed is a new one.\<close>

definition call ::
  "('h, 'c, 'k, 'p) cli \<Rightarrow> string \<Rightarrow> payload option \<Rightarrow> (bytes \<Rightarrow> 'o option) option \<Rightarrow>
   ('c console, err, nat \<times> (err + 'o option)) prog" where
  "call L oper payload out =
     mbind (connect L) (\<lambda>c. case c of
       Some code \<Rightarrow> mreturn (code, Inl (ErrOther ''unavailable''))
     | None \<Rightarrow>
         mbind (attempt (request L oper payload out)) (\<lambda>r. case r of
           Inl e \<Rightarrow> mreturn (exit_code_for e, Inl e)
         | Inr x \<Rightarrow> mreturn (exit_ok, Inr x)))"

text \<open>The two ways the commands use it: with a look at the code, and without.\<close>

definition call_or_fail ::
  "('h, 'c, 'k, 'p) cli \<Rightarrow> string \<Rightarrow> payload option \<Rightarrow> (bytes \<Rightarrow> 'o option) option \<Rightarrow>
   ('o option \<Rightarrow> ('c console, err, nat) prog) \<Rightarrow> ('c console, err, nat) prog" where
  "call_or_fail L oper payload out k =
     mbind (call L oper payload out) (\<lambda>(code, r). case r of
       Inl e \<Rightarrow> cli_fail L e
     | Inr x \<Rightarrow> if code \<noteq> exit_ok then mreturn code else k x)"

definition simple_op :: "('h, 'c, 'k, 'p) cli \<Rightarrow> string \<Rightarrow> ('c console, err, nat) prog" where
  "simple_op L oper = call_or_fail L oper None no_output (\<lambda>_. say_exit ''ok'' exit_ok)"

section \<open>Input\<close>

text \<open>A terminal gives a line at a time; from a pipe the buffered reader takes all there is and the first
  line is used. The end of the input is no line.\<close>

definition take_line :: "('c console, err, string option) prog" where
  "take_line = (\<lambda>s. case co_input s of
       [] \<Rightarrow> (Inr None, s)
     | l # ls \<Rightarrow> (Inr (Some l), s\<lparr>co_input := (if co_tty s then ls else [])\<rparr>))"

definition trim_newlines :: "string \<Rightarrow> string" where
  "trim_newlines l = rev (dropWhile (\<lambda>c. c = CHR 0x0D \<or> c = CHR 0x0A) (rev l))"

definition read_password :: "string \<Rightarrow> bool \<Rightarrow> ('c console, err, string) prog" where
  "read_password prompt allow_stdin =
     mbind (mget co_tty) (\<lambda>tty.
     if tty then
       mbind (warn prompt) (\<lambda>_.
       mbind take_line (\<lambda>l. case l of None \<Rightarrow> mthrow ErrEOF | Some pw \<Rightarrow> mreturn pw))
     else if \<not> allow_stdin then mthrow (ErrOther ''refusing to read password from a non-terminal; use --password-stdin'')
     else mbind take_line (\<lambda>l. case l of None \<Rightarrow> mthrow ErrEOF | Some pw \<Rightarrow> mreturn (trim_newlines pw)))"

definition password_or_fail ::
  "('h, 'c, 'k, 'p) cli \<Rightarrow> string \<Rightarrow> bool \<Rightarrow> (string \<Rightarrow> ('c console, err, nat) prog) \<Rightarrow> ('c console, err, nat) prog" where
  "password_or_fail L prompt allow_stdin k =
     mbind (attempt (read_password prompt allow_stdin)) (\<lambda>r. case r of Inl e \<Rightarrow> cli_fail L e | Inr pw \<Rightarrow> k pw)"

definition prompt_line :: "('h, 'c, 'k, 'p) cli \<Rightarrow> string \<Rightarrow> ('c console, err, string) prog" where
  "prompt_line L prompt =
     mbind (warn prompt) (\<lambda>_.
     mbind take_line (\<lambda>l. mreturn (case l of None \<Rightarrow> '''' | Some t \<Rightarrow> trim_space (cl_unicode L) t)))"

section \<open>Output (\<^verbatim>\<open>fmt\<close>)\<close>

definition pad :: "nat \<Rightarrow> string \<Rightarrow> string" where
  "pad n s = s @ replicate (n - length (runes s)) CHR '' ''"

definition show_int :: "int \<Rightarrow> string" where
  "show_int i = (if i < 0 then CHR ''-'' # decimal (nat (- i)) else decimal (nat i))"

definition show_bool :: "bool \<Rightarrow> string" where
  "show_bool b = (if b then ''true'' else ''false'')"

section \<open>No daemon\<close>

lemma unreachable_connect:
  assumes "cli_paths L = Inr p"
    and "dial_cli (cl_noise L) (cl_hello L) (co_nets s (socket_path p) (co_dials s)) (co_keys s (co_dials s)) = Inl e"
  shows "\<exists>t. connect L s = (Inr (Some exit_unavailable), t)"
  using assms by (simp add: connect_def Let_def mbind_unfold warn_def mmodify_eq mreturn_eq)

lemma unreachable_connection:
  assumes "cli_paths L = Inr p"
    and "dial_cli (cl_noise L) (cl_hello L) (co_nets s (socket_path p) (co_dials s)) (co_keys s (co_dials s)) = Inl e"
  shows "fst (with_connection L m s) = Inr exit_unavailable"
  using unreachable_connect [OF assms] by (auto simp: with_connection_def mbind_unfold mreturn_eq)

lemma unreachable_call:
  assumes "cli_paths L = Inr p"
    and "dial_cli (cl_noise L) (cl_hello L) (co_nets s (socket_path p) (co_dials s)) (co_keys s (co_dials s)) = Inl e"
  shows "fst (call_or_fail L oper payload out k s) = Inr exit_internal"
  using unreachable_connect [OF assms]
  by (auto simp: call_or_fail_def call_def mbind_unfold mreturn_eq cli_fail_def warn_exit_def warn_def mmodify_eq
      exit_code_for_def err_unavailable_def)

end
