(* ===== verification/Commands.thy ===== *)
theory Commands
  imports Console
begin

text \<open>
  The commands of the command line on the vault (\<^verbatim>\<open>cmd/vault/main.go\<close>): creating, unlocking, the records,
  passwords, clients, backups, events, the check-up and the destruction. Each is a program over the
  terminal and the connection that ends with an exit code. The decoding of the answers is a parameter.
\<close>

section \<open>What the answers are read into\<close>

record status_out =
  so_initialized :: bool
  so_unlocked :: bool
  so_record_count :: int

record view =
  vw_id :: string
  vw_type :: string
  vw_revision :: u64
  vw_name :: string
  vw_username :: string
  vw_service :: string
  vw_urls :: "string list"
  vw_entries :: "(string \<times> bool) list option"
  vw_tags :: "string list option"

record shown = view +
  vw_environment :: string

record client_out =
  cw_id :: string
  cw_kind :: int
  cw_status :: int
  cw_label :: string

record pending_out =
  po_id :: string
  po_kind_name :: string
  po_label :: string
  po_phrase :: string
  po_capabilities :: "string list"

record event_out =
  eo_occurred :: int
  eo_severity :: int
  eo_code :: int
  eo_details :: string

text \<open>A map may be nil, and so may the slices of a view.\<close>

record decoders =
  un_status :: "bytes \<Rightarrow> status_out option"
  un_text :: "string \<Rightarrow> bytes \<Rightarrow> string option"
  un_views :: "bytes \<Rightarrow> view list option"
  un_shown :: "bytes \<Rightarrow> shown option"
  un_map :: "bytes \<Rightarrow> payload option option"
  un_clients :: "bytes \<Rightarrow> client_out list option"
  un_pending :: "bytes \<Rightarrow> pending_out list option"
  un_backup :: "bytes \<Rightarrow> (string \<times> u64) option"
  un_events :: "bytes \<Rightarrow> event_out list option"

definition zero_status :: status_out where
  "zero_status = \<lparr>so_initialized = False, so_unlocked = False, so_record_count = 0\<rparr>"

definition zero_shown :: shown where
  "zero_shown = \<lparr>vw_id = '''', vw_type = '''', vw_revision = 0, vw_name = '''', vw_username = '''', vw_service = '''',
     vw_urls = [], vw_entries = None, vw_tags = None, vw_environment = ''''\<rparr>"

text \<open>The variable an answer without data leaves alone.\<close>

definition or_zero :: "'o \<Rightarrow> 'o option \<Rightarrow> 'o" where
  "or_zero z r = (case r of None \<Rightarrow> z | Some x \<Rightarrow> x)"

section \<open>Life of the vault\<close>

definition password_flags :: flags where
  "password_flags = [(''password-stdin'', Switch False)]"

definition flag_on :: "flags \<Rightarrow> string \<Rightarrow> bool" where
  "flag_on fs n = (map_of fs n = Some (Switch True))"

definition flag_text :: "flags \<Rightarrow> string \<Rightarrow> string" where
  "flag_text fs n = (case map_of fs n of Some (Text t) \<Rightarrow> t | _ \<Rightarrow> '''')"

definition flag_number :: "flags \<Rightarrow> string \<Rightarrow> int" where
  "flag_number fs n = (case map_of fs n of Some (Number i) \<Rightarrow> i | _ \<Rightarrow> 0)"

text \<open>A command that parses its flags first; the flag set prints what is wrong with them.\<close>

definition flag_message :: "err \<Rightarrow> string" where
  "flag_message e = (case e of ErrOther t \<Rightarrow> t | _ \<Rightarrow> '''')"

definition with_flags :: "flags \<Rightarrow> string list \<Rightarrow> (flags \<Rightarrow> string list \<Rightarrow> ('c console, err, nat) prog) \<Rightarrow> ('c console, err, nat) prog" where
  "with_flags fs args k =
     (case parse_flags fs args of
        Inl e \<Rightarrow> warn_exit (flag_message e) exit_usage
      | Inr (gs, rest) \<Rightarrow> k gs rest)"

definition cmd_init :: "('h, 'c, 'k, 'p) cli \<Rightarrow> string list \<Rightarrow> ('c console, err, nat) prog" where
  "cmd_init L args =
     with_flags password_flags args (\<lambda>fs _.
     password_or_fail L ''New master password: '' (flag_on fs ''password-stdin'') (\<lambda>pw.
     let create = call_or_fail L ''vault.init'' (Some [(''password'', JStr pw)]) no_output (\<lambda>_.
           say_exit ''Vault created. There is NO recovery if you forget the master password.'' exit_ok) in
     if flag_on fs ''password-stdin'' then create
     else mbind (attempt (read_password ''Repeat master password: '' False)) (\<lambda>r.
       if r \<noteq> Inr pw then warn_exit ''vault: passwords do not match'' exit_usage else create)))"

definition cmd_status :: "('h, 'c, 'k, 'p) cli \<Rightarrow> decoders \<Rightarrow> ('c console, err, nat) prog" where
  "cmd_status L W =
     call_or_fail L ''vault.status'' None (Some (un_status W)) (\<lambda>r.
     let st = or_zero zero_status r in
     if \<not> so_initialized st then say_exit ''state: uninitialized (run `vault init`)'' exit_ok
     else if so_unlocked st then say_exit (''state: unlocked  records: '' @ show_int (so_record_count st)) exit_ok
     else say_exit ''state: locked'' exit_ok)"

definition cmd_unlock :: "('h, 'c, 'k, 'p) cli \<Rightarrow> string list \<Rightarrow> ('c console, err, nat) prog" where
  "cmd_unlock L args =
     with_flags password_flags args (\<lambda>fs _.
     password_or_fail L ''Master password: '' (flag_on fs ''password-stdin'') (\<lambda>pw.
     call_or_fail L ''vault.unlock'' (Some [(''password'', JStr pw)]) no_output (\<lambda>_. say_exit ''unlocked'' exit_ok)))"

section \<open>Flags of records\<close>

definition record_flags :: flags where
  "record_flags =
     [(''name'', Text ''''), (''username'', Text ''''), (''service'', Text ''''), (''environment'', Text ''''),
      (''url'', Text ''''), (''allow-subdomains'', Text ''''), (''tags'', Text ''''), (''notes'', Text ''''),
      (''api-key'', Text ''''), (''api-secret'', Text ''''), (''password'', Text ''''), (''generate'', Switch False)]"

text \<open>\<^verbatim>\<open>splitList\<close>: nil for no text, which is not the empty list.\<close>

definition split_list :: "('h, 'c, 'k, 'p) cli \<Rightarrow> string \<Rightarrow> string list option" where
  "split_list L s =
     (if s = '''' then None
      else Some (filter (\<lambda>p. p \<noteq> '''') (map (trim_space (cl_unicode L)) (split_on CHR '','' s))))"

definition list_of :: "'a list option \<Rightarrow> 'a list" where
  "list_of v = (case v of None \<Rightarrow> [] | Some xs \<Rightarrow> xs)"

text \<open>\<^verbatim>\<open>urlEntries\<close>: the map of the relaxed URLs remembers which were used.\<close>

definition mark_allowed :: "string \<Rightarrow> (string \<times> bool) list \<times> (string \<times> bool) list \<Rightarrow> (string \<times> bool) list \<times> (string \<times> bool) list" where
  "mark_allowed u st =
     (case st of (allow, entries) \<Rightarrow>
       if map_of allow u \<noteq> None then (AList.update u True allow, entries @ [(u, True)])
       else (allow, entries @ [(u, False)]))"

definition url_entries :: "string list \<Rightarrow> string list \<Rightarrow> err + (string \<times> bool) list" where
  "url_entries urls subs =
     (case fold mark_allowed urls (fold (\<lambda>s m. AList.update s False m) subs [], []) of
        (allow, entries) \<Rightarrow>
          if list_ex (\<lambda>(s, used). \<not> used) allow then Inl (ErrOther ''--allow-subdomains is not one of the --url values'')
          else Inr entries)"

definition entry_json :: "string \<times> bool \<Rightarrow> jval" where
  "entry_json e = JObj ((''url'', JStr (fst e)) # (if snd e then [(''sub'', JBool True)] else []))"

definition field_if :: "string \<Rightarrow> string \<Rightarrow> payload" where
  "field_if k v = (if v = '''' then [] else [(k, JStr v)])"

text \<open>\<^verbatim>\<open>payload\<close>: the fields that were given.\<close>

definition record_payload :: "('h, 'c, 'k, 'p) cli \<Rightarrow> flags \<Rightarrow> string \<Rightarrow> err + payload" where
  "record_payload L fs ty =
     sbind (case split_list L (flag_text fs ''url'') of
         None \<Rightarrow> Inr []
       | Some urls \<Rightarrow>
           sbind (url_entries urls (list_of (split_list L (flag_text fs ''allow-subdomains'')))) (\<lambda>es.
           Inr [(''urlEntries'', JArr (map entry_json es))])) (\<lambda>entries.
     Inr ([(''type'', JStr ty), (''name'', JStr (flag_text fs ''name''))] @
       field_if ''username'' (flag_text fs ''username'') @ field_if ''service'' (flag_text fs ''service'') @
       field_if ''environment'' (flag_text fs ''environment'') @ entries @
       (case split_list L (flag_text fs ''tags'') of None \<Rightarrow> [] | Some ts \<Rightarrow> [(''tags'', JArr (map JStr ts))]) @
       field_if ''notes'' (flag_text fs ''notes'') @ field_if ''apiKey'' (flag_text fs ''api-key'') @
       field_if ''apiSecret'' (flag_text fs ''api-secret'') @ field_if ''password'' (flag_text fs ''password'')))"

definition set_text :: "string \<Rightarrow> string \<Rightarrow> flags \<Rightarrow> flags" where
  "set_text n v fs = AList.update n (Text v) fs"

definition add_usage :: string where "add_usage = ''vault: add login|note|api-key''"

definition type_names :: "(string \<times> string) list" where
  "type_names = [(''login'', ''login''), (''note'', ''note''), (''api-key'', ''api'')]"

text \<open>\<^verbatim>\<open>cmdAdd\<close>, in three parts: the request, the password of a login, the flags and the name.\<close>

definition add_record :: "('h, 'c, 'k, 'p) cli \<Rightarrow> decoders \<Rightarrow> string \<Rightarrow> flags \<Rightarrow> bool \<Rightarrow> ('c console, err, nat) prog" where
  "add_record L W ty fs gen =
     with_connection L (
     let create = (\<lambda>fs. case record_payload L fs ty of
           Inl e \<Rightarrow> cli_fail L e
         | Inr p \<Rightarrow> request_or_fail L ''records.create'' (Some p) (Some (un_text W ''id'')) (\<lambda>r.
             say_exit (''created '' @ or_zero '''' r) exit_ok)) in
     if gen then
       request_or_fail L ''password.generate'' (Some [(''default'', JBool True)]) (Some (un_text W ''password'')) (\<lambda>r.
       create (set_text ''password'' (or_zero '''' r) fs))
     else create fs)"

definition add_password :: "('h, 'c, 'k, 'p) cli \<Rightarrow> decoders \<Rightarrow> string \<Rightarrow> flags \<Rightarrow> ('c console, err, nat) prog" where
  "add_password L W ty fs =
     (if ty = ''login'' \<and> flag_text fs ''password'' = '''' \<and> \<not> flag_on fs ''generate'' then
        password_or_fail L ''Password (empty to generate): '' False (\<lambda>pw.
        if pw = '''' then add_record L W ty fs True else add_record L W ty (set_text ''password'' pw fs) False)
      else add_record L W ty fs (flag_on fs ''generate''))"

definition cmd_add :: "('h, 'c, 'k, 'p) cli \<Rightarrow> decoders \<Rightarrow> string list \<Rightarrow> ('c console, err, nat) prog" where
  "cmd_add L W args =
     (case args of
        [] \<Rightarrow> warn_exit add_usage exit_usage
      | kind # rest \<Rightarrow>
          with_flags record_flags rest (\<lambda>fs _.
          case map_of type_names kind of
            None \<Rightarrow> warn_exit add_usage exit_usage
          | Some ty \<Rightarrow>
              if flag_text fs ''name'' = '''' then
                mbind (prompt_line L ''Name: '') (\<lambda>n. add_password L W ty (set_text ''name'' n fs))
              else add_password L W ty fs))"

section \<open>Showing records\<close>

text \<open>An identifier shorter than eight characters cannot be cut.\<close>

definition record_line :: "view \<Rightarrow> string" where
  "record_line r =
     (let extra = (if vw_username r = '''' then vw_service r else vw_username r);
          url = (case vw_urls r of [] \<Rightarrow> '''' | u # _ \<Rightarrow> u) in
      pad 8 (take 8 (vw_id r)) @ '' '' @ pad 6 (vw_type r) @ '' '' @ pad 24 (vw_name r) @ '' '' @ pad 20 extra @ '' '' @ url)"

definition print_records :: "view list \<Rightarrow> ('c console, err, unit) prog" where
  "print_records rs =
     mfor rs (\<lambda>r. if length (vw_id r) < 8 then mthrow Panic else say (record_line r))"

definition cmd_list :: "('h, 'c, 'k, 'p) cli \<Rightarrow> decoders \<Rightarrow> ('c console, err, nat) prog" where
  "cmd_list L W =
     call_or_fail L ''records.list'' None (Some (un_views W)) (\<lambda>r.
     mbind (print_records (or_zero [] r)) (\<lambda>_. mreturn exit_ok))"

definition cmd_search :: "('h, 'c, 'k, 'p) cli \<Rightarrow> decoders \<Rightarrow> string list \<Rightarrow> ('c console, err, nat) prog" where
  "cmd_search L W args =
     (if args = [] then warn_exit ''vault: search <query>'' exit_usage else
      call_or_fail L ''records.search'' (Some [(''query'', JStr (join_with CHR '' '' args))]) (Some (un_views W)) (\<lambda>r.
      mbind (print_records (or_zero [] r)) (\<lambda>_. mreturn exit_ok)))"

definition labelled :: "string \<Rightarrow> string \<Rightarrow> string" where
  "labelled k v = pad 12 (k @ '':'') @ '' '' @ v"

definition show_flags :: flags where
  "show_flags = [(''reveal'', Switch False), (''json'', Switch False)]"

definition shown_value :: "jval \<Rightarrow> bool" where
  "shown_value v \<longleftrightarrow> v \<noteq> JStr '''' \<and> v \<noteq> JNull"

definition print_fields :: "('h, 'c, 'k, 'p) cli \<Rightarrow> payload \<Rightarrow> ('c console, err, unit) prog" where
  "print_fields L meta =
     mfor [''id'', ''type'', ''revision'', ''name'', ''username'', ''service'', ''environment''] (\<lambda>k.
       case map_of meta k of
         None \<Rightarrow> mreturn ()
       | Some v \<Rightarrow> if shown_value v then say (labelled k (cl_any L v)) else mreturn ())"

definition any_of :: "('h, 'c, 'k, 'p) cli \<Rightarrow> jval option \<Rightarrow> string" where
  "any_of L v = cl_any L (case v of None \<Rightarrow> JNull | Some x \<Rightarrow> x)"

definition print_urls :: "('h, 'c, 'k, 'p) cli \<Rightarrow> payload \<Rightarrow> ('c console, err, unit) prog" where
  "print_urls L meta =
     (case map_of meta ''urlEntries'' of
        Some (JArr es) \<Rightarrow>
          mfor es (\<lambda>e. case e of
            JObj m \<Rightarrow> say (labelled ''url'' (any_of L (map_of m ''url'')) @
              (if map_of m ''sub'' = Some (JBool True) then ''  (also matches subdomains)'' else ''''))
          | _ \<Rightarrow> mreturn ())
      | _ \<Rightarrow>
          (case map_of meta ''urls'' of
             Some (JArr us) \<Rightarrow> mfor us (\<lambda>u. say (labelled ''url'' (cl_any L u)))
           | _ \<Rightarrow> mreturn ()))"

definition print_secret :: "('h, 'c, 'k, 'p) cli \<Rightarrow> payload \<Rightarrow> ('c console, err, unit) prog" where
  "print_secret L meta =
     (case map_of meta ''secret'' of
        Some (JObj m) \<Rightarrow> mfor m (\<lambda>(k, v). if shown_value v then say (labelled k (cl_any L v)) else mreturn ())
      | _ \<Rightarrow> mreturn ())"

definition print_shown :: "('h, 'c, 'k, 'p) cli \<Rightarrow> bool \<Rightarrow> payload \<Rightarrow> ('c console, err, nat) prog" where
  "print_shown L as_json meta =
     (if as_json then say_exit (cl_indented L meta) exit_ok else
      mbind (print_fields L meta) (\<lambda>_.
      mbind (print_urls L meta) (\<lambda>_.
      mbind (print_secret L meta) (\<lambda>_.
      mreturn exit_ok))))"

definition redacted :: jval where
  "redacted = JObj [(''password'', JStr ''[redacted]'')]"

definition show_usage :: string where "show_usage = ''vault: show <record> [--reveal] [--json]''"

text \<open>\<^verbatim>\<open>cmdShow\<close>. Writing to the nil map an empty answer leaves is a panic.\<close>

definition cmd_show :: "('h, 'c, 'k, 'p) cli \<Rightarrow> decoders \<Rightarrow> string list \<Rightarrow> ('c console, err, nat) prog" where
  "cmd_show L W args =
     (case parse_anywhere show_flags [] args of
        Inl e \<Rightarrow> mbind (warn (flag_message e)) (\<lambda>_. warn_exit show_usage exit_usage)
      | Inr (_, []) \<Rightarrow> warn_exit show_usage exit_usage
      | Inr (fs, ref # _) \<Rightarrow>
          with_connection L (
          request_or_fail L ''records.show'' (Some [(''ref'', JStr ref)]) (Some (un_map W)) (\<lambda>m.
          let finish = (\<lambda>secret. case or_zero None m of
                None \<Rightarrow> mthrow Panic
              | Some meta \<Rightarrow> print_shown L (flag_on fs ''json'') (AList.update ''secret'' secret meta)) in
          if flag_on fs ''reveal'' then
            request_or_fail L ''records.reveal'' (Some [(''ref'', JStr ref)]) (Some (un_map W)) (\<lambda>r.
            finish (case or_zero None r of None \<Rightarrow> JNil | Some x \<Rightarrow> JObj x))
          else finish redacted)))"

section \<open>Changing records\<close>

definition edit_usage :: string where "edit_usage = ''vault: edit <record> [--name ...] [--username ...] ...''"

definition pick :: "string \<Rightarrow> string \<Rightarrow> string" where
  "pick flag current = (if flag \<noteq> '''' then flag else current)"

definition secret_text :: "payload option \<Rightarrow> string \<Rightarrow> string" where
  "secret_text secret k = (case secret of None \<Rightarrow> '''' | Some m \<Rightarrow> (case map_of m k of Some (JStr t) \<Rightarrow> t | _ \<Rightarrow> ''''))"

text \<open>An entry of a view keeps its policy in the JSON, also when it is off; a nil slice is null.\<close>

definition view_entry_json :: "string \<times> bool \<Rightarrow> jval" where
  "view_entry_json e = JObj [(''url'', JStr (fst e)), (''sub'', JBool (snd e))]"

definition slice_json :: "('a \<Rightarrow> jval) \<Rightarrow> 'a list option \<Rightarrow> jval" where
  "slice_json f v = (case v of None \<Rightarrow> JNull | Some xs \<Rightarrow> JArr (map f xs))"

definition edited_urls :: "('h, 'c, 'k, 'p) cli \<Rightarrow> flags \<Rightarrow> shown \<Rightarrow> err + jval" where
  "edited_urls L fs meta =
     (let subs = split_list L (flag_text fs ''allow-subdomains'') in
      case split_list L (flag_text fs ''url'') of
        Some urls \<Rightarrow> sbind (url_entries urls (list_of subs)) (\<lambda>es. Inr (JArr (map entry_json es)))
      | None \<Rightarrow>
          (case subs of
             Some ss \<Rightarrow> sbind (url_entries (map fst (list_of (vw_entries meta))) ss) (\<lambda>es. Inr (JArr (map entry_json es)))
           | None \<Rightarrow> Inr (slice_json view_entry_json (vw_entries meta))))"

definition edit_payload :: "('h, 'c, 'k, 'p) cli \<Rightarrow> flags \<Rightarrow> shown \<Rightarrow> payload option \<Rightarrow> err + payload" where
  "edit_payload L fs meta secret =
     sbind (edited_urls L fs meta) (\<lambda>urls.
     Inr [(''id'', JStr (vw_id meta)),
          (''expectedRevision'', JInt (uint (vw_revision meta))),
          (''type'', JStr (vw_type meta)),
          (''name'', JStr (pick (flag_text fs ''name'') (vw_name meta))),
          (''username'', JStr (pick (flag_text fs ''username'') (vw_username meta))),
          (''service'', JStr (pick (flag_text fs ''service'') (vw_service meta))),
          (''environment'', JStr (pick (flag_text fs ''environment'') (vw_environment meta))),
          (''password'', JStr (pick (flag_text fs ''password'') (secret_text secret ''password''))),
          (''notes'', JStr (pick (flag_text fs ''notes'') (secret_text secret ''notes''))),
          (''apiKey'', JStr (pick (flag_text fs ''api-key'') (secret_text secret ''apiKey''))),
          (''apiSecret'', JStr (pick (flag_text fs ''api-secret'') (secret_text secret ''apiSecret''))),
          (''urlEntries'', urls),
          (''tags'', case split_list L (flag_text fs ''tags'') of
             Some ts \<Rightarrow> JArr (map JStr ts) | None \<Rightarrow> slice_json JStr (vw_tags meta))])"

definition cmd_edit :: "('h, 'c, 'k, 'p) cli \<Rightarrow> decoders \<Rightarrow> string list \<Rightarrow> ('c console, err, nat) prog" where
  "cmd_edit L W args =
     (case parse_anywhere record_flags [] args of
        Inl e \<Rightarrow> mbind (warn (flag_message e)) (\<lambda>_. warn_exit edit_usage exit_usage)
      | Inr (_, []) \<Rightarrow> warn_exit edit_usage exit_usage
      | Inr (fs, ref # _) \<Rightarrow>
          with_connection L (
          request_or_fail L ''records.show'' (Some [(''ref'', JStr ref)]) (Some (un_shown W)) (\<lambda>m.
          request_or_fail L ''records.reveal'' (Some [(''ref'', JStr ref)]) (Some (un_map W)) (\<lambda>x.
          case edit_payload L fs (or_zero zero_shown m) (or_zero None x) of
            Inl e \<Rightarrow> cli_fail L e
          | Inr p \<Rightarrow> request_or_fail L ''records.update'' (Some p) no_output (\<lambda>_. say_exit ''updated'' exit_ok)))))"

definition cmd_remove :: "('h, 'c, 'k, 'p) cli \<Rightarrow> decoders \<Rightarrow> string list \<Rightarrow> ('c console, err, nat) prog" where
  "cmd_remove L W args =
     (case args of
        [] \<Rightarrow> warn_exit ''vault: remove <record>'' exit_usage
      | ref # _ \<Rightarrow>
          with_connection L (
          request_or_fail L ''records.show'' (Some [(''ref'', JStr ref)]) (Some (un_shown W)) (\<lambda>m.
          let meta = or_zero zero_shown m in
          request_or_fail L ''records.delete'' (Some [(''id'', JStr (vw_id meta))]) no_output (\<lambda>_.
          say_exit (''removed '' @ vw_name meta) exit_ok))))"

section \<open>Passwords\<close>

definition generate_flags :: flags where
  "generate_flags = [(''length'', Number 24)]"

definition cmd_generate :: "('h, 'c, 'k, 'p) cli \<Rightarrow> decoders \<Rightarrow> string list \<Rightarrow> ('c console, err, nat) prog" where
  "cmd_generate L W args =
     (case args of
        [] \<Rightarrow> warn_exit ''vault: generate password [--length N]'' exit_usage
      | what # rest \<Rightarrow>
          if what \<noteq> ''password'' then warn_exit ''vault: generate password [--length N]'' exit_usage else
          with_flags generate_flags rest (\<lambda>fs _.
          call_or_fail L ''password.generate''
            (Some [(''length'', JInt (flag_number fs ''length'')), (''upper'', JBool True), (''lower'', JBool True),
               (''digits'', JBool True), (''symbols'', JBool True)])
            (Some (un_text W ''password'')) (\<lambda>r. say_exit (or_zero '''' r) exit_ok)))"

definition cmd_password :: "('h, 'c, 'k, 'p) cli \<Rightarrow> string list \<Rightarrow> ('c console, err, nat) prog" where
  "cmd_password L args =
     (if args = [] \<or> hd args \<noteq> ''change'' then warn_exit ''vault: password change'' exit_usage else
      password_or_fail L ''Current master password: '' False (\<lambda>current.
      password_or_fail L ''New master password: '' False (\<lambda>next_pw.
      mbind (attempt (read_password ''Repeat new master password: '' False)) (\<lambda>r.
      if r \<noteq> Inr next_pw then warn_exit ''vault: passwords do not match'' exit_usage else
      call_or_fail L ''vault.changePassword'' (Some [(''current'', JStr current), (''next'', JStr next_pw)]) no_output (\<lambda>_.
      say_exit ''Master password changed. The vault is now locked.'' exit_ok)))))"

section \<open>Clients\<close>

definition clients_usage :: string where "clients_usage = ''vault: clients list|approve|revoke''"

definition kind_names :: "(int \<times> string) list" where
  "kind_names = [(1, ''cli''), (2, ''chrome''), (3, ''bridge''), (4, ''admin'')]"

definition status_names :: "(int \<times> string) list" where
  "status_names = [(1, ''pending''), (2, ''approved''), (3, ''revoked'')]"

definition name_in :: "(int \<times> string) list \<Rightarrow> int \<Rightarrow> string" where
  "name_in m i = (case map_of m i of None \<Rightarrow> '''' | Some n \<Rightarrow> n)"

definition client_line :: "client_out \<Rightarrow> string" where
  "client_line c = cw_id c @ ''  '' @ pad 7 (name_in kind_names (cw_kind c)) @ '' '' @
     pad 9 (name_in status_names (cw_status c)) @ '' '' @ cw_label c"

definition clients_list :: "('h, 'c, 'k, 'p) cli \<Rightarrow> decoders \<Rightarrow> ('c console, err, nat) prog" where
  "clients_list L W =
     call_or_fail L ''clients.list'' None (Some (un_clients W)) (\<lambda>r.
     mbind (mfor (or_zero [] r) (\<lambda>c. say (client_line c))) (\<lambda>_. mreturn exit_ok))"

text \<open>The first pending request is shown with all it would be granted; a terminal and an answer decide.\<close>

definition clients_approve :: "('h, 'c, 'k, 'p) cli \<Rightarrow> decoders \<Rightarrow> ('c console, err, nat) prog" where
  "clients_approve L W =
     call_or_fail L ''clients.pending'' None (Some (un_pending W)) (\<lambda>r.
     case or_zero [] r of
       [] \<Rightarrow> say_exit ''no pending pairing requests'' exit_ok
     | p # _ \<Rightarrow>
         mbind (mfor ([''Pairing request: '' @ po_label p, ''Kind: '' @ po_kind_name p, ''Phrase: '' @ po_phrase p, ''Grants:''] @
             map (\<lambda>c. ''  - '' @ c) (po_capabilities p)) say) (\<lambda>_.
         mbind (mget co_tty) (\<lambda>tty.
         if \<not> tty then warn_exit ''vault: approval requires an interactive terminal'' exit_denied else
         mbind (prompt_line L ''Does the phrase match what the client shows? [y/N] '') (\<lambda>answer.
         if answer \<noteq> ''y'' \<and> answer \<noteq> ''Y'' then say_exit ''aborted'' exit_ok else
         call_or_fail L ''clients.approve'' (Some [(''pairingId'', JStr (po_id p))]) no_output (\<lambda>_.
         say_exit ''approved'' exit_ok)))))"

definition cmd_clients :: "('h, 'c, 'k, 'p) cli \<Rightarrow> decoders \<Rightarrow> string list \<Rightarrow> ('c console, err, nat) prog" where
  "cmd_clients L W args =
     (case args of
        [] \<Rightarrow> warn_exit clients_usage exit_usage
      | what # rest \<Rightarrow>
          if what = ''list'' then clients_list L W
          else if what = ''approve'' then clients_approve L W
          else if what = ''revoke'' then
            (case rest of
               [] \<Rightarrow> warn_exit ''vault: clients revoke <client-id>'' exit_usage
             | i # _ \<Rightarrow> call_or_fail L ''clients.revoke'' (Some [(''id'', JStr i)]) no_output (\<lambda>_. say_exit ''revoked'' exit_ok))
          else warn_exit clients_usage exit_usage)"

section \<open>Backups and events\<close>

definition backup_usage :: string where "backup_usage = ''vault: backup create|verify|restore <path>''"

definition backup_restore_cmd :: "('h, 'c, 'k, 'p) cli \<Rightarrow> string \<Rightarrow> ('c console, err, nat) prog" where
  "backup_restore_cmd L path =
     mbind (mget co_tty) (\<lambda>tty.
     if \<not> tty then warn_exit ''vault: restore requires an interactive terminal'' exit_denied else
     mbind (say ''Restore REPLACES the current vault with the backup contents.'') (\<lambda>_.
     mbind (prompt_line L (''Type '' @ quote_char # ''restore'' @ quote_char # '' to continue: '')) (\<lambda>answer.
     if answer \<noteq> ''restore'' then say_exit ''aborted'' exit_ok else
     call_or_fail L ''backup.restore'' (Some [(''path'', JStr path)]) no_output (\<lambda>_.
     say_exit ''restored; the vault is locked'' exit_ok))))"

definition cmd_backup :: "('h, 'c, 'k, 'p) cli \<Rightarrow> decoders \<Rightarrow> string list \<Rightarrow> ('c console, err, nat) prog" where
  "cmd_backup L W args =
     (case args of
        what # path # _ \<Rightarrow>
          if what = ''create'' then
            call_or_fail L ''backup.create'' (Some [(''path'', JStr path)]) no_output (\<lambda>_.
            say_exit (''backup written to '' @ path) exit_ok)
          else if what = ''verify'' then
            call_or_fail L ''backup.verify'' (Some [(''path'', JStr path)]) (Some (un_backup W)) (\<lambda>r.
            let (vid, ms) = or_zero ('''', 0) r in
            say_exit (''backup OK  vault='' @ vid @ '' created='' @ decimal (unat ms)) exit_ok)
          else if what = ''restore'' then backup_restore_cmd L path
          else warn_exit backup_usage exit_usage
      | _ \<Rightarrow> warn_exit backup_usage exit_usage)"

definition events_flags :: flags where
  "events_flags = [(''limit'', Number 25)]"

definition event_line :: "event_out \<Rightarrow> string" where
  "event_line e = show_int (eo_occurred e) @ ''  sev='' @ show_int (eo_severity e) @ '' code='' @ show_int (eo_code e) @
     '' '' @ eo_details e"

definition cmd_events :: "('h, 'c, 'k, 'p) cli \<Rightarrow> decoders \<Rightarrow> string list \<Rightarrow> ('c console, err, nat) prog" where
  "cmd_events L W args =
     with_flags events_flags args (\<lambda>fs _.
     call_or_fail L ''events.recent'' (Some [(''limit'', JInt (flag_number fs ''limit''))]) (Some (un_events W)) (\<lambda>r.
     mbind (mfor (or_zero [] r) (\<lambda>e. say (event_line e))) (\<lambda>_. mreturn exit_ok)))"

section \<open>Check-up and destruction\<close>

definition cmd_doctor :: "('h, 'c, 'k, 'p) cli \<Rightarrow> decoders \<Rightarrow> ('c console, err, nat) prog" where
  "cmd_doctor L W =
     (case cli_paths L of
        Inl e \<Rightarrow> cli_fail L e
      | Inr p \<Rightarrow>
          mbind (say (''database:  '' @ database_path p)) (\<lambda>_.
          mbind (say (''config:    '' @ pt_config p)) (\<lambda>_.
          mbind (say (''socket:    '' @ socket_path p)) (\<lambda>_.
          mbind (mfor [database_path p, static_key_path p] (\<lambda>f.
            mbind (attempt (check_private f)) (\<lambda>r. case r of
              Inl e \<Rightarrow> say (''warn:      '' @ error_text L e)
            | Inr _ \<Rightarrow> mreturn ()))) (\<lambda>_.
          mbind (connect L) (\<lambda>c. case c of
            Some code \<Rightarrow> say_exit ''daemon:    unavailable'' code
          | None \<Rightarrow>
              request_or_fail L ''vault.status'' None (Some (un_status W)) (\<lambda>r.
              let st = or_zero zero_status r in
              say_exit (''daemon:    up  initialized='' @ show_bool (so_initialized st) @
                '' unlocked='' @ show_bool (so_unlocked st)) exit_ok)))))))"

definition destroy_phrase :: string where "destroy_phrase = ''destroy my vault''"

definition cmd_destroy :: "('h, 'c, 'k, 'p) cli \<Rightarrow> ('c console, err, nat) prog" where
  "cmd_destroy L =
     mbind (mget co_tty) (\<lambda>tty.
     if \<not> tty then warn_exit ''vault: destroy requires an interactive terminal'' exit_denied else
     mbind (say ''This PERMANENTLY deletes the vault. There is no recovery without a backup.'') (\<lambda>_.
     mbind (say ''Note: SSD wear leveling may keep older copies of the encrypted file.'') (\<lambda>_.
     password_or_fail L ''Master password: '' False (\<lambda>pw.
     mbind (prompt_line L (''Type '' @ quote_char # destroy_phrase @ quote_char # '' to continue: '')) (\<lambda>answer.
     if answer \<noteq> destroy_phrase then say_exit ''aborted'' exit_ok else
     call_or_fail L ''vault.destroy'' (Some [(''password'', JStr pw)]) no_output (\<lambda>_.
     say_exit ''vault destroyed'' exit_ok))))))"

end
