(* ===== verification/Command_Line.thy ===== *)
theory Command_Line
  imports Commands
begin

text \<open>
  The rest of the command line (\<^verbatim>\<open>cmd/vault/main.go\<close>): the version, installing into browsers and removing
  from them, the table of the commands, and a run from the environment to the exit code. The refresh of
  the update cache, which the code starts before the command and awaits after it, is a step before it.
\<close>

section \<open>Version\<close>

definition cli_checker :: "('h, 'c, 'k, 'p) cli \<Rightarrow> checker" where
  "cli_checker L = new_checker (ho_getenv (cl_host L)) (cli_paths L) (cl_install_source L) (cl_version L)"

definition cmd_version :: "('h, 'c, 'k, 'p) cli \<Rightarrow> ('c console, err, nat) prog" where
  "cmd_version L =
     mbind (say (''vault '' @ cl_version L)) (\<lambda>_.
     let chk = cli_checker L in
     if \<not> enabled (ho_getenv (cl_host L)) chk then mreturn exit_ok else
     mbind (attempt (check_now (cl_update L) chk)) (\<lambda>r. case r of
       Inl e \<Rightarrow> warn_exit (''vault: update check failed: '' @ error_text L e) exit_ok
     | Inr rel \<Rightarrow>
         if is_newer (cl_unicode L) (rs_tag rel) (cl_version L) then
           say_exit (''update available: '' @ cl_version L @ '' -> '' @ rs_tag rel @ '' '' @ em_dash @ '' '' @ upgrade_hint chk rel) exit_ok
         else say_exit ''up to date'' exit_ok))"

section \<open>Installing\<close>

definition split_browser :: "string list \<Rightarrow> string \<times> string list" where
  "split_browser args =
     (case args of
        [] \<Rightarrow> ('''', args)
      | a # rest \<Rightarrow> if take 1 a = ''-'' then ('''', args) else (a, rest))"

text \<open>The registered names are in lower case and not empty.\<close>

definition browser_label :: "string \<Rightarrow> string" where
  "browser_label name =
     (case name of
        [] \<Rightarrow> ''''
      | c # r \<Rightarrow> (if CHR ''a'' \<le> c \<and> c \<le> CHR ''z'' then char_of (of_char c - 32 :: nat) else c) # r)"

definition install_identity :: "('h, 'c, 'k, 'p) cli \<Rightarrow> err + identity" where
  "install_identity L =
     sbind (current_environment (cl_unicode L) (ho_getenv (cl_host L)) (cl_version L)) (\<lambda>env. Inr (identity_for env))"

text \<open>The installer works on the disk of the terminal.\<close>

definition on_disk :: "(installer, err, 'r) prog \<Rightarrow> ('c console, err, 'r) prog" where
  "on_disk m = (\<lambda>s.
     case m \<lparr>fs_nodes = fs_nodes s, fs_ok = fs_ok s, fs_part = fs_part s, fs_pos = fs_pos s,
         tmp_names = co_tmp_names s, tmp_count = co_tmp_count s\<rparr> of
       (r, t) \<Rightarrow> (r, s\<lparr>fs_nodes := fs_nodes t, fs_pos := fs_pos t, co_tmp_count := tmp_count t\<rparr>))"

definition named_browser :: "string \<Rightarrow> err + browser option" where
  "named_browser name = (if name = '''' then Inr None else sbind (get_browser name) (\<lambda>b. Inr (Some b)))"

definition install_flags :: flags where
  "install_flags = [(''crx'', Text ''''), (''native-host'', Text ''''), (''extension-dir'', Text ''''), (''print-only'', Switch False)]"

definition install_usage :: string where
  "install_usage = ''vault: install [browser] [--crx PATH] [--native-host PATH] [--extension-dir PATH] [--print-only]''"

definition install_options :: "flags \<Rightarrow> identity \<Rightarrow> options" where
  "install_options fs i =
     \<lparr>op_native_host_path = flag_text fs ''native-host'', op_extension_dir = flag_text fs ''extension-dir'',
      op_crx_path = flag_text fs ''crx'', op_print_only = flag_on fs ''print-only'', op_identity = i, op_system_root = ''''\<rparr>"

definition print_result :: "install_result \<Rightarrow> ('c console, err, unit) prog" where
  "print_result r =
     (let label = browser_label (in_browser r) in
      mbind (say (label @ (if in_wrote_manifest r then '' native host installed: '' else '' native host manifest: '') @ in_manifest_path r)) (\<lambda>_.
      case in_extension r of
        ExtensionRegistered \<Rightarrow>
          if in_wrote_external r then
            say (label @ '' extension '' @ in_version r @ '' registered: '' @ in_external_path r @ '' (restart '' @ label @ '' to install it)'')
          else say (label @ '' extension '' @ in_version r @ '' registration: '' @ in_external_path r)
      | ExtensionSystemPresent \<Rightarrow> say (label @ '' extension set up by '' @ in_external_path r)
      | ExtensionNeedsSudo \<Rightarrow>
          mbind (say (label @ '' extension: Chrome only installs it from a root-owned file; run once, then restart Chrome:'')) (\<lambda>_.
          say (''  '' @ in_sudo r))
      | ExtensionManual \<Rightarrow>
          say (label @ '' extension: no signed .crx found (make crx, or pass --crx); load it unpacked'')))"

definition print_found :: "install_result \<Rightarrow> bool \<Rightarrow> ('c console, err, unit) prog" where
  "print_found r manual =
     mfor ([[], ''vault-native: '' @ in_native_host_path r, ''extension ID: '' @ in_extension_id r] @
       (if in_crx_path r \<noteq> '''' then [''extension package: '' @ in_crx_path r] else []) @
       (if in_extension_dir r \<noteq> '''' then [''extension dir: '' @ in_extension_dir r] else []) @
       (if \<not> manual then [] else [] #
         (if in_extension_dir r \<noteq> '''' then
            [''Open the browser'' @ quote_char # ''s extensions page, enable Developer mode, choose Load unpacked, then select:'', in_extension_dir r]
          else [''No unpacked extension found either; build it (make extension) or pass --extension-dir.'']))) say"

definition report_install :: "install_result list \<times> (string \<times> string) list \<Rightarrow> ('c console, err, nat) prog" where
  "report_install found =
     (case found of (results, skipped) \<Rightarrow>
      mbind (mfor results print_result) (\<lambda>_.
      mbind (mfor skipped (\<lambda>(b, dir). say (browser_label b @ '' skipped: no config folder at '' @ dir))) (\<lambda>_.
      case results of
        [] \<Rightarrow> warn_exit (''vault: no supported browser found; name one: vault install <'' @ join_with CHR ''|'' browser_names @ ''>'') exit_not_found
      | r # _ \<Rightarrow>
          mbind (print_found r (list_ex (\<lambda>r. in_extension r = ExtensionManual) results)) (\<lambda>_. mreturn exit_ok))))"

definition cmd_install :: "('h, 'c, 'k, 'p) cli \<Rightarrow> string list \<Rightarrow> ('c console, err, nat) prog" where
  "cmd_install L args =
     (let (name, rest) = split_browser args in
      case named_browser name of
        Inl e \<Rightarrow> warn_exit (''vault: '' @ error_text L e) exit_usage
      | Inr strategy \<Rightarrow>
          with_flags install_flags rest (\<lambda>fs extra.
          if extra \<noteq> [] then
            warn_exit (if name = '''' then install_usage
              else ''vault: install '' @ name @ '' does not accept positional arguments'') exit_usage
          else case install_identity L of
            Inl e \<Rightarrow> cli_fail L e
          | Inr i \<Rightarrow>
              mbind (attempt (on_disk (case strategy of
                  Some b \<Rightarrow> mbind (install (cl_unicode L) (cl_crx L) (cl_lookup L) (cl_install L) (cl_host L) b (install_options fs i))
                    (\<lambda>r. mreturn ([r], []))
                | None \<Rightarrow> install_detected (cl_unicode L) (cl_crx L) (cl_lookup L) (cl_install L) (cl_host L) (install_options fs i))))
                (\<lambda>r. case r of Inl e \<Rightarrow> cli_fail L e | Inr found \<Rightarrow> report_install found)))"

definition print_removed :: "uninstall_result \<Rightarrow> ('c console, err, unit) prog" where
  "print_removed r =
     (let label = browser_label (un_browser r) in
      mfor ([if un_removed_manifest r then label @ '' native host removed: '' @ un_manifest_path r else label @ '' native host not installed''] @
        (if un_removed_external r then [label @ '' extension unregistered (restart '' @ label @ '' to remove it)''] else []) @
        (if un_system_external r \<noteq> '''' then
           [label @ '' extension is still set up by the root-owned '' @ un_system_external r @
              '' (removed with the albear package; otherwise: sudo rm '' @ un_system_external r @ '')''] else [])) say)"

fun uninstall_each :: "('h, 'c, 'k, 'p) cli \<Rightarrow> options \<Rightarrow> browser list \<Rightarrow> ('c console, err, nat) prog" where
  "uninstall_each L o' [] = mreturn exit_ok"
| "uninstall_each L o' (b # bs) =
     mbind (attempt (on_disk (uninstall (cl_host L) b o'))) (\<lambda>r. case r of
       Inl e \<Rightarrow> cli_fail L e
     | Inr x \<Rightarrow> mbind (print_removed x) (\<lambda>_. uninstall_each L o' bs))"

definition cmd_uninstall :: "('h, 'c, 'k, 'p) cli \<Rightarrow> string list \<Rightarrow> ('c console, err, nat) prog" where
  "cmd_uninstall L args =
     (let (name, rest) = split_browser args in
      if rest \<noteq> [] then warn_exit ''vault: uninstall [browser]'' exit_usage else
      case named_browser name of
        Inl e \<Rightarrow> warn_exit (''vault: '' @ error_text L e) exit_usage
      | Inr strategy \<Rightarrow>
          (case install_identity L of
             Inl e \<Rightarrow> cli_fail L e
           | Inr i \<Rightarrow> uninstall_each L (install_options [] i) (case strategy of Some b \<Rightarrow> [b] | None \<Rightarrow> all_browsers)))"

section \<open>The commands\<close>

definition arabic_name :: string where
  "arabic_name = [CHR 0xD8, CHR 0xA7, CHR 0xD9, CHR 0x84, CHR 0xD8, CHR 0xA8, CHR 0xD9, CHR 0x8A, CHR 0xD8, CHR 0xB1]"

definition usage_lines :: "string list" where
  "usage_lines =
     [''albear ('' @ arabic_name @ '') '' @ em_dash @ '' local encrypted secrets manager'',
      '''',
      ''Usage:'',
      ''  vault init | status | unlock | lock | panic-lock'',
      ''  vault add login|note|api-key [flags]'',
      ''  vault list | search <query> | show <record> [--reveal] [--json]'',
      ''  vault edit <record> [flags] | remove <record>'',
      ''  vault generate password [--length N]'',
      ''  vault password change'',
      ''  vault clients list|approve|revoke'',
      ''  vault backup create|verify|restore <path>'',
      ''  vault events [--limit N]'',
      ''  vault install [browser] [--crx PATH] [--native-host PATH] [--extension-dir PATH] [--print-only]'',
      ''  vault uninstall [browser]'',
      ''  vault doctor'',
      ''  vault destroy'',
      ''  vault version'',
      '''',
      ''Browsers: '' @ concat (map (\<lambda>(i, n). (if i = 0 then '''' else '', '') @ n) (enumerate 0 browser_names)),
      ''  install with no browser sets up each one whose config folder exists;'',
      ''  uninstall with no browser acts on all of them. Chromium, Brave and Helium'',
      ''  install the signed extension on their next start; Chrome needs one sudo'',
      ''  command, which install prints.'']"

definition usage :: "nat \<Rightarrow> ('c console, err, nat) prog" where
  "usage code = mbind (mfor usage_lines warn) (\<lambda>_. mreturn code)"

definition dispatch_cmd :: "('h, 'c, 'k, 'p) cli \<Rightarrow> decoders \<Rightarrow> string \<Rightarrow> string list \<Rightarrow> ('c console, err, nat) prog" where
  "dispatch_cmd L W cmd rest =
     (if cmd = ''init'' then cmd_init L rest
      else if cmd = ''status'' then cmd_status L W
      else if cmd = ''unlock'' then cmd_unlock L rest
      else if cmd = ''lock'' then simple_op L ''vault.lock''
      else if cmd = ''panic-lock'' then simple_op L ''vault.panic''
      else if cmd = ''add'' then cmd_add L W rest
      else if cmd = ''list'' then cmd_list L W
      else if cmd = ''search'' then cmd_search L W rest
      else if cmd = ''show'' then cmd_show L W rest
      else if cmd = ''edit'' then cmd_edit L W rest
      else if cmd = ''remove'' then cmd_remove L W rest
      else if cmd = ''generate'' then cmd_generate L W rest
      else if cmd = ''password'' then cmd_password L rest
      else if cmd = ''clients'' then cmd_clients L W rest
      else if cmd = ''backup'' then cmd_backup L W rest
      else if cmd = ''events'' then cmd_events L W rest
      else if cmd = ''doctor'' then cmd_doctor L W
      else if cmd = ''install'' then cmd_install L rest
      else if cmd = ''uninstall'' then cmd_uninstall L rest
      else if cmd = ''destroy'' then cmd_destroy L
      else if cmd \<in> {''help'', ''--help'', ''-h''} then usage exit_ok
      else mbind (warn (''vault: unknown command '' @ cl_quoted L cmd)) (\<lambda>_. usage exit_usage))"

definition run_cli :: "('h, 'c, 'k, 'p) cli \<Rightarrow> decoders \<Rightarrow> string list \<Rightarrow> ('c console, err, nat) prog" where
  "run_cli L W args =
     (let getenv = ho_getenv (cl_host L) in
      case current_environment (cl_unicode L) getenv (cl_version L) of
        Inl e \<Rightarrow> warn_exit (''vault: '' @ error_text L e) exit_usage
      | Inr env \<Rightarrow>
          mbind (if env = Dev then warn ''[dev] using the dev vault (albear-dev)'' else mreturn ()) (\<lambda>_.
          case args of
            [] \<Rightarrow> usage exit_usage
          | cmd # rest \<Rightarrow>
              if cmd = ''version'' \<or> cmd = ''--version'' then cmd_version L else
              mbind (background getenv (cl_update L) (cli_checker L)) (\<lambda>_.
              mbind (dispatch_cmd L W cmd rest) (\<lambda>code.
              if code \<noteq> exit_ok then mreturn code else
              mbind (notice (cl_unicode L) getenv (cl_update L) (cli_checker L)) (\<lambda>n. case n of
                None \<Rightarrow> mreturn code
              | Some l \<Rightarrow> warn_exit l code)))))"

end
