(* ===== verification/Editing.thy ===== *)
theory Editing
  imports Command_Line
begin

text \<open>
  Changing a record with \<^verbatim>\<open>vault edit\<close>: the views the daemon sends, the structs the command line reads
  them into, the request it sends back and the struct the daemon reads that into (\<^verbatim>\<open>cmd/vault/main.go\<close> and
  \<^verbatim>\<open>internal/daemon/dto.go\<close>). What \<^verbatim>\<open>encoding/json\<close> does with the tags of these structs is written out, for
  texts that are valid UTF-8: \<^verbatim>\<open>omitempty\<close> leaves out empty texts, lists and maps, an absent key or a null
  leaves the zero value, keys without a field are skipped, and a value of the wrong type is an error.
\<close>

section \<open>From the daemon to the command line\<close>

text \<open>\<^verbatim>\<open>recordView\<close> of the daemon, read into \<^verbatim>\<open>recordView\<close> of the command line and its environment.\<close>

definition if_any :: "'a list \<Rightarrow> 'a list option" where
  "if_any xs = (if xs = [] then None else Some xs)"

definition client_shown :: "wire_record \<Rightarrow> shown" where
  "client_shown v =
     \<lparr>vw_id = wr_id v, vw_type = wr_type v, vw_revision = wr_revision v, vw_name = wr_name v,
      vw_username = wr_username v, vw_service = wr_service v, vw_urls = wr_urls v,
      vw_entries = if_any (wr_url_entries v), vw_tags = if_any (wr_tags v), vw_environment = wr_environment v\<rparr>"

text \<open>\<^verbatim>\<open>secretView\<close>, read into a map.\<close>

definition client_secret :: "secret_view \<Rightarrow> payload" where
  "client_secret v =
     field_if ''password'' (sv_password v) @ field_if ''notes'' (sv_notes v) @
     field_if ''apiKey'' (sv_api_key v) @ field_if ''apiSecret'' (sv_api_secret v) @
     (if sv_custom v = [] then [] else [(''custom'', JObj (map (\<lambda>(k, x). (k, JStr x)) (sv_custom v)))])"

section \<open>From the command line to the daemon\<close>

definition text_in :: "payload \<Rightarrow> string \<Rightarrow> string option" where
  "text_in p k = (case map_of p k of None \<Rightarrow> Some '''' | Some JNull \<Rightarrow> Some '''' | Some (JStr t) \<Rightarrow> Some t | _ \<Rightarrow> None)"

definition bool_in :: "payload \<Rightarrow> string \<Rightarrow> bool option" where
  "bool_in p k = (case map_of p k of None \<Rightarrow> Some False | Some JNull \<Rightarrow> Some False | Some (JBool b) \<Rightarrow> Some b | _ \<Rightarrow> None)"

definition word_in :: "payload \<Rightarrow> string \<Rightarrow> u64 option" where
  "word_in p k = (case map_of p k of None \<Rightarrow> Some 0 | Some JNull \<Rightarrow> Some 0
     | Some (JInt i) \<Rightarrow> if 0 \<le> i \<and> i < 2 ^ 64 then Some (word_of_int i) else None | _ \<Rightarrow> None)"

definition list_in :: "(jval \<Rightarrow> 'a option) \<Rightarrow> payload \<Rightarrow> string \<Rightarrow> 'a list option option" where
  "list_in f p k = (case map_of p k of None \<Rightarrow> Some None | Some JNull \<Rightarrow> Some None
     | Some (JArr xs) \<Rightarrow> map_option Some (those (map f xs)) | _ \<Rightarrow> None)"

definition text_of :: "jval \<Rightarrow> string option" where
  "text_of v = (case v of JNull \<Rightarrow> Some '''' | JStr t \<Rightarrow> Some t | _ \<Rightarrow> None)"

definition entry_of :: "jval \<Rightarrow> (string \<times> bool) option" where
  "entry_of v = (case v of JNull \<Rightarrow> Some ('''', False)
     | JObj m \<Rightarrow> Option.bind (text_in m ''url'') (\<lambda>u. Option.bind (bool_in m ''sub'') (\<lambda>b. Some (u, b)))
     | _ \<Rightarrow> None)"

definition texts_in :: "payload \<Rightarrow> string \<Rightarrow> (string \<times> string) list option" where
  "texts_in p k = (case map_of p k of None \<Rightarrow> Some [] | Some JNull \<Rightarrow> Some []
     | Some (JObj m) \<Rightarrow> those (map (\<lambda>(k, v). map_option (Pair k) (text_of v)) m) | _ \<Rightarrow> None)"

text \<open>\<^verbatim>\<open>recordFields\<close> and \<^verbatim>\<open>updatePayload\<close>.\<close>

definition fields_of :: "payload \<Rightarrow> record_fields option" where
  "fields_of p =
     Option.bind (text_in p ''type'') (\<lambda>ty. Option.bind (text_in p ''name'') (\<lambda>name.
     Option.bind (text_in p ''username'') (\<lambda>username. Option.bind (text_in p ''service'') (\<lambda>service.
     Option.bind (text_in p ''environment'') (\<lambda>env. Option.bind (list_in text_of p ''urls'') (\<lambda>urls.
     Option.bind (list_in entry_of p ''urlEntries'') (\<lambda>entries. Option.bind (list_in text_of p ''tags'') (\<lambda>tags.
     Option.bind (text_in p ''projectId'') (\<lambda>project. Option.bind (text_in p ''password'') (\<lambda>pw.
     Option.bind (text_in p ''notes'') (\<lambda>notes. Option.bind (text_in p ''apiKey'') (\<lambda>key.
     Option.bind (text_in p ''apiSecret'') (\<lambda>sec. Option.bind (texts_in p ''custom'') (\<lambda>custom.
     Some \<lparr>rf_type = ty, rf_name = name, rf_username = username, rf_service = service, rf_environment = env,
       rf_urls = list_of urls, rf_url_entries = entries, rf_tags = list_of tags, rf_project_id = project,
       rf_password = pw, rf_notes = notes, rf_api_key = key, rf_api_secret = sec, rf_custom = custom\<rparr>))))))))))))))"

definition update_of :: "payload \<Rightarrow> update_payload option" where
  "update_of p =
     Option.bind (text_in p ''id'') (\<lambda>i. Option.bind (word_in p ''expectedRevision'') (\<lambda>r.
     Option.bind (fields_of p) (\<lambda>f.
     Some \<lparr>up_id = i, up_expected_revision = r, up_fields = f\<rparr>)))"

section \<open>There and back\<close>

lemma those_all: "(\<And>x. x \<in> set xs \<Longrightarrow> f x = Some (g x)) \<Longrightarrow> those (map f xs) = Some (map g xs)"
  by (induction xs) auto

lemma view_entry_back: "entry_of (view_entry_json e) = Some e"
  by (cases e) (simp add: entry_of_def view_entry_json_def text_in_def bool_in_def)

lemma slice_back:
  assumes "map_of p k = Some (slice_json j v)" and "\<And>x. f (j x) = Some x"
  shows "list_in f p k = Some v"
  using assms those_all [of _ f] by (cases v) (auto simp: list_in_def slice_json_def those_all o_def)

lemma split_list_none: "split_list L '''' = None"
  by (simp add: split_list_def)

lemma secret_back:
  fixes sec :: secret_payload
  shows "secret_text (Some (client_secret (to_secret_view sec))) ''password'' = sp_password sec"
    "secret_text (Some (client_secret (to_secret_view sec))) ''notes'' = sp_notes sec"
    "secret_text (Some (client_secret (to_secret_view sec))) ''apiKey'' = sp_api_key sec"
    "secret_text (Some (client_secret (to_secret_view sec))) ''apiSecret'' = sp_api_secret sec"
  by (simp_all add: secret_text_def client_secret_def to_secret_view_def field_if_def)

text \<open>What the daemon reads out of the request of an edit that leaves the addresses alone.\<close>

lemma edit_received:
  assumes u: "flag_text fs ''url'' = ''''" "flag_text fs ''allow-subdomains'' = ''''"
    and p: "edit_payload L fs (client_shown v) secret = Inr p"
  shows "update_of p = Some \<lparr>up_id = wr_id v, up_expected_revision = wr_revision v, up_fields =
     \<lparr>rf_type = wr_type v, rf_name = pick (flag_text fs ''name'') (wr_name v),
      rf_username = pick (flag_text fs ''username'') (wr_username v),
      rf_service = pick (flag_text fs ''service'') (wr_service v),
      rf_environment = pick (flag_text fs ''environment'') (wr_environment v),
      rf_urls = [], rf_url_entries = if_any (wr_url_entries v),
      rf_tags = (case split_list L (flag_text fs ''tags'') of Some ts \<Rightarrow> ts | None \<Rightarrow> wr_tags v),
      rf_project_id = '''',
      rf_password = pick (flag_text fs ''password'') (secret_text secret ''password''),
      rf_notes = pick (flag_text fs ''notes'') (secret_text secret ''notes''),
      rf_api_key = pick (flag_text fs ''api-key'') (secret_text secret ''apiKey''),
      rf_api_secret = pick (flag_text fs ''api-secret'') (secret_text secret ''apiSecret''), rf_custom = []\<rparr>\<rparr>"
proof -
  have e: "edited_urls L fs (client_shown v) = Inr (slice_json view_entry_json (if_any (wr_url_entries v)))"
    by (simp add: edited_urls_def u split_list_none client_shown_def)
  have entries: "list_in entry_of p ''urlEntries'' = Some (if_any (wr_url_entries v))"
    by (rule slice_back [where j = view_entry_json]) (use p e in \<open>auto simp: edit_payload_def view_entry_back\<close>)
  have tags: "list_in text_of p ''tags'' =
      Some (case split_list L (flag_text fs ''tags'') of Some ts \<Rightarrow> Some ts | None \<Rightarrow> if_any (wr_tags v))"
    by (rule slice_back [where j = JStr])
      (use p e in \<open>auto simp: edit_payload_def text_of_def client_shown_def slice_json_def split: option.splits\<close>)
  have texts: "text_in p k = Some t" if "map_of p k = Some (JStr t)" for k t using that by (simp add: text_in_def)
  have "list_of (case split_list L (flag_text fs ''tags'') of Some ts \<Rightarrow> Some ts | None \<Rightarrow> if_any (wr_tags v)) =
      (case split_list L (flag_text fs ''tags'') of Some ts \<Rightarrow> ts | None \<Rightarrow> wr_tags v)"
    by (simp add: list_of_def if_any_def split: option.split)
  moreover have "map_of p ''urls'' = None" "map_of p ''projectId'' = None" "map_of p ''custom'' = None"
    using p e by (auto simp: edit_payload_def)
  moreover have "word_in p ''expectedRevision'' = Some (wr_revision v)"
    using p e uint_lt2p [of "wr_revision v"] by (auto simp: edit_payload_def word_in_def client_shown_def)
  moreover have "map_of p ''id'' = Some (JStr (wr_id v))" "map_of p ''type'' = Some (JStr (wr_type v))"
    "map_of p ''name'' = Some (JStr (pick (flag_text fs ''name'') (wr_name v)))"
    "map_of p ''username'' = Some (JStr (pick (flag_text fs ''username'') (wr_username v)))"
    "map_of p ''service'' = Some (JStr (pick (flag_text fs ''service'') (wr_service v)))"
    "map_of p ''environment'' = Some (JStr (pick (flag_text fs ''environment'') (wr_environment v)))"
    "map_of p ''password'' = Some (JStr (pick (flag_text fs ''password'') (secret_text secret ''password'')))"
    "map_of p ''notes'' = Some (JStr (pick (flag_text fs ''notes'') (secret_text secret ''notes'')))"
    "map_of p ''apiKey'' = Some (JStr (pick (flag_text fs ''api-key'') (secret_text secret ''apiKey'')))"
    "map_of p ''apiSecret'' = Some (JStr (pick (flag_text fs ''api-secret'') (secret_text secret ''apiSecret'')))"
    using p e by (auto simp: edit_payload_def client_shown_def)
  moreover note entries tags texts
  ultimately show ?thesis
    by (simp add: update_of_def fields_of_def list_in_def [of text_of p "''urls''"] text_in_def [of p "''projectId''"] texts_in_def list_of_def)
qed

text \<open>Addresses that were once accepted are accepted again.\<close>

lemma smap_same: "(\<And>x. x \<in> set xs \<Longrightarrow> f (g x) = Inr x) \<Longrightarrow> smap f (map g xs) = Inr xs"
  by (induction xs) auto

lemma edit_result:
  assumes u: "flag_text fs ''url'' = ''''" "flag_text fs ''allow-subdomains'' = ''''"
    and stored: "\<And>x. x \<in> set (md_urls (ie_metadata e)) \<Longrightarrow> new_login_url_with_policy U (lu_raw x) (lu_allow_subdomains x) = Inr x"
    and p: "edit_payload L fs (client_shown (to_record_view e)) (Some (client_secret (to_secret_view sec))) = Inr p"
  shows "\<exists>q. update_of p = Some q \<and> up_id q = id_string (ie_id e) \<and> up_expected_revision q = ie_revision e \<and>
    fields_to_domain U (up_fields q) = Inr
     ((ie_metadata e)
        \<lparr>md_name := pick (flag_text fs ''name'') (md_name (ie_metadata e)),
         md_username := pick (flag_text fs ''username'') (md_username (ie_metadata e)),
         md_service := pick (flag_text fs ''service'') (md_service (ie_metadata e)),
         md_environment := pick (flag_text fs ''environment'') (md_environment (ie_metadata e)),
         md_tags := (case split_list L (flag_text fs ''tags'') of Some ts \<Rightarrow> ts | None \<Rightarrow> md_tags (ie_metadata e)),
         md_project_id := '''', md_custom_keys := [], md_created_at := zero_time, md_updated_at := zero_time\<rparr>,
      sec
        \<lparr>sp_password := pick (flag_text fs ''password'') (sp_password sec),
         sp_notes := pick (flag_text fs ''notes'') (sp_notes sec),
         sp_api_key := pick (flag_text fs ''api-key'') (sp_api_key sec),
         sp_api_secret := pick (flag_text fs ''api-secret'') (sp_api_secret sec), sp_custom := []\<rparr>)"
proof -
  let ?urls = "md_urls (ie_metadata e)"
  have t: "trim_space U [] = []" by (simp add: trim_space_ascii ascii_def)
  have "smap (\<lambda>(url, sub). new_login_url_with_policy U url sub) (map (\<lambda>x. (lu_raw x, lu_allow_subdomains x)) ?urls) = Inr ?urls"
    by (rule smap_same) (simp add: stored)
  then have d: "fields_to_domain U f = Inr (\<lparr>md_name = rf_name f, md_username = rf_username f, md_service = rf_service f,
            md_environment = rf_environment f, md_urls = ?urls, md_tags = rf_tags f,
            md_project_id = trim_space U (rf_project_id f), md_custom_keys = map fst (rf_custom f),
            md_created_at = zero_time, md_updated_at = zero_time\<rparr>,
           \<lparr>sp_password = rf_password f, sp_notes = rf_notes f, sp_api_key = rf_api_key f,
            sp_api_secret = rf_api_secret f, sp_custom = rf_custom f\<rparr>)"
    if "rf_urls f = []" "rf_url_entries f = if_any (map (\<lambda>x. (lu_raw x, lu_allow_subdomains x)) ?urls)" for f
    using that by (cases "?urls = []") (simp_all add: fields_to_domain_def Let_def if_any_def)
  show ?thesis
    by (rule exI, rule conjI [OF edit_received [OF u p]])
      (cases "ie_metadata e"; cases sec; simp add: d to_record_view_def secret_back t split: option.split)
qed

end
