(* ===== verification/Requests_Made.thy ===== *)
theory Requests_Made
  imports Command_Line
begin

text \<open>
  Which requests a command makes, and when: the grave ones (destroying the vault, restoring a backup,
  approving a client, revealing a secret) only after what they ask of the user.
\<close>

section \<open>Requests as a relation between the state before and after\<close>

definition asks :: "(string \<times> payload option) set \<Rightarrow> 'c console \<Rightarrow> 'c console \<Rightarrow> bool" where
  "asks A s t \<longleftrightarrow> (\<exists>l. co_requests t = co_requests s @ l \<and> set l \<subseteq> A)"

lemma asksI: "co_requests t = co_requests s @ l \<Longrightarrow> set l \<subseteq> A \<Longrightarrow> asks A s t"
  by (auto simp: asks_def)

lemma asks_mono: "A \<subseteq> B \<Longrightarrow> asks A s t \<Longrightarrow> asks B s t"
  by (auto simp: asks_def)

lemma asks_trans: "asks A s t \<Longrightarrow> asks A t u \<Longrightarrow> asks A s u"
  by (auto simp: asks_def)

interpretation asking: effect "asks A" for A
  by unfold_locales (auto simp: asks_def)

lemma asking_mono: "obeys (asks A) m \<Longrightarrow> A \<subseteq> B \<Longrightarrow> obeys (asks B) m"
  unfolding obeys_def using asks_mono by blast

text \<open>What does not touch the requests.\<close>

lemma silent: "obeys (same_on co_requests) m \<Longrightarrow> obeys (asks A) m"
  by (auto simp: obeys_def same_on_def asks_def)

definition talk :: "'c console \<Rightarrow> bool \<times> string list \<times> (string \<times> payload option) list" where
  "talk s = (co_tty s, co_input s, co_requests s)"

lemma talk_requests: "obeys (same_on talk) m \<Longrightarrow> obeys (same_on co_requests) m"
  by (auto simp: obeys_def same_on_def talk_def)

lemma talk_steps [simp]:
  "talk (s\<lparr>fs_nodes := a\<rparr>) = talk s" "talk (s\<lparr>fs_pos := n\<rparr>) = talk s" "talk (s\<lparr>on_ticks := n\<rparr>) = talk s"
  "talk (s\<lparr>on_requests := r\<rparr>) = talk s" "talk (s\<lparr>co_out := x\<rparr>) = talk s" "talk (s\<lparr>co_err := x\<rparr>) = talk s"
  "talk (s\<lparr>co_dials := n\<rparr>) = talk s" "talk (s\<lparr>co_client := c\<rparr>) = talk s" "talk (s\<lparr>co_tmp_count := n\<rparr>) = talk s"
  by (simp_all add: talk_def)

lemma talk_primitives:
  "obeys (same_on talk) fs_op" "obeys (same_on talk) (set_node p n)" "obeys (same_on talk) clock_now"
  "obeys (same_on talk) (http_get url)" "obeys (same_on talk) (say l)" "obeys (same_on talk) (warn l)"
  by (simp_all add: obeys_def same_on_def fs_op_def set_node_def clock_now_def http_get_def say_def warn_def mmodify_eq)

lemmas talk_intros = same.ok_intros same.ok_attempt talk_primitives

lemma talk_ignore: "obeys (same_on talk) m \<Longrightarrow> obeys (same_on talk) (ignore_error m)"
  unfolding ignore_error_def by (intro talk_intros)

lemma talk_node: "(\<And>m b. obeys (same_on talk) (f m b)) \<Longrightarrow> (\<And>m. obeys (same_on talk) (g m)) \<Longrightarrow> (\<And>q. obeys (same_on talk) (h q)) \<Longrightarrow>
    obeys (same_on talk) (case n of File m b \<Rightarrow> f m b | Dir m \<Rightarrow> g m | Link q \<Rightarrow> h q)"
  by (cases n) auto

lemma talk_lookup: "obeys (same_on talk) (fs_lookup p)"
  unfolding fs_lookup_def by (intro talk_intros talk_node)

lemma talk_files:
  "obeys (same_on talk) (fs_read p)" "obeys (same_on talk) (check_private p)"
  "obeys (same_on talk) (fs_mkdir mode p)" "obeys (same_on talk) (fs_write_new p mode b)"
  unfolding fs_read_def check_private_def fs_mkdir_def fs_write_new_def
  by (intro talk_intros talk_node talk_lookup)+

lemma talk_write:
  "obeys (same_on talk) (fs_mkdir_all p mode)" "obeys (same_on talk) (fs_write_file p mode b)"
  unfolding fs_mkdir_all_def fs_write_file_def Let_def
  by (intro talk_intros talk_files)+

lemma talk_update:
  "obeys (same_on talk) (read_cache J c)" "obeys (same_on talk) (write_cache J c st)"
  "obeys (same_on talk) (check_now J c)" "obeys (same_on talk) (refresh J c st)"
proof -
  show r: "obeys (same_on talk) (read_cache J c)" unfolding read_cache_def by (intro talk_intros talk_files)
  show w: "obeys (same_on talk) (write_cache J c st)" for st
    unfolding write_cache_def by (intro talk_intros talk_write talk_ignore)
  show n: "obeys (same_on talk) (check_now J c)" unfolding check_now_def Let_def by (intro talk_intros w)
  show "obeys (same_on talk) (refresh J c st)" unfolding refresh_def by (intro talk_intros n w)
qed

lemma talk_run:
  "obeys (same_on talk) (background getenv J c)" "obeys (same_on talk) (notice U getenv J c)"
  unfolding background_def notice_def by (intro talk_intros talk_update)+

lemma talk_on_disk: "obeys (same_on talk) (on_disk m)"
  by (auto simp: obeys_def same_on_def on_disk_def split: prod.splits)

lemma talk_connect: "obeys (same_on talk) (connect L)"
  by (auto simp: connect_def obeys_def same_on_def mbind_unfold mreturn_eq warn_def mmodify_eq Let_def split: sum.splits)

section \<open>What the commands ask\<close>

lemma asks_silent:
  "obeys (asks A) (say l)" "obeys (asks A) (warn l)" "obeys (asks A) (connect L)" "obeys (asks A) (on_disk m)"
  "obeys (asks A) (check_private p)"
  by (intro silent talk_requests talk_primitives talk_connect talk_on_disk talk_files)+

lemma asks_exit: "obeys (asks A) (warn_exit l code)" "obeys (asks A) (say_exit l code)" "obeys (asks A) (cli_fail L e)"
  unfolding cli_fail_def warn_exit_def say_exit_def by (intro asking.ok_intros asks_silent)+

lemma asks_take_line: "obeys (asks A) take_line"
  by (auto simp: obeys_def asks_def take_line_def split: list.splits)

lemma asks_request: "(oper, payload) \<in> A \<Longrightarrow> obeys (asks A) (request L oper payload out)"
  by (auto simp: obeys_def asks_def request_def split: prod.splits)

lemmas asks_intros = asking.ok_intros asking.ok_attempt asks_silent asks_exit asks_take_line asks_request

lemma asks_input:
  "obeys (asks A) (read_password prompt b)" "obeys (asks A) (prompt_line L prompt)"
  unfolding read_password_def prompt_line_def by (intro asks_intros)+

lemma asks_password: "(\<And>pw. obeys (asks A) (k pw)) \<Longrightarrow> obeys (asks A) (password_or_fail L prompt b k)"
  unfolding password_or_fail_def by (intro asks_intros asks_input)

lemma asks_connection: "obeys (asks A) m \<Longrightarrow> obeys (asks A) (with_connection L m)"
  unfolding with_connection_def by (intro asks_intros)

lemma asks_request_or_fail:
  "(oper, payload) \<in> A \<Longrightarrow> (\<And>x. obeys (asks A) (k x)) \<Longrightarrow> obeys (asks A) (request_or_fail L oper payload out k)"
  unfolding request_or_fail_def by (intro asks_intros)

lemma asks_call: "(oper, payload) \<in> A \<Longrightarrow> obeys (asks A) (call L oper payload out)"
  unfolding call_def by (intro asks_intros)

lemma asks_call_or_fail:
  "(oper, payload) \<in> A \<Longrightarrow> (\<And>x. obeys (asks A) (k x)) \<Longrightarrow> obeys (asks A) (call_or_fail L oper payload out k)"
  unfolding call_or_fail_def by (intro asks_intros asks_call)

lemma asks_flags: "(\<And>fs rest. obeys (asks A) (k fs rest)) \<Longrightarrow> obeys (asks A) (with_flags fs args k)"
  unfolding with_flags_def by (intro asks_intros)

lemmas asks_rules = asks_intros asks_input asks_password asks_connection asks_request_or_fail asks_call_or_fail asks_flags

lemma asks_list: "obeys (asks A) m \<Longrightarrow> (\<And>x xs. obeys (asks A) (f x xs)) \<Longrightarrow> obeys (asks A) (case v of [] \<Rightarrow> m | x # xs \<Rightarrow> f x xs)"
  by (simp split: list.split)

definition harmless :: "(string \<times> payload option) set" where
  "harmless = {(oper, _). oper \<notin> {''vault.destroy'', ''backup.restore'', ''clients.approve'', ''records.reveal''}}"

lemma harmless_iff [simp]:
  "(oper, p) \<in> harmless \<longleftrightarrow> oper \<noteq> ''vault.destroy'' \<and> oper \<noteq> ''backup.restore'' \<and> oper \<noteq> ''clients.approve'' \<and> oper \<noteq> ''records.reveal''"
  by (simp add: harmless_def)

lemma asks_life:
  "obeys (asks harmless) (cmd_init L args)" "obeys (asks harmless) (cmd_status L W)" "obeys (asks harmless) (cmd_unlock L args)"
  "oper \<in> {''vault.lock'', ''vault.panic''} \<Longrightarrow> obeys (asks harmless) (simple_op L oper)"
  unfolding cmd_init_def cmd_status_def cmd_unlock_def simple_op_def Let_def
  by (intro asks_rules; simp; fail | intro asks_rules; auto)+

lemma asks_add:
  "obeys (asks harmless) (add_record L W ty fs gen)" "obeys (asks harmless) (add_password L W ty fs)"
  "obeys (asks harmless) (cmd_add L W args)"
proof -
  have r: "obeys (asks harmless) (add_record L W ty fs gen)" for ty fs gen
    unfolding add_record_def Let_def by (intro asks_rules) simp_all
  have p: "obeys (asks harmless) (add_password L W ty fs)" for ty fs
    unfolding add_password_def by (intro asks_rules r)
  show "obeys (asks harmless) (add_record L W ty fs gen)" "obeys (asks harmless) (add_password L W ty fs)" by (rule r p)+
  show "obeys (asks harmless) (cmd_add L W args)"
    unfolding cmd_add_def by (intro asks_rules asks_list p)
qed

lemma asks_throw_panic: "obeys (asks A) (mthrow Panic)"
  by (rule asking.ok_throw)

lemma asks_show_records:
  "obeys (asks A) (print_records rs)" "obeys (asks harmless) (cmd_list L W)" "obeys (asks harmless) (cmd_search L W args)"
proof -
  show p: "obeys (asks A) (print_records rs)" for A rs unfolding print_records_def by (intro asks_rules)
  show "obeys (asks harmless) (cmd_list L W)" unfolding cmd_list_def by (intro asks_rules p) simp
  show "obeys (asks harmless) (cmd_search L W args)" unfolding cmd_search_def by (intro asks_rules p) simp
qed

lemma asks_jval:
  assumes "\<And>m. obeys (asks A) (f m)" and "\<And>xs. obeys (asks A) (g xs)" and "obeys (asks A) h"
  shows "obeys (asks A) (case v of JObj m \<Rightarrow> f m | _ \<Rightarrow> h)" "obeys (asks A) (case v of JArr xs \<Rightarrow> g xs | _ \<Rightarrow> h)"
  using assms by (simp_all split: jval.split)

lemma asks_print:
  "obeys (asks A) (print_fields L meta)" "obeys (asks A) (print_urls L meta)" "obeys (asks A) (print_secret L meta)"
  "obeys (asks A) (print_shown L b meta)"
proof -
  show f: "obeys (asks A) (print_fields L meta)" unfolding print_fields_def by (intro asks_rules)
  show u: "obeys (asks A) (print_urls L meta)"
    unfolding print_urls_def by (auto split: option.split jval.split intro!: asks_rules)
  show s: "obeys (asks A) (print_secret L meta)"
    unfolding print_secret_def by (auto split: option.split jval.split intro!: asks_rules)
  show "obeys (asks A) (print_shown L b meta)" unfolding print_shown_def by (intro asks_rules f u s)
qed

text \<open>Showing a record asks for its secret only when told to.\<close>

lemma asks_show:
  assumes "\<And>fs ps. parse_anywhere show_flags [] args = Inr (fs, ps) \<Longrightarrow> \<not> flag_on fs ''reveal''"
  shows "obeys (asks harmless) (cmd_show L W args)"
proof -
  have "obeys (asks harmless) (cmd_show L W args)" if "parse_anywhere show_flags [] args = r" for r
  proof (cases r)
    case (Inl e)
    with that show ?thesis unfolding cmd_show_def by simp (intro asks_rules)
  next
    case (Inr x)
    obtain fs ps where "x = (fs, ps)" by (cases x)
    with Inr that have x: "parse_anywhere show_flags [] args = Inr (fs, ps)" by simp
    show ?thesis
    proof (cases ps)
      case Nil
      with x show ?thesis unfolding cmd_show_def by simp (intro asks_rules)
    next
      case (Cons ref more)
      have "\<not> flag_on fs ''reveal''" by (rule assms [OF x])
      with x Cons show ?thesis unfolding cmd_show_def Let_def by simp (intro asks_rules asks_print; simp)
    qed
  qed
  then show ?thesis by blast
qed

definition revealing :: "(string \<times> payload option) set" where
  "revealing = {(oper, _). oper \<notin> {''vault.destroy'', ''backup.restore'', ''clients.approve''}}"

lemma revealing_iff [simp]:
  "(oper, p) \<in> revealing \<longleftrightarrow> oper \<noteq> ''vault.destroy'' \<and> oper \<noteq> ''backup.restore'' \<and> oper \<noteq> ''clients.approve''"
  by (simp add: revealing_def)

lemma asks_show_any: "obeys (asks revealing) (cmd_show L W args)"
  unfolding cmd_show_def Let_def by (intro asks_rules asks_list asks_print; simp)

lemma asks_change:
  "obeys (asks revealing) (cmd_edit L W args)" "obeys (asks harmless) (cmd_remove L W args)"
  "obeys (asks harmless) (cmd_generate L W args)" "obeys (asks harmless) (cmd_password L args)"
  unfolding cmd_edit_def cmd_remove_def cmd_generate_def cmd_password_def Let_def
  by (intro asks_rules asks_list; simp)+

lemma asks_administration:
  "obeys (asks harmless) (clients_list L W)" "obeys (asks harmless) (cmd_events L W args)" "obeys (asks harmless) (cmd_doctor L W)"
  unfolding clients_list_def cmd_events_def cmd_doctor_def Let_def
  by (intro asks_rules; simp)+

lemma asks_reports:
  "obeys (asks A) (print_result r)" "obeys (asks A) (print_found r b)" "obeys (asks A) (report_install found)"
  "obeys (asks A) (print_removed u)"
proof -
  have r: "obeys (asks A) (print_result r)" for r
    unfolding print_result_def Let_def by (auto split: extension_status.split intro!: asks_rules)
  have f: "obeys (asks A) (print_found r b)" for r b unfolding print_found_def by (intro asks_rules)
  show "obeys (asks A) (print_result r)" "obeys (asks A) (print_found r b)" by (rule r f)+
  show "obeys (asks A) (report_install found)" unfolding report_install_def by (intro asks_rules asks_list r f)
  show "obeys (asks A) (print_removed u)" unfolding print_removed_def Let_def by (intro asks_rules)
qed

lemma asks_uninstall_each: "obeys (asks A) (uninstall_each L o' bs)"
  by (induction bs) (auto intro!: asks_rules asks_reports)

lemma asks_install:
  "obeys (asks A) (cmd_install L args)" "obeys (asks A) (cmd_uninstall L args)"
  unfolding cmd_install_def cmd_uninstall_def Let_def
  by (intro asks_rules asks_reports asks_uninstall_each)+

lemma asks_version: "obeys (asks A) (cmd_version L)"
  unfolding cmd_version_def Let_def by (intro asks_rules silent [OF talk_requests [OF talk_update(3)]])

lemma asks_usage: "obeys (asks A) (usage code)"
  unfolding usage_def by (intro asks_rules)

section \<open>Grave requests\<close>

text \<open>One request of a call, after steps that leave terminal and input alone.\<close>

lemma call_asks_one:
  assumes "call_or_fail L oper payload out k s = (r, t)" and "\<And>x. obeys (asks {}) (k x)"
  shows "asks {(oper, payload)} s t"
  using asking.okD [OF asks_call_or_fail assms(1), of "{(oper, payload)}"] asking_mono [OF assms(2)] by blast

lemma new_requests: "asks A s t \<Longrightarrow> q \<in> set (drop (length (co_requests s)) (co_requests t)) \<Longrightarrow> q \<in> A"
  by (auto simp: asks_def)

end
