(* ===== verification/Grave_Requests.thy ===== *)
theory Grave_Requests
  imports Requests_Made
begin

text \<open>
  The grave requests of the command line: destroying the vault, restoring a backup, approving a client and
  revealing a secret are made only after what they ask of the user, whatever the arguments, the daemon's
  answers and the failures are.
\<close>

section \<open>What the prompts yield\<close>

lemma no_requests: "co_requests t = co_requests s \<Longrightarrow> asks {} s t"
  by (auto simp: asks_def)

lemma asks_from: "asks A u t \<Longrightarrow> co_requests u = co_requests s \<Longrightarrow> asks A s t"
  by (auto simp: asks_def)

lemma exits_silently: "warn_exit l code s = (r, t) \<Longrightarrow> asks {} s t" "say_exit l code s = (r, t) \<Longrightarrow> asks {} s t" "cli_fail L e s = (r, t) \<Longrightarrow> asks {} s t"
  by (rule asking.okD [OF asks_exit(1)] asking.okD [OF asks_exit(2)] asking.okD [OF asks_exit(3)], assumption)+

lemma prompt_cases:
  "prompt_line L prompt s = (r, t) \<Longrightarrow> co_requests t = co_requests s \<and> co_tty t = co_tty s \<and>
     (\<exists>answer. r = Inr answer \<and> (answer = '''' \<or> (\<exists>a ls. co_input s = a # ls \<and> answer = trim_space (cl_unicode L) a)))"
  by (auto simp: prompt_line_def mbind_unfold warn_def mmodify_eq take_line_def mreturn_eq split: list.splits)

lemma password_cases:
  assumes "password_or_fail L prompt False k s = (r, t)"
  shows "asks {} s t \<or> (co_tty s \<and> (\<exists>pw ls u. co_input s = pw # ls \<and> co_input u = ls \<and> co_tty u \<and> co_requests u = co_requests s \<and> k pw u = (r, t)))"
proof (cases "co_tty s")
  case False
  then have "cli_fail L (ErrOther ''refusing to read password from a non-terminal; use --password-stdin'') s = (r, t)"
    using assms by (simp add: password_or_fail_def read_password_def mbind_unfold attempt_def mget_eq mthrow_eq)
  then show ?thesis by (simp add: exits_silently)
next
  case True
  let ?s = "s\<lparr>co_err := co_err s @ [prompt]\<rparr>"
  show ?thesis
  proof (cases "co_input s")
    case Nil
    then have "cli_fail L ErrEOF ?s = (r, t)"
      using assms True by (simp add: password_or_fail_def read_password_def mbind_unfold attempt_def mget_eq mthrow_eq warn_def mmodify_eq take_line_def)
    then show ?thesis by (auto dest!: exits_silently intro: asks_from)
  next
    case (Cons pw ls)
    then have "k pw (?s\<lparr>co_input := ls\<rparr>) = (r, t)"
      using assms True
      by (simp add: password_or_fail_def read_password_def mbind_unfold attempt_def mget_eq mreturn_eq warn_def mmodify_eq take_line_def)
    then show ?thesis using True Cons by (intro disjI2 conjI exI [of _ pw] exI [of _ ls] exI [of _ "?s\<lparr>co_input := ls\<rparr>"]) simp_all
  qed
qed

lemma destroy_asks:
  assumes "cmd_destroy L s = (r, t)"
  shows "asks {} s t \<or> (co_tty s \<and> (\<exists>pw a ls. co_input s = pw # a # ls \<and> trim_space (cl_unicode L) a = destroy_phrase \<and>
    asks {(''vault.destroy'', Some [(''password'', JStr pw)])} s t))"
proof (cases "co_tty s")
  case False
  then show ?thesis using assms by (auto simp: cmd_destroy_def mbind_unfold mget_eq dest: exits_silently)
next
  case True
  define k where "k pw =
     mbind (prompt_line L (''Type '' @ quote_char # destroy_phrase @ quote_char # '' to continue: '')) (\<lambda>answer.
     if answer \<noteq> destroy_phrase then say_exit ''aborted'' exit_ok else
     call_or_fail L ''vault.destroy'' (Some [(''password'', JStr pw)]) no_output (\<lambda>_. say_exit ''vault destroyed'' exit_ok))" for pw
  define u where "u = s\<lparr>co_out := (co_out s @ [''This PERMANENTLY deletes the vault. There is no recovery without a backup.'']) @
    [''Note: SSD wear leveling may keep older copies of the encrypted file.'']\<rparr>"
  have u: "co_tty u" "co_input u = co_input s" "co_requests u = co_requests s" using True by (simp_all add: u_def)
  have p: "password_or_fail L ''Master password: '' False k u = (r, t)"
    using assms True unfolding cmd_destroy_def k_def [abs_def] u_def
    by (subst (asm) mbind_unfold, simp add: mget_eq) (simp add: mbind_unfold say_def mmodify_eq)
  from password_cases [OF p] show ?thesis
  proof (elim disjE conjE exE)
    assume "asks {} u t"
    then show ?thesis using u asks_from by blast
  next
    fix pw ls v
    assume v: "co_input u = pw # ls" "co_input v = ls" "co_requests v = co_requests u" "k pw v = (r, t)"
    obtain x w where x: "prompt_line L (''Type '' @ quote_char # destroy_phrase @ quote_char # '' to continue: '') v = (x, w)" by fastforce
    from prompt_cases [OF x] obtain answer where w: "co_requests w = co_requests v" "x = Inr answer"
      and a: "answer = '''' \<or> (\<exists>a ls'. co_input v = a # ls' \<and> answer = trim_space (cl_unicode L) a)" by blast
    show ?thesis
    proof (cases "answer = destroy_phrase")
      case False
      then have "say_exit ''aborted'' exit_ok w = (r, t)" using v(4) x w(2) by (simp add: k_def mbind_unfold)
      then have "asks {} w t" by (rule exits_silently)
      then have "asks {} s t" by (rule asks_from) (simp add: w(1) v(3) u(3))
      then show ?thesis ..
    next
      case ok: True
      then have "call_or_fail L ''vault.destroy'' (Some [(''password'', JStr pw)]) no_output (\<lambda>_. say_exit ''vault destroyed'' exit_ok) w = (r, t)"
        using v(4) x w(2) by (simp add: k_def mbind_unfold)
      from call_asks_one [OF this asks_exit(2)] have "asks {(''vault.destroy'', Some [(''password'', JStr pw)])} w t" .
      then have "asks {(''vault.destroy'', Some [(''password'', JStr pw)])} s t" by (rule asks_from) (simp add: w(1) v(3) u(3))
      moreover have "answer \<noteq> ''''" using ok by (simp add: destroy_phrase_def)
      moreover obtain a' ls' where "ls = a' # ls'" "answer = trim_space (cl_unicode L) a'"
        using a calculation(2) v(2) by auto
      ultimately show ?thesis using True v(1) u(2) ok by auto
    qed
  qed
qed

lemma restore_asks:
  assumes "backup_restore_cmd L path s = (r, t)"
  shows "asks {} s t \<or> (co_tty s \<and> (\<exists>a ls. co_input s = a # ls \<and> trim_space (cl_unicode L) a = ''restore'' \<and>
    asks {(''backup.restore'', Some [(''path'', JStr path)])} s t))"
proof (cases "co_tty s")
  case False
  then show ?thesis using assms by (auto simp: backup_restore_cmd_def mbind_unfold mget_eq dest: exits_silently)
next
  case True
  let ?v = "s\<lparr>co_out := co_out s @ [''Restore REPLACES the current vault with the backup contents.'']\<rparr>"
  obtain x w where x: "prompt_line L (''Type '' @ quote_char # ''restore'' @ quote_char # '' to continue: '') ?v = (x, w)" by fastforce
  from prompt_cases [OF x] obtain answer where w: "co_requests w = co_requests s" "x = Inr answer"
    and a: "answer = '''' \<or> (\<exists>a ls'. co_input s = a # ls' \<and> answer = trim_space (cl_unicode L) a)" by auto
  show ?thesis
  proof (cases "answer = ''restore''")
    case False
    then have "say_exit ''aborted'' exit_ok w = (r, t)"
      using assms True x w(2) by (simp add: backup_restore_cmd_def mbind_unfold mget_eq say_def mmodify_eq)
    then have "asks {} w t" by (rule exits_silently)
    then show ?thesis using asks_from [OF _ w(1)] by blast
  next
    case ok: True
    then have "call_or_fail L ''backup.restore'' (Some [(''path'', JStr path)]) no_output (\<lambda>_. say_exit ''restored; the vault is locked'' exit_ok) w = (r, t)"
      using assms True x w(2) by (simp add: backup_restore_cmd_def mbind_unfold mget_eq say_def mmodify_eq)
    from call_asks_one [OF this asks_exit(2)] have "asks {(''backup.restore'', Some [(''path'', JStr path)])} s t"
      using w(1) asks_from by blast
    then show ?thesis using True ok a by auto
  qed
qed

lemma bind_talk:
  assumes "obeys (same_on talk) m" and "mbind m f s = (r, t)"
  shows "talk t = talk s \<or> (\<exists>y u. talk u = talk s \<and> f y u = (r, t))"
proof -
  obtain x u where m: "m s = (x, u)" by fastforce
  have "talk u = talk s" using same.okD [OF assms(1) m] by (simp add: same_on_def)
  then show ?thesis using assms(2) m by (cases x) (auto simp: mbind_unfold)
qed

lemma connect_talk: "connect L s = (x, u) \<Longrightarrow> talk u = talk s"
  using same.okD [OF talk_connect] by (simp add: same_on_def)

definition terminal :: "'c console \<Rightarrow> bool \<times> string list" where
  "terminal s = (co_tty s, co_input s)"

lemma talk_terminal: "talk t = talk s \<Longrightarrow> terminal t = terminal s \<and> co_requests t = co_requests s"
  by (simp add: talk_def terminal_def)

lemma terminal_steps [simp]: "terminal (s\<lparr>co_client := c, co_requests := q\<rparr>) = terminal s"
  by (simp add: terminal_def)

lemma attempt_state: "m s = (r, t) \<Longrightarrow> \<exists>r'. attempt m s = (r', t)"
  by (cases r; simp add: attempt_def split: err.split)

lemma call_steps:
  assumes "call_or_fail L oper payload out k s = (r, t)"
  shows "asks {(oper, payload)} s t \<or>
    (\<exists>x u. terminal u = terminal s \<and> asks {(oper, payload)} s u \<and> k x u = (r, t))"
proof -
  obtain y v where y: "call L oper payload out s = (y, v)" by fastforce
  have a: "asks {(oper, payload)} s v" by (rule asking.okD [OF asks_call y]) simp
  have v: "terminal v = terminal s"
  proof -
    obtain c w where c: "connect L s = (c, w)" by fastforce
    have w: "terminal w = terminal s" using connect_talk [OF c] talk_terminal by blast
    obtain q w' where q: "request L oper payload out w = (q, w')" by fastforce
    have w': "terminal w' = terminal w" using q by (auto simp: request_def split: prod.splits)
    obtain q' where q': "attempt (request L oper payload out) w = (q', w')"
      using attempt_state [where m = "request L oper payload out" and s = w] q by blast
    show ?thesis
    proof (cases c)
      case (Inl e)
      then show ?thesis using y c w by (simp add: call_def mbind_unfold)
    next
      case (Inr d)
      then show ?thesis using y c w w' q'
        by (cases d; cases q') (auto simp: call_def mbind_unfold mreturn_eq split: sum.splits)
    qed
  qed
  show ?thesis
  proof (cases y)
    case (Inl e)
    then have "t = v" using assms y by (simp add: call_or_fail_def mbind_unfold)
    then show ?thesis using a by simp
  next
    case (Inr z)
    obtain code x where z: "z = (code, x)" by fastforce
    then have n: "(case x of Inl e \<Rightarrow> cli_fail L e | Inr x \<Rightarrow> if code \<noteq> exit_ok then mreturn code else k x) v = (r, t)"
      using assms y Inr by (simp add: call_or_fail_def mbind_unfold)
    show ?thesis
    proof (cases x)
      case (Inl e)
      then have "asks {} v t" using n exits_silently(3) [of L e v r t] by simp
      then have "asks {(oper, payload)} v t" by (rule asks_mono [rotated]) simp
      then show ?thesis using asks_trans [OF a] by blast
    next
      case (Inr x')
      then show ?thesis using n a v by (cases "code = exit_ok") (auto simp: mreturn_eq)
    qed
  qed
qed

lemma confirm_asks:
  assumes "mbind (mget co_tty) (\<lambda>tty.
      if \<not> tty then warn_exit denied exit_denied else
      mbind (prompt_line L question) (\<lambda>answer. if answer \<noteq> ''y'' \<and> answer \<noteq> ''Y'' then say_exit ''aborted'' exit_ok else m)) s = (r, t)"
  shows "asks {} s t \<or> (co_tty s \<and> (\<exists>a ls. co_input s = a # ls \<and> trim_space (cl_unicode L) a \<in> {''y'', ''Y''}))"
proof (cases "co_tty s")
  case False
  then have "warn_exit denied exit_denied s = (r, t)" using assms by (simp add: mbind_unfold mget_eq)
  then show ?thesis by (simp add: exits_silently)
next
  case True
  obtain x w where x: "prompt_line L question s = (x, w)" by fastforce
  from prompt_cases [OF x] obtain answer where w: "co_requests w = co_requests s" "x = Inr answer"
    and a: "answer = '''' \<or> (\<exists>a ls'. co_input s = a # ls' \<and> answer = trim_space (cl_unicode L) a)" by auto
  show ?thesis
  proof (cases "answer = ''y'' \<or> answer = ''Y''")
    case False
    then have "say_exit ''aborted'' exit_ok w = (r, t)"
      using assms True x w(2) by (simp add: mbind_unfold mget_eq)
    then have "asks {} w t" by (rule exits_silently)
    then show ?thesis using asks_from [OF _ w(1)] by blast
  next
    case ok: True
    then show ?thesis using True a by auto
  qed
qed

definition approve_lines :: "pending_out \<Rightarrow> string list" where
  "approve_lines p = [''Pairing request: '' @ po_label p, ''Kind: '' @ po_kind_name p, ''Phrase: '' @ po_phrase p, ''Grants:''] @
     map (\<lambda>c. ''  - '' @ c) (po_capabilities p)"

lemma approve_asks:
  assumes "clients_approve L W s = (r, t)"
  shows "asks harmless s t \<or> (co_tty s \<and> (\<exists>a ls. co_input s = a # ls \<and> trim_space (cl_unicode L) a \<in> {''y'', ''Y''}))"
proof -
  define confirm where "confirm p = mbind (mget co_tty) (\<lambda>tty.
      if \<not> tty then warn_exit ''vault: approval requires an interactive terminal'' exit_denied else
      mbind (prompt_line L ''Does the phrase match what the client shows? [y/N] '') (\<lambda>answer.
      if answer \<noteq> ''y'' \<and> answer \<noteq> ''Y'' then say_exit ''aborted'' exit_ok else
      call_or_fail L ''clients.approve'' (Some [(''pairingId'', JStr (po_id p))]) no_output (\<lambda>_. say_exit ''approved'' exit_ok)))" for p :: pending_out
  define k where "k x = (case or_zero [] x of [] \<Rightarrow> say_exit ''no pending pairing requests'' exit_ok
      | p # _ \<Rightarrow> mbind (mfor (approve_lines p) say) (\<lambda>_. confirm p))" for x
  have h: "asks {(''clients.pending'', None)} s u \<Longrightarrow> asks harmless s u" for u by (erule asks_mono [rotated]) simp
  have e: "asks harmless s v" if "asks harmless s u" "asks {} u v" for u v
    using asks_trans [OF that(1) asks_mono [OF _ that(2)]] by simp
  have "call_or_fail L ''clients.pending'' None (Some (un_pending W)) k s = (r, t)"
    using assms unfolding clients_approve_def k_def confirm_def approve_lines_def .
  from call_steps [OF this] show ?thesis
  proof (elim disjE exE conjE)
    assume "asks {(''clients.pending'', None)} s t"
    then show ?thesis using h by blast
  next
    fix x u assume u: "terminal u = terminal s" "asks {(''clients.pending'', None)} s u" "k x u = (r, t)"
    show ?thesis
    proof (cases "or_zero [] x")
      case Nil
      then have "asks {} u t" using u(3) exits_silently(2) by (simp add: k_def)
      then show ?thesis using e [OF h [OF u(2)]] by blast
    next
      case (Cons p ps)
      have l: "obeys (same_on talk) (mfor (approve_lines p) say)" by (intro talk_intros)
      from u(3) Cons have "mbind (mfor (approve_lines p) say) (\<lambda>_. confirm p) u = (r, t)" by (simp add: k_def)
      from bind_talk [OF l this] show ?thesis
      proof (elim disjE exE conjE)
        assume "talk t = talk u"
        then have "asks {} u t" using talk_terminal no_requests by blast
        then show ?thesis using e [OF h [OF u(2)]] by blast
      next
        fix y v assume v: "talk v = talk u" "confirm p v = (r, t)"
        note same = talk_terminal [OF v(1)]
        from confirm_asks [OF v(2) [unfolded confirm_def]] show ?thesis
        proof (elim disjE conjE)
          assume "asks {} v t"
          then have "asks {} u t" using same asks_from by blast
          then show ?thesis using e [OF h [OF u(2)]] by blast
        next
          assume "co_tty v" "\<exists>a ls. co_input v = a # ls \<and> trim_space (cl_unicode L) a \<in> {''y'', ''Y''}"
          then show ?thesis using same u(1) by (simp add: terminal_def)
        qed
      qed
    qed
  qed
qed

section \<open>The whole program\<close>

text \<open>What a grave request must have been preceded by, on the terminal or on the command line.\<close>

definition asked_for :: "('h, 'c, 'k, 'p) cli \<Rightarrow> string list \<Rightarrow> 'c console \<Rightarrow> string \<times> payload option \<Rightarrow> bool" where
  "asked_for L args s q \<longleftrightarrow>
     (fst q = ''vault.destroy'' \<longrightarrow> args \<noteq> [] \<and> hd args = ''destroy'' \<and> co_tty s \<and>
        (\<exists>pw a ls. co_input s = pw # a # ls \<and> trim_space (cl_unicode L) a = destroy_phrase \<and> snd q = Some [(''password'', JStr pw)])) \<and>
     (fst q = ''backup.restore'' \<longrightarrow> co_tty s \<and> (\<exists>path more. args = ''backup'' # ''restore'' # path # more \<and> snd q = Some [(''path'', JStr path)]) \<and>
        (\<exists>a ls. co_input s = a # ls \<and> trim_space (cl_unicode L) a = ''restore'')) \<and>
     (fst q = ''clients.approve'' \<longrightarrow> co_tty s \<and> (\<exists>more. args = ''clients'' # ''approve'' # more) \<and>
        (\<exists>a ls. co_input s = a # ls \<and> trim_space (cl_unicode L) a \<in> {''y'', ''Y''})) \<and>
     (fst q = ''records.reveal'' \<longrightarrow> (\<exists>rest. args = ''edit'' # rest) \<or>
        (\<exists>rest fs ps. args = ''show'' # rest \<and> parse_anywhere show_flags [] rest = Inr (fs, ps) \<and> flag_on fs ''reveal''))"

lemma harmless_asked: "harmless \<subseteq> {q. asked_for L args s q}"
  by (auto simp: asked_for_def harmless_def)

lemma asks_harmless: "obeys (asks harmless) m \<Longrightarrow> m s = (r, t) \<Longrightarrow> asks {q. asked_for L args u q} s t"
  by (rule asks_mono [OF harmless_asked asking.okD])

lemma asked_mono: "asks harmless s t \<Longrightarrow> asks {q. asked_for L args u q} s t" "asks {} s t \<Longrightarrow> asks {q. asked_for L args u q} s t"
  using asks_mono [OF harmless_asked] asks_mono [of "{}"] by blast+

lemma destroy_asked:
  assumes "cmd_destroy L s = (r, t)"
  shows "asks {q. asked_for L (''destroy'' # rest) s q} s t"
  using destroy_asks [OF assms]
proof (elim disjE conjE exE)
  fix pw a ls
  assume "co_tty s" "co_input s = pw # a # ls" "trim_space (cl_unicode L) a = destroy_phrase"
    and q: "asks {(''vault.destroy'', Some [(''password'', JStr pw)])} s t"
  then have "{(''vault.destroy'', Some [(''password'', JStr pw)])} \<subseteq> {q. asked_for L (''destroy'' # rest) s q}"
    by (simp add: asked_for_def)
  then show ?thesis using q by (rule asks_mono)
qed (rule asked_mono)

lemma restore_asked:
  assumes "backup_restore_cmd L path s = (r, t)"
  shows "asks {q. asked_for L (''backup'' # ''restore'' # path # ws) s q} s t"
  using restore_asks [OF assms]
proof (elim disjE conjE exE)
  fix a ls
  assume "co_tty s" "co_input s = a # ls" "trim_space (cl_unicode L) a = ''restore''"
    and q: "asks {(''backup.restore'', Some [(''path'', JStr path)])} s t"
  then have "{(''backup.restore'', Some [(''path'', JStr path)])} \<subseteq> {q. asked_for L (''backup'' # ''restore'' # path # ws) s q}"
    by (simp add: asked_for_def)
  then show ?thesis using q by (rule asks_mono)
qed (rule asked_mono)

lemma backup_asked:
  assumes b: "cmd_backup L W rest s = (r, t)"
  shows "asks {q. asked_for L (''backup'' # rest) s q} s t"
proof (cases "\<exists>path ws. rest = ''restore'' # path # ws")
  case True
  then obtain path ws where rest: "rest = ''restore'' # path # ws" by blast
  with b have "backup_restore_cmd L path s = (r, t)" by (simp add: cmd_backup_def)
  then show ?thesis unfolding rest by (rule restore_asked)
next
  case False
  have "obeys (asks harmless) (cmd_backup L W rest)"
  proof (cases rest)
    case Nil
    then show ?thesis by (simp add: cmd_backup_def asks_exit)
  next
    case (Cons what ws)
    with False show ?thesis unfolding cmd_backup_def Let_def by (cases ws) (auto intro!: asks_rules)
  qed
  then show ?thesis using b by (rule asks_harmless)
qed

lemma approve_asked:
  assumes c: "clients_approve L W s = (r, t)"
  shows "asks {q. asked_for L (''clients'' # ''approve'' # ws) s q} s t"
  using approve_asks [OF c]
proof (elim disjE conjE)
  have "obeys (asks {q. fst q \<in> {''clients.pending'', ''clients.approve''}}) (clients_approve L W)"
    unfolding clients_approve_def by (intro asks_rules asks_list; simp)
  then have q: "asks {q. fst q \<in> {''clients.pending'', ''clients.approve''}} s t" using c by (rule asking.okD)
  assume "co_tty s" "\<exists>a ls. co_input s = a # ls \<and> trim_space (cl_unicode L) a \<in> {''y'', ''Y''}"
  then have "{q. fst q \<in> {''clients.pending'', ''clients.approve''}} \<subseteq> {q. asked_for L (''clients'' # ''approve'' # ws) s q}"
    by (auto simp: asked_for_def)
  then show ?thesis using q by (rule asks_mono)
qed (rule asked_mono)

lemma clients_asked:
  assumes b: "cmd_clients L W rest s = (r, t)"
  shows "asks {q. asked_for L (''clients'' # rest) s q} s t"
proof (cases "\<exists>ws. rest = ''approve'' # ws")
  case True
  then obtain ws where rest: "rest = ''approve'' # ws" by blast
  with b have "clients_approve L W s = (r, t)" by (simp add: cmd_clients_def)
  then show ?thesis unfolding rest by (rule approve_asked)
next
  case False
  have "obeys (asks harmless) (cmd_clients L W rest)"
  proof (cases rest)
    case Nil
    then show ?thesis by (simp add: cmd_clients_def asks_exit)
  next
    case (Cons what ws)
    with False show ?thesis unfolding cmd_clients_def
      by (auto intro!: asks_rules asks_administration asks_list split: list.split)
  qed
  then show ?thesis using b by (rule asks_harmless)
qed

lemma show_asked:
  assumes b: "cmd_show L W rest s = (r, t)"
  shows "asks {q. asked_for L (''show'' # rest) s q} s t"
proof (cases "\<exists>fs ps. parse_anywhere show_flags [] rest = Inr (fs, ps) \<and> flag_on fs ''reveal''")
  case True
  then have "revealing \<subseteq> {q. asked_for L (''show'' # rest) s q}" by (auto simp: asked_for_def)
  then show ?thesis using asking.okD [OF asks_show_any b] by (rule asks_mono)
next
  case False
  then have "obeys (asks harmless) (cmd_show L W rest)" by (intro asks_show) blast
  then show ?thesis using b by (rule asks_harmless)
qed

lemma edit_asked:
  assumes b: "cmd_edit L W rest s = (r, t)"
  shows "asks {q. asked_for L (''edit'' # rest) s q} s t"
proof -
  have "revealing \<subseteq> {q. asked_for L (''edit'' # rest) s q}" by (auto simp: asked_for_def)
  then show ?thesis using asking.okD [OF asks_change(1) b] by (rule asks_mono)
qed

lemmas grave_asked = destroy_asked backup_asked clients_asked show_asked edit_asked

lemma dispatch_harmless:
  assumes "cmd \<notin> {''destroy'', ''backup'', ''clients'', ''show'', ''edit''}"
  shows "obeys (asks harmless) (dispatch_cmd L W cmd rest)"
  using assms
  by (simp add: dispatch_cmd_def asks_life asks_add asks_show_records asks_change asks_administration asks_install asks_usage
      asking.ok_bind asks_silent)

lemma dispatch_asked:
  assumes "dispatch_cmd L W cmd rest s = (r, t)"
  shows "asks {q. asked_for L (cmd # rest) s q} s t"
proof -
  consider "cmd = ''destroy''" | "cmd = ''backup''" | "cmd = ''clients''" | "cmd = ''show''" | "cmd = ''edit''"
    | "cmd \<notin> {''destroy'', ''backup'', ''clients'', ''show'', ''edit''}" by blast
  then show ?thesis
  proof cases
    case 6
    from asks_harmless [OF dispatch_harmless [OF this] assms] show ?thesis .
  qed (use assms grave_asked in \<open>simp_all add: dispatch_cmd_def\<close>)
qed
lemma asked_talk: "talk u = talk s \<Longrightarrow> asked_for L args u = asked_for L args s"
  by (auto simp: asked_for_def talk_def fun_eq_iff)

lemma asked_from:
  "asks {q. asked_for L args u q} u t \<Longrightarrow> talk u = talk s \<Longrightarrow> asks {q. asked_for L args s q} s t"
  using asked_talk [of u s L args] asks_from [of _ u t s] talk_terminal [of u s] by simp

lemma bind_asks:
  assumes "mbind m k s = (r, t)" and "\<And>x u. m s = (x, u) \<Longrightarrow> asks A s u" and "\<And>x. obeys (asks A) (k x)"
  shows "asks A s t"
proof -
  obtain x u where m: "m s = (x, u)" by fastforce
  note u = assms(2) [OF m]
  show ?thesis
  proof (cases x)
    case (Inl e)
    then show ?thesis using assms(1) m u by (simp add: mbind_unfold)
  next
    case (Inr y)
    then have "k y u = (r, t)" using assms(1) m by (simp add: mbind_unfold)
    from asks_trans [OF u asking.okD [OF assms(3) this]] show ?thesis .
  qed
qed

lemma run_asked:
  fixes s :: "'c console"
  assumes "run_cli L W args s = (r, t)"
  shows "asks {q. asked_for L args s q} s t"
proof -
  let ?getenv = "ho_getenv (cl_host L)"
  define warning :: "environment \<Rightarrow> ('c console, err, unit) prog"
    where "warning env = (if env = Dev then warn ''[dev] using the dev vault (albear-dev)'' else mreturn ())" for env
  have w: "obeys (same_on talk) (warning env)" for env unfolding warning_def by (intro talk_intros)
  define finish :: "nat \<Rightarrow> ('c console, err, nat) prog" where "finish code = (if code \<noteq> exit_ok then mreturn code else
      mbind (notice (cl_unicode L) ?getenv (cl_update L) (cli_checker L)) (\<lambda>n. case n of
        None \<Rightarrow> mreturn code
      | Some l \<Rightarrow> warn_exit l code))" for code
  have f: "obeys (asks A) (finish code)" for A code
    unfolding finish_def by (intro asks_intros silent [OF talk_requests [OF talk_run(2)]])
  show ?thesis
  proof (cases "current_environment (cl_unicode L) ?getenv (cl_version L)")
    case (Inl e)
    then have "warn_exit (''vault: '' @ error_text L e) exit_usage s = (r, t)" using assms by (simp add: run_cli_def)
    then show ?thesis by (intro asked_mono(2) exits_silently)
  next
    case (Inr env)
    then have "mbind (warning env) (\<lambda>_. case args of [] \<Rightarrow> usage exit_usage
        | cmd # rest \<Rightarrow> if cmd = ''version'' \<or> cmd = ''--version'' then cmd_version L else
            mbind (background ?getenv (cl_update L) (cli_checker L)) (\<lambda>_. mbind (dispatch_cmd L W cmd rest) finish)) s = (r, t)"
      using assms unfolding run_cli_def Let_def warning_def finish_def by simp
    from bind_talk [OF w this] show ?thesis
    proof (elim disjE exE conjE)
      assume "talk t = talk s"
      then show ?thesis using talk_terminal no_requests by (intro asked_mono(2)) blast
    next
      fix y u assume u: "talk u = talk s"
        and run: "(case args of [] \<Rightarrow> usage exit_usage
          | cmd # rest \<Rightarrow> if cmd = ''version'' \<or> cmd = ''--version'' then cmd_version L else
              mbind (background ?getenv (cl_update L) (cli_checker L)) (\<lambda>_. mbind (dispatch_cmd L W cmd rest) finish)) u = (r, t)"
      have "asks {q. asked_for L args u q} u t"
      proof (cases args)
        case Nil
        then have "usage exit_usage u = (r, t)" using run by simp
        then show ?thesis by (rule asking.okD [OF asks_usage])
      next
        case (Cons cmd rest)
        show ?thesis
        proof (cases "cmd = ''version'' \<or> cmd = ''--version''")
          case True
          then have "cmd_version L u = (r, t)" using run Cons by auto
          then show ?thesis by (rule asking.okD [OF asks_version])
        next
          case False
          then have "mbind (background ?getenv (cl_update L) (cli_checker L)) (\<lambda>_. mbind (dispatch_cmd L W cmd rest) finish) u = (r, t)"
            using run Cons by simp
          from bind_talk [OF talk_run(1) this] show ?thesis
          proof (elim disjE exE conjE)
            assume "talk t = talk u"
            then show ?thesis using talk_terminal no_requests by (intro asked_mono(2)) blast
          next
            fix z v assume v: "talk v = talk u" and rest: "mbind (dispatch_cmd L W cmd rest) finish v = (r, t)"
            from rest have "asks {q. asked_for L args v q} v t"
              by (rule bind_asks) (use dispatch_asked f Cons in blast)+
            then show ?thesis using v by (rule asked_from)
          qed
        qed
      qed
      then show ?thesis using u by (rule asked_from)
    qed
  qed
qed
end
