(* ===== verification/Startup.thy ===== *)
theory Startup
  imports Relay Browsers Migrations
begin

text \<open>
  How the two processes start: \<^verbatim>\<open>vault-native\<close> (\<^verbatim>\<open>cmd/vault-native/main.go\<close>), up to the relay, and \<^verbatim>\<open>vaultd\<close>
  (\<^verbatim>\<open>cmd/vaultd/main.go\<close> with \<^verbatim>\<open>internal/infrastructure/ipc\<close>), up to the listening socket. The relay and the
  server that then run are in the theories \<open>Relay\<close> and \<open>World\<close>. Of the hardening calls to the kernel the mask
  for new files is modelled; forbidding core dumps and locking memory do not change the files.
\<close>

section \<open>The relay\<close>

definition chrome_ids :: "environment \<Rightarrow> string list" where
  "chrome_ids env = [id_extension_id (identity_for env)]"

definition production_firefox_ids :: "string list" where "production_firefox_ids = []"

text \<open>A validator is the function from the first argument to its refusal.\<close>

definition caller_validators :: "string list \<Rightarrow> string list \<Rightarrow> (string \<Rightarrow> err option) list" where
  "caller_validators chromes firefoxes = (if chromes \<noteq> [] then [chrome_validate chromes] else [])"

text \<open>\<^verbatim>\<open>run\<close>, up to the relay: the folders whose socket is relayed to.\<close>

definition native_run ::
  "'u unicode_tables_scheme \<Rightarrow> (string \<Rightarrow> string option) \<Rightarrow> err + string \<Rightarrow> string \<Rightarrow> string list \<Rightarrow> err + paths" where
  "native_run U getenv user_home version args =
     sbind (current_environment U getenv version) (\<lambda>env.
     let allowed = (case getenv ''ALBEAR_EXTENSION_IDS'' of
           Some ids \<Rightarrow> if ids \<noteq> '''' then split_on CHR '','' ids else chrome_ids env
         | None \<Rightarrow> chrome_ids env);
         candidates = caller_validators allowed production_firefox_ids;
         origin = (case args of [] \<Rightarrow> '''' | a # _ \<Rightarrow> a) in
     if candidates = [] then Inl (ErrOther ''vault-native: no caller allowlist configured'')
     else if list_ex (\<lambda>v. v origin = None) candidates then resolve_paths U getenv user_home version
     else Inl ErrOriginDenied)"

text \<open>\<^verbatim>\<open>main\<close>: the version on its output, or \<^verbatim>\<open>native.Relay\<close> on its standard streams and on the socket of
  those folders.\<close>

definition native_main ::
  "'u unicode_tables_scheme \<Rightarrow> (string \<Rightarrow> string option) \<Rightarrow> err + string \<Rightarrow> string \<Rightarrow> native_json \<Rightarrow>
   (string \<Rightarrow> err + stream) \<Rightarrow> bool \<Rightarrow> string list \<Rightarrow> (stream, err, relay option) prog" where
  "native_main U getenv user_home version J dial silent args =
     (if args \<noteq> [] \<and> hd args \<in> {''--version'', ''version''} then
        mbind (mmodify (\<lambda>s. s\<lparr>st_out := st_out s @ str_bytes (''vault-native '' @ version @ [CHR 0x0A])\<rparr>)) (\<lambda>_. mreturn None)
      else
        mbind (mlift (native_run U getenv user_home version args)) (\<lambda>p.
        mbind (relay_open J (dial (socket_path p)) silent) (\<lambda>r. mreturn (Some r))))"

lemma chrome_validate_None_iff:
  "chrome_validate allowed origin = None \<longleftrightarrow>
     (\<exists>i \<in> set allowed. length i = 32 \<and> (origin = extension_scheme @ i @ ''/'' \<or> (origin = extension_scheme @ i \<and> last i \<noteq> CHR ''/'')))"
proof
  assume a: "chrome_validate allowed origin = None"
  define i where "i = trim_slash (drop (length extension_scheme) origin)"
  from a have s: "take (length extension_scheme) origin = extension_scheme" "length i = 32" "i \<in> set allowed"
    by (auto simp: chrome_validate_def Let_def i_def split: if_splits)
  define d where "d = drop (length extension_scheme) origin"
  have o': "origin = extension_scheme @ d" using append_take_drop_id [of "length extension_scheme" origin] unfolding s(1) d_def by simp
  have "d = i @ ''/'' \<or> (d = i \<and> last i \<noteq> CHR ''/'')"
  proof (cases "d \<noteq> [] \<and> last d = CHR ''/''")
    case True
    then have "d = i @ ''/''" using append_butlast_last_id [of d] by (simp add: i_def trim_slash_def d_def)
    then show ?thesis ..
  next
    case False
    then have "i = d" by (auto simp: i_def trim_slash_def d_def)
    then show ?thesis using False s(2) by auto
  qed
  then show "\<exists>i \<in> set allowed. length i = 32 \<and> (origin = extension_scheme @ i @ ''/'' \<or> (origin = extension_scheme @ i \<and> last i \<noteq> CHR ''/''))"
    unfolding o' using s(2,3) by (intro bexI [of _ i]) auto
next
  assume "\<exists>i \<in> set allowed. length i = 32 \<and> (origin = extension_scheme @ i @ ''/'' \<or> (origin = extension_scheme @ i \<and> last i \<noteq> CHR ''/''))"
  then show "chrome_validate allowed origin = None"
    by (auto simp: chrome_validate_def Let_def trim_slash_def)
qed

lemma identity_shape:
  "length (id_extension_id (identity_for env)) = 32" "last (id_extension_id (identity_for env)) \<noteq> CHR ''/''"
  by (simp_all add: identity_for_def dev_identity_def default_identity_def chrome_extension_id_def dev_extension_id_def)

lemma chrome_ids_validate:
  "chrome_validate (chrome_ids env) origin = None \<longleftrightarrow>
     (\<exists>o' \<in> set (build_allowed_origins (id_extension_id (identity_for env))). origin = o' \<or> origin @ ''/'' = o')"
  using identity_shape [of env]
  by (auto simp: chrome_validate_None_iff chrome_ids_def build_allowed_origins_def extension_scheme_def)

lemma native_run_admits:
  assumes "getenv ''ALBEAR_EXTENSION_IDS'' \<in> {None, Some ''''}" and "current_environment U getenv version = Inr env"
    and "resolve_paths U getenv home version = Inr p"
  shows "native_run U getenv home version (origin # rest) =
      (if \<exists>o' \<in> set (build_allowed_origins (id_extension_id (identity_for env))). origin = o' \<or> origin @ ''/'' = o'
       then Inr p else Inl ErrOriginDenied) \<and>
    (\<forall>other. other \<noteq> env \<longrightarrow> origin \<in> set (build_allowed_origins (id_extension_id (identity_for other))) \<longrightarrow>
       native_run U getenv home version (origin # rest) = Inl ErrOriginDenied)"
proof -
  have "chrome_ids env \<noteq> []" by (simp add: chrome_ids_def)
  then have r: "native_run U getenv home version (origin # rest) =
      (if chrome_validate (chrome_ids env) origin = None then Inr p else Inl ErrOriginDenied)"
    using assms by (auto simp: native_run_def Let_def caller_validators_def production_firefox_ids_def)
  have "chrome_validate (chrome_ids env) origin \<noteq> None"
    if "other \<noteq> env" "origin \<in> set (build_allowed_origins (id_extension_id (identity_for other)))" for other
    unfolding chrome_ids_validate using that
    by (cases env; cases other) (auto simp: build_allowed_origins_def identity_for_def dev_identity_def default_identity_def
      chrome_extension_id_def dev_extension_id_def)
  then show ?thesis unfolding r by (auto simp: chrome_ids_validate)
qed

section \<open>The daemon\<close>

text \<open>The machine the daemon starts on: its files, the tables behind the database file, and the mask for
  files that are created without a mode of their own.\<close>

record 'd machine = fsys +
  mc_schema :: "'d mig_db"
  mc_umask :: nat

definition under_mask :: "nat \<Rightarrow> nat \<Rightarrow> nat" where
  "under_mask u mode = mode - (mode AND u)"

text \<open>\<^verbatim>\<open>unix.Umask(0o077)\<close>.\<close>

definition harden :: "('d machine, err, unit) prog" where
  "harden = mmodify (\<lambda>s. s\<lparr>mc_umask := 63\<rparr>)"

text \<open>What is not in the repository: SQLite's opening of a file, given the mask, and the rest of the start.\<close>

record 'd start_prims =
  sp_open :: "nat \<Rightarrow> string \<Rightarrow> (string \<Rightarrow> node option) \<Rightarrow> err + (string \<Rightarrow> node option)"
  sp_keys :: key_prims
  sp_migrations :: "'d mig_prims"
  sp_scripts :: "(string \<times> bytes) list"

definition open_database :: "'d start_prims \<Rightarrow> string \<Rightarrow> ('d machine, err, unit) prog" where
  "open_database B p =
     mbind fs_op (\<lambda>_.
     mbind (mget (\<lambda>s. sp_open B (mc_umask s) p (fs_nodes s))) (\<lambda>r.
     mbind (mlift r) (\<lambda>m. mmodify (\<lambda>s. s\<lparr>fs_nodes := m\<rparr>))))"

definition on_schema :: "('d mig_db, err, 'r) prog \<Rightarrow> ('d machine, err, 'r) prog" where
  "on_schema m = (\<lambda>s. case m (mc_schema s) of (r, d) \<Rightarrow> (r, s\<lparr>mc_schema := d\<rparr>))"

text \<open>\<^verbatim>\<open>net.ListenUnix\<close> makes a node for the socket, and fails where there is one; a socket is an empty file.\<close>

definition bind_socket :: "string \<Rightarrow> ('d machine, err, unit) prog" where
  "bind_socket p =
     mbind fs_op (\<lambda>_.
     mbind (mget (\<lambda>s. (fs_nodes s p = None, mc_umask s))) (\<lambda>(free, u).
     mbind (mguard free (ErrOther ''address already in use'')) (\<lambda>_.
     set_node p (Some (File (under_mask u 511) [])))))"

text \<open>\<^verbatim>\<open>ipc.Listen\<close>; a listener that is closed takes its socket with it.\<close>

definition listen_at :: "string \<Rightarrow> ('d machine, err, unit) prog" where
  "listen_at p =
     mbind (ignore_error (fs_remove p)) (\<lambda>_.
     mbind (bind_socket p) (\<lambda>_.
     mbind (attempt (fs_chmod p 384)) (\<lambda>r. case r of
       Inl e \<Rightarrow> mbind (ignore_error (fs_remove p)) (\<lambda>_. mthrow e)
     | Inr _ \<Rightarrow> mreturn ())))"

text \<open>\<^verbatim>\<open>VerifyPeer\<close>: what the kernel says of the peer, and the user of the daemon.\<close>

definition err_peer_denied :: err where "err_peer_denied = ErrOther ''ipc: peer user is not the daemon user''"

definition verify_peer :: "err + nat \<Rightarrow> nat \<Rightarrow> err option" where
  "verify_peer cred user =
     (case cred of Inl e \<Rightarrow> Some e | Inr uid \<Rightarrow> if uid \<noteq> user mod 2 ^ 32 then Some err_peer_denied else None)"

text \<open>\<^verbatim>\<open>run\<close> of the daemon, up to the server.\<close>

definition daemon_start ::
  "'u unicode_tables_scheme \<Rightarrow> (string \<Rightarrow> string option) \<Rightarrow> err + string \<Rightarrow> string \<Rightarrow> 'd start_prims \<Rightarrow>
   ('d machine, err, paths \<times> bytes \<times> bytes) prog" where
  "daemon_start U getenv user_home version B =
     mbind harden (\<lambda>_.
     mbind (mlift (resolve_paths U getenv user_home version)) (\<lambda>p.
     mbind (prepare_paths p) (\<lambda>_.
     mbind (open_database B (database_path p)) (\<lambda>_.
     mbind (fs_chmod (database_path p) 384) (\<lambda>_.
     mbind (on_schema (migrate (sp_migrations B) (sp_scripts B))) (\<lambda>_.
     mbind (load_or_create_key (sp_keys B) (static_key_path p)) (\<lambda>key.
     mbind (listen_at (socket_path p)) (\<lambda>_.
     mreturn (p, key)))))))))"

section \<open>What others can reach\<close>

text \<open>Nothing is there, or only its owner may use it.\<close>

definition owner_only :: "node \<Rightarrow> bool" where
  "owner_only n \<longleftrightarrow> (case n of Link _ \<Rightarrow> True | _ \<Rightarrow> node_mode n AND 63 = 0)"

definition closed_at :: "string \<Rightarrow> (string \<Rightarrow> node option) \<Rightarrow> bool" where
  "closed_at p m \<longleftrightarrow> (\<forall>n. follow 40 m p = Some n \<longrightarrow> owner_only n)"

text \<open>Nodes appear closed, become closed or go; none is opened and none becomes a link.\<close>

definition closer :: "node option \<Rightarrow> node option \<Rightarrow> bool" where
  "closer n n' \<longleftrightarrow> n' = n \<or> (case n' of None \<Rightarrow> True | Some (Link _) \<Rightarrow> False | Some x \<Rightarrow> owner_only x)"

definition closing :: "'a fsys_scheme \<Rightarrow> 'a fsys_scheme \<Rightarrow> bool" where
  "closing s t \<longleftrightarrow> fsys.more t = fsys.more s \<and> (\<forall>q. closer (fs_nodes s q) (fs_nodes t q))"

lemma closer_trans: "closer a b \<Longrightarrow> closer b c \<Longrightarrow> closer a c"
  by (auto simp: closer_def)

interpretation closes: effect closing
  by unfold_locales (auto simp: closing_def closer_def [of x x for x] intro: closer_trans)

lemma follow_closed:
  assumes "\<And>q. closer (m q) (m' q)" and "\<And>n. follow k m p = Some n \<Longrightarrow> owner_only n" and "follow k m' p = Some n'"
  shows "owner_only n'"
  using assms(2,3)
proof (induction k arbitrary: p)
  case 0
  then show ?case using assms(1) [of p] by (cases n') (auto simp: closer_def)
next
  case (Suc k)
  show ?case
  proof (cases "m' p = m p")
    case True
    then show ?thesis using Suc by (auto split: option.splits node.splits)
  next
    case False
    then show ?thesis using assms(1) [of p] Suc(3) by (auto simp: closer_def split: option.splits node.splits)
  qed
qed

lemma closer_closed: "(\<And>q. closer (m q) (m' q)) \<Longrightarrow> closed_at p m \<Longrightarrow> closed_at p m'"
  unfolding closed_at_def using follow_closed [of m m' 40 p] by blast

lemma closed_modes: "(384::nat) AND 63 = 0" "(448::nat) AND 63 = 0" by simp_all

lemma owner_only_simps [simp]:
  "owner_only (File m b) \<longleftrightarrow> m AND 63 = 0" "owner_only (Dir m) \<longleftrightarrow> m AND 63 = 0" "owner_only (Link q)"
  by (simp_all add: owner_only_def)

lemma chmod_at_cases: "chmod_at k mode p m q = m q \<or> (\<exists>n. m q = Some n \<and> (\<forall>x. n \<noteq> Link x) \<and> chmod_at k mode p m q = Some (with_mode mode n))"
proof (induction k arbitrary: p)
  case 0
  show ?case by (cases "m p"; cases "the (m p)") auto
next
  case (Suc k)
  show ?case using Suc by (cases "m p"; cases "the (m p)") auto
qed

lemma owner_with_mode: "mode AND 63 = 0 \<Longrightarrow> owner_only (with_mode mode n)"
  by (cases n) simp_all

lemma closer_chmod:
  assumes "mode AND 63 = 0"
  shows "closer (m q) (chmod_at k mode p m q)"
proof -
  consider "chmod_at k mode p m q = m q" | n where "\<forall>x. n \<noteq> Link x" "chmod_at k mode p m q = Some (with_mode mode n)"
    using chmod_at_cases [of k mode p m q] by blast
  then show ?thesis
  proof cases
    case (2 n)
    then show ?thesis using assms by (cases n) (simp_all add: closer_def)
  qed (simp add: closer_def)
qed

lemma closing_steps:
  "obeys closing fs_op"
  "obeys closing (set_node p None)"
  "mode AND 63 = 0 \<Longrightarrow> obeys closing (set_node p (Some (File mode b)))"
  "mode AND 63 = 0 \<Longrightarrow> obeys closing (set_node p (Some (Dir mode)))"
  by (auto simp: obeys_def closing_def closer_def fs_op_def set_node_def mmodify_eq)

lemmas closing_intros = closes.ok_intros closes.ok_attempt closing_steps

lemma closing_node: "(\<And>m b. obeys closing (f m b)) \<Longrightarrow> (\<And>m. obeys closing (g m)) \<Longrightarrow> (\<And>q. obeys closing (h q)) \<Longrightarrow>
    obeys closing (case n of File m b \<Rightarrow> f m b | Dir m \<Rightarrow> g m | Link q \<Rightarrow> h q)"
  by (cases n) auto

lemma closing_lookup: "obeys closing (fs_lookup p)" "obeys closing (fs_read p)" "obeys closing (check_private p)"
proof -
  show l: "obeys closing (fs_lookup p)" unfolding fs_lookup_def by (intro closing_intros closing_node)
  show "obeys closing (fs_read p)" "obeys closing (check_private p)"
    unfolding fs_read_def check_private_def by (intro closing_intros closing_node l)+
qed

lemma closing_chmod: "mode AND 63 = 0 \<Longrightarrow> obeys closing (fs_chmod p mode)"
proof -
  assume "mode AND 63 = 0"
  then have "obeys closing (mmodify (\<lambda>s :: 'a fsys_scheme. s\<lparr>fs_nodes := chmod_at 40 mode p (fs_nodes s)\<rparr>))"
    by (simp add: obeys_def mmodify_eq closing_def closer_chmod)
  then show ?thesis unfolding fs_chmod_def by (intro closing_intros closing_lookup)
qed

lemma closing_prepare: "obeys closing (prepare_paths p)"
proof -
  have m: "obeys closing (fs_mkdir 448 d)" for d
    unfolding fs_mkdir_def by (intro closing_intros closing_node; simp)
  show ?thesis
    unfolding prepare_paths_def fs_mkdir_all_def by (intro closing_intros m closing_chmod; simp)
qed

lemma closing_drop: "obeys closing (ignore_error (fs_remove q))"
  unfolding ignore_error_def fs_remove_def by (intro closing_intros)

lemma closing_key: "obeys closing (load_or_create_key K q)"
proof -
  have c: "obeys closing (fs_create_excl q 384)" "obeys closing (fs_write_new q 384 b)" for b
    unfolding fs_create_excl_def fs_write_new_def by (intro closing_intros; simp)+
  show ?thesis
    unfolding load_or_create_key_def decode_hex_def by (intro closing_intros closing_lookup closing_drop c)
qed

text \<open>Afterwards the path itself is closed.\<close>

lemma chmod_closes: "fs_chmod p mode s = (Inr (), t) \<Longrightarrow> mode AND 63 = 0 \<Longrightarrow> closed_at p (fs_nodes t)"
proof -
  have c: "follow k (chmod_at k mode p m) p = Some n' \<Longrightarrow> mode AND 63 = 0 \<Longrightarrow> owner_only n'" for k m n'
  proof (induction k arbitrary: p)
    case 0
    then show ?case using owner_with_mode by (cases "m p") auto
  next
    case (Suc k)
    show ?case
    proof (cases "m p")
      case None
      then show ?thesis using Suc.prems by simp
    next
      case (Some n)
      show ?thesis
      proof (cases n)
        case (Link q)
        have "chmod_at k mode q m p = Some (Link q)" using chmod_at_cases [of k mode q m p] Some Link by auto
        then show ?thesis using Suc Some Link by simp
      qed (use Suc.prems Some in auto)
    qed
  qed
  assume "fs_chmod p mode s = (Inr (), t)" "mode AND 63 = 0"
  then show ?thesis using c by (auto simp: fs_chmod_def mbind_Inr_iff fs_lookup_Inr_iff prog_simps closed_at_def)
qed

lemma prepare_closes:
  assumes "prepare_paths p s = (Inr (), t)" and "dir \<in> {pt_data p, pt_config p, pt_runtime p, client_dir p}"
  shows "closed_at dir (fs_nodes t)"
  using prepare_makes_private [OF assms] by (auto simp: closed_at_def private_node_def owner_only_def split: node.splits)

lemma key_closed:
  assumes "load_or_create_key K p s = (Inr k, t)" and "\<And>x b. kp_json K x = Inr b \<Longrightarrow> kp_un_json K b = Some x"
  shows "closed_at p (fs_nodes t)"
  using load_or_create_key_Inr [OF assms] by (auto simp: closed_at_def key_stored_def)

lemma listen_closes: "listen_at p s = (Inr (), t) \<Longrightarrow> closed_at p (fs_nodes t)"
proof -
  assume "listen_at p s = (Inr (), t)"
  then obtain v r u where c: "attempt (fs_chmod p 384) v = (Inr r, u)"
    and r: "(case r of Inl e \<Rightarrow> mbind (ignore_error (fs_remove p)) (\<lambda>_. mthrow e) | Inr x \<Rightarrow> mreturn x) u = (Inr (), t)"
    by (auto simp: listen_at_def mbind_Inr_iff)
  show ?thesis
  proof (cases r)
    case (Inl e)
    then show ?thesis using r by (auto simp: mbind_Inr_iff prog_simps)
  next
    case (Inr x)
    then show ?thesis using c r chmod_closes [of p 384 v t] by (simp add: attempt_Inr_iff mreturn_eq)
  qed
qed

section \<open>The start of the daemon\<close>

text \<open>Under the mask, nothing is opened to others.\<close>

definition shielded :: "'d machine \<Rightarrow> 'd machine \<Rightarrow> bool" where
  "shielded s t \<longleftrightarrow> (mc_umask s = 63 \<longrightarrow> mc_umask t = 63 \<and> (\<forall>q. closer (fs_nodes s q) (fs_nodes t q)))"

interpretation shields: effect shielded
  by unfold_locales (auto simp: shielded_def closer_def [of x x for x] intro: closer_trans)

lemma shielded_files:
  fixes m :: "('a machine, 'b, 'c) prog"
  shows "obeys closing m \<Longrightarrow> obeys shielded m"
proof -
  have e: "mc_umask t = mc_umask s" if "fsys.more t = fsys.more s" for s t :: "'a machine" using that by (cases s; cases t) simp
  have "shielded s t" if c: "closing s t" for s t :: "'a machine"
  proof -
    have "fsys.more t = fsys.more s" using c by (simp add: closing_def)
    from e [OF this] c show ?thesis by (simp add: closing_def shielded_def)
  qed
  then show "obeys closing m \<Longrightarrow> obeys shielded m" by (simp add: obeys_def)
qed

text \<open>What SQLite's opening does to the files: it may create some, with the mode it always asks for.\<close>

definition creates_under_mask :: "'d start_prims \<Rightarrow> bool" where
  "creates_under_mask B \<longleftrightarrow> (\<forall>u p m m' q. sp_open B u p m = Inr m' \<longrightarrow>
     m' q = m q \<or> (m q = None \<and> (\<exists>b. m' q = Some (File (under_mask u 420) b))))"

lemma under_mask_63: "under_mask 63 420 = 384" "under_mask 63 511 = 448"
  by (simp_all add: under_mask_def)

lemma shielded_open:
  fixes B :: "'a start_prims"
  assumes "creates_under_mask B"
  shows "obeys shielded (open_database B p)"
proof -
  have "shielded s (s\<lparr>fs_nodes := m\<rparr>)" if "sp_open B (mc_umask s) p (fs_nodes s) = Inr m" for s :: "'a machine" and m
    using assms that unfolding creates_under_mask_def shielded_def closer_def
    by (fastforce simp: under_mask_63)
  then have "obeys shielded (mbind (mget (\<lambda>s :: 'a machine. sp_open B (mc_umask s) p (fs_nodes s))) (\<lambda>r.
     mbind (mlift r) (\<lambda>m. mmodify (\<lambda>s. s\<lparr>fs_nodes := m\<rparr>))))"
    by (auto simp: obeys_def mbind_unfold mget_eq mlift_eq mmodify_eq shields.refl split: sum.splits)
  then show ?thesis unfolding open_database_def by (rule shields.ok_bind [OF shielded_files [OF closing_steps(1)]])
qed

lemma shielded_schema: "obeys shielded (on_schema m)"
  by (auto simp: obeys_def shielded_def closer_def on_schema_def split: prod.splits)

lemma shielded_bind: "obeys shielded (bind_socket p)"
proof -
  have b: "obeys shielded (mbind (mget (\<lambda>s. (fs_nodes s p = None, mc_umask s))) (\<lambda>(free, u).
     mbind (mguard free (ErrOther ''address already in use'')) (\<lambda>_. set_node p (Some (File (under_mask u 511) [])))))"
    by (auto simp: obeys_def mbind_unfold mget_eq mguard_eq set_node_def mmodify_eq shielded_def closer_def under_mask_63)
  show ?thesis unfolding bind_socket_def by (rule shields.ok_bind [OF shielded_files [OF closing_steps(1)] b])
qed

lemma shielded_listen: "obeys shielded (listen_at p)"
  unfolding listen_at_def
  by (intro shields.ok_intros shields.ok_attempt shielded_bind shielded_files closing_drop closing_chmod; simp)

lemma daemon_start_private:
  assumes start: "daemon_start U getenv home version B s = (Inr (p, key), t)"
    and mask: "creates_under_mask B" and json: "\<And>x b. kp_json (sp_keys B) x = Inr b \<Longrightarrow> kp_un_json (sp_keys B) b = Some x"
    and place: "place \<in> {pt_data p, pt_config p, pt_runtime p, client_dir p, database_path p, static_key_path p, socket_path p}"
  shows "closed_at place (fs_nodes t)"
proof -
  let ?s = "s\<lparr>mc_umask := 63\<rparr>"
  from start obtain s1 s2 s3 s4 s5 where steps: "prepare_paths p ?s = (Inr (), s1)" "open_database B (database_path p) s1 = (Inr (), s2)"
      "fs_chmod (database_path p) 384 s2 = (Inr (), s3)" "on_schema (migrate (sp_migrations B) (sp_scripts B)) s3 = (Inr (), s4)"
      "load_or_create_key (sp_keys B) (static_key_path p) s4 = (Inr key, s5)" "listen_at (socket_path p) s5 = (Inr (), t)"
    by (auto simp: daemon_start_def mbind_Inr_iff prog_simps harden_def)
  have r: "shielded ?s s1" "shielded s1 s2" "shielded s2 s3" "shielded s3 s4" "shielded s4 s5" "shielded s5 t"
    using shields.okD [OF shielded_files [OF closing_prepare] steps(1)] shields.okD [OF shielded_open [OF mask] steps(2)]
      shields.okD [OF shielded_files [OF closing_chmod] steps(3)] shields.okD [OF shielded_schema steps(4)]
      shields.okD [OF shielded_files [OF closing_key] steps(5)] shields.okD [OF shielded_listen steps(6)] by simp_all
  have m: "mc_umask ?s = 63" "mc_umask s1 = 63" "mc_umask s3 = 63" "mc_umask s5 = 63" using r by (simp_all add: shielded_def)
  have later: "closed_at q (fs_nodes t)" if "closed_at q (fs_nodes u)" "shielded u t" "mc_umask u = 63" for q u
    using that closer_closed [of "fs_nodes u" "fs_nodes t" q] by (simp add: shielded_def)
  have t: "shielded s1 t" "shielded s3 t" using r shields.trans by blast+
  have "closed_at q (fs_nodes t)" if "q \<in> {pt_data p, pt_config p, pt_runtime p, client_dir p}" for q
    using later [OF prepare_closes [OF steps(1) that] t(1) m(2)] .
  moreover have "closed_at (database_path p) (fs_nodes t)"
    using later [OF chmod_closes [OF steps(3)] t(2) m(3)] by simp
  moreover have "closed_at (static_key_path p) (fs_nodes t)"
    using later [OF key_closed [OF steps(5) json] r(6) m(4)] by simp
  moreover have "closed_at (socket_path p) (fs_nodes t)" by (rule listen_closes [OF steps(6)])
  ultimately show ?thesis using place by auto
qed

end
