(* ===== verification/Command_Demo.thy ===== *)
theory Command_Demo
  imports Editing Grave_Requests Startup Install_Demo
begin

text \<open>Concrete runs of the command line, at which the witnesses apply its theorems.\<close>

section \<open>A terminal\<close>

definition demo_program :: "(plain_hs, byte, bytes, bytes) cli" where
  "demo_program = \<lparr>cl_unicode = unicode_tables.truncate plain_web,
     cl_host = \<lparr>ho_getenv = [''ALBEAR_ENV'' \<mapsto> ''prod''], ho_home = Inr ''/h'', ho_linux = True, ho_exe = Inl ErrIO, ho_cwd = Inl ErrIO, ho_look_path = Inl ErrIO\<rparr>,
     cl_version = ''dev'', cl_install_source = '''', cl_noise = plain_noise, cl_cipher = plain_cipher,
     cl_hello = (\<lambda>_. Inr [7]), cl_envelopes = \<lparr>json_request = (\<lambda>_. Inl ErrIO), un_response = (\<lambda>_. None)\<rparr>,
     cl_encode = (\<lambda>_. Inr []), cl_text = (\<lambda>_. ''error''), cl_quoted = id, cl_any = (\<lambda>_. ''value''), cl_indented = (\<lambda>_. ''{}''),
     cl_update = plain_update_json, cl_crx = demo_signer, cl_lookup = demo_lookup, cl_install = demo_install_json\<rparr>"

text \<open>A terminal at which the lines are typed; the daemon answers the handshake when it is up.\<close>

definition demo_console :: "bool \<Rightarrow> string list \<Rightarrow> byte console" where
  "demo_console up typed = \<lparr>fs_nodes = Map.empty, fs_ok = (\<lambda>_. False), fs_part = (\<lambda>_. 0), fs_pos = 0,
     on_clock = int \<circ> Suc, on_ticks = 0, on_replies = (\<lambda>_. Inl ErrIO), on_requests = [],
     co_tty = True, co_input = typed, co_out = [], co_err = [], co_tmp_names = (\<lambda>_. ''1''), co_tmp_count = 0,
     co_nets = (\<lambda>_ _. if up then Inr (stream_of (frame [1, 5])) else Inl ErrIO), co_keys = (\<lambda>_. Inr ([9], [])), co_dials = 0,
     co_client = client_of (new_half 0) (new_half 0) (stream_of []), co_requests = []\<rparr>"

lemma demo_environment: "current_environment (cl_unicode demo_program) (ho_getenv (cl_host demo_program)) (cl_version demo_program) = Inr Prod"
  by (simp add: demo_program_def current_environment_def env_var_def parse_environment_def)

lemma demo_folders: "\<exists>p. cli_paths demo_program = Inr p"
  using demo_environment by (simp add: cli_paths_def resolve_paths_def) (simp add: demo_program_def)

text \<open>The handshake of the command line with the daemon of the relay's example.\<close>

lemma demo_dials:
  "\<exists>c. dial_cli plain_noise (\<lambda>_. Inr [7]) (Inr (stream_of (frame [1, 5]))) (Inr ([9], [])) = Inr c"
proof -
  obtain t where t: "client_handshake plain_noise (\<lambda>_. Inr [7]) ([9], []) demo_hello None (Some [5]) (stream_of (frame [1, 5])) =
      (Inr (new_half 0, new_half 100, [5]), t)" using demo_greets by blast
  then have "client_handshake plain_noise (\<lambda>_. Inr [7]) ([9], []) h None None (stream_of (frame [1, 5])) =
      (Inr (new_half 0, new_half 100, [5]), t)" for h
    by (auto simp: client_handshake_def mbind_Inr_iff Let_def prog_simps split: if_splits prod.splits)
  then show ?thesis by (simp add: dial_cli_def dial_def)
qed

lemma demo_connects:
  assumes "co_nets s = co_nets (demo_console True [])" and "co_keys s = co_keys (demo_console True [])"
  shows "\<exists>c. connect demo_program s = (Inr None, s\<lparr>co_dials := Suc (co_dials s), co_client := c\<rparr>)"
proof -
  obtain p where p: "cli_paths demo_program = Inr p" using demo_folders by blast
  obtain c where c: "dial_cli plain_noise (\<lambda>_. Inr [7]) (Inr (stream_of (frame [1, 5]))) (Inr ([9], [])) = Inr c"
    using demo_dials by blast
  then show ?thesis
    using p assms by (intro exI [of _ c]) (simp add: connect_def Let_def demo_program_def demo_console_def)
qed

text \<open>The request is made, and its failure ends the command.\<close>

lemma demo_calls:
  assumes "co_nets s = co_nets (demo_console True [])" and "co_keys s = co_keys (demo_console True [])"
  shows "\<exists>t. call_or_fail demo_program oper (Some payload) no_output k s = (Inr exit_internal, t) \<and>
    co_requests t = co_requests s @ [(oper, Some payload)]"
proof -
  obtain c where c: "connect demo_program s = (Inr None, s\<lparr>co_dials := Suc (co_dials s), co_client := c\<rparr>)"
    using demo_connects [OF assms] by blast
  have r: "request demo_program oper (Some payload) no_output u =
      (Inl ErrIO, u\<lparr>co_client := (co_client u)\<lparr>ct_counter := ct_counter (co_client u) + 1\<rparr>, co_requests := co_requests u @ [(oper, Some payload)]\<rparr>)" for u
    by (simp add: request_def client_call_def demo_program_def mbind_unfold mmodify_eq mget_eq mlift_eq)
  show ?thesis
    by (simp add: call_or_fail_def call_def mbind_unfold c attempt_def r mreturn_eq cli_fail_def warn_exit_def warn_def mmodify_eq
        exit_code_for_def err_unavailable_def)
qed

section \<open>A vault is destroyed\<close>

definition demo_decoders :: decoders where
  "demo_decoders = \<lparr>un_status = (\<lambda>_. None), un_text = (\<lambda>_ _. None), un_views = (\<lambda>_. None), un_shown = (\<lambda>_. None),
     un_map = (\<lambda>_. None), un_clients = (\<lambda>_. None), un_pending = (\<lambda>_. None), un_backup = (\<lambda>_. None), un_events = (\<lambda>_. None)\<rparr>"

lemma demo_phrase: "trim_space (cl_unicode L) destroy_phrase = destroy_phrase"
  by (rule trim_space_ascii) (simp_all add: destroy_phrase_def ascii_def is_space_def)

lemma demo_destroys:
  "\<exists>t. cmd_destroy demo_program (demo_console True [''secret'', destroy_phrase]\<lparr>fs_pos := n\<rparr>) = (Inr exit_internal, t) \<and>
     co_requests t = [(''vault.destroy'', Some [(''password'', JStr ''secret'')])]"
proof -
  have "\<exists>t. call_or_fail demo_program ''vault.destroy'' (Some [(''password'', JStr ''secret'')]) no_output
        (\<lambda>_. say_exit ''vault destroyed'' exit_ok) u = (Inr exit_internal, t) \<and>
      co_requests t = [(''vault.destroy'', Some [(''password'', JStr ''secret'')])]"
    if "co_nets u = co_nets (demo_console True [])" "co_keys u = co_keys (demo_console True [])" "co_requests u = []" for u
    using demo_calls [OF that(1,2)] that(3) by fastforce
  then show ?thesis
    by (simp add: cmd_destroy_def mbind_unfold mget_eq say_def warn_def mmodify_eq password_or_fail_def read_password_def attempt_def
        take_line_def mreturn_eq prompt_line_def demo_phrase demo_console_def)
qed

lemma demo_background:
  assumes "\<And>n. \<not> fs_ok s n"
  shows "\<exists>n. background (ho_getenv (cl_host demo_program)) (cl_update demo_program) (cli_checker demo_program) (s :: byte console) =
    (Inr (), s\<lparr>fs_pos := n\<rparr>)"
  using assms
  by (auto simp: background_def read_cache_def mbind_unfold attempt_def fs_read_def fs_lookup_def fs_op_def mreturn_eq enabled_def
      cli_checker_def new_checker_def demo_program_def)

lemma demo_run:
  "\<exists>t. run_cli demo_program demo_decoders [''destroy''] (demo_console True [''secret'', destroy_phrase]) = (Inr exit_internal, t) \<and>
     co_requests t = [(''vault.destroy'', Some [(''password'', JStr ''secret'')])]"
proof -
  let ?s = "demo_console True [''secret'', destroy_phrase]"
  obtain n where b: "background (ho_getenv (cl_host demo_program)) (cl_update demo_program) (cli_checker demo_program) ?s =
      (Inr (), ?s\<lparr>fs_pos := n\<rparr>)"
    using demo_background [of ?s] by (auto simp: demo_console_def)
  obtain t where t: "cmd_destroy demo_program (?s\<lparr>fs_pos := n\<rparr>) = (Inr exit_internal, t)"
      "co_requests t = [(''vault.destroy'', Some [(''password'', JStr ''secret'')])]"
    using demo_destroys by blast
  have "dispatch_cmd demo_program demo_decoders ''destroy'' [] = cmd_destroy demo_program" by (simp add: dispatch_cmd_def)
  then have "run_cli demo_program demo_decoders [''destroy''] ?s = (Inr exit_internal, t)"
    by (simp add: run_cli_def demo_environment mbind_unfold mreturn_eq b t Let_def exit_codes)
  then show ?thesis using t(2) by blast
qed

section \<open>The daemon is down\<close>

lemma demo_down: "dial_cli (cl_noise demo_program) (cl_hello demo_program) (co_nets (demo_console False typed) path n) (co_keys (demo_console False typed) n) = Inl err_unavailable"
  by (simp add: demo_console_def demo_program_def dial_cli_def dial_def)

section \<open>A start of the daemon\<close>

definition demo_start :: "bytes start_prims" where
  "demo_start = \<lparr>sp_open = (\<lambda>u p m. Inr (if m p = None then m(p \<mapsto> File (under_mask u 420) []) else m)),
     sp_keys = demo_keys, sp_migrations = demo_mig_prims, sp_scripts = demo_scripts\<rparr>"

definition demo_machine :: "bytes machine" where
  "demo_machine = \<lparr>fs_nodes = [''/'' \<mapsto> Dir 493], fs_ok = (\<lambda>_. True), fs_part = (\<lambda>_. 0), fs_pos = 0,
     mc_schema = demo_mig_db, mc_umask = 18\<rparr>"

definition demo_getenv :: "string \<Rightarrow> string option" where
  "demo_getenv = [''ALBEAR_ENV'' \<mapsto> ''prod'', ''XDG_DATA_HOME'' \<mapsto> ''/d'', ''XDG_CONFIG_HOME'' \<mapsto> ''/c'', ''XDG_RUNTIME_DIR'' \<mapsto> ''/r'']"

definition demo_places :: paths where
  "demo_places = \<lparr>pt_env = Prod, pt_data = ''/d/albear'', pt_config = ''/c/albear'', pt_runtime = ''/r/albear''\<rparr>"

lemma demo_start_masked: "creates_under_mask demo_start"
  by (auto simp: creates_under_mask_def demo_start_def split: if_splits)

lemma demo_resolved: "resolve_paths U demo_getenv (Inr ''/h'') ''dev'' = Inr demo_places"
  by (simp add: resolve_paths_def current_environment_def demo_getenv_def env_var_def parse_environment_def paths_in_def env_or_def
      demo_places_def dir_name_def path_join_def clean_path_def path_parts_def is_rooted_def Let_def)

lemma demo_place_names:
  "client_dir demo_places = ''/c/albear/clients''" "database_path demo_places = ''/d/albear/vault.db''"
  "static_key_path demo_places = ''/c/albear/daemon.key''" "socket_path demo_places = ''/r/albear/vault.sock''"
  by (simp_all add: client_dir_def database_path_def static_key_path_def socket_path_def demo_places_def path_join_def clean_path_def
      path_parts_def is_rooted_def)

lemma demo_prepared:
  "\<exists>t. prepare_paths demo_places (demo_machine\<lparr>mc_umask := 63\<rparr>) = (Inr (), t) \<and> fs_ok t = (\<lambda>_. True) \<and> mc_schema t = demo_mig_db \<and>
     fs_nodes t ''/d/albear/vault.db'' = None \<and> fs_nodes t ''/c/albear/daemon.key'' = None \<and> fs_nodes t ''/r/albear/vault.sock'' = None"
  unfolding prepare_paths_def demo_place_names
  by (simp add: demo_places_def fs_mkdir_all_def way_to_def mbind_unfold demo_machine_def mkdir_works mkdir_present chmod_works mreturn_eq)

lemma chmod_file_works:
  assumes "\<And>n. fs_ok s n" and "fs_nodes s p = Some (File m b)"
  shows "fs_chmod p mode s = (Inr (), s\<lparr>fs_pos := Suc (fs_pos s), fs_nodes := (fs_nodes s)(p \<mapsto> File mode b)\<rparr>)"
proof -
  have "chmod_at k mode p (fs_nodes s) = (fs_nodes s)(p \<mapsto> File mode b)" for k using assms(2) by (cases k) simp_all
  then show ?thesis
    using assms by (simp add: fs_chmod_def fs_lookup_def mbind_unfold fs_op_def mget_eq follow_plain mreturn_eq mmodify_eq)
qed

lemma demo_key_made:
  assumes "fs_ok s = (\<lambda>_. True)" and "fs_nodes s p = None"
  shows "\<exists>t. load_or_create_key demo_keys p s = (Inr ([7], [8]), t) \<and> fs_ok t = fs_ok s \<and> (\<forall>q. q \<noteq> p \<longrightarrow> fs_nodes t q = fs_nodes s q)"
  using assms
  by (simp add: load_or_create_key_def mbind_unfold attempt_def fs_read_def fs_lookup_def fs_op_def mget_eq mthrow_eq mguard_eq mlift_eq mreturn_eq
      follow_none err_not_exist_def demo_keys_def fs_create_excl_def set_node_def mmodify_eq fs_write_new_def hex_encode_def)

lemma demo_listens:
  assumes "fs_ok s = (\<lambda>_. True)"
  shows "\<exists>t. listen_at p s = (Inr (), t)"
proof -
  let ?u = "s\<lparr>fs_pos := Suc (Suc (fs_pos s)), fs_nodes := (fs_nodes s)(p \<mapsto> File (under_mask (mc_umask s) 511) [])\<rparr>"
  have "fs_chmod p 384 ?u = (Inr (), ?u\<lparr>fs_pos := Suc (fs_pos ?u), fs_nodes := (fs_nodes ?u)(p \<mapsto> File 384 [])\<rparr>)"
    by (rule chmod_file_works) (simp_all add: assms)
  then show ?thesis
    using assms
    by (simp add: listen_at_def bind_socket_def ignore_error_def fs_remove_def mbind_unfold attempt_def fs_op_def set_node_def mmodify_eq
        mget_eq mguard_eq mreturn_eq)
qed

lemma demo_starts:
  "\<exists>t. daemon_start U demo_getenv (Inr ''/h'') ''dev'' demo_start demo_machine = (Inr (demo_places, [7], [8]), t)"
proof -
  obtain s1 where s1: "prepare_paths demo_places (demo_machine\<lparr>mc_umask := 63\<rparr>) = (Inr (), s1)" "fs_ok s1 = (\<lambda>_. True)"
    "mc_schema s1 = demo_mig_db" "fs_nodes s1 ''/d/albear/vault.db'' = None" "fs_nodes s1 ''/c/albear/daemon.key'' = None"
    using demo_prepared by blast
  define s2 where "s2 = s1\<lparr>fs_pos := Suc (fs_pos s1), fs_nodes := (fs_nodes s1)(''/d/albear/vault.db'' \<mapsto> File (under_mask (mc_umask s1) 420) [])\<rparr>"
  have 2: "open_database demo_start ''/d/albear/vault.db'' s1 = (Inr (), s2)"
    using s1 by (simp add: open_database_def mbind_unfold fs_op_def mget_eq mlift_eq mmodify_eq demo_start_def s2_def)
  define s3 where "s3 = s2\<lparr>fs_pos := Suc (fs_pos s2), fs_nodes := (fs_nodes s2)(''/d/albear/vault.db'' \<mapsto> File 384 [])\<rparr>"
  have 3: "fs_chmod ''/d/albear/vault.db'' 384 s2 = (Inr (), s3)"
    unfolding s3_def by (rule chmod_file_works) (simp_all add: s2_def s1(2))
  obtain d where "migrate demo_mig_prims demo_scripts demo_mig_db = (Inr (), d)" using demo_migrates by blast
  then have 4: "on_schema (migrate (sp_migrations demo_start) (sp_scripts demo_start)) s3 = (Inr (), s3\<lparr>mc_schema := d\<rparr>)"
    by (simp add: on_schema_def demo_start_def s3_def s2_def s1(3))
  obtain s5 where 5: "load_or_create_key demo_keys ''/c/albear/daemon.key'' (s3\<lparr>mc_schema := d\<rparr>) = (Inr ([7], [8]), s5)" "fs_ok s5 = (\<lambda>_. True)"
    using demo_key_made [of "s3\<lparr>mc_schema := d\<rparr>" "''/c/albear/daemon.key''"] by (auto simp: s3_def s2_def s1)
  obtain t where 6: "listen_at ''/r/albear/vault.sock'' s5 = (Inr (), t)" using demo_listens [OF 5(2)] by blast
  have k: "sp_keys demo_start = demo_keys" by (simp add: demo_start_def)
  show ?thesis
    by (simp add: daemon_start_def mbind_unfold harden_def mmodify_eq mlift_eq demo_resolved s1(1) demo_place_names 2 3 4 k 5(1) 6 mreturn_eq)
qed

end
