(* ===== verification/Spec2Isabelle.thy ===== *)
theory Spec2Isabelle
  imports Catalog_Spec Samples Password Service_Demo Relay Client_Demo Install_Demo Updates Migrations Packing Command_Demo
begin

text \<open>
  albear is a password manager for one user of a Linux machine. A daemon, \<^verbatim>\<open>vaultd\<close>, is the only owner
  of an encrypted database; the command line talks to it over a Unix socket, the browser extension
  through the relay \<^verbatim>\<open>vault-native\<close>, both over Noise-encrypted connections. This development models the
  Go implementation under \<^verbatim>\<open>src/internal\<close> and \<^verbatim>\<open>src/cmd\<close>: definitions translate its types and functions, one group per
  component and in the order of the code, and the theorems below state what each component promises.
  All paths in the theories are relative to \<^verbatim>\<open>src\<close>.

  \<^bold>\<open>How the program is rendered.\<close> A Go struct is a record, an enumeration a datatype, \<^verbatim>\<open>uint32\<close>, \<^verbatim>\<open>uint64\<close>
  and \<^verbatim>\<open>int64\<close> are words that wrap around, byte slices are lists of bytes, strings lists of characters
  (bytes, as in Go), times and durations integers in nanoseconds. A function with effects is a program
  of type \<open>('s, 'e, 'a) prog\<close>: it maps a state to an error or a result and the next state
  (theory \<open>Prelude\<close>). Errors are the datatype \<open>err\<close>; \<open>Panic\<close> is a run-time panic, so code that would
  panic does so in the model. A Go map is an association list, in which the order of iteration is the
  order of the list. Environments supply what the code cannot compute: the clock \<open>now\<close>, the streams of
  random bytes \<open>rnd\<close>, and for every access to the database, a file or a stream whether it fails
  (\<open>io_ok\<close>, \<open>fs_ok\<close>, \<open>st_cut\<close>), so every error path is a branch that some environment takes. Records
  extend each other along the layers: the database, the vault service, the index, the sessions and
  pairings, the connection make up the state \<open>dstate\<close> of the daemon.

  \<^bold>\<open>Libraries.\<close> What is not in the repository is an argument: the primitives of \<^verbatim>\<open>x/crypto\<close> and the
  standard library (\<open>crypto_prims\<close>), \<^verbatim>\<open>encoding/json\<close> (\<open>json\<close>, \<open>wire\<close> and their siblings), \<^verbatim>\<open>net/url\<close>,
  IDNA and the public-suffix list (\<open>web\<close>), the tables of \<^verbatim>\<open>unicode\<close>, the Noise library
  (\<open>noise_prims\<close>, \<open>cipher_prims\<close>), RSA and x509 (\<open>crx_prims\<close>), SQLite's treatment of the bytes of a file
  and of scripts. Where a theorem relies on documented behaviour, that an AEAD opens what it sealed or
  that decoding inverts encoding, it is a named hypothesis (\<open>aead_correct\<close>, \<open>json_faithful\<close>,
  \<open>noise_agrees\<close>), and a concrete instance satisfies it in the witness of the theorem. What the code
  uses of the language's own library is written out: UTF-8, base64, hexadecimal, varints, \<^verbatim>\<open>strconv.Atoi\<close>,
  \<^verbatim>\<open>filepath.Clean\<close>, \<^verbatim>\<open>io.ReadFull\<close>, the file operations of \<^verbatim>\<open>os\<close>.

  \<^bold>\<open>The theories.\<close>
  \<^item> \<open>Prelude\<close>: programs, the locale \<open>effect\<close> of relations that programs respect (invariants, fields that
    stay, fields that only grow) with its closure rules, encodings of integers, the locale \<open>prefix_code\<close>,
    association lists. \<open>Shared\<close>: \<^verbatim>\<open>internal/shared/domain\<close>. \<open>Text\<close>: UTF-8 and character classes.
  \<^item> \<open>Crypto\<close>: \<^verbatim>\<open>internal/infrastructure/crypto\<close>: checks of arguments, key separation, associated data; the
    associated data of two places differ. \<open>Store\<close>: \<^verbatim>\<open>internal/infrastructure/sqlite\<close>: the tables with keys and
    CHECK constraints, every command and query, transactions. \<open>Migrations\<close>: \<^verbatim>\<open>migrations.go\<close>.
  \<^item> \<open>Catalog\<close>: \<^verbatim>\<open>internal/catalog\<close>: the root over rows, its counter, and that the serialisation is
    injective on what it covers. \<open>Vault\<close>: \<^verbatim>\<open>internal/vault\<close>: envelopes, unlocking with its back-off, locking,
    change of the password, reset; the keys are present exactly while the vault is unlocked. \<open>Password\<close>:
    the strength policy. \<open>Index\<close>, \<open>Origin\<close>, \<open>Secret_Record\<close>, \<open>Records\<close>, \<open>Generate\<close>: \<^verbatim>\<open>internal/records\<close>: the
    codec, the index and its queries, the commands, the password generator.
  \<^item> \<open>Atomic\<close>: failed operations have changed nothing. \<open>History\<close>: histories of operations, the index as the
    image of the rows, attempts to unlock. \<open>Catalog_Spec\<close>: the record catalog as a map, and the simulation.
  \<^item> \<open>Capability\<close>, \<open>Access\<close>: \<^verbatim>\<open>internal/access\<close>. \<open>Events\<close>: \<^verbatim>\<open>internal/security\<close>. \<open>Backup\<close>: \<^verbatim>\<open>internal/backup\<close>
    and the file operations of the store. \<open>Protocol\<close>: \<^verbatim>\<open>internal/adapters/protocol\<close>. \<open>Wire\<close>, \<open>Daemon\<close>: the
    payloads, admission, authorisation and all operations of \<^verbatim>\<open>internal/daemon\<close>.
  \<^item> \<open>Frames\<close>: the locales \<open>service_effect\<close> and \<open>file_effect\<close>: a relation that the primitive steps respect is
    respected by every operation of the daemon. \<open>Daemon_Inv\<close> and \<open>Serving\<close> interpret them for the
    invariants; \<open>World\<close>: a started daemon with its connections as a transition system, whose reachable
    states keep them. \<open>Requests\<close>, \<open>Operations\<close>, \<open>Outcomes\<close>: what answers, refusals and single operations mean.
  \<^item> \<open>Transport\<close>: frames, connections and the handshake of \<^verbatim>\<open>internal/infrastructure/transport/noise\<close>. \<open>Native\<close>,
    \<open>Relay\<close>: \<^verbatim>\<open>internal/native\<close>, the two pumps as a step relation. \<open>Client\<close>: \<^verbatim>\<open>internal/client\<close> and the round of the
    daemon that answers a call.
  \<^item> \<open>Versions\<close>: \<^verbatim>\<open>internal/version\<close>, with the comparison of versions against an order by keys, and a matcher by
    derivatives for the one regular expression. \<open>Paths\<close>: \<^verbatim>\<open>internal/infrastructure/system\<close> over a file system of
    files, folders and links. \<open>Files\<close>: further file operations. \<open>Extension\<close>: \<^verbatim>\<open>internal/crx\<close>. \<open>Packing\<close>: the tool
    \<^verbatim>\<open>tools/crxpack\<close> that signs a folder or says what a package is. \<open>Updates\<close>:
    \<^verbatim>\<open>internal/update\<close>. \<open>Browsers\<close>, \<open>Install\<close>: \<^verbatim>\<open>internal/install\<close>.
  \<^item> \<open>Startup\<close>: the main functions of \<^verbatim>\<open>cmd/vault-native\<close>, up to the relay, and of \<^verbatim>\<open>cmd/vaultd\<close> with
    \<^verbatim>\<open>internal/infrastructure/ipc\<close>, up to the listening socket; the end of the daemon is in \<open>World\<close>.
  \<^item> \<open>Flags\<close>: what \<^verbatim>\<open>cmd/vault\<close> uses of the package \<^verbatim>\<open>flag\<close>, and \<^verbatim>\<open>parseAnywhere\<close>, which is parsing the flags that
    stand alone apart from the rest. \<open>Console\<close>: exit codes, the connection, single requests, prompts.
    \<open>Commands\<close>, \<open>Command_Line\<close>: every command of \<^verbatim>\<open>cmd/vault/main.go\<close> and a run from the arguments to the exit
    code, as programs over a terminal that keeps the requests in order. \<open>Requests_Made\<close>, \<open>Grave_Requests\<close>:
    which requests a command makes, and what precedes the grave ones. \<open>Editing\<close>: what an edit sends
    back of what it was shown, through the structs of both sides.
  \<^item> \<open>Progress\<close>: on a healthy environment the operations run through. \<open>Scenario\<close>, \<open>Samples\<close>, \<open>Demo\<close>,
    \<open>Demo_Runs\<close>, \<open>Service_Demo\<close>, \<open>Client_Demo\<close>, \<open>Install_Demo\<close>, \<open>Command_Demo\<close>: concrete runs, on transparent primitives, at
    which the witnesses apply the theorems.

  \<^bold>\<open>What the theorems show.\<close> Of the vault: a created vault unlocks, an unlock is sound, guessing is slowed
  down but never locks the owner out for more than a minute, a change of the password keeps the root
  key, failed operations change nothing. Of the stored state: the recorded root covers the rows, its
  counter rises, a ciphertext opens only in its place. Of the records: they implement a map, the index
  mirrors them, secrets are revealed only to their pages. Of the daemon: positive answers were
  authorised, refusals change nothing, paired clients never administrate, locking and revocation take
  effect, and reachable states are consistent. Of backups: they verify, parsing never panics, a
  restore keeps the old database. Of the transport: both sides finish together, messages arrive in
  order, calls are answered by the handler, the relay serves its extension only, keeps the command line's
  mode out and ends. Of the command line: grave requests follow what was asked of the user, an edit
  keeps what it does not change but for two fields, and which code an unreachable daemon gives. Of the
  surroundings: a started daemon is private, migrations, folders, the static key, packages, versions, the update check and the
  installation. A few theorems record behaviour that differs from what a comment says.

  \<^bold>\<open>Bounds and fuel.\<close> Loops are structural recursion or \<open>function\<close>s with a measure. Fuel appears in two
  places: the resolution of symbolic links stops after 40, as the kernel does, and the search for a
  free temporary name after 10000 attempts, as \<^verbatim>\<open>os.CreateTemp\<close> does; in both the limit is the
  behaviour of the code and running into it is its error. The relay, which may run for ever, is a
  step relation; that it ends once the streams do is a theorem.

  \<^bold>\<open>Interleaving.\<close> A request runs as one step of the daemon, as do building a connection and a check of
  the idle lock: between two steps of one connection those of others may come. Handlers are not
  interleaved with each other inside a request; the mutexes of the services give this for
  single operations, and for a request of several it is an assumption. The refresh of the update
  check is a step that ends before the notice, which waits for it.

  \<^bold>\<open>Not modelled.\<close> What only concerns the kernel (signals, forbidding core dumps, locking memory, asking
  for the credentials of a peer, of which the answer is an argument); goroutines, the listener's loop and
  logging of the daemon; the texts the package \<^verbatim>\<open>flag\<close> prints of its own; the generator of test
  vectors, \<^verbatim>\<open>tools/noisevectors\<close>; the generated interfaces of the database layer; the clock and the wrapper that redacts a secret
  when printed; the bytes of ZIP archives and PEM files, which the standard library writes and reads; wiping
  of memory; and the clients in TypeScript.
\<close>

section \<open>The vault\<close>

text \<open>C1: A vault that was just created unlocks with the password it was created with: the keys are
  present, the vault counts as unlocked and the database is untouched.\<close>

theorem created_vault_unlocks:
  assumes "aead_correct P" and "vault_init P pw params s = (Inr (), t)"
    and "next_unlock_at s \<le> now s" and "\<And>n. io_ok s n" and "db_open s"
  shows "\<exists>u. unlock P pw t = (Inr (), u) \<and> is_unlocked (vault u) \<and> keyring u \<noteq> None \<and> db u = db t"
  by (rule init_then_unlock [OF assms])

theorem created_vault_unlocks_witness:
  "\<exists>u. vault_init plain_prims old_password default_kdf_params demo_boot = (Inr (), demo_init) \<and>
     unlock plain_prims old_password demo_init = (Inr (), u) \<and> keyring u \<noteq> None"
  using created_vault_unlocks [OF plain_prims_correct demo_init_runs demo_boot_healthy(3,2,1)] demo_init_runs by blast

text \<open>C2: An unlock that succeeds was not rate limited, found the envelope of the active version, opened
  it with the password, verified the canary, and holds exactly the subkeys of the root key it found
  there, with the failure counter reset.\<close>

theorem unlock_sound:
  assumes "unlock P pw s = (Inr (), t)"
  shows "next_unlock_at s \<le> now s \<and> failed_unlocks t = 0 \<and> is_unlocked (vault t) \<and> db t = db s \<and>
    (\<exists>e rk kr. active_envelope (vault t) (db t) = Some e \<and> envelope_opens P pw (v_id (vault t)) e rk \<and>
       root_key t = Some rk \<and> keyring t = Some kr \<and> derive_keyring P rk = Inr kr)"
proof -
  from unlock_Inr [OF assms] obtain u e rk kr where u: "\<not> now s < next_unlock_at s" "load_vault s = (Inr (), u)"
    "active_envelope (vault u) (db s) = Some e" "envelope_opens P pw (v_id (vault u)) e rk"
    "derive_keyring P rk = Inr kr" "t = open_vault rk kr (u\<lparr>io_pos := Suc (io_pos u)\<rparr>)" by blast
  have "db u = db s" by (rule load_vault_db [OF u(2)])
  then show ?thesis using u by (auto simp: open_vault_def agg_unlock_def is_unlocked_def active_envelope_def)
qed

theorem unlock_sound_witness:
  "unlock plain_prims old_password demo_init = (Inr (), demo_open) \<and> failed_unlocks demo_open = 0 \<and> is_unlocked (vault demo_open)"
  using unlock_sound [OF demo_open_runs] demo_open_runs by blast

text \<open>C3: A refused unlock has counted the failure and set the earliest time of the next attempt by the
  schedule; it discloses no key and writes nothing. Until that time every attempt is refused without
  being looked at, with the right password too. The delay grows with the failures and is at most a
  minute.\<close>

theorem unlock_backoff:
  assumes "unlock P pw s = (Inl ErrAuthenticationFail, t)"
  shows "failed_unlocks t = Suc (failed_unlocks s) \<and> keyring t = keyring s \<and> root_key t = root_key s \<and> db t = db s \<and>
    (\<forall>pw' c. c < now s + unlock_delay (Suc (failed_unlocks s)) \<longrightarrow>
       unlock P pw' (t\<lparr>now := c\<rparr>) = (Inl ErrRateLimited, t\<lparr>now := c\<rparr>)) \<and>
    unlock_delay (failed_unlocks s) \<le> unlock_delay (failed_unlocks t) \<and> unlock_delay (failed_unlocks t) \<le> 60 * 1000000000"
  using unlock_refused [OF assms] unlock_delay_mono unlock_delay_bounds by (auto intro!: unlock_too_early)

theorem unlock_backoff_witness:
  "\<exists>t. unlock plain_prims new_password demo_init = (Inl ErrAuthenticationFail, t) \<and> failed_unlocks t = Suc (failed_unlocks demo_init)"
proof -
  obtain t where t: "unlock plain_prims new_password demo_init = (Inl ErrAuthenticationFail, t)" using demo_refused by blast
  with unlock_backoff [OF t] show ?thesis by blast
qed



text \<open>C5: A change of the master password leaves the vault locked, the records and clients as they were,
  no envelope of the old version, and the vault opens with the new password to the same root key that
  the old password gave.\<close>

theorem password_change:
  assumes "aead_correct P" and "change_master_password P pw pw' params s = (Inr (), t)"
    and "loaded s" and "next_unlock_at s \<le> now s" and "\<And>n. io_ok s n" and "db_open s"
  shows "locked_inv t \<and> t_records (db t) = t_records (db s) \<and> t_clients (db t) = t_clients (db s) \<and>
    pk_find er_envelope_version (ucast (v_active_envelope_version (vault s))) (t_envelopes (db t)) = None \<and>
    (\<exists>e kek rk u. active_envelope (vault s) (db s) = Some e \<and> row_kek P pw e = Inr kek \<and>
       unwrap_root P kek (v_id (vault s)) (v_active_envelope_version (vault s)) e = Inr rk \<and>
       unlock P pw' t = (Inr (), u) \<and> root_key u = Some rk)"
proof -
  have lv: "load_vault s = (Inr (), u) \<longleftrightarrow> u = s" for u using load_vault_loaded [OF assms(3)] by auto
  from change_master_password_Inr [OF assms(1,2)] lv obtain e kek rk e' where
    c: "active_envelope (vault s) (db s) = Some e" "row_kek P pw e = Inr kek"
    "unwrap_root P kek (v_id (vault s)) (v_active_envelope_version (vault s)) e = Inr rk"
    "active_envelope (vault t) (db t) = Some e'" "envelope_opens P pw' (v_id (vault t)) e' rk"
    "pk_find er_envelope_version (ucast (v_active_envelope_version (vault s))) (t_envelopes (db t)) = None"
    "t_records (db t) = t_records (db s)" "t_clients (db t) = t_clients (db s)" "locked_inv t" "loaded t"
    "env_fixed t = env_fixed s" "next_unlock_at t = next_unlock_at s" by metis
  have "\<not> now t < next_unlock_at t" "db_open t" "io_ok t (io_pos t)"
    using c(11,12) assms(4-6) by (simp_all add: env_fixed_def)
  from unlock_succeeds [OF this(1) load_vault_loaded [OF c(10)] this(2,3) c(4,5)]
  obtain kr where "unlock P pw' t = (Inr (), open_vault rk kr (t\<lparr>io_pos := Suc (io_pos t)\<rparr>))" by blast
  then have "\<exists>u. unlock P pw' t = (Inr (), u) \<and> root_key u = Some rk" by (simp add: open_vault_def)
  with c show ?thesis by blast
qed

theorem password_change_witness:
  "change_master_password plain_prims old_password new_password default_kdf_params demo_store = (Inr (), demo_change) \<and>
   locked_inv demo_change \<and> (\<exists>u. unlock plain_prims new_password demo_change = (Inr (), u))"
proof -
  have e: "loaded demo_store" "env_fixed demo_store = env_fixed demo_boot" by (rule demo_store_state, assumption)+
  have z: "next_unlock_at demo_store = zero_time"
    using same_okD [OF create_unlock_time demo_store_runs] demo_open_state by metis
  have "next_unlock_at demo_store \<le> now demo_store" "\<And>n. io_ok demo_store n" "db_open demo_store"
    using e z demo_boot_healthy by (simp_all add: env_fixed_def demo_boot_def boot_def zero_time_def)
  from password_change [OF plain_prims_correct demo_change_runs e(1) this] show ?thesis using demo_change_runs by blast
qed

text \<open>C6: The mutating operations of the vault and of the record catalog are failure atomic: when one
  reports an error, the database and the index are what they were.\<close>

theorem operations_are_atomic:
  "atomic (vault_init P pw params) \<and> atomic (change_master_password P pw pw' params) \<and>
   atomic (create_record P J W ty meta sec) \<and> atomic (update_record_op P J W i n meta sec) \<and>
   atomic (delete_record_op P W i)"
  by (intro conjI atomic_init atomic_change_password atomic_create atomic_update atomic_delete)

section \<open>The vault-state root\<close>

text \<open>What an unlocked service learns from a check of the vault state: the database carries the root
  of its rows under the key of this vault and is not behind the highest counter this process has seen,
  or there was no root yet and the check has just written the right one.\<close>

theorem checked_catalog_is_anchored:
  assumes "verify_catalog P s = (Inr fresh, t)"
  shows "\<exists>kr. keyring s = Some kr \<and> is_unlocked (vault s) \<and>
    (if fresh then t_state (db s) = None \<and> service_anchored P kr (vault s) (db t)
     else db t = db s \<and> (\<exists>st. t_state (db s) = Some st \<and> service_anchored P kr (vault s) (db s) \<and>
       sint (catalog_high_water s) \<le> sint (st_state_counter st) \<and> catalog_high_water t = st_state_counter st))"
  by (rule verify_catalog_Inr [OF assms])

theorem checked_catalog_is_anchored_witness:
  "\<exists>t kr. verify_catalog plain_prims demo_open = (Inr False, t) \<and> keyring demo_open = Some kr \<and>
     service_anchored plain_prims kr (vault demo_open) (db demo_open)"
proof -
  obtain t where v: "verify_catalog plain_prims demo_open = (Inr False, t)" using demo_verifies by blast
  with checked_catalog_is_anchored [OF v] show ?thesis by auto
qed



text \<open>C8: A stamp writes the root of the database as it stands and a counter that is higher by exactly
  one, as an integer: at the largest counter it fails instead of wrapping around.\<close>

theorem stamp_raises_counter:
  assumes "stamp P key vid ev clock s = (Inr n, t)"
  shows "anchored P key vid ev (db t) \<and> t_records (db t) = t_records (db s) \<and> t_clients (db t) = t_clients (db s) \<and>
    (\<exists>st. t_state (db t) = Some st \<and> st_state_counter st = n) \<and>
    sint n = (case t_state (db s) of None \<Rightarrow> 1 | Some st \<Rightarrow> sint (st_state_counter st) + 1)"
  using stamp_anchored [OF assms] stamp_counter [OF assms] stamp_Inr [OF assms] by auto

theorem stamp_raises_counter_witness:
  "\<exists>n t. stamp plain_prims [] zero_id 1 0 (demo_boot\<lparr>db := envelope_db\<rparr>) = (Inr n, t) \<and> sint n = 1"
proof -
  obtain n t where s: "stamp plain_prims [] zero_id 1 0 (demo_boot\<lparr>db := envelope_db\<rparr>) = (Inr n, t)"
    using envelope_db_stamps by (rule runsE)
  from stamp_raises_counter [OF s] have "sint n = 1" by (simp add: envelope_db_def empty_db_def)
  with s show ?thesis by blast
qed

section \<open>Sealed payloads\<close>

text \<open>C9: A ciphertext sealed for one place (vault, record, revision, kind of payload, format and key
  version) opens in that place to what was sealed, and in no other.\<close>

theorem ciphertexts_are_bound_to_their_place:
  assumes "aead_correct P" and "aead_binds P"
    and "seal P k nonce plain (record_aad v r n kind f kv) = Inr c"
    and "length v' = length v" and "length r' = length r"
  shows "open_box P k nonce c (record_aad v' r' n' kind' f' kv') =
    (if (v', r', n', kind', f', kv') = (v, r, n, kind, f, kv) then Inr plain else Inl ErrDecryptFailed)"
  using open_seal [OF assms(1,3)] open_other_aad [OF assms(2,3)] record_aad_inject [OF assms(4,5) [symmetric]]
  by auto

theorem ciphertexts_are_bound_to_their_place_witness:
  "open_box plain_prims (replicate 32 7) (replicate 24 9)
     (xchacha_seal plain_prims (replicate 32 7) (replicate 24 9) [1, 2] (record_aad zero_id zero_id 1 PayloadSecret 1 1))
     (record_aad zero_id zero_id 2 PayloadSecret 1 1) = Inl ErrDecryptFailed"
  using ciphertexts_are_bound_to_their_place [OF plain_prims_correct plain_prims_binds,
      of "replicate 32 7" "replicate 24 9" "[1, 2]" zero_id zero_id 1 PayloadSecret 1 1 _ zero_id zero_id 2 PayloadSecret 1 1]
  by (simp add: seal_Inr_iff)

text \<open>The stored form of a record's metadata reads back, with its times cut to milliseconds.\<close>

theorem metadata_round_trip:
  assumes "json_faithful J" and "metadata_clean W ty meta"
  shows "decode_metadata W J (encode_metadata J ty meta) = Inr (ty, in_millis meta)"
  by (rule decode_encode_metadata [OF assms])

theorem metadata_round_trip_witness:
  "decode_metadata plain_web plain_json (encode_metadata plain_json type_login (demo_meta\<lparr>md_created_at := 5, md_updated_at := 7\<rparr>)) =
     Inr (type_login, in_millis (demo_meta\<lparr>md_created_at := 5, md_updated_at := 7\<rparr>))"
  by (rule metadata_round_trip [OF plain_json_faithful demo_clean(1)])

section \<open>The record catalog\<close>



text \<open>A record that was just created reveals the secret it was created with.\<close>

theorem created_record_reveals:
  assumes "aead_correct P" and "json_faithful J" and "secret_clean sec"
    and "create_record P J W ty meta sec s = (Inr i, t)" and "db_open s" and "\<And>n. io_ok s n"
  shows "reveal P J i t = (Inr (sec\<lparr>sp_custom := sort_key fst (sp_custom sec)\<rparr>), t\<lparr>io_pos := Suc (io_pos t)\<rparr>)"
  by (rule create_then_reveal [OF assms])

theorem created_record_reveals_witness:
  "create_record plain_prims plain_json plain_web type_login demo_meta demo_secret demo_open = (Inr demo_id, demo_store) \<and>
   reveal plain_prims plain_json demo_id demo_store = (Inr demo_secret, demo_store\<lparr>io_pos := Suc (io_pos demo_store)\<rparr>)"
proof -
  have h: "db_open demo_open" "\<And>n. io_ok demo_open n" using demo_open_serving by (simp_all add: serving_def healthy_def)
  from created_record_reveals [OF plain_prims_correct plain_json_faithful demo_clean(2) demo_store_runs h] demo_store_runs
  show ?thesis by (simp add: demo_secret_def)
qed

text \<open>An update of a record sealed under the current key version reveals the new secret.\<close>

theorem updated_record_reveals:
  assumes "aead_correct P" and "json_faithful J" and "secret_clean sec"
    and "update_record_op P J W i n meta sec s = (Inr (), t)"
    and "pk_find rr_record_id i (t_records (db s)) = Some row" and "rr_revision row = n"
    and "ucast (rr_key_version row) = v_active_envelope_version (vault s)"
    and "db_open s" and "\<And>n. io_ok s n"
  shows "reveal P J i t = (Inr (sec\<lparr>sp_custom := sort_key fst (sp_custom sec)\<rparr>), t\<lparr>io_pos := Suc (io_pos t)\<rparr>)"
  by (rule update_then_reveal [OF assms])

theorem updated_record_reveals_witness:
  "update_record_op plain_prims plain_json plain_web demo_id 1 demo_meta demo_secret demo_store = (Inr (), demo_revised) \<and>
   reveal plain_prims plain_json demo_id demo_revised = (Inr demo_secret, demo_revised\<lparr>io_pos := Suc (io_pos demo_revised)\<rparr>)"
proof -
  from demo_store_state obtain row where r: "t_records (db demo_store) = [row]" "rr_record_id row = demo_id" "rr_revision row = 1"
    "rr_key_version row = 1" "v_active_envelope_version (vault demo_store) = 1" by metis
  have f: "pk_find rr_record_id demo_id (t_records (db demo_store)) = Some row" by (simp add: r pk_find_def)
  have h: "db_open demo_store" "\<And>n. io_ok demo_store n" using demo_store_serving by (simp_all add: serving_def healthy_def)
  have k: "ucast (rr_key_version row) = v_active_envelope_version (vault demo_store)" by (simp add: r)
  from updated_record_reveals [OF plain_prims_correct plain_json_faithful demo_clean(2) demo_revised_runs f r(3) k h] demo_revised_runs
  show ?thesis by (simp add: demo_secret_def)
qed

text \<open>C11: An update of a record older than the last change of the master password destroys it: the
  statement leaves the row's key version behind while the new payloads are sealed under the current
  one, so the record no longer reveals, and the index of the whole vault can no longer be built.\<close>

theorem stale_update_destroys_record:
  assumes "aead_binds P" and "update_record_op P J W i n meta sec s = (Inr (), t)"
    and "pk_find rr_record_id i (t_records (db s)) = Some row" and "rr_revision row = n"
    and "ucast (rr_key_version row) \<noteq> v_active_envelope_version (vault s)"
    and "db_open s" and "\<And>n. io_ok s n" and "length i = 16"
  shows "reveal P J i t = (Inl ErrIntegrityFailure, t\<lparr>io_pos := Suc (io_pos t)\<rparr>) \<and>
    (\<exists>u. load_index P J W t = (Inl ErrIntegrityFailure, u))"
proof -
  from stale_update_breaks_row [OF assms(1-5)] obtain kr row' where
    r: "keyring t = Some kr" "is_unlocked (vault t)" "loaded t" "pk_find rr_record_id i (t_records (db t)) = Some row'"
    "open_metadata P kr (v_id (vault t)) (v_format_version (vault t)) row' = Inl ErrDecryptFailed"
    "open_secret P kr (v_id (vault t)) (v_format_version (vault t)) row' = Inl ErrDecryptFailed"
    "env_fixed t = env_fixed s" by blast
  have h: "db_open t" "io_ok t (io_pos t)" using r(7) assms(6,7) by (simp_all add: env_fixed_def)
  have b: "entry_of_row P J W kr (v_id (vault t)) (v_format_version (vault t)) row' = Inl ErrDecryptFailed"
    using pk_find_Some [OF r(4)] r(5) assms(8) by (simp add: entry_of_row_def)
  have "reveal P J i t = (Inl ErrIntegrityFailure, t\<lparr>io_pos := Suc (io_pos t)\<rparr>)"
    by (rule reveal_broken [OF r(2,1,3) h r(4,6)]) simp
  moreover have "\<exists>u. load_index P J W t = (Inl ErrIntegrityFailure, u)"
    using pk_find_Some [OF r(4)] by (intro load_index_bad [OF r(2,1,3) h _ b]) simp
  ultimately show ?thesis ..
qed

theorem stale_update_destroys_record_witness:
  "update_record_op plain_prims plain_json plain_web demo_id 1 demo_meta demo_secret demo_load = (Inr (), demo_update) \<and>
   fst (reveal plain_prims plain_json demo_id demo_update) = Inl ErrIntegrityFailure \<and>
   fst (load_index plain_prims plain_json plain_web demo_update) = Inl ErrIntegrityFailure"
proof -
  from demo_load_state obtain row where l: "t_records (db demo_load) = [row]" "rr_record_id row = demo_id"
    "rr_revision row = 1" "rr_key_version row = 1" "v_active_envelope_version (vault demo_load) = 2" "serving plain_prims demo_load"
    by blast
  have f: "pk_find rr_record_id demo_id (t_records (db demo_load)) = Some row" by (simp add: l pk_find_def)
  have h: "db_open demo_load" "\<And>n. io_ok demo_load n" using l(6) by (simp_all add: serving_def healthy_def)
  have k: "ucast (rr_key_version row) \<noteq> v_active_envelope_version (vault demo_load)" by (simp add: l)
  have len: "length demo_id = 16" by (simp add: demo_id_def)
  from stale_update_destroys_record [OF plain_prims_binds demo_update_runs f l(3) k h len] demo_update_runs show ?thesis by auto
qed



section \<open>The daemon\<close>

text \<open>C13: A request the daemon answers positively was allowed to run: it is well formed and of the spoken
  version; on a pairing connection it is one of the pairing operations, and on any other it is a known
  operation whose capability the connection's session has, the session being in the table and live.
  Admission has changed nothing but the sessions and the event log, and the answer is that of the
  handler.\<close>

theorem positive_answers_are_authorized:
  assumes "handle D raw s = (Inr resp, t)" and "rs_ok resp"
  shows "\<exists>req u data. un_request (dp_wire D) raw = Some req \<and> rq_protocol_version req = protocol_version \<and>
    kept u = kept s \<and> peer u = peer s \<and> dispatch D (rq_operation req) (rq_payload req) u = (Inr data, t) \<and>
    (if cs_pairing (conn s) then rq_operation req \<in> set pairing_ops
     else \<exists>cap. map_of required_capability (rq_operation req) = Some cap \<and> holds cap u)"
  by (rule granted [OF assms])

theorem positive_answers_are_authorized_witness:
  "\<exists>resp t req u. handle demo_deps demo_status demo_cli = (Inr resp, t) \<and>
     un_request (dp_wire demo_deps) demo_status = Some req \<and> kept u = kept demo_cli"
proof -
  obtain resp t where h: "handle demo_deps demo_status demo_cli = (Inr resp, t)" "rs_ok resp"
    using demo_status_answered by blast
  with positive_answers_are_authorized [OF h] show ?thesis by blast
qed

text \<open>C14: A request that is not admitted leaves the vault, its keys, the index, the tables (but for the
  event log), the pairings and the files as they were, and is answered with an error.\<close>

theorem refused_requests_change_nothing:
  assumes "un_request (dp_wire D) raw = Some req" and "rq_protocol_version req = protocol_version"
    and "admit D (rq_operation req) s = (Inl e, u)"
  shows "kept (snd (handle D raw s)) = kept s \<and> (\<forall>resp. fst (handle D raw s) = Inr resp \<longrightarrow> \<not> rs_ok resp)"
  by (rule handle_refused [OF assms(1,2)]) (simp add: assms(3))

theorem refused_requests_change_nothing_witness:
  "kept (snd (handle demo_deps demo_password_request demo_pairing)) = kept demo_pairing"
proof -
  obtain req where r: "un_request (dp_wire demo_deps) demo_password_request = Some req" "rq_protocol_version req = protocol_version"
    "rq_operation req = ''vault.unlock''" using demo_password_decodes by blast
  obtain u where "admit demo_deps (rq_operation req) demo_pairing = (Inl ErrAuthorizationDeny, u)"
    using demo_pairing_refused r(3) by auto
  from refused_requests_change_nothing [OF r(1,2) this] show ?thesis ..
qed





text \<open>An unlock request that succeeds leaves the vault open with its keys, the index holding exactly
  the rows of the database, and the rows anchored in the recorded root; it has written no row of a
  record, a client or an envelope.\<close>

theorem unlock_request_opens:
  assumes "op_unlock D payload s = (Inr r, t)" and "db_wf (db s)"
  shows "is_unlocked (vault t) \<and> failed_unlocks t = 0 \<and> rows t = rows s \<and>
    mirrors (rec_index (mem t)) (t_records (db t)) \<and>
    (\<exists>kr. keyring t = Some kr \<and> service_anchored (dp_crypto D) kr (vault t) (db t))"
  by (rule op_unlock_opens [OF assms])

theorem unlock_request_opens_witness:
  "\<exists>r t. op_unlock demo_deps old_password demo_made = (Inr r, t) \<and> is_unlocked (vault t) \<and> rows t = rows demo_made"
proof -
  obtain r t where u: "op_unlock demo_deps old_password demo_made = (Inr r, t)" using demo_unlocks(1) by blast
  from unlock_request_opens [OF u demo_unlocks(2)] u show ?thesis by blast
qed

text \<open>Whatever makes an unlock request fail, a bad request, a wrong password, an index that does not
  load or a root that does not verify, a locked vault stays locked: no key and no index is left behind.\<close>

theorem failed_unlock_stays_shut:
  assumes "op_unlock D payload s = (Inl e, t)" and "e \<noteq> Panic" and "mem_inv (dp_crypto D) s" and "\<not> is_unlocked (vault s)"
  shows "\<not> is_unlocked (vault t) \<and> keyring t = None \<and> root_key t = None \<and> rec_index (mem t) = new_index"
  by (rule op_unlock_fails_shut [OF assms])

theorem failed_unlock_stays_shut_witness:
  "\<exists>e t. op_unlock demo_deps old_password demo_server = (Inl e, t) \<and> \<not> is_unlocked (vault t) \<and> keyring t = None"
proof -
  obtain t where u: "op_unlock demo_deps old_password demo_server = (Inl ErrVaultNotFound, t)"
    using demo_unlock_absent by blast
  have "mem_inv (dp_crypto demo_deps) demo_server" using demo_server_good by (simp add: daemon_inv_def)
  moreover have "\<not> is_unlocked (vault demo_server)" by (simp add: is_unlocked_def zero_vault_def)
  ultimately show ?thesis using failed_unlock_stays_shut [OF u] u by blast
qed

text \<open>C17: A lock ends every session: keys, root key and index are gone, the stored rows are untouched, and
  no connection but a pairing one is admitted to anything except the operations of a locked vault.\<close>

theorem locking_ends_every_session:
  assumes "op_lock D code s = (Inr r, t)" and "on_lock s = lock_hooks"
  shows "shut t \<and> besides_events (db t) = besides_events (db s) \<and>
    (\<forall>c oper u. \<not> cs_pairing c \<longrightarrow> oper \<notin> set locked_state_ops \<longrightarrow> admit D oper (t\<lparr>conn := c\<rparr>) \<noteq> (Inr (), u))"
  using op_lock_Inr [OF assms] shut_refuses by blast

theorem locking_ends_every_session_witness:
  "\<exists>t. op_lock demo_deps EventVaultLocked demo_editing = (Inr ReplyEmpty, t) \<and> shut t"
proof -
  obtain t where l: "op_lock demo_deps EventVaultLocked demo_editing = (Inr ReplyEmpty, t)"
    unfolding demo_editing_def using demo_locks by blast
  from locking_ends_every_session [OF l] l show ?thesis by (simp add: demo_editing_def)
qed

text \<open>The idle lock locks an unlocked vault exactly when no session that has not expired was active
  within the window; a window of zero or less turns it off. When it does not lock it changes
  nothing.\<close>

theorem idle_lock_condition:
  assumes "enforce_idle_lock D t s = (Inr b, u)" and "on_lock s = lock_hooks"
  shows "(b \<longleftrightarrow> is_unlocked (vault s) \<and> 0 < v_auto_lock_after (vault s) \<and>
       (\<forall>se \<in> snd ` set (sessions s). now s \<le> se_expires_at se \<longrightarrow> v_auto_lock_after (vault s) \<le> t - se_last_activity se)) \<and>
    (if b then shut u \<and> besides_events (db u) = besides_events (db s) else u = s)"
  by (rule idle_lock_iff [OF assms])

theorem idle_lock_condition_witness:
  "\<exists>t. enforce_idle_lock demo_deps 5 demo_editing = (Inr True, t) \<and> shut t"
proof -
  obtain t where l: "enforce_idle_lock demo_deps 5 demo_editing = (Inr True, t)"
    unfolding demo_editing_def using demo_idles by blast
  from idle_lock_condition [OF l] l show ?thesis by (simp add: demo_editing_def)
qed

text \<open>The write operations of the browser extension touch nothing but logins: a creation adds one
  record of type login, an update changes one record that is a login, and every other row stays.\<close>

theorem extension_writes_only_logins:
  assumes "op_create D payload True s = (Inr r, t)" and "op_update D payload' True s' = (Inr r', t')"
  shows "(\<exists>i e. r = ReplyId (id_string i) \<and> index_get (rec_index (mem t)) i = Some e \<and> ie_type e = type_login \<and>
      (\<forall>j. j \<noteq> i \<longrightarrow> pk_find rr_record_id j (t_records (db t)) = pk_find rr_record_id j (t_records (db s)))) \<and>
    (\<exists>i e. index_get (rec_index (mem s')) i = Some e \<and> ie_type e = type_login \<and>
      (\<forall>j. j \<noteq> i \<longrightarrow> pk_find rr_record_id j (t_records (db t')) = pk_find rr_record_id j (t_records (db s'))))"
  using op_create_login [OF assms(1)] op_update_login [OF assms(2)] by blast

theorem extension_writes_only_logins_witness:
  "\<exists>r t i e. op_create demo_deps [1] True demo_editing = (Inr r, t) \<and> r = ReplyId (id_string i) \<and>
     index_get (rec_index (mem t)) i = Some e \<and> ie_type e = type_login"
proof -
  obtain r t where c: "op_create demo_deps [1] True demo_editing = (Inr r, t)" using demo_creates by blast
  obtain r' t' where u: "op_update demo_deps [1] True demo_editing = (Inr r', t')" using demo_updates by blast
  from extension_writes_only_logins [OF c u] c show ?thesis by blast
qed



text \<open>A connection that is built for a paired client gets a live session with the capabilities of its
  row whatever the status of that row is: a client that was revoked between the handshake and this step
  is admitted to everything its kind may do.\<close>

theorem building_ignores_revocation:
  assumes "he_mode h = mode_paired" and "id_from_string (he_client_id h) = Inr i" and "i \<noteq> zero_id"
    and "client_status (db s) i = Some status_revoked" and "db_open s" and "\<And>n. io_ok s n" and "\<And>n. rnd_ok s n"
  shows "\<exists>c t row. build_conn_state h remote s = (Inr c, t) \<and> pk_find cr_client_id i (t_clients (db s)) = Some row \<and>
    cs_client_id c = i \<and> \<not> cs_pairing c \<and>
    (\<forall>oper cap. map_of required_capability oper = Some cap \<longrightarrow> has (cr_capability_mask row) cap \<longrightarrow>
       (\<exists>u. admit D oper (t\<lparr>conn := c\<rparr>) = (Inr (), u)))"
  by (rule client_connects [OF assms])

theorem building_ignores_revocation_witness:
  "\<exists>c t u. build_conn_state paired_hello (replicate 32 3) (demo_unlocked (paired_db status_revoked) new_index) = (Inr c, t) \<and>
     cs_client_id c = paired_id \<and> admit demo_deps ''vault.status'' (t\<lparr>conn := c\<rparr>) = (Inr (), u)"
proof -
  let ?s = "demo_unlocked (paired_db status_revoked) new_index"
  have h: "he_mode paired_hello = mode_paired" "id_from_string (he_client_id paired_hello) = Inr paired_id"
    by (simp_all add: paired_hello_def paired_parse)
  have o: "client_status (db ?s) paired_id = Some status_revoked" "db_open ?s" "\<And>n. io_ok ?s n" "\<And>n. rnd_ok ?s n"
    by (simp_all add: paired_status)
  obtain c t row where c: "build_conn_state paired_hello (replicate 32 3) ?s = (Inr c, t)"
    "pk_find cr_client_id paired_id (t_clients (db ?s)) = Some row" "cs_client_id c = paired_id"
    "\<And>oper cap. map_of required_capability oper = Some cap \<Longrightarrow> has (cr_capability_mask row) cap \<Longrightarrow>
       \<exists>u. admit demo_deps oper (t\<lparr>conn := c\<rparr>) = (Inr (), u)"
    using building_ignores_revocation [OF h paired_parse(3) o, of "replicate 32 3" demo_deps] by blast
  have "row = paired_row status_revoked" using c(2) by (simp add: paired_db_def pk_find_def paired_row_def)
  then have "has (cr_capability_mask row) CapVaultStatus"
    by (simp add: paired_row_def relay_capabilities_def)
  with c(4) [of "''vault.status''"] have "\<exists>u. admit demo_deps ''vault.status'' (t\<lparr>conn := c\<rparr>) = (Inr (), u)"
    by (simp add: required_capability_def)
  with c(1,3) show ?thesis by blast
qed

text \<open>A connection of the command line whose session has been dropped by a lock is admitted again, to
  everything it could do before, once the vault is unlocked, by whatever client.\<close>

theorem connections_outlive_a_lock:
  assumes "is_unlocked (vault s)" and "\<not> cs_pairing (conn s)" and "cs_client_id (conn s) = zero_id"
    and "cs_session (conn s) = Some se" and "map_of (sessions s) (se_id se) = None"
    and "map_of required_capability oper = Some cap" and "has (se_capabilities se) cap" and "rnd_ok s (rnd_pos s)"
  shows "\<exists>u. admit D oper s = (Inr (), u)"
  by (rule old_connection_resumes [OF assms])

theorem connections_outlive_a_lock_witness:
  "\<exists>u. admit demo_deps ''vault.destroy'' demo_resumed = (Inr (), u)"
  by (rule connections_outlive_a_lock [where se = demo_old_session and cap = CapVaultDestroy])
    (simp_all add: demo_resumed_fields required_capability_def)

text \<open>A destruction of the vault that fails, wherever, leaves the daemon without a database, and the
  next request to unlock ends the process.\<close>

theorem failed_destruction_crashes_the_daemon:
  assumes "destroy_vault D s = (Inl e, t)"
    and "un_request (dp_wire D) raw = Some req" and "rq_protocol_version req = protocol_version"
    and "rq_operation req = ''vault.unlock''" and "decode (un_password (dp_wire D)) (rq_payload req) = Inr pw"
  shows "\<not> db_open t \<and> fst (handle D raw (t\<lparr>conn := c\<rparr>)) = Inl Panic"
proof -
  have "\<not> db_open t" by (rule destroy_fails_closed [OF assms(1)])
  then show ?thesis using closed_unlock_request [OF _ assms(2-5), of "t\<lparr>conn := c\<rparr>"] by simp
qed

theorem failed_destruction_crashes_the_daemon_witness:
  "\<exists>t. destroy_vault demo_deps demo_stuck = (Inl ErrIO, t) \<and>
     fst (handle demo_deps demo_password_request (t\<lparr>conn := no_conn\<rparr>)) = Inl Panic"
proof -
  obtain t where d: "destroy_vault demo_deps demo_stuck = (Inl ErrIO, t)" using demo_stuck_fails by blast
  obtain req pw where r: "un_request (dp_wire demo_deps) demo_password_request = Some req" "rq_protocol_version req = protocol_version"
    "rq_operation req = ''vault.unlock''" "decode (un_password (dp_wire demo_deps)) (rq_payload req) = Inr pw"
    using demo_password_decodes by blast
  from failed_destruction_crashes_the_daemon [OF d r] d show ?thesis by blast
qed

section \<open>The services\<close>

text \<open>C19: The index answers a page as a scan over all its entries would: exactly the entries a stored URL
  of which covers the page, and on a loopback page those of the project, each once. (An entry that opts
  into subdomains must lie under the registrable domain of the page, as it does unless the public
  suffix list cuts between the two hosts.)\<close>

theorem index_match_is_a_scan:
  assumes "index_ok W ix" and "\<And>i e. index_get ix i = Some e \<Longrightarrow> suffix_stable W page e"
  shows "((e, r) \<in> set (index_match W page pid ix) \<longleftrightarrow>
      (\<exists>i. index_get ix i = Some e \<and> match_scan W page pid e = Some r)) \<and>
    distinct (map (\<lambda>r. ie_id (fst r)) (index_match W page pid ix))"
  using index_match_scan [OF assms] index_match_distinct [OF assms(1)] by simp

theorem index_match_is_a_scan_witness:
  "(demo_entry, MatchedByOrigin) \<in> set (index_match plain_web demo_page '''' (index_put plain_web demo_entry new_index))"
proof -
  have "index_get (index_put plain_web demo_entry new_index) (ie_id demo_entry) = Some demo_entry" by (simp add: index_get_put)
  moreover have "match_scan plain_web demo_page '''' demo_entry = Some MatchedByOrigin"
    by (simp add: match_scan_def matches_origin_def url_matches_iff demo_entry_def demo_meta_def)
  ultimately show ?thesis
    using index_match_is_a_scan [of plain_web "index_put plain_web demo_entry new_index" demo_page demo_entry MatchedByOrigin "''''"]
      demo_index_ok demo_index_stable by blast
qed

text \<open>C20: A secret is revealed for a page only if the page is served over TLS or from the loopback
  interface, and one of the record's stored URLs has the page's scheme, port and host (or has opted into
  subdomains and the page's host is one), or the page is a loopback page of the record's project.\<close>

theorem secrets_are_revealed_to_their_pages:
  assumes "reveal_for_origin P J W i raw pid s = (Inr p, t)"
  shows "\<exists>page e. parse_origin W raw = Inr page \<and> (o_scheme page = ''https'' \<or> is_loopback W page) \<and>
    index_get (rec_index (mem s)) i = Some e \<and> reveal P J i s = (Inr p, t) \<and>
    ((\<exists>u \<in> set (md_urls (ie_metadata e)). o_scheme page = o_scheme (lu_origin u) \<and> o_port page = o_port (lu_origin u) \<and>
        (o_host page = o_host (lu_origin u) \<or>
         lu_allow_subdomains u \<and> (\<exists>sub. o_host page = sub @ ''.'' @ o_host (lu_origin u)))) \<or>
     is_loopback W page \<and> pid \<noteq> '''' \<and> md_project_id (ie_metadata e) = pid)"
proof -
  from reveal_for_origin_Inr [OF assms] obtain page e where r: "parse_origin W raw = Inr page" "is_secure page \<or> is_loopback W page"
    "index_get (rec_index (mem s)) i = Some e" "reveal P J i s = (Inr p, t)"
    and m: "matches_origin (ie_metadata e) page \<or> matches_project_id W (ie_metadata e) page pid" by blast
  from m have "(\<exists>u \<in> set (md_urls (ie_metadata e)). url_matches u page) \<or>
      is_loopback W page \<and> pid \<noteq> '''' \<and> md_project_id (ie_metadata e) = pid"
    by (auto simp: matches_origin_def list_ex_iff matches_project_id_def split: if_splits)
  with r show ?thesis unfolding url_matches_iff is_secure_def by blast
qed

theorem secrets_are_revealed_to_their_pages_witness:
  "\<exists>t. reveal_for_origin plain_prims plain_json plain_web demo_id demo_raw '''' demo_store = (Inr demo_secret, t) \<and>
     reveal plain_prims plain_json demo_id demo_store = (Inr demo_secret, t)"
proof -
  obtain t where t: "reveal_for_origin plain_prims plain_json plain_web demo_id demo_raw '''' demo_store = (Inr demo_secret, t)"
    using demo_reveals_for_page by blast
  with secrets_are_revealed_to_their_pages [OF t] show ?thesis by blast
qed

text \<open>An approved pairing gives out its credential once: the claim returns the identifier and the
  credential of a row that is now registered, approved, with the capabilities of its kind and the key of
  the requester, and the same claim finds nothing afterwards.\<close>

theorem approved_pairing_is_claimed_once:
  assumes "approve P pid s = (Inr (), t)"
  shows "\<exists>p client_id credential row u. map_of (pending s) pid = Some p \<and>
    pk_find cr_client_id client_id (t_clients (db t)) = Some row \<and> approved_row P p client_id credential row \<and>
    claim_credential pid t = (Inr (client_id, credential), u) \<and> db u = db t \<and>
    claim_credential pid u = (Inl ErrClientNotFound, u)"
proof -
  from approve_Inr [OF assms] obtain p client_id credential row where p: "map_of (pending s) pid = Some p"
    and r: "approved_row P p client_id credential row"
    and i: "pk_insert cr_client_id client_check row (t_clients (db s)) = Inr (t_clients (db t))"
    and m: "mem t = (mem s)\<lparr>am_pending := AList.update pid (p\<lparr>pp_approved := True, pp_client_id := client_id,
      pp_credential := Some credential\<rparr>) (pending s)\<rparr>" by blast
  let ?u = "t\<lparr>mem := (mem t)\<lparr>am_pending := AList.delete pid (pending t)\<rparr>\<rparr>"
  have f: "map_of (pending t) pid = Some (p\<lparr>pp_approved := True, pp_client_id := client_id, pp_credential := Some credential\<rparr>)"
    by (simp add: pending_def m update_conv')
  have c: "claim_credential pid t = (Inr (client_id, credential), ?u)" by (simp add: claim_Inr_iff f)
  have "map_of (pending ?u) pid = None" by (simp add: pending_def delete_conv')
  then have "claim_credential pid ?u = (Inl ErrClientNotFound, ?u)" by (rule claim_unknown)
  moreover have "pk_find cr_client_id client_id (t_clients (db t)) = Some row"
    using i r pk_find_None [of cr_client_id client_id "t_clients (db s)"]
    by (auto simp: pk_insert_Inr_iff approved_row_def pk_find_append)
  moreover have "db ?u = db t" by simp
  ultimately show ?thesis using p r c by blast
qed

theorem approved_pairing_is_claimed_once_witness:
  "\<exists>t u client_id credential. approve plain_prims (replicate 16 5) demo_waiting = (Inr (), t) \<and>
     claim_credential (replicate 16 5) t = (Inr (client_id, credential), u)"
proof -
  obtain t where t: "approve plain_prims (replicate 16 5) demo_waiting = (Inr (), t)" using demo_approves by blast
  from approved_pairing_is_claimed_once [OF t] t show ?thesis by blast
qed

text \<open>C21: What a backup wrote, the verification of the backup accepts: it returns the identity of the
  vault, the time and the image of the database as it was.\<close>

theorem backup_verifies:
  assumes "backup_create P F dest s = (Inr (), t)" and "prims_widths P" and "length (db_image F (db s)) < 2 ^ 62"
    and "length (v_id (vault s)) = 16" and "io_ok t (io_pos t)"
  shows "\<exists>v. backup_verify P F dest t = (Inr (\<lparr>bi_vault_id = v_id (vault s),
    bi_created_at_ms = of_int (unix_milli (now s)), bi_snapshot_len = of_nat (length (db_image F (db s)))\<rparr>, db_image F (db s)), v)"
  by (rule create_then_verify [OF assms])

theorem backup_verifies_witness:
  "\<exists>t v info. backup_create plain_prims demo_files ''b'' demo_editing = (Inr (), t) \<and>
     backup_verify plain_prims demo_files ''b'' t = (Inr (info, []), v)"
proof -
  obtain t where t: "backup_create plain_prims demo_files ''b'' demo_editing = (Inr (), t)" "io_ok t (io_pos t)"
    using demo_backs_up by blast
  have "length (db_image demo_files (db demo_editing)) < 2 ^ 62" "length (v_id (vault demo_editing)) = 16"
    by (simp_all add: demo_files_def demo_editing_def agg_unlock_def fresh_vault_def zero_id_def id_len_def)
  from backup_verifies [OF t(1) plain_prims_widths this t(2)] t(1) show ?thesis by (auto simp: demo_files_def)
qed

text \<open>C22: No file can make the container parser panic, whatever length its header claims; and a container
  that parses is, byte for byte, the header and body the writer would have written for what was parsed,
  followed by the tag.\<close>

theorem container_parsing_inverts_writing:
  assumes "length raw < 2 ^ 63"
  shows "parse_container raw \<noteq> Inl Panic \<and>
    (\<forall>c. parse_container raw = Inr c \<longrightarrow> length (bc_tag c) = 32 \<and> unat (bi_snapshot_len (bc_info c)) = length (bc_snapshot c) \<and>
       raw = container_body (bi_vault_id (bc_info c)) (bi_created_at_ms (bc_info c)) (bc_snapshot c) @ bc_tag c)"
  using parse_container_no_panic [OF assms] parse_container_Inr [OF _ assms] by metis

theorem container_parsing_inverts_writing_witness:
  "\<exists>c. parse_container (container_body zero_id 7 [1, 2, 3] @ replicate 32 0) = Inr c \<and>
     unat (bi_snapshot_len (bc_info c)) = length (bc_snapshot c)"
proof -
  have "length (container_body zero_id 7 [1, 2, 3] @ replicate 32 0) < 2 ^ 63" by (simp add: zero_id_def id_len_def)
  from container_parsing_inverts_writing [OF this] parse_container_body [of zero_id "replicate 32 0" "[1, 2, 3]" 7]
  show ?thesis by (auto simp: zero_id_def id_len_def)
qed

text \<open>C23: A restore never loses the database it replaces: when it succeeds the new content is in place and
  the old one is kept beside it, and when it fails the old one is still there or beside. The one
  exception is a look at the old file that fails: it counts as absent and is overwritten.\<close>

theorem restore_keeps_the_old_database:
  assumes "restore_snapshot snap p check s = (r, t)" and "files s p = Some f"
    and "\<And>c. obeys (same_on files) (check c)"
  shows "case r of
      Inr _ \<Rightarrow> files t p = Some (Blob snap) \<and> (restore_stat_failed snap p check s \<or> files t (recovery_of p) = Some f)
    | Inl _ \<Rightarrow> files t p = Some f \<or> files t (recovery_of p) = Some f \<or> restore_stat_failed snap p check s"
  by (rule restore_cases [OF assms])

theorem restore_keeps_the_old_database_witness:
  "\<exists>t. restore_snapshot [1] ''vault.db'' (\<lambda>_. mreturn ()) demo_editing = (Inr (), t) \<and>
     files t ''vault.db'' = Some (Blob [1]) \<and> files t (recovery_of ''vault.db'') = Some LiveDb"
proof -
  obtain t where t: "restore_snapshot [1] ''vault.db'' (\<lambda>_. mreturn ()) demo_editing = (Inr (), t)" using demo_restores by blast
  have f: "files demo_editing ''vault.db'' = Some LiveDb" by (simp add: demo_editing_def demo_unlocked_def demo_disk_def)
  have "\<not> restore_stat_failed [1] ''vault.db'' (\<lambda>_. mreturn ()) demo_editing"
    by (auto simp: restore_stat_failed_def stat_failed_def write_file_Inr_iff mreturn_eq demo_editing_def)
  with restore_keeps_the_old_database [OF t f, OF same.ok_return] t show ?thesis by auto
qed

text \<open>A generated password has the length asked for, between 8 and 256, only characters of the enabled
  classes, and one of every enabled class at least.\<close>

theorem generated_password_has_every_class:
  assumes "generate_password opts s = (Inr pw, t)"
  shows "int (length pw) = go_length opts \<and> 8 \<le> length pw \<and> length pw \<le> 256 \<and>
    set pw \<subseteq> \<Union> (set ` set (enabled_classes opts)) \<and>
    (\<forall>c \<in> set (enabled_classes opts). \<exists>x \<in> set pw. x \<in> set c)"
  by (rule generate_password_Inr [OF assms])

theorem generated_password_has_every_class_witness:
  "\<exists>pw t. generate_password \<lparr>go_length = 8, go_upper = True, go_lower = True, go_digits = True, go_symbols = True\<rparr> demo_entropy = (Inr pw, t) \<and>
     length pw = 8"
proof -
  obtain pw t where g: "generate_password \<lparr>go_length = 8, go_upper = True, go_lower = True, go_digits = True, go_symbols = True\<rparr> demo_entropy = (Inr pw, t)"
    using demo_generates by blast
  from generated_password_has_every_class [OF g] g show ?thesis by auto
qed

text \<open>C24: The strength check accepts a password exactly if it has twelve characters, is not a listed one,
  is not a repetition of a shorter text, is not a run of consecutive characters up or down, and has
  sixteen characters or a pool of characters that gives it sixty bits.\<close>

theorem strong_passwords:
  "check_password_strength U s = None \<longleftrightarrow>
     12 \<le> length (runes s) \<and> to_lower U s \<notin> set common_passwords \<and>
     \<not> (\<exists>u k. 2 \<le> k \<and> u \<noteq> [] \<and> runes s = concat (replicate k u)) \<and>
     runes s \<noteq> map (\<lambda>i. runes s ! 0 + int i) [0..<length (runes s)] \<and>
     runes s \<noteq> map (\<lambda>i. runes s ! 0 - int i) [0..<length (runes s)] \<and>
     (16 \<le> length (runes s) \<or> 0 < pool_of U (runes s) \<and> 2 ^ 60 \<le> pool_of U (runes s) ^ length (runes s))"
proof -
  have "is_sequential_run (runes s) \<longleftrightarrow> 2 \<le> length (runes s) \<and>
      (runes s = map (\<lambda>i. runes s ! 0 + int i) [0..<length (runes s)] \<or>
       runes s = map (\<lambda>i. runes s ! 0 - int i) [0..<length (runes s)])"
    using is_sequential_run_map [of "runes s"] unfolding mult_1_right mult_minus_right add_uminus_conv_diff .
  moreover have "12 \<le> length (runes s) \<Longrightarrow> 2 \<le> length (runes s)" by simp
  ultimately show ?thesis unfolding check_password_strength_None_iff is_repeated_unit_iff by blast
qed

section \<open>Transport and relay\<close>



text \<open>C26: Whatever messages a connection's end accepts for sending, the other end receives: all of them,
  unchanged, in order, over any number of rekeys, and the two stay in step.\<close>

theorem messages_arrive_in_order:
  assumes "steps_agree C together" and "mfor ms (conn_send C) s = (Inr (), t)" and "halves together (nc_send s) (nc_recv r)"
    and "st_out t = st_out s @ wire" and "st_in r = wire @ rest"
  shows "\<exists>r'. recv_all C (length ms) r = (Inr ms, r') \<and> halves together (nc_send t) (nc_recv r') \<and> st_in r' = rest"
  by (rule all_sent_are_received [OF assms])

theorem messages_arrive_in_order_witness:
  "fst (recv_all plain_cipher 2 (demo_conn\<lparr>st_in := frame [0, 4] @ frame [1, 6], nc_recv := new_half 0\<rparr>)) = Inr [[4], [6]]"
proof -
  obtain t where t: "mfor [[4], [6]] (conn_send plain_cipher) demo_conn = (Inr (), t)" "st_out t = frame [0, 4] @ frame [1, 6]"
    using demo_sends by blast
  have "\<exists>r'. recv_all plain_cipher (length [[4], [6 :: byte]]) (demo_conn\<lparr>st_in := frame [0, 4] @ frame [1, 6], nc_recv := new_half 0\<rparr>) =
      (Inr [[4], [6]], r') \<and> halves (=) (nc_send t) (nc_recv r') \<and> st_in r' = []"
    by (rule messages_arrive_in_order [OF plain_cipher_agrees t(1)]) (simp_all add: t(2) demo_conn_def halves_def)
  then obtain r' where "recv_all plain_cipher (length [[4], [6 :: byte]]) (demo_conn\<lparr>st_in := frame [0, 4] @ frame [1, 6], nc_recv := new_half 0\<rparr>) =
      (Inr [[4], [6]], r')" by blast
  then show ?thesis by (simp add: numeral_2_eq_2)
qed

text \<open>C27: A call of the client returns what the daemon's handler answered to the request it sent: the
  connection hands over the request, the handler runs once on it, and the answer that comes back is
  the handler's.\<close>

theorem calls_are_answered:
  assumes "steps_agree C together" and "client_call C J oper payload out s = (res, t)" and "res \<noteq> Inl err_unavailable"
    and "payload = None \<and> body = [] \<or> payload = Some (Inr body)"
    and "json_request J (next_request (ct_counter s + 1) oper body) = Inr raw"
    and "serve_one C json_response D d r = (Inr d', r')" and "\<And>x b. json_response x = Inr b \<Longrightarrow> un_response J b = Some x"
    and "halves together (nc_send s) (nc_recv r)" "halves together (nc_send r) (nc_recv s)"
    and "st_out s = []" "st_out r = []" and "st_in r = st_out t" "st_in s = st_out r'"
  shows "\<exists>x. handle D raw d = (Inr x, d') \<and> res = read_response out x"
  by (rule call_is_answered [OF assms])

theorem calls_are_answered_witness:
  "\<exists>resp d' t. handle demo_deps demo_status demo_cli = (Inr resp, d') \<and> rs_ok resp \<and>
     client_call plain_cipher (demo_client_json resp) ''vault.status'' None (None :: (bytes \<Rightarrow> unit option) option) demo_caller =
       (read_response None resp, t)"
proof -
  obtain resp d' where h: "handle demo_deps demo_status demo_cli = (Inr resp, d')" "rs_ok resp" using demo_status_answered by blast
  obtain t where t: "client_call plain_cipher (demo_client_json resp) ''vault.status'' None (None :: (bytes \<Rightarrow> unit option) option) demo_caller =
      (read_response None resp, t)" "st_out t = frame (0 # demo_status)" using demo_call(1) [OF h(1)] by blast
  obtain r' where r: "serve_one plain_cipher (demo_json_response resp) demo_deps demo_cli demo_line = (Inr d', r')" "st_out r' = frame [100, 9]"
    using demo_call(2) [OF h(1)] by blast
  have "\<exists>x. handle demo_deps demo_status demo_cli = (Inr x, d') \<and>
      read_response None resp = read_response (None :: (bytes \<Rightarrow> unit option) option) x"
    by (rule calls_are_answered [OF plain_cipher_agrees t(1) _ _ _ r(1), where body = "[]"])
      (use h t r in \<open>auto simp: read_response_def demo_client_json_def demo_json_response_def demo_caller_def demo_line_def halves_def
        split: if_splits\<close>)
  with h t show ?thesis by blast
qed

text \<open>C28: Through the relay nobody gets the rights of the command line: whatever the extension sends and
  however the pumps interleave, a daemon at the other end never completes a handshake in that mode.\<close>

theorem relay_keeps_the_command_line_out:
  assumes "relay_open J net silent s = (Inr r, t)" and "\<And>c. net = Inr c \<Longrightarrow> st_out c = []"
    and "relay_runs J r r'" and "st_in v = st_out (rl_conn r') @ rest"
    and "server_handshake N (un_hello J) static look v = (Inr (snd_half, rcv_half, h, remote), w)"
  shows "he_mode h \<noteq> mode_cli"
  by (rule relayed_hello_is_browser [OF assms])

theorem relay_keeps_the_command_line_out_witness:
  "\<exists>a b h k w. server_handshake plain_noise demo_hello_of ([5], []) (\<lambda>_. Inl ErrClientNotFound) demo_daemon = (Inr (a, b, h, k), w) \<and>
     he_mode h \<noteq> mode_cli"
proof -
  obtain u where u: "server_handshake plain_noise (un_hello (plain_native demo_hello_of)) ([5], []) (\<lambda>_. Inl ErrClientNotFound) demo_daemon =
      (Inr (new_half 100, new_half 0, demo_hello, [9]), u)" using demo_serves by (auto simp: plain_native_def)
  have "he_mode demo_hello \<noteq> mode_cli"
    by (rule relay_keeps_the_command_line_out [OF demo_opens _ demo_runs _ u, where rest = "[]"])
      (simp_all add: stream_of_def demo_daemon_def)
  with u show ?thesis by (auto simp: plain_native_def)
qed


text \<open>That case does occur: after a message without a frame the relay is stuck.\<close>

theorem empty_message_stops_the_relay:
  assumes "rl_up r = Pumping" and "rl_done r = None" and "down_blocked r"
    and "read_message J (rl_ext r) = (Inr msg, x)" and "b64_decode (wm_frame msg) = Some []"
  shows "relay_step J r (up_step J r) \<and> \<not> returned (up_step J r) \<and> (\<nexists>r'. relay_step J (up_step J r) r')"
  by (rule relay_stuck [OF assms])

theorem empty_message_stops_the_relay_witness:
  "\<exists>r. relay_step (plain_native demo_hello_of) (demo_opened [[], [1]]) r \<and> \<not> returned r \<and>
     (\<nexists>r'. relay_step (plain_native demo_hello_of) r r')"
proof -
  define r where "r = demo_opened [[], [1]]"
  have "read_message (plain_native demo_hello_of) (rl_ext r) = (Inr (frame_msg []), (rl_ext r)\<lparr>st_in := wires [[1]]\<rparr>)"
    by (rule read_payload) (simp_all add: r_def demo_opened_def stream_of_def)
  then show ?thesis
    using empty_message_stops_the_relay [of r "plain_native demo_hello_of" "frame_msg []" "(rl_ext r)\<lparr>st_in := wires [[1]]\<rparr>"]
    unfolding r_def by (auto simp: demo_opened_def down_blocked_def starved_def stream_of_def frame_msg_def b64_decode_def)
qed

text \<open>C30: The relay serves the extension it was installed for and no other: without the override of the
  environment, it goes on to the daemon's socket exactly when its first argument is an origin that the
  installed manifest of its environment allows, with or without the final slash, and refuses every other
  caller; in particular the extension of the other environment.\<close>

theorem relay_admits_its_extension:
  assumes "getenv ''ALBEAR_EXTENSION_IDS'' \<in> {None, Some ''''}" and "current_environment U getenv version = Inr env"
    and "resolve_paths U getenv home version = Inr p"
  shows "native_run U getenv home version (origin # rest) =
      (if \<exists>o' \<in> set (build_allowed_origins (id_extension_id (identity_for env))). origin = o' \<or> origin @ ''/'' = o'
       then Inr p else Inl ErrOriginDenied) \<and>
    (\<forall>other. other \<noteq> env \<longrightarrow> origin \<in> set (build_allowed_origins (id_extension_id (identity_for other))) \<longrightarrow>
       native_run U getenv home version (origin # rest) = Inl ErrOriginDenied)"
  by (rule native_run_admits [OF assms])

theorem relay_admits_its_extension_witness:
  "native_run (unicode_tables.truncate plain_web) demo_getenv (Inr ''/h'') ''dev''
      [''chrome-extension://legbdpcjojmfelbcjfelmdelnjcnpllc/''] = Inr demo_places \<and>
   native_run (unicode_tables.truncate plain_web) demo_getenv (Inr ''/h'') ''dev''
      [''chrome-extension://ohcnnpelgjehhoejpajdkmeejklpaden/''] = Inl ErrOriginDenied"
proof -
  have e: "demo_getenv ''ALBEAR_EXTENSION_IDS'' \<in> {None, Some ''''}" "current_environment U demo_getenv ''dev'' = Inr Prod" for U :: unicode_tables
    by (simp_all add: demo_getenv_def current_environment_def env_var_def parse_environment_def)
  have i: "build_allowed_origins (id_extension_id (identity_for Prod)) = [''chrome-extension://legbdpcjojmfelbcjfelmdelnjcnpllc/'']"
    by (simp add: build_allowed_origins_def identity_for_def default_identity_def chrome_extension_id_def)
  from relay_admits_its_extension [OF e demo_resolved,
      where rest = "[]" and U = "unicode_tables.truncate plain_web" and origin = "''chrome-extension://legbdpcjojmfelbcjfelmdelnjcnpllc/''"]
    relay_admits_its_extension [OF e demo_resolved,
      where rest = "[]" and U = "unicode_tables.truncate plain_web" and origin = "''chrome-extension://ohcnnpelgjehhoejpajdkmeejklpaden/''"]
  show ?thesis by (simp add: i)
qed

section \<open>The command line\<close>

text \<open>C31: Whatever the arguments, the daemon's answers and the failures are, a run of the command line makes
  the grave requests only after what it asks of the user: it asks for the destruction of the vault only on a
  terminal at which a password and then the phrase were typed, with that password; for a restore only on
  a terminal at which the word was typed, of the path on the command line; for the approval of a client
  only on a terminal at which the question was answered with yes; and for the secrets of a record only to
  edit it or when told to reveal it.\<close>

theorem grave_requests_are_asked_for:
  assumes "run_cli L W args s = (r, t)" and "(oper, payload) \<in> set (drop (length (co_requests s)) (co_requests t))"
  shows "(oper = ''vault.destroy'' \<longrightarrow> args \<noteq> [] \<and> hd args = ''destroy'' \<and> co_tty s \<and>
      (\<exists>pw a ls. co_input s = pw # a # ls \<and> trim_space (cl_unicode L) a = ''destroy my vault'' \<and> payload = Some [(''password'', JStr pw)])) \<and>
    (oper = ''backup.restore'' \<longrightarrow> co_tty s \<and>
      (\<exists>path rest. args = ''backup'' # ''restore'' # path # rest \<and> payload = Some [(''path'', JStr path)]) \<and>
      (\<exists>a ls. co_input s = a # ls \<and> trim_space (cl_unicode L) a = ''restore'')) \<and>
    (oper = ''clients.approve'' \<longrightarrow> co_tty s \<and> (\<exists>rest. args = ''clients'' # ''approve'' # rest) \<and>
      (\<exists>a ls. co_input s = a # ls \<and> trim_space (cl_unicode L) a \<in> {''y'', ''Y''})) \<and>
    (oper = ''records.reveal'' \<longrightarrow> (\<exists>rest. args = ''edit'' # rest) \<or>
      (\<exists>rest fs ps. args = ''show'' # rest \<and> parse_anywhere show_flags [] rest = Inr (fs, ps) \<and> flag_on fs ''reveal''))"
  using new_requests [OF run_asked [OF assms(1)] assms(2)] by (auto simp: asked_for_def destroy_phrase_def)

theorem grave_requests_are_asked_for_witness:
  "\<exists>t. run_cli demo_program demo_decoders [''destroy''] (demo_console True [''secret'', destroy_phrase]) = (Inr exit_internal, t) \<and>
     co_requests t = [(''vault.destroy'', Some [(''password'', JStr ''secret'')])] \<and>
     co_tty (demo_console True [''secret'', destroy_phrase])"
proof -
  obtain t where t: "run_cli demo_program demo_decoders [''destroy''] (demo_console True [''secret'', destroy_phrase]) = (Inr exit_internal, t)"
    "co_requests t = [(''vault.destroy'', Some [(''password'', JStr ''secret'')])]" using demo_run by blast
  have "(''vault.destroy'', Some [(''password'', JStr ''secret'')]) \<in>
      set (drop (length (co_requests (demo_console True [''secret'', destroy_phrase]))) (co_requests t))"
    by (simp add: t(2) demo_console_def)
  from conjunct1 [OF grave_requests_are_asked_for [OF t(1) this]] t show ?thesis by blast
qed





section \<open>The database's schema\<close>

text \<open>C34: Migrating an empty database applies the scripts in the order of their names, each in a
  transaction of its own: wherever it fails, the tables are those of a number of first scripts, each
  recorded with its checksum, and without a failure of all of them.\<close>

theorem migrations_are_atomic:
  assumes "migrate M scripts s = (r, t)" and "rows_of s = []" and "distinct (map migration_version (map fst scripts))"
  shows "\<exists>k \<le> length scripts. migrated M scripts (mg_data s) (take k (sort (map fst scripts))) t \<and> (r = Inr () \<longrightarrow> k = length scripts)"
  by (rule migrate_fresh [OF assms])

theorem migrations_are_atomic_witness:
  "\<exists>t. migrate demo_mig_prims demo_scripts demo_mig_db = (Inr (), t) \<and> migrated demo_mig_prims demo_scripts [] (sort (map fst demo_scripts)) t"
proof -
  obtain t where t: "migrate demo_mig_prims demo_scripts demo_mig_db = (Inr (), t)" using demo_migrates by blast
  have e: "rows_of demo_mig_db = []" "mg_data demo_mig_db = []" by (simp_all add: rows_of_def demo_mig_db_def)
  from migrations_are_atomic [OF t e(1) demo_scripts_distinct] t e(2) show ?thesis by auto
qed

text \<open>A database that has all the scripts is left as it is by migrating again.\<close>

theorem migrations_run_once:
  assumes "migrated M scripts d (sort (map fst scripts)) s" and "distinct (map migration_version (map fst scripts))"
    and "\<And>n. mg_ok s n"
  shows "\<exists>t. migrate M scripts s = (Inr (), t) \<and> tables t = tables s"
  by (rule migrate_again [OF assms])

theorem migrations_run_once_witness:
  "\<exists>t u. migrate demo_mig_prims demo_scripts demo_mig_db = (Inr (), t) \<and> migrate demo_mig_prims demo_scripts t = (Inr (), u) \<and>
     tables u = tables t"
proof -
  obtain t where t: "migrate demo_mig_prims demo_scripts demo_mig_db = (Inr (), t)" "\<And>n. mg_ok t n"
    "migrated demo_mig_prims demo_scripts [] (sort (map fst demo_scripts)) t" using demo_migrates by blast
  from migrations_run_once [OF t(3) demo_scripts_distinct t(2)] t(1) show ?thesis by blast
qed

section \<open>Files of the user\<close>

text \<open>The development and the production environment share no database, socket, transport key or
  client folder, whatever the variables and home folders are.\<close>

theorem environments_are_apart:
  assumes "e \<noteq> e'"
  shows "database_path (paths_in g h e) \<noteq> database_path (paths_in g' h' e') \<and>
    socket_path (paths_in g h e) \<noteq> socket_path (paths_in g' h' e') \<and>
    static_key_path (paths_in g h e) \<noteq> static_key_path (paths_in g' h' e') \<and>
    client_dir (paths_in g h e) \<noteq> client_dir (paths_in g' h' e')"
  using environments_differ [OF assms] by simp

theorem environments_are_apart_witness:
  "database_path (paths_in (\<lambda>_. None) ''/home/a'' Prod) \<noteq> database_path (paths_in (\<lambda>_. Some ''/x'') ''/home/b'' Dev)"
  using environments_are_apart [of Prod Dev "\<lambda>_. None" "''/home/a''" "\<lambda>_. Some ''/x''" "''/home/b''"] by simp

text \<open>C35: A daemon that has come up is private: its four folders, the database, the transport key and the
  socket are closed to other users when it starts to listen, whatever was there before and in whatever order
  they were made, as the mask for new files comes first and every later step keeps closed what is closed.\<close>

theorem started_daemon_is_private:
  assumes "daemon_start U getenv home version B s = (Inr (p, key), t)" and "creates_under_mask B"
    and "\<And>x b. kp_json (sp_keys B) x = Inr b \<Longrightarrow> kp_un_json (sp_keys B) b = Some x"
    and "place \<in> {pt_data p, pt_config p, pt_runtime p, client_dir p, database_path p, static_key_path p, socket_path p}"
    and "follow 40 (fs_nodes t) place = Some n" and "\<And>q. n \<noteq> Link q"
  shows "node_mode n AND 63 = 0"
  using daemon_start_private [OF assms(1-4)] assms(5,6) by (cases n) (auto simp: closed_at_def)

theorem started_daemon_is_private_witness:
  "\<exists>t. daemon_start (unicode_tables.truncate plain_web) demo_getenv (Inr ''/h'') ''dev'' demo_start demo_machine =
      (Inr (demo_places, [7], [8]), t) \<and>
     (\<forall>n. follow 40 (fs_nodes t) (socket_path demo_places) = Some n \<longrightarrow> (\<forall>q. n \<noteq> Link q) \<longrightarrow> node_mode n AND 63 = 0)"
proof -
  obtain t where t: "daemon_start (unicode_tables.truncate plain_web) demo_getenv (Inr ''/h'') ''dev'' demo_start demo_machine =
      (Inr (demo_places, [7], [8]), t)" using demo_starts by blast
  have k: "kp_json (sp_keys demo_start) x = Inr b \<Longrightarrow> kp_un_json (sp_keys demo_start) b = Some x" for x b
    using demo_keys_json by (simp add: demo_start_def)
  from started_daemon_is_private [OF t demo_start_masked k, of "socket_path demo_places"] t show ?thesis by blast
qed

text \<open>The daemon's folders are private after they were prepared: what each path leads to has exactly
  the permissions of its owner, although the later folders were made after the earlier ones.\<close>

theorem folders_are_private:
  assumes "prepare_paths p s = (Inr (), t)" and "dir \<in> {pt_data p, pt_config p, pt_runtime p, client_dir p}"
  shows "private_node (follow 40 (fs_nodes t) dir)"
  by (rule prepare_makes_private [OF assms])

theorem folders_are_private_witness:
  "\<exists>t. prepare_paths demo_paths demo_fsys = (Inr (), t) \<and> private_node (follow 40 (fs_nodes t) (pt_config demo_paths))"
proof -
  obtain t where t: "prepare_paths demo_paths demo_fsys = (Inr (), t)" using demo_prepares by blast
  from folders_are_private [OF t, of "pt_config demo_paths"] t show ?thesis by simp
qed



section \<open>Extension, updates and installation\<close>

text \<open>C37: A package made of a folder is found again for what it is: after a run of the packing tool that
  succeeded, however its flags were given, its inspection of the written file succeeds and prints the
  identifier of the key that signed and the version in the folder's manifest, and that manifest pins no
  other key. It rests on signatures that verify, on a walk over the folder that finds its manifest and an
  archive from which it comes out as it went in, and on bounds for their sizes.\<close>

theorem packed_extensions_are_found_again:
  assumes "crx_agrees C" and "pack_run C L K getenv args s = (Inr (), t)"
    and "parse_flags (pack_flags getenv) args = Inr (fs, [dir])" and "text_flag fs ''inspect'' = ''''" and "\<not> switch_flag fs ''print-id''"
    and "follow 40 (fs_nodes s) (path_join [dir, ''manifest.json'']) \<noteq> None \<Longrightarrow> ''manifest.json'' \<in> set (pk_walk K dir (fs_nodes s))"
    and "\<And>es a b. pk_zip K es = Inr a \<Longrightarrow> map_of es ''manifest.json'' = Some b \<Longrightarrow> lk_unzip L a = Inr b"
    and "\<And>es a. pk_zip K es = Inr a \<Longrightarrow> length a < 2 ^ 62"
    and "\<And>k p d sig. signs_as C K (fs_nodes s) (text_flag fs ''key'') k p \<Longrightarrow> cx_sign C k d = Inr sig \<Longrightarrow> length p + length sig \<le> 2 ^ 19"
    and "fs_nodes u = fs_nodes t" and "\<And>n. fs_ok u n"
  shows "\<exists>key pub m w. signs_as C K (fs_nodes s) (text_flag fs ''key'') key pub \<and> folder_manifest L (fs_nodes s) dir m \<and> pins m pub \<and>
    pack_run C L K getenv' [''-inspect'', text_flag fs ''out''] u = (Inr (), w) \<and>
    pa_out w = pa_out u @ [id_and_version (extension_id C pub) (mf_version m)]"
  by (rule packed_is_inspected [OF assms])

theorem packed_extensions_are_found_again_witness:
  "\<exists>t key pub m w. pack_run plain_crx demo_manifests demo_packing (\<lambda>_. None) demo_pack_args demo_workshop = (Inr (), t) \<and>
     signs_as plain_crx demo_packing (fs_nodes demo_workshop) ''/k'' key pub \<and> folder_manifest demo_manifests (fs_nodes demo_workshop) ''/d'' m \<and>
     pack_run plain_crx demo_manifests demo_packing (\<lambda>_. None) [''-inspect'', ''/o''] t = (Inr (), w) \<and>
     pa_out w = pa_out t @ [id_and_version (extension_id plain_crx pub) (mf_version m)]"
proof -
  obtain t where t: "pack_run plain_crx demo_manifests demo_packing (\<lambda>_. None) demo_pack_args demo_workshop = (Inr (), t)" "\<And>n. fs_ok t n"
    using demo_packs by blast
  have "\<exists>key pub m w. signs_as plain_crx demo_packing (fs_nodes demo_workshop) (text_flag demo_pack_flags ''key'') key pub \<and>
      folder_manifest demo_manifests (fs_nodes demo_workshop) ''/d'' m \<and> pins m pub \<and>
      pack_run plain_crx demo_manifests demo_packing (\<lambda>_. None) [''-inspect'', text_flag demo_pack_flags ''out''] t = (Inr (), w) \<and>
      pa_out w = pa_out t @ [id_and_version (extension_id plain_crx pub) (mf_version m)]"
  proof (rule packed_extensions_are_found_again [OF plain_crx_agrees t(1) demo_pack_parsed demo_pack_flag(3,4) _ _ _ _ refl t(2)])
    show "''manifest.json'' \<in> set (pk_walk demo_packing ''/d'' (fs_nodes demo_workshop))" by (simp add: demo_packing_def)
    show "lk_unzip demo_manifests a = Inr b" if "pk_zip demo_packing es = Inr a" "map_of es ''manifest.json'' = Some b" for es a b
      using demo_zips [OF that(1)] that(2) by (simp add: demo_manifests_def)
    show "length a < 2 ^ 62" if "pk_zip demo_packing es = Inr a" for es a
      using demo_zips [OF that] by simp
    show "length p + length sig \<le> 2 ^ 19"
      if "signs_as plain_crx demo_packing (fs_nodes demo_workshop) (text_flag demo_pack_flags ''key'') k p" "cx_sign plain_crx k d = Inr sig" for k p d sig
      using demo_pack_key [of k p] that by (auto simp: plain_crx_def demo_pack_flag)
  qed
  with t(1) show ?thesis unfolding demo_pack_flag by blast
qed

text \<open>A package signed with a key verifies, for the extension of that key and with the archive that was
  packed.\<close>

theorem packages_verify:
  assumes "crx_agrees C" and "crx_pack C archive key = Inr data" and "cx_public_der C key = Inr pub"
    and "\<And>d sig. cx_sign C key d = Inr sig \<Longrightarrow> length pub + length sig \<le> 2 ^ 19" and "length archive < 2 ^ 62"
  shows "crx_verify C data = Inr \<lparr>cp_id = extension_id C pub, cp_public_key = pub, cp_archive = archive\<rparr>"
  by (rule crx_pack_verifies [OF assms])

theorem packages_verify_witness:
  "\<exists>data. crx_pack plain_crx [1, 2, 3] [4] = Inr data \<and>
     crx_verify plain_crx data = Inr \<lparr>cp_id = extension_id plain_crx [4], cp_public_key = [4], cp_archive = [1, 2, 3]\<rparr>"
proof -
  obtain data where d: "crx_pack plain_crx [1, 2, 3] [4] = Inr data" using plain_crx_packs by blast
  have "crx_verify plain_crx data = Inr \<lparr>cp_id = extension_id plain_crx [4], cp_public_key = [4], cp_archive = [1, 2, 3]\<rparr>"
    by (rule packages_verify [OF plain_crx_agrees d])
      (auto simp: plain_crx_def)
  with d show ?thesis by blast
qed

text \<open>C38: A package that verifies was signed, over exactly the archive it carries, with the key its
  extension identifier is derived from.\<close>

theorem verified_packages_are_signed:
  assumes "crx_verify C data = Inr pkg"
  shows "cp_id pkg = extension_id C (cp_public_key pkg) \<and>
    (\<exists>rk sig header. cx_parse_public C (cp_public_key pkg) = Inr (Some rk) \<and>
       cx_verify C rk (cx_sha256 C (signed_payload header (cp_archive pkg))) sig) \<and>
    (\<exists>front. data = front @ cp_archive pkg)"
  by (rule crx_verify_Inr [OF assms])

theorem verified_packages_are_signed_witness:
  "\<exists>data pkg. crx_verify plain_crx data = Inr pkg \<and> cp_id pkg = extension_id plain_crx (cp_public_key pkg)"
proof -
  obtain data where d: "crx_pack plain_crx [1, 2, 3] [4] = Inr data" using plain_crx_packs by blast
  have "crx_verify plain_crx data = Inr \<lparr>cp_id = extension_id plain_crx [4], cp_public_key = [4], cp_archive = [1, 2, 3]\<rparr>"
    by (rule crx_pack_verifies [OF plain_crx_agrees d]) (auto simp: plain_crx_def)
  from this verified_packages_are_signed [OF this] show ?thesis by blast
qed


text \<open>A signed identifier counts as a number and ranks below a larger one, where the semantic versions
  make it a text, above all numbers.\<close>

theorem signed_identifiers_are_numbers: "compare_ident ''-5'' ''4'' = -1"
  by (simp add: compare_ident_def atoi_def unsigned_value_def digit_value_def compare_int_def)

text \<open>The update check asks the server at most once a day: after a check that asked, successfully or
  not, no check of the next 24 hours asks, as long as the cache file can be written and the clock does
  not run backwards.\<close>

theorem one_request_a_day:
  assumes "background getenv J c s = (Inr (), t)" and "cache_json J" and "cache_ready c s"
    and "mono (on_clock s)" and "\<And>n. on_clock s n \<noteq> zero_time" and "on_requests t \<noteq> on_requests s"
    and "fs_nodes u = fs_nodes t" and "\<And>n. fs_ok u n" and "on_clock u (on_ticks u) < on_clock s (on_ticks s) + cache_ttl"
  shows "length (on_requests t) = Suc (length (on_requests s)) \<and> on_requests (snd (background getenv J c u)) = on_requests u"
  by (rule at_most_one_request_a_day [OF assms])

theorem one_request_a_day_witness:
  "\<exists>t. background (\<lambda>_. None) plain_update_json demo_checker demo_online = (Inr (), t) \<and> length (on_requests t) = 1 \<and>
     on_requests (snd (background (\<lambda>_. None) plain_update_json demo_checker (demo_online\<lparr>fs_nodes := fs_nodes t\<rparr>))) = []"
proof -
  obtain t where t: "background (\<lambda>_. None) plain_update_json demo_checker demo_online = (Inr (), t)" "on_requests t \<noteq> on_requests demo_online"
    using demo_asks by blast
  let ?u = "demo_online\<lparr>fs_nodes := fs_nodes t\<rparr>"
  have "fs_nodes ?u = fs_nodes t" "\<And>n. fs_ok ?u n" "on_clock ?u (on_ticks ?u) < on_clock demo_online (on_ticks demo_online) + cache_ttl"
    "on_requests demo_online = []" by (simp_all add: demo_online_def cache_ttl_def)
  with one_request_a_day [OF t(1) plain_cache_json demo_cache_ready demo_clock t(2), of ?u] t(1) show ?thesis by auto
qed

text \<open>What the installer prints for the user's shell survives the shell: every text it quotes is read
  back as one word, character for character.\<close>

theorem quoted_words_read_back: "sh_word False (shell_quote s) = Some s"
  by (rule shell_quote_word)



end
